(* ===== verification/Prelude.thy ===== *)
theory Prelude
  imports Complex_Main "HOL-Library.AList" "HOL-Library.List_Lexorder" "HOL-Library.Char_ord"
    "HOL-Library.Product_Lexorder" "HOL-Library.Option_ord"
begin

text \<open>
  What the component theories share: the Python run-time notions the source uses
  everywhere (blank strings, insertion-ordered dictionaries, ordered de-duplication,
  aware and naive datetimes), exceptions as values, the result type of an operation
  that may raise, and the composition of state-changing operations.

  Strings are lists of characters; a character is a code point below 256, and the
  lexicographic order of \<open>List_Lexorder\<close> with \<open>Char_ord\<close> is Python's order on
  such strings. Integers are unbounded, as Python's are.
\<close>

section \<open>Lemma collections\<close>

named_theorems py_simps "definitions of the run-time layer, for evaluation and case analysis"
named_theorems frame_simps "what an operation leaves unchanged"

section \<open>Strings\<close>

text \<open>\<open>py_space\<close> is the white space that \<open>str.strip\<close> removes (code points below 256);
  \<open>blank s\<close> is the source's test \<open>not s.strip()\<close>.\<close>

definition py_space :: "char \<Rightarrow> bool" where
  "py_space c = (let n = of_char c :: nat
     in 9 \<le> n \<and> n \<le> 13 \<or> 28 \<le> n \<and> n \<le> 32 \<or> n = 133 \<or> n = 160)"

definition blank :: "string \<Rightarrow> bool" where
  "blank s = list_all py_space s"

lemma blank_Nil [simp]: "blank []"
  by (simp add: blank_def)

lemma blank_Cons [simp]: "blank (c # s) = (py_space c \<and> blank s)"
  by (simp add: blank_def)

lemma blank_append [simp]: "blank (s @ t) = (blank s \<and> blank t)"
  by (simp add: blank_def)

lemma not_blank_nonempty: "\<not> blank s \<Longrightarrow> s \<noteq> []"
  by auto

lemma py_space_simps [simp]:
  "py_space c = (of_char c \<in> {9, 10, 11, 12, 13, 28, 29, 30, 31, 32, 133, 160 :: nat})"
proof -
  have "(9 \<le> n \<and> n \<le> 13 \<or> 28 \<le> n \<and> n \<le> 32 \<or> n = 133 \<or> n = 160)
      = (n \<in> {9, 10, 11, 12, 13, 28, 29, 30, 31, 32, 133, 160})" for n :: nat
    by auto
  then show ?thesis
    by (simp only: py_space_def Let_def)
qed

text \<open>\<open>sep.join(xs)\<close>.\<close>

fun join :: "string \<Rightarrow> string list \<Rightarrow> string" where
  "join sep [] = []"
| "join sep [x] = x"
| "join sep (x # y # xs) = x @ sep @ join sep (y # xs)"

section \<open>Exceptions and results\<close>

text \<open>The machine-readable failure codes of \<open>domain/failures.py\<close>; rejections of the
  data-access layer and of the security gateway carry one.\<close>

datatype failure_code =
    AMBIGUOUS_PATH | MISSING_PATH | INVALID_DISCRIMINATOR | CONFIGURATION_UNAVAILABLE
  | QUERY_PLAN_UNAVAILABLE | UNSUPPORTED_OPERATION | MUTATION_BLOCKED | UNSUPPORTED_CAPABILITY
  | NONDETERMINISTIC_ORDER | INVALID_QUERY_PARAMETERS | READ_ONLY_CREDENTIAL_REQUIRED
  | DATABASE_AUTHENTICATION_FAILED | DATABASE_ACCESS_DENIED | DATABASE_PROTECTION_REQUIRED
  | RESULT_NORMALIZATION_FAILED | SECURITY_POLICY_UNAVAILABLE | SECURITY_POLICY_INVALID
  | SECURITY_POLICY_DENIED | SECURITY_PROVIDER_DENIED | SECURITY_DATA_DENIED
  | SECURITY_PROTECTION_REQUIRED | MODEL_AUTHENTICATION_FAILED

record typed_failure =
  tf_code :: failure_code
  tf_message :: string
  tf_retryable :: bool

definition TypedFailure :: "failure_code \<Rightarrow> string \<Rightarrow> typed_failure" where
  "TypedFailure c m = \<lparr>tf_code = c, tf_message = m, tf_retryable = False\<rparr>"

text \<open>The failures of \<open>domain/configuration.py\<close> that a rejected activation reports.\<close>

datatype validation_failure_kind = VF_MISSING | VF_INVALID | VF_INCOMPATIBLE | VF_UNAUTHORIZED | VF_UNAVAILABLE

record configuration_failure =
  cf_rule_id :: string
  cf_path :: string
  cf_kind :: validation_failure_kind
  cf_message :: string

text \<open>The terminal states of work items of \<open>bulk/models.py\<close>; a task failure of the bulk pipeline
  carries one.\<close>

datatype terminal_work_item_state =
    TS_SUCCEEDED | TS_VALIDATION_FAILED | TS_POLICY_REJECTED | TS_BUDGET_EXHAUSTED
  | TS_RETRY_EXHAUSTED | TS_WRITE_BACK_FAILED | TS_CANCELLED

text \<open>One constructor per exception class the source raises; the argument is what the
  source attaches (a message, or the failure object).\<close>

datatype exn =
    ValueError string
  | TypeError string
  | KeyError string
  | RuntimeError string
  | AssertionError string
  | BudgetBindingError string
  | ReservationNotFoundError string
  | ReservationStateError string
  | WorkNotFoundError string
  | WorkConflictError string
  | LeaseOwnershipError string
  | CheckpointTransitionError string
  | DeadLetterPersistenceError string
  | EffectRecoveryError string
  | EffectConflictError string
  | ConfigurationBindingError typed_failure
  | DataAccessRejection typed_failure
  | SecurityRejection typed_failure
  | NormalizationError string
  | ModelPlanningError string
  | BudgetExhausted "string list"
  | ConfigurationActivationError "configuration_failure list"
  | EvidenceActivationError "configuration_failure list"
  | CanonicalSerializationError string
  | OversizedRow string
  | TaskDefinitionValidationError "string list"
  | BulkTaskFailure terminal_work_item_state string string
  | ForeignError string string

text \<open>\<open>exn_name\<close> is \<open>type(error).__name__\<close> and \<open>exn_text\<close> is \<open>str(error)\<close>;
  \<open>ForeignError\<close> is an exception raised by code outside the repository (an adapter or
  a sink), with its class name and its text.\<close>

fun exn_name :: "exn \<Rightarrow> string" where
  "exn_name (ValueError _) = ''ValueError''"
| "exn_name (TypeError _) = ''TypeError''"
| "exn_name (KeyError _) = ''KeyError''"
| "exn_name (RuntimeError _) = ''RuntimeError''"
| "exn_name (AssertionError _) = ''AssertionError''"
| "exn_name (BudgetBindingError _) = ''BudgetBindingError''"
| "exn_name (ReservationNotFoundError _) = ''ReservationNotFoundError''"
| "exn_name (ReservationStateError _) = ''ReservationStateError''"
| "exn_name (WorkNotFoundError _) = ''WorkNotFoundError''"
| "exn_name (WorkConflictError _) = ''WorkConflictError''"
| "exn_name (LeaseOwnershipError _) = ''LeaseOwnershipError''"
| "exn_name (CheckpointTransitionError _) = ''CheckpointTransitionError''"
| "exn_name (DeadLetterPersistenceError _) = ''DeadLetterPersistenceError''"
| "exn_name (EffectRecoveryError _) = ''EffectRecoveryError''"
| "exn_name (EffectConflictError _) = ''EffectConflictError''"
| "exn_name (ConfigurationBindingError _) = ''ConfigurationBindingError''"
| "exn_name (DataAccessRejection _) = ''DataAccessRejection''"
| "exn_name (SecurityRejection _) = ''SecurityRejection''"
| "exn_name (NormalizationError _) = ''NormalizationError''"
| "exn_name (ModelPlanningError _) = ''ModelPlanningError''"
| "exn_name (BudgetExhausted _) = ''_BudgetExhausted''"
| "exn_name (ConfigurationActivationError _) = ''ConfigurationActivationError''"
| "exn_name (EvidenceActivationError _) = ''EvidenceActivationError''"
| "exn_name (CanonicalSerializationError _) = ''CanonicalSerializationError''"
| "exn_name (OversizedRow _) = ''_OversizedRow''"
| "exn_name (TaskDefinitionValidationError _) = ''TaskDefinitionValidationError''"
| "exn_name (BulkTaskFailure _ _ _) = ''_BulkTaskFailure''"
| "exn_name (ForeignError n _) = n"

fun exn_text :: "exn \<Rightarrow> string" where
  "exn_text (ValueError m) = m"
| "exn_text (TypeError m) = m"
| "exn_text (KeyError m) = CHR 0x27 # m @ [CHR 0x27]"
| "exn_text (RuntimeError m) = m"
| "exn_text (AssertionError m) = m"
| "exn_text (BudgetBindingError m) = m"
| "exn_text (ReservationNotFoundError m) = m"
| "exn_text (ReservationStateError m) = m"
| "exn_text (WorkNotFoundError m) = m"
| "exn_text (WorkConflictError m) = m"
| "exn_text (LeaseOwnershipError m) = m"
| "exn_text (CheckpointTransitionError m) = m"
| "exn_text (DeadLetterPersistenceError m) = m"
| "exn_text (EffectRecoveryError m) = m"
| "exn_text (EffectConflictError m) = m"
| "exn_text (ConfigurationBindingError f) = tf_message f"
| "exn_text (DataAccessRejection f) = tf_message f"
| "exn_text (SecurityRejection f) = tf_message f"
| "exn_text (NormalizationError m) = m"
| "exn_text (ModelPlanningError m) = m"
| "exn_text (BudgetExhausted _) = ''budget exhausted''"
| "exn_text (ConfigurationActivationError _) = ''configuration activation rejected''"
| "exn_text (EvidenceActivationError _) = ''adapter evidence rejected''"
| "exn_text (CanonicalSerializationError m) = m"
| "exn_text (OversizedRow _) = ''row does not fit an empty pack''"
| "exn_text (TaskDefinitionValidationError rules) = ''invalid task definition: '' @ join '', '' rules"
| "exn_text (BulkTaskFailure _ _ m) = m"
| "exn_text (ForeignError _ m) = m"

text \<open>A pure operation that may raise returns \<open>exn + 'a\<close>; a method of an object with
  state takes the state and returns the outcome with the state it leaves, on the error
  paths too.\<close>

type_synonym 'a res = "exn + 'a"
type_synonym ('s, 'a) meth = "'s \<Rightarrow> 'a res \<times> 's"

definition bindR :: "'a res \<Rightarrow> ('a \<Rightarrow> 'b res) \<Rightarrow> 'b res" where
  "bindR m f = (case m of Inl e \<Rightarrow> Inl e | Inr x \<Rightarrow> f x)"

definition bindM :: "('s, 'a) meth \<Rightarrow> ('a \<Rightarrow> ('s, 'b) meth) \<Rightarrow> ('s, 'b) meth" where
  "bindM m f = (\<lambda>s. case m s of (Inl e, s') \<Rightarrow> (Inl e, s') | (Inr x, s') \<Rightarrow> f x s')"

definition pureM :: "'a \<Rightarrow> ('s, 'a) meth" where
  "pureM x = (\<lambda>s. (Inr x, s))"

definition raiseM :: "exn \<Rightarrow> ('s, 'a) meth" where
  "raiseM e = (\<lambda>s. (Inl e, s))"

definition liftR :: "'a res \<Rightarrow> ('s, 'a) meth" where
  "liftR m = (\<lambda>s. (m, s))"

definition returned :: "'a res \<Rightarrow> bool" where
  "returned m = (case m of Inl _ \<Rightarrow> False | Inr _ \<Rightarrow> True)"

lemma bindR_simps [simp]: "bindR (Inl e) f = Inl e" "bindR (Inr x) f = f x"
  by (simp_all add: bindR_def)

lemma bindR_Inr: "bindR m f = Inr y \<longleftrightarrow> (\<exists>x. m = Inr x \<and> f x = Inr y)"
  by (cases m) auto

lemma bindR_Inl: "bindR m f = Inl e \<longleftrightarrow> m = Inl e \<or> (\<exists>x. m = Inr x \<and> f x = Inl e)"
  by (cases m) auto

lemma returned_simps [simp]: "\<not> returned (Inl e)" "returned (Inr x)"
  by (simp_all add: returned_def)

lemma returned_iff: "returned m \<longleftrightarrow> (\<exists>x. m = Inr x)"
  by (cases m) auto

lemma bindM_Inr:
  "bindM m f s = (Inr y, s'') \<longleftrightarrow> (\<exists>x s'. m s = (Inr x, s') \<and> f x s' = (Inr y, s''))"
  by (auto simp: bindM_def split: prod.splits sum.splits)

lemma bindM_run:
  "m s = (Inr x, s') \<Longrightarrow> bindM m f s = f x s'"
  "m s = (Inl e, s') \<Longrightarrow> bindM m f s = (Inl e, s')"
  by (simp_all add: bindM_def)

lemma meth_simps [simp]:
  "pureM x s = (Inr x, s)" "raiseM e s = (Inl e, s)" "liftR m s = (m, s)"
  by (simp_all add: pureM_def raiseM_def liftR_def)

section \<open>Dictionaries\<close>

text \<open>A Python \<open>dict\<close> keeps its keys in insertion order and rewrites a present key in
  place; \<open>AList.update\<close> on an association list does the same, and \<open>AList.delete\<close> is
  \<open>pop\<close>. Lookups are \<open>map_of\<close>.\<close>

type_synonym ('k, 'v) dict = "('k \<times> 'v) list"

abbreviation dget :: "('k, 'v) dict \<Rightarrow> 'k \<Rightarrow> 'v option" where
  "dget d k \<equiv> map_of d k"

abbreviation dset :: "'k \<Rightarrow> 'v \<Rightarrow> ('k, 'v) dict \<Rightarrow> ('k, 'v) dict" where
  "dset k v d \<equiv> AList.update k v d"

abbreviation dpop :: "'k \<Rightarrow> ('k, 'v) dict \<Rightarrow> ('k, 'v) dict" where
  "dpop k d \<equiv> AList.delete k d"

abbreviation dvalues :: "('k, 'v) dict \<Rightarrow> 'v list" where
  "dvalues d \<equiv> map snd d"

abbreviation dkeys :: "('k, 'v) dict \<Rightarrow> 'k list" where
  "dkeys d \<equiv> map fst d"

text \<open>\<open>d[k]\<close>, which raises on a missing key.\<close>

definition dict_item :: "('k \<Rightarrow> string) \<Rightarrow> ('k, 'v) dict \<Rightarrow> 'k \<Rightarrow> 'v res" where
  "dict_item show_key d k = (case dget d k of None \<Rightarrow> Inl (KeyError (show_key k)) | Some v \<Rightarrow> Inr v)"

declare map_of_eq_Some_iff [simp del]

lemma dget_dset [simp]: "dget (dset k v d) k' = (if k = k' then Some v else dget d k')"
  by (simp add: update_conv')

lemma dget_dpop [simp]: "dget (dpop k d) k' = (if k = k' then None else dget d k')"
  by (simp add: delete_conv')

lemma distinct_dset [simp]: "distinct (dkeys d) \<Longrightarrow> distinct (dkeys (dset k v d))"
  by (rule distinct_update)

lemma distinct_dpop [simp]: "distinct (dkeys d) \<Longrightarrow> distinct (dkeys (dpop k d))"
  by (rule distinct_delete)

lemma dget_in_values: "dget d k = Some v \<Longrightarrow> v \<in> set (dvalues d)"
  by (metis map_of_SomeD image_eqI set_map snd_conv)

lemma values_dget:
  "distinct (dkeys d) \<Longrightarrow> v \<in> set (dvalues d) \<Longrightarrow> \<exists>k. dget d k = Some v"
  by (auto simp: map_of_eq_Some_iff)

lemma dset_fresh: "dget d k = None \<Longrightarrow> dset k v d = d @ [(k, v)]"
  by (induction d) (auto split: if_splits)

lemma dset_split:
  "dget d k = Some v \<Longrightarrow> \<exists>d1 d2. d = d1 @ (k, v) # d2 \<and> dset k w d = d1 @ (k, w) # d2"
proof (induction d)
  case (Cons p d)
  show ?case
  proof (cases "fst p = k")
    case True
    with Cons.prems have "p # d = [] @ (k, v) # d \<and> dset k w (p # d) = [] @ (k, w) # d"
      by (cases p) auto
    then show ?thesis by blast
  next
    case False
    with Cons.prems have "dget d k = Some v" by (cases p) auto
    from Cons.IH [OF this] obtain d1 d2
      where "d = d1 @ (k, v) # d2" "dset k w d = d1 @ (k, w) # d2" by blast
    with False have "p # d = (p # d1) @ (k, v) # d2 \<and> dset k w (p # d) = (p # d1) @ (k, w) # d2"
      by simp
    then show ?thesis by blast
  qed
qed simp

text \<open>A sum over a dictionary moves by the change of the one value that was replaced.\<close>

definition dsum :: "('v \<Rightarrow> int) \<Rightarrow> ('k, 'v) dict \<Rightarrow> int" where
  "dsum f d = sum_list (map (\<lambda>p. f (snd p)) d)"

lemma dsum_Nil [simp]: "dsum f [] = 0"
  by (simp add: dsum_def)

lemma dsum_replace: "dget d k = Some v \<Longrightarrow> dsum f (dset k w d) = dsum f d - f v + f w"
  using dset_split [of d k v w] by (auto simp: dsum_def)

lemma dsum_fresh: "dget d k = None \<Longrightarrow> dsum f (dset k w d) = dsum f d + f w"
  by (simp add: dset_fresh dsum_def)

lemma dpop_split:
  "distinct (dkeys d) \<Longrightarrow> dget d k = Some v \<Longrightarrow> \<exists>d1 d2. d = d1 @ (k, v) # d2 \<and> dpop k d = d1 @ d2"
proof (induction d)
  case (Cons p d)
  show ?case
  proof (cases "fst p = k")
    case True
    with Cons.prems have "p # d = [] @ (k, v) # d \<and> dpop k (p # d) = [] @ d"
      by (cases p) auto
    then show ?thesis by blast
  next
    case False
    with Cons.prems have "distinct (dkeys d)" "dget d k = Some v" by (cases p; auto)+
    from Cons.IH [OF this] obtain d1 d2 where "d = d1 @ (k, v) # d2" "dpop k d = d1 @ d2" by blast
    with False have "p # d = (p # d1) @ (k, v) # d2 \<and> dpop k (p # d) = (p # d1) @ d2"
      by (cases p) simp
    then show ?thesis by blast
  qed
qed simp

lemma dsum_pop: "distinct (dkeys d) \<Longrightarrow> dget d k = Some v \<Longrightarrow> dsum f (dpop k d) = dsum f d - f v"
  using dpop_split [of d k v] by (auto simp: dsum_def)

lemma dsum_nonneg: "(\<And>v. v \<in> set (dvalues d) \<Longrightarrow> 0 \<le> f v) \<Longrightarrow> 0 \<le> dsum f d"
  unfolding dsum_def by (rule sum_list_nonneg) auto

lemma dsum_member_le:
  "(\<And>v. v \<in> set (dvalues d) \<Longrightarrow> 0 \<le> f v) \<Longrightarrow> dget d k = Some v \<Longrightarrow> f v \<le> dsum f d"
  unfolding dsum_def by (rule member_le_sum_list) (force dest: map_of_SomeD)+

section \<open>Ordered de-duplication and joining\<close>

text \<open>\<open>tuple(dict.fromkeys(xs))\<close> keeps the first occurrence of every element.\<close>

fun fromkeys :: "'a list \<Rightarrow> 'a list" where
  "fromkeys [] = []"
| "fromkeys (x # xs) = x # filter (\<lambda>y. y \<noteq> x) (fromkeys xs)"

lemma set_fromkeys [simp]: "set (fromkeys xs) = set xs"
  by (induction xs) auto

lemma distinct_fromkeys [simp]: "distinct (fromkeys xs)"
  by (induction xs) auto

lemma fromkeys_distinct: "distinct xs \<Longrightarrow> fromkeys xs = xs"
proof (induction xs)
  case (Cons x xs)
  then have "filter (\<lambda>y. y \<noteq> x) xs = xs" by (auto intro: filter_True)
  with Cons show ?case by simp
qed simp

lemma fromkeys_eq_Nil [simp]: "fromkeys xs = [] \<longleftrightarrow> xs = []"
  by (cases xs) auto

text \<open>The checks \<open>_require_text(name, value)\<close> of the source, run over a tuple of named
  values: the first blank one raises.\<close>

fun require_texts :: "(string \<times> string) list \<Rightarrow> unit res" where
  "require_texts [] = Inr ()"
| "require_texts ((name, v) # rest) =
     (if blank v then Inl (ValueError (name @ '' must not be blank'')) else require_texts rest)"

lemma require_texts_Inr: "require_texts nvs = Inr u \<longleftrightarrow> list_all (\<lambda>p. \<not> blank (snd p)) nvs"
  by (induction nvs rule: require_texts.induct) auto

text \<open>\<open>value is not None and not value.strip()\<close>, and the check \<open>not value or not
  value.strip()\<close> for an optional text.\<close>

definition blank_option :: "string option \<Rightarrow> bool" where
  "blank_option v = (case v of None \<Rightarrow> False | Some s \<Rightarrow> blank s)"

definition missing_text :: "string option \<Rightarrow> bool" where
  "missing_text v = (case v of None \<Rightarrow> True | Some s \<Rightarrow> blank s)"

section \<open>Datetimes\<close>

text \<open>A \<open>datetime\<close> is a number of microseconds (its resolution) and is aware of its time
  zone or naive. Ordering a naive against an aware one raises \<open>TypeError\<close>; a
  \<open>timedelta\<close> is a number of microseconds.\<close>

datatype datetime = Aware int | Naive int

type_synonym timedelta = int

fun tz_aware :: "datetime \<Rightarrow> bool" where
  "tz_aware (Aware _) = True"
| "tz_aware (Naive _) = False"

fun dt_plus :: "datetime \<Rightarrow> timedelta \<Rightarrow> datetime" where
  "dt_plus (Aware t) d = Aware (t + d)"
| "dt_plus (Naive t) d = Naive (t + d)"

fun dt_less :: "datetime \<Rightarrow> datetime \<Rightarrow> bool res" where
  "dt_less (Aware a) (Aware b) = Inr (a < b)"
| "dt_less (Naive a) (Naive b) = Inr (a < b)"
| "dt_less _ _ = Inl (TypeError ''can't compare offset-naive and offset-aware datetimes'')"

fun dt_le :: "datetime \<Rightarrow> datetime \<Rightarrow> bool res" where
  "dt_le (Aware a) (Aware b) = Inr (a \<le> b)"
| "dt_le (Naive a) (Naive b) = Inr (a \<le> b)"
| "dt_le _ _ = Inl (TypeError ''can't compare offset-naive and offset-aware datetimes'')"

lemma tz_aware_iff: "tz_aware t \<longleftrightarrow> (\<exists>m. t = Aware m)"
  by (cases t) auto

lemma tz_aware_plus [simp]: "tz_aware (dt_plus t d) = tz_aware t"
  by (cases t) auto

end
