(* ===== verification/Frozen.thy ===== *)
theory Frozen
  imports Prelude
begin

text \<open>
  \<open>domain/immutable.py\<close>: the values that cross component boundaries and \<open>freeze\<close>,
  which copies one into a recursively immutable representation.
\<close>

section \<open>Values\<close>

text \<open>The Python objects the source inspects. A float is an exact (rational) number, an
  infinity or not-a-number; a set is listed in its iteration order; \<open>VFrozen\<close> is a
  \<open>FrozenMapping\<close> with its \<open>_items\<close>; \<open>VObject\<close> is any other object, with its class
  name.\<close>

datatype pyfloat = Finite rat | PosInf | NegInf | NaN

datatype pyval =
    VNone | VBool bool | VInt int | VFloat pyfloat | VStr string
  | VBytes string | VByteArray string
  | VList "pyval list" | VTuple "pyval list" | VSet "pyval list" | VFrozenset "pyval list"
  | VDict "(pyval \<times> pyval) list" | VFrozen "(string \<times> pyval) list" | VObject string

type_synonym frozen_mapping = "(string \<times> pyval) list"

text \<open>\<open>FrozenMapping.get\<close>/\<open>__getitem__\<close>: the first entry with the key.\<close>

abbreviation fm_get :: "frozen_mapping \<Rightarrow> string \<Rightarrow> pyval option" where
  "fm_get m k \<equiv> map_of m k"

fun is_str :: "pyval \<Rightarrow> bool" where
  "is_str (VStr _) = True"
| "is_str _ = False"

fun str_of :: "pyval \<Rightarrow> string" where
  "str_of (VStr s) = s"
| "str_of _ = []"

fun class_name :: "pyval \<Rightarrow> string" where
  "class_name VNone = ''NoneType''"
| "class_name (VBool _) = ''bool''"
| "class_name (VInt _) = ''int''"
| "class_name (VFloat _) = ''float''"
| "class_name (VStr _) = ''str''"
| "class_name (VBytes _) = ''bytes''"
| "class_name (VByteArray _) = ''bytearray''"
| "class_name (VList _) = ''list''"
| "class_name (VTuple _) = ''tuple''"
| "class_name (VSet _) = ''set''"
| "class_name (VFrozenset _) = ''frozenset''"
| "class_name (VDict _) = ''dict''"
| "class_name (VFrozen _) = ''FrozenMapping''"
| "class_name (VObject n) = n"

section \<open>freeze\<close>

fun freeze :: "pyval \<Rightarrow> pyval res"
and freeze_list :: "pyval list \<Rightarrow> pyval list res"
and freeze_items :: "(pyval \<times> pyval) list \<Rightarrow> (string \<times> pyval) list res" where
  "freeze (VFrozen m) = Inr (VFrozen m)"
| "freeze (VDict kvs) =
     (if \<not> list_all (\<lambda>p. is_str (fst p)) kvs
      then Inl (TypeError ''immutable mappings require string keys'')
      else bindR (freeze_items kvs) (\<lambda>items. Inr (VFrozen (sort_key fst items))))"
| "freeze (VList xs) = bindR (freeze_list xs) (\<lambda>ys. Inr (VTuple ys))"
| "freeze (VTuple xs) = bindR (freeze_list xs) (\<lambda>ys. Inr (VTuple ys))"
| "freeze (VSet xs) = bindR (freeze_list xs) (\<lambda>ys. Inr (VFrozenset ys))"
| "freeze (VFrozenset xs) = bindR (freeze_list xs) (\<lambda>ys. Inr (VFrozenset ys))"
| "freeze VNone = Inr VNone"
| "freeze (VStr s) = Inr (VStr s)"
| "freeze (VInt n) = Inr (VInt n)"
| "freeze (VFloat x) = Inr (VFloat x)"
| "freeze (VBool b) = Inr (VBool b)"
| "freeze (VBytes b) = Inl (TypeError (''unsupported immutable value: '' @ ''bytes''))"
| "freeze (VByteArray b) = Inl (TypeError (''unsupported immutable value: '' @ ''bytearray''))"
| "freeze (VObject n) = Inl (TypeError (''unsupported immutable value: '' @ n))"
| "freeze_list [] = Inr []"
| "freeze_list (x # xs) = bindR (freeze x) (\<lambda>y. bindR (freeze_list xs) (\<lambda>ys. Inr (y # ys)))"
| "freeze_items [] = Inr []"
| "freeze_items ((k, v) # kvs) =
     bindR (freeze v) (\<lambda>w. bindR (freeze_items kvs) (\<lambda>ws. Inr ((str_of k, w) # ws)))"

text \<open>The frozen fragment: what an immutable value is made of.\<close>

fun is_frozen :: "pyval \<Rightarrow> bool"
and frozen_list :: "pyval list \<Rightarrow> bool"
and frozen_items :: "(string \<times> pyval) list \<Rightarrow> bool" where
  "is_frozen (VFrozen m) = frozen_items m"
| "is_frozen (VTuple xs) = frozen_list xs"
| "is_frozen (VFrozenset xs) = frozen_list xs"
| "is_frozen VNone = True"
| "is_frozen (VBool _) = True"
| "is_frozen (VInt _) = True"
| "is_frozen (VFloat _) = True"
| "is_frozen (VStr _) = True"
| "is_frozen (VBytes _) = False"
| "is_frozen (VByteArray _) = False"
| "is_frozen (VList _) = False"
| "is_frozen (VSet _) = False"
| "is_frozen (VDict _) = False"
| "is_frozen (VObject _) = False"
| "frozen_list [] = True"
| "frozen_list (x # xs) = (is_frozen x \<and> frozen_list xs)"
| "frozen_items [] = True"
| "frozen_items ((k, v) # kvs) = (is_frozen v \<and> frozen_items kvs)"

text \<open>Every \<open>FrozenMapping\<close> inside the input is already immutable inside (its
  constructor is only called on frozen items).\<close>

fun frozen_inside :: "pyval \<Rightarrow> bool"
and frozen_inside_list :: "pyval list \<Rightarrow> bool"
and frozen_inside_items :: "(pyval \<times> pyval) list \<Rightarrow> bool" where
  "frozen_inside (VFrozen m) = frozen_items m"
| "frozen_inside (VTuple xs) = frozen_inside_list xs"
| "frozen_inside (VFrozenset xs) = frozen_inside_list xs"
| "frozen_inside (VList xs) = frozen_inside_list xs"
| "frozen_inside (VSet xs) = frozen_inside_list xs"
| "frozen_inside (VDict kvs) = frozen_inside_items kvs"
| "frozen_inside VNone = True"
| "frozen_inside (VBool _) = True"
| "frozen_inside (VInt _) = True"
| "frozen_inside (VFloat _) = True"
| "frozen_inside (VStr _) = True"
| "frozen_inside (VBytes _) = True"
| "frozen_inside (VByteArray _) = True"
| "frozen_inside (VObject _) = True"
| "frozen_inside_list [] = True"
| "frozen_inside_list (x # xs) = (frozen_inside x \<and> frozen_inside_list xs)"
| "frozen_inside_items [] = True"
| "frozen_inside_items ((k, v) # kvs) = (frozen_inside v \<and> frozen_inside_items kvs)"

lemma frozen_items_iff: "frozen_items m \<longleftrightarrow> (\<forall>p \<in> set m. is_frozen (snd p))"
  by (induction m) auto

lemma frozen_items_sort [simp]: "frozen_items (sort_key f m) = frozen_items m"
  by (simp add: frozen_items_iff)

lemma freeze_is_frozen_all:
  "frozen_inside v \<Longrightarrow> freeze v = Inr w \<Longrightarrow> is_frozen w"
  "frozen_inside_list vs \<Longrightarrow> freeze_list vs = Inr ws \<Longrightarrow> frozen_list ws"
  "frozen_inside_items kvs \<Longrightarrow> freeze_items kvs = Inr items \<Longrightarrow> frozen_items items"
  by (induction v and vs and kvs arbitrary: w and ws and items
        rule: freeze_freeze_list_freeze_items.induct)
     (auto simp: bindR_Inr split: if_splits)

lemmas freeze_is_frozen = freeze_is_frozen_all(1)

lemma freeze_frozen_all:
  "is_frozen v \<Longrightarrow> freeze v = Inr v"
  "frozen_list vs \<Longrightarrow> freeze_list vs = Inr vs"
  "frozen_items m \<Longrightarrow> True"
  by (induction v and vs and m rule: is_frozen_frozen_list_frozen_items.induct) auto

lemmas freeze_frozen = freeze_frozen_all(1)

text \<open>A dictionary freezes to a mapping with the same keys, in sorted order, each bound to
  the frozen value of its entry.\<close>

lemma freeze_items_keys:
  "list_all (\<lambda>p. is_str (fst p)) kvs \<Longrightarrow> freeze_items kvs = Inr items \<Longrightarrow>
     map fst items = map (str_of \<circ> fst) kvs"
  by (induction kvs arbitrary: items) (auto simp: bindR_Inr)

lemma freeze_items_get:
  "list_all (\<lambda>p. is_str (fst p)) kvs \<Longrightarrow> freeze_items kvs = Inr items \<Longrightarrow>
     (case map_of kvs (VStr k) of None \<Rightarrow> map_of items k = None
      | Some v \<Rightarrow> \<exists>w. freeze v = Inr w \<and> map_of items k = Some w)"
proof (induction kvs arbitrary: items)
  case (Cons p kvs)
  obtain c v where p: "p = (VStr c, v)"
    using Cons.prems(1) by (cases p; cases "fst p") auto
  from Cons.prems(2) p obtain w ws
    where w: "freeze v = Inr w" "freeze_items kvs = Inr ws" "items = (c, w) # ws"
    by (auto simp: bindR_Inr)
  from Cons.prems(1) have "list_all (\<lambda>p. is_str (fst p)) kvs" by simp
  from Cons.IH [OF this w(2)] w p show ?case
    by (cases "k = c") (auto split: option.splits)
qed simp

lemma map_of_sort_key_fst:
  assumes "distinct (map fst items)"
  shows "map_of (sort_key fst items) = map_of items"
proof -
  have "distinct (map fst (sort_key fst items))"
    using assms by (simp add: distinct_map)
  then show ?thesis
    using assms by (intro map_of_inject_set [THEN iffD2]) auto
qed

end
