(* ===== verification/Domain.thy ===== *)
theory Domain
  imports Frozen
begin

text \<open>
  The immutable values of \<open>domain/\<close>: configuration references and snapshots,
  execution contexts, work descriptions, the admission envelope and decision. A frozen
  dataclass is a record; its \<open>__post_init__\<close> is a function with suffix \<open>_post\<close> that
  returns the record or the exception.
\<close>

section \<open>Configuration\<close>

record configuration_reference =
  profile_id :: string
  version :: string

definition ConfigurationReference :: "string \<Rightarrow> string \<Rightarrow> configuration_reference res" where
  "ConfigurationReference p v =
     (if blank p \<or> blank v
      then Inl (ValueError ''configuration profile_id and version must not be blank'')
      else Inr \<lparr>profile_id = p, version = v\<rparr>)"

record execution_configuration =
  reference :: configuration_reference
  content :: frozen_mapping
  security_policy_version :: "string option"
  validation_rules_version :: "string option"

section \<open>Execution contexts\<close>

datatype execution_path = INTERACTIVE | BULK

record cancellation_context =
  cc_token :: string
  cc_timeout_seconds :: rat

definition CancellationContext :: "string \<Rightarrow> rat \<Rightarrow> cancellation_context res" where
  "CancellationContext token timeout =
     (if blank token then Inl (ValueError ''cancellation token must not be blank'')
      else if timeout < 0 then Inl (ValueError ''cancellation timeout must be non-negative'')
      else Inr \<lparr>cc_token = token, cc_timeout_seconds = timeout\<rparr>)"

record deadline_context =
  accepted_at :: datetime
  deadline :: "datetime option"

definition DeadlineContext :: "datetime \<Rightarrow> datetime option \<Rightarrow> deadline_context res" where
  "DeadlineContext accepted dl =
     (case dl of None \<Rightarrow> Inr \<lparr>accepted_at = accepted, deadline = None\<rparr>
      | Some d \<Rightarrow> bindR (dt_less d accepted) (\<lambda>b.
          if b then Inl (ValueError ''deadline must not precede acceptance'')
          else Inr \<lparr>accepted_at = accepted, deadline = Some d\<rparr>))"

record execution_context =
  execution_id :: string
  correlation_id :: string
  ctx_path :: execution_path
  ctx_configuration :: execution_configuration
  timing :: deadline_context
  cancellation :: cancellation_context

text \<open>\<open>ExecutionId\<close> and \<open>CorrelationId\<close> wrap a non-blank string.\<close>

definition ExecutionId :: "string \<Rightarrow> string res" where
  "ExecutionId v = (if blank v then Inl (ValueError ''execution_id must not be blank'') else Inr v)"

definition CorrelationId :: "string \<Rightarrow> string res" where
  "CorrelationId v = (if blank v then Inl (ValueError ''correlation_id must not be blank'') else Inr v)"

section \<open>Work\<close>

record query_work =
  qw_plan_id :: string
  qw_parameters :: frozen_mapping

definition QueryWork :: "string \<Rightarrow> frozen_mapping \<Rightarrow> query_work res" where
  "QueryWork p ps = (if blank p then Inl (ValueError ''query plan_id must not be blank'')
     else Inr \<lparr>qw_plan_id = p, qw_parameters = ps\<rparr>)"

text \<open>A \<open>frozenset[str]\<close> is the set of its members.\<close>

record model_work =
  task_type :: string
  payload_reference :: string
  mw_input_ids :: "string list"
  required_capabilities :: "string set"
  task_definition_version :: "string option"
  estimated_input_tokens :: "int option"
  estimated_output_tokens :: "int option"

definition negative_estimate :: "int option \<Rightarrow> bool" where
  "negative_estimate e = (case e of None \<Rightarrow> False | Some n \<Rightarrow> n < 0)"

definition ModelWork_post :: "model_work \<Rightarrow> model_work res" where
  "ModelWork_post w =
     (if blank (task_type w) \<or> blank (payload_reference w)
      then Inl (ValueError ''model task_type and payload_reference must not be blank'')
      else if list_ex blank (mw_input_ids w)
      then Inl (ValueError ''model input identifiers must not be blank'')
      else if blank_option (task_definition_version w)
      then Inl (ValueError ''task definition version must not be blank'')
      else if negative_estimate (estimated_input_tokens w) \<or> negative_estimate (estimated_output_tokens w)
      then Inl (ValueError ''model token estimates must be nonnegative integers'')
      else Inr w)"

record interactive_task_work =
  it_function :: string
  it_parameters :: frozen_mapping
  it_requested_definition_version :: "string option"

definition InteractiveTaskWork_post :: "interactive_task_work \<Rightarrow> interactive_task_work res" where
  "InteractiveTaskWork_post w =
     (if blank (it_function w) then Inl (ValueError ''interactive task function must not be blank'')
      else if blank_option (it_requested_definition_version w)
      then Inl (ValueError ''requested task definition version must not be blank'')
      else Inr w)"

record interactive_request =
  request_id :: string
  ir_query :: query_work
  ir_model_work :: "model_work list"
  ir_task :: "interactive_task_work option"

definition InteractiveRequest_post :: "interactive_request \<Rightarrow> interactive_request res" where
  "InteractiveRequest_post r =
     (if blank (request_id r) then Inl (ValueError ''request_id must not be blank'')
      else if ir_task r \<noteq> None \<and> ir_model_work r \<noteq> []
      then Inl (ValueError ''interactive request cannot mix task work and legacy ModelWork'')
      else Inr r)"

record bulk_task_work =
  bt_function :: string
  bt_parameters :: frozen_mapping
  bt_source_rows :: frozen_mapping
  bt_requested_definition_version :: "string option"

definition BulkTaskWork_post :: "bulk_task_work \<Rightarrow> bulk_task_work res" where
  "BulkTaskWork_post w =
     (if blank (bt_function w) then Inl (ValueError ''bulk task function must not be blank'')
      else if blank_option (bt_requested_definition_version w)
      then Inl (ValueError ''requested task definition version must not be blank'')
      else Inr w)"

record batch_job =
  bj_job_id :: string
  bj_item_ids :: "string list"
  bj_model_work :: "model_work list"
  bj_task :: "bulk_task_work option"

definition BatchJob_post :: "batch_job \<Rightarrow> batch_job res" where
  "BatchJob_post j =
     (if blank (bj_job_id j) then Inl (ValueError ''job_id must not be blank'')
      else if bj_item_ids j = [] \<or> list_ex blank (bj_item_ids j)
      then Inl (ValueError ''a batch job requires non-blank item identifiers'')
      else if bj_task j \<noteq> None \<and> bj_model_work j \<noteq> []
      then Inl (ValueError ''batch job cannot mix task work and legacy ModelWork'')
      else Inr j)"

section \<open>Admission\<close>

record admission_envelope =
  ae_configuration :: configuration_reference
  ae_interactive :: "interactive_request option"
  ae_bulk :: "batch_job option"
  ae_discriminator :: "execution_path option"
  interactive_deadline_seconds :: "rat option"
  cancellation_timeout_seconds :: rat

definition AdmissionEnvelope_post :: "admission_envelope \<Rightarrow> admission_envelope res" where
  "AdmissionEnvelope_post e =
     (if (case interactive_deadline_seconds e of None \<Rightarrow> False | Some d \<Rightarrow> d \<le> 0)
      then Inl (ValueError ''interactive deadline duration must be positive'')
      else if cancellation_timeout_seconds e < 0
      then Inl (ValueError ''cancellation timeout must be non-negative'')
      else Inr e)"

datatype outcome_status = ACCEPTED | REJECTED | COMPLETED

record 'o admission_decision =
  ad_status :: outcome_status
  ad_path :: "execution_path option"
  ad_context :: "execution_context option"
  ad_outcome :: "'o option"
  ad_failure :: "typed_failure option"

definition AdmissionDecision_post :: "'o admission_decision \<Rightarrow> 'o admission_decision res" where
  "AdmissionDecision_post d =
     (let accepted = (ad_status d = ACCEPTED) in
      if accepted \<noteq> (ad_path d \<noteq> None \<and> ad_context d \<noteq> None \<and> ad_outcome d \<noteq> None)
      then Inl (ValueError ''accepted decisions require path, context, and outcome'')
      else if accepted = (ad_failure d \<noteq> None)
      then Inl (ValueError ''only rejected decisions require a failure'')
      else Inr d)"

section \<open>A sample context\<close>

definition sample_context :: execution_context where
  "sample_context = \<lparr>execution_id = ''e1'', correlation_id = ''c1'', ctx_path = BULK,
     ctx_configuration = \<lparr>reference = \<lparr>profile_id = ''p'', version = ''1''\<rparr>, content = [],
       security_policy_version = None, validation_rules_version = None\<rparr>,
     timing = \<lparr>accepted_at = Aware 0, deadline = None\<rparr>,
     cancellation = \<lparr>cc_token = ''t'', cc_timeout_seconds = 1\<rparr>\<rparr>"

end
