(* ===== verification/Budget.thy ===== *)
theory Budget
  imports Domain
begin

text \<open>
  \<open>domain/budget.py\<close> and \<open>control_plane/budget.py\<close>: fixed-point usage values, budget
  bindings and reservations, and the \<open>InMemoryBudgetController\<close>, the ledger that
  reserves an estimate atomically over every scope bound to an execution and later
  replaces it by the actual usage. One lock makes each method atomic, so a method is one
  step of the ledger.
\<close>

section \<open>Usage and limits\<close>

datatype budget_dimension = COST | TOKENS

fun dimension_value :: "budget_dimension \<Rightarrow> string" where
  "dimension_value COST = ''cost''"
| "dimension_value TOKENS = ''tokens''"

text \<open>\<open>sorted(dimensions, key=str)\<close> orders dimensions by their values.\<close>

instantiation budget_dimension :: linorder
begin

definition less_eq_budget_dimension :: "budget_dimension \<Rightarrow> budget_dimension \<Rightarrow> bool" where
  "less_eq_budget_dimension a b = (dimension_value a \<le> dimension_value b)"

definition less_budget_dimension :: "budget_dimension \<Rightarrow> budget_dimension \<Rightarrow> bool" where
  "less_budget_dimension a b = (dimension_value a < dimension_value b)"

instance
proof
  fix a b :: budget_dimension
  show "a \<le> b \<Longrightarrow> b \<le> a \<Longrightarrow> a = b"
    by (cases a; cases b) (auto simp: less_eq_budget_dimension_def)
qed (auto simp: less_eq_budget_dimension_def less_budget_dimension_def)

end

record usage =
  cost_minor_units :: int
  input_tokens :: int
  output_tokens :: int

definition Usage :: "int \<Rightarrow> int \<Rightarrow> int \<Rightarrow> usage res" where
  "Usage c i out =
     (if c < 0 then Inl (ValueError ''cost_minor_units must be a non-negative fixed-point integer'')
      else if i < 0 then Inl (ValueError ''input_tokens must be a non-negative fixed-point integer'')
      else if out < 0 then Inl (ValueError ''output_tokens must be a non-negative fixed-point integer'')
      else Inr \<lparr>cost_minor_units = c, input_tokens = i, output_tokens = out\<rparr>)"

definition no_usage :: usage where
  "no_usage = \<lparr>cost_minor_units = 0, input_tokens = 0, output_tokens = 0\<rparr>"

definition total_tokens :: "usage \<Rightarrow> int" where
  "total_tokens u = input_tokens u + output_tokens u"

record budget_limit =
  bl_scope :: string
  bl_cost_minor_units :: int
  bl_token_units :: int

definition BudgetLimit :: "string \<Rightarrow> int \<Rightarrow> int \<Rightarrow> budget_limit res" where
  "BudgetLimit sc c t =
     (if blank sc then Inl (ValueError ''scope must not be blank'')
      else if c < 0 then Inl (ValueError ''cost_minor_units must be a non-negative fixed-point integer'')
      else if t < 0 then Inl (ValueError ''token_units must be a non-negative fixed-point integer'')
      else Inr \<lparr>bl_scope = sc, bl_cost_minor_units = c, bl_token_units = t\<rparr>)"

section \<open>Bindings, reservations, receipts\<close>

record budget_binding =
  bb_execution_id :: string
  bb_configuration_version :: string
  bb_scopes :: "string list"

definition BudgetBinding :: "string \<Rightarrow> string \<Rightarrow> string list \<Rightarrow> budget_binding res" where
  "BudgetBinding eid v scs =
     (if blank eid then Inl (ValueError ''execution_id must not be blank'')
      else if blank v then Inl (ValueError ''configuration_version must not be blank'')
      else if scs = [] \<or> \<not> distinct scs then Inl (ValueError ''budget binding requires unique scopes'')
      else if list_ex blank scs then Inl (ValueError ''scope must not be blank'')
      else Inr \<lparr>bb_execution_id = eid, bb_configuration_version = v, bb_scopes = scs\<rparr>)"

datatype reservation_state = ACTIVE | RECONCILED

record budget_reservation =
  reservation_id :: string
  br_execution_id :: string
  br_scopes :: "string list"
  estimate :: usage
  scope_revisions :: "(string \<times> int) list"
  br_state :: reservation_state

definition BudgetReservation_post :: "budget_reservation \<Rightarrow> budget_reservation res" where
  "BudgetReservation_post r =
     (if blank (reservation_id r) then Inl (ValueError ''reservation_id must not be blank'')
      else if blank (br_execution_id r) then Inl (ValueError ''execution_id must not be blank'')
      else if br_scopes r = [] then Inl (ValueError ''reservation requires at least one scope'')
      else Inr r)"

record budget_exhaustion =
  exhausted_scopes :: "string list"
  dimensions :: "budget_dimension list"

definition BudgetExhaustion_post :: "budget_exhaustion \<Rightarrow> budget_exhaustion res" where
  "BudgetExhaustion_post x =
     (if exhausted_scopes x = [] then Inl (ValueError ''budget exhaustion requires an exhausted scope'')
      else Inr x)"

record reservation_decision =
  rd_reservation :: "budget_reservation option"
  rd_exhaustion :: "budget_exhaustion option"

definition ReservationDecision ::
    "budget_reservation option \<Rightarrow> budget_exhaustion option \<Rightarrow> reservation_decision res" where
  "ReservationDecision r x =
     (if (r = None) = (x = None)
      then Inl (ValueError ''reservation decision requires exactly one outcome'')
      else Inr \<lparr>rd_reservation = r, rd_exhaustion = x\<rparr>)"

definition decision_accepted :: "reservation_decision \<Rightarrow> bool" where
  "decision_accepted d = (rd_reservation d \<noteq> None)"

record reconciliation_receipt =
  rr_reservation_id :: string
  rr_actual :: usage
  rr_released :: usage
  rr_scope_revisions :: "(string \<times> int) list"

definition ReconciliationReceipt_post :: "reconciliation_receipt \<Rightarrow> reconciliation_receipt res" where
  "ReconciliationReceipt_post r =
     (if blank (rr_reservation_id r) then Inl (ValueError ''reservation_id must not be blank'')
      else Inr r)"

section \<open>The controller\<close>

text \<open>\<open>_MutableBalance\<close> and \<open>_ReservationRecord\<close> are the entries of the ledger's
  dictionaries. \<open>next_identifier n\<close> is what the \<open>n\<close>-th call of the injected identifier
  callable returns; \<open>id_calls\<close> counts the calls.\<close>

record mutable_balance =
  mb_limit :: usage
  mb_reserved :: usage
  mb_actual :: usage
  mb_revision :: int

record reservation_record =
  rec_reservation :: budget_reservation
  rec_receipt :: "reconciliation_receipt option"

record budget_controller =
  balances :: "(string, mutable_balance) dict"
  bindings :: "(string, budget_binding) dict"
  reservations :: "(string, reservation_record) dict"
  next_identifier :: "nat \<Rightarrow> string"
  id_calls :: nat

fun initial_balances :: "budget_limit list \<Rightarrow> (string, mutable_balance) dict res" where
  "initial_balances [] = Inr []"
| "initial_balances (l # ls) =
     bindR (Usage (bl_cost_minor_units l) (bl_token_units l) 0) (\<lambda>u.
     bindR (initial_balances ls) (\<lambda>bs.
       Inr ((bl_scope l, \<lparr>mb_limit = u, mb_reserved = no_usage, mb_actual = no_usage,
                          mb_revision = 0\<rparr>) # bs)))"

definition budget_init :: "budget_limit list \<Rightarrow> (nat \<Rightarrow> string) \<Rightarrow> budget_controller res" where
  "budget_init limits ids =
     (if \<not> distinct (map bl_scope limits)
      then Inl (ValueError ''budget scope limits must be unique'')
      else bindR (initial_balances limits) (\<lambda>bs.
        Inr \<lparr>balances = bs, bindings = [], reservations = [], next_identifier = ids, id_calls = 0\<rparr>))"

text \<open>\<open>bind\<close> takes the execution identifier and the configuration version from the
  context.\<close>

definition normalize_scopes :: "string list \<Rightarrow> string list res" where
  "normalize_scopes scs =
     (let normalized = fromkeys scs in
      if normalized = []
      then Inl (BudgetBindingError ''at least one applicable budget scope is required'')
      else Inr normalized)"

definition require_known_scopes :: "string list \<Rightarrow> budget_controller \<Rightarrow> unit res" where
  "require_known_scopes scs c =
     (let missing = filter (\<lambda>s. dget (balances c) s = None) scs in
      if missing \<noteq> [] then Inl (BudgetBindingError (''unknown budget scopes: '' @ join '', '' missing))
      else Inr ())"

definition bind :: "execution_context \<Rightarrow> string list \<Rightarrow> (budget_controller, budget_binding) meth" where
  "bind ctx scs c =
     (case bindR (normalize_scopes scs) (\<lambda>normalized.
           bindR (require_known_scopes normalized c) (\<lambda>_.
           BudgetBinding (execution_id ctx) (version (reference (ctx_configuration ctx))) normalized)) of
        Inl e \<Rightarrow> (Inl e, c)
      | Inr proposed \<Rightarrow>
          (case dget (bindings c) (execution_id ctx) of
             Some existing \<Rightarrow>
               if existing \<noteq> proposed
               then (Inl (BudgetBindingError ''execution budget binding is immutable''), c)
               else (Inr proposed, c\<lparr>bindings := dset (execution_id ctx) proposed (bindings c)\<rparr>)
           | None \<Rightarrow> (Inr proposed, c\<lparr>bindings := dset (execution_id ctx) proposed (bindings c)\<rparr>)))"

definition available_cost :: "mutable_balance \<Rightarrow> int" where
  "available_cost b = cost_minor_units (mb_limit b) - cost_minor_units (mb_reserved b)
     - cost_minor_units (mb_actual b)"

definition available_tokens :: "mutable_balance \<Rightarrow> int" where
  "available_tokens b = total_tokens (mb_limit b) - total_tokens (mb_reserved b)
     - total_tokens (mb_actual b)"

definition cost_insufficient :: "usage \<Rightarrow> mutable_balance \<Rightarrow> bool" where
  "cost_insufficient u b = (cost_minor_units u > available_cost b)"

definition tokens_insufficient :: "usage \<Rightarrow> mutable_balance \<Rightarrow> bool" where
  "tokens_insufficient u b = (total_tokens u > available_tokens b)"

text \<open>The loop of \<open>_exhaustion\<close>: exhausted scopes in binding order and the dimensions
  that ran out.\<close>

fun exhaustion_scan ::
    "(string, mutable_balance) dict \<Rightarrow> usage \<Rightarrow> string list \<Rightarrow> (string list \<times> budget_dimension list) res" where
  "exhaustion_scan bs u [] = Inr ([], [])"
| "exhaustion_scan bs u (s # ss) =
     bindR (dict_item id bs s) (\<lambda>b.
     bindR (exhaustion_scan bs u ss) (\<lambda>(exhausted, dims).
       Inr ((if cost_insufficient u b \<or> tokens_insufficient u b then s # exhausted else exhausted),
            (if cost_insufficient u b then [COST] else [])
              @ (if tokens_insufficient u b then [TOKENS] else []) @ dims)))"

definition exhaustion ::
    "(string, mutable_balance) dict \<Rightarrow> string list \<Rightarrow> usage \<Rightarrow> budget_exhaustion option res" where
  "exhaustion bs scs u =
     bindR (exhaustion_scan bs u scs) (\<lambda>(exhausted, dims).
       if exhausted = [] then Inr None
       else bindR (BudgetExhaustion_post \<lparr>exhausted_scopes = exhausted, dimensions = sort (remdups dims)\<rparr>)
              (\<lambda>x. Inr (Some x)))"

definition usage_add :: "usage \<Rightarrow> usage \<Rightarrow> usage res" where
  "usage_add l r = Usage (cost_minor_units l + cost_minor_units r)
     (input_tokens l + input_tokens r) (output_tokens l + output_tokens r)"

definition usage_subtract :: "usage \<Rightarrow> usage \<Rightarrow> usage res" where
  "usage_subtract l r = Usage (cost_minor_units l - cost_minor_units r)
     (input_tokens l - input_tokens r) (output_tokens l - output_tokens r)"

text \<open>The loops of \<open>reserve\<close> and \<open>reconcile\<close> over the scopes. A scope that raises leaves
  the earlier ones updated, as the mutation in place does.\<close>

fun reserve_scopes ::
    "usage \<Rightarrow> string list \<Rightarrow> ((string, mutable_balance) dict, (string \<times> int) list) meth" where
  "reserve_scopes est [] bs = (Inr [], bs)"
| "reserve_scopes est (s # ss) bs =
     (case dict_item id bs s of
        Inl e \<Rightarrow> (Inl e, bs)
      | Inr b \<Rightarrow>
         (case usage_add (mb_reserved b) est of
            Inl e \<Rightarrow> (Inl e, bs)
          | Inr r \<Rightarrow>
             (let b' = b\<lparr>mb_reserved := r, mb_revision := mb_revision b + 1\<rparr> in
              case reserve_scopes est ss (dset s b' bs) of
                (Inl e, bs') \<Rightarrow> (Inl e, bs')
              | (Inr revs, bs') \<Rightarrow> (Inr ((s, mb_revision b') # revs), bs'))))"

fun reconcile_scopes ::
    "usage \<Rightarrow> usage \<Rightarrow> string list \<Rightarrow> ((string, mutable_balance) dict, (string \<times> int) list) meth" where
  "reconcile_scopes est act [] bs = (Inr [], bs)"
| "reconcile_scopes est act (s # ss) bs =
     (case dict_item id bs s of
        Inl e \<Rightarrow> (Inl e, bs)
      | Inr b \<Rightarrow>
         (case usage_subtract (mb_reserved b) est of
            Inl e \<Rightarrow> (Inl e, bs)
          | Inr r \<Rightarrow>
             (let b1 = b\<lparr>mb_reserved := r\<rparr> in
              case usage_add (mb_actual b1) act of
                Inl e \<Rightarrow> (Inl e, dset s b1 bs)
              | Inr a \<Rightarrow>
                 (let b' = b1\<lparr>mb_actual := a, mb_revision := mb_revision b1 + 1\<rparr> in
                  case reconcile_scopes est act ss (dset s b' bs) of
                    (Inl e, bs') \<Rightarrow> (Inl e, bs')
                  | (Inr revs, bs') \<Rightarrow> (Inr ((s, mb_revision b') # revs), bs')))))"

definition new_reservation_id :: "(budget_controller, string) meth" where
  "new_reservation_id c =
     (let rid = next_identifier c (id_calls c); c' = c\<lparr>id_calls := Suc (id_calls c)\<rparr> in
      if blank rid then (Inl (ValueError ''reservation identifier must not be blank''), c')
      else if dget (reservations c) rid \<noteq> None
      then (Inl (ValueError (''duplicate reservation identifier: '' @ rid)), c')
      else (Inr rid, c'))"

definition reserve :: "string \<Rightarrow> usage \<Rightarrow> (budget_controller, reservation_decision) meth" where
  "reserve eid est c =
     (case dget (bindings c) eid of
        None \<Rightarrow> (Inl (BudgetBindingError (''execution has no budget binding: '' @ eid)), c)
      | Some b \<Rightarrow>
         (case exhaustion (balances c) (bb_scopes b) est of
            Inl e \<Rightarrow> (Inl e, c)
          | Inr (Some x) \<Rightarrow> (ReservationDecision None (Some x), c)
          | Inr None \<Rightarrow>
             (case reserve_scopes est (bb_scopes b) (balances c) of
                (Inl e, bs) \<Rightarrow> (Inl e, c\<lparr>balances := bs\<rparr>)
              | (Inr revs, bs) \<Rightarrow>
                 (case new_reservation_id (c\<lparr>balances := bs\<rparr>) of
                    (Inl e, c') \<Rightarrow> (Inl e, c')
                  | (Inr rid, c') \<Rightarrow>
                     (case BudgetReservation_post \<lparr>reservation_id = rid, br_execution_id = eid,
                             br_scopes = bb_scopes b, estimate = est, scope_revisions = revs,
                             br_state = ACTIVE\<rparr> of
                        Inl e \<Rightarrow> (Inl e, c')
                      | Inr r \<Rightarrow>
                         (ReservationDecision (Some r) None,
                          c'\<lparr>reservations :=
                               dset rid \<lparr>rec_reservation = r, rec_receipt = None\<rparr> (reservations c')\<rparr>))))))"

definition released_usage :: "usage \<Rightarrow> usage \<Rightarrow> usage res" where
  "released_usage est act =
     Usage (max (cost_minor_units est - cost_minor_units act) 0)
       (max (input_tokens est - input_tokens act) 0)
       (max (output_tokens est - output_tokens act) 0)"

definition reconcile :: "string \<Rightarrow> usage \<Rightarrow> (budget_controller, reconciliation_receipt) meth" where
  "reconcile rid act c =
     (case dget (reservations c) rid of
        None \<Rightarrow> (Inl (ReservationNotFoundError (''unknown reservation: '' @ rid)), c)
      | Some entry \<Rightarrow>
         (case rec_receipt entry of
            Some receipt \<Rightarrow>
              if rr_actual receipt \<noteq> act
              then (Inl (ReservationStateError ''reservation already reconciled with different actual usage''), c)
              else (Inr receipt, c)
          | None \<Rightarrow>
             (let r = rec_reservation entry in
              case reconcile_scopes (estimate r) act (br_scopes r) (balances c) of
                (Inl e, bs) \<Rightarrow> (Inl e, c\<lparr>balances := bs\<rparr>)
              | (Inr revs, bs) \<Rightarrow>
                 (let c' = c\<lparr>balances := bs\<rparr> in
                  case bindR (released_usage (estimate r) act) (\<lambda>rel.
                       bindR (ReconciliationReceipt_post \<lparr>rr_reservation_id = rid, rr_actual = act,
                                rr_released = rel, rr_scope_revisions = revs\<rparr>) (\<lambda>receipt.
                       bindR (BudgetReservation_post (r\<lparr>br_state := RECONCILED\<rparr>)) (\<lambda>r'.
                         Inr (receipt, r')))) of
                    Inl e \<Rightarrow> (Inl e, c')
                  | Inr (receipt, r') \<Rightarrow>
                     (Inr receipt,
                      c'\<lparr>reservations := dset rid \<lparr>rec_reservation = r', rec_receipt = Some receipt\<rparr>
                           (reservations c')\<rparr>)))))"

text \<open>Read access: \<open>binding_for\<close>, \<open>balance\<close> and \<open>reservation\<close>.\<close>

record budget_balance =
  bal_scope :: string
  bal_limit :: usage
  bal_reserved :: usage
  bal_actual :: usage
  bal_revision :: int

definition BudgetBalance_post :: "budget_balance \<Rightarrow> budget_balance res" where
  "BudgetBalance_post b =
     (if blank (bal_scope b) then Inl (ValueError ''scope must not be blank'')
      else if bal_revision b < 0 then Inl (ValueError ''revision must be a non-negative fixed-point integer'')
      else Inr b)"

definition binding_for :: "string \<Rightarrow> budget_controller \<Rightarrow> budget_binding option" where
  "binding_for eid c = dget (bindings c) eid"

definition balance :: "string \<Rightarrow> budget_controller \<Rightarrow> budget_balance res" where
  "balance sc c =
     bindR (require_known_scopes [sc] c) (\<lambda>_.
     bindR (dict_item id (balances c) sc) (\<lambda>b.
       BudgetBalance_post \<lparr>bal_scope = sc, bal_limit = mb_limit b, bal_reserved = mb_reserved b,
         bal_actual = mb_actual b, bal_revision = mb_revision b\<rparr>))"

definition reservation :: "string \<Rightarrow> budget_controller \<Rightarrow> budget_reservation res" where
  "reservation rid c =
     (case dget (reservations c) rid of
        None \<Rightarrow> Inl (ReservationNotFoundError (''unknown reservation: '' @ rid))
      | Some entry \<Rightarrow> Inr (rec_reservation entry))"

text \<open>The path outcomes of an exhausted budget.\<close>

record interactive_budget_fallback =
  ibf_reason_code :: string
  ibf_exhausted_scopes :: "string list"
  ibf_incomplete :: bool

record bulk_budget_checkpoint_outcome =
  bbc_reason_code :: string
  bbc_exhausted_scopes :: "string list"
  bbc_checkpoint_unfinished_items :: bool
  bbc_terminal_classification :: string

definition interactive_fallback :: "budget_exhaustion \<Rightarrow> interactive_budget_fallback" where
  "interactive_fallback x = \<lparr>ibf_reason_code = ''budget_exhausted'',
     ibf_exhausted_scopes = exhausted_scopes x, ibf_incomplete = True\<rparr>"

definition bulk_checkpoint_outcome :: "budget_exhaustion \<Rightarrow> bulk_budget_checkpoint_outcome" where
  "bulk_checkpoint_outcome x = \<lparr>bbc_reason_code = ''budget_exhausted'',
     bbc_exhausted_scopes = exhausted_scopes x, bbc_checkpoint_unfinished_items = True,
     bbc_terminal_classification = ''budget-exhausted''\<rparr>"

end
