(* ===== verification/Budget_Ledger.thy ===== *)
theory Budget_Ledger
  imports Budget
begin

text \<open>
  The ledger arithmetic of the budget controller: what the scope loops of \<open>reserve\<close> and
  \<open>reconcile\<close> do to the balances, the well-formedness of a controller, and case rules that
  list every way \<open>bind\<close>, \<open>reserve\<close> and \<open>reconcile\<close> can end on a well-formed controller.
\<close>

section \<open>Usage arithmetic\<close>

definition usage_ok :: "usage \<Rightarrow> bool" where
  "usage_ok u = (0 \<le> cost_minor_units u \<and> 0 \<le> input_tokens u \<and> 0 \<le> output_tokens u)"

definition usage_fields :: "(usage \<Rightarrow> int) set" where
  "usage_fields = {cost_minor_units, input_tokens, output_tokens}"

definition usage_plus :: "usage \<Rightarrow> usage \<Rightarrow> usage" where
  "usage_plus a b = \<lparr>cost_minor_units = cost_minor_units a + cost_minor_units b,
     input_tokens = input_tokens a + input_tokens b,
     output_tokens = output_tokens a + output_tokens b\<rparr>"

definition usage_minus :: "usage \<Rightarrow> usage \<Rightarrow> usage" where
  "usage_minus a b = \<lparr>cost_minor_units = cost_minor_units a - cost_minor_units b,
     input_tokens = input_tokens a - input_tokens b,
     output_tokens = output_tokens a - output_tokens b\<rparr>"

lemma usage_ok_field: "f \<in> usage_fields \<Longrightarrow> usage_ok u \<Longrightarrow> 0 \<le> f u"
  by (auto simp: usage_fields_def usage_ok_def)

lemma usage_ok_iff: "usage_ok u \<longleftrightarrow> (\<forall>f \<in> usage_fields. 0 \<le> f u)"
  by (auto simp: usage_fields_def usage_ok_def)

lemma Usage_ok: "Usage c i out = Inr u \<Longrightarrow> usage_ok u"
  by (auto simp: Usage_def usage_ok_def split: if_splits)

lemma no_usage_ok [simp]: "usage_ok no_usage"
  by (simp add: usage_ok_def no_usage_def)

lemma field_no_usage [simp]: "f \<in> usage_fields \<Longrightarrow> f no_usage = 0"
  by (auto simp: usage_fields_def no_usage_def)

lemma field_plus [simp]: "f \<in> usage_fields \<Longrightarrow> f (usage_plus a b) = f a + f b"
  by (auto simp: usage_fields_def usage_plus_def)

lemma field_minus [simp]: "f \<in> usage_fields \<Longrightarrow> f (usage_minus a b) = f a - f b"
  by (auto simp: usage_fields_def usage_minus_def)

lemma usage_plus_ok [simp]: "usage_ok a \<Longrightarrow> usage_ok b \<Longrightarrow> usage_ok (usage_plus a b)"
  by (simp add: usage_ok_iff)

lemma usage_add_ok: "usage_ok a \<Longrightarrow> usage_ok b \<Longrightarrow> usage_add a b = Inr (usage_plus a b)"
  by (auto simp: usage_add_def Usage_def usage_ok_def usage_plus_def)

lemma usage_minus_ok: "(\<And>f. f \<in> usage_fields \<Longrightarrow> f b \<le> f a) \<Longrightarrow> usage_ok (usage_minus a b)"
  by (simp add: usage_ok_iff)

lemma usage_subtract_ok:
  assumes "\<And>f. f \<in> usage_fields \<Longrightarrow> f b \<le> f a"
  shows "usage_subtract a b = Inr (usage_minus a b)"
proof -
  have "cost_minor_units b \<le> cost_minor_units a" "input_tokens b \<le> input_tokens a"
       "output_tokens b \<le> output_tokens a"
    using assms by (auto simp: usage_fields_def)
  then show ?thesis by (simp add: usage_subtract_def Usage_def usage_minus_def)
qed

lemma released_usage_returns: "\<exists>u. released_usage est act = Inr u"
  by (simp add: released_usage_def Usage_def)

section \<open>What the scope loops do\<close>

definition hold :: "usage \<Rightarrow> mutable_balance \<Rightarrow> mutable_balance" where
  "hold est b = b\<lparr>mb_reserved := usage_plus (mb_reserved b) est, mb_revision := mb_revision b + 1\<rparr>"

definition settle :: "usage \<Rightarrow> usage \<Rightarrow> mutable_balance \<Rightarrow> mutable_balance" where
  "settle est act b = b\<lparr>mb_reserved := usage_minus (mb_reserved b) est,
     mb_actual := usage_plus (mb_actual b) act, mb_revision := mb_revision b + 1\<rparr>"

definition balance_ok :: "mutable_balance \<Rightarrow> bool" where
  "balance_ok b = (usage_ok (mb_limit b) \<and> usage_ok (mb_reserved b) \<and> usage_ok (mb_actual b))"

lemma balance_ok_hold: "balance_ok b \<Longrightarrow> usage_ok est \<Longrightarrow> balance_ok (hold est b)"
  by (simp add: balance_ok_def hold_def)

lemma balance_ok_settle:
  "balance_ok b \<Longrightarrow> usage_ok act \<Longrightarrow> (\<And>f. f \<in> usage_fields \<Longrightarrow> f est \<le> f (mb_reserved b))
   \<Longrightarrow> balance_ok (settle est act b)"
  by (simp add: balance_ok_def settle_def usage_minus_ok)

text \<open>\<open>at_scopes g ss bs\<close> applies \<open>g\<close> to the balances of the scopes \<open>ss\<close>.\<close>

definition at_scopes ::
    "(mutable_balance \<Rightarrow> mutable_balance) \<Rightarrow> string list \<Rightarrow> (string, mutable_balance) dict
     \<Rightarrow> (string, mutable_balance) dict \<Rightarrow> bool" where
  "at_scopes g ss bs bs' \<longleftrightarrow>
     dkeys bs' = dkeys bs \<and>
     (\<forall>s. dget bs' s = map_option (\<lambda>b. if s \<in> set ss then g b else b) (dget bs s))"

lemma at_scopes_Nil [simp]: "at_scopes g [] bs bs"
  by (simp add: at_scopes_def option.map_ident)

lemma dkeys_dset_known: "dget d k = Some v \<Longrightarrow> dkeys (dset k w d) = dkeys d"
  using dset_split [of d k v w] by auto

lemma at_scopes_Cons:
  assumes "dget bs s = Some b" "s \<notin> set ss" "at_scopes g ss (dset s (g b) bs) bs'"
  shows "at_scopes g (s # ss) bs bs'"
  using assms by (auto simp: at_scopes_def dkeys_dset_known map_option_case split: option.splits)

lemma at_scopes_get:
  "at_scopes g ss bs bs' \<Longrightarrow> dget bs s = Some b \<Longrightarrow> dget bs' s = Some (if s \<in> set ss then g b else b)"
  by (simp add: at_scopes_def)

lemma at_scopes_back:
  "at_scopes g ss bs bs' \<Longrightarrow> dget bs' s = Some b' \<Longrightarrow>
     \<exists>b. dget bs s = Some b \<and> b' = (if s \<in> set ss then g b else b)"
  by (auto simp: at_scopes_def)

lemma reserve_scopes_run:
  assumes "distinct ss" "usage_ok est"
    and "\<And>s. s \<in> set ss \<Longrightarrow> \<exists>b. dget bs s = Some b \<and> balance_ok b"
  shows "\<exists>revs bs'. reserve_scopes est ss bs = (Inr revs, bs') \<and> at_scopes (hold est) ss bs bs'
           \<and> map fst revs = ss"
  using assms
proof (induction ss arbitrary: bs)
  case (Cons s ss)
  from Cons.prems(3) obtain b where b: "dget bs s = Some b" "balance_ok b" by auto
  have add: "usage_add (mb_reserved b) est = Inr (usage_plus (mb_reserved b) est)"
    using b Cons.prems(2) by (simp add: usage_add_ok balance_ok_def)
  have "\<exists>revs bs'. reserve_scopes est ss (dset s (hold est b) bs) = (Inr revs, bs')
      \<and> at_scopes (hold est) ss (dset s (hold est b) bs) bs' \<and> map fst revs = ss"
    using Cons.prems by (intro Cons.IH) auto
  then obtain revs bs' where run: "reserve_scopes est ss (dset s (hold est b) bs) = (Inr revs, bs')"
    and ends: "at_scopes (hold est) ss (dset s (hold est b) bs) bs'" "map fst revs = ss"
    by blast
  have "at_scopes (hold est) (s # ss) bs bs'"
    using b(1) Cons.prems(1) ends(1) by (intro at_scopes_Cons) auto
  with b(1) add run ends(2) show ?case
    by (simp add: dict_item_def hold_def [of est b] Let_def)
qed simp

lemma reconcile_scopes_run:
  assumes "distinct ss" "usage_ok act"
    and "\<And>s. s \<in> set ss \<Longrightarrow> \<exists>b. dget bs s = Some b \<and> balance_ok b
           \<and> (\<forall>f \<in> usage_fields. f est \<le> f (mb_reserved b))"
  shows "\<exists>revs bs'. reconcile_scopes est act ss bs = (Inr revs, bs')
           \<and> at_scopes (settle est act) ss bs bs' \<and> map fst revs = ss"
  using assms
proof (induction ss arbitrary: bs)
  case (Cons s ss)
  from Cons.prems(3) obtain b where b: "dget bs s = Some b" "balance_ok b"
      "\<forall>f \<in> usage_fields. f est \<le> f (mb_reserved b)"
    by (meson list.set_intros(1))
  have sub: "usage_subtract (mb_reserved b) est = Inr (usage_minus (mb_reserved b) est)"
    using b(3) by (intro usage_subtract_ok) auto
  have add: "usage_add (mb_actual b) act = Inr (usage_plus (mb_actual b) act)"
    using b(2) Cons.prems(2) by (simp add: usage_add_ok balance_ok_def)
  have "\<exists>revs bs'. reconcile_scopes est act ss (dset s (settle est act b) bs) = (Inr revs, bs')
      \<and> at_scopes (settle est act) ss (dset s (settle est act b) bs) bs' \<and> map fst revs = ss"
    using Cons.prems by (intro Cons.IH) (auto split: if_splits)
  then obtain revs bs'
    where run: "reconcile_scopes est act ss (dset s (settle est act b) bs) = (Inr revs, bs')"
    and ends: "at_scopes (settle est act) ss (dset s (settle est act b) bs) bs'" "map fst revs = ss"
    by blast
  have "at_scopes (settle est act) (s # ss) bs bs'"
    using b(1) Cons.prems(1) ends(1) by (intro at_scopes_Cons) auto
  with b(1) sub add run ends(2) show ?case
    by (simp add: dict_item_def settle_def [of est act b] Let_def)
qed simp

section \<open>Exhaustion\<close>

definition scope_fits :: "(string, mutable_balance) dict \<Rightarrow> usage \<Rightarrow> string \<Rightarrow> bool" where
  "scope_fits bs u s = (case dget bs s of None \<Rightarrow> False
     | Some b \<Rightarrow> \<not> cost_insufficient u b \<and> \<not> tokens_insufficient u b)"

lemma exhaustion_scan_scopes:
  "(\<And>s. s \<in> set ss \<Longrightarrow> dget bs s \<noteq> None) \<Longrightarrow>
     \<exists>dims. exhaustion_scan bs u ss = Inr (filter (\<lambda>s. \<not> scope_fits bs u s) ss, dims)"
proof (induction ss)
  case (Cons s ss)
  from Cons.prems have "\<exists>b. dget bs s = Some b" by auto
  then obtain b where "dget bs s = Some b" by blast
  moreover have "\<exists>dims. exhaustion_scan bs u ss = Inr (filter (\<lambda>s. \<not> scope_fits bs u s) ss, dims)"
    using Cons.prems by (intro Cons.IH) simp
  ultimately show ?case by (auto simp: dict_item_def scope_fits_def)
qed simp

lemma exhaustion_fits:
  "(\<And>s. s \<in> set ss \<Longrightarrow> dget bs s \<noteq> None) \<Longrightarrow> \<forall>s \<in> set ss. scope_fits bs u s \<Longrightarrow>
     exhaustion bs ss u = Inr None"
  using exhaustion_scan_scopes [of ss bs u] by (auto simp: exhaustion_def filter_empty_conv)

lemma exhaustion_over:
  assumes "\<And>s. s \<in> set ss \<Longrightarrow> dget bs s \<noteq> None" "\<not> (\<forall>s \<in> set ss. scope_fits bs u s)"
  shows "\<exists>x. exhaustion bs ss u = Inr (Some x)
           \<and> exhausted_scopes x = filter (\<lambda>s. \<not> scope_fits bs u s) ss"
proof -
  obtain dims where "exhaustion_scan bs u ss = Inr (filter (\<lambda>s. \<not> scope_fits bs u s) ss, dims)"
    using exhaustion_scan_scopes assms(1) by blast
  with assms(2) show ?thesis
    by (auto simp: exhaustion_def BudgetExhaustion_post_def filter_empty_conv)
qed

section \<open>Well-formed controllers\<close>

text \<open>\<open>held f s rs\<close> is the total of field \<open>f\<close> over the reservations on scope \<open>s\<close> that
  have no receipt yet.\<close>

definition held_by :: "(usage \<Rightarrow> int) \<Rightarrow> string \<Rightarrow> reservation_record \<Rightarrow> int" where
  "held_by f s r = (if rec_receipt r = None \<and> s \<in> set (br_scopes (rec_reservation r))
     then f (estimate (rec_reservation r)) else 0)"

definition held :: "(usage \<Rightarrow> int) \<Rightarrow> string \<Rightarrow> (string, reservation_record) dict \<Rightarrow> int" where
  "held f s rs = dsum (held_by f s) rs"

definition known :: "budget_controller \<Rightarrow> string list \<Rightarrow> bool" where
  "known c ss = (\<forall>s \<in> set ss. dget (balances c) s \<noteq> None)"

definition binding_ok :: "budget_controller \<Rightarrow> string \<Rightarrow> budget_binding \<Rightarrow> bool" where
  "binding_ok c eid b \<longleftrightarrow> bb_execution_id b = eid \<and> \<not> blank eid \<and> bb_scopes b \<noteq> []
     \<and> distinct (bb_scopes b) \<and> known c (bb_scopes b)"

definition record_ok :: "budget_controller \<Rightarrow> string \<Rightarrow> reservation_record \<Rightarrow> bool" where
  "record_ok c rid e \<longleftrightarrow> (let r = rec_reservation e in
     reservation_id r = rid \<and> BudgetReservation_post r = Inr r \<and> distinct (br_scopes r)
     \<and> known c (br_scopes r) \<and> usage_ok (estimate r)
     \<and> (br_state r = ACTIVE \<longleftrightarrow> rec_receipt e = None)
     \<and> (\<forall>receipt. rec_receipt e = Some receipt \<longrightarrow> rr_reservation_id receipt = rid))"

definition controller_ok :: "budget_controller \<Rightarrow> bool" where
  "controller_ok c \<longleftrightarrow>
     distinct (dkeys (balances c)) \<and> distinct (dkeys (reservations c))
     \<and> (\<forall>s b. dget (balances c) s = Some b \<longrightarrow> balance_ok b)
     \<and> (\<forall>eid b. dget (bindings c) eid = Some b \<longrightarrow> binding_ok c eid b)
     \<and> (\<forall>rid e. dget (reservations c) rid = Some e \<longrightarrow> record_ok c rid e)"

text \<open>The reserved amounts cover what the active reservations hold.\<close>

definition covered :: "budget_controller \<Rightarrow> bool" where
  "covered c \<longleftrightarrow> (\<forall>f \<in> usage_fields. \<forall>s b. dget (balances c) s = Some b \<longrightarrow>
     held f s (reservations c) \<le> f (mb_reserved b))"

lemma known_at_scopes: "at_scopes g ss (balances c) bs' \<Longrightarrow> known (c\<lparr>balances := bs'\<rparr>) xs = known c xs"
  by (auto simp: known_def at_scopes_def)

lemma record_ok_known: "(\<And>xs. known c' xs = known c xs) \<Longrightarrow> record_ok c' rid e = record_ok c rid e"
  by (simp add: record_ok_def)

lemma binding_ok_known: "(\<And>xs. known c' xs = known c xs) \<Longrightarrow> binding_ok c' eid b = binding_ok c eid b"
  by (simp add: binding_ok_def)

lemma held_by_nonneg: "f \<in> usage_fields \<Longrightarrow> record_ok c rid e \<Longrightarrow> 0 \<le> held_by f s e"
  by (simp add: held_by_def record_ok_def Let_def usage_ok_field)

lemma held_nonneg:
  assumes "controller_ok c" "f \<in> usage_fields" "v \<in> set (dvalues (reservations c))"
  shows "0 \<le> held_by f s v"
proof -
  have "distinct (dkeys (reservations c))"
    using assms(1) by (simp add: controller_ok_def)
  from values_dget [OF this assms(3)] obtain k where "dget (reservations c) k = Some v" ..
  then have "record_ok c k v"
    using assms(1) by (simp add: controller_ok_def)
  then show ?thesis by (rule held_by_nonneg [OF assms(2)])
qed

lemma active_covered:
  assumes "controller_ok c" "covered c" "dget (reservations c) rid = Some e" "rec_receipt e = None"
    and "s \<in> set (br_scopes (rec_reservation e))" "dget (balances c) s = Some b" "f \<in> usage_fields"
  shows "f (estimate (rec_reservation e)) \<le> f (mb_reserved b)"
proof -
  have "held_by f s e \<le> held f s (reservations c)"
    unfolding held_def
    by (rule dsum_member_le) (use assms held_nonneg in auto)
  also have "held f s (reservations c) \<le> f (mb_reserved b)"
    using assms by (simp add: covered_def)
  finally show ?thesis
    using assms by (simp add: held_by_def)
qed

section \<open>The outcomes of reserve and reconcile\<close>

lemma binding_known:
  "controller_ok c \<Longrightarrow> dget (bindings c) eid = Some b \<Longrightarrow> s \<in> set (bb_scopes b) \<Longrightarrow>
     \<exists>m. dget (balances c) s = Some m \<and> balance_ok m"
  unfolding controller_ok_def binding_ok_def known_def by blast

definition fresh_identifier :: "budget_controller \<Rightarrow> bool" where
  "fresh_identifier c = (let rid = next_identifier c (id_calls c) in
     \<not> blank rid \<and> dget (reservations c) rid = None)"

definition granted_reservation ::
    "budget_controller \<Rightarrow> string \<Rightarrow> budget_binding \<Rightarrow> usage \<Rightarrow> (string \<times> int) list \<Rightarrow> budget_reservation" where
  "granted_reservation c eid b est revs = \<lparr>reservation_id = next_identifier c (id_calls c),
     br_execution_id = eid, br_scopes = bb_scopes b, estimate = est, scope_revisions = revs,
     br_state = ACTIVE\<rparr>"

lemma reserve_outcomes:
  assumes ok: "controller_ok c" and est: "usage_ok est"
  obtains
    (unbound) e where "dget (bindings c) eid = None" "reserve eid est c = (Inl e, c)"
  | (exhausted) b x where "dget (bindings c) eid = Some b"
      "\<not> (\<forall>s \<in> set (bb_scopes b). scope_fits (balances c) est s)"
      "reserve eid est c = (Inr \<lparr>rd_reservation = None, rd_exhaustion = Some x\<rparr>, c)"
      "exhausted_scopes x = filter (\<lambda>s. \<not> scope_fits (balances c) est s) (bb_scopes b)"
  | (lost) b bs' e where "dget (bindings c) eid = Some b"
      "\<forall>s \<in> set (bb_scopes b). scope_fits (balances c) est s" "\<not> fresh_identifier c"
      "at_scopes (hold est) (bb_scopes b) (balances c) bs'"
      "reserve eid est c = (Inl (ValueError e), c\<lparr>balances := bs', id_calls := Suc (id_calls c)\<rparr>)"
  | (granted) b bs' revs where "dget (bindings c) eid = Some b"
      "\<forall>s \<in> set (bb_scopes b). scope_fits (balances c) est s" "fresh_identifier c"
      "at_scopes (hold est) (bb_scopes b) (balances c) bs'"
      "reserve eid est c =
         (Inr \<lparr>rd_reservation = Some (granted_reservation c eid b est revs), rd_exhaustion = None\<rparr>,
          c\<lparr>balances := bs', id_calls := Suc (id_calls c),
            reservations := dset (next_identifier c (id_calls c))
              \<lparr>rec_reservation = granted_reservation c eid b est revs, rec_receipt = None\<rparr>
              (reservations c)\<rparr>)"
proof (cases "dget (bindings c) eid")
  case None
  then show thesis by (intro unbound) (auto simp: reserve_def)
next
  case (Some b)
  have bal: "\<exists>m. dget (balances c) s = Some m \<and> balance_ok m" if "s \<in> set (bb_scopes b)" for s
    using binding_known [OF ok Some that] .
  then have bal': "dget (balances c) s \<noteq> None" if "s \<in> set (bb_scopes b)" for s
    using that by fastforce
  have b: "binding_ok c eid b"
    using ok Some by (simp add: controller_ok_def)
  show thesis
  proof (cases "\<forall>s \<in> set (bb_scopes b). scope_fits (balances c) est s")
    case False
    obtain x where "exhaustion (balances c) (bb_scopes b) est = Inr (Some x)"
      "exhausted_scopes x = filter (\<lambda>s. \<not> scope_fits (balances c) est s) (bb_scopes b)"
      using exhaustion_over [of "bb_scopes b" "balances c" est] bal' False by blast
    with Some False show thesis
      by (intro exhausted) (auto simp: reserve_def ReservationDecision_def)
  next
    case True
    obtain revs bs' where run: "reserve_scopes est (bb_scopes b) (balances c) = (Inr revs, bs')"
      "at_scopes (hold est) (bb_scopes b) (balances c) bs'"
      using reserve_scopes_run [of "bb_scopes b" est "balances c"] b est bal
      by (auto simp: binding_ok_def)
    have none: "exhaustion (balances c) (bb_scopes b) est = Inr None"
      using exhaustion_fits bal' True by blast
    show thesis
    proof (cases "fresh_identifier c")
      case True
      with Some none run b \<open>\<forall>s \<in> set (bb_scopes b). _\<close> show thesis
        by (intro granted)
           (auto simp: reserve_def new_reservation_id_def fresh_identifier_def Let_def
              BudgetReservation_post_def binding_ok_def ReservationDecision_def granted_reservation_def)
    next
      case False
      with Some none run \<open>\<forall>s \<in> set (bb_scopes b). _\<close> show thesis
        by (cases "blank (next_identifier c (id_calls c))"; intro lost)
           (auto simp: reserve_def new_reservation_id_def fresh_identifier_def Let_def)
    qed
  qed
qed

lemma record_known:
  "controller_ok c \<Longrightarrow> dget (reservations c) rid = Some e \<Longrightarrow> s \<in> set (br_scopes (rec_reservation e)) \<Longrightarrow>
     \<exists>m. dget (balances c) s = Some m \<and> balance_ok m"
  unfolding controller_ok_def record_ok_def known_def Let_def by blast

lemma reconcile_outcomes:
  assumes ok: "controller_ok c" and cov: "covered c" and act: "usage_ok act"
  obtains
    (unknown) e where "dget (reservations c) rid = None" "reconcile rid act c = (Inl e, c)"
  | (replayed) e receipt where "dget (reservations c) rid = Some e" "rec_receipt e = Some receipt"
      "reconcile rid act c = (if rr_actual receipt = act then Inr receipt
         else Inl (ReservationStateError ''reservation already reconciled with different actual usage''), c)"
  | (settled) e bs' receipt where "dget (reservations c) rid = Some e" "rec_receipt e = None"
      "at_scopes (settle (estimate (rec_reservation e)) act) (br_scopes (rec_reservation e)) (balances c) bs'"
      "rr_reservation_id receipt = rid" "rr_actual receipt = act"
      "released_usage (estimate (rec_reservation e)) act = Inr (rr_released receipt)"
      "reconcile rid act c = (Inr receipt, c\<lparr>balances := bs',
         reservations := dset rid \<lparr>rec_reservation = (rec_reservation e)\<lparr>br_state := RECONCILED\<rparr>,
           rec_receipt = Some receipt\<rparr> (reservations c)\<rparr>)"
proof (cases "dget (reservations c) rid")
  case None
  then show thesis by (intro unknown) (auto simp: reconcile_def)
next
  case (Some e)
  have e: "record_ok c rid e"
    using ok Some by (simp add: controller_ok_def)
  show thesis
  proof (cases "rec_receipt e")
    case (Some receipt)
    with \<open>dget (reservations c) rid = Some e\<close> show thesis
      by (intro replayed) (auto simp: reconcile_def)
  next
    case None
    let ?r = "rec_reservation e"
    have "\<exists>b. dget (balances c) s = Some b \<and> balance_ok b
        \<and> (\<forall>f \<in> usage_fields. f (estimate ?r) \<le> f (mb_reserved b))"
      if s: "s \<in> set (br_scopes ?r)" for s
      using record_known [OF ok Some s] active_covered [OF ok cov Some None s] by blast
    then obtain revs bs' where run:
      "reconcile_scopes (estimate ?r) act (br_scopes ?r) (balances c) = (Inr revs, bs')"
      "at_scopes (settle (estimate ?r) act) (br_scopes ?r) (balances c) bs'"
      using reconcile_scopes_run [of "br_scopes ?r" act "balances c" "estimate ?r"] e act
      by (auto simp: record_ok_def Let_def)
    obtain rel where rel: "released_usage (estimate ?r) act = Inr rel"
      using released_usage_returns by blast
    from run rel None Some e show thesis
      by (intro settled [of e bs' "\<lparr>rr_reservation_id = rid, rr_actual = act, rr_released = rel,
            rr_scope_revisions = revs\<rparr>"])
         (auto simp: reconcile_def record_ok_def ReconciliationReceipt_post_def
            BudgetReservation_post_def Let_def split: if_splits)
  qed
qed

lemma bind_outcomes:
  obtains
    (rejected) e where "bind ctx scs c = (Inl e, c)"
  | (bound) b where "bind ctx scs c = (Inr b, c\<lparr>bindings := dset (execution_id ctx) b (bindings c)\<rparr>)"
      "binding_ok c (execution_id ctx) b" "bb_scopes b = fromkeys scs"
      "dget (bindings c) (execution_id ctx) \<in> {None, Some b}"
      "bb_configuration_version b = version (reference (ctx_configuration ctx))"
  by (fastforce simp: bind_def bindR_def normalize_scopes_def require_known_scopes_def BudgetBinding_def
        binding_ok_def known_def filter_empty_conv Let_def
      split: option.splits if_splits sum.splits)

end
