(* ===== verification/Budget_Accounting.thy ===== *)
theory Budget_Accounting
  imports Budget_Ledger
begin

text \<open>
  Histories of the budget controller and the properties of its ledger: exact accounting of
  reserved amounts, all-or-nothing reservation over every bound scope, no overspending
  under faithful estimates, settlement and its idempotence, and what a rejected
  reservation identifier leaves behind.
\<close>

section \<open>Histories\<close>

text \<open>A history from a fresh controller. The first component lists the reservations whose
  identifier the controller rejected after it had already raised the balances (the
  \<open>lost\<close> rule): the scopes and the estimate.\<close>

inductive ledger_run :: "(string list \<times> usage) list \<Rightarrow> budget_controller \<Rightarrow> bool" where
  start: "budget_init limits ids = Inr c \<Longrightarrow> ledger_run [] c"
| bound: "ledger_run leaks c \<Longrightarrow> bind ctx scs c = (r, c') \<Longrightarrow> ledger_run leaks c'"
| decided: "ledger_run leaks c \<Longrightarrow> usage_ok est \<Longrightarrow> reserve eid est c = (Inr d, c') \<Longrightarrow> ledger_run leaks c'"
| unbound: "ledger_run leaks c \<Longrightarrow> usage_ok est \<Longrightarrow> dget (bindings c) eid = None \<Longrightarrow>
     reserve eid est c = (Inl e, c') \<Longrightarrow> ledger_run leaks c'"
| lost: "ledger_run leaks c \<Longrightarrow> usage_ok est \<Longrightarrow> dget (bindings c) eid = Some b \<Longrightarrow>
     reserve eid est c = (Inl e, c') \<Longrightarrow> ledger_run ((bb_scopes b, est) # leaks) c'"
| reconciled: "ledger_run leaks c \<Longrightarrow> usage_ok act \<Longrightarrow> reconcile rid act c = (r, c') \<Longrightarrow> ledger_run leaks c'"

definition lost_total :: "(usage \<Rightarrow> int) \<Rightarrow> string \<Rightarrow> (string list \<times> usage) list \<Rightarrow> int" where
  "lost_total f s leaks = sum_list (map (\<lambda>(ss, u). if s \<in> set ss then f u else 0) leaks)"

lemma lost_total_simps [simp]:
  "lost_total f s [] = 0"
  "lost_total f s ((ss, u) # leaks) = (if s \<in> set ss then f u else 0) + lost_total f s leaks"
  by (simp_all add: lost_total_def)

definition leaks_ok :: "(string list \<times> usage) list \<Rightarrow> bool" where
  "leaks_ok leaks = (\<forall>(ss, u) \<in> set leaks. usage_ok u)"

lemma lost_total_nonneg: "leaks_ok leaks \<Longrightarrow> f \<in> usage_fields \<Longrightarrow> 0 \<le> lost_total f s leaks"
  unfolding lost_total_def
  by (rule sum_list_nonneg) (auto simp: leaks_ok_def usage_ok_field split: prod.splits)

text \<open>The accounting equation: what a balance has reserved is what its active reservations
  hold, plus what was lost.\<close>

definition accounts :: "(string list \<times> usage) list \<Rightarrow> budget_controller \<Rightarrow> bool" where
  "accounts leaks c \<longleftrightarrow> (\<forall>f \<in> usage_fields. \<forall>s b. dget (balances c) s = Some b \<longrightarrow>
     f (mb_reserved b) = held f s (reservations c) + lost_total f s leaks)"

lemma accounts_covered: "leaks_ok leaks \<Longrightarrow> accounts leaks c \<Longrightarrow> covered c"
  by (auto simp: accounts_def covered_def lost_total_nonneg)

definition ledger_ok :: "(string list \<times> usage) list \<Rightarrow> budget_controller \<Rightarrow> bool" where
  "ledger_ok leaks c \<longleftrightarrow> controller_ok c \<and> leaks_ok leaks \<and> accounts leaks c"

section \<open>Every step keeps the accounts\<close>

lemma initial_balances_ok:
  "initial_balances limits = Inr bs \<Longrightarrow> dkeys bs = map bl_scope limits \<and>
     (\<forall>s b. dget bs s = Some b \<longrightarrow> balance_ok b \<and> mb_reserved b = no_usage \<and> mb_actual b = no_usage)"
  by (induction limits arbitrary: bs)
     (auto simp: bindR_Inr balance_ok_def Usage_ok split: if_splits)

lemma ledger_ok_init: "budget_init limits ids = Inr c \<Longrightarrow> ledger_ok [] c"
  by (auto simp: budget_init_def bindR_Inr ledger_ok_def controller_ok_def leaks_ok_def accounts_def
        held_def dest: initial_balances_ok split: if_splits)

lemma ledger_ok_bindings:
  assumes "ledger_ok leaks c" "binding_ok c eid b"
  shows "ledger_ok leaks (c\<lparr>bindings := dset eid b (bindings c)\<rparr>)"
  using assms
  by (auto simp: ledger_ok_def controller_ok_def accounts_def binding_ok_def record_ok_def known_def)

lemma ledger_ok_bind: "ledger_ok leaks c \<Longrightarrow> bind ctx scs c = (r, c') \<Longrightarrow> ledger_ok leaks c'"
  by (rule bind_outcomes [of ctx scs c]) (auto simp: ledger_ok_bindings)

lemma controller_ok_balances:
  assumes "controller_ok c" "at_scopes g ss (balances c) bs'"
    and "\<And>s b. s \<in> set ss \<Longrightarrow> dget (balances c) s = Some b \<Longrightarrow> balance_ok (g b)"
  shows "controller_ok (c\<lparr>balances := bs'\<rparr>)"
  using assms known_at_scopes [OF assms(2)]
  by (auto simp: controller_ok_def record_ok_def binding_ok_def at_scopes_def map_option_case
      split: option.splits if_splits)

lemma controller_ok_calls: "controller_ok (c\<lparr>id_calls := n\<rparr>) = controller_ok c"
  by (simp add: controller_ok_def record_ok_def binding_ok_def known_def)

lemma controller_ok_record:
  "controller_ok c \<Longrightarrow> record_ok c rid e \<Longrightarrow> controller_ok (c\<lparr>reservations := dset rid e (reservations c)\<rparr>)"
  by (auto simp: controller_ok_def record_ok_def binding_ok_def known_def)

lemma ledger_ok_lost:
  assumes ok: "ledger_ok leaks c" and est: "usage_ok est"
    and up: "at_scopes (hold est) ss (balances c) bs'"
  shows "ledger_ok ((ss, est) # leaks) (c\<lparr>balances := bs', id_calls := n\<rparr>)"
proof -
  have "controller_ok (c\<lparr>balances := bs'\<rparr>)"
    using ok est by (intro controller_ok_balances [OF _ up])
      (auto simp: ledger_ok_def controller_ok_def balance_ok_hold)
  moreover have "accounts ((ss, est) # leaks) (c\<lparr>balances := bs'\<rparr>)"
    using ok by (fastforce simp: accounts_def ledger_ok_def hold_def dest: at_scopes_back [OF up])
  ultimately show ?thesis
    using ok est by (simp add: ledger_ok_def leaks_ok_def controller_ok_calls accounts_def)
qed

lemma granted_record_ok:
  assumes "controller_ok c" "usage_ok est" "dget (bindings c) eid = Some b" "fresh_identifier c"
  shows "record_ok c (next_identifier c (id_calls c))
           \<lparr>rec_reservation = granted_reservation c eid b est revs, rec_receipt = None\<rparr>"
  using assms
  by (auto simp: record_ok_def granted_reservation_def BudgetReservation_post_def controller_ok_def
        binding_ok_def fresh_identifier_def Let_def)

lemma ledger_ok_granted:
  assumes ok: "ledger_ok leaks c" and est: "usage_ok est" and b: "dget (bindings c) eid = Some b"
    and fresh: "fresh_identifier c" and up: "at_scopes (hold est) (bb_scopes b) (balances c) bs'"
  shows "ledger_ok leaks (c\<lparr>balances := bs', id_calls := n,
            reservations := dset (next_identifier c (id_calls c))
              \<lparr>rec_reservation = granted_reservation c eid b est revs, rec_receipt = None\<rparr>
              (reservations c)\<rparr>)"
    (is "ledger_ok leaks (c\<lparr>balances := bs', id_calls := n, reservations := dset ?rid ?e _\<rparr>)")
proof -
  let ?c1 = "c\<lparr>balances := bs', id_calls := n\<rparr>"
  have lost: "ledger_ok ((bb_scopes b, est) # leaks) ?c1"
    by (rule ledger_ok_lost [OF ok est up])
  have "record_ok c ?rid ?e"
    using ok est b fresh by (intro granted_record_ok) (auto simp: ledger_ok_def)
  then have rec: "record_ok ?c1 ?rid ?e"
    using known_at_scopes [OF up] by (simp add: record_ok_def known_def)
  have new: "dget (reservations c) ?rid = None"
    using fresh by (simp add: fresh_identifier_def Let_def)
  have "held f s (dset ?rid ?e (reservations c)) =
      held f s (reservations c) + (if s \<in> set (bb_scopes b) then f est else 0)" for f s
    unfolding held_def dsum_fresh [OF new] by (simp add: held_by_def granted_reservation_def)
  then have "accounts leaks (?c1\<lparr>reservations := dset ?rid ?e (reservations c)\<rparr>)"
    using lost by (auto simp: ledger_ok_def accounts_def)
  then show ?thesis
    using lost controller_ok_record [OF _ rec] ok by (simp add: ledger_ok_def)
qed

lemma ledger_ok_settled:
  assumes ok: "ledger_ok leaks c" and act: "usage_ok act"
    and e: "dget (reservations c) rid = Some e" "rec_receipt e = None"
    and up: "at_scopes (settle (estimate (rec_reservation e)) act) (br_scopes (rec_reservation e))
               (balances c) bs'"
    and receipt: "rr_reservation_id receipt = rid"
  shows "ledger_ok leaks (c\<lparr>balances := bs',
         reservations := dset rid \<lparr>rec_reservation = (rec_reservation e)\<lparr>br_state := RECONCILED\<rparr>,
           rec_receipt = Some receipt\<rparr> (reservations c)\<rparr>)"
    (is "ledger_ok leaks (c\<lparr>balances := bs', reservations := dset rid ?e _\<rparr>)")
proof -
  let ?r = "rec_reservation e"
  have c: "controller_ok c" "covered c"
    using ok accounts_covered by (auto simp: ledger_ok_def)
  have "controller_ok (c\<lparr>balances := bs'\<rparr>)"
  proof (rule controller_ok_balances [OF c(1) up])
    fix s b assume s: "s \<in> set (br_scopes ?r)" "dget (balances c) s = Some b"
    then have "balance_ok b" using c(1) by (simp add: controller_ok_def)
    then show "balance_ok (settle (estimate ?r) act b)"
      using act active_covered [OF c e s] by (intro balance_ok_settle)
  qed
  moreover have "record_ok c rid e"
    using c(1) e(1) by (simp add: controller_ok_def)
  then have "record_ok c rid ?e"
    using receipt by (auto simp: record_ok_def BudgetReservation_post_def Let_def split: if_splits)
  then have rec: "record_ok (c\<lparr>balances := bs'\<rparr>) rid ?e"
    using known_at_scopes [OF up] by (simp add: record_ok_def)
  ultimately have "controller_ok (c\<lparr>balances := bs', reservations := dset rid ?e (reservations c)\<rparr>)"
    using controller_ok_record [OF _ rec] by simp
  moreover have "held f s (dset rid ?e (reservations c)) =
      held f s (reservations c) - (if s \<in> set (br_scopes ?r) then f (estimate ?r) else 0)" for f s
    unfolding held_def dsum_replace [OF e(1)] using e(2) by (simp add: held_by_def)
  then have "accounts leaks (c\<lparr>balances := bs', reservations := dset rid ?e (reservations c)\<rparr>)"
    using ok by (fastforce simp: accounts_def ledger_ok_def settle_def dest: at_scopes_back [OF up])
  ultimately show ?thesis
    using ok by (simp add: ledger_ok_def)
qed

lemma ledger_ok_reserve:
  assumes ok: "ledger_ok leaks c" and est: "usage_ok est" and run: "reserve eid est c = (Inr d, c')"
  shows "ledger_ok leaks c'"
proof -
  from ok have "controller_ok c" by (simp add: ledger_ok_def)
  then show ?thesis
    by (rule reserve_outcomes [OF _ est, of c eid])
       (use ok est run in \<open>auto intro: ledger_ok_granted\<close>)
qed

lemma ledger_ok_reserve_raised:
  assumes ok: "ledger_ok leaks c" and est: "usage_ok est" and b: "dget (bindings c) eid = Some b"
    and run: "reserve eid est c = (Inl e, c')"
  shows "ledger_ok ((bb_scopes b, est) # leaks) c'"
proof -
  from ok have "controller_ok c" by (simp add: ledger_ok_def)
  then show ?thesis
    by (rule reserve_outcomes [OF _ est, of c eid])
       (use ok est b run in \<open>auto intro: ledger_ok_lost\<close>)
qed

lemma ledger_ok_reconcile:
  assumes ok: "ledger_ok leaks c" and act: "usage_ok act" and run: "reconcile rid act c = (r, c')"
  shows "ledger_ok leaks c'"
proof -
  have "controller_ok c" "covered c"
    using ok accounts_covered by (auto simp: ledger_ok_def)
  then show ?thesis
    by (rule reconcile_outcomes [OF _ _ act, of c rid])
       (use ok act run in \<open>auto intro: ledger_ok_settled\<close>)
qed

lemma ledger_run_ok: "ledger_run leaks c \<Longrightarrow> ledger_ok leaks c"
proof (induction rule: ledger_run.induct)
  case (unbound leaks c est eid e c')
  then show ?case by (auto simp: reserve_def)
qed (auto intro: ledger_ok_init ledger_ok_bind ledger_ok_reserve ledger_ok_reserve_raised ledger_ok_reconcile)

section \<open>Properties of the ledger\<close>

text \<open>C5. In every history of the budget controller, what each balance has reserved, in
  cost, input tokens and output tokens, is exactly the sum of the estimates of the
  reservations on its scope that are not yet reconciled, plus the estimates of the
  reservations whose identifier was rejected.\<close>

theorem ledger_accounting:
  assumes "ledger_run leaks c" and "dget (balances c) s = Some b" and "f \<in> usage_fields"
  shows "f (mb_reserved b) = held f s (reservations c) + lost_total f s leaks"
  using ledger_run_ok [OF assms(1)] assms(2,3) by (simp add: ledger_ok_def accounts_def)

text \<open>C21. A reservation is decided for all bound scopes at once. When a bound scope lacks the
  cost or the tokens, the decision names exactly the scopes that do and the controller is
  unchanged. When all of them have both, every bound scope and no other is raised by the
  estimate, and then the identifier that is drawn decides: a usable one gives a reservation
  that is on record; a blank or used one makes the call raise, with no reservation on record
  and the balances raised.\<close>

theorem reserve_decides_all_scopes:
  assumes "ledger_run leaks c" and "usage_ok est" and "dget (bindings c) eid = Some b"
  shows "\<exists>y c'. reserve eid est c = (y, c') \<and>
      (if \<not> (\<forall>s \<in> set (bb_scopes b). scope_fits (balances c) est s)
       then c' = c \<and> (\<exists>x. y = Inr \<lparr>rd_reservation = None, rd_exhaustion = Some x\<rparr>
              \<and> exhausted_scopes x = filter (\<lambda>s. \<not> scope_fits (balances c) est s) (bb_scopes b))
       else at_scopes (hold est) (bb_scopes b) (balances c) (balances c') \<and>
         (if fresh_identifier c
          then \<exists>r. y = Inr \<lparr>rd_reservation = Some r, rd_exhaustion = None\<rparr> \<and> estimate r = est
                \<and> br_scopes r = bb_scopes b
                \<and> dget (reservations c') (reservation_id r) = Some \<lparr>rec_reservation = r, rec_receipt = None\<rparr>
          else (\<exists>m. y = Inl (ValueError m)) \<and> reservations c' = reservations c))"
proof -
  have "controller_ok c"
    using ledger_run_ok [OF assms(1)] by (simp add: ledger_ok_def)
  then show ?thesis
    by (rule reserve_outcomes [OF _ assms(2), of c eid])
       (use assms in \<open>auto simp: granted_reservation_def\<close>)
qed

text \<open>Settling an active reservation always succeeds: its estimate leaves the reserved
  amount and the actual usage enters the spent amount of exactly its scopes, the receipt
  carries the actual usage, and the reservation is no longer active.\<close>

theorem reconcile_settles:
  assumes "ledger_run leaks c" and "usage_ok act" and "dget (reservations c) rid = Some e"
    and "rec_receipt e = None"
  shows "\<exists>receipt c'. reconcile rid act c = (Inr receipt, c') \<and> rr_actual receipt = act
      \<and> at_scopes (settle (estimate (rec_reservation e)) act) (br_scopes (rec_reservation e))
          (balances c) (balances c')
      \<and> dget (reservations c') rid = Some \<lparr>rec_reservation = (rec_reservation e)\<lparr>br_state := RECONCILED\<rparr>,
           rec_receipt = Some receipt\<rparr>"
proof -
  have "controller_ok c" "covered c"
    using ledger_run_ok [OF assms(1)] accounts_covered by (auto simp: ledger_ok_def)
  then show ?thesis
    by (rule reconcile_outcomes [OF _ _ assms(2), of c rid]) (use assms in auto)
qed

text \<open>Reconciliation is exactly-once: repeating a successful call with the same actual
  usage returns the same receipt, with another usage it raises ReservationStateError,
  and neither changes the controller.\<close>

theorem reconcile_idempotent:
  assumes "ledger_run leaks c" and "usage_ok act" and "reconcile rid act c = (Inr receipt, c')"
  shows "reconcile rid act' c' =
    (if act' = act then Inr receipt
     else Inl (ReservationStateError ''reservation already reconciled with different actual usage''), c')"
proof -
  have "controller_ok c" "covered c"
    using ledger_run_ok [OF assms(1)] accounts_covered by (auto simp: ledger_ok_def)
  then show ?thesis
    by (rule reconcile_outcomes [OF _ _ assms(2), of c rid])
       (use assms in \<open>auto simp: reconcile_def split: if_splits\<close>)
qed

section \<open>No overspending\<close>

text \<open>Histories in which no reconciliation reports more than its reservation estimated.\<close>

definition faithful :: "budget_controller \<Rightarrow> string \<Rightarrow> usage \<Rightarrow> bool" where
  "faithful c rid act = (\<forall>e. dget (reservations c) rid = Some e \<longrightarrow> rec_receipt e = None \<longrightarrow>
     cost_minor_units act \<le> cost_minor_units (estimate (rec_reservation e))
     \<and> total_tokens act \<le> total_tokens (estimate (rec_reservation e)))"

inductive frugal_run :: "budget_controller \<Rightarrow> bool" where
  start: "budget_init limits ids = Inr c \<Longrightarrow> frugal_run c"
| bound: "frugal_run c \<Longrightarrow> bind ctx scs c = (r, c') \<Longrightarrow> frugal_run c'"
| reserved: "frugal_run c \<Longrightarrow> usage_ok est \<Longrightarrow> reserve eid est c = (r, c') \<Longrightarrow> frugal_run c'"
| reconciled: "frugal_run c \<Longrightarrow> usage_ok act \<Longrightarrow> faithful c rid act \<Longrightarrow>
     reconcile rid act c = (r, c') \<Longrightarrow> frugal_run c'"

lemma frugal_ledger: "frugal_run c \<Longrightarrow> \<exists>leaks. ledger_run leaks c"
proof (induction rule: frugal_run.induct)
  case (reserved c est eid r c')
  then obtain leaks where leaks: "ledger_run leaks c" by blast
  show ?case
  proof (cases r)
    case (Inr d)
    with leaks reserved show ?thesis by (blast intro: ledger_run.decided)
  next
    case (Inl e)
    with leaks reserved show ?thesis
      by (cases "dget (bindings c) eid") (blast intro: ledger_run.unbound ledger_run.lost)+
  qed
qed (blast intro: ledger_run.intros)+

definition within_limit :: "mutable_balance \<Rightarrow> bool" where
  "within_limit b = (0 \<le> available_cost b \<and> 0 \<le> available_tokens b)"

lemma within_limit_hold:
  "scope_fits bs est s \<Longrightarrow> dget bs s = Some b \<Longrightarrow> within_limit (hold est b)"
  by (auto simp: scope_fits_def within_limit_def hold_def available_cost_def available_tokens_def
        usage_plus_def total_tokens_def cost_insufficient_def tokens_insufficient_def)

lemma within_limit_reserved:
  assumes "at_scopes (hold est) ss bs bs'" "\<forall>s \<in> set ss. scope_fits bs est s"
    and "\<forall>s b. dget bs s = Some b \<longrightarrow> within_limit b" "dget bs' s = Some b"
  shows "within_limit b"
proof -
  obtain b0 where "dget bs s = Some b0" "b = (if s \<in> set ss then hold est b0 else b0)"
    using at_scopes_back [OF assms(1,4)] by blast
  with assms(2,3) show ?thesis by (cases "s \<in> set ss") (simp_all add: within_limit_hold [of bs est s])
qed

lemma within_limit_settle:
  "within_limit b \<Longrightarrow> cost_minor_units act \<le> cost_minor_units est \<Longrightarrow>
     total_tokens act \<le> total_tokens est \<Longrightarrow> within_limit (settle est act b)"
  by (auto simp: within_limit_def settle_def available_cost_def available_tokens_def
        usage_plus_def usage_minus_def total_tokens_def)

lemma within_limit_settled:
  assumes "at_scopes (settle est act) ss bs bs'"
    and "cost_minor_units act \<le> cost_minor_units est" "total_tokens act \<le> total_tokens est"
    and "\<forall>s b. dget bs s = Some b \<longrightarrow> within_limit b" "dget bs' s = Some b"
  shows "within_limit b"
proof -
  obtain b0 where "dget bs s = Some b0" "b = (if s \<in> set ss then settle est act b0 else b0)"
    using at_scopes_back [OF assms(1,5)] by blast
  with assms(2,3,4) show ?thesis by (cases "s \<in> set ss") (simp_all add: within_limit_settle)
qed

lemma initial_within_limit:
  assumes "budget_init limits ids = Inr c" "dget (balances c) s = Some b"
  shows "within_limit b"
proof -
  have "balance_ok b \<and> mb_reserved b = no_usage \<and> mb_actual b = no_usage"
    using assms by (auto simp: budget_init_def bindR_Inr dest!: initial_balances_ok split: if_splits)
  then show ?thesis
    by (simp add: within_limit_def available_cost_def available_tokens_def total_tokens_def
        no_usage_def balance_ok_def usage_ok_def)
qed

lemma frugal_within_limit:
  "frugal_run c \<Longrightarrow> (\<forall>s b. dget (balances c) s = Some b \<longrightarrow> within_limit b)"
proof (induction rule: frugal_run.induct)
  case (start limits ids c)
  then show ?case by (blast intro: initial_within_limit)
next
  case (bound c ctx scs r c')
  then show ?case by (cases rule: bind_outcomes [of ctx scs c]) auto
next
  case (reserved c est eid r c')
  then obtain leaks where "ledger_run leaks c" using frugal_ledger by blast
  then have "controller_ok c" using ledger_run_ok by (auto simp: ledger_ok_def)
  then show ?case
    by (rule reserve_outcomes [OF _ reserved.hyps(2), of c eid])
       (use reserved in \<open>auto dest: within_limit_reserved\<close>)
next
  case (reconciled c act rid r c')
  then obtain leaks where "ledger_run leaks c" using frugal_ledger by blast
  then have "controller_ok c" "covered c"
    using ledger_run_ok accounts_covered by (auto simp: ledger_ok_def)
  then show ?case
    by (rule reconcile_outcomes [OF _ _ reconciled.hyps(2), of c rid])
       (use reconciled in \<open>auto simp: faithful_def dest: within_limit_settled\<close>)
qed

text \<open>C26. When every reconciliation stays within its estimate, no history ever takes the
  reserved and spent amounts of a scope past its limit, in cost or in tokens.\<close>

theorem budget_never_overspent:
  assumes "frugal_run c" and "dget (balances c) s = Some b"
  shows "cost_minor_units (mb_reserved b) + cost_minor_units (mb_actual b) \<le> cost_minor_units (mb_limit b)
    \<and> total_tokens (mb_reserved b) + total_tokens (mb_actual b) \<le> total_tokens (mb_limit b)"
  using frugal_within_limit [OF assms(1)] assms(2)
  by (fastforce simp: within_limit_def available_cost_def available_tokens_def)

text \<open>A reservation raises the balances before it draws the identifier: if the identifier is
  blank or already in use it raises, no reservation is recorded, and the estimate stays
  reserved in every bound scope.\<close>

theorem rejected_identifier_leaks:
  assumes "ledger_run leaks c" and "usage_ok est" and "dget (bindings c) eid = Some b"
    and "\<forall>s \<in> set (bb_scopes b). scope_fits (balances c) est s" and "\<not> fresh_identifier c"
  shows "\<exists>m c'. reserve eid est c = (Inl (ValueError m), c') \<and> reservations c' = reservations c
      \<and> at_scopes (hold est) (bb_scopes b) (balances c) (balances c')"
proof -
  have "controller_ok c"
    using ledger_run_ok [OF assms(1)] by (simp add: ledger_ok_def)
  then show ?thesis
    by (rule reserve_outcomes [OF _ assms(2), of c eid]) (use assms in auto)
qed

section \<open>A sample history\<close>

text \<open>A controller with one scope, an execution bound to it, a reservation of 10 cost units
  and 50 tokens, and its settlement. The second identifier the callable returns is blank.\<close>

definition sample_usage :: "int \<Rightarrow> int \<Rightarrow> usage" where
  "sample_usage c t = \<lparr>cost_minor_units = c, input_tokens = t, output_tokens = 0\<rparr>"

definition sample_ids :: "nat \<Rightarrow> string" where
  "sample_ids n = (if n = 0 then ''r1'' else '' '')"

definition sample_limits :: "budget_limit list" where
  "sample_limits = [\<lparr>bl_scope = ''team'', bl_cost_minor_units = 100, bl_token_units = 1000\<rparr>]"

definition sample_balance :: "usage \<Rightarrow> usage \<Rightarrow> int \<Rightarrow> mutable_balance" where
  "sample_balance r a n = \<lparr>mb_limit = sample_usage 100 1000, mb_reserved = r, mb_actual = a,
     mb_revision = n\<rparr>"

definition sample_binding :: budget_binding where
  "sample_binding = \<lparr>bb_execution_id = ''e1'', bb_configuration_version = ''1'', bb_scopes = [''team'']\<rparr>"

definition sample_reservation :: reservation_record where
  "sample_reservation = \<lparr>rec_reservation = \<lparr>reservation_id = ''r1'', br_execution_id = ''e1'',
     br_scopes = [''team''], estimate = sample_usage 10 50, scope_revisions = [(''team'', 1)],
     br_state = ACTIVE\<rparr>, rec_receipt = None\<rparr>"

definition sample_start :: budget_controller where
  "sample_start = \<lparr>balances = [(''team'', sample_balance no_usage no_usage 0)], bindings = [],
     reservations = [], next_identifier = sample_ids, id_calls = 0\<rparr>"

definition sample_bound :: budget_controller where
  "sample_bound = sample_start\<lparr>bindings := [(''e1'', sample_binding)]\<rparr>"

definition sample_reserved :: budget_controller where
  "sample_reserved = sample_bound\<lparr>
     balances := [(''team'', sample_balance (sample_usage 10 50) no_usage 1)],
     reservations := [(''r1'', sample_reservation)], id_calls := 1\<rparr>"

lemmas sample_defs = sample_usage_def sample_context_def sample_ids_def sample_limits_def
  sample_balance_def sample_binding_def sample_reservation_def sample_start_def sample_bound_def
  sample_reserved_def no_usage_def

lemma sample_start_step: "budget_init sample_limits sample_ids = Inr sample_start"
  by (simp add: budget_init_def sample_defs Usage_def)

lemma sample_bound_step: "bind sample_context [''team''] sample_start = (Inr sample_binding, sample_bound)"
  by (simp add: sample_defs bind_def normalize_scopes_def require_known_scopes_def BudgetBinding_def)

lemmas reserve_eval = reserve_def exhaustion_def dict_item_def cost_insufficient_def
  tokens_insufficient_def available_cost_def available_tokens_def total_tokens_def usage_add_def
  Usage_def new_reservation_id_def BudgetReservation_post_def ReservationDecision_def Let_def

lemma sample_reserved_step:
  "reserve ''e1'' (sample_usage 10 50) sample_bound =
     (Inr \<lparr>rd_reservation = Some (rec_reservation sample_reservation), rd_exhaustion = None\<rparr>,
      sample_reserved)"
  by (simp add: sample_defs reserve_eval)

lemma sample_bound_run: "ledger_run [] sample_bound"
  by (rule ledger_run.bound [OF ledger_run.start [OF sample_start_step] sample_bound_step])

lemma sample_reserved_run: "ledger_run [] sample_reserved"
  by (rule ledger_run.decided [OF sample_bound_run _ sample_reserved_step])
     (simp add: usage_ok_def sample_usage_def)

lemma sample_reserved_frugal: "frugal_run sample_reserved"
  by (rule frugal_run.reserved [OF frugal_run.bound [OF frugal_run.start [OF sample_start_step]
        sample_bound_step] _ sample_reserved_step])
     (simp add: usage_ok_def sample_usage_def)

lemma sample_team: "dget (balances sample_reserved) ''team'' =
    Some (sample_balance (sample_usage 10 50) no_usage 1)"
  by (simp add: sample_reserved_def)

lemma ledger_accounting_witness:
  "10 = held cost_minor_units ''team'' (reservations sample_reserved)"
  using ledger_accounting [OF sample_reserved_run, of "''team''"
    "sample_balance (sample_usage 10 50) no_usage 1" cost_minor_units]
  by (simp add: sample_defs usage_fields_def)

lemma reserve_decides_all_scopes_witness:
  "\<exists>d c'. reserve ''e1'' (sample_usage 101 0) sample_bound = (Inr d, c') \<and> c' = sample_bound
     \<and> (\<exists>x. rd_exhaustion d = Some x \<and> exhausted_scopes x = [''team''])"
proof -
  have prems: "usage_ok (sample_usage 101 0)" "dget (bindings sample_bound) ''e1'' = Some sample_binding"
    by (simp_all add: sample_defs usage_ok_def)
  have "\<not> scope_fits (balances sample_bound) (sample_usage 101 0) ''team''"
    "bb_scopes sample_binding = [''team'']"
    by (simp_all add: sample_defs scope_fits_def cost_insufficient_def available_cost_def)
  with reserve_decides_all_scopes [OF sample_bound_run prems] show ?thesis
    by (auto split: if_splits)
qed

lemma reconcile_settles_witness:
  "\<exists>receipt c'. reconcile ''r1'' (sample_usage 7 40) sample_reserved = (Inr receipt, c')
     \<and> rr_actual receipt = sample_usage 7 40
     \<and> dget (balances c') ''team'' = Some (sample_balance no_usage (sample_usage 7 40) 2)"
proof -
  have "usage_ok (sample_usage 7 40)"
    "dget (reservations sample_reserved) ''r1'' = Some sample_reservation"
    "rec_receipt sample_reservation = None"
    by (simp_all add: sample_defs usage_ok_def)
  from reconcile_settles [OF sample_reserved_run this] obtain receipt c' where
    run: "reconcile ''r1'' (sample_usage 7 40) sample_reserved = (Inr receipt, c')"
      "rr_actual receipt = sample_usage 7 40"
    and up: "at_scopes (settle (sample_usage 10 50) (sample_usage 7 40)) [''team'']
      (balances sample_reserved) (balances c')"
    by (auto simp: sample_reservation_def)
  have "dget (balances c') ''team'' = Some (sample_balance no_usage (sample_usage 7 40) 2)"
    using at_scopes_get [OF up sample_team]
    by (simp add: sample_defs settle_def usage_plus_def usage_minus_def)
  with run show ?thesis by blast
qed

lemma reconcile_idempotent_witness:
  "\<exists>receipt c'. reconcile ''r1'' (sample_usage 7 40) sample_reserved = (Inr receipt, c')
     \<and> reconcile ''r1'' (sample_usage 7 40) c' = (Inr receipt, c')"
proof -
  have ok: "usage_ok (sample_usage 7 40)" by (simp add: sample_defs usage_ok_def)
  obtain receipt c' where run: "reconcile ''r1'' (sample_usage 7 40) sample_reserved = (Inr receipt, c')"
    by (simp add: sample_defs reconcile_def dict_item_def usage_subtract_def usage_add_def Usage_def
        released_usage_def ReconciliationReceipt_post_def BudgetReservation_post_def Let_def)
  from reconcile_idempotent [OF sample_reserved_run ok run, of "sample_usage 7 40"] run
  show ?thesis by auto
qed

lemma budget_never_overspent_witness:
  "cost_minor_units (sample_usage 10 50) \<le> cost_minor_units (sample_usage 100 1000)"
  using budget_never_overspent [OF sample_reserved_frugal, of "''team''"
    "sample_balance (sample_usage 10 50) no_usage 1"]
  by (simp add: sample_defs)

lemma rejected_identifier_leaks_witness:
  "\<exists>m c'. reserve ''e1'' (sample_usage 10 50) sample_reserved = (Inl (ValueError m), c')
     \<and> reservations c' = reservations sample_reserved
     \<and> dget (balances c') ''team'' = Some (sample_balance (sample_usage 20 100) no_usage 2)"
proof -
  have "usage_ok (sample_usage 10 50)" "dget (bindings sample_reserved) ''e1'' = Some sample_binding"
    "\<forall>s \<in> set (bb_scopes sample_binding). scope_fits (balances sample_reserved) (sample_usage 10 50) s"
    "\<not> fresh_identifier sample_reserved"
    by (simp_all add: sample_defs usage_ok_def fresh_identifier_def scope_fits_def
        cost_insufficient_def tokens_insufficient_def available_cost_def available_tokens_def
        total_tokens_def)
  from rejected_identifier_leaks [OF sample_reserved_run this] obtain m c' where
    run: "reserve ''e1'' (sample_usage 10 50) sample_reserved = (Inl (ValueError m), c')"
      "reservations c' = reservations sample_reserved"
    and up: "at_scopes (hold (sample_usage 10 50)) [''team''] (balances sample_reserved) (balances c')"
    by (auto simp: sample_binding_def)
  have "dget (balances c') ''team'' = Some (sample_balance (sample_usage 20 100) no_usage 2)"
    using at_scopes_get [OF up sample_team] by (simp add: sample_defs hold_def usage_plus_def)
  with run show ?thesis by blast
qed

end
