(* ===== verification/Relational_Models.thy ===== *)
theory Relational_Models
  imports Domain
begin

text \<open>
  The values of \<open>relational/models.py\<close>: operation trees and their kinds, query plans and
  their parameter schemas, raw and normalized results, protection metadata, audit events
  and approved effects.
\<close>

section \<open>Operations\<close>

datatype operation_kind =
    OP_SELECT | OP_PROJECT | OP_FILTER | OP_JOIN | OP_AGGREGATE | OP_SORT | OP_LIMIT
  | OP_INSERT | OP_UPDATE | OP_DELETE | OP_MERGE | OP_ALTER | OP_CREATE | OP_DROP
  | OP_TRUNCATE | OP_GRANT | OP_REVOKE | OP_CALL | OP_UNKNOWN

definition all_operation_kinds :: "operation_kind list" where
  "all_operation_kinds = [OP_SELECT, OP_PROJECT, OP_FILTER, OP_JOIN, OP_AGGREGATE, OP_SORT,
     OP_LIMIT, OP_INSERT, OP_UPDATE, OP_DELETE, OP_MERGE, OP_ALTER, OP_CREATE, OP_DROP,
     OP_TRUNCATE, OP_GRANT, OP_REVOKE, OP_CALL, OP_UNKNOWN]"

fun operation_value :: "operation_kind \<Rightarrow> string" where
  "operation_value OP_SELECT = ''select''"
| "operation_value OP_PROJECT = ''project''"
| "operation_value OP_FILTER = ''filter''"
| "operation_value OP_JOIN = ''join''"
| "operation_value OP_AGGREGATE = ''aggregate''"
| "operation_value OP_SORT = ''sort''"
| "operation_value OP_LIMIT = ''limit''"
| "operation_value OP_INSERT = ''insert''"
| "operation_value OP_UPDATE = ''update''"
| "operation_value OP_DELETE = ''delete''"
| "operation_value OP_MERGE = ''merge''"
| "operation_value OP_ALTER = ''alter''"
| "operation_value OP_CREATE = ''create''"
| "operation_value OP_DROP = ''drop''"
| "operation_value OP_TRUNCATE = ''truncate''"
| "operation_value OP_GRANT = ''grant''"
| "operation_value OP_REVOKE = ''revoke''"
| "operation_value OP_CALL = ''call''"
| "operation_value OP_UNKNOWN = ''unknown''"

definition RETRIEVAL_OPERATIONS :: "operation_kind list" where
  "RETRIEVAL_OPERATIONS = [OP_SELECT, OP_PROJECT, OP_FILTER, OP_JOIN, OP_AGGREGATE, OP_SORT, OP_LIMIT]"

definition MUTATION_OPERATIONS :: "operation_kind list" where
  "MUTATION_OPERATIONS =
     filter (\<lambda>k. k \<notin> set RETRIEVAL_OPERATIONS \<and> k \<noteq> OP_UNKNOWN) all_operation_kinds"

datatype operation_node = OperationNode
  (on_kind: operation_kind) (on_children: "operation_node list") (on_dataset: "string option")

datatype operation_classification = RETRIEVAL | MUTATION | UNSUPPORTED

lemma retrieval_not_mutation: "k \<in> set RETRIEVAL_OPERATIONS \<Longrightarrow> k \<notin> set MUTATION_OPERATIONS"
  by (simp add: MUTATION_OPERATIONS_def)

lemma operation_kind_cases:
  "k \<in> set RETRIEVAL_OPERATIONS \<or> k \<in> set MUTATION_OPERATIONS \<or> k = OP_UNKNOWN"
  by (cases k) (simp_all add: MUTATION_OPERATIONS_def RETRIEVAL_OPERATIONS_def all_operation_kinds_def)

section \<open>Plans\<close>

datatype normalized_type =
  NT_STRING | NT_INTEGER | NT_DECIMAL | NT_BOOLEAN | NT_DATE | NT_DATETIME | NT_BINARY

fun normalized_type_value :: "normalized_type \<Rightarrow> string" where
  "normalized_type_value NT_STRING = ''string''"
| "normalized_type_value NT_INTEGER = ''integer''"
| "normalized_type_value NT_DECIMAL = ''decimal''"
| "normalized_type_value NT_BOOLEAN = ''boolean''"
| "normalized_type_value NT_DATE = ''date''"
| "normalized_type_value NT_DATETIME = ''datetime''"
| "normalized_type_value NT_BINARY = ''binary''"

datatype sort_direction = ASCENDING | DESCENDING

datatype null_placement = NULLS_FIRST | NULLS_LAST

record query_plan_reference =
  qpr_plan_id :: string
  qpr_version :: string

definition QueryPlanReference :: "string \<Rightarrow> string \<Rightarrow> query_plan_reference res" where
  "QueryPlanReference p v =
     (if blank p \<or> blank v
      then Inl (ValueError ''query plan identifier and version must not be blank'')
      else Inr \<lparr>qpr_plan_id = p, qpr_version = v\<rparr>)"

record parameter_spec =
  ps_name :: string
  ps_value_type :: normalized_type
  ps_required :: bool
  ps_nullable :: bool

definition ParameterSpec_post :: "parameter_spec \<Rightarrow> parameter_spec res" where
  "ParameterSpec_post p =
     (if blank (ps_name p) then Inl (ValueError ''parameter name must not be blank'') else Inr p)"

record order_term =
  ot_column :: string
  ot_direction :: sort_direction
  ot_nulls :: null_placement

definition OrderTerm_post :: "order_term \<Rightarrow> order_term res" where
  "OrderTerm_post t =
     (if blank (ot_column t) then Inl (ValueError ''order column must not be blank'') else Inr t)"

record query_plan =
  qp_reference :: query_plan_reference
  qp_operation :: operation_node
  parameter_schema :: "parameter_spec list"
  qp_required_capabilities :: "string set"
  deterministic_order :: "order_term list"
  intrinsically_ordered :: bool
  max_rows :: int
  max_bytes :: int
  authorized_datasets :: "string set"

definition QueryPlan_post :: "query_plan \<Rightarrow> query_plan res" where
  "QueryPlan_post p =
     (if \<not> distinct (map ps_name (parameter_schema p))
      then Inl (ValueError ''query parameter names must be unique'')
      else if max_rows p \<le> 0 \<or> max_bytes p \<le> 0
      then Inl (ValueError ''query plan limits must be positive'')
      else if \<exists>v \<in> qp_required_capabilities p \<union> authorized_datasets p. blank v
      then Inl (ValueError ''capabilities and datasets must not be blank'')
      else Inr p)"

record vendor_neutral_contract =
  vnc_version :: string
  vnc_capabilities :: "string set"
  vnc_normalized_types :: "normalized_type set"

definition VendorNeutralContract_post :: "vendor_neutral_contract \<Rightarrow> vendor_neutral_contract res" where
  "VendorNeutralContract_post c =
     (if blank (vnc_version c) then Inl (ValueError ''contract version must not be blank'') else Inr c)"

section \<open>Access decisions, results and effects\<close>

record database_access_decision =
  dad_allowed :: bool
  dad_credential_id :: string
  dad_service_identity :: string
  dad_policy_version :: string
  dad_reason_code :: string
  dad_transport_encryption :: "string option"
  dad_persistence_encryption :: "string option"

record protection_metadata =
  pm_policy_version :: string
  pm_service_identity :: string
  pm_transport_encryption :: string
  pm_persistence_encryption :: string

record normalized_column =
  nc_name :: string
  nc_value_type :: normalized_type
  nc_nullable :: bool

record security_audit_event =
  sae_correlation_id :: string
  sae_configuration_version :: string
  sae_policy_version :: string
  sae_service_identity :: string
  sae_decision :: string
  sae_reason_code :: string
  sae_timestamp :: datetime
  sae_operation_classification :: operation_classification
  sae_plan_reference :: query_plan_reference
  sae_redacted_details :: string

record approved_effect =
  effect_id :: string
  ef_operation :: operation_node
  ef_parameters :: "(string \<times> pyval) list"

end
