(* ===== verification/Bulk_Models.thy ===== *)
theory Bulk_Models
  imports Relational_Models
begin

text \<open>
  The durable records of \<open>bulk/models.py\<close> and \<open>bulk/effect_models.py\<close>. A frozen
  dataclass is a record with a validator \<open>_post\<close>, its \<open>__post_init__\<close>, which
  \<open>dataclasses.replace\<close> runs again.
\<close>

section \<open>Enumerations\<close>

datatype artifact_kind = PAYLOAD | RESULT

fun artifact_value :: "artifact_kind \<Rightarrow> string" where
  "artifact_value PAYLOAD = ''payload''"
| "artifact_value RESULT = ''result''"

datatype work_state = WS_PENDING | WS_IN_PROGRESS | WS_CHECKPOINTED | WS_COMPLETED

definition terminal_states :: "terminal_work_item_state list" where
  "terminal_states = [TS_SUCCEEDED, TS_VALIDATION_FAILED, TS_POLICY_REJECTED,
     TS_BUDGET_EXHAUSTED, TS_RETRY_EXHAUSTED, TS_WRITE_BACK_FAILED, TS_CANCELLED]"

lemma terminal_states_complete: "s \<in> set terminal_states" "distinct terminal_states"
  by (cases s) (simp_all add: terminal_states_def)

datatype terminal_job_classification =
  TJ_SUCCEEDED | TJ_PARTIALLY_SUCCEEDED | TJ_FAILED | TJ_BUDGET_EXHAUSTED | TJ_CANCELLED

datatype job_terminal_cause = CAUSE_COMPLETED | CAUSE_BUDGET_EXHAUSTED | CAUSE_CANCELLED

datatype checkpoint_stage = CS_ACCEPTED | CS_MODEL_COMPLETED | CS_RESULT_STORED | CS_VALIDATED | CS_COMPLETED

definition checkpoint_stages :: "checkpoint_stage list" where
  "checkpoint_stages = [CS_ACCEPTED, CS_MODEL_COMPLETED, CS_RESULT_STORED, CS_VALIDATED, CS_COMPLETED]"

text \<open>\<open>CheckpointStage.order\<close> is the position of the stage.\<close>

fun stage_order :: "checkpoint_stage \<Rightarrow> nat" where
  "stage_order CS_ACCEPTED = 0"
| "stage_order CS_MODEL_COMPLETED = 1"
| "stage_order CS_RESULT_STORED = 2"
| "stage_order CS_VALIDATED = 3"
| "stage_order CS_COMPLETED = 4"

lemma stage_order_inject [simp]: "stage_order a = stage_order b \<longleftrightarrow> a = b"
  by (cases a; cases b) auto

instantiation checkpoint_stage :: linorder
begin

definition less_eq_checkpoint_stage :: "checkpoint_stage \<Rightarrow> checkpoint_stage \<Rightarrow> bool" where
  "less_eq_checkpoint_stage a b = (stage_order a \<le> stage_order b)"

definition less_checkpoint_stage :: "checkpoint_stage \<Rightarrow> checkpoint_stage \<Rightarrow> bool" where
  "less_checkpoint_stage a b = (stage_order a < stage_order b)"

instance
  by standard (auto simp: less_eq_checkpoint_stage_def less_checkpoint_stage_def)

end

text \<open>The stages are listed in the order of \<open>stage_order\<close>.\<close>

lemma checkpoint_stages_nth: "checkpoint_stages ! stage_order s = s"
  by (cases s) (simp_all add: checkpoint_stages_def)

lemma checkpoint_stages_sorted: "sorted_wrt (<) checkpoint_stages"
  by (simp add: checkpoint_stages_def less_checkpoint_stage_def)

lemma stage_le_completed [simp]: "(s :: checkpoint_stage) \<le> CS_COMPLETED"
  by (cases s) (simp_all add: less_eq_checkpoint_stage_def)

datatype claim_status = ACQUIRED | ACTIVE_DUPLICATE

datatype outbox_status = OB_PENDING | OB_PUBLISHED

section \<open>Work items and checkpoints\<close>

record object_reference =
  obj_reference :: string
  content_hash :: string
  obj_kind :: artifact_kind
  size_bytes :: int

definition ObjectReference_post :: "object_reference \<Rightarrow> object_reference res" where
  "ObjectReference_post r =
     bindR (require_texts [(''object reference'', obj_reference r), (''content hash'', content_hash r)])
       (\<lambda>_. if size_bytes r < 0 then Inl (ValueError ''object size must be non-negative'') else Inr r)"

record work_submission =
  sub_job_id :: string
  sub_item_id :: string
  sub_idempotency_key :: string
  sub_payload :: string

definition WorkSubmission_post :: "work_submission \<Rightarrow> work_submission res" where
  "WorkSubmission_post s =
     bindR (require_texts [(''job_id'', sub_job_id s), (''item_id'', sub_item_id s),
              (''idempotency_key'', sub_idempotency_key s)]) (\<lambda>_. Inr s)"

record work_item =
  wi_job_id :: string
  wi_item_id :: string
  wi_idempotency_key :: string
  wi_payload_reference :: object_reference
  wi_configuration :: configuration_reference
  wi_state :: work_state
  wi_attempt_count :: int
  wi_lease_owner :: "string option"
  wi_lease_expires_at :: "datetime option"
  wi_result_reference :: "object_reference option"
  wi_revision :: int

definition WorkItem_post :: "work_item \<Rightarrow> work_item res" where
  "WorkItem_post i =
     bindR (require_texts [(''job_id'', wi_job_id i), (''item_id'', wi_item_id i),
              (''idempotency_key'', wi_idempotency_key i)]) (\<lambda>_.
       if wi_attempt_count i < 0 \<or> wi_revision i < 0
       then Inl (ValueError ''attempt count and revision must be non-negative'')
       else
         (let active = (wi_lease_owner i \<noteq> None \<or> wi_lease_expires_at i \<noteq> None) in
          if active \<noteq> (wi_lease_owner i \<noteq> None \<and> wi_lease_expires_at i \<noteq> None)
          then Inl (ValueError ''lease owner and expiry must be present together'')
          else if wi_state i = WS_IN_PROGRESS \<and> \<not> active
          then Inl (ValueError ''in-progress work requires a lease'')
          else if wi_state i \<noteq> WS_IN_PROGRESS \<and> active
          then Inl (ValueError ''only in-progress work may hold a lease'')
          else Inr i))"

record checkpoint_record =
  cp_job_id :: string
  cp_item_id :: string
  cp_idempotency_key :: string
  completed_stage :: checkpoint_stage
  cp_attempt_count :: int
  cp_outcome :: string
  cp_configuration :: configuration_reference
  cp_result_reference :: "object_reference option"
  cp_recorded_at :: datetime
  cp_sequence :: int

definition CheckpointRecord_post :: "checkpoint_record \<Rightarrow> checkpoint_record res" where
  "CheckpointRecord_post c =
     bindR (require_texts [(''checkpoint outcome'', cp_outcome c)]) (\<lambda>_.
       if cp_attempt_count c < 1 \<or> cp_sequence c < 1
       then Inl (ValueError ''checkpoint attempt and sequence must be positive'')
       else Inr c)"

record work_notification =
  wn_event_id :: string
  wn_job_id :: string
  wn_item_id :: string
  wn_idempotency_key :: string
  wn_configuration_version :: string
  wn_payload_reference :: string
  wn_payload_hash :: string
  aggregate_revision :: int

definition WorkNotification_post :: "work_notification \<Rightarrow> work_notification res" where
  "WorkNotification_post n =
     bindR (require_texts [(''event_id'', wn_event_id n), (''job_id'', wn_job_id n),
              (''item_id'', wn_item_id n), (''idempotency_key'', wn_idempotency_key n),
              (''configuration_version'', wn_configuration_version n),
              (''payload_reference'', wn_payload_reference n), (''payload_hash'', wn_payload_hash n)])
       (\<lambda>_. if aggregate_revision n < 0
            then Inl (ValueError ''aggregate revision must be non-negative'') else Inr n)"

record outbox_record =
  ob_event_id :: string
  ob_notification :: work_notification
  ob_status :: outbox_status
  ob_published_at :: "datetime option"

definition OutboxRecord_post :: "outbox_record \<Rightarrow> outbox_record res" where
  "OutboxRecord_post r =
     (if ob_status r = OB_PUBLISHED \<and> ob_published_at r = None
      then Inl (ValueError ''published outbox records require a timestamp'')
      else if ob_status r = OB_PENDING \<and> ob_published_at r \<noteq> None
      then Inl (ValueError ''pending outbox records cannot have a publish timestamp'')
      else Inr r)"

record work_claim =
  claim_status :: claim_status
  claim_item :: work_item
  claim_latest :: "checkpoint_record option"

definition acquired :: "work_claim \<Rightarrow> bool" where
  "acquired c = (claim_status c = ACQUIRED)"

record resume_info =
  rs_item :: work_item
  rs_latest :: "checkpoint_record option"
  rs_next_stage :: "checkpoint_stage option"

record broker_delivery =
  delivery_id :: string
  bd_notification :: work_notification

definition BrokerDelivery_post :: "broker_delivery \<Rightarrow> broker_delivery res" where
  "BrokerDelivery_post d = bindR (require_texts [(''delivery_id'', delivery_id d)]) (\<lambda>_. Inr d)"

section \<open>Terminal records\<close>

record terminal_record =
  tr_job_id :: string
  tr_item_id :: string
  tr_idempotency_key :: string
  tr_state :: terminal_work_item_state
  tr_failure_code :: "string option"
  tr_failure_details :: "string option"
  tr_configuration :: configuration_reference
  tr_attempt_count :: int
  tr_result_reference :: "object_reference option"
  tr_recorded_at :: datetime

definition TerminalRecord_post :: "terminal_record \<Rightarrow> terminal_record res" where
  "TerminalRecord_post t =
     bindR (require_texts [(''job_id'', tr_job_id t), (''item_id'', tr_item_id t),
              (''idempotency_key'', tr_idempotency_key t)]) (\<lambda>_.
       if tr_attempt_count t < 1
       then Inl (ValueError ''terminal work item attempt count must be positive'')
       else if \<not> tz_aware (tr_recorded_at t)
       then Inl (ValueError ''terminal work item timestamp must be timezone-aware'')
       else if tr_state t = TS_SUCCEEDED \<and> (tr_failure_code t \<noteq> None \<or> tr_failure_details t \<noteq> None)
       then Inl (ValueError ''succeeded work cannot contain failure details'')
       else if tr_state t \<noteq> TS_SUCCEEDED \<and> missing_text (tr_failure_code t)
       then Inl (ValueError ''nonsuccess terminal work requires a failure code'')
       else Inr t)"

record dead_letter_entry =
  dl_job_id :: string
  dl_item_id :: string
  dl_idempotency_key :: string
  dl_failure_code :: string
  dl_failure_details :: "string option"
  dl_attempt_count :: int
  dl_configuration :: configuration_reference
  dl_result_reference :: "object_reference option"
  dl_persisted_at :: datetime

definition DeadLetterEntry_post :: "dead_letter_entry \<Rightarrow> dead_letter_entry res" where
  "DeadLetterEntry_post d =
     bindR (require_texts [(''job_id'', dl_job_id d), (''item_id'', dl_item_id d),
              (''idempotency_key'', dl_idempotency_key d), (''failure_code'', dl_failure_code d)]) (\<lambda>_.
       if dl_attempt_count d < 1 then Inl (ValueError ''dead-letter attempt count must be positive'')
       else if \<not> tz_aware (dl_persisted_at d)
       then Inl (ValueError ''dead-letter timestamp must be timezone-aware'')
       else Inr d)"

record persistence_failure =
  pf_job_id :: string
  pf_item_id :: string
  pf_operation :: string
  pf_reason :: string
  pf_recorded_at :: datetime

definition PersistenceFailure_post :: "persistence_failure \<Rightarrow> persistence_failure res" where
  "PersistenceFailure_post p =
     bindR (require_texts [(''job_id'', pf_job_id p), (''item_id'', pf_item_id p),
              (''operation'', pf_operation p), (''reason'', pf_reason p)]) (\<lambda>_. Inr p)"

section \<open>Reports and telemetry\<close>

record terminal_state_group =
  tg_state :: terminal_work_item_state
  tg_count :: int
  tg_item_ids :: "string list"

definition TerminalStateGroup_post :: "terminal_state_group \<Rightarrow> terminal_state_group res" where
  "TerminalStateGroup_post g =
     (if tg_count g \<noteq> int (length (tg_item_ids g)) \<or> tg_count g < 0
      then Inl (ValueError ''terminal state count must equal identifier count'')
      else if list_ex blank (tg_item_ids g) \<or> \<not> distinct (tg_item_ids g)
      then Inl (ValueError ''terminal state identifiers must be unique and non-blank'')
      else Inr g)"

record terminal_job_report =
  tj_job_id :: string
  tj_classification :: terminal_job_classification
  tj_groups :: "terminal_state_group list"
  tj_total_count :: int
  tj_terminal_cause :: job_terminal_cause
  tj_completed_at :: datetime

definition TerminalJobReport_post :: "terminal_job_report \<Rightarrow> terminal_job_report res" where
  "TerminalJobReport_post r =
     bindR (require_texts [(''job_id'', tj_job_id r)]) (\<lambda>_.
       if tj_total_count r \<le> 0
       then Inl (ValueError ''terminal job reports require at least one work item'')
       else if map tg_state (tj_groups r) \<noteq> terminal_states
       then Inl (ValueError ''terminal job report must contain every state in deterministic order'')
       else
         (let identifiers = concat (map tg_item_ids (tj_groups r)) in
          if tj_total_count r \<noteq> int (length identifiers) \<or> \<not> distinct identifiers
          then Inl (ValueError ''terminal report groups must form a complete disjoint partition'')
          else Inr r))"

record bulk_state_telemetry =
  bst_job_id :: string
  counts_by_state :: "(terminal_work_item_state \<times> int) list"
  retry_count :: int
  validation_failure_count :: int
  dead_letter_count :: int
  token_usage :: int
  monetary_cost_minor_units :: int
  elapsed_ms :: int
  persistence_failure_count :: int

definition BulkStateTelemetry_post :: "bulk_state_telemetry \<Rightarrow> bulk_state_telemetry res" where
  "BulkStateTelemetry_post t =
     (if list_ex (\<lambda>v. v < 0) [retry_count t, validation_failure_count t, dead_letter_count t,
          token_usage t, monetary_cost_minor_units t, elapsed_ms t, persistence_failure_count t]
      then Inl (ValueError ''bulk telemetry values must be non-negative'')
      else if map fst (counts_by_state t) \<noteq> terminal_states
      then Inl (ValueError ''bulk telemetry must contain every terminal state in deterministic order'')
      else Inr t)"

record execution_result =
  er_state :: terminal_work_item_state
  er_failure_code :: "string option"
  er_failure_details :: "string option"
  er_result :: "string option"
  er_token_usage :: int
  er_cost :: int

definition ExecutionResult_post :: "execution_result \<Rightarrow> execution_result res" where
  "ExecutionResult_post r =
     (if er_token_usage r < 0 \<or> er_cost r < 0
      then Inl (ValueError ''work item usage must be non-negative'')
      else if er_state r = TS_SUCCEEDED \<and> (er_failure_code r \<noteq> None \<or> er_failure_details r \<noteq> None)
      then Inl (ValueError ''succeeded execution cannot contain failure details'')
      else if er_state r \<noteq> TS_SUCCEEDED \<and> missing_text (er_failure_code r)
      then Inl (ValueError ''nonsuccess execution requires a failure code'')
      else Inr r)"

section \<open>Effect records\<close>

datatype transaction_boundary = SHARED | NON_SHARED

datatype evidence_status = EV_ABSENT | EV_COMMITTED | EV_ROLLED_BACK | EV_AMBIGUOUS

datatype attempt_status = AT_COMMITTED | AT_ROLLED_BACK | AT_AMBIGUOUS

datatype recovery_status = RC_COMMITTED | RC_RECOVERED | RC_RECONCILIATION_REQUIRED | RC_WRITE_BACK_FAILED

record effect_record =
  ef_job_id :: string
  ef_item_id :: string
  ef_idempotency_key :: string
  ef_target_dataset :: string
  ef_row_scope_digest :: string
  ef_mutation_digest :: string
  ef_affected_rows :: int
  ef_transaction_outcome :: string
  ef_adapter_version :: string
  ef_committed_at :: datetime

definition EffectRecord_post :: "effect_record \<Rightarrow> effect_record res" where
  "EffectRecord_post r =
     bindR (require_texts [(''job_id'', ef_job_id r), (''item_id'', ef_item_id r),
              (''idempotency_key'', ef_idempotency_key r), (''target_dataset'', ef_target_dataset r),
              (''row_scope_digest'', ef_row_scope_digest r), (''mutation_digest'', ef_mutation_digest r),
              (''transaction_outcome'', ef_transaction_outcome r),
              (''adapter_version'', ef_adapter_version r)]) (\<lambda>_.
       if ef_affected_rows r < 0 then Inl (ValueError ''affected rows must be non-negative'')
       else if \<not> tz_aware (ef_committed_at r)
       then Inl (ValueError ''committed_at must be timezone-aware'')
       else Inr r)"

record effect_request =
  rq_claim :: work_claim
  rq_effect :: approved_effect
  rq_target_dataset :: string
  rq_row_scope_digest :: string
  rq_mutation_digest :: string
  rq_boundary :: transaction_boundary

definition EffectRequest_post :: "effect_request \<Rightarrow> effect_request res" where
  "EffectRequest_post r =
     bindR (require_texts [(''target_dataset'', rq_target_dataset r),
              (''row_scope_digest'', rq_row_scope_digest r),
              (''mutation_digest'', rq_mutation_digest r)]) (\<lambda>_.
       if \<not> acquired (rq_claim r) then Inl (ValueError ''an acquired work claim is required'')
       else if effect_id (rq_effect r) \<noteq> wi_idempotency_key (claim_item (rq_claim r))
       then Inl (ValueError ''effect identifier must equal the work idempotency key'')
       else Inr r)"

record effect_attempt =
  ea_status :: attempt_status
  ea_affected_rows :: int
  ea_transaction_outcome :: string
  ea_adapter_version :: string

definition EffectAttempt_post :: "effect_attempt \<Rightarrow> effect_attempt res" where
  "EffectAttempt_post a =
     (if ea_affected_rows a < 0 then Inl (ValueError ''affected rows must be non-negative'')
      else bindR (require_texts [(''transaction outcome'', ea_transaction_outcome a),
                    (''adapter version'', ea_adapter_version a)]) (\<lambda>_. Inr a))"

record effect_evidence =
  ev_status :: evidence_status
  ev_record :: "effect_record option"

definition EffectEvidence_post :: "effect_evidence \<Rightarrow> effect_evidence res" where
  "EffectEvidence_post e =
     (if (ev_status e = EV_COMMITTED) \<noteq> (ev_record e \<noteq> None)
      then Inl (ValueError ''committed evidence requires exactly one effect record'')
      else Inr e)"

record reconciliation_record =
  rn_job_id :: string
  rn_item_id :: string
  rn_idempotency_key :: string
  rn_target_dataset :: string
  rn_row_scope_digest :: string
  rn_mutation_digest :: string
  rn_reason :: string
  rn_recorded_at :: datetime

definition ReconciliationRecord_post :: "reconciliation_record \<Rightarrow> reconciliation_record res" where
  "ReconciliationRecord_post r =
     bindR (require_texts [(''job_id'', rn_job_id r), (''item_id'', rn_item_id r),
              (''idempotency_key'', rn_idempotency_key r), (''target_dataset'', rn_target_dataset r),
              (''row_scope_digest'', rn_row_scope_digest r), (''mutation_digest'', rn_mutation_digest r),
              (''reason'', rn_reason r)]) (\<lambda>_.
       if \<not> tz_aware (rn_recorded_at r)
       then Inl (ValueError ''recorded_at must be timezone-aware'')
       else Inr r)"

record recovery_result =
  rv_status :: recovery_status
  rv_effect_record :: "effect_record option"
  rv_checkpoint :: "checkpoint_record option"
  rv_reconciliation :: "reconciliation_record option"
  rv_reason_code :: string

definition RecoveryResult_post :: "recovery_result \<Rightarrow> recovery_result res" where
  "RecoveryResult_post r =
     bindR (require_texts [(''effect recovery reason'', rv_reason_code r)]) (\<lambda>_. Inr r)"

definition rv_committed :: "recovery_result \<Rightarrow> bool" where
  "rv_committed r = (rv_status r \<in> {RC_COMMITTED, RC_RECOVERED})"

end
