(* ===== verification/Bulk_Repository.thy ===== *)
theory Bulk_Repository
  imports Bulk_Models
begin

text \<open>
  \<open>InMemoryDurableWorkRepository\<close> of \<open>bulk/memory.py\<close>: work items, their leases,
  checkpoint histories, terminal outcomes, the outbox, effect and reconciliation records.
  One lock is the transaction boundary, so a method is one step. Keys of items are
  \<open>(job_id, idempotency_key)\<close>, keys of item identities \<open>(job_id, item_id)\<close>.
\<close>

type_synonym work_key = "string \<times> string"

record work_repository =
  items_map :: "(work_key, work_item) dict"
  item_ids_map :: "(string \<times> string, string) dict"
  checkpoints_map :: "(work_key, checkpoint_record list) dict"
  terminal_map :: "(work_key, terminal_record) dict"
  failures_list :: "persistence_failure list"
  outbox_map :: "(string, outbox_record) dict"
  effects_map :: "(work_key, effect_record) dict"
  reconciliations_map :: "(work_key, reconciliation_record) dict"

definition repository_init :: work_repository where
  "repository_init = \<lparr>items_map = [], item_ids_map = [], checkpoints_map = [], terminal_map = [],
     failures_list = [], outbox_map = [], effects_map = [], reconciliations_map = []\<rparr>"

section \<open>Guards and lookups\<close>

definition require_item :: "work_key \<Rightarrow> work_repository \<Rightarrow> work_item res" where
  "require_item k r = (case dget (items_map r) k of
     None \<Rightarrow> Inl (WorkNotFoundError (''unknown work item: '' @ fst k @ ''/'' @ snd k))
   | Some i \<Rightarrow> Inr i)"

text \<open>Comparisons with an optional expiry; comparing \<open>None\<close> raises.\<close>

definition expiry_after :: "datetime option \<Rightarrow> datetime \<Rightarrow> bool res" where
  "expiry_after e now = (case e of
     None \<Rightarrow> Inl (TypeError ''not supported between instances of NoneType and datetime'')
   | Some t \<Rightarrow> dt_less now t)"

definition require_owned :: "work_key \<Rightarrow> string \<Rightarrow> datetime \<Rightarrow> work_repository \<Rightarrow> work_item res" where
  "require_owned k owner now r =
     bindR (require_item k r) (\<lambda>i.
       if wi_state i \<noteq> WS_IN_PROGRESS \<or> wi_lease_owner i \<noteq> Some owner
       then Inl (LeaseOwnershipError ''an unexpired lease owned by the caller is required'')
       else bindR (expiry_after (wi_lease_expires_at i) now) (\<lambda>live.
         if \<not> live
         then Inl (LeaseOwnershipError ''an unexpired lease owned by the caller is required'')
         else Inr i))"

definition checkpoints_of :: "work_key \<Rightarrow> work_repository \<Rightarrow> checkpoint_record list" where
  "checkpoints_of k r = (case dget (checkpoints_map r) k of None \<Rightarrow> [] | Some cs \<Rightarrow> cs)"

definition latest :: "work_key \<Rightarrow> work_repository \<Rightarrow> checkpoint_record option" where
  "latest k r = (let cs = checkpoints_of k r in if cs = [] then None else Some (last cs))"

definition next_stage :: "checkpoint_stage \<Rightarrow> checkpoint_stage option" where
  "next_stage s = (let index = stage_order s + 1 in
     if index < length checkpoint_stages then Some (checkpoint_stages ! index) else None)"

definition validate_lease :: "string \<Rightarrow> datetime \<Rightarrow> timedelta \<Rightarrow> unit res" where
  "validate_lease owner now d =
     (if blank owner \<or> \<not> tz_aware now
      then Inl (ValueError ''lease owner must be non-blank and time must be timezone-aware'')
      else if d \<le> 0 then Inl (ValueError ''lease duration must be positive'')
      else Inr ())"

section \<open>Creation and reading\<close>

definition create_with_outbox :: "work_item \<Rightarrow> outbox_record \<Rightarrow> (work_repository, work_item) meth" where
  "create_with_outbox i ob r =
     (let k = (wi_job_id i, wi_idempotency_key i); identity = (wi_job_id i, wi_item_id i) in
      case dget (items_map r) k of
        Some existing \<Rightarrow>
          if wi_item_id existing \<noteq> wi_item_id i \<or> wi_configuration existing \<noteq> wi_configuration i
             \<or> wi_payload_reference existing \<noteq> wi_payload_reference i
          then (Inl (WorkConflictError ''idempotency key is already bound to different immutable work''), r)
          else (Inr existing, r)
      | None \<Rightarrow>
          if dget (item_ids_map r) identity \<noteq> None
          then (Inl (WorkConflictError ''work item identifier is already bound to another idempotency key''), r)
          else if dget (outbox_map r) (ob_event_id ob) \<noteq> None
          then (Inl (WorkConflictError ''outbox event identifier already exists''), r)
          else (Inr i, r\<lparr>items_map := dset k i (items_map r),
                  item_ids_map := dset identity (wi_idempotency_key i) (item_ids_map r),
                  outbox_map := dset (ob_event_id ob) ob (outbox_map r)\<rparr>))"

definition get_item :: "string \<Rightarrow> string \<Rightarrow> work_repository \<Rightarrow> work_item option" where
  "get_item job ikey r = dget (items_map r) (job, ikey)"

definition job_items :: "string \<Rightarrow> work_repository \<Rightarrow> work_item list" where
  "job_items job r =
     sort_key wi_item_id (filter (\<lambda>i. wi_job_id i = job) (dvalues (items_map r)))"

definition checkpoints :: "string \<Rightarrow> string \<Rightarrow> work_repository \<Rightarrow> checkpoint_record list" where
  "checkpoints job ikey r = checkpoints_of (job, ikey) r"

section \<open>Leases\<close>

definition claim ::
    "string \<Rightarrow> string \<Rightarrow> string \<Rightarrow> datetime \<Rightarrow> timedelta \<Rightarrow> (work_repository, work_claim) meth" where
  "claim job ikey owner now d r =
     (let k = (job, ikey) in
      case bindR (validate_lease owner now d) (\<lambda>_. require_item k r) of
        Inl e \<Rightarrow> (Inl e, r)
      | Inr current \<Rightarrow>
         (if wi_state current = WS_COMPLETED
          then (Inr \<lparr>claim_status = ACTIVE_DUPLICATE, claim_item = current, claim_latest = latest k r\<rparr>, r)
          else
           (case (if wi_state current = WS_IN_PROGRESS
                  then expiry_after (wi_lease_expires_at current) now else Inr False) of
              Inl e \<Rightarrow> (Inl e, r)
            | Inr True \<Rightarrow>
               (Inr \<lparr>claim_status = ACTIVE_DUPLICATE, claim_item = current, claim_latest = latest k r\<rparr>, r)
            | Inr False \<Rightarrow>
               (case WorkItem_post (current\<lparr>wi_state := WS_IN_PROGRESS,
                       wi_attempt_count := wi_attempt_count current + 1,
                       wi_lease_owner := Some owner, wi_lease_expires_at := Some (dt_plus now d),
                       wi_revision := wi_revision current + 1\<rparr>) of
                  Inl e \<Rightarrow> (Inl e, r)
                | Inr claimed \<Rightarrow>
                   (Inr \<lparr>claim_status = ACQUIRED, claim_item = claimed, claim_latest = latest k r\<rparr>,
                    r\<lparr>items_map := dset k claimed (items_map r)\<rparr>)))))"

definition renew ::
    "string \<Rightarrow> string \<Rightarrow> string \<Rightarrow> datetime \<Rightarrow> timedelta \<Rightarrow> (work_repository, work_item) meth" where
  "renew job ikey owner now d r =
     (let k = (job, ikey) in
      case bindR (validate_lease owner now d) (\<lambda>_.
           bindR (require_owned k owner now r) (\<lambda>current.
           WorkItem_post (current\<lparr>wi_lease_expires_at := Some (dt_plus now d),
             wi_revision := wi_revision current + 1\<rparr>))) of
        Inl e \<Rightarrow> (Inl e, r)
      | Inr renewed \<Rightarrow> (Inr renewed, r\<lparr>items_map := dset k renewed (items_map r)\<rparr>))"

section \<open>Checkpoints\<close>

text \<open>\<open>x or y\<close> on optional records.\<close>

definition or_else :: "'a option \<Rightarrow> 'a option \<Rightarrow> 'a option" where
  "or_else x y = (case x of None \<Rightarrow> y | Some _ \<Rightarrow> x)"

text \<open>\<open>record_checkpoint\<close> is the part of \<open>checkpoint\<close> after the stage guards: the new
  record, the released item, and the two writes.\<close>

definition record_checkpoint ::
    "work_key \<Rightarrow> work_item \<Rightarrow> checkpoint_stage \<Rightarrow> string \<Rightarrow> datetime \<Rightarrow> object_reference option \<Rightarrow> int
     \<Rightarrow> (work_repository, checkpoint_record) meth" where
  "record_checkpoint k current stage outcome now result n r =
     (case bindR (CheckpointRecord_post \<lparr>cp_job_id = wi_job_id current, cp_item_id = wi_item_id current,
                cp_idempotency_key = wi_idempotency_key current, completed_stage = stage,
                cp_attempt_count = wi_attempt_count current, cp_outcome = outcome,
                cp_configuration = wi_configuration current, cp_result_reference = result,
                cp_recorded_at = now, cp_sequence = n\<rparr>) (\<lambda>cp.
           bindR (WorkItem_post (current\<lparr>
                wi_state := (if stage = CS_COMPLETED then WS_COMPLETED else WS_CHECKPOINTED),
                wi_lease_owner := None, wi_lease_expires_at := None,
                wi_result_reference := or_else result (wi_result_reference current),
                wi_revision := wi_revision current + 1\<rparr>)) (\<lambda>updated.
             Inr (cp, updated))) of
        Inl e \<Rightarrow> (Inl e, r)
      | Inr (cp, updated) \<Rightarrow>
         (Inr cp, r\<lparr>checkpoints_map := dset k (checkpoints_of k r @ [cp]) (checkpoints_map r),
            items_map := dset k updated (items_map r)\<rparr>))"

definition checkpoint ::
    "string \<Rightarrow> string \<Rightarrow> string \<Rightarrow> checkpoint_stage \<Rightarrow> string \<Rightarrow> datetime \<Rightarrow> object_reference option
     \<Rightarrow> (work_repository, checkpoint_record) meth" where
  "checkpoint job ikey owner stage outcome now result r =
     (let k = (job, ikey) in
      case require_owned k owner now r of
        Inl e \<Rightarrow> (Inl e, r)
      | Inr current \<Rightarrow>
         (case latest k r of
            Some l \<Rightarrow>
              if stage_order stage < stage_order (completed_stage l)
              then (Inl (CheckpointTransitionError ''checkpoint stages cannot move backwards''), r)
              else if stage = completed_stage l
              then (if cp_outcome l \<noteq> outcome \<or> cp_result_reference l \<noteq> result
                    then (Inl (CheckpointTransitionError ''completed checkpoint stage is immutable''), r)
                    else (Inr l, r))
              else record_checkpoint k current stage outcome now result (cp_sequence l + 1) r
          | None \<Rightarrow> record_checkpoint k current stage outcome now result 1 r))"

definition resume_state :: "string \<Rightarrow> string \<Rightarrow> work_repository \<Rightarrow> resume_info res" where
  "resume_state job ikey r =
     (let k = (job, ikey) in
      bindR (require_item k r) (\<lambda>i.
        Inr \<lparr>rs_item = i, rs_latest = latest k r,
             rs_next_stage = (case latest k r of None \<Rightarrow> Some CS_ACCEPTED
                              | Some l \<Rightarrow> next_stage (completed_stage l))\<rparr>))"

section \<open>Outbox\<close>

definition pending_outbox :: "work_repository \<Rightarrow> outbox_record list" where
  "pending_outbox r = filter (\<lambda>ob. ob_status ob = OB_PENDING) (dvalues (outbox_map r))"

definition mark_published :: "string \<Rightarrow> datetime \<Rightarrow> (work_repository, outbox_record) meth" where
  "mark_published event t r =
     (case dget (outbox_map r) event of
        None \<Rightarrow> (Inl (WorkNotFoundError (''unknown outbox event: '' @ event)), r)
      | Some ob \<Rightarrow>
         if ob_status ob = OB_PUBLISHED then (Inr ob, r)
         else (case OutboxRecord_post (ob\<lparr>ob_status := OB_PUBLISHED, ob_published_at := Some t\<rparr>) of
                 Inl e \<Rightarrow> (Inl e, r)
               | Inr published \<Rightarrow>
                  (Inr published, r\<lparr>outbox_map := dset event published (outbox_map r)\<rparr>)))"

section \<open>Terminal outcomes\<close>

text \<open>The terminal record is written before the item is replaced.\<close>

definition terminalize ::
    "string \<Rightarrow> string \<Rightarrow> string \<Rightarrow> terminal_work_item_state \<Rightarrow> string option \<Rightarrow> string option
     \<Rightarrow> datetime \<Rightarrow> object_reference option \<Rightarrow> (work_repository, terminal_record) meth" where
  "terminalize job ikey owner state code details now result r =
     (let k = (job, ikey) in
      case dget (terminal_map r) k of
        Some existing \<Rightarrow>
          if (state, code, details, or_else result (tr_result_reference existing))
             \<noteq> (tr_state existing, tr_failure_code existing, tr_failure_details existing,
                tr_result_reference existing)
          then (Inl (WorkConflictError ''terminal work item outcome is immutable''), r)
          else (Inr existing, r)
      | None \<Rightarrow>
         (case require_owned k owner now r of
            Inl e \<Rightarrow> (Inl e, r)
          | Inr current \<Rightarrow>
             (case TerminalRecord_post \<lparr>tr_job_id = wi_job_id current, tr_item_id = wi_item_id current,
                     tr_idempotency_key = wi_idempotency_key current, tr_state = state,
                     tr_failure_code = code, tr_failure_details = details,
                     tr_configuration = wi_configuration current,
                     tr_attempt_count = wi_attempt_count current,
                     tr_result_reference = or_else result (wi_result_reference current),
                     tr_recorded_at = now\<rparr> of
                Inl e \<Rightarrow> (Inl e, r)
              | Inr terminal \<Rightarrow>
                 (let r' = r\<lparr>terminal_map := dset k terminal (terminal_map r)\<rparr> in
                  case WorkItem_post (current\<lparr>wi_state := WS_COMPLETED, wi_lease_owner := None,
                         wi_lease_expires_at := None,
                         wi_result_reference := tr_result_reference terminal,
                         wi_revision := wi_revision current + 1\<rparr>) of
                    Inl e \<Rightarrow> (Inl e, r')
                  | Inr updated \<Rightarrow>
                     (Inr terminal, r'\<lparr>items_map := dset k updated (items_map r')\<rparr>)))))"

definition terminal_items :: "string \<Rightarrow> work_repository \<Rightarrow> terminal_record list" where
  "terminal_items job r =
     sort_key tr_item_id (filter (\<lambda>t. tr_job_id t = job) (dvalues (terminal_map r)))"

definition record_persistence_failure :: "persistence_failure \<Rightarrow> work_repository \<Rightarrow> work_repository" where
  "record_persistence_failure p r =
     (if p \<notin> set (failures_list r) then r\<lparr>failures_list := failures_list r @ [p]\<rparr> else r)"

definition persistence_failures :: "string \<Rightarrow> work_repository \<Rightarrow> persistence_failure list" where
  "persistence_failures job r = filter (\<lambda>p. pf_job_id p = job) (failures_list r)"

section \<open>Effects and reconciliations\<close>

definition get_effect :: "string \<Rightarrow> string \<Rightarrow> work_repository \<Rightarrow> effect_record option" where
  "get_effect job ikey r = dget (effects_map r) (job, ikey)"

definition save_effect :: "effect_record \<Rightarrow> (work_repository, effect_record) meth" where
  "save_effect rec r =
     (let k = (ef_job_id rec, ef_idempotency_key rec) in
      case require_item k r of
        Inl e \<Rightarrow> (Inl e, r)
      | Inr i \<Rightarrow>
         if wi_item_id i \<noteq> ef_item_id rec
         then (Inl (WorkConflictError ''effect record item does not match durable work''), r)
         else
          (case dget (effects_map r) k of
             Some existing \<Rightarrow>
               if existing \<noteq> rec
               then (Inl (WorkConflictError ''idempotency key is already bound to another effect record''), r)
               else (Inr existing, r)
           | None \<Rightarrow> (Inr rec, r\<lparr>effects_map := dset k rec (effects_map r)\<rparr>)))"

definition save_reconciliation :: "reconciliation_record \<Rightarrow> (work_repository, reconciliation_record) meth" where
  "save_reconciliation rec r =
     (let k = (rn_job_id rec, rn_idempotency_key rec) in
      case require_item k r of
        Inl e \<Rightarrow> (Inl e, r)
      | Inr i \<Rightarrow>
         if wi_item_id i \<noteq> rn_item_id rec
         then (Inl (WorkConflictError ''reconciliation item does not match durable work''), r)
         else
          (case dget (reconciliations_map r) k of
             Some existing \<Rightarrow>
               if rn_target_dataset existing \<noteq> rn_target_dataset rec
                  \<or> rn_row_scope_digest existing \<noteq> rn_row_scope_digest rec
                  \<or> rn_mutation_digest existing \<noteq> rn_mutation_digest rec
                  \<or> rn_reason existing \<noteq> rn_reason rec
               then (Inl (WorkConflictError ''idempotency key is already awaiting different reconciliation''), r)
               else (Inr existing, r)
           | None \<Rightarrow> (Inr rec, r\<lparr>reconciliations_map := dset k rec (reconciliations_map r)\<rparr>)))"

definition get_reconciliation :: "string \<Rightarrow> string \<Rightarrow> work_repository \<Rightarrow> reconciliation_record option" where
  "get_reconciliation job ikey r = dget (reconciliations_map r) (job, ikey)"

end
