(* ===== verification/Bulk_Invariants.thy ===== *)
theory Bulk_Invariants
  imports Bulk_Repository
begin

text \<open>
  Histories of the durable work repository and what they preserve. The repository is seen
  as one cell per work key (item, checkpoint history, terminal outcome); \<open>repo_ok\<close> says
  that every cell is consistent, each operation has a rule listing the ways it can end,
  and the cells refine the life cycle of a work item.
\<close>

section \<open>Operations as steps\<close>

datatype repo_op =
    OpCreate work_item outbox_record
  | OpClaim string string string datetime timedelta
  | OpRenew string string string datetime timedelta
  | OpCheckpoint string string string checkpoint_stage string datetime "object_reference option"
  | OpPublished string datetime
  | OpTerminalize string string string terminal_work_item_state "string option" "string option"
      datetime "object_reference option"
  | OpFailure persistence_failure
  | OpEffect effect_record
  | OpReconcile reconciliation_record

fun repo_apply :: "repo_op \<Rightarrow> work_repository \<Rightarrow> work_repository" where
  "repo_apply (OpCreate i ob) r = snd (create_with_outbox i ob r)"
| "repo_apply (OpClaim job k owner now d) r = snd (claim job k owner now d r)"
| "repo_apply (OpRenew job k owner now d) r = snd (renew job k owner now d r)"
| "repo_apply (OpCheckpoint job k owner st out now res) r = snd (checkpoint job k owner st out now res r)"
| "repo_apply (OpPublished e t) r = snd (mark_published e t r)"
| "repo_apply (OpTerminalize job k owner st code det now res) r =
     snd (terminalize job k owner st code det now res r)"
| "repo_apply (OpFailure p) r = record_persistence_failure p r"
| "repo_apply (OpEffect e) r = snd (save_effect e r)"
| "repo_apply (OpReconcile n) r = snd (save_reconciliation n r)"

text \<open>Items are created the way \<open>BulkCoordinator.submit\<close> creates them: valid, pending and
  with no attempts.\<close>

fun op_ok :: "repo_op \<Rightarrow> bool" where
  "op_ok (OpCreate i ob) \<longleftrightarrow> WorkItem_post i = Inr i \<and> wi_state i = WS_PENDING
     \<and> wi_attempt_count i = 0 \<and> OutboxRecord_post ob = Inr ob"
| "op_ok _ \<longleftrightarrow> True"

inductive repo_reachable :: "work_repository \<Rightarrow> bool" where
  initial: "repo_reachable repository_init"
| step: "repo_reachable r \<Longrightarrow> op_ok x \<Longrightarrow> repo_reachable (repo_apply x r)"

section \<open>Consistent cells\<close>

lemma WorkItem_post_Inr: "WorkItem_post i = Inr j \<longleftrightarrow>
    j = i \<and> \<not> blank (wi_job_id i) \<and> \<not> blank (wi_item_id i) \<and> \<not> blank (wi_idempotency_key i)
    \<and> 0 \<le> wi_attempt_count i \<and> 0 \<le> wi_revision i
    \<and> (wi_state i = WS_IN_PROGRESS \<longleftrightarrow> wi_lease_owner i \<noteq> None)
    \<and> (wi_state i = WS_IN_PROGRESS \<longleftrightarrow> wi_lease_expires_at i \<noteq> None)"
  by (auto simp: WorkItem_post_def Let_def)

definition belongs_checkpoint :: "work_item \<Rightarrow> checkpoint_record \<Rightarrow> bool" where
  "belongs_checkpoint i cp \<longleftrightarrow> cp_job_id cp = wi_job_id i \<and> cp_item_id cp = wi_item_id i
     \<and> cp_idempotency_key cp = wi_idempotency_key i \<and> cp_configuration cp = wi_configuration i
     \<and> 1 \<le> cp_attempt_count cp \<and> cp_attempt_count cp \<le> wi_attempt_count i"

definition belongs_terminal :: "work_item \<Rightarrow> terminal_record \<Rightarrow> bool" where
  "belongs_terminal i t \<longleftrightarrow> tr_job_id t = wi_job_id i \<and> tr_item_id t = wi_item_id i
     \<and> tr_idempotency_key t = wi_idempotency_key i \<and> tr_configuration t = wi_configuration i
     \<and> tr_attempt_count t = wi_attempt_count i \<and> tr_result_reference t = wi_result_reference i
     \<and> TerminalRecord_post t = Inr t"

text \<open>A checkpoint history: numbered from 1, with strictly increasing stages.\<close>

definition history_ok :: "checkpoint_record list \<Rightarrow> bool" where
  "history_ok cs \<longleftrightarrow> map cp_sequence cs = map int [1..<length cs + 1]
     \<and> sorted_wrt (<) (map completed_stage cs)"

definition completed_history :: "checkpoint_record list \<Rightarrow> bool" where
  "completed_history cs \<longleftrightarrow> cs \<noteq> [] \<and> completed_stage (last cs) = CS_COMPLETED"

fun cell_ok :: "work_key \<Rightarrow> work_item option \<Rightarrow> checkpoint_record list \<Rightarrow> terminal_record option \<Rightarrow> bool" where
  "cell_ok k None cs t \<longleftrightarrow> cs = [] \<and> t = None"
| "cell_ok k (Some i) cs t \<longleftrightarrow>
     k = (wi_job_id i, wi_idempotency_key i) \<and> WorkItem_post i = Inr i
     \<and> (\<forall>e. wi_lease_expires_at i = Some e \<longrightarrow> tz_aware e)
     \<and> history_ok cs \<and> list_all (belongs_checkpoint i) cs
     \<and> (\<forall>x. t = Some x \<longrightarrow> belongs_terminal i x)
     \<and> (wi_state i = WS_COMPLETED \<longleftrightarrow> completed_history cs \<or> t \<noteq> None)
     \<and> (completed_history cs \<longrightarrow> t = None)
     \<and> (wi_state i = WS_PENDING \<longrightarrow> cs = [])
     \<and> (wi_state i = WS_CHECKPOINTED \<longrightarrow> cs \<noteq> [])
     \<and> (wi_state i \<noteq> WS_PENDING \<longrightarrow> 1 \<le> wi_attempt_count i)"

definition cells_ok :: "work_repository \<Rightarrow> bool" where
  "cells_ok r \<longleftrightarrow> (\<forall>k. cell_ok k (dget (items_map r) k) (checkpoints_of k r) (dget (terminal_map r) k))"

definition item_id_at :: "work_repository \<Rightarrow> work_key \<Rightarrow> string option" where
  "item_id_at r k = map_option wi_item_id (dget (items_map r) k)"

definition identities_ok :: "work_repository \<Rightarrow> bool" where
  "identities_ok r \<longleftrightarrow> (\<forall>job item key. dget (item_ids_map r) (job, item) = Some key \<longleftrightarrow>
     item_id_at r (job, key) = Some item)"

definition records_ok :: "work_repository \<Rightarrow> bool" where
  "records_ok r \<longleftrightarrow>
     distinct (dkeys (items_map r)) \<and> distinct (dkeys (terminal_map r))
     \<and> (\<forall>e ob. dget (outbox_map r) e = Some ob \<longrightarrow> ob_status ob = OB_PENDING \<longrightarrow> ob_published_at ob = None)
     \<and> (\<forall>k e. dget (effects_map r) k = Some e \<longrightarrow> k = (ef_job_id e, ef_idempotency_key e)
          \<and> item_id_at r k = Some (ef_item_id e))
     \<and> (\<forall>k n. dget (reconciliations_map r) k = Some n \<longrightarrow> k = (rn_job_id n, rn_idempotency_key n)
          \<and> item_id_at r k = Some (rn_item_id n))"

definition repo_ok :: "work_repository \<Rightarrow> bool" where
  "repo_ok r \<longleftrightarrow> cells_ok r \<and> identities_ok r \<and> records_ok r"

lemma cell_of: "repo_ok r \<Longrightarrow>
    cell_ok k (dget (items_map r) k) (checkpoints_of k r) (dget (terminal_map r) k)"
  unfolding repo_ok_def cells_ok_def by blast

lemma cell_item: "repo_ok r \<Longrightarrow> dget (items_map r) k = Some i \<Longrightarrow>
    cell_ok k (Some i) (checkpoints_of k r) (dget (terminal_map r) k)"
  using cell_of [of r k] by (simp only:)

lemma item_history: "repo_ok r \<Longrightarrow> dget (items_map r) k = Some i \<Longrightarrow> history_ok (checkpoints_of k r)"
  using cell_item [of r k i] unfolding cell_ok.simps by blast

section \<open>How the operations end\<close>

definition claimed_item :: "string \<Rightarrow> datetime \<Rightarrow> timedelta \<Rightarrow> work_item \<Rightarrow> work_item" where
  "claimed_item owner now d i = i\<lparr>wi_state := WS_IN_PROGRESS,
     wi_attempt_count := wi_attempt_count i + 1, wi_lease_owner := Some owner,
     wi_lease_expires_at := Some (dt_plus now d), wi_revision := wi_revision i + 1\<rparr>"

definition renewed_item :: "datetime \<Rightarrow> timedelta \<Rightarrow> work_item \<Rightarrow> work_item" where
  "renewed_item now d i = i\<lparr>wi_lease_expires_at := Some (dt_plus now d), wi_revision := wi_revision i + 1\<rparr>"

definition released_item :: "work_state \<Rightarrow> object_reference option \<Rightarrow> work_item \<Rightarrow> work_item" where
  "released_item s res i = i\<lparr>wi_state := s, wi_lease_owner := None, wi_lease_expires_at := None,
     wi_result_reference := res, wi_revision := wi_revision i + 1\<rparr>"

definition new_checkpoint :: "work_item \<Rightarrow> checkpoint_stage \<Rightarrow> string \<Rightarrow> datetime
    \<Rightarrow> object_reference option \<Rightarrow> int \<Rightarrow> checkpoint_record" where
  "new_checkpoint i st out now res n = \<lparr>cp_job_id = wi_job_id i, cp_item_id = wi_item_id i,
     cp_idempotency_key = wi_idempotency_key i, completed_stage = st,
     cp_attempt_count = wi_attempt_count i, cp_outcome = out, cp_configuration = wi_configuration i,
     cp_result_reference = res, cp_recorded_at = now, cp_sequence = n\<rparr>"

definition new_terminal :: "work_item \<Rightarrow> terminal_work_item_state \<Rightarrow> string option \<Rightarrow> string option
    \<Rightarrow> datetime \<Rightarrow> object_reference option \<Rightarrow> terminal_record" where
  "new_terminal i st code det now res = \<lparr>tr_job_id = wi_job_id i, tr_item_id = wi_item_id i,
     tr_idempotency_key = wi_idempotency_key i, tr_state = st, tr_failure_code = code,
     tr_failure_details = det, tr_configuration = wi_configuration i,
     tr_attempt_count = wi_attempt_count i,
     tr_result_reference = or_else res (wi_result_reference i), tr_recorded_at = now\<rparr>"

text \<open>\<open>owns owner now i\<close>: the item is leased to the owner and the lease has not expired.\<close>

definition live_lease :: "datetime \<Rightarrow> work_item \<Rightarrow> bool" where
  "live_lease now i \<longleftrightarrow> wi_state i = WS_IN_PROGRESS \<and> expiry_after (wi_lease_expires_at i) now = Inr True"

definition owns :: "string \<Rightarrow> datetime \<Rightarrow> work_item \<Rightarrow> bool" where
  "owns owner now i \<longleftrightarrow> live_lease now i \<and> wi_lease_owner i = Some owner"

lemma require_item_Inr: "require_item k r = Inr i \<longleftrightarrow> dget (items_map r) k = Some i"
  by (simp add: require_item_def split: option.splits)

lemma require_owned_Inr:
  "require_owned k owner now r = Inr i \<longleftrightarrow> dget (items_map r) k = Some i \<and> owns owner now i"
  by (auto simp: require_owned_def bindR_Inr require_item_Inr owns_def live_lease_def)

lemma require_owned_Inl:
  "(\<nexists>i. dget (items_map r) k = Some i \<and> owns owner now i) \<Longrightarrow> \<exists>e. require_owned k owner now r = Inl e"
  using require_owned_Inr [of k owner now r] by (cases "require_owned k owner now r") auto

lemma validate_lease_Inr: "validate_lease owner now d = Inr u \<longleftrightarrow> \<not> blank owner \<and> tz_aware now \<and> 0 < d"
  by (auto simp: validate_lease_def)

lemma expiry_after_aware: "tz_aware t \<Longrightarrow> tz_aware now \<Longrightarrow> \<exists>b. expiry_after (Some t) now = Inr b"
  by (cases t; cases now) (simp_all add: expiry_after_def)

lemma latest_None: "latest k r = None \<longleftrightarrow> checkpoints_of k r = []"
  by (simp add: latest_def Let_def)

lemma latest_Some: "latest k r = Some l \<longleftrightarrow> checkpoints_of k r \<noteq> [] \<and> l = last (checkpoints_of k r)"
  by (auto simp: latest_def Let_def)

lemma checkpoints_of_items [simp]: "checkpoints_of k (r\<lparr>items_map := m\<rparr>) = checkpoints_of k r"
  by (simp add: checkpoints_of_def)

lemma create_outcomes:
  obtains
    (refused) e where "create_with_outbox i ob r = (Inl e, r)"
  | (replayed) existing where "dget (items_map r) (wi_job_id i, wi_idempotency_key i) = Some existing"
      "wi_item_id existing = wi_item_id i" "wi_configuration existing = wi_configuration i"
      "wi_payload_reference existing = wi_payload_reference i"
      "create_with_outbox i ob r = (Inr existing, r)"
  | (created) "dget (items_map r) (wi_job_id i, wi_idempotency_key i) = None"
      "dget (item_ids_map r) (wi_job_id i, wi_item_id i) = None"
      "dget (outbox_map r) (ob_event_id ob) = None"
      "create_with_outbox i ob r = (Inr i, r\<lparr>items_map := dset (wi_job_id i, wi_idempotency_key i) i (items_map r),
         item_ids_map := dset (wi_job_id i, wi_item_id i) (wi_idempotency_key i) (item_ids_map r),
         outbox_map := dset (ob_event_id ob) ob (outbox_map r)\<rparr>)"
  by (fastforce simp: create_with_outbox_def Let_def split: option.splits if_splits)

lemma claim_outcomes:
  assumes "repo_ok r"
  obtains
    (refused) e where "claim job ikey owner now d r = (Inl e, r)"
      "dget (items_map r) (job, ikey) = None \<or> blank owner \<or> \<not> tz_aware now \<or> d \<le> 0"
  | (duplicate) i where "dget (items_map r) (job, ikey) = Some i" "tz_aware now"
      "wi_state i = WS_COMPLETED \<or> live_lease now i"
      "claim job ikey owner now d r =
         (Inr \<lparr>claim_status = ACTIVE_DUPLICATE, claim_item = i, claim_latest = latest (job, ikey) r\<rparr>, r)"
  | (taken) i where "dget (items_map r) (job, ikey) = Some i" "tz_aware now" "\<not> blank owner" "0 < d"
      "wi_state i \<noteq> WS_COMPLETED" "\<not> live_lease now i"
      "claim job ikey owner now d r =
         (Inr \<lparr>claim_status = ACQUIRED, claim_item = claimed_item owner now d i,
               claim_latest = latest (job, ikey) r\<rparr>,
          r\<lparr>items_map := dset (job, ikey) (claimed_item owner now d i) (items_map r)\<rparr>)"
proof (cases "validate_lease owner now d")
  case (Inl e)
  then show thesis
    using refused [of e] validate_lease_Inr [of owner now d]
    by (auto simp: claim_def Let_def)
next
  case (Inr u)
  then have lease: "\<not> blank owner" "tz_aware now" "0 < d"
    by (simp_all add: validate_lease_Inr)
  show thesis
  proof (cases "dget (items_map r) (job, ikey)")
    case None
    then show thesis
      using Inr refused by (auto simp: claim_def Let_def require_item_def)
  next
    case (Some i)
    have cell: "cell_ok (job, ikey) (Some i) (checkpoints_of (job, ikey) r) (dget (terminal_map r) (job, ikey))"
      by (rule cell_item [OF assms Some])
    then have post: "WorkItem_post (claimed_item owner now d i) = Inr (claimed_item owner now d i)"
      by (auto simp: WorkItem_post_Inr claimed_item_def)
    have item: "require_item (job, ikey) r = Inr i"
      using Some by (simp add: require_item_Inr)
    have live: "\<exists>b. expiry_after (wi_lease_expires_at i) now = Inr b" if "wi_state i = WS_IN_PROGRESS"
      using that cell lease(2) expiry_after_aware by (auto simp: WorkItem_post_Inr)
    consider "wi_state i = WS_COMPLETED \<or> live_lease now i"
      | "wi_state i \<noteq> WS_COMPLETED" "\<not> live_lease now i" by blast
    then show thesis
    proof cases
      case 1
      then show thesis
        using duplicate [of i] Some lease Inr item
        by (auto simp: claim_def Let_def live_lease_def)
    next
      case 2
      then have "(if wi_state i = WS_IN_PROGRESS then expiry_after (wi_lease_expires_at i) now
          else Inr False) = Inr False"
        using live by (auto simp: live_lease_def)
      then show thesis
        using taken [of i] 2 Some lease Inr item post
        by (simp add: claim_def Let_def claimed_item_def)
    qed
  qed
qed

lemma renew_outcomes:
  assumes "repo_ok r"
  obtains
    (refused) e where "renew job ikey owner now d r = (Inl e, r)"
      "(\<nexists>i. dget (items_map r) (job, ikey) = Some i \<and> owns owner now i) \<or> blank owner \<or> \<not> tz_aware now \<or> d \<le> 0"
  | (renewed) i where "dget (items_map r) (job, ikey) = Some i" "owns owner now i" "tz_aware now" "0 < d"
      "renew job ikey owner now d r = (Inr (renewed_item now d i),
         r\<lparr>items_map := dset (job, ikey) (renewed_item now d i) (items_map r)\<rparr>)"
proof (cases "validate_lease owner now d")
  case (Inl e)
  then show thesis
    using refused [of e] validate_lease_Inr [of owner now d] by (auto simp: renew_def Let_def)
next
  case (Inr u)
  then have lease: "\<not> blank owner" "tz_aware now" "0 < d" by (simp_all add: validate_lease_Inr)
  show thesis
  proof (cases "\<exists>i. dget (items_map r) (job, ikey) = Some i \<and> owns owner now i")
    case False
    with require_owned_Inl obtain e where "require_owned (job, ikey) owner now r = Inl e" by blast
    then show thesis using refused [of e] Inr False by (simp add: renew_def Let_def)
  next
    case True
    then obtain i where i: "dget (items_map r) (job, ikey) = Some i" "owns owner now i" by blast
    then have own: "require_owned (job, ikey) owner now r = Inr i" by (simp add: require_owned_Inr)
    have "WorkItem_post (renewed_item now d i) = Inr (renewed_item now d i)"
      using cell_item [OF assms i(1)] i(2)
      by (auto simp: WorkItem_post_Inr renewed_item_def owns_def live_lease_def)
    then show thesis
      using renewed [of i] i own Inr lease by (simp add: renew_def Let_def renewed_item_def)
  qed
qed

lemma record_checkpoint_outcomes:
  assumes "repo_ok r" and i: "dget (items_map r) (job, ikey) = Some i" "owns owner now i"
    and n: "1 \<le> n"
  obtains
    (refused) e where "record_checkpoint (job, ikey) i st out now res n r = (Inl e, r)" "blank out"
  | (recorded) "\<not> blank out" "record_checkpoint (job, ikey) i st out now res n r =
      (Inr (new_checkpoint i st out now res n),
       r\<lparr>checkpoints_map := dset (job, ikey)
            (checkpoints_of (job, ikey) r @ [new_checkpoint i st out now res n]) (checkpoints_map r),
         items_map := dset (job, ikey)
            (released_item (if st = CS_COMPLETED then WS_COMPLETED else WS_CHECKPOINTED)
               (or_else res (wi_result_reference i)) i) (items_map r)\<rparr>)"
proof -
  have cell: "WorkItem_post i = Inr i" "1 \<le> wi_attempt_count i"
    using cell_item [OF assms(1) i(1)] i(2) by (auto simp: owns_def live_lease_def)
  then have "WorkItem_post (released_item s rr i) = Inr (released_item s rr i)" if "s \<noteq> WS_IN_PROGRESS" for s rr
    using that by (auto simp: WorkItem_post_Inr released_item_def)
  then show thesis
    using cell n refused recorded
    by (cases "blank out")
       (auto simp: record_checkpoint_def CheckpointRecord_post_def new_checkpoint_def released_item_def)
qed

lemma history_last_sequence:
  assumes "history_ok cs" "cs \<noteq> []"
  shows "cp_sequence (last cs) = int (length cs)"
proof -
  have "last (map cp_sequence cs) = last (map int [1..<length cs + 1])"
    using assms(1) by (simp only: history_ok_def)
  also have "\<dots> = int (length cs)"
    using assms(2) by (cases cs) simp_all
  finally show ?thesis using assms(2) by (simp add: last_map)
qed

lemma history_ok_snoc:
  assumes "history_ok cs" "cp_sequence c = int (length cs) + 1"
    and "cs \<noteq> [] \<Longrightarrow> completed_stage (last cs) < completed_stage c"
  shows "history_ok (cs @ [c])"
proof -
  have "completed_stage x < completed_stage c" if x: "x \<in> set cs" for x
  proof -
    obtain ys where cs: "cs = ys @ [last cs]"
      using x by (metis append_butlast_last_id empty_iff empty_set)
    have "sorted_wrt (<) (map completed_stage (ys @ [last cs]))"
      using assms(1) cs by (simp add: history_ok_def)
    then have "x \<in> set ys \<Longrightarrow> completed_stage x < completed_stage (last cs)"
      by (simp add: sorted_wrt_append)
    moreover have "x \<in> set ys \<or> x = last cs"
      using x by (subst (asm) cs) auto
    moreover have "completed_stage (last cs) < completed_stage c"
      using x by (intro assms(3)) auto
    ultimately show ?thesis by auto
  qed
  with assms show ?thesis
    by (simp add: history_ok_def sorted_wrt_append)
qed

lemma checkpoint_outcomes:
  assumes "repo_ok r"
  obtains
    (unowned) e where "checkpoint job ikey owner st out now res r = (Inl e, r)"
      "\<nexists>i. dget (items_map r) (job, ikey) = Some i \<and> owns owner now i"
  | (rejected) e i where "checkpoint job ikey owner st out now res r = (Inl e, r)"
      "dget (items_map r) (job, ikey) = Some i" "owns owner now i"
  | (repeated) i l where "dget (items_map r) (job, ikey) = Some i" "owns owner now i"
      "latest (job, ikey) r = Some l" "completed_stage l = st" "cp_outcome l = out"
      "cp_result_reference l = res" "checkpoint job ikey owner st out now res r = (Inr l, r)"
  | (recorded) i where "dget (items_map r) (job, ikey) = Some i" "owns owner now i" "\<not> blank out"
      "\<And>l. latest (job, ikey) r = Some l \<Longrightarrow> completed_stage l < st"
      "checkpoint job ikey owner st out now res r =
        (Inr (new_checkpoint i st out now res (int (length (checkpoints_of (job, ikey) r)) + 1)),
         r\<lparr>checkpoints_map := dset (job, ikey) (checkpoints_of (job, ikey) r
              @ [new_checkpoint i st out now res (int (length (checkpoints_of (job, ikey) r)) + 1)])
              (checkpoints_map r),
           items_map := dset (job, ikey)
              (released_item (if st = CS_COMPLETED then WS_COMPLETED else WS_CHECKPOINTED)
                 (or_else res (wi_result_reference i)) i) (items_map r)\<rparr>)"
proof (cases "\<exists>i. dget (items_map r) (job, ikey) = Some i \<and> owns owner now i")
  case False
  with require_owned_Inl obtain e where "require_owned (job, ikey) owner now r = Inl e" by blast
  then show thesis using unowned [of e] False by (simp add: checkpoint_def Let_def)
next
  case True
  then obtain i where i: "dget (items_map r) (job, ikey) = Some i" "owns owner now i" by blast
  then have own: "require_owned (job, ikey) owner now r = Inr i" by (simp add: require_owned_Inr)
  let ?cs = "checkpoints_of (job, ikey) r"
  let ?n = "int (length ?cs) + 1"
  have hist: "history_ok ?cs" by (rule item_history [OF assms i(1)])
  show thesis
  proof (cases "latest (job, ikey) r")
    case None
    then have "?n = 1" using latest_None [of "(job, ikey)" r] by simp
    then have run: "checkpoint job ikey owner st out now res r
        = record_checkpoint (job, ikey) i st out now res ?n r"
      using own None by (simp add: checkpoint_def)
    have "1 \<le> ?n" by simp
    from assms i this show thesis
      by (rule record_checkpoint_outcomes [of r job ikey i owner now ?n st out res])
         (use None run rejected [OF _ i] recorded [OF i] in auto)
  next
    case (Some l)
    then have l: "cp_sequence l + 1 = ?n" using hist history_last_sequence by (auto simp: latest_Some)
    consider "st < completed_stage l" | "st = completed_stage l" | "completed_stage l < st" by force
    then show thesis
    proof cases
      case 1
      then show thesis using own Some rejected [OF _ i]
        by (simp add: checkpoint_def Let_def less_checkpoint_stage_def)
    next
      case 2
      then show thesis using own Some rejected [OF _ i] repeated [OF i Some]
        by (cases "cp_outcome l \<noteq> out \<or> cp_result_reference l \<noteq> res")
           (simp_all add: checkpoint_def Let_def)
    next
      case 3
      then have run: "checkpoint job ikey owner st out now res r
          = record_checkpoint (job, ikey) i st out now res ?n r"
        using own Some l by (auto simp: checkpoint_def Let_def less_checkpoint_stage_def)
      have "1 \<le> ?n" by simp
      from assms i this show thesis
        by (rule record_checkpoint_outcomes [of r job ikey i owner now ?n st out res])
           (use Some 3 run rejected [OF _ i] recorded [OF i] in auto)
    qed
  qed
qed

lemma terminalize_outcomes:
  assumes "repo_ok r"
  obtains
    (refused) e where "terminalize job ikey owner st code det now res r = (Inl e, r)"
  | (replayed) t where "dget (terminal_map r) (job, ikey) = Some t"
      "st = tr_state t" "code = tr_failure_code t" "det = tr_failure_details t"
      "terminalize job ikey owner st code det now res r = (Inr t, r)"
  | (closed) i where "dget (items_map r) (job, ikey) = Some i" "owns owner now i"
      "dget (terminal_map r) (job, ikey) = None"
      "TerminalRecord_post (new_terminal i st code det now res) = Inr (new_terminal i st code det now res)"
      "terminalize job ikey owner st code det now res r =
        (Inr (new_terminal i st code det now res),
         r\<lparr>terminal_map := dset (job, ikey) (new_terminal i st code det now res) (terminal_map r),
           items_map := dset (job, ikey)
             (released_item WS_COMPLETED (or_else res (wi_result_reference i)) i) (items_map r)\<rparr>)"
proof (cases "dget (terminal_map r) (job, ikey)")
  case (Some t)
  then show thesis
    using refused replayed [OF Some]
    by (cases "(st, code, det, or_else res (tr_result_reference t)) \<noteq>
          (tr_state t, tr_failure_code t, tr_failure_details t, tr_result_reference t)")
       (simp_all add: terminalize_def Let_def)
next
  case None
  show thesis
  proof (cases "\<exists>i. dget (items_map r) (job, ikey) = Some i \<and> owns owner now i")
    case False
    with require_owned_Inl obtain e where "require_owned (job, ikey) owner now r = Inl e" by blast
    then show thesis using refused [of e] None by (simp add: terminalize_def Let_def)
  next
    case True
    then obtain i where i: "dget (items_map r) (job, ikey) = Some i" "owns owner now i" by blast
    then have own: "require_owned (job, ikey) owner now r = Inr i" by (simp add: require_owned_Inr)
    have post: "WorkItem_post (released_item WS_COMPLETED rr i) = Inr (released_item WS_COMPLETED rr i)" for rr
      using cell_item [OF assms i(1)] by (auto simp: WorkItem_post_Inr released_item_def)
    show thesis
    proof (cases "TerminalRecord_post (new_terminal i st code det now res)")
      case (Inl e)
      then show thesis
        using refused [of e] None own by (simp add: terminalize_def Let_def new_terminal_def)
    next
      case (Inr t)
      then have t: "t = new_terminal i st code det now res"
        by (auto simp: TerminalRecord_post_def bindR_Inr split: if_splits)
      show thesis
        using closed [OF i None] Inr None own post t
        by (simp add: terminalize_def Let_def new_terminal_def released_item_def)
    qed
  qed
qed

section \<open>Every step keeps the repository consistent\<close>

lemma cell_claimed:
  "cell_ok k (Some i) cs t \<Longrightarrow> wi_state i \<noteq> WS_COMPLETED \<Longrightarrow> tz_aware now \<Longrightarrow>
     cell_ok k (Some (claimed_item owner now d i)) cs t"
  by (auto simp: claimed_item_def WorkItem_post_Inr belongs_checkpoint_def list_all_iff)

lemma cell_renewed:
  "cell_ok k (Some i) cs t \<Longrightarrow> owns owner now i \<Longrightarrow> tz_aware now \<Longrightarrow>
     cell_ok k (Some (renewed_item now d i)) cs t"
  by (auto simp: renewed_item_def WorkItem_post_Inr belongs_checkpoint_def belongs_terminal_def
      owns_def live_lease_def list_all_iff)

lemma owned_open:
  "cell_ok k (Some i) cs t \<Longrightarrow> owns owner now i \<Longrightarrow> t = None \<and> \<not> completed_history cs \<and> 1 \<le> wi_attempt_count i"
  by (auto simp: owns_def live_lease_def)

lemma cell_recorded:
  assumes cell: "cell_ok k (Some i) cs t" and own: "owns owner now i"
    and later: "cs \<noteq> [] \<Longrightarrow> completed_stage (last cs) < st"
  shows "cell_ok k (Some (released_item (if st = CS_COMPLETED then WS_COMPLETED else WS_CHECKPOINTED) rr i))
      (cs @ [new_checkpoint i st out now res (int (length cs) + 1)]) t"
proof -
  have "history_ok (cs @ [new_checkpoint i st out now res (int (length cs) + 1)])"
    using cell later by (intro history_ok_snoc) (auto simp: new_checkpoint_def)
  with cell owned_open [OF cell own] own show ?thesis
    by (auto simp: released_item_def new_checkpoint_def WorkItem_post_Inr belongs_checkpoint_def
        completed_history_def owns_def live_lease_def list_all_iff)
qed

lemma cell_terminalized:
  assumes cell: "cell_ok k (Some i) cs t" and own: "owns owner now i"
    and post: "TerminalRecord_post (new_terminal i st code det now res) = Inr (new_terminal i st code det now res)"
  shows "cell_ok k (Some (released_item WS_COMPLETED (or_else res (wi_result_reference i)) i)) cs
      (Some (new_terminal i st code det now res))"
  using cell owned_open [OF cell own] post
  by (auto simp: released_item_def new_terminal_def WorkItem_post_Inr belongs_checkpoint_def
      belongs_terminal_def list_all_iff)

text \<open>Rewriting one cell of an existing item.\<close>

lemma repo_ok_cell:
  assumes ok: "repo_ok r" and i: "dget (items_map r) k = Some i"
    and same: "wi_item_id i' = wi_item_id i"
    and cell: "cell_ok k (Some i') cs t"
    and cps: "\<And>k'. (case dget cm k' of None \<Rightarrow> [] | Some c \<Rightarrow> c) = (if k' = k then cs else checkpoints_of k' r)"
    and tms: "\<And>k'. dget tm k' = (if k' = k then t else dget (terminal_map r) k')" "distinct (dkeys tm)"
  shows "repo_ok (r\<lparr>items_map := dset k i' (items_map r), checkpoints_map := cm, terminal_map := tm\<rparr>)"
proof -
  let ?r = "r\<lparr>items_map := dset k i' (items_map r), checkpoints_map := cm, terminal_map := tm\<rparr>"
  have c: "checkpoints_of k' ?r = (if k' = k then cs else checkpoints_of k' r)" for k'
    by (simp add: checkpoints_of_def cps)
  have "cell_ok k' (dget (items_map ?r) k') (checkpoints_of k' ?r) (dget (terminal_map ?r) k')" for k'
    unfolding c using cell cell_of [OF ok, of k'] tms(1) by (cases "k' = k") simp_all
  then have "cells_ok ?r" by (simp only: cells_ok_def) blast
  moreover have "item_id_at ?r k' = item_id_at r k'" for k'
    using i same by (auto simp: item_id_at_def)
  then have "identities_ok ?r" "records_ok ?r"
    using ok tms(2) by (simp_all add: repo_ok_def identities_ok_def records_ok_def)
  ultimately show ?thesis by (simp add: repo_ok_def)
qed

lemma repo_ok_items:
  assumes "repo_ok r" "dget (items_map r) k = Some i" "wi_item_id i' = wi_item_id i"
    and "cell_ok k (Some i') (checkpoints_of k r) (dget (terminal_map r) k)"
  shows "repo_ok (r\<lparr>items_map := dset k i' (items_map r)\<rparr>)"
proof -
  have "distinct (dkeys (terminal_map r))" using assms(1) by (simp add: repo_ok_def records_ok_def)
  from repo_ok_cell [OF assms, of "checkpoints_map r" "terminal_map r"] this show ?thesis
    by (simp add: checkpoints_of_def)
qed

declare cell_ok.simps(2) [simp del]

lemma update_order:
  "r\<lparr>terminal_map := t, items_map := m\<rparr> = r\<lparr>items_map := m, terminal_map := t\<rparr>"
  "r\<lparr>checkpoints_map := c, items_map := m\<rparr> = r\<lparr>items_map := m, checkpoints_map := c\<rparr>"
  by simp_all

lemma item_updates [simp]:
  "wi_item_id (claimed_item owner now d i) = wi_item_id i"
  "wi_item_id (renewed_item now d i) = wi_item_id i"
  "wi_item_id (released_item s rr i) = wi_item_id i"
  by (simp_all add: claimed_item_def renewed_item_def released_item_def)

lemma repo_ok_claim:
  assumes ok: "repo_ok r" shows "repo_ok (snd (claim job ikey owner now d r))"
  using ok
proof (rule claim_outcomes [of r job ikey owner now d])
  fix i assume i: "dget (items_map r) (job, ikey) = Some i" "tz_aware now" "wi_state i \<noteq> WS_COMPLETED"
  have "repo_ok (r\<lparr>items_map := dset (job, ikey) (claimed_item owner now d i) (items_map r)\<rparr>)"
    by (rule repo_ok_items [OF ok i(1)]) (simp_all add: cell_claimed [OF cell_item [OF ok i(1)] i(3,2)])
  then show "claim job ikey owner now d r = (Inr x, r\<lparr>items_map :=
      dset (job, ikey) (claimed_item owner now d i) (items_map r)\<rparr>) \<Longrightarrow> ?thesis" for x
    by simp
qed (simp_all add: ok)

lemma repo_ok_renew:
  assumes ok: "repo_ok r" shows "repo_ok (snd (renew job ikey owner now d r))"
  using ok
proof (rule renew_outcomes [of r job ikey owner now d])
  fix i assume i: "dget (items_map r) (job, ikey) = Some i" "owns owner now i" "tz_aware now"
  have "repo_ok (r\<lparr>items_map := dset (job, ikey) (renewed_item now d i) (items_map r)\<rparr>)"
    by (rule repo_ok_items [OF ok i(1)]) (simp_all add: cell_renewed [OF cell_item [OF ok i(1)] i(2,3)])
  then show "renew job ikey owner now d r = (Inr x, r\<lparr>items_map :=
      dset (job, ikey) (renewed_item now d i) (items_map r)\<rparr>) \<Longrightarrow> ?thesis" for x
    by simp
qed (simp_all add: ok)

lemma repo_ok_checkpoint:
  assumes ok: "repo_ok r" shows "repo_ok (snd (checkpoint job ikey owner st out now res r))"
  using ok
proof (rule checkpoint_outcomes [of r job ikey owner st out now res])
  fix i assume i: "dget (items_map r) (job, ikey) = Some i" "owns owner now i"
    and later: "\<And>l. latest (job, ikey) r = Some l \<Longrightarrow> completed_stage l < st"
  let ?i = "released_item (if st = CS_COMPLETED then WS_COMPLETED else WS_CHECKPOINTED)
    (or_else res (wi_result_reference i)) i"
  let ?cs = "checkpoints_of (job, ikey) r @
    [new_checkpoint i st out now res (int (length (checkpoints_of (job, ikey) r)) + 1)]"
  have "distinct (dkeys (terminal_map r))" using ok by (simp add: repo_ok_def records_ok_def)
  moreover have "cell_ok (job, ikey) (Some ?i) ?cs (dget (terminal_map r) (job, ikey))"
    by (rule cell_recorded [OF cell_item [OF ok i(1)] i(2)]) (simp add: later latest_Some)
  ultimately have "repo_ok (r\<lparr>items_map := dset (job, ikey) ?i (items_map r),
      checkpoints_map := dset (job, ikey) ?cs (checkpoints_map r), terminal_map := terminal_map r\<rparr>)"
    by (intro repo_ok_cell [OF ok i(1)]) (auto simp: checkpoints_of_def)
  then show "checkpoint job ikey owner st out now res r = (Inr x, r\<lparr>checkpoints_map :=
      dset (job, ikey) ?cs (checkpoints_map r), items_map := dset (job, ikey) ?i (items_map r)\<rparr>) \<Longrightarrow> ?thesis" for x
    by (simp only: update_order snd_conv) simp
qed (simp_all add: ok)

lemma repo_ok_terminalize:
  assumes ok: "repo_ok r" shows "repo_ok (snd (terminalize job ikey owner st code det now res r))"
  using ok
proof (rule terminalize_outcomes [of r job ikey owner st code det now res])
  fix i assume i: "dget (items_map r) (job, ikey) = Some i" "owns owner now i"
    and post: "TerminalRecord_post (new_terminal i st code det now res) = Inr (new_terminal i st code det now res)"
  let ?i = "released_item WS_COMPLETED (or_else res (wi_result_reference i)) i"
  let ?t = "new_terminal i st code det now res"
  have "distinct (dkeys (terminal_map r))" using ok by (simp add: repo_ok_def records_ok_def)
  moreover have "cell_ok (job, ikey) (Some ?i) (checkpoints_of (job, ikey) r) (Some ?t)"
    by (rule cell_terminalized [OF cell_item [OF ok i(1)] i(2) post])
  ultimately have "repo_ok (r\<lparr>items_map := dset (job, ikey) ?i (items_map r),
      checkpoints_map := checkpoints_map r, terminal_map := dset (job, ikey) ?t (terminal_map r)\<rparr>)"
    by (intro repo_ok_cell [OF ok i(1)]) (auto simp: checkpoints_of_def)
  then show "terminalize job ikey owner st code det now res r = (Inr x, r\<lparr>terminal_map :=
      dset (job, ikey) ?t (terminal_map r), items_map := dset (job, ikey) ?i (items_map r)\<rparr>) \<Longrightarrow> ?thesis" for x
    by (simp only: update_order snd_conv) simp
qed (simp_all add: ok)

lemma repo_ok_create:
  assumes ok: "repo_ok r" and op: "op_ok (OpCreate i ob)"
  shows "repo_ok (snd (create_with_outbox i ob r))"
proof (rule create_outcomes [of i ob r])
  let ?k = "(wi_job_id i, wi_idempotency_key i)"
  let ?r = "r\<lparr>items_map := dset ?k i (items_map r),
     item_ids_map := dset (wi_job_id i, wi_item_id i) (wi_idempotency_key i) (item_ids_map r),
     outbox_map := dset (ob_event_id ob) ob (outbox_map r)\<rparr>"
  assume new: "dget (items_map r) ?k = None" "dget (item_ids_map r) (wi_job_id i, wi_item_id i) = None"
  have empty: "checkpoints_of ?k r = []" "dget (terminal_map r) ?k = None"
    using cell_of [OF ok, of ?k] new(1) by simp_all
  have "cell_ok ?k (Some i) [] None"
    using op by (auto simp: cell_ok.simps history_ok_def completed_history_def WorkItem_post_Inr)
  then have "cell_ok k (dget (items_map ?r) k) (checkpoints_of k ?r) (dget (terminal_map ?r) k)" for k
    using cell_of [OF ok, of k] empty by (cases "k = ?k") (simp_all add: checkpoints_of_def)
  then have "cells_ok ?r" by (simp only: cells_ok_def) blast
  moreover have at: "item_id_at ?r k = (if k = ?k then Some (wi_item_id i) else item_id_at r k)"
    "item_id_at r ?k = None" for k
    using new by (auto simp: item_id_at_def)
  moreover have ids: "dget (item_ids_map r) (job, item) = Some key \<longleftrightarrow>
      item_id_at r (job, key) = Some item" for job item key
    using ok by (simp add: repo_ok_def identities_ok_def)
  have "identities_ok ?r"
    unfolding identities_ok_def at using new at(2) ids [of "wi_job_id i" "wi_item_id i"]
    by (auto simp: ids)
  moreover have "records_ok ?r"
    using ok op at(2) unfolding repo_ok_def records_ok_def at(1)
    by (auto simp: OutboxRecord_post_def split: if_splits)
  ultimately have "repo_ok ?r" by (simp add: repo_ok_def)
  then show "create_with_outbox i ob r = (Inr i, ?r) \<Longrightarrow> ?thesis" by simp
qed (simp_all add: ok)

text \<open>The other operations write only one of the record maps.\<close>

lemma repo_ok_frame:
  assumes "repo_ok r" "items_map r' = items_map r" "checkpoints_map r' = checkpoints_map r"
    and "terminal_map r' = terminal_map r" "item_ids_map r' = item_ids_map r" "records_ok r'"
  shows "repo_ok r'"
proof -
  have "checkpoints_of k r' = checkpoints_of k r" for k
    using assms(3) by (simp add: checkpoints_of_def)
  moreover have "item_id_at r' k = item_id_at r k" for k
    using assms(2) by (simp add: item_id_at_def)
  ultimately show ?thesis using assms by (simp add: repo_ok_def cells_ok_def identities_ok_def)
qed

lemma repo_ok_published:
  assumes ok: "repo_ok r" shows "repo_ok (snd (mark_published e t r))"
proof -
  obtain x m where run: "mark_published e t r = (x, r) \<or>
      (\<exists>ob. mark_published e t r = (x, r\<lparr>outbox_map := dset e (ob\<lparr>ob_status := OB_PUBLISHED,
          ob_published_at := Some t\<rparr>) (outbox_map r)\<rparr>))"
    by (fastforce simp: mark_published_def OutboxRecord_post_def split: option.splits if_splits)
  moreover from this have "records_ok (snd (mark_published e t r))"
    using ok by (auto simp: repo_ok_def records_ok_def item_id_at_def split: if_splits)
  ultimately show ?thesis
    by (intro repo_ok_frame [OF ok]) auto
qed

lemma repo_ok_failure:
  assumes ok: "repo_ok r" shows "repo_ok (record_persistence_failure p r)"
proof -
  have "records_ok (record_persistence_failure p r)"
    using ok by (simp add: record_persistence_failure_def repo_ok_def records_ok_def item_id_at_def)
  then show ?thesis
    by (intro repo_ok_frame [OF ok]) (simp_all add: record_persistence_failure_def)
qed

lemma save_effect_outcomes:
  obtains
    (refused) e where "save_effect rec r = (Inl e, r)"
  | (replayed) "dget (effects_map r) (ef_job_id rec, ef_idempotency_key rec) = Some rec"
      "save_effect rec r = (Inr rec, r)"
  | (saved) i where "dget (items_map r) (ef_job_id rec, ef_idempotency_key rec) = Some i"
      "wi_item_id i = ef_item_id rec"
      "dget (effects_map r) (ef_job_id rec, ef_idempotency_key rec) = None"
      "save_effect rec r = (Inr rec, r\<lparr>effects_map :=
         dset (ef_job_id rec, ef_idempotency_key rec) rec (effects_map r)\<rparr>)"
  by (fastforce simp: save_effect_def Let_def require_item_def split: option.splits if_splits)

lemma repo_ok_effect:
  assumes ok: "repo_ok r" shows "repo_ok (snd (save_effect e r))"
proof -
  have "records_ok (snd (save_effect e r))"
    by (rule save_effect_outcomes [of e r]) (use ok in \<open>auto simp: repo_ok_def records_ok_def item_id_at_def split: if_splits\<close>)
  then show ?thesis
    by (intro repo_ok_frame [OF ok]) (rule save_effect_outcomes [of e r]; simp)+
qed

lemma save_reconciliation_outcomes:
  obtains
    (refused) e where "save_reconciliation rec r = (Inl e, r)"
  | (replayed) x where "dget (reconciliations_map r) (rn_job_id rec, rn_idempotency_key rec) = Some x"
      "rn_target_dataset x = rn_target_dataset rec" "rn_row_scope_digest x = rn_row_scope_digest rec"
      "rn_mutation_digest x = rn_mutation_digest rec" "rn_reason x = rn_reason rec"
      "save_reconciliation rec r = (Inr x, r)"
  | (saved) i where "dget (items_map r) (rn_job_id rec, rn_idempotency_key rec) = Some i"
      "wi_item_id i = rn_item_id rec"
      "dget (reconciliations_map r) (rn_job_id rec, rn_idempotency_key rec) = None"
      "save_reconciliation rec r = (Inr rec, r\<lparr>reconciliations_map :=
         dset (rn_job_id rec, rn_idempotency_key rec) rec (reconciliations_map r)\<rparr>)"
  by (fastforce simp: save_reconciliation_def Let_def require_item_def split: option.splits if_splits)

lemma repo_ok_reconciliation:
  assumes ok: "repo_ok r" shows "repo_ok (snd (save_reconciliation n r))"
proof -
  have "records_ok (snd (save_reconciliation n r))"
    by (rule save_reconciliation_outcomes [of n r]) (use ok in \<open>auto simp: repo_ok_def records_ok_def item_id_at_def split: if_splits\<close>)
  then show ?thesis
    by (intro repo_ok_frame [OF ok]) (rule save_reconciliation_outcomes [of n r]; simp)+
qed

lemma repo_ok_init: "repo_ok repository_init"
  by (simp add: repo_ok_def cells_ok_def identities_ok_def records_ok_def repository_init_def
      checkpoints_of_def item_id_at_def)

lemma repo_ok_apply: "repo_ok r \<Longrightarrow> op_ok x \<Longrightarrow> repo_ok (repo_apply x r)"
  by (cases x)
     (simp_all only: repo_apply.simps repo_ok_create repo_ok_claim repo_ok_renew repo_ok_checkpoint
        repo_ok_terminalize repo_ok_published repo_ok_failure repo_ok_effect repo_ok_reconciliation)

lemma repo_reachable_ok: "repo_reachable r \<Longrightarrow> repo_ok r"
  by (induction rule: repo_reachable.induct) (auto intro: repo_ok_init repo_ok_apply)

end
