(* ===== verification/Bulk_Lifecycle.thy ===== *)
theory Bulk_Lifecycle
  imports Bulk_Invariants "HOL-Library.Sublist"
begin

text \<open>
  What the durable work repository promises, whatever sequence of operations is run: each
  work item follows a small life cycle that the repository refines, leases are exclusive,
  checkpoint histories only grow, terminal outcomes and effect records are written once,
  and creation stores the item together with its outbox record.
\<close>

section \<open>The life cycle of a work item\<close>

datatype lifecycle =
    Absent
  | Waiting "checkpoint_stage option"
  | Leased string datetime "checkpoint_stage option"
  | Finished
  | Closed terminal_work_item_state

text \<open>The stage is the last completed one; a lease carries its owner and its expiry. A lease
  is renewed by its owner, or taken over at a time \<open>now\<close> when it has expired.\<close>

inductive lifecycle_step :: "lifecycle \<Rightarrow> lifecycle \<Rightarrow> bool" where
  admit: "lifecycle_step Absent (Waiting None)"
| acquire: "lifecycle_step (Waiting s) (Leased owner t s)"
| renew: "lifecycle_step (Leased owner t s) (Leased owner t' s)"
| takeover: "dt_less now t = Inr False \<Longrightarrow> dt_less now t' = Inr True \<Longrightarrow>
    lifecycle_step (Leased owner t s) (Leased owner' t' s)"
| progress: "(\<And>s'. s = Some s' \<Longrightarrow> s' < st) \<Longrightarrow> st \<noteq> CS_COMPLETED \<Longrightarrow>
    lifecycle_step (Leased owner t s) (Waiting (Some st))"
| finish: "lifecycle_step (Leased owner t s) Finished"
| close: "lifecycle_step (Leased owner t s) (Closed outcome)"

inductive_cases finished_step: "lifecycle_step Finished l"
inductive_cases closed_step: "lifecycle_step (Closed st) l"

definition lifecycle_of :: "work_repository \<Rightarrow> work_key \<Rightarrow> lifecycle" where
  "lifecycle_of r k =
     (case dget (items_map r) k of
        None \<Rightarrow> Absent
      | Some i \<Rightarrow>
         (case wi_state i of
            WS_IN_PROGRESS \<Rightarrow> Leased (the (wi_lease_owner i)) (the (wi_lease_expires_at i))
              (map_option completed_stage (latest k r))
          | WS_COMPLETED \<Rightarrow>
              (case dget (terminal_map r) k of None \<Rightarrow> Finished | Some t \<Rightarrow> Closed (tr_state t))
          | _ \<Rightarrow> Waiting (map_option completed_stage (latest k r))))"

lemma lifecycle_frame:
  assumes "dget (items_map r') k = dget (items_map r) k" "checkpoints_of k r' = checkpoints_of k r"
    and "dget (terminal_map r') k = dget (terminal_map r) k"
  shows "lifecycle_of r' k = lifecycle_of r k"
  unfolding lifecycle_of_def latest_def assms ..

lemma owned_lifecycle:
  "dget (items_map r) k = Some i \<Longrightarrow> owns owner now i \<Longrightarrow>
     lifecycle_of r k = Leased owner (the (wi_lease_expires_at i)) (map_option completed_stage (latest k r))"
  by (simp add: lifecycle_of_def owns_def live_lease_def)

lemma unleased_expired:
  assumes "repo_ok r" "dget (items_map r) k = Some i" "wi_state i = WS_IN_PROGRESS"
    and "\<not> live_lease now i" "tz_aware now"
  shows "\<exists>t. wi_lease_expires_at i = Some t \<and> dt_less now t = Inr False"
proof -
  obtain t where t: "wi_lease_expires_at i = Some t" "tz_aware t"
    using cell_item [OF assms(1,2)] assms(3) by (auto simp: cell_ok.simps WorkItem_post_Inr)
  with expiry_after_aware [OF t(2) assms(5)] assms(3,4) show ?thesis
    by (auto simp: live_lease_def expiry_after_def)
qed

lemma dt_less_plus: "tz_aware now \<Longrightarrow> 0 < d \<Longrightarrow> dt_less now (dt_plus now d) = Inr True"
  by (cases now) simp_all

lemma lifecycle_claim:
  assumes ok: "repo_ok r"
  shows "lifecycle_step\<^sup>=\<^sup>= (lifecycle_of r k) (lifecycle_of (snd (claim job ikey owner now d r)) k)"
  using ok
proof (rule claim_outcomes [of r job ikey owner now d])
  fix i assume i: "dget (items_map r) (job, ikey) = Some i" "tz_aware now" "0 < d"
    "wi_state i \<noteq> WS_COMPLETED" "\<not> live_lease now i"
  let ?r = "r\<lparr>items_map := dset (job, ikey) (claimed_item owner now d i) (items_map r)\<rparr>"
  have "lifecycle_step\<^sup>=\<^sup>= (lifecycle_of r k) (lifecycle_of ?r k)"
  proof (cases "k = (job, ikey)")
    case True
    have to: "lifecycle_of ?r k = Leased owner (dt_plus now d) (map_option completed_stage (latest k r))"
      using True by (simp add: lifecycle_of_def claimed_item_def latest_def)
    show ?thesis
    proof (cases "wi_state i = WS_IN_PROGRESS")
      case leased: True
      then obtain t where "wi_lease_expires_at i = Some t" "dt_less now t = Inr False"
        using unleased_expired [OF ok i(1) _ i(5,2)] by blast
      with leased to True i show ?thesis
        by (auto simp: lifecycle_of_def intro: takeover dt_less_plus)
    next
      case False
      with to True i show ?thesis
        by (cases "wi_state i") (auto simp: lifecycle_of_def intro: acquire)
    qed
  next
    case False
    then have "lifecycle_of ?r k = lifecycle_of r k" by (intro lifecycle_frame) simp_all
    then show ?thesis by simp
  qed
  then show "claim job ikey owner now d r = (Inr x, ?r) \<Longrightarrow> ?thesis" for x by (simp only: snd_conv)
qed simp_all

lemma lifecycle_renew:
  assumes ok: "repo_ok r"
  shows "lifecycle_step\<^sup>=\<^sup>= (lifecycle_of r k) (lifecycle_of (snd (renew job ikey owner now d r)) k)"
  using ok
proof (rule renew_outcomes [of r job ikey owner now d])
  fix i assume i: "dget (items_map r) (job, ikey) = Some i" "owns owner now i"
  let ?r = "r\<lparr>items_map := dset (job, ikey) (renewed_item now d i) (items_map r)\<rparr>"
  have "lifecycle_step\<^sup>=\<^sup>= (lifecycle_of r k) (lifecycle_of ?r k)"
  proof (cases "k = (job, ikey)")
    case True
    with i have "lifecycle_of ?r k = Leased owner (dt_plus now d) (map_option completed_stage (latest k r))"
      by (simp add: lifecycle_of_def renewed_item_def owns_def live_lease_def latest_def)
    then show ?thesis
      using owned_lifecycle [OF i] True by (auto intro: lifecycle_step.renew)
  next
    case False
    then have "lifecycle_of ?r k = lifecycle_of r k" by (intro lifecycle_frame) simp_all
    then show ?thesis by simp
  qed
  then show "renew job ikey owner now d r = (Inr x, ?r) \<Longrightarrow> ?thesis" for x by (simp only: snd_conv)
qed simp_all

lemma lifecycle_checkpoint:
  assumes ok: "repo_ok r"
  shows "lifecycle_step\<^sup>=\<^sup>= (lifecycle_of r k) (lifecycle_of (snd (checkpoint job ikey owner st out now res r)) k)"
  using ok
proof (rule checkpoint_outcomes [of r job ikey owner st out now res])
  fix i assume i: "dget (items_map r) (job, ikey) = Some i" "owns owner now i"
    and later: "\<And>l. latest (job, ikey) r = Some l \<Longrightarrow> completed_stage l < st"
  let ?cp = "new_checkpoint i st out now res (int (length (checkpoints_of (job, ikey) r)) + 1)"
  let ?r = "r\<lparr>checkpoints_map := dset (job, ikey) (checkpoints_of (job, ikey) r @ [?cp]) (checkpoints_map r),
      items_map := dset (job, ikey) (released_item (if st = CS_COMPLETED then WS_COMPLETED else WS_CHECKPOINTED)
        (or_else res (wi_result_reference i)) i) (items_map r)\<rparr>"
  have "lifecycle_step\<^sup>=\<^sup>= (lifecycle_of r k) (lifecycle_of ?r k)"
  proof (cases "k = (job, ikey)")
    case True
    have open_item: "dget (terminal_map r) k = None"
      using owned_open [OF cell_item [OF ok i(1)] i(2)] True by simp
    have last: "map_option completed_stage (latest k ?r) = Some st"
      using True by (simp add: latest_def checkpoints_of_def new_checkpoint_def)
    then have to: "lifecycle_of ?r k = (if st = CS_COMPLETED then Finished else Waiting (Some st))"
      using True open_item by (auto simp: lifecycle_of_def released_item_def)
    show ?thesis
      unfolding to using owned_lifecycle [OF i] True later
      by (auto intro: finish progress)
  next
    case False
    then have "lifecycle_of ?r k = lifecycle_of r k"
      by (intro lifecycle_frame) (simp_all add: checkpoints_of_def)
    then show ?thesis by simp
  qed
  then show "checkpoint job ikey owner st out now res r = (Inr x, ?r) \<Longrightarrow> ?thesis" for x by (simp only: snd_conv)
qed simp_all

lemma lifecycle_terminalize:
  assumes ok: "repo_ok r"
  shows "lifecycle_step\<^sup>=\<^sup>= (lifecycle_of r k)
    (lifecycle_of (snd (terminalize job ikey owner st code det now res r)) k)"
  using ok
proof (rule terminalize_outcomes [of r job ikey owner st code det now res])
  fix i assume i: "dget (items_map r) (job, ikey) = Some i" "owns owner now i"
  let ?r = "r\<lparr>terminal_map := dset (job, ikey) (new_terminal i st code det now res) (terminal_map r),
     items_map := dset (job, ikey) (released_item WS_COMPLETED (or_else res (wi_result_reference i)) i) (items_map r)\<rparr>"
  have "lifecycle_step\<^sup>=\<^sup>= (lifecycle_of r k) (lifecycle_of ?r k)"
  proof (cases "k = (job, ikey)")
    case True
    then have "lifecycle_of ?r k = Closed st"
      by (simp add: lifecycle_of_def released_item_def new_terminal_def)
    then show ?thesis using owned_lifecycle [OF i] True by (auto intro: close)
  next
    case False
    then have "lifecycle_of ?r k = lifecycle_of r k"
      by (intro lifecycle_frame) (simp_all add: checkpoints_of_def)
    then show ?thesis by simp
  qed
  then show "terminalize job ikey owner st code det now res r = (Inr x, ?r) \<Longrightarrow> ?thesis" for x by (simp only: snd_conv)
qed simp_all

lemma lifecycle_create:
  assumes ok: "repo_ok r" and op: "op_ok (OpCreate i ob)"
  shows "lifecycle_step\<^sup>=\<^sup>= (lifecycle_of r k) (lifecycle_of (snd (create_with_outbox i ob r)) k)"
proof (rule create_outcomes [of i ob r])
  let ?k = "(wi_job_id i, wi_idempotency_key i)"
  let ?r = "r\<lparr>items_map := dset ?k i (items_map r),
     item_ids_map := dset (wi_job_id i, wi_item_id i) (wi_idempotency_key i) (item_ids_map r),
     outbox_map := dset (ob_event_id ob) ob (outbox_map r)\<rparr>"
  assume new: "dget (items_map r) ?k = None"
  have "lifecycle_step\<^sup>=\<^sup>= (lifecycle_of r k) (lifecycle_of ?r k)"
  proof (cases "k = ?k")
    case True
    then have "checkpoints_of k r = []" using cell_of [OF ok, of ?k] new by simp
    then have "lifecycle_of ?r k = Waiting None" "lifecycle_of r k = Absent"
      using True op new by (simp_all add: lifecycle_of_def latest_def checkpoints_of_def)
    then show ?thesis by (simp add: admit)
  next
    case False
    then have "lifecycle_of ?r k = lifecycle_of r k"
      by (intro lifecycle_frame) (simp_all add: checkpoints_of_def)
    then show ?thesis by simp
  qed
  then show "create_with_outbox i ob r = (Inr i, ?r) \<Longrightarrow> ?thesis" by (simp only: snd_conv)
qed simp_all

lemma records_frame:
  "items_map (snd (mark_published e t r)) = items_map r"
  "checkpoints_map (snd (mark_published e t r)) = checkpoints_map r"
  "terminal_map (snd (mark_published e t r)) = terminal_map r"
  "items_map (record_persistence_failure p r) = items_map r"
  "checkpoints_map (record_persistence_failure p r) = checkpoints_map r"
  "terminal_map (record_persistence_failure p r) = terminal_map r"
  "items_map (snd (save_effect x r)) = items_map r"
  "checkpoints_map (snd (save_effect x r)) = checkpoints_map r"
  "terminal_map (snd (save_effect x r)) = terminal_map r"
  "items_map (snd (save_reconciliation n r)) = items_map r"
  "checkpoints_map (snd (save_reconciliation n r)) = checkpoints_map r"
  "terminal_map (snd (save_reconciliation n r)) = terminal_map r"
  by (auto simp: mark_published_def record_persistence_failure_def save_effect_def
      save_reconciliation_def Let_def split: option.splits sum.splits)

lemma lifecycle_records:
  "lifecycle_of (snd (mark_published e t r)) k = lifecycle_of r k"
  "lifecycle_of (record_persistence_failure p r) k = lifecycle_of r k"
  "lifecycle_of (snd (save_effect x r)) k = lifecycle_of r k"
  "lifecycle_of (snd (save_reconciliation n r)) k = lifecycle_of r k"
  by (rule lifecycle_frame; simp add: records_frame checkpoints_of_def)+

lemma lifecycle_apply:
  assumes "repo_ok r" "op_ok x"
  shows "lifecycle_step\<^sup>=\<^sup>= (lifecycle_of r k) (lifecycle_of (repo_apply x r) k)"
  using assms(2)
  by (cases x)
     (simp_all only: repo_apply.simps lifecycle_create [OF assms(1)] lifecycle_claim [OF assms(1)]
        lifecycle_renew [OF assms(1)] lifecycle_checkpoint [OF assms(1)]
        lifecycle_terminalize [OF assms(1)] lifecycle_records, simp_all)

section \<open>Futures\<close>

text \<open>\<open>repo_future r r'\<close>: some sequence of operations leads from \<open>r\<close> to \<open>r'\<close>.\<close>

inductive repo_future :: "work_repository \<Rightarrow> work_repository \<Rightarrow> bool" where
  now: "repo_future r r"
| later: "repo_future r r' \<Longrightarrow> op_ok x \<Longrightarrow> repo_future r (repo_apply x r')"

lemma future_ok: "repo_future r r' \<Longrightarrow> repo_ok r \<Longrightarrow> repo_ok r'"
  by (induction rule: repo_future.induct) (auto intro: repo_ok_apply)

lemma future_lifecycle:
  "repo_future r r' \<Longrightarrow> repo_ok r \<Longrightarrow> lifecycle_step\<^sup>*\<^sup>* (lifecycle_of r k) (lifecycle_of r' k)"
proof (induction rule: repo_future.induct)
  case (later r r' x)
  from lifecycle_apply [OF future_ok [OF later.hyps(1) later.prems] later.hyps(2), of k] later
  show ?case by (auto intro: rtranclp.rtrancl_into_rtrancl)
qed simp

lemma absorbing:
  "lifecycle_step\<^sup>*\<^sup>* l l' \<Longrightarrow> l = Finished \<or> l = Closed st \<Longrightarrow> l' = l"
  by (induction rule: rtranclp_induct) (auto elim: finished_step closed_step)

text \<open>Which maps an operation writes, straight from the definitions.\<close>

lemma claim_writes:
  "checkpoints_map (snd (claim job ikey owner now d r)) = checkpoints_map r"
  "terminal_map (snd (claim job ikey owner now d r)) = terminal_map r"
  "effects_map (snd (claim job ikey owner now d r)) = effects_map r"
  "reconciliations_map (snd (claim job ikey owner now d r)) = reconciliations_map r"
  by (auto simp: claim_def Let_def split: sum.splits bool.splits)

lemma renew_writes:
  "checkpoints_map (snd (renew job ikey owner now d r)) = checkpoints_map r"
  "terminal_map (snd (renew job ikey owner now d r)) = terminal_map r"
  "effects_map (snd (renew job ikey owner now d r)) = effects_map r"
  "reconciliations_map (snd (renew job ikey owner now d r)) = reconciliations_map r"
  by (auto simp: renew_def Let_def split: sum.splits)

lemma create_writes:
  "checkpoints_map (snd (create_with_outbox i ob r)) = checkpoints_map r"
  "terminal_map (snd (create_with_outbox i ob r)) = terminal_map r"
  "effects_map (snd (create_with_outbox i ob r)) = effects_map r"
  "reconciliations_map (snd (create_with_outbox i ob r)) = reconciliations_map r"
  by (auto simp: create_with_outbox_def Let_def split: option.splits)

lemma checkpoint_cases:
  obtains (unchanged) "snd (checkpoint job ikey owner st out now res r) = r"
  | (recording) i n where "dget (items_map r) (job, ikey) = Some i"
      "checkpoint job ikey owner st out now res r = record_checkpoint (job, ikey) i st out now res n r"
proof (cases "require_owned (job, ikey) owner now r")
  case (Inl e)
  then show thesis using unchanged by (simp add: checkpoint_def)
next
  case (Inr i)
  then have i: "dget (items_map r) (job, ikey) = Some i" by (simp add: require_owned_Inr)
  show thesis
  proof (cases "latest (job, ikey) r")
    case None
    with Inr recording [OF i] show thesis by (simp add: checkpoint_def)
  next
    case (Some l)
    then have run: "checkpoint job ikey owner st out now res r =
        (if stage_order st < stage_order (completed_stage l)
         then (Inl (CheckpointTransitionError ''checkpoint stages cannot move backwards''), r)
         else if st = completed_stage l
         then (if cp_outcome l \<noteq> out \<or> cp_result_reference l \<noteq> res
               then (Inl (CheckpointTransitionError ''completed checkpoint stage is immutable''), r)
               else (Inr l, r))
         else record_checkpoint (job, ikey) i st out now res (cp_sequence l + 1) r)"
      using Inr by (simp add: checkpoint_def Let_def)
    show thesis
    proof (cases "stage_order st \<le> stage_order (completed_stage l)")
      case True
      then have "snd (checkpoint job ikey owner st out now res r) = r"
        unfolding run by (auto simp: order.order_iff_strict)
      then show thesis by (rule unchanged)
    next
      case False
      then have "checkpoint job ikey owner st out now res r
          = record_checkpoint (job, ikey) i st out now res (cp_sequence l + 1) r"
        unfolding run by auto
      then show thesis by (rule recording [OF i])
    qed
  qed
qed

lemma record_checkpoint_writes:
  "terminal_map (snd (record_checkpoint k' i st out now res n r)) = terminal_map r"
  "effects_map (snd (record_checkpoint k' i st out now res n r)) = effects_map r"
  "reconciliations_map (snd (record_checkpoint k' i st out now res n r)) = reconciliations_map r"
  "prefix (checkpoints_of k r) (checkpoints_of k (snd (record_checkpoint k' i st out now res n r)))"
  by (simp_all add: record_checkpoint_def checkpoints_of_def split: sum.split option.split prod.split)

lemma checkpoint_writes:
  "terminal_map (snd (checkpoint job ikey owner st out now res r)) = terminal_map r"
  "effects_map (snd (checkpoint job ikey owner st out now res r)) = effects_map r"
  "reconciliations_map (snd (checkpoint job ikey owner st out now res r)) = reconciliations_map r"
  "prefix (checkpoints_of k r) (checkpoints_of k (snd (checkpoint job ikey owner st out now res r)))"
  by (rule checkpoint_cases [of job ikey owner st out now res r]; simp add: record_checkpoint_writes)+

lemma terminalize_writes:
  "checkpoints_map (snd (terminalize job ikey owner st code det now res r)) = checkpoints_map r"
  "effects_map (snd (terminalize job ikey owner st code det now res r)) = effects_map r"
  "reconciliations_map (snd (terminalize job ikey owner st code det now res r)) = reconciliations_map r"
  "dget (terminal_map r) k = Some t \<Longrightarrow>
     dget (terminal_map (snd (terminalize job ikey owner st code det now res r))) k = Some t"
  by (auto simp: terminalize_def Let_def split: sum.splits option.splits)

lemma record_writes:
  "effects_map (snd (mark_published e tm r)) = effects_map r"
  "reconciliations_map (snd (mark_published e tm r)) = reconciliations_map r"
  "effects_map (record_persistence_failure p r) = effects_map r"
  "reconciliations_map (record_persistence_failure p r) = reconciliations_map r"
  "reconciliations_map (snd (save_effect x r)) = reconciliations_map r"
  "effects_map (snd (save_reconciliation n r)) = effects_map r"
  "dget (effects_map r) k = Some f \<Longrightarrow> dget (effects_map (snd (save_effect x r))) k = Some f"
  "dget (reconciliations_map r) k = Some g \<Longrightarrow>
     dget (reconciliations_map (snd (save_reconciliation n r))) k = Some g"
  by (auto simp: mark_published_def record_persistence_failure_def save_effect_def
      save_reconciliation_def Let_def split: option.splits sum.splits)

lemmas op_writes = claim_writes renew_writes create_writes checkpoint_writes terminalize_writes
  record_writes records_frame

lemma apply_keeps:
  "dget (terminal_map r) k = Some t \<Longrightarrow> dget (terminal_map (repo_apply x r)) k = Some t"
  "dget (effects_map r) k = Some f \<Longrightarrow> dget (effects_map (repo_apply x r)) k = Some f"
  "dget (reconciliations_map r) k = Some g \<Longrightarrow> dget (reconciliations_map (repo_apply x r)) k = Some g"
  "prefix (checkpoints_of k r) (checkpoints_of k (repo_apply x r))"
  by (cases x; simp add: op_writes; simp add: checkpoints_of_def op_writes)+

lemma future_keeps:
  "repo_future r r' \<Longrightarrow> dget (terminal_map r) k = Some t \<Longrightarrow> dget (terminal_map r') k = Some t"
  "repo_future r r' \<Longrightarrow> dget (effects_map r) k = Some f \<Longrightarrow> dget (effects_map r') k = Some f"
  "repo_future r r' \<Longrightarrow> dget (reconciliations_map r) k = Some g \<Longrightarrow> dget (reconciliations_map r') k = Some g"
  "repo_future r r' \<Longrightarrow> prefix (checkpoints_of k r) (checkpoints_of k r')"
  by (induction rule: repo_future.induct) (auto intro: apply_keeps prefix_order.trans)

section \<open>Immutable parts of an item\<close>

definition immutable_parts :: "work_item \<Rightarrow> string \<times> configuration_reference \<times> object_reference" where
  "immutable_parts i = (wi_item_id i, wi_configuration i, wi_payload_reference i)"

lemma apply_immutable:
  assumes "dget (items_map r) k = Some i"
  shows "\<exists>j. dget (items_map (repo_apply x r)) k = Some j \<and> immutable_parts j = immutable_parts i"
proof (cases x)
  case (OpCreate i ob)
  with assms show ?thesis by (auto simp: create_with_outbox_def Let_def split: option.splits)
next
  case (OpClaim job ikey owner now d)
  with assms show ?thesis
    by (auto simp: claim_def Let_def immutable_parts_def WorkItem_post_Inr bindR_Inr require_item_Inr
        split: sum.splits bool.splits)
next
  case (OpRenew job ikey owner now d)
  with assms show ?thesis
    by (auto simp: renew_def Let_def immutable_parts_def WorkItem_post_Inr bindR_Inr require_owned_Inr
        split: sum.splits)
next
  case (OpCheckpoint job ikey owner st out now res)
  have "\<exists>j. dget (items_map (snd (checkpoint job ikey owner st out now res r))) k = Some j
      \<and> immutable_parts j = immutable_parts i"
  proof (rule checkpoint_cases [of job ikey owner st out now res r])
    fix i' n assume "dget (items_map r) (job, ikey) = Some i'"
      "checkpoint job ikey owner st out now res r = record_checkpoint (job, ikey) i' st out now res n r"
    then show ?thesis
      using assms
      by (auto simp: record_checkpoint_def immutable_parts_def WorkItem_post_Inr bindR_Inr split: sum.splits)
  qed (use assms in simp)
  with OpCheckpoint show ?thesis by simp
next
  case (OpTerminalize job ikey owner st code det now res)
  with assms show ?thesis
    by (auto simp: terminalize_def Let_def immutable_parts_def WorkItem_post_Inr require_owned_Inr
        split: sum.splits option.splits)
qed (use assms in \<open>simp_all add: records_frame\<close>)

lemma future_immutable:
  "repo_future r r' \<Longrightarrow> dget (items_map r) k = Some i \<Longrightarrow>
     \<exists>j. dget (items_map r') k = Some j \<and> immutable_parts j = immutable_parts i"
proof (induction rule: repo_future.induct)
  case (later r r' x)
  then obtain j where "dget (items_map r') k = Some j" "immutable_parts j = immutable_parts i" by blast
  with apply_immutable [of r' k j x] show ?case by auto
qed simp

lemma terminal_item:
  assumes "repo_ok r" "dget (terminal_map r) k = Some t"
  shows "\<exists>i. dget (items_map r) k = Some i \<and> wi_state i = WS_COMPLETED \<and> belongs_terminal i t
     \<and> \<not> completed_history (checkpoints_of k r)"
  using cell_of [OF assms(1), of k] assms(2)
  by (cases "dget (items_map r) k") (auto simp: cell_ok.simps)

lemma terminal_closed:
  "repo_ok r \<Longrightarrow> dget (terminal_map r) k = Some t \<Longrightarrow> lifecycle_of r k = Closed (tr_state t)"
  using terminal_item by (fastforce simp: lifecycle_of_def)

lemma ok_history: "repo_ok r \<Longrightarrow> history_ok (checkpoints_of k r)"
  using cell_of [of r k]
  by (cases "dget (items_map r) k") (auto simp: cell_ok.simps history_ok_def)

lemma history_bounded:
  assumes "history_ok cs" shows "length cs \<le> 5"
proof -
  have "distinct (map completed_stage cs)"
    using assms by (auto simp: history_ok_def distinct_conv_nth sorted_wrt_iff_nth_less)
      (metis less_irrefl linorder_neqE_nat)
  then have "length cs = card (set (map completed_stage cs))"
    using distinct_card by fastforce
  also have "\<dots> \<le> card (set checkpoint_stages)"
    by (rule card_mono) (auto simp: checkpoint_stages_def intro: checkpoint_stage.exhaust)
  also have "\<dots> = 5" by (simp add: checkpoint_stages_def)
  finally show ?thesis .
qed

lemma owned_aware:
  assumes "repo_ok r" "dget (items_map r) k = Some i" "owns owner now i"
  shows "tz_aware now"
proof -
  obtain t where "wi_lease_expires_at i = Some t" "tz_aware t"
    using cell_item [OF assms(1,2)] assms(3)
    by (auto simp: cell_ok.simps owns_def live_lease_def WorkItem_post_Inr)
  with assms(3) show ?thesis
    by (cases now; cases t) (auto simp: owns_def live_lease_def expiry_after_def)
qed

lemma require_owned_other:
  "dget (items_map r) k = Some i \<Longrightarrow> wi_lease_owner i \<noteq> Some owner \<Longrightarrow> require_owned k owner now r =
     Inl (LeaseOwnershipError ''an unexpired lease owned by the caller is required'')"
  by (simp add: require_owned_def require_item_def)

lemma not_owner_refused:
  assumes i: "dget (items_map r) (job, ikey) = Some i" "wi_lease_owner i \<noteq> Some other"
    and open_item: "dget (terminal_map r) (job, ikey) = None"
  shows "\<not> returned (fst (renew job ikey other now d r)) \<and> snd (renew job ikey other now d r) = r"
    and "checkpoint job ikey other st out now res r =
      (Inl (LeaseOwnershipError ''an unexpired lease owned by the caller is required''), r)"
    and "terminalize job ikey other ts code det now res r =
      (Inl (LeaseOwnershipError ''an unexpired lease owned by the caller is required''), r)"
  using require_owned_other [OF i, of now] open_item
  by (simp_all add: renew_def checkpoint_def terminalize_def Let_def bindR_def split: sum.splits)

lemma checkpoint_later:
  assumes "dget (items_map r) (job, ikey) = Some i" "owns owner now i"
    and "history_ok (checkpoints_of (job, ikey) r)"
    and "\<And>l. latest (job, ikey) r = Some l \<Longrightarrow> completed_stage l < st"
  shows "checkpoint job ikey owner st out now res r =
    record_checkpoint (job, ikey) i st out now res (int (length (checkpoints_of (job, ikey) r)) + 1) r"
proof -
  have own: "require_owned (job, ikey) owner now r = Inr i"
    using assms(1,2) by (simp add: require_owned_Inr)
  show ?thesis
  proof (cases "latest (job, ikey) r")
    case None
    then show ?thesis using own latest_None [of "(job, ikey)" r] by (simp add: checkpoint_def)
  next
    case (Some l)
    then have "cp_sequence l = int (length (checkpoints_of (job, ikey) r))"
      using history_last_sequence [OF assms(3)] by (simp add: latest_Some)
    moreover have "\<not> stage_order st < stage_order (completed_stage l)" "st \<noteq> completed_stage l"
      using assms(4) [OF Some] by (auto simp: less_checkpoint_stage_def)
    ultimately show ?thesis using own Some by (simp add: checkpoint_def Let_def)
  qed
qed

section \<open>Properties\<close>


text \<open>A terminal outcome is final: once recorded for a work item, no sequence of
  operations changes or removes it, reopens the item, or completes it through a
  checkpoint.\<close>

theorem terminal_outcome_final:
  assumes "repo_reachable r" and "dget (terminal_map r) k = Some t" and "repo_future r r'"
  shows "dget (terminal_map r') k = Some t \<and> lifecycle_of r' k = Closed (tr_state t)
    \<and> \<not> completed_history (checkpoints_of k r')"
proof -
  have ok: "repo_ok r'" by (rule future_ok [OF assms(3) repo_reachable_ok [OF assms(1)]])
  have "dget (terminal_map r') k = Some t" by (rule future_keeps(1) [OF assms(3,2)])
  then show ?thesis using terminal_closed [OF ok] terminal_item [OF ok] by blast
qed

text \<open>A checkpoint history is append-only: every later history extends the present one,
  is numbered 1, 2, 3 and so on, has strictly increasing stages and at most five
  entries.\<close>

theorem checkpoint_history_append_only:
  assumes "repo_reachable r" and "repo_future r r'"
  shows "prefix (checkpoints_of k r) (checkpoints_of k r')
    \<and> map cp_sequence (checkpoints_of k r') = map int [1..<length (checkpoints_of k r') + 1]
    \<and> sorted_wrt (<) (map completed_stage (checkpoints_of k r'))
    \<and> length (checkpoints_of k r') \<le> 5"
proof -
  have "history_ok (checkpoints_of k r')"
    by (rule ok_history [OF future_ok [OF assms(2) repo_reachable_ok [OF assms(1)]]])
  then show ?thesis
    using future_keeps(4) [OF assms(2)] history_bounded by (simp add: history_ok_def)
qed

text \<open>C3. A live lease excludes every other worker. A claim by anyone, the holder included,
  takes nothing: it is refused for a blank owner or a duration that is not positive, and
  otherwise reports an active duplicate. A renewal, a checkpoint and a terminal outcome by
  anyone but the holder are refused. None of them changes the repository.\<close>

theorem lease_excludes_others:
  assumes "repo_reachable r" and "dget (items_map r) (job, ikey) = Some i" and "owns owner now i"
    and "other \<noteq> owner"
  shows "claim job ikey claimant now d r =
      (if blank claimant then Inl (ValueError ''lease owner must be non-blank and time must be timezone-aware'')
       else if d \<le> 0 then Inl (ValueError ''lease duration must be positive'')
       else Inr \<lparr>claim_status = ACTIVE_DUPLICATE, claim_item = i, claim_latest = latest (job, ikey) r\<rparr>, r)
    \<and> \<not> returned (fst (renew job ikey other now d r)) \<and> snd (renew job ikey other now d r) = r
    \<and> checkpoint job ikey other st out now res r =
      (Inl (LeaseOwnershipError ''an unexpired lease owned by the caller is required''), r)
    \<and> terminalize job ikey other ts code det now res r =
      (Inl (LeaseOwnershipError ''an unexpired lease owned by the caller is required''), r)"
proof -
  have ok: "repo_ok r" by (rule repo_reachable_ok [OF assms(1)])
  have "tz_aware now" by (rule owned_aware [OF ok assms(2,3)])
  then have "claim job ikey claimant now d r =
      (if blank claimant then Inl (ValueError ''lease owner must be non-blank and time must be timezone-aware'')
       else if d \<le> 0 then Inl (ValueError ''lease duration must be positive'')
       else Inr \<lparr>claim_status = ACTIVE_DUPLICATE, claim_item = i, claim_latest = latest (job, ikey) r\<rparr>, r)"
    using assms(2,3) by (auto simp: claim_def validate_lease_def require_item_def owns_def live_lease_def Let_def)
  moreover have "wi_lease_owner i \<noteq> Some other"
    using assms(3,4) by (simp add: owns_def)
  moreover have "dget (terminal_map r) (job, ikey) = None"
    using owned_open [OF cell_item [OF ok assms(2)] assms(3)] by simp
  ultimately show ?thesis
    using not_owner_refused [OF assms(2)] by simp
qed

text \<open>An acquired claim fences the previous worker: the item is leased to the new owner
  with one more attempt, the claim hands out the last checkpoint, and whatever another
  worker tries at any time is refused without changing the repository.\<close>

theorem acquired_claim_fences:
  assumes "repo_reachable r" and "claim job ikey owner now d r = (Inr c, r')" and "acquired c"
    and "other \<noteq> owner"
  shows "\<exists>i. dget (items_map r) (job, ikey) = Some i
    \<and> dget (items_map r') (job, ikey) = Some (claim_item c)
    \<and> claim_item c = claimed_item owner now d i \<and> claim_latest c = latest (job, ikey) r
    \<and> checkpoint job ikey other st out later res r' =
        (Inl (LeaseOwnershipError ''an unexpired lease owned by the caller is required''), r')
    \<and> terminalize job ikey other ts code det later res r' =
        (Inl (LeaseOwnershipError ''an unexpired lease owned by the caller is required''), r')"
proof (rule claim_outcomes [OF repo_reachable_ok [OF assms(1)], of job ikey owner now d])
  fix i assume i: "dget (items_map r) (job, ikey) = Some i" "wi_state i \<noteq> WS_COMPLETED"
    and run: "claim job ikey owner now d r =
         (Inr \<lparr>claim_status = ACQUIRED, claim_item = claimed_item owner now d i,
               claim_latest = latest (job, ikey) r\<rparr>,
          r\<lparr>items_map := dset (job, ikey) (claimed_item owner now d i) (items_map r)\<rparr>)"
  then have r': "r' = r\<lparr>items_map := dset (job, ikey) (claimed_item owner now d i) (items_map r)\<rparr>"
    and c: "claim_item c = claimed_item owner now d i" "claim_latest c = latest (job, ikey) r"
    using assms(2) by auto
  have "dget (terminal_map r) (job, ikey) = None"
    using terminal_item [OF repo_reachable_ok [OF assms(1)], of "(job, ikey)"] i by fastforce
  then show ?thesis
    using not_owner_refused(2,3) [of r' job ikey "claim_item c" other] c i(1) assms(4)
    by (simp add: r' claimed_item_def)
qed (use assms in \<open>auto simp: acquired_def\<close>)

text \<open>Creation is atomic and idempotent: it either fails and changes nothing or stores
  the item together with its pending outbox record; creating the same work again, at any
  later time and with any outbox record, returns the stored item and changes nothing.\<close>

theorem create_atomic_idempotent:
  assumes "repo_reachable r" and "op_ok (OpCreate i ob)"
    and "create_with_outbox i ob r = (out, r')" and "repo_future r' r''"
  shows "case out of
      Inl e \<Rightarrow> r' = r
    | Inr j \<Rightarrow> immutable_parts j = immutable_parts i
        \<and> (r' = r \<or> j = i \<and> dget (outbox_map r') (ob_event_id ob) = Some ob)
        \<and> dget (items_map r') (wi_job_id i, wi_idempotency_key i) = Some j
        \<and> (\<exists>j'. dget (items_map r'') (wi_job_id i, wi_idempotency_key i) = Some j'
             \<and> create_with_outbox i ob' r'' = (Inr j', r''))"
proof -
  have again: "\<exists>j'. dget (items_map r'') (wi_job_id i, wi_idempotency_key i) = Some j'
      \<and> create_with_outbox i ob' r'' = (Inr j', r'')"
    if "dget (items_map r') (wi_job_id i, wi_idempotency_key i) = Some j"
      "immutable_parts j = immutable_parts i" for j
    using future_immutable [OF assms(4) that(1)] that(2)
    by (auto simp: create_with_outbox_def immutable_parts_def Let_def)
  show ?thesis
    by (rule create_outcomes [of i ob r])
       (use assms(3) again in \<open>auto simp: immutable_parts_def\<close>)
qed

text \<open>Work resumes where it stopped: the owner of a live lease can record the next stage
  the repository reports, with any non-blank outcome; after that the repository reports
  the stage that follows it.\<close>

theorem resume_makes_progress:
  assumes "repo_reachable r" and "dget (items_map r) (job, ikey) = Some i" and "owns owner now i"
    and "resume_state job ikey r = Inr s" and "rs_next_stage s = Some st" and "\<not> blank out"
  shows "\<exists>cp r' s'. checkpoint job ikey owner st out now res r = (Inr cp, r')
    \<and> completed_stage cp = st \<and> cp_attempt_count cp = wi_attempt_count i
    \<and> resume_state job ikey r' = Inr s' \<and> rs_latest s' = Some cp \<and> rs_next_stage s' = next_stage st"
proof -
  have ok: "repo_ok r" by (rule repo_reachable_ok [OF assms(1)])
  have stage: "latest (job, ikey) r = None \<and> st = CS_ACCEPTED \<or>
      (\<exists>l. latest (job, ikey) r = Some l \<and> next_stage (completed_stage l) = Some st)"
    using assms(2,4,5) by (auto simp: resume_state_def require_item_def Let_def split: option.splits)
  have after: "s' < st" if "next_stage s' = Some st" for s'
    using that by (cases s') (auto simp: next_stage_def checkpoint_stages_def less_checkpoint_stage_def)
  have "1 \<le> int (length (checkpoints_of (job, ikey) r)) + 1" by simp
  from ok assms(2,3) this show ?thesis
  proof (rule record_checkpoint_outcomes [of r job ikey i owner now _ st out res])
    let ?n = "int (length (checkpoints_of (job, ikey) r)) + 1"
    let ?cp = "new_checkpoint i st out now res ?n"
    let ?r = "r\<lparr>checkpoints_map := dset (job, ikey) (checkpoints_of (job, ikey) r @ [?cp]) (checkpoints_map r),
      items_map := dset (job, ikey) (released_item (if st = CS_COMPLETED then WS_COMPLETED else WS_CHECKPOINTED)
        (or_else res (wi_result_reference i)) i) (items_map r)\<rparr>"
    assume run: "record_checkpoint (job, ikey) i st out now res ?n r = (Inr ?cp, ?r)"
    have "completed_stage l < st" if "latest (job, ikey) r = Some l" for l
      using that stage after by auto
    then have "checkpoint job ikey owner st out now res r = (Inr ?cp, ?r)"
      using checkpoint_later [OF assms(2,3) ok_history [OF ok]] run by simp
    moreover have "latest (job, ikey) ?r = Some ?cp"
      by (simp add: latest_def checkpoints_of_def)
    ultimately show ?thesis
      by (simp add: resume_state_def require_item_def new_checkpoint_def)
  qed (use assms(6) in simp)
qed

text \<open>A recorded effect and a pending reconciliation are never overwritten or removed by
  any sequence of operations.\<close>

theorem effect_records_final:
  assumes "repo_future r r'"
  shows "(get_effect job ikey r = Some e \<longrightarrow> get_effect job ikey r' = Some e)
    \<and> (get_reconciliation job ikey r = Some n \<longrightarrow> get_reconciliation job ikey r' = Some n)"
  using future_keeps(2,3) [OF assms, of "(job, ikey)"]
  by (simp add: get_effect_def get_reconciliation_def)

section \<open>A sample history\<close>

text \<open>One item is created and claimed by \<open>w1\<close> at time 0 for 100 microseconds; \<open>sample_closed\<close>
  continues with its terminal outcome.\<close>

definition sample_payload :: object_reference where
  "sample_payload = \<lparr>obj_reference = ''memory://payload/h'', content_hash = ''h'', obj_kind = PAYLOAD, size_bytes = 1\<rparr>"

definition sample_item :: work_item where
  "sample_item = \<lparr>wi_job_id = ''j'', wi_item_id = ''i'', wi_idempotency_key = ''k'',
     wi_payload_reference = sample_payload, wi_configuration = \<lparr>profile_id = ''p'', version = ''1''\<rparr>,
     wi_state = WS_PENDING, wi_attempt_count = 0, wi_lease_owner = None, wi_lease_expires_at = None,
     wi_result_reference = None, wi_revision = 0\<rparr>"

definition sample_outbox :: outbox_record where
  "sample_outbox = \<lparr>ob_event_id = ''e'', ob_notification = \<lparr>wn_event_id = ''e'', wn_job_id = ''j'',
     wn_item_id = ''i'', wn_idempotency_key = ''k'', wn_configuration_version = ''1'',
     wn_payload_reference = ''memory://payload/h'', wn_payload_hash = ''h'', aggregate_revision = 0\<rparr>,
     ob_status = OB_PENDING, ob_published_at = None\<rparr>"

definition sample_created :: work_repository where
  "sample_created = repo_apply (OpCreate sample_item sample_outbox) repository_init"

definition sample_claimed :: work_repository where
  "sample_claimed = repo_apply (OpClaim ''j'' ''k'' ''w1'' (Aware 0) 100) sample_created"

definition sample_closed :: work_repository where
  "sample_closed = repo_apply (OpTerminalize ''j'' ''k'' ''w1'' TS_SUCCEEDED None None (Aware 5) None) sample_claimed"

definition sample_checkpointed :: work_repository where
  "sample_checkpointed = repo_apply (OpCheckpoint ''j'' ''k'' ''w1'' CS_ACCEPTED ''ok'' (Aware 5) None) sample_claimed"

abbreviation sample_leased :: work_item where
  "sample_leased \<equiv> claimed_item ''w1'' (Aware 0) 100 sample_item"

lemma sample_op_ok: "op_ok (OpCreate sample_item sample_outbox)"
  by (simp add: sample_item_def sample_outbox_def WorkItem_post_def OutboxRecord_post_def)

lemma sample_created_reachable: "repo_reachable sample_created"
  unfolding sample_created_def by (intro repo_reachable.intros sample_op_ok)

lemma sample_claimed_reachable: "repo_reachable sample_claimed"
  unfolding sample_claimed_def by (intro repo_reachable.step sample_created_reachable) simp

lemma sample_closed_reachable: "repo_reachable sample_closed"
  unfolding sample_closed_def by (intro repo_reachable.step sample_claimed_reachable) simp

lemma sample_created_item: "dget (items_map sample_created) (''j'', ''k'') = Some sample_item"
  by (simp add: sample_created_def create_with_outbox_def repository_init_def sample_item_def)

lemma sample_created_latest: "latest (''j'', ''k'') sample_created = None"
  by (simp add: sample_created_def create_with_outbox_def repository_init_def latest_def checkpoints_of_def)

lemma sample_claim_step:
  "claim ''j'' ''k'' ''w1'' (Aware 0) 100 sample_created =
     (Inr \<lparr>claim_status = ACQUIRED, claim_item = sample_leased, claim_latest = None\<rparr>, sample_claimed)"
proof -
  have "WorkItem_post sample_leased = Inr sample_leased"
    by (simp add: WorkItem_post_def claimed_item_def sample_item_def)
  then have "claim ''j'' ''k'' ''w1'' (Aware 0) 100 sample_created =
     (Inr \<lparr>claim_status = ACQUIRED, claim_item = sample_leased, claim_latest = None\<rparr>,
      sample_created\<lparr>items_map := dset (''j'', ''k'') sample_leased (items_map sample_created)\<rparr>)"
    using sample_created_item sample_created_latest
    by (simp add: claim_def validate_lease_def require_item_def claimed_item_def sample_item_def)
  then show ?thesis by (simp add: sample_claimed_def)
qed

lemma sample_claimed_item: "dget (items_map sample_claimed) (''j'', ''k'') = Some sample_leased"
  using sample_claim_step by (auto simp: sample_claimed_def claim_def validate_lease_def Let_def
      require_item_def sample_created_item split: sum.splits bool.splits option.splits if_splits)

lemma sample_owner: "owns ''w1'' (Aware 5) sample_leased"
  by (simp add: owns_def live_lease_def expiry_after_def claimed_item_def)


lemma sample_closed_terminal:
  "dget (terminal_map sample_closed) (''j'', ''k'') =
     Some (new_terminal sample_leased TS_SUCCEEDED None None (Aware 5) None)"
proof -
  have post: "TerminalRecord_post (new_terminal sample_leased TS_SUCCEEDED None None (Aware 5) None)
      = Inr (new_terminal sample_leased TS_SUCCEEDED None None (Aware 5) None)"
    by (simp add: TerminalRecord_post_def new_terminal_def claimed_item_def sample_item_def)
  have "dget (terminal_map sample_claimed) (''j'', ''k'') = None"
    by (simp add: sample_claimed_def claim_writes sample_created_def create_writes repository_init_def)
  moreover have "require_owned (''j'', ''k'') ''w1'' (Aware 5) sample_claimed = Inr sample_leased"
    using sample_claimed_item sample_owner by (simp add: require_owned_Inr)
  ultimately show ?thesis
    using post by (simp add: sample_closed_def terminalize_def new_terminal_def Let_def split: sum.split)
qed

lemma terminal_outcome_final_witness:
  "lifecycle_of (repo_apply (OpClaim ''j'' ''k'' ''w2'' (Aware 500) 100) sample_closed) (''j'', ''k'')
     = Closed TS_SUCCEEDED"
  using terminal_outcome_final [OF sample_closed_reachable sample_closed_terminal
      repo_future.later [OF repo_future.now, of "OpClaim ''j'' ''k'' ''w2'' (Aware 500) 100" sample_closed]]
  by (simp add: new_terminal_def)

lemma checkpoint_history_append_only_witness:
  "prefix (checkpoints_of (''j'', ''k'') sample_claimed) (checkpoints_of (''j'', ''k'') sample_checkpointed)
   \<and> length (checkpoints_of (''j'', ''k'') sample_checkpointed) \<le> 5"
  using checkpoint_history_append_only [OF sample_claimed_reachable
      repo_future.later [OF repo_future.now, of "OpCheckpoint ''j'' ''k'' ''w1'' CS_ACCEPTED ''ok'' (Aware 5) None"
        sample_claimed], of "(''j'', ''k'')"]
  by (simp add: sample_checkpointed_def)

lemma lease_excludes_others_witness:
  "snd (claim ''j'' ''k'' ''w2'' (Aware 5) 100 sample_claimed) = sample_claimed
   \<and> \<not> returned (fst (renew ''j'' ''k'' ''w2'' (Aware 5) 100 sample_claimed))"
  using lease_excludes_others [OF sample_claimed_reachable sample_claimed_item sample_owner, of "''w2''" "''w2''" 100]
  by simp

lemma acquired_claim_fences_witness:
  "\<not> returned (fst (checkpoint ''j'' ''k'' ''w0'' CS_ACCEPTED ''ok'' (Aware 5) None sample_claimed))"
  using acquired_claim_fences [OF sample_created_reachable sample_claim_step, where other = "''w0''"
      and st = CS_ACCEPTED and out = "''ok''" and later = "Aware 5" and res = None
      and ts = TS_CANCELLED and code = None and det = None]
  by (auto simp: acquired_def)

lemma create_atomic_idempotent_witness:
  "\<exists>j'. create_with_outbox sample_item sample_outbox sample_claimed = (Inr j', sample_claimed)"
proof -
  have run: "create_with_outbox sample_item sample_outbox repository_init = (Inr sample_item, sample_created)"
    by (simp add: sample_created_def create_with_outbox_def repository_init_def)
  have "repo_future sample_created sample_claimed"
    unfolding sample_claimed_def by (intro repo_future.intros) simp
  from create_atomic_idempotent [OF repo_reachable.initial sample_op_ok run this, of sample_outbox]
  show ?thesis by auto
qed

lemma resume_makes_progress_witness:
  "returned (fst (checkpoint ''j'' ''k'' ''w1'' CS_ACCEPTED ''ok'' (Aware 5) None sample_claimed))"
proof -
  have "resume_state ''j'' ''k'' sample_claimed =
      Inr \<lparr>rs_item = sample_leased, rs_latest = None, rs_next_stage = Some CS_ACCEPTED\<rparr>"
    using sample_claimed_item sample_created_latest
    by (simp add: resume_state_def require_item_def latest_def checkpoints_of_def sample_claimed_def
        claim_writes Let_def split: option.splits)
  from resume_makes_progress [OF sample_claimed_reachable sample_claimed_item sample_owner this, of CS_ACCEPTED "''ok''" None]
  show ?thesis by auto
qed

definition sample_effect :: effect_record where
  "sample_effect = \<lparr>ef_job_id = ''j'', ef_item_id = ''i'', ef_idempotency_key = ''k'',
     ef_target_dataset = ''d'', ef_row_scope_digest = ''s'', ef_mutation_digest = ''m'',
     ef_affected_rows = 1, ef_transaction_outcome = ''committed'', ef_adapter_version = ''1'',
     ef_committed_at = Aware 6\<rparr>"

definition sample_effected :: work_repository where
  "sample_effected = repo_apply (OpEffect sample_effect) sample_claimed"

lemma sample_effected_effect: "get_effect ''j'' ''k'' sample_effected = Some sample_effect"
proof -
  have "effects_map sample_claimed = []"
    by (simp add: sample_claimed_def sample_created_def claim_writes create_writes repository_init_def)
  then show ?thesis
    using sample_claimed_item
    by (simp add: get_effect_def sample_effected_def save_effect_def require_item_def sample_effect_def
        claimed_item_def sample_item_def)
qed

lemma effect_records_final_witness:
  "get_effect ''j'' ''k'' (repo_apply (OpClaim ''j'' ''k'' ''w2'' (Aware 500) 100) sample_effected)
     = Some sample_effect"
  using effect_records_final [OF repo_future.later [OF repo_future.now,
      of "OpClaim ''j'' ''k'' ''w2'' (Aware 500) 100" sample_effected], of "''j''" "''k''" sample_effect]
    sample_effected_effect
  by simp

end
