(* ===== verification/Bulk_Effects.thy ===== *)
theory Bulk_Effects
  imports Bulk_Lifecycle
begin

text \<open>
  \<open>EffectRecoveryCoordinator\<close> of \<open>bulk/effects.py\<close>: one logical mutation per work item
  across the transaction boundary of the target and that of the work repository. The
  effect adapter is code outside the repository, so its three methods are a parameter, a
  record of functions on an adapter state of any type; \<open>clock n\<close> is the \<open>n\<close>-th reading of
  the injected clock. Both repository ports are the durable work repository.
\<close>

section \<open>Ports and state\<close>

record 'a effect_adapter =
  adapter_shared :: "effect_request \<Rightarrow> execution_context \<Rightarrow> ('a, effect_evidence) meth"
  adapter_verify :: "string \<Rightarrow> string \<Rightarrow> execution_context \<Rightarrow> ('a, effect_evidence) meth"
  adapter_non_shared :: "approved_effect \<Rightarrow> string \<Rightarrow> execution_context \<Rightarrow> ('a, effect_attempt) meth"

record 'a effect_state =
  es_repo :: work_repository
  es_adapter :: 'a
  es_clock :: nat

definition read_state :: "('s \<Rightarrow> 'x) \<Rightarrow> ('s, 'x) meth" where
  "read_state f = (\<lambda>s. (Inr (f s), s))"

definition on_repo :: "(work_repository, 'x) meth \<Rightarrow> ('a effect_state, 'x) meth" where
  "on_repo m = (\<lambda>s. case m (es_repo s) of (x, r) \<Rightarrow> (x, s\<lparr>es_repo := r\<rparr>))"

definition on_adapter :: "('a, 'x) meth \<Rightarrow> ('a effect_state, 'x) meth" where
  "on_adapter m = (\<lambda>s. case m (es_adapter s) of (x, a) \<Rightarrow> (x, s\<lparr>es_adapter := a\<rparr>))"

definition read_clock :: "(nat \<Rightarrow> datetime) \<Rightarrow> ('a effect_state, datetime) meth" where
  "read_clock clock = (\<lambda>s. (Inr (clock (es_clock s)), s\<lparr>es_clock := Suc (es_clock s)\<rparr>))"

section \<open>The coordinator\<close>

definition same_effect :: "effect_record \<Rightarrow> effect_request \<Rightarrow> bool" where
  "same_effect rec q \<longleftrightarrow> ef_job_id rec = wi_job_id (claim_item (rq_claim q))
     \<and> ef_item_id rec = wi_item_id (claim_item (rq_claim q))
     \<and> ef_idempotency_key rec = wi_idempotency_key (claim_item (rq_claim q))
     \<and> ef_target_dataset rec = rq_target_dataset q
     \<and> ef_row_scope_digest rec = rq_row_scope_digest q
     \<and> ef_mutation_digest rec = rq_mutation_digest q"

definition assert_same_effect :: "effect_record option \<Rightarrow> effect_request \<Rightarrow> effect_record res" where
  "assert_same_effect rec q = (case rec of
     None \<Rightarrow> Inl (EffectConflictError ''idempotency key is committed to a different mutation'')
   | Some x \<Rightarrow> if same_effect x q then Inr x
       else Inl (EffectConflictError ''idempotency key is committed to a different mutation''))"

definition same_reconciliation :: "reconciliation_record \<Rightarrow> effect_request \<Rightarrow> bool" where
  "same_reconciliation n q \<longleftrightarrow> rn_job_id n = wi_job_id (claim_item (rq_claim q))
     \<and> rn_item_id n = wi_item_id (claim_item (rq_claim q))
     \<and> rn_idempotency_key n = wi_idempotency_key (claim_item (rq_claim q))
     \<and> rn_target_dataset n = rq_target_dataset q
     \<and> rn_row_scope_digest n = rq_row_scope_digest q
     \<and> rn_mutation_digest n = rq_mutation_digest q"

definition assert_same_reconciliation :: "reconciliation_record \<Rightarrow> effect_request \<Rightarrow> unit res" where
  "assert_same_reconciliation n q =
     (if same_reconciliation n q then Inr ()
      else Inl (EffectConflictError ''idempotency key is awaiting reconciliation for a different mutation''))"

text \<open>\<open>_restore_checkpoint\<close>: the checkpoint of a committed effect, written with the lease
  of the claim (\<open>checkpoint_with_lease\<close>) unless the item is already completed.\<close>

definition checkpoint_with_lease ::
    "(nat \<Rightarrow> datetime) \<Rightarrow> effect_request \<Rightarrow> effect_record \<Rightarrow> ('a effect_state, checkpoint_record) meth" where
  "checkpoint_with_lease clock q rec =
     (case wi_lease_owner (claim_item (rq_claim q)) of
        None \<Rightarrow> raiseM (EffectRecoveryError ''committed effect recovery requires the acquired lease'')
      | Some owner \<Rightarrow>
         bindM (read_clock clock) (\<lambda>now.
           on_repo (checkpoint (ef_job_id rec) (ef_idempotency_key rec) owner CS_COMPLETED
             (''write_back_committed:'' @ ef_transaction_outcome rec) now None)))"

definition restore_checkpoint ::
    "(nat \<Rightarrow> datetime) \<Rightarrow> effect_request \<Rightarrow> effect_record \<Rightarrow> ('a effect_state, checkpoint_record) meth" where
  "restore_checkpoint clock q rec =
     bindM (\<lambda>s. (resume_state (ef_job_id rec) (ef_idempotency_key rec) (es_repo s), s)) (\<lambda>rs.
       if map_option completed_stage (rs_latest rs) = Some CS_COMPLETED
       then pureM (the (rs_latest rs))
       else checkpoint_with_lease clock q rec)"

definition new_recovery_result ::
    "recovery_status \<Rightarrow> effect_record option \<Rightarrow> checkpoint_record option \<Rightarrow> reconciliation_record option
     \<Rightarrow> string \<Rightarrow> ('s, recovery_result) meth" where
  "new_recovery_result st rec cp rn reason =
     liftR (RecoveryResult_post \<lparr>rv_status = st, rv_effect_record = rec, rv_checkpoint = cp,
       rv_reconciliation = rn, rv_reason_code = reason\<rparr>)"

definition reconcile_effect ::
    "(nat \<Rightarrow> datetime) \<Rightarrow> effect_request \<Rightarrow> string \<Rightarrow> ('a effect_state, recovery_result) meth" where
  "reconcile_effect clock q reason =
     (let i = claim_item (rq_claim q) in
      bindM (read_clock clock) (\<lambda>now.
      bindM (liftR (ReconciliationRecord_post \<lparr>rn_job_id = wi_job_id i, rn_item_id = wi_item_id i,
               rn_idempotency_key = wi_idempotency_key i, rn_target_dataset = rq_target_dataset q,
               rn_row_scope_digest = rq_row_scope_digest q, rn_mutation_digest = rq_mutation_digest q,
               rn_reason = reason, rn_recorded_at = now\<rparr>)) (\<lambda>rec.
      bindM (on_repo (save_reconciliation rec)) (\<lambda>saved.
        new_recovery_result RC_RECONCILIATION_REQUIRED None None (Some saved) reason))))"

text \<open>Saving a committed effect and its checkpoint.\<close>

definition commit_effect ::
    "(nat \<Rightarrow> datetime) \<Rightarrow> effect_request \<Rightarrow> recovery_status \<Rightarrow> string \<Rightarrow> effect_record
     \<Rightarrow> ('a effect_state, recovery_result) meth" where
  "commit_effect clock q st reason rec =
     bindM (on_repo (save_effect rec)) (\<lambda>saved.
     bindM (restore_checkpoint clock q saved) (\<lambda>cp.
       new_recovery_result st (Some saved) (Some cp) None reason))"

definition execute_shared ::
    "(nat \<Rightarrow> datetime) \<Rightarrow> 'a effect_adapter \<Rightarrow> effect_request \<Rightarrow> execution_context
     \<Rightarrow> ('a effect_state, recovery_result) meth" where
  "execute_shared clock A q ctx =
     bindM (on_adapter (adapter_shared A q ctx)) (\<lambda>ev.
       (case ev_status ev of
          EV_COMMITTED \<Rightarrow>
            bindM (liftR (assert_same_effect (ev_record ev) q))
              (commit_effect clock q RC_COMMITTED ''transaction_committed'')
        | EV_AMBIGUOUS \<Rightarrow> reconcile_effect clock q ''shared_transaction_outcome_ambiguous''
        | _ \<Rightarrow> new_recovery_result RC_WRITE_BACK_FAILED None None None ''precommit_transaction_rolled_back''))"

definition execute_non_shared ::
    "(nat \<Rightarrow> datetime) \<Rightarrow> 'a effect_adapter \<Rightarrow> effect_request \<Rightarrow> execution_context
     \<Rightarrow> ('a effect_state, recovery_result) meth" where
  "execute_non_shared clock A q ctx =
     (let i = claim_item (rq_claim q) in
      bindM (on_adapter (adapter_verify A (wi_idempotency_key i) (rq_mutation_digest q) ctx)) (\<lambda>ev.
       (case ev_status ev of
          EV_COMMITTED \<Rightarrow>
            bindM (liftR (assert_same_effect (ev_record ev) q))
              (commit_effect clock q RC_RECOVERED ''target_effect_recovered'')
        | EV_AMBIGUOUS \<Rightarrow> reconcile_effect clock q ''target_effect_verification_ambiguous''
        | _ \<Rightarrow>
           bindM (on_adapter (adapter_non_shared A (rq_effect q) (rq_mutation_digest q) ctx)) (\<lambda>attempt.
             (case ea_status attempt of
                AT_ROLLED_BACK \<Rightarrow>
                  new_recovery_result RC_WRITE_BACK_FAILED None None None ''precommit_transaction_rolled_back''
              | AT_AMBIGUOUS \<Rightarrow> reconcile_effect clock q ''mutation_commit_outcome_ambiguous''
              | AT_COMMITTED \<Rightarrow>
                  bindM (read_clock clock) (\<lambda>now.
                  bindM (liftR (EffectRecord_post \<lparr>ef_job_id = wi_job_id i, ef_item_id = wi_item_id i,
                           ef_idempotency_key = wi_idempotency_key i,
                           ef_target_dataset = rq_target_dataset q,
                           ef_row_scope_digest = rq_row_scope_digest q,
                           ef_mutation_digest = rq_mutation_digest q,
                           ef_affected_rows = ea_affected_rows attempt,
                           ef_transaction_outcome = ea_transaction_outcome attempt,
                           ef_adapter_version = ea_adapter_version attempt, ef_committed_at = now\<rparr>))
                    (commit_effect clock q RC_COMMITTED ''transaction_committed'')))))))"

definition execute_effect ::
    "(nat \<Rightarrow> datetime) \<Rightarrow> 'a effect_adapter \<Rightarrow> effect_request \<Rightarrow> execution_context
     \<Rightarrow> ('a effect_state, recovery_result) meth" where
  "execute_effect clock A q ctx =
     (let i = claim_item (rq_claim q) in
      if ctx_path ctx \<noteq> BULK
      then raiseM (ValueError ''write-back effects require a bulk execution context'')
      else if wi_configuration i \<noteq> reference (ctx_configuration ctx)
      then raiseM (ValueError ''effect context must use the work item's bound configuration'')
      else
        bindM (read_state (\<lambda>s. get_effect (wi_job_id i) (wi_idempotency_key i) (es_repo s))) (\<lambda>existing.
        (case existing of
           Some _ \<Rightarrow>
             bindM (liftR (assert_same_effect existing q)) (\<lambda>rec.
             bindM (restore_checkpoint clock q rec) (\<lambda>cp.
               new_recovery_result RC_RECOVERED (Some rec) (Some cp) None ''committed_effect_recovered''))
         | None \<Rightarrow>
             bindM (read_state (\<lambda>s. get_reconciliation (wi_job_id i) (wi_idempotency_key i) (es_repo s)))
               (\<lambda>pending.
               (case pending of
                  Some n \<Rightarrow>
                    bindM (liftR (assert_same_reconciliation n q)) (\<lambda>_.
                      new_recovery_result RC_RECONCILIATION_REQUIRED None None (Some n) (rn_reason n))
                | None \<Rightarrow>
                    (case rq_boundary q of
                       SHARED \<Rightarrow> execute_shared clock A q ctx
                     | NON_SHARED \<Rightarrow> execute_non_shared clock A q ctx))))))"

section \<open>What the coordinator does to the repository and to the adapter\<close>

text \<open>\<open>advances m\<close>: \<open>m\<close> acts on the repository by repository operations only. \<open>silent m\<close>:
  \<open>m\<close> leaves the adapter alone.\<close>

definition advances :: "('a effect_state, 'x) meth \<Rightarrow> bool" where
  "advances m \<longleftrightarrow> (\<forall>s. repo_future (es_repo s) (es_repo (snd (m s))))"

definition silent :: "('a effect_state, 'x) meth \<Rightarrow> bool" where
  "silent m \<longleftrightarrow> (\<forall>s. es_adapter (snd (m s)) = es_adapter s)"

lemma future_trans: "repo_future r' r'' \<Longrightarrow> repo_future r r' \<Longrightarrow> repo_future r r''"
  by (induction rule: repo_future.induct) (auto intro: repo_future.later)

lemma bindM_cases:
  "bindM m f s = (y, s'') \<longleftrightarrow>
     (\<exists>e. m s = (Inl e, s'') \<and> y = Inl e) \<or> (\<exists>x s'. m s = (Inr x, s') \<and> f x s' = (y, s''))"
  by (auto simp: bindM_def split: prod.splits sum.splits)

lemma advances_bind:
  assumes m: "advances m" and f: "\<And>x. advances (f x)"
  shows "advances (bindM m f)"
  unfolding advances_def
proof
  fix s
  obtain y s1 where run: "m s = (y, s1)" by fastforce
  with m have first: "repo_future (es_repo s) (es_repo s1)" by (metis advances_def snd_conv)
  show "repo_future (es_repo s) (es_repo (snd (bindM m f s)))"
  proof (cases y)
    case (Inl e)
    with run first show ?thesis by (simp add: bindM_def)
  next
    case (Inr x)
    have "repo_future (es_repo s1) (es_repo (snd (f x s1)))" using f by (simp add: advances_def)
    with run first Inr show ?thesis by (auto simp: bindM_def intro: future_trans)
  qed
qed

lemma silent_bind:
  assumes m: "silent m" and f: "\<And>x. silent (f x)"
  shows "silent (bindM m f)"
  unfolding silent_def
proof
  fix s
  obtain y s1 where run: "m s = (y, s1)" by fastforce
  with m have "es_adapter s1 = es_adapter s" by (metis silent_def snd_conv)
  with run f show "es_adapter (snd (bindM m f s)) = es_adapter s"
    by (cases y) (simp_all add: bindM_def silent_def)
qed

lemma advances_basic:
  "advances (pureM x)" "advances (raiseM e)" "advances (liftR y)" "advances (read_state f)"
  "advances (read_clock clock)" "advances (on_adapter m)" "advances (\<lambda>s. (g s, s))"
  by (auto simp: advances_def read_state_def read_clock_def on_adapter_def repo_future.now split: prod.split)

lemma silent_basic:
  "silent (pureM x)" "silent (raiseM e)" "silent (liftR y)" "silent (read_state f)"
  "silent (read_clock clock)" "silent (on_repo m)" "silent (\<lambda>s. (g s, s))"
  by (auto simp: silent_def read_state_def read_clock_def on_repo_def split: prod.split)

lemma advances_cases:
  "(b \<Longrightarrow> advances m) \<Longrightarrow> (\<not> b \<Longrightarrow> advances m') \<Longrightarrow> advances (if b then m else m')"
  "advances m \<Longrightarrow> (\<And>x. advances (f x)) \<Longrightarrow> advances (case v of None \<Rightarrow> m | Some x \<Rightarrow> f x)"
  "advances m \<Longrightarrow> advances m2 \<Longrightarrow> advances m3 \<Longrightarrow> advances m4 \<Longrightarrow> advances (case ev of
     EV_ABSENT \<Rightarrow> m | EV_COMMITTED \<Rightarrow> m2 | EV_ROLLED_BACK \<Rightarrow> m3 | EV_AMBIGUOUS \<Rightarrow> m4)"
  "advances m \<Longrightarrow> advances m2 \<Longrightarrow> advances m3 \<Longrightarrow> advances (case att of
     AT_COMMITTED \<Rightarrow> m | AT_ROLLED_BACK \<Rightarrow> m2 | AT_AMBIGUOUS \<Rightarrow> m3)"
  "advances m \<Longrightarrow> advances m2 \<Longrightarrow> advances (case bd of SHARED \<Rightarrow> m | NON_SHARED \<Rightarrow> m2)"
  by (auto split: option.split evidence_status.split attempt_status.split transaction_boundary.split)

lemma silent_cases:
  "(b \<Longrightarrow> silent m) \<Longrightarrow> (\<not> b \<Longrightarrow> silent m') \<Longrightarrow> silent (if b then m else m')"
  "silent m \<Longrightarrow> (\<And>x. silent (f x)) \<Longrightarrow> silent (case v of None \<Rightarrow> m | Some x \<Rightarrow> f x)"
  by (auto split: option.split)

lemma advances_repo:
  assumes "\<And>r. \<exists>x. op_ok x \<and> snd (m r) = repo_apply x r"
  shows "advances (on_repo m)"
  unfolding advances_def on_repo_def
proof (intro allI)
  fix s
  obtain x where "op_ok x" "snd (m (es_repo s)) = repo_apply x (es_repo s)" using assms by blast
  then show "repo_future (es_repo s) (es_repo (snd (case m (es_repo s) of (x, r) \<Rightarrow> (x, s\<lparr>es_repo := r\<rparr>))))"
    by (simp add: case_prod_beta repo_future.later [OF repo_future.now])
qed

lemma advances_checkpoint: "advances (on_repo (checkpoint job ikey owner st out now res))"
  by (rule advances_repo, rule exI [of _ "OpCheckpoint job ikey owner st out now res"]) simp

lemma advances_save_effect: "advances (on_repo (save_effect rec))"
  by (rule advances_repo, rule exI [of _ "OpEffect rec"]) simp

lemma advances_save_reconciliation: "advances (on_repo (save_reconciliation n))"
  by (rule advances_repo, rule exI [of _ "OpReconcile n"]) simp

lemmas advances_rules = advances_cases advances_bind advances_basic advances_checkpoint
  advances_save_effect advances_save_reconciliation

lemmas silent_rules = silent_cases silent_bind silent_basic

lemma restore_advances: "advances (restore_checkpoint clock q rec)"
  unfolding restore_checkpoint_def checkpoint_with_lease_def by (intro advances_rules)

lemma restore_silent: "silent (restore_checkpoint clock q rec)"
  unfolding restore_checkpoint_def checkpoint_with_lease_def by (intro silent_rules)

lemma recovery_advances: "advances (new_recovery_result st rec cp rn reason)"
  unfolding new_recovery_result_def by (intro advances_rules)

lemma recovery_silent: "silent (new_recovery_result st rec cp rn reason)"
  unfolding new_recovery_result_def by (intro silent_rules)

lemma reconcile_advances: "advances (reconcile_effect clock q reason)"
  unfolding reconcile_effect_def Let_def by (intro advances_rules recovery_advances)

lemma commit_advances: "advances (commit_effect clock q st reason rec)"
  unfolding commit_effect_def by (intro advances_rules restore_advances recovery_advances)

lemma execute_advances: "advances (execute_effect clock A q ctx)"
  unfolding execute_effect_def execute_shared_def execute_non_shared_def Let_def
  by (intro advances_rules recovery_advances reconcile_advances restore_advances commit_advances)

section \<open>Committed results\<close>

abbreviation item_key :: "effect_request \<Rightarrow> work_key" where
  "item_key q \<equiv> (wi_job_id (claim_item (rq_claim q)), wi_idempotency_key (claim_item (rq_claim q)))"

lemma checkpoint_latest:
  assumes ok: "repo_ok r" and run: "checkpoint job ikey owner st out now res r = (Inr cp, r')"
  shows "latest (job, ikey) r' = Some cp \<and> completed_stage cp = st"
  by (rule checkpoint_outcomes [OF ok, of job ikey owner st out now res])
     (use run in \<open>auto simp: latest_def checkpoints_of_def new_checkpoint_def Let_def\<close>)

lemma restore_completes:
  assumes ok: "repo_ok (es_repo s)" and run: "restore_checkpoint clock q rec s = (Inr cp, s')"
  shows "latest (ef_job_id rec, ef_idempotency_key rec) (es_repo s') = Some cp
    \<and> completed_stage cp = CS_COMPLETED \<and> effects_map (es_repo s') = effects_map (es_repo s)"
proof -
  let ?k = "(ef_job_id rec, ef_idempotency_key rec)"
  obtain rs where rs: "resume_state (ef_job_id rec) (ef_idempotency_key rec) (es_repo s) = Inr rs"
    using run by (auto simp: restore_checkpoint_def bindM_Inr)
  then have latest: "rs_latest rs = latest ?k (es_repo s)"
    by (auto simp: resume_state_def bindR_Inr Let_def)
  show ?thesis
  proof (cases "\<exists>l. rs_latest rs = Some l \<and> completed_stage l = CS_COMPLETED")
    case True
    with run rs latest show ?thesis by (auto simp: restore_checkpoint_def bindM_Inr)
  next
    case False
    with run rs have "checkpoint_with_lease clock q rec s = (Inr cp, s')"
      by (simp only: restore_checkpoint_def bindM_Inr) simp
    then obtain owner now where "wi_lease_owner (claim_item (rq_claim q)) = Some owner"
      and cp: "checkpoint (ef_job_id rec) (ef_idempotency_key rec) owner CS_COMPLETED
          (''write_back_committed:'' @ ef_transaction_outcome rec) now None (es_repo s) = (Inr cp, es_repo s')"
      by (cases "wi_lease_owner (claim_item (rq_claim q))")
         (auto simp: checkpoint_with_lease_def bindM_Inr on_repo_def read_clock_def split: prod.splits)
    then show ?thesis using checkpoint_latest [OF ok cp] checkpoint_writes(2) cp
      by (metis snd_conv)
  qed
qed

lemma recovery_result_Inr:
  "new_recovery_result st rec cp rn reason s = (Inr res, s') \<longleftrightarrow> s' = s \<and> \<not> blank reason \<and>
     res = \<lparr>rv_status = st, rv_effect_record = rec, rv_checkpoint = cp, rv_reconciliation = rn,
            rv_reason_code = reason\<rparr>"
  by (auto simp: new_recovery_result_def RecoveryResult_post_def)

text \<open>\<open>recorded q rec r\<close>: the repository holds the effect record of the request and its
  completing checkpoint.\<close>

definition recorded :: "effect_request \<Rightarrow> effect_record \<Rightarrow> work_repository \<Rightarrow> bool" where
  "recorded q rec r \<longleftrightarrow> same_effect rec q \<and> dget (effects_map r) (item_key q) = Some rec
     \<and> completed_history (checkpoints_of (item_key q) r)"

lemma completed_latest:
  "latest k r = Some cp \<Longrightarrow> completed_stage cp = CS_COMPLETED \<Longrightarrow> completed_history (checkpoints_of k r)"
  by (simp add: latest_Some completed_history_def)

lemma save_effect_Inr:
  "save_effect rec r = (Inr x, r') \<Longrightarrow> x = rec \<and> dget (effects_map r') (ef_job_id rec, ef_idempotency_key rec) = Some rec"
  by (rule save_effect_outcomes [of rec r]) auto

lemma commit_records:
  assumes ok: "repo_ok (es_repo s)" and same: "same_effect rec q"
    and run: "commit_effect clock q st reason rec s = (Inr res, s')"
  shows "recorded q rec (es_repo s') \<and> rv_status res = st \<and> rv_effect_record res = Some rec
    \<and> (\<exists>cp. rv_checkpoint res = Some cp \<and> latest (item_key q) (es_repo s') = Some cp)"
proof -
  obtain saved s1 cp where save: "on_repo (save_effect rec) s = (Inr saved, s1)"
    and restore: "restore_checkpoint clock q saved s1 = (Inr cp, s')"
    and res: "res = \<lparr>rv_status = st, rv_effect_record = Some saved, rv_checkpoint = Some cp,
      rv_reconciliation = None, rv_reason_code = reason\<rparr>"
    using run by (auto simp: commit_effect_def bindM_Inr recovery_result_Inr)
  have saved: "saved = rec" "dget (effects_map (es_repo s1)) (ef_job_id rec, ef_idempotency_key rec) = Some rec"
    using save save_effect_Inr [of rec "es_repo s"] by (auto simp: on_repo_def split: prod.splits)
  have "repo_ok (es_repo s1)"
    using repo_ok_effect [OF ok, of rec] save by (auto simp: on_repo_def split: prod.splits)
  from restore_completes [OF this restore] saved same res show ?thesis
    by (auto simp: recorded_def same_effect_def intro: completed_latest)
qed

lemma committed_existing:
  assumes ok: "repo_ok (es_repo s)" and same: "same_effect rec q"
    and rec: "dget (effects_map (es_repo s)) (item_key q) = Some rec"
    and run: "bindM (restore_checkpoint clock q rec) (\<lambda>cp.
      new_recovery_result RC_RECOVERED (Some rec) (Some cp) None reason) s = (Inr res, s')"
  shows "recorded q rec (es_repo s') \<and> rv_effect_record res = Some rec"
proof -
  obtain cp where "restore_checkpoint clock q rec s = (Inr cp, s')" "rv_effect_record res = Some rec"
    using run by (auto simp: bindM_Inr recovery_result_Inr)
  with restore_completes [OF ok, of clock q rec cp s'] rec same show ?thesis
    by (auto simp: recorded_def same_effect_def intro: completed_latest)
qed

lemma assert_same_effect_Inr: "assert_same_effect x q = Inr rec \<longleftrightarrow> x = Some rec \<and> same_effect rec q"
  by (auto simp: assert_same_effect_def split: option.splits)

lemma EffectRecord_post_Inr: "EffectRecord_post x = Inr y \<Longrightarrow> y = x"
  by (auto simp: EffectRecord_post_def bindR_Inr split: if_splits)

lemma save_reconciliation_Inr:
  "save_reconciliation rec r = (Inr x, r') \<Longrightarrow>
     dget (reconciliations_map r') (rn_job_id rec, rn_idempotency_key rec) = Some x"
  by (rule save_reconciliation_outcomes [of rec r]) auto

definition pending_record :: "effect_request \<Rightarrow> string \<Rightarrow> datetime \<Rightarrow> reconciliation_record" where
  "pending_record q reason now = (let i = claim_item (rq_claim q) in
     \<lparr>rn_job_id = wi_job_id i, rn_item_id = wi_item_id i, rn_idempotency_key = wi_idempotency_key i,
      rn_target_dataset = rq_target_dataset q, rn_row_scope_digest = rq_row_scope_digest q,
      rn_mutation_digest = rq_mutation_digest q, rn_reason = reason, rn_recorded_at = now\<rparr>)"

lemma ReconciliationRecord_post_Inr: "ReconciliationRecord_post x = Inr y \<Longrightarrow> y = x"
  by (auto simp: ReconciliationRecord_post_def bindR_Inr split: if_splits)

lemma reconcile_status:
  assumes "reconcile_effect clock q reason s = (Inr res, s')"
  shows "rv_status res = RC_RECONCILIATION_REQUIRED
    \<and> (\<exists>n. dget (reconciliations_map (es_repo s')) (item_key q) = Some n \<and> rv_reconciliation res = Some n)"
proof -
  obtain now saved s1 where save: "on_repo (save_reconciliation (pending_record q reason now)) s1 = (Inr saved, s')"
    and res: "rv_status res = RC_RECONCILIATION_REQUIRED" "rv_reconciliation res = Some saved"
    using assms unfolding reconcile_effect_def pending_record_def Let_def
    by (fastforce simp: bindM_Inr recovery_result_Inr dest: ReconciliationRecord_post_Inr)
  then have "save_reconciliation (pending_record q reason now) (es_repo s1) = (Inr saved, es_repo s')"
    by (auto simp: on_repo_def split: prod.splits)
  from save_reconciliation_Inr [OF this] res show ?thesis by (auto simp: pending_record_def Let_def)
qed

definition attempt_record :: "effect_request \<Rightarrow> effect_attempt \<Rightarrow> datetime \<Rightarrow> effect_record" where
  "attempt_record q a now = (let i = claim_item (rq_claim q) in
     \<lparr>ef_job_id = wi_job_id i, ef_item_id = wi_item_id i, ef_idempotency_key = wi_idempotency_key i,
      ef_target_dataset = rq_target_dataset q, ef_row_scope_digest = rq_row_scope_digest q,
      ef_mutation_digest = rq_mutation_digest q, ef_affected_rows = ea_affected_rows a,
      ef_transaction_outcome = ea_transaction_outcome a, ef_adapter_version = ea_adapter_version a,
      ef_committed_at = now\<rparr>)"

lemma attempt_record_same: "same_effect (attempt_record q a now) q"
  by (simp add: attempt_record_def same_effect_def Let_def)

section \<open>Every outcome of an execution\<close>

text \<open>A successful execution either records the effect with its completing checkpoint, or
  leaves a pending reconciliation, or reports a write-back failure.\<close>

lemma shared_outcome:
  assumes ok: "repo_ok (es_repo s)" and run: "execute_shared clock A q ctx s = (Inr res, s')"
  shows "(rv_committed res \<and> (\<exists>rec. recorded q rec (es_repo s') \<and> rv_effect_record res = Some rec))
    \<or> (rv_status res = RC_RECONCILIATION_REQUIRED
        \<and> dget (reconciliations_map (es_repo s')) (item_key q) \<noteq> None)
    \<or> (rv_status res = RC_WRITE_BACK_FAILED \<and> es_repo s' = es_repo s)"
proof -
  obtain ev s1 where ev: "on_adapter (adapter_shared A q ctx) s = (Inr ev, s1)"
    using run by (auto simp: execute_shared_def bindM_Inr)
  then have repo: "es_repo s1 = es_repo s" by (auto simp: on_adapter_def split: prod.splits)
  show ?thesis
  proof (cases "ev_status ev")
    case EV_COMMITTED
    with run ev obtain rec where "same_effect rec q"
      "commit_effect clock q RC_COMMITTED ''transaction_committed'' rec s1 = (Inr res, s')"
      by (auto simp: execute_shared_def bindM_Inr assert_same_effect_Inr)
    with commit_records [of s1] ok repo show ?thesis by (fastforce simp: rv_committed_def)
  next
    case EV_AMBIGUOUS
    with run ev reconcile_status show ?thesis by (fastforce simp: execute_shared_def bindM_Inr)
  qed (use run ev repo in \<open>auto simp: execute_shared_def bindM_Inr recovery_result_Inr\<close>)
qed

lemma non_shared_outcome:
  assumes ok: "repo_ok (es_repo s)" and run: "execute_non_shared clock A q ctx s = (Inr res, s')"
  shows "(rv_committed res \<and> (\<exists>rec. recorded q rec (es_repo s') \<and> rv_effect_record res = Some rec))
    \<or> (rv_status res = RC_RECONCILIATION_REQUIRED
        \<and> dget (reconciliations_map (es_repo s')) (item_key q) \<noteq> None)
    \<or> (rv_status res = RC_WRITE_BACK_FAILED \<and> es_repo s' = es_repo s)"
proof -
  let ?i = "claim_item (rq_claim q)"
  obtain ev s1 where ev: "on_adapter (adapter_verify A (wi_idempotency_key ?i) (rq_mutation_digest q) ctx) s = (Inr ev, s1)"
    using run by (auto simp: execute_non_shared_def bindM_Inr Let_def)
  then have repo: "es_repo s1 = es_repo s" by (auto simp: on_adapter_def split: prod.splits)
  consider "ev_status ev = EV_COMMITTED" | "ev_status ev = EV_AMBIGUOUS"
    | "ev_status ev \<noteq> EV_COMMITTED" "ev_status ev \<noteq> EV_AMBIGUOUS" by blast
  then show ?thesis
  proof cases
    case 1
    with run ev obtain rec where "same_effect rec q"
      "commit_effect clock q RC_RECOVERED ''target_effect_recovered'' rec s1 = (Inr res, s')"
      by (auto simp: execute_non_shared_def bindM_Inr assert_same_effect_Inr Let_def)
    with commit_records [of s1] ok repo show ?thesis by (fastforce simp: rv_committed_def)
  next
    case 2
    with run ev reconcile_status show ?thesis by (fastforce simp: execute_non_shared_def bindM_Inr Let_def)
  next
    case 3
    then obtain att s2 where attempt: "on_adapter (adapter_non_shared A (rq_effect q) (rq_mutation_digest q) ctx) s1
        = (Inr att, s2)"
      using run ev by (cases "ev_status ev") (auto simp: execute_non_shared_def bindM_Inr Let_def)
    then have repo2: "es_repo s2 = es_repo s" using repo by (auto simp: on_adapter_def split: prod.splits)
    show ?thesis
    proof (cases "ea_status att")
      case AT_COMMITTED
      then obtain now s3 where "read_clock clock s2 = (Inr now, s3)"
        "commit_effect clock q RC_COMMITTED ''transaction_committed'' (attempt_record q att now) s3 = (Inr res, s')"
        using run ev attempt 3 unfolding execute_non_shared_def attempt_record_def Let_def
        by (cases "ev_status ev") (fastforce simp: bindM_Inr dest!: EffectRecord_post_Inr)+
      with commit_records [OF _ attempt_record_same, of s3] ok repo2 show ?thesis
        by (fastforce simp: rv_committed_def read_clock_def)
    next
      case AT_ROLLED_BACK
      then show ?thesis using run ev attempt 3 repo2 by (cases "ev_status ev")
          (auto simp: execute_non_shared_def bindM_Inr Let_def recovery_result_Inr)
    next
      case AT_AMBIGUOUS
      then have "reconcile_effect clock q ''mutation_commit_outcome_ambiguous'' s2 = (Inr res, s')"
        using run ev attempt 3 by (cases "ev_status ev") (auto simp: execute_non_shared_def bindM_Inr Let_def)
      from reconcile_status [OF this] show ?thesis by auto
    qed
  qed
qed

section \<open>Properties\<close>

text \<open>A successful result is trustworthy: if it says committed or recovered, the
  repository holds an effect record of exactly the requested mutation and the item's
  completing checkpoint; otherwise it is a reconciliation that is on record, or a
  write-back failure that left the repository as it was.\<close>

theorem effect_outcome_recorded:
  assumes "repo_ok (es_repo s)" and "execute_effect clock A q ctx s = (Inr res, s')"
  shows "(rv_committed res \<and> (\<exists>rec. recorded q rec (es_repo s') \<and> rv_effect_record res = Some rec))
    \<or> (rv_status res = RC_RECONCILIATION_REQUIRED
        \<and> dget (reconciliations_map (es_repo s')) (item_key q) \<noteq> None)
    \<or> (rv_status res = RC_WRITE_BACK_FAILED \<and> es_repo s' = es_repo s)"
proof -
  let ?i = "claim_item (rq_claim q)"
  have guards: "ctx_path ctx = BULK" "wi_configuration ?i = reference (ctx_configuration ctx)"
    using assms(2) by (auto simp: execute_effect_def Let_def split: if_splits)
  show ?thesis
  proof (cases "get_effect (wi_job_id ?i) (wi_idempotency_key ?i) (es_repo s)")
    case (Some rec)
    with assms(2) guards have "same_effect rec q"
      and run: "bindM (restore_checkpoint clock q rec) (\<lambda>cp.
        new_recovery_result RC_RECOVERED (Some rec) (Some cp) None ''committed_effect_recovered'') s = (Inr res, s')"
      by (auto simp: execute_effect_def Let_def read_state_def assert_same_effect_def bindM_def split: if_splits)
    moreover from run have "rv_committed res"
      by (auto simp: bindM_Inr recovery_result_Inr rv_committed_def)
    ultimately show ?thesis
      using committed_existing [OF assms(1)] Some by (fastforce simp: get_effect_def)
  next
    case None
    note no_effect = None
    show ?thesis
    proof (cases "get_reconciliation (wi_job_id ?i) (wi_idempotency_key ?i) (es_repo s)")
      case (Some n)
      with assms(2) guards no_effect show ?thesis
        by (auto simp: execute_effect_def Let_def read_state_def bindM_Inr recovery_result_Inr
            get_reconciliation_def)
    next
      case None
      with assms(2) guards no_effect
      have "(case rq_boundary q of SHARED \<Rightarrow> execute_shared clock A q ctx
          | NON_SHARED \<Rightarrow> execute_non_shared clock A q ctx) s = (Inr res, s')"
        by (simp add: execute_effect_def Let_def read_state_def bindM_def)
      then show ?thesis
        using shared_outcome [OF assms(1)] non_shared_outcome [OF assms(1)]
        by (cases "rq_boundary q") auto
    qed
  qed
qed

lemma execute_without_adapter:
  assumes "get_effect (wi_job_id (claim_item (rq_claim q))) (wi_idempotency_key (claim_item (rq_claim q))) (es_repo s) \<noteq> None
    \<or> get_reconciliation (wi_job_id (claim_item (rq_claim q))) (wi_idempotency_key (claim_item (rq_claim q))) (es_repo s) \<noteq> None"
  shows "execute_effect clock A q ctx s = execute_effect clock B q ctx s
    \<and> es_adapter (snd (execute_effect clock A q ctx s)) = es_adapter s"
proof -
  let ?i = "claim_item (rq_claim q)"
  let ?m = "case get_effect (wi_job_id ?i) (wi_idempotency_key ?i) (es_repo s) of
      Some rec \<Rightarrow> bindM (liftR (assert_same_effect (Some rec) q)) (\<lambda>rec.
         bindM (restore_checkpoint clock q rec) (\<lambda>cp.
           new_recovery_result RC_RECOVERED (Some rec) (Some cp) None ''committed_effect_recovered''))
    | None \<Rightarrow> (case get_reconciliation (wi_job_id ?i) (wi_idempotency_key ?i) (es_repo s) of
        Some n \<Rightarrow> bindM (liftR (assert_same_reconciliation n q)) (\<lambda>_.
          new_recovery_result RC_RECONCILIATION_REQUIRED None None (Some n) (rn_reason n))
      | None \<Rightarrow> raiseM undefined)"
  let ?g = "if ctx_path ctx \<noteq> BULK
      then raiseM (ValueError ''write-back effects require a bulk execution context'')
      else if wi_configuration ?i \<noteq> reference (ctx_configuration ctx)
      then raiseM (ValueError ''effect context must use the work item's bound configuration'')
      else ?m"
  have run: "execute_effect clock X q ctx s = ?g s" for X
    using assms by (auto simp: execute_effect_def Let_def read_state_def bindM_def split: option.split)
  have "silent ?g"
    by (intro silent_rules restore_silent recovery_silent)
  then have "es_adapter (snd (?g s)) = es_adapter s"
    unfolding silent_def by (rule spec)
  then show ?thesis by (simp only: run simp_thms)
qed

text \<open>C2. A logical mutation reaches the target at most once: after a committed, recovered or
  ambiguous outcome, and whatever is done to the repository afterwards, no later request
  for that work item touches the effect adapter, with any claim and any context.\<close>

theorem effect_never_replayed:
  assumes "repo_ok (es_repo s)" and "execute_effect clock A q ctx s = (Inr res, s')"
    and "rv_status res \<noteq> RC_WRITE_BACK_FAILED" and "repo_future (es_repo s') (es_repo t)"
    and "item_key q' = item_key q"
  shows "execute_effect clock A q' ctx' t = execute_effect clock B q' ctx' t
    \<and> es_adapter (snd (execute_effect clock A q' ctx' t)) = es_adapter t"
proof (rule execute_without_adapter)
  from effect_outcome_recorded [OF assms(1,2)] assms(3)
  have "dget (effects_map (es_repo s')) (item_key q) \<noteq> None
      \<or> dget (reconciliations_map (es_repo s')) (item_key q) \<noteq> None"
    by (auto simp: recorded_def)
  then have "dget (effects_map (es_repo t)) (item_key q) \<noteq> None
      \<or> dget (reconciliations_map (es_repo t)) (item_key q) \<noteq> None"
    using future_keeps(2,3) [OF assms(4)] by fastforce
  then show "get_effect (wi_job_id (claim_item (rq_claim q'))) (wi_idempotency_key (claim_item (rq_claim q'))) (es_repo t) \<noteq> None
    \<or> get_reconciliation (wi_job_id (claim_item (rq_claim q'))) (wi_idempotency_key (claim_item (rq_claim q'))) (es_repo t) \<noteq> None"
    using assms(5) by (simp add: get_effect_def get_reconciliation_def)
qed

text \<open>C24. Recovery after a crash between the effect record and the checkpoint. The request is
  executed again on the bulk path, under the configuration of its item, with a claim whose
  owner holds a lease of the item that is live at the reading of the clock (a lease that has
  expired has to be claimed anew first), and the effect on record is the one it asks for.
  Then it is reported as recovered, the completing checkpoint is written, the item is
  finished, and the target is not called.\<close>

theorem crash_recovery_completes:
  assumes "repo_ok (es_repo s)" and "ctx_path ctx = BULK"
    and "wi_configuration (claim_item (rq_claim q)) = reference (ctx_configuration ctx)"
    and "dget (effects_map (es_repo s)) (item_key q) = Some rec" and "same_effect rec q"
    and "dget (items_map (es_repo s)) (item_key q) = Some i" and "owns owner (clock (es_clock s)) i"
    and "wi_lease_owner (claim_item (rq_claim q)) = Some owner"
  shows "\<exists>res s'. execute_effect clock A q ctx s = (Inr res, s') \<and> rv_status res = RC_RECOVERED
    \<and> rv_effect_record res = Some rec \<and> recorded q rec (es_repo s')
    \<and> lifecycle_of (es_repo s') (item_key q) = Finished \<and> es_adapter s' = es_adapter s"
proof -
  let ?r = "es_repo s" and ?now = "clock (es_clock s)"
  let ?job = "wi_job_id (claim_item (rq_claim q))" and ?ikey = "wi_idempotency_key (claim_item (rq_claim q))"
  let ?out = "''write_back_committed:'' @ ef_transaction_outcome rec"
  have key: "ef_job_id rec = ?job" "ef_idempotency_key rec = ?ikey"
    using assms(5) by (simp_all add: same_effect_def)
  have open_item: "\<not> completed_history (checkpoints_of (item_key q) ?r)"
    using owned_open [OF cell_item [OF assms(1,6)] assms(7)] by simp
  then have later: "completed_stage l < CS_COMPLETED" if "latest (?job, ?ikey) ?r = Some l" for l
    using that by (cases "completed_stage l") (auto simp: latest_Some completed_history_def less_checkpoint_stage_def)
  let ?n = "int (length (checkpoints_of (item_key q) ?r)) + 1"
  have "\<exists>cp r'. record_checkpoint (item_key q) i CS_COMPLETED ?out ?now None ?n ?r = (Inr cp, r')"
    by (rule record_checkpoint_outcomes [OF assms(1,6,7), of ?n CS_COMPLETED ?out None]) auto
  then obtain cp r' where cp: "checkpoint ?job ?ikey owner CS_COMPLETED ?out ?now None ?r = (Inr cp, r')"
    using checkpoint_later [OF assms(6,7) ok_history [OF assms(1)] later] by fastforce
  obtain rs where rs: "resume_state ?job ?ikey ?r = Inr rs" "rs_latest rs = latest (?job, ?ikey) ?r"
    using assms(6) by (simp add: resume_state_def require_item_def Let_def)
  let ?s' = "s\<lparr>es_clock := Suc (es_clock s), es_repo := r'\<rparr>"
  have "checkpoint_with_lease clock q rec s = (Inr cp, ?s')"
    using assms(8) cp by (simp add: checkpoint_with_lease_def bindM_def read_clock_def on_repo_def key)
  then have restore: "restore_checkpoint clock q rec s = (Inr cp, ?s')"
    using rs later by (auto simp: restore_checkpoint_def bindM_def key split: if_splits)
  let ?res = "\<lparr>rv_status = RC_RECOVERED, rv_effect_record = Some rec, rv_checkpoint = Some cp,
    rv_reconciliation = None, rv_reason_code = ''committed_effect_recovered''\<rparr>"
  have run: "execute_effect clock A q ctx s = (Inr ?res, ?s')"
    using assms(2-5) restore
    by (simp add: execute_effect_def Let_def bindM_def read_state_def get_effect_def assert_same_effect_def
        new_recovery_result_def RecoveryResult_post_def)
  have ok: "repo_ok r'" using repo_ok_checkpoint [OF assms(1), of ?job ?ikey owner CS_COMPLETED ?out ?now None] cp by simp
  have rec: "recorded q rec r'"
    using restore_completes [OF assms(1) restore] assms(4,5) key
    by (auto simp: recorded_def intro: completed_latest)
  then have "lifecycle_of r' (item_key q) = Finished"
    using cell_of [OF ok, of "item_key q"] by (cases "dget (items_map r') (item_key q)")
      (auto simp: cell_ok.simps lifecycle_of_def recorded_def completed_history_def)
  with run rec show ?thesis by auto
qed

section \<open>Witnesses\<close>

text \<open>An adapter that counts its calls and commits every shared request.\<close>

definition sample_adapter :: "nat effect_adapter" where
  "sample_adapter = \<lparr>
     adapter_shared = (\<lambda>q ctx n. (Inr \<lparr>ev_status = EV_COMMITTED, ev_record = Some sample_effect\<rparr>, Suc n)),
     adapter_verify = (\<lambda>k d ctx n. (Inr \<lparr>ev_status = EV_ABSENT, ev_record = None\<rparr>, Suc n)),
     adapter_non_shared = (\<lambda>e d ctx n. (Inr \<lparr>ea_status = AT_COMMITTED, ea_affected_rows = 1,
        ea_transaction_outcome = ''committed'', ea_adapter_version = ''1''\<rparr>, Suc n))\<rparr>"

definition sample_request :: effect_request where
  "sample_request = \<lparr>rq_claim = \<lparr>claim_status = ACQUIRED, claim_item = sample_leased, claim_latest = None\<rparr>,
     rq_effect = \<lparr>effect_id = ''k'', ef_operation = OperationNode OP_UPDATE [] None, ef_parameters = []\<rparr>,
     rq_target_dataset = ''d'', rq_row_scope_digest = ''s'', rq_mutation_digest = ''m'', rq_boundary = SHARED\<rparr>"

definition sample_clock :: "nat \<Rightarrow> datetime" where
  "sample_clock n = Aware (6 + int n)"

definition sample_effect_start :: "nat effect_state" where
  "sample_effect_start = \<lparr>es_repo = sample_claimed, es_adapter = 0, es_clock = 0\<rparr>"

definition sample_effect_end :: "nat effect_state" where
  "sample_effect_end = snd (execute_effect sample_clock sample_adapter sample_request sample_context sample_effect_start)"

definition sample_result :: recovery_result where
  "sample_result = \<lparr>rv_status = RC_COMMITTED, rv_effect_record = Some sample_effect,
     rv_checkpoint = Some (new_checkpoint sample_leased CS_COMPLETED ''write_back_committed:committed''
       (Aware 6) None 1),
     rv_reconciliation = None, rv_reason_code = ''transaction_committed''\<rparr>"

lemma sample_execution:
  "execute_effect sample_clock sample_adapter sample_request sample_context sample_effect_start
     = (Inr sample_result, sample_effect_end)"
proof -
  have "fst (execute_effect sample_clock sample_adapter sample_request sample_context sample_effect_start)
      = Inr sample_result"
    by code_simp
  then show ?thesis by (simp add: sample_effect_end_def prod_eq_iff)
qed

lemma sample_effect_start_ok: "repo_ok (es_repo sample_effect_start)"
  by (simp add: sample_effect_start_def repo_reachable_ok sample_claimed_reachable)

lemma effect_outcome_recorded_witness:
  "\<exists>rec. recorded sample_request rec (es_repo sample_effect_end)"
  using effect_outcome_recorded [OF sample_effect_start_ok sample_execution]
  by (auto simp: sample_result_def)

lemma effect_never_replayed_witness:
  "es_adapter (snd (execute_effect sample_clock sample_adapter sample_request sample_context sample_effect_end)) = 1"
proof -
  have "rv_status sample_result \<noteq> RC_WRITE_BACK_FAILED" by (simp add: sample_result_def)
  moreover have "es_adapter sample_effect_end = 1" by code_simp
  ultimately show ?thesis
    using effect_never_replayed [OF sample_effect_start_ok sample_execution _ repo_future.now,
      where q' = sample_request and ctx' = sample_context and B = sample_adapter]
    by simp
qed

lemma crash_recovery_completes_witness:
  "\<exists>s' :: nat effect_state. lifecycle_of (es_repo s') (''j'', ''k'') = Finished \<and> es_adapter s' = 0"
proof -
  let ?s = "\<lparr>es_repo = sample_effected, es_adapter = 0 :: nat, es_clock = 0\<rparr>"
  have "repo_reachable sample_effected"
    unfolding sample_effected_def by (intro repo_reachable.step sample_claimed_reachable) simp
  then have ok: "repo_ok (es_repo ?s)" by (simp add: repo_reachable_ok)
  have key: "item_key sample_request = (''j'', ''k'')"
    by (simp add: sample_request_def claimed_item_def sample_item_def)
  have "dget (effects_map (es_repo ?s)) (item_key sample_request) = Some sample_effect"
    using sample_effected_effect unfolding key by (simp add: get_effect_def)
  moreover have "dget (items_map (es_repo ?s)) (item_key sample_request) = Some sample_leased"
    using sample_claimed_item unfolding key by (simp add: sample_effected_def records_frame)
  moreover have "owns ''w1'' (sample_clock (es_clock ?s)) sample_leased"
    by (simp add: owns_def live_lease_def expiry_after_def claimed_item_def sample_clock_def)
  moreover have "same_effect sample_effect sample_request" "ctx_path sample_context = BULK"
    "wi_configuration (claim_item (rq_claim sample_request)) = reference (ctx_configuration sample_context)"
    "wi_lease_owner (claim_item (rq_claim sample_request)) = Some ''w1''"
    by (simp_all add: same_effect_def sample_effect_def sample_request_def sample_context_def
        claimed_item_def sample_item_def)
  ultimately show ?thesis
    using crash_recovery_completes [OF ok, of sample_context sample_request sample_effect sample_leased
        "''w1''" sample_clock sample_adapter] key by auto
qed

end
