(* ===== verification/Bulk_Transport.thy ===== *)
theory Bulk_Transport
  imports Bulk_Models "HOL-Library.Multiset" "HOL-Library.Sublist"
begin

text \<open>
  The other in-memory adapters of \<open>bulk/memory.py\<close>: the content-addressed object store,
  the at-least-once notification broker and the dead-letter queue. The digest of the
  object store, \<open>sha256(...).hexdigest()\<close>, is a parameter.
\<close>

section \<open>Object store\<close>

type_synonym object_store = "(string, string) dict"

definition memory_prefix :: string where
  "memory_prefix = ''memory://''"

definition object_key :: "(string \<Rightarrow> string) \<Rightarrow> artifact_kind \<Rightarrow> string \<Rightarrow> string" where
  "object_key digest kind data = memory_prefix @ artifact_value kind @ ''/'' @ digest data"

text \<open>\<open>dict.setdefault\<close> keeps an object that is already there.\<close>

definition put_object ::
    "(string \<Rightarrow> string) \<Rightarrow> artifact_kind \<Rightarrow> string \<Rightarrow> (object_store, object_reference) meth" where
  "put_object digest kind data st =
     (let ref = object_key digest kind data;
          st' = (if dget st ref = None then dset ref data st else st) in
      (ObjectReference_post \<lparr>obj_reference = ref, content_hash = digest data, obj_kind = kind,
         size_bytes = int (length data)\<rparr>, st'))"

definition put_payload :: "(string \<Rightarrow> string) \<Rightarrow> string \<Rightarrow> (object_store, object_reference) meth" where
  "put_payload digest = put_object digest PAYLOAD"

definition put_result :: "(string \<Rightarrow> string) \<Rightarrow> string \<Rightarrow> (object_store, object_reference) meth" where
  "put_result digest = put_object digest RESULT"

definition get_object :: "(string \<Rightarrow> string) \<Rightarrow> object_reference \<Rightarrow> object_store \<Rightarrow> string res" where
  "get_object digest ref st =
     (case dget st (obj_reference ref) of
        None \<Rightarrow> Inl (KeyError (''unknown object reference: '' @ obj_reference ref))
      | Some data \<Rightarrow>
         if digest data \<noteq> content_hash ref
         then Inl (ValueError ''stored object does not match its content hash'')
         else Inr data)"

definition artifact_kind_of :: "string \<Rightarrow> artifact_kind res" where
  "artifact_kind_of name =
     (if name = ''payload'' then Inr PAYLOAD
      else if name = ''result'' then Inr RESULT
      else Inl (ValueError (CHR 0x27 # name @ CHR 0x27 # '' is not a valid ArtifactKind'')))"

text \<open>\<open>reference[len(prefix):].split("/", 1)[0]\<close>: the text before the first slash.\<close>

definition resolve_object :: "(string \<Rightarrow> string) \<Rightarrow> string \<Rightarrow> object_store \<Rightarrow> object_reference res" where
  "resolve_object digest ref st =
     (case dget st ref of
        None \<Rightarrow> Inl (KeyError (''unknown object reference: '' @ ref))
      | Some data \<Rightarrow>
         if \<not> prefix memory_prefix ref then Inl (ValueError ''unsupported object reference'')
         else bindR (artifact_kind_of (takeWhile (\<lambda>c. c \<noteq> CHR ''/'') (drop (length memory_prefix) ref)))
                (\<lambda>kind. ObjectReference_post \<lparr>obj_reference = ref, content_hash = digest data,
                   obj_kind = kind, size_bytes = int (length data)\<rparr>))"

section \<open>Broker\<close>

text \<open>\<open>delivery_name n\<close> is what the \<open>n\<close>-th call of the injected identifier returns.\<close>

record broker =
  queued :: "work_notification list"
  inflight :: "(string, work_notification) dict"
  delivery_name :: "nat \<Rightarrow> string"
  delivery_calls :: nat

definition broker_init :: "(nat \<Rightarrow> string) \<Rightarrow> broker" where
  "broker_init names = \<lparr>queued = [], inflight = [], delivery_name = names, delivery_calls = 0\<rparr>"

definition publish :: "work_notification \<Rightarrow> broker \<Rightarrow> broker" where
  "publish n b = b\<lparr>queued := queued b @ [n]\<rparr>"

text \<open>The notification is popped before its delivery identifier is checked.\<close>

definition receive :: "(broker, broker_delivery option) meth" where
  "receive b =
     (case queued b of
        [] \<Rightarrow> (Inr None, b)
      | n # ns \<Rightarrow>
         (let did = delivery_name b (delivery_calls b);
              b' = b\<lparr>queued := ns, delivery_calls := Suc (delivery_calls b)\<rparr> in
          if blank did \<or> dget (inflight b') did \<noteq> None
          then (Inl (ValueError ''broker delivery identifiers must be unique and non-blank''), b')
          else
            (let b'' = b'\<lparr>inflight := dset did n (inflight b')\<rparr> in
             (bindR (BrokerDelivery_post \<lparr>delivery_id = did, bd_notification = n\<rparr>) (\<lambda>d. Inr (Some d)), b''))))"

definition acknowledge :: "string \<Rightarrow> broker \<Rightarrow> bool \<times> broker" where
  "acknowledge did b = (dget (inflight b) did \<noteq> None, b\<lparr>inflight := dpop did (inflight b)\<rparr>)"

definition redeliver_unacknowledged :: "broker \<Rightarrow> nat \<times> broker" where
  "redeliver_unacknowledged b =
     (length (dvalues (inflight b)), b\<lparr>inflight := [], queued := dvalues (inflight b) @ queued b\<rparr>)"

definition unacknowledged_count :: "broker \<Rightarrow> nat" where
  "unacknowledged_count b = length (inflight b)"

section \<open>Dead-letter queue\<close>

record dead_letter_queue =
  fail_item_ids :: "string set"
  dlq_entries :: "(string \<times> string, dead_letter_entry) dict"

definition dlq_persist :: "dead_letter_entry \<Rightarrow> (dead_letter_queue, dead_letter_entry) meth" where
  "dlq_persist e q =
     (if dl_item_id e \<in> fail_item_ids q
      then (Inl (DeadLetterPersistenceError (''dead-letter persistence failed for '' @ dl_item_id e)), q)
      else
        (let k = (dl_job_id e, dl_idempotency_key e) in
         case dget (dlq_entries q) k of
           Some existing \<Rightarrow>
             if existing \<noteq> e then (Inl (WorkConflictError ''dead-letter evidence is immutable''), q)
             else (Inr existing, q)
         | None \<Rightarrow> (Inr e, q\<lparr>dlq_entries := dset k e (dlq_entries q)\<rparr>)))"

definition dlq_job_entries :: "string \<Rightarrow> dead_letter_queue \<Rightarrow> dead_letter_entry list" where
  "dlq_job_entries job q =
     sort_key dl_item_id (filter (\<lambda>e. dl_job_id e = job) (dvalues (dlq_entries q)))"

section \<open>Content addressing\<close>

text \<open>A store that keeps what is put: the interface the coordinator, the executor and the
  write-back component use. \<open>good\<close> describes the data whose digests do not collide.\<close>

locale content_store =
  fixes put :: "'d \<Rightarrow> 's \<Rightarrow> 'r res \<times> 's"
    and get :: "'r \<Rightarrow> 's \<Rightarrow> 'd res"
    and good :: "'d \<Rightarrow> bool"
    and consistent :: "'s \<Rightarrow> bool"
  assumes put_get: "consistent s \<Longrightarrow> good d \<Longrightarrow> \<exists>ref s'. put d s = (Inr ref, s') \<and> consistent s' \<and> get ref s' = Inr d"
    and put_keeps: "consistent s \<Longrightarrow> good d \<Longrightarrow> put d s = (Inr ref, s') \<Longrightarrow> get ref0 s = Inr d0 \<Longrightarrow>
      get ref0 s' = Inr d0"
begin

fun put_all :: "'d list \<Rightarrow> 's \<Rightarrow> 'r list \<times> 's" where
  "put_all [] s = ([], s)"
| "put_all (d # ds) s =
     (case put d s of
        (Inl e, s') \<Rightarrow> put_all ds s'
      | (Inr ref, s') \<Rightarrow> (case put_all ds s' of (refs, s'') \<Rightarrow> (ref # refs, s'')))"

lemma put_all_consistent:
  "consistent s \<Longrightarrow> list_all good ds \<Longrightarrow> put_all ds s = (refs, s') \<Longrightarrow>
     consistent s' \<and> (\<forall>ref d. get ref s = Inr d \<longrightarrow> get ref s' = Inr d)"
proof (induction ds arbitrary: s refs)
  case (Cons d ds)
  obtain ref s1 where put: "put d s = (Inr ref, s1)" "consistent s1"
    using put_get [OF Cons.prems(1), of d] Cons.prems(2) by auto
  obtain refs' where rest: "put_all ds s1 = (refs', s')"
    using Cons.prems(3) put by (auto split: prod.splits)
  then have "consistent s' \<and> (\<forall>ref d. get ref s1 = Inr d \<longrightarrow> get ref s' = Inr d)"
    using Cons.IH put(2) Cons.prems(2) by simp
  then show ?case using put_keeps [OF Cons.prems(1) _ put(1)] Cons.prems(2) by auto
qed simp

lemma put_all_get:
  assumes "consistent s" "list_all good ds" "put_all ds s = (refs, s')"
  shows "map (\<lambda>ref. get ref s') refs = map Inr ds"
  using assms
proof (induction ds arbitrary: s refs)
  case (Cons d ds)
  obtain ref s1 where put: "put d s = (Inr ref, s1)" "consistent s1" "get ref s1 = Inr d"
    using put_get [OF Cons.prems(1), of d] Cons.prems(2) by auto
  obtain refs' where rest: "put_all ds s1 = (refs', s')" "refs = ref # refs'"
    using Cons.prems(3) put by (auto split: prod.splits)
  have "get ref s' = Inr d"
    using put_all_consistent [OF put(2) _ rest(1)] put(3) Cons.prems(2) by simp
  then show ?case using Cons.IH [OF put(2) _ rest(1)] rest(2) Cons.prems(2) by simp
qed simp

end

text \<open>Every stored object is under its own key, and comes from the collision-free set.\<close>

definition store_ok :: "(string \<Rightarrow> string) \<Rightarrow> (string \<Rightarrow> bool) \<Rightarrow> object_store \<Rightarrow> bool" where
  "store_ok digest good st = (\<forall>ref data. dget st ref = Some data \<longrightarrow>
     good data \<and> (\<exists>kind. ref = object_key digest kind data))"

text \<open>What the store relies on: digests are not blank, and no two of the data collide.\<close>

definition digest_ok :: "(string \<Rightarrow> string) \<Rightarrow> (string \<Rightarrow> bool) \<Rightarrow> bool" where
  "digest_ok digest good \<longleftrightarrow> (\<forall>d. \<not> blank (digest d)) \<and>
     (\<forall>d d'. good d \<longrightarrow> good d' \<longrightarrow> digest d = digest d' \<longrightarrow> d = d')"

definition stored_reference :: "(string \<Rightarrow> string) \<Rightarrow> artifact_kind \<Rightarrow> string \<Rightarrow> object_reference" where
  "stored_reference digest kind data = \<lparr>obj_reference = object_key digest kind data,
     content_hash = digest data, obj_kind = kind, size_bytes = int (length data)\<rparr>"

lemma kind_of_value [simp]: "artifact_kind_of (artifact_value k) = Inr k"
  by (cases k) (simp_all add: artifact_kind_of_def)

lemma value_no_slash: "takeWhile (\<lambda>c. c \<noteq> CHR ''/'') (artifact_value k @ CHR ''/'' # s) = artifact_value k"
  by (cases k) simp_all

lemma kind_of_key: "takeWhile (\<lambda>c. c \<noteq> CHR ''/'') (drop (length memory_prefix) (object_key digest k d))
    = artifact_value k"
  by (simp add: object_key_def value_no_slash)

lemma object_key_inject:
  "object_key digest k d = object_key digest k' d' \<Longrightarrow> k = k' \<and> digest d = digest d'"
  by (cases k; cases k') (simp_all add: object_key_def)

lemma put_object_run:
  assumes "digest_ok digest good"
  shows "put_object digest kind data st = (Inr (stored_reference digest kind data),
    if dget st (object_key digest kind data) = None then dset (object_key digest kind data) data st else st)"
  using assms
  by (cases kind) (auto simp: put_object_def ObjectReference_post_def stored_reference_def object_key_def
      memory_prefix_def digest_ok_def Let_def)

lemma stored_data:
  assumes "digest_ok digest good" "store_ok digest good st" "good data"
    and "dget st (object_key digest kind data) = Some x"
  shows "x = data"
proof -
  obtain kind' where "good x" "object_key digest kind data = object_key digest kind' x"
    using assms(2,4) by (auto simp: store_ok_def)
  then have "digest data = digest x" using object_key_inject by blast
  with assms(1,3) \<open>good x\<close> show ?thesis by (auto simp: digest_ok_def)
qed

lemma put_object_stored:
  assumes "digest_ok digest good" "store_ok digest good st" "good data"
    and "put_object digest kind data st = (x, st')"
  shows "x = Inr (stored_reference digest kind data) \<and> store_ok digest good st'
    \<and> dget st' (object_key digest kind data) = Some data
    \<and> (\<forall>ref d. dget st ref = Some d \<longrightarrow> dget st' ref = Some d)"
proof (cases "dget st (object_key digest kind data)")
  case None
  then show ?thesis
    using assms(2-4) put_object_run [OF assms(1), of kind data st]
    by (auto simp: store_ok_def split: if_splits)
next
  case (Some d)
  with stored_data [OF assms(1-3)] show ?thesis
    using assms(2-4) put_object_run [OF assms(1), of kind data st] by auto
qed

lemma get_object_stored: "get_object digest (stored_reference digest kind data) st =
    (case dget st (object_key digest kind data) of
       None \<Rightarrow> Inl (KeyError (''unknown object reference: '' @ object_key digest kind data))
     | Some d \<Rightarrow> if digest d \<noteq> digest data then Inl (ValueError ''stored object does not match its content hash'')
                 else Inr d)"
  by (simp add: get_object_def stored_reference_def split: option.split)

text \<open>The in-memory store is a content store, for payloads and for results.\<close>

interpretation memory_store: content_store "put_object digest kind" "get_object digest" good
    "\<lambda>st. digest_ok digest good \<and> store_ok digest good st" for digest kind good
proof
  fix s d assume ok: "digest_ok digest good \<and> store_ok digest good s" "good d"
  obtain x s' where run: "put_object digest kind d s = (x, s')" by fastforce
  with ok put_object_stored [of digest good s d kind x s']
  show "\<exists>ref s'. put_object digest kind d s = (Inr ref, s') \<and> (digest_ok digest good \<and> store_ok digest good s')
      \<and> get_object digest ref s' = Inr d"
    by (auto simp: get_object_stored)
next
  fix s d ref s' ref0 d0
  assume "digest_ok digest good \<and> store_ok digest good s" "good d"
    "put_object digest kind d s = (Inr ref, s')" "get_object digest ref0 s = Inr d0"
  with put_object_stored [of digest good s d kind "Inr ref" s'] show "get_object digest ref0 s' = Inr d0"
    by (auto simp: get_object_def split: option.splits if_splits)
qed

section \<open>Histories of the broker\<close>

text \<open>A history from a fresh broker with the notifications published, acknowledged and
  lost so far; a notification is lost when \<open>receive\<close> rejects the delivery identifier.\<close>

inductive broker_run ::
    "work_notification multiset \<Rightarrow> work_notification multiset \<Rightarrow> work_notification multiset \<Rightarrow> broker \<Rightarrow> bool"
where
  start: "broker_run {#} {#} {#} (broker_init names)"
| published: "broker_run pub ack lost b \<Longrightarrow> broker_run (add_mset n pub) ack lost (publish n b)"
| received: "broker_run pub ack lost b \<Longrightarrow> receive b = (Inr d, b') \<Longrightarrow> broker_run pub ack lost b'"
| dropped: "broker_run pub ack lost b \<Longrightarrow> receive b = (Inl e, b') \<Longrightarrow>
    broker_run pub ack (add_mset (hd (queued b)) lost) b'"
| acknowledged: "broker_run pub ack lost b \<Longrightarrow> acknowledge did b = (ok, b') \<Longrightarrow>
    broker_run pub (case dget (inflight b) did of None \<Rightarrow> ack | Some n \<Rightarrow> add_mset n ack) lost b'"
| redelivered: "broker_run pub ack lost b \<Longrightarrow> redeliver_unacknowledged b = (n, b') \<Longrightarrow>
    broker_run pub ack lost b'"

lemma receive_outcomes:
  obtains
    (empty) "queued b = []" "receive b = (Inr None, b)"
  | (rejected) n ns e where "queued b = n # ns"
      "blank (delivery_name b (delivery_calls b)) \<or> dget (inflight b) (delivery_name b (delivery_calls b)) \<noteq> None"
      "receive b = (Inl e, b\<lparr>queued := ns, delivery_calls := Suc (delivery_calls b)\<rparr>)"
  | (delivered) n ns where "queued b = n # ns" "\<not> blank (delivery_name b (delivery_calls b))"
      "dget (inflight b) (delivery_name b (delivery_calls b)) = None"
      "receive b = (Inr (Some \<lparr>delivery_id = delivery_name b (delivery_calls b), bd_notification = n\<rparr>),
         b\<lparr>queued := ns, delivery_calls := Suc (delivery_calls b),
           inflight := inflight b @ [(delivery_name b (delivery_calls b), n)]\<rparr>)"
  by (cases "queued b"; cases "blank (delivery_name b (delivery_calls b)) \<or>
        dget (inflight b) (delivery_name b (delivery_calls b)) \<noteq> None")
     (auto simp: receive_def Let_def BrokerDelivery_post_def dset_fresh)

lemma mset_dpop:
  assumes "distinct (dkeys d)"
  shows "mset (dvalues d) = mset (dvalues (dpop k d)) + (case dget d k of None \<Rightarrow> {#} | Some v \<Rightarrow> {#v#})"
  using assms
proof (induction d)
  case (Cons p d)
  show ?case
  proof (cases "fst p = k")
    case True
    with Cons.prems have "dpop k d = d" "dget d k = None"
      by (auto simp: map_of_eq_None_iff intro: delete_idem)
    with True show ?thesis by (cases p) simp
  qed (use Cons in \<open>cases p; auto\<close>)
qed simp

lemma broker_conserves:
  "broker_run pub ack lost b \<Longrightarrow>
     distinct (dkeys (inflight b)) \<and> pub = mset (queued b) + mset (dvalues (inflight b)) + ack + lost"
proof (induction rule: broker_run.induct)
  case (received pub ack lost b d b')
  then show ?case by (cases rule: receive_outcomes [of b]) (auto simp: map_of_eq_None_iff)
next
  case (dropped pub ack lost b e b')
  then show ?case by (cases rule: receive_outcomes [of b]) auto
next
  case (acknowledged pub ack lost b did ok b')
  then show ?case
    using mset_dpop [of "inflight b" did] by (auto simp: acknowledge_def split: option.splits)
qed (auto simp: broker_init_def publish_def redeliver_unacknowledged_def)

section \<open>Properties\<close>

text \<open>What is put into the object store is read back by its reference and by resolving
  the reference text, whatever else is put before or after, as long as digests are not
  blank and the stored data do not collide.\<close>

theorem object_store_roundtrip:
  assumes "digest_ok digest good" and "store_ok digest good st" and "good data" and "list_all good others"
    and "put_object digest kind data st = (x, st1)"
    and "memory_store.put_all digest kind' others st1 = (refs, st2)"
  shows "\<exists>ref. x = Inr ref \<and> get_object digest ref st2 = Inr data
    \<and> resolve_object digest (obj_reference ref) st2 = Inr ref
    \<and> map (\<lambda>r. get_object digest r st2) refs = map Inr others"
proof -
  have put: "x = Inr (stored_reference digest kind data)" "store_ok digest good st1"
      "dget st1 (object_key digest kind data) = Some data"
    using put_object_stored [OF assms(1-3,5)] by auto
  let ?ref = "stored_reference digest kind data"
  have "get_object digest ?ref st1 = Inr data"
    using put(3) by (simp add: get_object_stored)
  then have read: "get_object digest ?ref st2 = Inr data"
    using memory_store.put_all_consistent [OF _ assms(4,6)] assms(1) put(2) by blast
  then have stored: "dget st2 (object_key digest kind data) = Some data"
    by (simp add: get_object_stored split: option.splits if_splits)
  have "put_object digest kind data st2 = (Inr ?ref, st2)"
    using put_object_run [OF assms(1)] stored by simp
  then have "ObjectReference_post ?ref = Inr ?ref"
    by (simp add: put_object_def stored_reference_def Let_def)
  moreover have "prefix memory_prefix (object_key digest kind data)"
    by (simp add: object_key_def)
  ultimately have "resolve_object digest (obj_reference ?ref) st2 = Inr ?ref"
    using stored unfolding resolve_object_def
    by (simp add: stored_reference_def kind_of_key)
  moreover have "map (\<lambda>r. get_object digest r st2) refs = map Inr others"
    using memory_store.put_all_get [OF _ assms(4,6)] assms(1) put(2) by blast
  ultimately show ?thesis using put(1) read by blast
qed

text \<open>The broker neither invents nor duplicates notifications: in every history the
  published ones are exactly those queued, in flight, acknowledged, or lost to a rejected
  delivery identifier.\<close>

theorem broker_conservation:
  assumes "broker_run pub ack lost b"
  shows "pub = mset (queued b) + mset (dvalues (inflight b)) + ack + lost"
  using broker_conserves [OF assms] by simp

text \<open>At-least-once delivery: after a redelivery no notification is in flight, the
  unacknowledged ones come first in the order of their delivery, and every notification
  that was published and neither acknowledged nor lost is queued again.\<close>

theorem broker_redelivers:
  assumes "broker_run pub ack lost b" and "redeliver_unacknowledged b = (n, b')"
  shows "n = unacknowledged_count b \<and> unacknowledged_count b' = 0
    \<and> queued b' = dvalues (inflight b) @ queued b \<and> mset (queued b') = pub - ack - lost"
  using assms broker_conserves [OF assms(1)]
  by (auto simp: redeliver_unacknowledged_def unacknowledged_count_def)

text \<open>A rejected delivery identifier loses the notification: receiving pops the head of
  the queue before the identifier is checked, so after the error it is neither queued
  nor in flight.\<close>

theorem rejected_delivery_loses_notification:
  assumes "queued b = n # ns"
    and "blank (delivery_name b (delivery_calls b)) \<or> dget (inflight b) (delivery_name b (delivery_calls b)) \<noteq> None"
  shows "\<exists>e b'. receive b = (Inl e, b') \<and> queued b' = ns \<and> inflight b' = inflight b"
  by (rule receive_outcomes [of b]) (use assms in auto)

text \<open>Dead-letter evidence is written once: persisting keeps every earlier entry, an
  injected failure or a conflicting entry is an error that changes nothing, and after a
  success the entry is stored and persisting it again returns it unchanged.\<close>

theorem dead_letters_immutable:
  assumes "dlq_persist e q = (out, q')"
  shows "(\<forall>k x. dget (dlq_entries q) k = Some x \<longrightarrow> dget (dlq_entries q') k = Some x)
    \<and> (case out of
         Inl _ \<Rightarrow> q' = q \<and> (dl_item_id e \<in> fail_item_ids q \<or>
           (\<exists>x. dget (dlq_entries q) (dl_job_id e, dl_idempotency_key e) = Some x \<and> x \<noteq> e))
       | Inr x \<Rightarrow> x = e \<and> dget (dlq_entries q') (dl_job_id e, dl_idempotency_key e) = Some e
           \<and> dlq_persist e q' = (Inr e, q'))"
  using assms by (auto simp: dlq_persist_def Let_def split: if_splits option.splits)

section \<open>Witnesses\<close>

definition sample_digest :: "string \<Rightarrow> string" where
  "sample_digest d = CHR ''h'' # d"

lemma sample_digest_ok: "digest_ok sample_digest (\<lambda>_. True)"
  by (simp add: digest_ok_def sample_digest_def)

lemma object_store_roundtrip_witness:
  "\<exists>ref st2. put_object sample_digest RESULT ''abc'' [] = (Inr ref, st2) \<and>
     resolve_object sample_digest (obj_reference ref) st2 = Inr ref"
proof -
  obtain x st1 where run: "put_object sample_digest RESULT ''abc'' [] = (x, st1)" by fastforce
  have "store_ok sample_digest (\<lambda>_. True) []" by (simp add: store_ok_def)
  from object_store_roundtrip [OF sample_digest_ok this _ _ run, of "[]" PAYLOAD "[]" st1] run
  show ?thesis by auto
qed

definition sample_notification :: "string \<Rightarrow> work_notification" where
  "sample_notification e = \<lparr>wn_event_id = e, wn_job_id = ''j'', wn_item_id = ''i'', wn_idempotency_key = ''k'',
     wn_configuration_version = ''1'', wn_payload_reference = ''r'', wn_payload_hash = ''h'',
     aggregate_revision = 0\<rparr>"

text \<open>One notification in flight and one queued, with an identifier callable that always
  answers the same.\<close>

definition sample_broker :: broker where
  "sample_broker = \<lparr>queued = [sample_notification ''e2''], inflight = [(''d'', sample_notification ''e1'')],
     delivery_name = (\<lambda>_. ''d''), delivery_calls = 1\<rparr>"

lemma sample_broker_run:
  "broker_run {#sample_notification ''e1'', sample_notification ''e2''#} {#} {#} sample_broker"
proof -
  let ?b0 = "broker_init (\<lambda>_. ''d'')"
  have "broker_run {#sample_notification ''e1'', sample_notification ''e2''#} {#} {#}
      (publish (sample_notification ''e2'') (publish (sample_notification ''e1'') ?b0))"
    using broker_run.published [OF broker_run.published [OF broker_run.start]]
    by (simp add: add_mset_commute)
  moreover have "receive (publish (sample_notification ''e2'') (publish (sample_notification ''e1'') ?b0))
      = (Inr (Some \<lparr>delivery_id = ''d'', bd_notification = sample_notification ''e1''\<rparr>), sample_broker)"
    by (simp add: receive_def publish_def broker_init_def sample_broker_def BrokerDelivery_post_def Let_def)
  ultimately show ?thesis by (rule broker_run.received)
qed

lemma broker_conservation_witness:
  "{#sample_notification ''e1'', sample_notification ''e2''#} =
     mset (queued sample_broker) + mset (dvalues (inflight sample_broker)) + {#} + {#}"
  by (rule broker_conservation [OF sample_broker_run])

lemma broker_redelivers_witness:
  "queued (snd (redeliver_unacknowledged sample_broker)) = [sample_notification ''e1'', sample_notification ''e2'']"
proof -
  obtain n b' where run: "redeliver_unacknowledged sample_broker = (n, b')" by fastforce
  from broker_redelivers [OF sample_broker_run run] run show ?thesis
    by (simp add: sample_broker_def)
qed

lemma rejected_delivery_loses_notification_witness:
  "\<exists>e b'. receive sample_broker = (Inl e, b') \<and> queued b' = [] \<and> inflight b' = inflight sample_broker"
  by (rule rejected_delivery_loses_notification) (simp_all add: sample_broker_def)

definition sample_letter :: dead_letter_entry where
  "sample_letter = \<lparr>dl_job_id = ''j'', dl_item_id = ''i'', dl_idempotency_key = ''k'',
     dl_failure_code = ''boom'', dl_failure_details = None, dl_attempt_count = 1,
     dl_configuration = \<lparr>profile_id = ''p'', version = ''1''\<rparr>, dl_result_reference = None,
     dl_persisted_at = Aware 0\<rparr>"

lemma dead_letters_immutable_witness:
  "\<exists>q'. dlq_persist sample_letter \<lparr>fail_item_ids = {}, dlq_entries = []\<rparr> = (Inr sample_letter, q')
     \<and> dlq_persist sample_letter q' = (Inr sample_letter, q')"
proof -
  obtain q' where run: "dlq_persist sample_letter \<lparr>fail_item_ids = {}, dlq_entries = []\<rparr> = (Inr sample_letter, q')"
    by (simp add: dlq_persist_def Let_def)
  from dead_letters_immutable [OF this] run show ?thesis by simp
qed

end
