(* ===== verification/Bulk_Execution.thy ===== *)
theory Bulk_Execution
  imports Bulk_Lifecycle Bulk_Transport
begin

text \<open>
  \<open>bulk/execution.py\<close>: the classification of a finished job, the terminal report, and
  \<open>BulkWorkExecutor\<close>, which runs one claimed item, persists its terminal outcome before the
  dead-letter evidence and emits telemetry. The item handler and the telemetry sink are
  code outside the repository: functions on states of any type that may raise.
\<close>

section \<open>Classification and report\<close>

definition classify_terminal_job ::
    "terminal_work_item_state list \<Rightarrow> job_terminal_cause \<Rightarrow> terminal_job_classification res" where
  "classify_terminal_job states cause =
     (if states = [] then Inl (ValueError ''a terminal job must contain at least one work item'')
      else
        (let succeeded = length (filter (\<lambda>s. s = TS_SUCCEEDED) states) in
         if succeeded = length states then Inr TJ_SUCCEEDED
         else if succeeded \<noteq> 0 then Inr TJ_PARTIALLY_SUCCEEDED
         else if cause = CAUSE_BUDGET_EXHAUSTED then Inr TJ_BUDGET_EXHAUSTED
         else if cause = CAUSE_CANCELLED then Inr TJ_CANCELLED
         else Inr TJ_FAILED))"

definition state_group :: "terminal_record list \<Rightarrow> terminal_work_item_state \<Rightarrow> terminal_state_group res" where
  "state_group items s =
     (let identifiers = sort (map tr_item_id (filter (\<lambda>t. tr_state t = s) items)) in
      TerminalStateGroup_post \<lparr>tg_state = s, tg_count = int (length identifiers), tg_item_ids = identifiers\<rparr>)"

fun state_groups :: "terminal_record list \<Rightarrow> terminal_work_item_state list \<Rightarrow> terminal_state_group list res" where
  "state_groups items [] = Inr []"
| "state_groups items (s # ss) =
     bindR (state_group items s) (\<lambda>g. bindR (state_groups items ss) (\<lambda>gs. Inr (g # gs)))"

definition build_terminal_report ::
    "string \<Rightarrow> terminal_record list \<Rightarrow> job_terminal_cause \<Rightarrow> datetime \<Rightarrow> terminal_job_report res" where
  "build_terminal_report job items cause completed =
     (if items = [] then Inl (ValueError ''a terminal job must contain at least one work item'')
      else if list_ex (\<lambda>t. tr_job_id t \<noteq> job) items
      then Inl (ValueError ''terminal report items must belong to one job'')
      else if \<not> distinct (map tr_item_id items)
      then Inl (ValueError ''terminal report item identifiers must be unique'')
      else bindR (state_groups items terminal_states) (\<lambda>groups.
           bindR (classify_terminal_job (map tr_state items) cause) (\<lambda>c.
             TerminalJobReport_post \<lparr>tj_job_id = job, tj_classification = c, tj_groups = groups,
               tj_total_count = int (length items), tj_terminal_cause = cause,
               tj_completed_at = completed\<rparr>)))"

section \<open>The executor\<close>

record 't executor_state =
  xs_repo :: work_repository
  xs_objects :: object_store
  xs_dlq :: dead_letter_queue
  xs_sink :: 't
  xs_clock :: nat
  xs_usage :: "(string, int \<times> int) dict"

text \<open>The injected collaborators: the clock, the time the executor was created, the digest
  of the object store, and the telemetry sink.\<close>

record 't executor_env =
  xe_clock :: "nat \<Rightarrow> datetime"
  xe_started_at :: datetime
  xe_digest :: "string \<Rightarrow> string"
  xe_emit :: "bulk_state_telemetry \<Rightarrow> ('t, unit) meth"

definition tick :: "'t executor_env \<Rightarrow> ('t executor_state, datetime) meth" where
  "tick env = (\<lambda>s. (Inr (xe_clock env (xs_clock s)), s\<lparr>xs_clock := Suc (xs_clock s)\<rparr>))"

definition usage_of :: "string \<Rightarrow> 't executor_state \<Rightarrow> int \<times> int" where
  "usage_of job s = (case dget (xs_usage s) job of None \<Rightarrow> (0, 0) | Some u \<Rightarrow> u)"

text \<open>\<open>max(int((now - started_at).total_seconds() * 1000), 0)\<close>, in exact arithmetic.\<close>

fun elapsed_milliseconds :: "datetime \<Rightarrow> datetime \<Rightarrow> int res" where
  "elapsed_milliseconds (Aware a) (Aware b) = Inr (max ((a - b) div 1000) 0)"
| "elapsed_milliseconds (Naive a) (Naive b) = Inr (max ((a - b) div 1000) 0)"
| "elapsed_milliseconds _ _ = Inl (TypeError ''can't subtract offset-naive and offset-aware datetimes'')"

definition job_telemetry :: "string \<Rightarrow> int \<Rightarrow> 't executor_state \<Rightarrow> bulk_state_telemetry" where
  "job_telemetry job elapsed s =
     (let items = terminal_items job (xs_repo s) in
      \<lparr>bst_job_id = job,
       counts_by_state = map (\<lambda>st. (st, int (length (filter (\<lambda>t. tr_state t = st) items)))) terminal_states,
       retry_count = sum_list (map (\<lambda>t. max (tr_attempt_count t - 1) 0) items),
       validation_failure_count = int (length (filter (\<lambda>t. tr_state t = TS_VALIDATION_FAILED) items)),
       dead_letter_count = int (length (dlq_job_entries job (xs_dlq s))),
       token_usage = fst (usage_of job s), monetary_cost_minor_units = snd (usage_of job s),
       elapsed_ms = elapsed,
       persistence_failure_count = int (length (persistence_failures job (xs_repo s)))\<rparr>)"

definition emit_state :: "'t executor_env \<Rightarrow> string \<Rightarrow> ('t executor_state, unit) meth" where
  "emit_state env job =
     bindM (tick env) (\<lambda>now s.
       (case bindR (elapsed_milliseconds now (xe_started_at env)) (\<lambda>e.
               BulkStateTelemetry_post (job_telemetry job e s)) of
          Inl e \<Rightarrow> (Inl e, s)
        | Inr t \<Rightarrow> (case xe_emit env t (xs_sink s) of (x, sink) \<Rightarrow> (x, s\<lparr>xs_sink := sink\<rparr>))))"

definition persist_dead_letter :: "'t executor_env \<Rightarrow> terminal_record \<Rightarrow> ('t executor_state, unit) meth" where
  "persist_dead_letter env t =
     bindM (liftR (DeadLetterEntry_post \<lparr>dl_job_id = tr_job_id t, dl_item_id = tr_item_id t,
              dl_idempotency_key = tr_idempotency_key t,
              dl_failure_code = (case tr_failure_code t of None \<Rightarrow> ''retry_exhausted''
                                 | Some c \<Rightarrow> if c = [] then ''retry_exhausted'' else c),
              dl_failure_details = tr_failure_details t, dl_attempt_count = tr_attempt_count t,
              dl_configuration = tr_configuration t, dl_result_reference = tr_result_reference t,
              dl_persisted_at = tr_recorded_at t\<rparr>)) (\<lambda>entry s.
       (case dlq_persist entry (xs_dlq s) of
          (Inr _, q) \<Rightarrow> (Inr (), s\<lparr>xs_dlq := q\<rparr>)
        | (Inl error, q) \<Rightarrow>
            bindM (tick env) (\<lambda>now.
            bindM (liftR (PersistenceFailure_post \<lparr>pf_job_id = tr_job_id t, pf_item_id = tr_item_id t,
                     pf_operation = ''dead_letter_persist'',
                     pf_reason = exn_name error @ '': '' @ exn_text error, pf_recorded_at = now\<rparr>)) (\<lambda>p s'.
              (Inr (), s'\<lparr>xs_repo := record_persistence_failure p (xs_repo s')\<rparr>))) (s\<lparr>xs_dlq := q\<rparr>)))"

text \<open>The result of the handler; any exception becomes a retry-exhausted result.\<close>

definition handled :: "execution_result res \<Rightarrow> execution_result res" where
  "handled x = (case x of Inr r \<Rightarrow> Inr r
     | Inl e \<Rightarrow> ExecutionResult_post \<lparr>er_state = TS_RETRY_EXHAUSTED, er_failure_code = Some (exn_name e),
         er_failure_details = Some (exn_text e), er_result = None, er_token_usage = 0, er_cost = 0\<rparr>)"

definition store_result ::
    "'t executor_env \<Rightarrow> string option \<Rightarrow> ('t executor_state, object_reference option) meth" where
  "store_result env data =
     (case data of None \<Rightarrow> pureM None
      | Some d \<Rightarrow> (\<lambda>s. case put_result (xe_digest env) d (xs_objects s) of
          (x, objs) \<Rightarrow> (bindR x (\<lambda>ref. Inr (Some ref)), s\<lparr>xs_objects := objs\<rparr>)))"

definition add_usage :: "string \<Rightarrow> execution_result \<Rightarrow> ('t executor_state, unit) meth" where
  "add_usage job r = (\<lambda>s. (Inr (), s\<lparr>xs_usage := dset job
     (fst (usage_of job s) + er_token_usage r, snd (usage_of job s) + er_cost r) (xs_usage s)\<rparr>))"

definition execute_claim ::
    "'t executor_env \<Rightarrow> (work_item \<Rightarrow> execution_result res) \<Rightarrow> work_claim
     \<Rightarrow> ('t executor_state, terminal_record) meth" where
  "execute_claim env handler c =
     (let i = claim_item c in
      if \<not> acquired c \<or> wi_lease_owner i = None
      then raiseM (ValueError ''an acquired claim is required'')
      else
        bindM (tick env) (\<lambda>now.
        bindM (liftR (handled (handler i))) (\<lambda>result.
        bindM (store_result env (er_result result)) (\<lambda>ref.
        bindM (\<lambda>s. case terminalize (wi_job_id i) (wi_idempotency_key i) (the (wi_lease_owner i))
                   (er_state result) (er_failure_code result) (er_failure_details result) now ref (xs_repo s) of
                 (x, r) \<Rightarrow> (x, s\<lparr>xs_repo := r\<rparr>)) (\<lambda>terminal.
        bindM (add_usage (wi_job_id i) result) (\<lambda>_.
        bindM (if tr_state terminal = TS_RETRY_EXHAUSTED then persist_dead_letter env terminal else pureM ()) (\<lambda>_.
        bindM (emit_state env (wi_job_id i)) (\<lambda>_. pureM terminal))))))))"

definition terminal_report ::
    "'t executor_env \<Rightarrow> string \<Rightarrow> job_terminal_cause \<Rightarrow> ('t executor_state, terminal_job_report) meth" where
  "terminal_report env job cause s =
     (let durable = job_items job (xs_repo s); terminal = terminal_items job (xs_repo s) in
      if durable = [] then (Inl (ValueError ''unknown or empty bulk job''), s)
      else if length terminal \<noteq> length durable
      then (Inl (ValueError ''terminal report requires every work item to be terminal''), s)
      else bindM (tick env) (\<lambda>now.
           bindM (liftR (build_terminal_report job terminal cause now)) (\<lambda>report.
           bindM (emit_state env job) (\<lambda>_. pureM report))) s)"

section \<open>The report is a partition\<close>

lemma state_group_run:
  assumes "distinct (map tr_item_id items)" "list_all (\<lambda>t. \<not> blank (tr_item_id t)) items"
  shows "state_group items s = Inr \<lparr>tg_state = s,
      tg_count = int (length (filter (\<lambda>t. tr_state t = s) items)),
      tg_item_ids = sort (map tr_item_id (filter (\<lambda>t. tr_state t = s) items))\<rparr>"
  using assms
  by (auto simp: state_group_def TerminalStateGroup_post_def Let_def list_ex_iff list_all_iff
      distinct_map inj_on_def)

lemma state_groups_run:
  assumes "distinct (map tr_item_id items)" "list_all (\<lambda>t. \<not> blank (tr_item_id t)) items"
  shows "state_groups items ss = Inr (map (\<lambda>s. \<lparr>tg_state = s,
      tg_count = int (length (filter (\<lambda>t. tr_state t = s) items)),
      tg_item_ids = sort (map tr_item_id (filter (\<lambda>t. tr_state t = s) items))\<rparr>) ss)"
  by (induction ss) (simp_all add: state_group_run [OF assms])

text \<open>Splitting a list by the values of a function over a complete list of values.\<close>

lemma mset_split_values:
  assumes "distinct vs" "\<forall>x \<in> set xs. f x \<in> set vs"
  shows "mset (concat (map (\<lambda>v. filter (\<lambda>x. f x = v) xs) vs)) = mset xs"
  using assms
proof (induction vs arbitrary: xs)
  case (Cons v vs)
  let ?rest = "filter (\<lambda>x. f x \<noteq> v) xs"
  have same: "map (\<lambda>w. filter (\<lambda>x. f x = w) xs) vs = map (\<lambda>w. filter (\<lambda>x. f x = w) ?rest) vs"
    using Cons.prems(1) by (auto intro!: filter_cong)
  moreover have "mset (concat (map (\<lambda>w. filter (\<lambda>x. f x = w) ?rest) vs)) = mset ?rest"
    using Cons.prems by (intro Cons.IH) auto
  moreover have "mset (filter (\<lambda>x. f x = v) xs) + mset ?rest = mset xs"
    by (induction xs) auto
  ultimately show ?case by (simp only: list.map concat.simps mset_append same)
qed simp

lemma report_identifiers:
  assumes "\<And>x. state_of x \<in> set terminal_states"
  shows "mset (concat (map (\<lambda>s. sort (map tr_item_id (filter (\<lambda>t. state_of t = s) items))) terminal_states))
    = mset (map tr_item_id items)"
proof -
  have "mset (concat (map (\<lambda>s. sort (map tr_item_id (filter (\<lambda>t. state_of t = s) items))) ss))
      = image_mset tr_item_id (mset (concat (map (\<lambda>s. filter (\<lambda>t. state_of t = s) items) ss)))" for ss
    by (induction ss) simp_all
  then show ?thesis
    using mset_split_values [of terminal_states items state_of] terminal_states_complete assms by simp
qed

lemma classify_returns: "states \<noteq> [] \<Longrightarrow> \<exists>c. classify_terminal_job states cause = Inr c"
  by (auto simp: classify_terminal_job_def Let_def)

lemma report_builds:
  assumes "items \<noteq> []" and "\<not> blank job" and "list_all (\<lambda>t. tr_job_id t = job \<and> \<not> blank (tr_item_id t)) items"
    and "distinct (map tr_item_id items)"
  shows "\<exists>rep. build_terminal_report job items cause now = Inr rep
    \<and> map tg_state (tj_groups rep) = terminal_states
    \<and> (\<forall>g \<in> set (tj_groups rep). tg_item_ids g = sort (map tr_item_id (filter (\<lambda>t. tr_state t = tg_state g) items)))
    \<and> mset (concat (map tg_item_ids (tj_groups rep))) = mset (map tr_item_id items)
    \<and> classify_terminal_job (map tr_state items) cause = Inr (tj_classification rep)"
proof -
  let ?groups = "map (\<lambda>s. \<lparr>tg_state = s, tg_count = int (length (filter (\<lambda>t. tr_state t = s) items)),
      tg_item_ids = sort (map tr_item_id (filter (\<lambda>t. tr_state t = s) items))\<rparr>) terminal_states"
  have groups: "state_groups items terminal_states = Inr ?groups"
    using assms(3,4) by (intro state_groups_run) (auto simp: list_all_iff)
  obtain c where c: "classify_terminal_job (map tr_state items) cause = Inr c"
    using classify_returns [of "map tr_state items" cause] assms(1) by auto
  have ids: "mset (concat (map tg_item_ids ?groups)) = mset (map tr_item_id items)"
    using report_identifiers [of tr_state items] terminal_states_complete by (simp add: comp_def)
  have "length (concat (map tg_item_ids ?groups)) = length items"
    using mset_eq_length [OF ids] by (simp only: length_map)
  moreover have "distinct (concat (map tg_item_ids ?groups))"
    using mset_eq_imp_distinct_iff [OF ids] assms(4) by (simp only:)
  moreover have "\<not> list_ex (\<lambda>t. tr_job_id t \<noteq> job) items"
    using assms(3) by (auto simp: list_ex_iff list_all_iff)
  ultimately have "build_terminal_report job items cause now = Inr \<lparr>tj_job_id = job, tj_classification = c,
      tj_groups = ?groups, tj_total_count = int (length items), tj_terminal_cause = cause, tj_completed_at = now\<rparr>"
    using assms(1,2,4) groups c
    by (simp add: build_terminal_report_def TerminalJobReport_post_def Let_def comp_def)
  then show ?thesis using ids c by (auto simp: comp_def)
qed

section \<open>Terminal items of a consistent repository\<close>

lemma length_filter_dict:
  assumes "distinct (dkeys d)" "\<And>k v. dget d k = Some v \<Longrightarrow> P v \<longleftrightarrow> Q k"
  shows "length (filter P (dvalues d)) = card {k \<in> set (dkeys d). Q k}"
proof -
  have "length (filter P (dvalues d)) = length (filter (\<lambda>p. P (snd p)) d)"
    by (simp add: filter_map comp_def)
  also have "filter (\<lambda>p. P (snd p)) d = filter (\<lambda>p. Q (fst p)) d"
    using assms by (auto simp: map_of_eq_Some_iff intro!: filter_cong)
  also have "length \<dots> = length (filter Q (dkeys d))"
    by (simp add: filter_map comp_def)
  also have "\<dots> = card (set (filter Q (dkeys d)))"
    using assms(1) by (intro distinct_card [symmetric]) simp
  finally show ?thesis by simp
qed

lemma keys_iff: "k \<in> set (dkeys d) \<longleftrightarrow> dget d k \<noteq> None"
  by (metis domI domIff dom_map_of_conv_image_fst list.set_map)

lemma item_of_key: "repo_ok r \<Longrightarrow> dget (items_map r) k = Some i \<Longrightarrow> k = (wi_job_id i, wi_idempotency_key i)"
  using cell_item [of r k i] unfolding cell_ok.simps by blast

lemma terminal_of_key: "repo_ok r \<Longrightarrow> dget (terminal_map r) k = Some t \<Longrightarrow>
    \<exists>i. dget (items_map r) k = Some i \<and> belongs_terminal i t \<and> k = (tr_job_id t, tr_idempotency_key t)"
  using terminal_item [of r k t] item_of_key [of r k] by (fastforce simp: belongs_terminal_def)

lemma records_distinct: "repo_ok r \<Longrightarrow> distinct (dkeys (items_map r)) \<and> distinct (dkeys (terminal_map r))"
  by (simp add: repo_ok_def records_ok_def)

definition all_terminal :: "string \<Rightarrow> work_repository \<Rightarrow> bool" where
  "all_terminal job r \<longleftrightarrow> (\<forall>k \<in> set (dkeys (items_map r)). fst k = job \<longrightarrow> dget (terminal_map r) k \<noteq> None)"

lemma terminal_items_complete:
  assumes ok: "repo_ok r"
  shows "length (terminal_items job r) = length (job_items job r) \<longleftrightarrow> all_terminal job r"
proof -
  let ?I = "{k \<in> set (dkeys (items_map r)). fst k = job}"
  let ?T = "{k \<in> set (dkeys (terminal_map r)). fst k = job}"
  have items: "length (job_items job r) = card ?I"
    unfolding job_items_def length_sort
    by (rule length_filter_dict) (use records_distinct [OF ok] item_of_key [OF ok] in auto)
  have terms: "length (terminal_items job r) = card ?T"
    unfolding terminal_items_def length_sort
    by (rule length_filter_dict) (use records_distinct [OF ok] terminal_of_key [OF ok] in fastforce)+
  have sub: "?T \<subseteq> ?I"
  proof
    fix k assume "k \<in> ?T"
    then have "dget (terminal_map r) k \<noteq> None" and job: "fst k = job"
      unfolding mem_Collect_eq keys_iff by simp_all
    then obtain t where "dget (terminal_map r) k = Some t" by auto
    from terminal_of_key [OF ok this] have "dget (items_map r) k \<noteq> None" by auto
    with job show "k \<in> ?I" unfolding mem_Collect_eq keys_iff by simp
  qed
  have "card ?T = card ?I \<longleftrightarrow> ?I \<subseteq> ?T"
  proof
    assume "card ?T = card ?I"
    then have "?T = ?I" using sub by (intro card_subset_eq) auto
    then show "?I \<subseteq> ?T" by simp
  next
    assume "?I \<subseteq> ?T"
    with sub have "?T = ?I" by (rule equalityI)
    then show "card ?T = card ?I" by (rule arg_cong)
  qed
  also have "?I \<subseteq> ?T \<longleftrightarrow> all_terminal job r"
    unfolding all_terminal_def keys_iff [symmetric] by blast
  finally show ?thesis using items terms by simp
qed

lemma terminal_items_in:
  assumes ok: "repo_ok r" and t: "t \<in> set (terminal_items job r)"
  shows "\<exists>ikey i. dget (terminal_map r) (job, ikey) = Some t \<and> dget (items_map r) (job, ikey) = Some i
    \<and> belongs_terminal i t \<and> wi_job_id i = job \<and> \<not> blank (wi_item_id i) \<and> item_id_at r (job, ikey) = Some (tr_item_id t)"
proof -
  from t obtain k where k: "dget (terminal_map r) k = Some t" "tr_job_id t = job"
    using values_dget [of "terminal_map r" t] records_distinct [OF ok] by (auto simp: terminal_items_def)
  then obtain i where i: "dget (items_map r) k = Some i" "belongs_terminal i t" "k = (job, tr_idempotency_key t)"
    using terminal_of_key [OF ok] by blast
  moreover have "\<not> blank (wi_item_id i)"
    using cell_item [OF ok i(1)] by (auto simp: cell_ok.simps WorkItem_post_Inr)
  ultimately show ?thesis using k by (auto simp: item_id_at_def belongs_terminal_def)
qed

lemma item_ids_unique:
  "repo_ok r \<Longrightarrow> item_id_at r (job, k1) = Some x \<Longrightarrow> item_id_at r (job, k2) = Some x \<Longrightarrow> k1 = k2"
  unfolding repo_ok_def identities_ok_def by (metis option.inject)

lemma terminal_items_distinct:
  assumes ok: "repo_ok r" shows "distinct (map tr_item_id (terminal_items job r))"
proof -
  have "distinct (dvalues (terminal_map r))"
    unfolding distinct_map
  proof
    show "distinct (terminal_map r)" using records_distinct [OF ok] by (simp add: distinct_map)
    show "inj_on snd (set (terminal_map r))"
      using terminal_of_key [OF ok] records_distinct [OF ok]
      by (intro inj_onI) (metis map_of_eq_Some_iff prod.collapse prod.inject)
  qed
  then have "distinct (terminal_items job r)" by (simp add: terminal_items_def)
  moreover have "inj_on tr_item_id (set (terminal_items job r))"
  proof (rule inj_onI)
    fix t u assume t: "t \<in> set (terminal_items job r)" "u \<in> set (terminal_items job r)" "tr_item_id t = tr_item_id u"
    obtain k1 k2 where "dget (terminal_map r) (job, k1) = Some t" "item_id_at r (job, k1) = Some (tr_item_id t)"
      "dget (terminal_map r) (job, k2) = Some u" "item_id_at r (job, k2) = Some (tr_item_id u)"
      using terminal_items_in [OF ok t(1)] terminal_items_in [OF ok t(2)] by blast
    with t(3) item_ids_unique [OF ok] show "t = u" by (metis option.inject)
  qed
  ultimately show ?thesis by (simp add: distinct_map)
qed

section \<open>Properties\<close>

text \<open>The terminal report of a non-empty job is a partition of its items: whenever the
  items have one job, distinct identifiers and no blank ones, the report is built, has
  one group per terminal state in declaration order, each group lists the sorted
  identifiers of exactly the items in that state, and together they list every item once.\<close>

theorem terminal_report_partition:
  assumes "items \<noteq> []" and "\<not> blank job" and "list_all (\<lambda>t. tr_job_id t = job \<and> \<not> blank (tr_item_id t)) items"
    and "distinct (map tr_item_id items)"
  shows "\<exists>rep. build_terminal_report job items cause now = Inr rep
    \<and> map tg_state (tj_groups rep) = terminal_states
    \<and> (\<forall>g \<in> set (tj_groups rep). tg_item_ids g = sort (map tr_item_id (filter (\<lambda>t. tr_state t = tg_state g) items)))
    \<and> mset (concat (map tg_item_ids (tj_groups rep))) = mset (map tr_item_id items)
    \<and> classify_terminal_job (map tr_state items) cause = Inr (tj_classification rep)"
  by (rule report_builds [OF assms])

text \<open>The classification of a job: succeeded exactly if every item succeeded, partially
  succeeded exactly if some but not all did; only when none succeeded does the cause
  decide between budget-exhausted, cancelled and failed.\<close>

theorem classification_spec:
  assumes "states \<noteq> []"
  shows "classify_terminal_job states cause = Inr c \<longleftrightarrow>
    c = (if \<forall>s \<in> set states. s = TS_SUCCEEDED then TJ_SUCCEEDED
         else if TS_SUCCEEDED \<in> set states then TJ_PARTIALLY_SUCCEEDED
         else (case cause of CAUSE_BUDGET_EXHAUSTED \<Rightarrow> TJ_BUDGET_EXHAUSTED | CAUSE_CANCELLED \<Rightarrow> TJ_CANCELLED
               | CAUSE_COMPLETED \<Rightarrow> TJ_FAILED))"
proof -
  have "length (filter (\<lambda>s. s = TS_SUCCEEDED) states) = length states \<longleftrightarrow> (\<forall>s \<in> set states. s = TS_SUCCEEDED)"
    by (auto dest: length_filter_less [of _ states "\<lambda>s. s = TS_SUCCEEDED"])
  moreover have "filter (\<lambda>s. s = TS_SUCCEEDED) states \<noteq> [] \<longleftrightarrow> TS_SUCCEEDED \<in> set states"
    by (auto simp: filter_empty_conv)
  ultimately show ?thesis
    using assms by (cases cause) (auto simp: classify_terminal_job_def Let_def)
qed

text \<open>On a consistent repository a terminal report is possible exactly when every item of
  the job has a terminal outcome: otherwise asking for it raises and changes nothing, and
  when all have one, the report builds and lists every work item of the job once.\<close>

theorem terminal_report_complete:
  assumes "repo_ok (xs_repo s)" and "job_items job (xs_repo s) \<noteq> []" and "\<not> blank job"
  shows "if all_terminal job (xs_repo s)
    then \<exists>rep. build_terminal_report job (terminal_items job (xs_repo s)) cause now = Inr rep
      \<and> mset (concat (map tg_item_ids (tj_groups rep))) = mset (map tr_item_id (terminal_items job (xs_repo s)))
      \<and> tj_total_count rep = int (length (job_items job (xs_repo s)))
    else terminal_report env job cause s =
      (Inl (ValueError ''terminal report requires every work item to be terminal''), s)"
proof (cases "all_terminal job (xs_repo s)")
  case True
  let ?ts = "terminal_items job (xs_repo s)"
  have len: "length ?ts = length (job_items job (xs_repo s))"
    using terminal_items_complete [OF assms(1)] True by blast
  then have some: "?ts \<noteq> []" using assms(2) by auto
  have all: "list_all (\<lambda>t. tr_job_id t = job \<and> \<not> blank (tr_item_id t)) ?ts"
    using terminal_items_in [OF assms(1)] by (fastforce simp: list_all_iff belongs_terminal_def)
  obtain rep where rep: "build_terminal_report job ?ts cause now = Inr rep"
      "mset (concat (map tg_item_ids (tj_groups rep))) = mset (map tr_item_id ?ts)"
    using report_builds [OF some assms(3) all terminal_items_distinct [OF assms(1)], of cause now] by blast
  then have "tj_total_count rep = int (length ?ts)"
    by (auto simp: build_terminal_report_def TerminalJobReport_post_def bindR_Inr Let_def split: if_splits)
  with True rep len show ?thesis by auto
next
  case False
  then have "length (terminal_items job (xs_repo s)) \<noteq> length (job_items job (xs_repo s))"
    using terminal_items_complete [OF assms(1)] by blast
  with assms(2) False show ?thesis by (simp add: terminal_report_def)
qed

section \<open>Failure isolation\<close>

lemma terminalize_closes:
  assumes ok: "repo_ok r" and i: "dget (items_map r) (job, ikey) = Some i" "owns owner now i"
    and fresh: "dget (terminal_map r) (job, ikey) = None"
    and code: "st \<noteq> TS_SUCCEEDED" "\<not> missing_text code"
  shows "terminalize job ikey owner st code det now res r =
    (Inr (new_terminal i st code det now res),
     r\<lparr>terminal_map := dset (job, ikey) (new_terminal i st code det now res) (terminal_map r),
       items_map := dset (job, ikey)
         (released_item WS_COMPLETED (or_else res (wi_result_reference i)) i) (items_map r)\<rparr>)"
proof -
  have item: "WorkItem_post (released_item WS_COMPLETED rr i) = Inr (released_item WS_COMPLETED rr i)" for rr
    using cell_item [OF ok i(1)] by (auto simp: cell_ok.simps WorkItem_post_Inr released_item_def)
  have valid: "\<not> blank (wi_job_id i)" "\<not> blank (wi_item_id i)" "\<not> blank (wi_idempotency_key i)"
      "1 \<le> wi_attempt_count i"
    using cell_item [OF ok i(1)] owned_open [OF cell_item [OF ok i(1)] i(2)]
    by (auto simp: cell_ok.simps WorkItem_post_Inr)
  have "TerminalRecord_post (new_terminal i st code det now res) = Inr (new_terminal i st code det now res)"
    using valid owned_aware [OF ok i] code by (simp add: TerminalRecord_post_def new_terminal_def)
  moreover have "require_owned (job, ikey) owner now r = Inr i" using i by (simp add: require_owned_Inr)
  ultimately show ?thesis
    using item fresh by (simp add: terminalize_def Let_def new_terminal_def released_item_def)
qed

lemma terminalize_closed_post:
  assumes ok: "repo_ok r" and i: "dget (items_map r) (job, ikey) = Some i" "owns owner now i"
    and fresh: "dget (terminal_map r) (job, ikey) = None"
    and code: "st \<noteq> TS_SUCCEEDED" "\<not> missing_text code"
  shows "TerminalRecord_post (new_terminal i st code det now res) = Inr (new_terminal i st code det now res)"
  by (rule terminalize_outcomes [OF ok, of job ikey owner st code det now res])
     (use terminalize_closes [OF assms, of det res] i fresh in auto)

lemma emit_state_keeps:
  "xs_repo (snd (emit_state env job s)) = xs_repo s" "xs_dlq (snd (emit_state env job s)) = xs_dlq s"
  by (simp_all add: emit_state_def bindM_def tick_def split: sum.splits prod.splits)

lemma dlq_persist_cases:
  obtains (kept) q' where "dlq_persist e q = (Inr e, q')"
      "dget (dlq_entries q') (dl_job_id e, dl_idempotency_key e) = Some e"
    | (refused) m where "dlq_persist e q = (Inl (DeadLetterPersistenceError m), q)"
    | (conflict) m where "dlq_persist e q = (Inl (WorkConflictError m), q)"
proof (cases "dget (dlq_entries q) (dl_job_id e, dl_idempotency_key e)")
  case None
  then show thesis using kept [of "q\<lparr>dlq_entries := dset (dl_job_id e, dl_idempotency_key e) e (dlq_entries q)\<rparr>"] refused
    by (cases "dl_item_id e \<in> fail_item_ids q") (simp_all add: dlq_persist_def Let_def)
next
  case (Some l)
  then show thesis using kept [of q] refused conflict
    by (cases "dl_item_id e \<in> fail_item_ids q"; cases "l = e") (simp_all add: dlq_persist_def Let_def)
qed

text \<open>After \<open>persist_dead_letter\<close> the failure is evidence in the queue or a recorded
  persistence failure, and the outcomes of the repository are untouched.\<close>

lemma persist_dead_letter_kept:
  assumes "TerminalRecord_post t = Inr t" and "tr_failure_code t = Some code" and "\<not> blank code"
  shows "\<exists>s'. persist_dead_letter env t s = (Inr (), s')
    \<and> terminal_map (xs_repo s') = terminal_map (xs_repo s)
    \<and> ((\<exists>l. dget (dlq_entries (xs_dlq s')) (tr_job_id t, tr_idempotency_key t) = Some l \<and> dl_failure_code l = code)
       \<or> (\<exists>p \<in> set (failures_list (xs_repo s')). pf_job_id p = tr_job_id t \<and> pf_item_id p = tr_item_id t
            \<and> pf_operation p = ''dead_letter_persist''))"
proof -
  let ?e = "\<lparr>dl_job_id = tr_job_id t, dl_item_id = tr_item_id t, dl_idempotency_key = tr_idempotency_key t,
    dl_failure_code = code, dl_failure_details = tr_failure_details t, dl_attempt_count = tr_attempt_count t,
    dl_configuration = tr_configuration t, dl_result_reference = tr_result_reference t,
    dl_persisted_at = tr_recorded_at t\<rparr>"
  have "code \<noteq> []" using assms(3) by auto
  moreover have "DeadLetterEntry_post ?e = Inr ?e"
    using assms by (auto simp: TerminalRecord_post_def DeadLetterEntry_post_def split: if_splits)
  ultimately have run: "persist_dead_letter env t s = (case dlq_persist ?e (xs_dlq s) of
      (Inr _, q) \<Rightarrow> (Inr (), s\<lparr>xs_dlq := q\<rparr>)
    | (Inl error, q) \<Rightarrow> bindM (tick env) (\<lambda>now.
        bindM (liftR (PersistenceFailure_post \<lparr>pf_job_id = tr_job_id t, pf_item_id = tr_item_id t,
          pf_operation = ''dead_letter_persist'', pf_reason = exn_name error @ '': '' @ exn_text error,
          pf_recorded_at = now\<rparr>)) (\<lambda>p s'. (Inr (), s'\<lparr>xs_repo := record_persistence_failure p (xs_repo s')\<rparr>)))
        (s\<lparr>xs_dlq := q\<rparr>))"
    using assms(2) by (simp add: persist_dead_letter_def bindM_def liftR_def)
  have ids: "\<not> blank (tr_job_id t)" "\<not> blank (tr_item_id t)"
    using assms(1) by (auto simp: TerminalRecord_post_def split: if_splits)
  have failed: ?thesis if x: "dlq_persist ?e (xs_dlq s) = (Inl x, xs_dlq s)" "\<not> blank (exn_name x)" for x
  proof -
    let ?p = "\<lparr>pf_job_id = tr_job_id t, pf_item_id = tr_item_id t, pf_operation = ''dead_letter_persist'',
      pf_reason = exn_name x @ '': '' @ exn_text x, pf_recorded_at = xe_clock env (xs_clock s)\<rparr>"
    have "PersistenceFailure_post ?p = Inr ?p"
      using ids x(2) by (simp add: PersistenceFailure_post_def)
    then have "persist_dead_letter env t s = (Inr (), s\<lparr>xs_clock := Suc (xs_clock s),
        xs_repo := record_persistence_failure ?p (xs_repo s)\<rparr>)"
      using run x(1) by (simp add: bindM_def tick_def liftR_def)
    moreover have "?p \<in> set (failures_list (record_persistence_failure ?p (xs_repo s)))"
      by (simp add: record_persistence_failure_def)
    moreover have "terminal_map (record_persistence_failure ?p (xs_repo s)) = terminal_map (xs_repo s)"
      by (simp add: record_persistence_failure_def)
    ultimately show ?thesis
      by (intro exI conjI disjI2) (assumption | simp | (rule bexI [of _ ?p], simp, simp))+
  qed
  show ?thesis
  proof (cases rule: dlq_persist_cases [of ?e "xs_dlq s"])
    case (kept q')
    then show ?thesis using run by (intro exI [of _ "s\<lparr>xs_dlq := q'\<rparr>"]) simp
  next
    case (refused m)
    show ?thesis by (rule failed [OF refused]) simp
  next
    case (conflict m)
    show ?thesis by (rule failed [OF conflict]) simp
  qed
qed

text \<open>A result that is no success closes a validly claimed item; a retry-exhausted one leaves
  evidence.\<close>

definition evidence_kept :: "work_item \<Rightarrow> string \<Rightarrow> 't executor_state \<Rightarrow> bool" where
  "evidence_kept i code s \<longleftrightarrow>
     (\<exists>l. dget (dlq_entries (xs_dlq s)) (wi_job_id i, wi_idempotency_key i) = Some l \<and> dl_failure_code l = code)
     \<or> (\<exists>p \<in> set (failures_list (xs_repo s)). pf_job_id p = wi_job_id i \<and> pf_item_id p = wi_item_id i
          \<and> pf_operation p = ''dead_letter_persist'')"

lemma execute_claim_closes:
  assumes "repo_ok (xs_repo s)" and "acquired c" and "claim_item c = i" and "wi_lease_owner i = Some owner"
    and "dget (items_map (xs_repo s)) (wi_job_id i, wi_idempotency_key i) = Some i"
    and "owns owner (xe_clock env (xs_clock s)) i"
    and "dget (terminal_map (xs_repo s)) (wi_job_id i, wi_idempotency_key i) = None"
    and "handled (handler i) = Inr res" and "er_state res \<noteq> TS_SUCCEEDED" and "er_failure_code res = Some code" and "\<not> blank code"
    and "er_failure_details res = Some det" and "er_result res = None"
    and "execute_claim env handler c s = (out, s')"
  shows "\<exists>t. dget (terminal_map (xs_repo s')) (wi_job_id i, wi_idempotency_key i) = Some t
    \<and> tr_state t = er_state res \<and> tr_failure_code t = Some code \<and> tr_failure_details t = Some det
    \<and> (er_state res = TS_RETRY_EXHAUSTED \<longrightarrow> evidence_kept i code s') \<and> (\<forall>x. out = Inr x \<longrightarrow> x = t)"
proof -
  let ?now = "xe_clock env (xs_clock s)"
  let ?t = "new_terminal i (er_state res) (Some code) (Some det) ?now None"
  have code: "er_state res \<noteq> TS_SUCCEEDED" "\<not> missing_text (Some code)"
    using assms(9,11) by (auto simp: missing_text_def)
  note closes = terminalize_closes [OF assms(1,5,6,7) code, of "Some det" None]
  have post: "TerminalRecord_post ?t = Inr ?t"
    by (rule terminalize_closed_post [OF assms(1,5,6,7) code])
  define s3 where "s3 = snd (add_usage (wi_job_id i) res
    (s\<lparr>xs_clock := Suc (xs_clock s), xs_repo := snd (terminalize (wi_job_id i) (wi_idempotency_key i) owner
       (er_state res) (Some code) (Some det) ?now None (xs_repo s))\<rparr>))"
  define letter where "letter = (if er_state res = TS_RETRY_EXHAUSTED then persist_dead_letter env ?t else pureM ())"
  obtain s4 where s4: "letter s3 = (Inr (), s4)" "terminal_map (xs_repo s4) = terminal_map (xs_repo s3)"
      "er_state res = TS_RETRY_EXHAUSTED \<longrightarrow> evidence_kept i code s4"
    using persist_dead_letter_kept [OF post, of code env s3] assms(11)
    by (cases "er_state res = TS_RETRY_EXHAUSTED") (auto simp: letter_def evidence_kept_def new_terminal_def pureM_def)
  have "execute_claim env handler c s = bindM (emit_state env (wi_job_id i)) (\<lambda>_. pureM ?t) s4"
    using assms(2,3,4,8,10,12,13) s4(1) closes unfolding s3_def letter_def
    by (cases "er_state res = TS_RETRY_EXHAUSTED")
       (simp_all add: execute_claim_def Let_def bindM_def tick_def liftR_def store_result_def pureM_def add_usage_def
        new_terminal_def)
  then have s': "s' = snd (emit_state env (wi_job_id i) s4)" "\<forall>x. out = Inr x \<longrightarrow> x = ?t"
    using assms(14) by (auto simp: bindM_def pureM_def split: prod.splits sum.splits)
  have "dget (terminal_map (xs_repo s3)) (wi_job_id i, wi_idempotency_key i) = Some ?t"
    using closes by (simp add: s3_def add_usage_def)
  with s4 s' show ?thesis
    by (intro exI [of _ ?t]) (simp add: emit_state_keeps new_terminal_def evidence_kept_def)
qed

text \<open>C22. Failure isolation: when the handler of a validly claimed item raises, the item still
  gets its terminal outcome, retry-exhausted with the class name and the text of the
  exception, and its failure is kept either as a dead letter or as a recorded
  persistence failure, whatever the dead-letter queue and the telemetry sink do.\<close>

theorem handler_failure_isolated:
  assumes "repo_ok (xs_repo s)" and "acquired c" and "claim_item c = i" and "wi_lease_owner i = Some owner"
    and "dget (items_map (xs_repo s)) (wi_job_id i, wi_idempotency_key i) = Some i"
    and "owns owner (xe_clock env (xs_clock s)) i"
    and "dget (terminal_map (xs_repo s)) (wi_job_id i, wi_idempotency_key i) = None"
    and "handler i = Inl e" and "\<not> blank (exn_name e)"
  shows "\<exists>t. dget (terminal_map (xs_repo (snd (execute_claim env handler c s)))) (wi_job_id i, wi_idempotency_key i) = Some t
    \<and> tr_state t = TS_RETRY_EXHAUSTED \<and> tr_failure_code t = Some (exn_name e)
    \<and> tr_failure_details t = Some (exn_text e)
    \<and> ((\<exists>l. dget (dlq_entries (xs_dlq (snd (execute_claim env handler c s)))) (wi_job_id i, wi_idempotency_key i) = Some l
          \<and> dl_failure_code l = exn_name e)
       \<or> (\<exists>p \<in> set (failures_list (xs_repo (snd (execute_claim env handler c s)))).
            pf_job_id p = wi_job_id i \<and> pf_item_id p = wi_item_id i \<and> pf_operation p = ''dead_letter_persist''))"
proof -
  let ?res = "\<lparr>er_state = TS_RETRY_EXHAUSTED, er_failure_code = Some (exn_name e),
    er_failure_details = Some (exn_text e), er_result = None, er_token_usage = 0, er_cost = 0\<rparr>"
  have handler: "handled (handler i) = Inr ?res"
    using assms(8,9) by (simp add: handled_def ExecutionResult_post_def missing_text_def)
  obtain out s' where run: "execute_claim env handler c s = (out, s')" by fastforce
  have "\<exists>t. dget (terminal_map (xs_repo s')) (wi_job_id i, wi_idempotency_key i) = Some t
    \<and> tr_state t = er_state ?res \<and> tr_failure_code t = Some (exn_name e) \<and> tr_failure_details t = Some (exn_text e)
    \<and> (er_state ?res = TS_RETRY_EXHAUSTED \<longrightarrow> evidence_kept i (exn_name e) s') \<and> (\<forall>x. out = Inr x \<longrightarrow> x = t)"
    by (rule execute_claim_closes [OF assms(1-7) handler _ _ assms(9) _ _ run]) simp_all
  with run show ?thesis by (auto simp: evidence_kept_def)
qed

section \<open>Witnesses\<close>

definition sample_record :: "string \<Rightarrow> terminal_work_item_state \<Rightarrow> terminal_record" where
  "sample_record item st = \<lparr>tr_job_id = ''j'', tr_item_id = item, tr_idempotency_key = item, tr_state = st,
     tr_failure_code = (if st = TS_SUCCEEDED then None else Some ''f''), tr_failure_details = None,
     tr_configuration = \<lparr>profile_id = ''p'', version = ''1''\<rparr>, tr_attempt_count = 1,
     tr_result_reference = None, tr_recorded_at = Aware 5\<rparr>"

text \<open>An executor over the claimed sample item whose telemetry sink always raises.\<close>

definition sample_env :: "unit executor_env" where
  "sample_env = \<lparr>xe_clock = (\<lambda>n. Aware (int n)), xe_started_at = Aware 0, xe_digest = (\<lambda>d. d),
     xe_emit = (\<lambda>t u. (Inl (RuntimeError ''sink''), u))\<rparr>"

definition sample_executor :: "unit executor_state" where
  "sample_executor = \<lparr>xs_repo = sample_claimed, xs_objects = [], xs_dlq = \<lparr>fail_item_ids = {}, dlq_entries = []\<rparr>,
     xs_sink = (), xs_clock = 0, xs_usage = []\<rparr>"

lemma terminal_report_partition_witness:
  "\<exists>rep. build_terminal_report ''j'' [sample_record ''b'' TS_SUCCEEDED, sample_record ''a'' TS_SUCCEEDED]
      CAUSE_COMPLETED (Aware 9) = Inr rep \<and> map tg_state (tj_groups rep) = terminal_states"
  using terminal_report_partition [of "[sample_record ''b'' TS_SUCCEEDED, sample_record ''a'' TS_SUCCEEDED]" "''j''"
      CAUSE_COMPLETED "Aware 9"]
  by (auto simp: sample_record_def)

lemma classification_spec_witness:
  "classify_terminal_job [TS_SUCCEEDED, TS_CANCELLED] CAUSE_CANCELLED = Inr TJ_PARTIALLY_SUCCEEDED"
  using classification_spec [of "[TS_SUCCEEDED, TS_CANCELLED]" CAUSE_CANCELLED TJ_PARTIALLY_SUCCEEDED] by simp

lemma sample_claimed_ok: "repo_ok sample_claimed"
  by (rule repo_reachable_ok [OF sample_claimed_reachable])

lemma sample_claimed_terminals: "terminal_map sample_claimed = []"
  by (simp add: sample_claimed_def claim_writes sample_created_def create_writes repository_init_def)

lemma sample_leased_fields:
  "wi_job_id sample_leased = ''j''" "wi_idempotency_key sample_leased = ''k''"
  "wi_lease_owner sample_leased = Some ''w1''"
  by (simp_all add: claimed_item_def sample_item_def)

lemma terminal_report_complete_witness:
  "fst (terminal_report sample_env ''j'' CAUSE_COMPLETED sample_executor) =
     Inl (ValueError ''terminal report requires every work item to be terminal'')"
proof -
  have "(''j'', ''k'') \<in> set (dkeys (items_map sample_claimed))"
    unfolding keys_iff using sample_claimed_item by simp
  then have "\<not> all_terminal ''j'' sample_claimed"
    unfolding all_terminal_def using sample_claimed_terminals by force
  moreover have "sample_leased \<in> set (dvalues (items_map sample_claimed))"
    using sample_claimed_item by (force dest: map_of_SomeD)
  then have "sample_leased \<in> set (job_items ''j'' sample_claimed)"
    using sample_leased_fields(1) by (simp only: job_items_def set_sort set_filter mem_Collect_eq)
  then have "job_items ''j'' sample_claimed \<noteq> []" by auto
  ultimately show ?thesis
    using terminal_report_complete [of sample_executor "''j''" CAUSE_COMPLETED _ sample_env] sample_claimed_ok
    by (simp add: sample_executor_def)
qed

lemma handler_failure_isolated_witness:
  "\<exists>t. dget (terminal_map (xs_repo (snd (execute_claim sample_env (\<lambda>i. Inl (RuntimeError ''boom''))
        \<lparr>claim_status = ACQUIRED, claim_item = sample_leased, claim_latest = None\<rparr> sample_executor)))) (''j'', ''k'') = Some t
     \<and> tr_state t = TS_RETRY_EXHAUSTED \<and> tr_failure_details t = Some ''boom''"
proof -
  have own: "owns ''w1'' (Aware 0) sample_leased"
    by (simp add: owns_def live_lease_def expiry_after_def claimed_item_def)
  show ?thesis
    using handler_failure_isolated [of sample_executor
        "\<lparr>claim_status = ACQUIRED, claim_item = sample_leased, claim_latest = None\<rparr>" sample_leased "''w1''" sample_env
        "\<lambda>i. Inl (RuntimeError ''boom'')" "RuntimeError ''boom''"]
      sample_claimed_ok sample_claimed_item sample_claimed_terminals own sample_leased_fields
    by (auto simp: sample_executor_def sample_env_def acquired_def)
qed

end
