(* ===== verification/Bulk_Coordination.thy ===== *)
theory Bulk_Coordination
  imports Bulk_Lifecycle Bulk_Transport
begin

text \<open>
  \<open>bulk/coordinator.py\<close> (admission of durable work, the outbox relay, the handling of a
  delivery and checkpoints) and \<open>bulk/worker.py\<close> (the stage loop of one item). The clock,
  the identifier source and the digest of the object store are parameters. The worker is
  generic in its claim source and stage processor, as the protocols of the code are; its
  loop has fuel, and \<open>worker_completes\<close> shows how much is enough.
\<close>

section \<open>The coordinator\<close>

record coordinator_state =
  co_repo :: work_repository
  co_objects :: object_store
  co_broker :: broker
  co_clock :: nat
  co_calls :: nat

record coordinator_env =
  co_now :: "nat \<Rightarrow> datetime"
  co_digest :: "string \<Rightarrow> string"
  co_identifier :: "nat \<Rightarrow> string"

definition co_tick :: "coordinator_env \<Rightarrow> (coordinator_state, datetime) meth" where
  "co_tick env s = (Inr (co_now env (co_clock s)), s\<lparr>co_clock := Suc (co_clock s)\<rparr>)"

definition new_identifier :: "coordinator_env \<Rightarrow> string \<Rightarrow> (coordinator_state, string) meth" where
  "new_identifier env purpose s =
     (let v = co_identifier env (co_calls s); s' = s\<lparr>co_calls := Suc (co_calls s)\<rparr> in
      if blank v then (Inl (ValueError (purpose @ '' identifier must not be blank'')), s') else (Inr v, s'))"

definition with_repo :: "(work_repository, 'a) meth \<Rightarrow> (coordinator_state, 'a) meth" where
  "with_repo m s = (case m (co_repo s) of (x, r) \<Rightarrow> (x, s\<lparr>co_repo := r\<rparr>))"

definition with_objects :: "(object_store, 'a) meth \<Rightarrow> (coordinator_state, 'a) meth" where
  "with_objects m s = (case m (co_objects s) of (x, st) \<Rightarrow> (x, s\<lparr>co_objects := st\<rparr>))"

definition submitted_item :: "work_submission \<Rightarrow> execution_context \<Rightarrow> object_reference \<Rightarrow> work_item" where
  "submitted_item sub ctx ref = \<lparr>wi_job_id = sub_job_id sub, wi_item_id = sub_item_id sub,
     wi_idempotency_key = sub_idempotency_key sub, wi_payload_reference = ref,
     wi_configuration = reference (ctx_configuration ctx), wi_state = WS_PENDING, wi_attempt_count = 0,
     wi_lease_owner = None, wi_lease_expires_at = None, wi_result_reference = None, wi_revision = 0\<rparr>"

definition item_notification :: "string \<Rightarrow> work_item \<Rightarrow> work_notification" where
  "item_notification event i = \<lparr>wn_event_id = event, wn_job_id = wi_job_id i, wn_item_id = wi_item_id i,
     wn_idempotency_key = wi_idempotency_key i, wn_configuration_version = version (wi_configuration i),
     wn_payload_reference = obj_reference (wi_payload_reference i),
     wn_payload_hash = content_hash (wi_payload_reference i), aggregate_revision = wi_revision i\<rparr>"

definition submit :: "coordinator_env \<Rightarrow> work_submission \<Rightarrow> execution_context
    \<Rightarrow> (coordinator_state, work_item) meth" where
  "submit env sub ctx =
     (if ctx_path ctx \<noteq> BULK
      then raiseM (ValueError ''durable work may only bind to a bulk execution'')
      else
        bindM (with_objects (put_payload (co_digest env) (sub_payload sub))) (\<lambda>ref.
        bindM (liftR (WorkItem_post (submitted_item sub ctx ref))) (\<lambda>i.
        bindM (new_identifier env ''outbox'') (\<lambda>event.
        bindM (liftR (WorkNotification_post (item_notification event i))) (\<lambda>n.
        bindM (liftR (OutboxRecord_post \<lparr>ob_event_id = event, ob_notification = n, ob_status = OB_PENDING,
                 ob_published_at = None\<rparr>)) (\<lambda>ob.
          with_repo (create_with_outbox i ob)))))))"

text \<open>\<open>relay_pending\<close> iterates over the tuple taken before the loop.\<close>

fun relay_items :: "coordinator_env \<Rightarrow> outbox_record list \<Rightarrow> int \<Rightarrow> (coordinator_state, int) meth" where
  "relay_items env [] published s = (Inr published, s)"
| "relay_items env (ob # obs) published s =
     (let s1 = s\<lparr>co_broker := publish (ob_notification ob) (co_broker s)\<rparr> in
      bindM (co_tick env) (\<lambda>now.
      bindM (with_repo (mark_published (ob_event_id ob) now)) (\<lambda>_.
        relay_items env obs (published + 1))) s1)"

definition relay_pending :: "coordinator_env \<Rightarrow> (coordinator_state, int) meth" where
  "relay_pending env s = relay_items env (pending_outbox (co_repo s)) 0 s"

definition delivery_matches :: "work_notification \<Rightarrow> work_item \<Rightarrow> bool" where
  "delivery_matches n i \<longleftrightarrow> wi_item_id i = wn_item_id n
     \<and> version (wi_configuration i) = wn_configuration_version n
     \<and> obj_reference (wi_payload_reference i) = wn_payload_reference n
     \<and> content_hash (wi_payload_reference i) = wn_payload_hash n"

definition claim_delivery :: "coordinator_env \<Rightarrow> broker_delivery \<Rightarrow> string \<Rightarrow> timedelta
    \<Rightarrow> (coordinator_state, work_claim) meth" where
  "claim_delivery env dl owner d s =
     (let n = bd_notification dl in
      case get_item (wn_job_id n) (wn_idempotency_key n) (co_repo s) of
        None \<Rightarrow> (Inl (ValueError ''notification references unknown work''), s)
      | Some i \<Rightarrow>
          if \<not> delivery_matches n i
          then (Inl (ValueError ''notification metadata does not match durable work''), s)
          else bindM (co_tick env) (\<lambda>now.
               bindM (with_repo (claim (wn_job_id n) (wn_idempotency_key n) owner now d)) (\<lambda>c s'.
                 (Inr c, s'\<lparr>co_broker := snd (acknowledge (delivery_id dl) (co_broker s'))\<rparr>))) s)"

definition coordinator_checkpoint :: "coordinator_env \<Rightarrow> work_claim \<Rightarrow> checkpoint_stage \<Rightarrow> string
    \<Rightarrow> string option \<Rightarrow> (coordinator_state, checkpoint_record) meth" where
  "coordinator_checkpoint env c stage outcome result =
     (let i = claim_item c in
      if \<not> acquired c \<or> wi_lease_owner i = None
      then raiseM (ValueError ''an acquired claim is required'')
      else
        bindM (case result of None \<Rightarrow> pureM None
               | Some d \<Rightarrow> bindM (with_objects (put_result (co_digest env) d)) (\<lambda>ref. pureM (Some ref))) (\<lambda>ref.
        bindM (co_tick env) (\<lambda>now.
          with_repo (checkpoint (wi_job_id i) (wi_idempotency_key i) (the (wi_lease_owner i))
            stage outcome now ref))))"

section \<open>The worker\<close>

datatype bulk_stage_action = STAGE_CHECKPOINTED | STAGE_TERMINAL

record bulk_stage_result =
  bsr_action :: bulk_stage_action
  bsr_checkpoint_stage :: "checkpoint_stage option"
  bsr_terminal :: "terminal_record option"
  bsr_outcome :: string

text \<open>The collaborators of a worker act on a world of any type: the claim source, the
  stage processor and the clock.\<close>

record 'w bulk_worker =
  wk_claim :: "string \<Rightarrow> string \<Rightarrow> string \<Rightarrow> datetime \<Rightarrow> timedelta \<Rightarrow> ('w, work_claim) meth"
  wk_resume_state :: "string \<Rightarrow> string \<Rightarrow> ('w, resume_info) meth"
  wk_process :: "work_claim \<Rightarrow> execution_context \<Rightarrow> ('w, bulk_stage_result) meth"
  wk_now :: "('w, datetime) meth"
  wk_lease :: timedelta

definition BulkWorker_init :: "'w bulk_worker \<Rightarrow> 'w bulk_worker res" where
  "BulkWorker_init wk = (if wk_lease wk \<le> 0 then Inl (ValueError ''lease duration must be positive'') else Inr wk)"

text \<open>The \<open>while\<close> loop, with fuel: \<open>None\<close> is fuel that ran out. \<open>results\<close> is the list built
  so far.\<close>

fun worker_loop :: "nat \<Rightarrow> 'w bulk_worker \<Rightarrow> string \<Rightarrow> string \<Rightarrow> string \<Rightarrow> execution_context \<Rightarrow> int option
    \<Rightarrow> bulk_stage_result list \<Rightarrow> 'w \<Rightarrow> (bulk_stage_result list res \<times> 'w) option" where
  "worker_loop 0 wk job ikey owner ctx limit results w = None"
| "worker_loop (Suc fuel) wk job ikey owner ctx limit results w =
     (if (case limit of None \<Rightarrow> False | Some m \<Rightarrow> m \<le> int (length results)) then Some (Inr results, w)
      else
        case wk_resume_state wk job ikey w of
          (Inl e, w1) \<Rightarrow> Some (Inl e, w1)
        | (Inr st, w1) \<Rightarrow>
            if rs_next_stage st = None then Some (Inr results, w1)
            else
              case bindM (wk_now wk) (\<lambda>now. wk_claim wk job ikey owner now (wk_lease wk)) w1 of
                (Inl e, w2) \<Rightarrow> Some (Inl e, w2)
              | (Inr c, w2) \<Rightarrow>
                  if \<not> acquired c then Some (Inr results, w2)
                  else
                    case wk_process wk c ctx w2 of
                      (Inl e, w3) \<Rightarrow> Some (Inl e, w3)
                    | (Inr result, w3) \<Rightarrow>
                        if bsr_action result = STAGE_TERMINAL then Some (Inr (results @ [result]), w3)
                        else worker_loop fuel wk job ikey owner ctx limit (results @ [result]) w3)"

definition worker_resume :: "nat \<Rightarrow> 'w bulk_worker \<Rightarrow> string \<Rightarrow> string \<Rightarrow> string \<Rightarrow> execution_context \<Rightarrow> int option
    \<Rightarrow> 'w \<Rightarrow> (bulk_stage_result list res \<times> 'w) option" where
  "worker_resume fuel wk job ikey owner ctx limit w =
     (case limit of
        Some m \<Rightarrow> if m \<le> 0 then Some (Inl (ValueError ''max_stages must be positive''), w)
                  else worker_loop fuel wk job ikey owner ctx limit [] w
      | None \<Rightarrow> worker_loop fuel wk job ikey owner ctx limit [] w)"

section \<open>What a worker relies on\<close>

text \<open>The contract of a claim source for one work item and one owner: \<open>ready n w\<close> says that
  the item can be claimed and \<open>n\<close> is its next stage, \<open>held n c w\<close> that \<open>c\<close> is the claim
  that holds it.\<close>

fun remaining_stages :: "checkpoint_stage option \<Rightarrow> nat" where
  "remaining_stages None = 0"
| "remaining_stages (Some s) = length checkpoint_stages - stage_order s"

lemma remaining_next: "remaining_stages (Some s) = Suc (remaining_stages (next_stage s))"
  by (cases s) (simp_all add: next_stage_def checkpoint_stages_def)

lemma remaining_bound: "remaining_stages n \<le> 5"
  by (cases n) (auto simp: checkpoint_stages_def)

locale claim_source =
  fixes wk :: "'w bulk_worker" and job :: string and ikey :: string and owner :: string
    and ready :: "checkpoint_stage option \<Rightarrow> 'w \<Rightarrow> bool"
    and held :: "checkpoint_stage \<Rightarrow> work_claim \<Rightarrow> 'w \<Rightarrow> bool"
  assumes resume_ready: "ready n w \<Longrightarrow> \<exists>st. wk_resume_state wk job ikey w = (Inr st, w) \<and> rs_next_stage st = n"
    and claim_ready: "ready (Some stage) w \<Longrightarrow>
      \<exists>c w'. bindM (wk_now wk) (\<lambda>now. wk_claim wk job ikey owner now (wk_lease wk)) w = (Inr c, w')
        \<and> acquired c \<and> held stage c w'"
begin

definition advances :: "execution_context \<Rightarrow> bool" where
  "advances ctx \<longleftrightarrow> (\<forall>stage c w. acquired c \<longrightarrow> held stage c w \<longrightarrow>
     (\<exists>result w'. wk_process wk c ctx w = (Inr result, w') \<and> bsr_action result = STAGE_CHECKPOINTED
        \<and> ready (next_stage stage) w'))"

lemma loop_completes:
  assumes "advances ctx" and "ready n w" and "remaining_stages n < fuel"
  shows "\<exists>rs w'. worker_loop fuel wk job ikey owner ctx None results w = Some (Inr (results @ rs), w')
    \<and> length rs = remaining_stages n \<and> ready None w'"
  using assms(2,3)
proof (induction fuel arbitrary: n w results)
  case (Suc fuel)
  obtain st where st: "wk_resume_state wk job ikey w = (Inr st, w)" "rs_next_stage st = n"
    using resume_ready [OF Suc.prems(1)] by blast
  show ?case
  proof (cases n)
    case None
    then show ?thesis using st Suc.prems(1) by simp
  next
    case (Some stage)
    obtain c w2 where c: "bindM (wk_now wk) (\<lambda>now. wk_claim wk job ikey owner now (wk_lease wk)) w = (Inr c, w2)"
        "acquired c" "held stage c w2"
      using claim_ready [of stage w] Suc.prems(1) Some by blast
    obtain result w3 where p: "wk_process wk c ctx w2 = (Inr result, w3)"
        "bsr_action result = STAGE_CHECKPOINTED" "ready (next_stage stage) w3"
      using assms(1) c(2,3) unfolding advances_def by blast
    have "remaining_stages (next_stage stage) < fuel"
      using Suc.prems(2) Some remaining_next [of stage] by simp
    from Suc.IH [OF p(3) this, of "results @ [result]"] obtain rs w' where
      rest: "worker_loop fuel wk job ikey owner ctx None (results @ [result]) w3 = Some (Inr (results @ result # rs), w')"
        "length rs = remaining_stages (next_stage stage)" "ready None w'" by auto
    moreover have "worker_loop (Suc fuel) wk job ikey owner ctx None results w
        = worker_loop fuel wk job ikey owner ctx None (results @ [result]) w3"
      using st c p Some by simp
    ultimately show ?thesis using Some remaining_next [of stage] by (intro exI [of _ "result # rs"] exI [of _ w']) simp
  qed
qed simp

end

section \<open>The worker on the in-memory repository\<close>

record 'p memory_world =
  wd_repo :: work_repository
  wd_clock :: nat
  wd_own :: 'p

definition memory_worker :: "(nat \<Rightarrow> datetime) \<Rightarrow> (work_claim \<Rightarrow> execution_context \<Rightarrow> ('p memory_world, bulk_stage_result) meth)
    \<Rightarrow> timedelta \<Rightarrow> 'p memory_world bulk_worker" where
  "memory_worker clock process d = \<lparr>
     wk_claim = (\<lambda>job ikey owner now lease w. case claim job ikey owner now lease (wd_repo w) of (x, r) \<Rightarrow> (x, w\<lparr>wd_repo := r\<rparr>)),
     wk_resume_state = (\<lambda>job ikey w. (resume_state job ikey (wd_repo w), w)),
     wk_process = process,
     wk_now = (\<lambda>w. (Inr (clock (wd_clock w)), w\<lparr>wd_clock := Suc (wd_clock w)\<rparr>)),
     wk_lease = d\<rparr>"

definition due_stage :: "work_key \<Rightarrow> work_repository \<Rightarrow> checkpoint_stage option" where
  "due_stage k r = (case latest k r of None \<Rightarrow> Some CS_ACCEPTED | Some l \<Rightarrow> next_stage (completed_stage l))"

definition memory_ready :: "(nat \<Rightarrow> datetime) \<Rightarrow> timedelta \<Rightarrow> string \<Rightarrow> work_key \<Rightarrow> checkpoint_stage option
    \<Rightarrow> 'p memory_world \<Rightarrow> bool" where
  "memory_ready clock d owner k n w \<longleftrightarrow> (\<forall>t. tz_aware (clock t)) \<and> 0 < d \<and> \<not> blank owner \<and> repo_ok (wd_repo w)
     \<and> n = due_stage k (wd_repo w)
     \<and> (\<exists>i. dget (items_map (wd_repo w)) k = Some i \<and> \<not> live_lease (clock (wd_clock w)) i
          \<and> (n \<noteq> None \<longrightarrow> wi_state i \<noteq> WS_COMPLETED) \<and> (n = None \<longrightarrow> wi_state i = WS_COMPLETED))"

definition memory_held :: "(nat \<Rightarrow> datetime) \<Rightarrow> timedelta \<Rightarrow> string \<Rightarrow> work_key \<Rightarrow> checkpoint_stage \<Rightarrow> work_claim
    \<Rightarrow> 'p memory_world \<Rightarrow> bool" where
  "memory_held clock d owner k stage c w \<longleftrightarrow> (\<forall>t. tz_aware (clock t)) \<and> 0 < d \<and> \<not> blank owner \<and> repo_ok (wd_repo w)
     \<and> due_stage k (wd_repo w) = Some stage \<and> dget (items_map (wd_repo w)) k = Some (claim_item c)
     \<and> wi_state (claim_item c) = WS_IN_PROGRESS"

lemma resume_due:
  "dget (items_map r) (job, ikey) = Some i \<Longrightarrow> resume_state job ikey r =
     Inr \<lparr>rs_item = i, rs_latest = latest (job, ikey) r, rs_next_stage = due_stage (job, ikey) r\<rparr>"
  by (simp add: resume_state_def require_item_def Let_def due_stage_def)

lemma claim_takes_idle:
  assumes "repo_ok r" and "dget (items_map r) (job, ikey) = Some i" and "\<not> live_lease now i"
    and "wi_state i \<noteq> WS_COMPLETED" and "tz_aware now" and "\<not> blank owner" and "0 < d"
  shows "claim job ikey owner now d r =
    (Inr \<lparr>claim_status = ACQUIRED, claim_item = claimed_item owner now d i, claim_latest = latest (job, ikey) r\<rparr>,
     r\<lparr>items_map := dset (job, ikey) (claimed_item owner now d i) (items_map r)\<rparr>)"
  by (rule claim_outcomes [OF assms(1), of job ikey owner now d])
     (use assms(2-) in \<open>auto simp: live_lease_def\<close>)

interpretation memory_source: claim_source "memory_worker clock process d" job ikey owner
    "memory_ready clock d owner (job, ikey)" "memory_held clock d owner (job, ikey)"
proof (unfold_locales, goal_cases)
  case (1 n w)
  then show ?case by (auto simp: memory_ready_def memory_worker_def resume_due)
next
  case (2 stage w)
  then obtain i where i: "dget (items_map (wd_repo w)) (job, ikey) = Some i" "\<not> live_lease (clock (wd_clock w)) i"
      "wi_state i \<noteq> WS_COMPLETED" and base: "\<forall>t. tz_aware (clock t)" "0 < d" "\<not> blank owner" "repo_ok (wd_repo w)"
      "due_stage (job, ikey) (wd_repo w) = Some stage"
    by (auto simp: memory_ready_def)
  let ?now = "clock (wd_clock w)"
  have run: "claim job ikey owner ?now d (wd_repo w) =
      (Inr \<lparr>claim_status = ACQUIRED, claim_item = claimed_item owner ?now d i, claim_latest = latest (job, ikey) (wd_repo w)\<rparr>,
       (wd_repo w)\<lparr>items_map := dset (job, ikey) (claimed_item owner ?now d i) (items_map (wd_repo w))\<rparr>)"
    by (rule claim_takes_idle) (use i base in auto)
  moreover have "repo_ok (snd (claim job ikey owner ?now d (wd_repo w)))"
    by (rule repo_ok_claim) (rule base(4))
  ultimately show ?case
    using base by (auto simp: memory_worker_def bindM_def memory_held_def acquired_def claimed_item_def
        due_stage_def latest_def)
qed

text \<open>A processor that checkpoints the due stage of the item it holds.\<close>

definition checkpointing :: "string \<Rightarrow> string \<Rightarrow> execution_context
    \<Rightarrow> (work_claim \<Rightarrow> execution_context \<Rightarrow> ('p memory_world, bulk_stage_result) meth) \<Rightarrow> bool" where
  "checkpointing job ikey ctx process \<longleftrightarrow> (\<forall>c w stage. acquired c \<longrightarrow> repo_ok (wd_repo w)
     \<longrightarrow> dget (items_map (wd_repo w)) (job, ikey) = Some (claim_item c) \<longrightarrow> wi_state (claim_item c) = WS_IN_PROGRESS
     \<longrightarrow> due_stage (job, ikey) (wd_repo w) = Some stage
     \<longrightarrow> (\<exists>result w' cp owner out now res. process c ctx w = (Inr result, w') \<and> bsr_action result = STAGE_CHECKPOINTED
           \<and> checkpoint job ikey owner stage out now res (wd_repo w) = (Inr cp, wd_repo w')))"

lemma next_stage_later: "next_stage s = Some st \<Longrightarrow> s < st"
  by (cases s) (auto simp: next_stage_def checkpoint_stages_def less_checkpoint_stage_def)

lemma next_stage_None: "next_stage s = None \<longleftrightarrow> s = CS_COMPLETED"
  by (cases s) (auto simp: next_stage_def checkpoint_stages_def)

lemma due_not_repeated: "due_stage k r = Some stage \<Longrightarrow> latest k r = Some l \<Longrightarrow> completed_stage l \<noteq> stage"
  using next_stage_later by (fastforce simp: due_stage_def)

lemma checkpoint_due:
  assumes ok: "repo_ok r" and due: "due_stage (job, ikey) r = Some stage"
    and run: "checkpoint job ikey owner stage out now res r = (Inr cp, r')"
  shows "repo_ok r' \<and> due_stage (job, ikey) r' = next_stage stage
    \<and> (\<exists>i. dget (items_map r') (job, ikey) = Some i \<and> wi_state i = (if stage = CS_COMPLETED then WS_COMPLETED else WS_CHECKPOINTED))"
proof -
  have "repo_ok r'" using repo_ok_checkpoint [OF ok, of job ikey owner stage out now res] run by simp
  moreover have "due_stage (job, ikey) r' = next_stage stage
    \<and> (\<exists>i. dget (items_map r') (job, ikey) = Some i \<and> wi_state i = (if stage = CS_COMPLETED then WS_COMPLETED else WS_CHECKPOINTED))"
  proof (rule checkpoint_outcomes [OF ok, of job ikey owner stage out now res])
    fix i l assume "latest (job, ikey) r = Some l" "completed_stage l = stage"
    with due_not_repeated [OF due] show ?thesis by blast
  qed (use run in \<open>auto simp: due_stage_def latest_def checkpoints_of_def new_checkpoint_def released_item_def\<close>)
  ultimately show ?thesis by blast
qed

lemma checkpointing_advances:
  fixes process :: "work_claim \<Rightarrow> execution_context \<Rightarrow> ('p memory_world, bulk_stage_result) meth"
  assumes "checkpointing job ikey ctx process"
  shows "claim_source.advances (memory_worker clock process d) (memory_ready clock d owner (job, ikey))
    (memory_held clock d owner (job, ikey)) ctx"
  unfolding memory_source.advances_def
proof (intro allI impI)
  fix stage c and w :: "'p memory_world"
  assume c: "acquired c" and h: "memory_held clock d owner (job, ikey) stage c w"
  obtain result w' cp owner' out now res where p: "process c ctx w = (Inr result, w')"
      "bsr_action result = STAGE_CHECKPOINTED"
      "checkpoint job ikey owner' stage out now res (wd_repo w) = (Inr cp, wd_repo w')"
    using assms c h unfolding checkpointing_def memory_held_def by blast
  have "memory_ready clock d owner (job, ikey) (next_stage stage) w'"
    using checkpoint_due [OF _ _ p(3)] h by (auto simp: memory_ready_def memory_held_def live_lease_def next_stage_None split: if_splits)
  with p show "\<exists>result w'. wk_process (memory_worker clock process d) c ctx w = (Inr result, w')
      \<and> bsr_action result = STAGE_CHECKPOINTED \<and> memory_ready clock d owner (job, ikey) (next_stage stage) w'"
    by (auto simp: memory_worker_def)
qed

section \<open>The outbox\<close>

definition outbox_ok :: "work_repository \<Rightarrow> bool" where
  "outbox_ok r \<longleftrightarrow> distinct (dkeys (outbox_map r)) \<and> (\<forall>e ob. dget (outbox_map r) e = Some ob \<longrightarrow> ob_event_id ob = e)"

lemma outbox_frame:
  "outbox_map (snd (claim job ikey owner now d r)) = outbox_map r"
  "outbox_map (snd (renew job ikey owner now d r)) = outbox_map r"
  "outbox_map (snd (record_checkpoint k i st out now res n r)) = outbox_map r"
  "outbox_map (snd (terminalize job ikey owner ts code det now res r)) = outbox_map r"
  "outbox_map (record_persistence_failure p r) = outbox_map r"
  "outbox_map (snd (save_effect x r)) = outbox_map r"
  "outbox_map (snd (save_reconciliation m r)) = outbox_map r"
  by (auto simp: claim_def renew_def record_checkpoint_def terminalize_def record_persistence_failure_def
      save_effect_def save_reconciliation_def Let_def split: sum.splits bool.splits option.splits)

lemma checkpoint_outbox: "outbox_map (snd (checkpoint job ikey owner st out now res r)) = outbox_map r"
  by (rule checkpoint_cases [of job ikey owner st out now res r]; simp add: outbox_frame)

lemma outbox_dset: "outbox_ok r \<Longrightarrow> outbox_map r' = dset (ob_event_id ob) ob (outbox_map r) \<Longrightarrow> outbox_ok r'"
  by (auto simp: outbox_ok_def simp del: map_of_eq_Some_iff split: if_splits)

lemma outbox_same: "outbox_ok r \<Longrightarrow> outbox_map r' = outbox_map r \<Longrightarrow> outbox_ok r'"
  by (simp add: outbox_ok_def)

lemma outbox_create: "outbox_ok r \<Longrightarrow> outbox_ok (snd (create_with_outbox i ob r))"
  by (rule create_outcomes [of i ob r]) (auto intro: outbox_dset)

lemma outbox_published: "outbox_ok r \<Longrightarrow> outbox_ok (snd (mark_published e t r))"
proof (cases "dget (outbox_map r) e")
  case (Some ob)
  assume ok: "outbox_ok r"
  then have e: "ob_event_id ob = e" using Some unfolding outbox_ok_def by blast
  let ?ob = "ob\<lparr>ob_status := OB_PUBLISHED, ob_published_at := Some t\<rparr>"
  have "outbox_ok (r\<lparr>outbox_map := dset (ob_event_id ?ob) ?ob (outbox_map r)\<rparr>)"
    by (rule outbox_dset [OF ok, where ob = ?ob]) simp
  then show ?thesis using Some ok e by (simp add: mark_published_def OutboxRecord_post_def)
qed (simp add: mark_published_def)

lemma outbox_step: "outbox_ok r \<Longrightarrow> outbox_ok (repo_apply x r)"
  by (cases x) (simp_all add: outbox_create outbox_published outbox_same [of r] outbox_frame checkpoint_outbox)

lemma outbox_reachable: "repo_reachable r \<Longrightarrow> outbox_ok r"
  by (induction rule: repo_reachable.induct) (simp_all add: outbox_step, simp add: outbox_ok_def repository_init_def)

definition published_record :: "datetime \<Rightarrow> outbox_record \<Rightarrow> outbox_record" where
  "published_record t ob = ob\<lparr>ob_status := OB_PUBLISHED, ob_published_at := Some t\<rparr>"

lemma mark_published_run:
  assumes "dget (outbox_map r) e = Some ob" and "ob_status ob = OB_PENDING"
  shows "mark_published e t r = (Inr (published_record t ob), r\<lparr>outbox_map := dset e (published_record t ob) (outbox_map r)\<rparr>)"
  using assms by (simp add: mark_published_def published_record_def OutboxRecord_post_def)

lemma relay_items_run:
  assumes "\<forall>ob \<in> set obs. dget (outbox_map (co_repo s)) (ob_event_id ob) = Some ob \<and> ob_status ob = OB_PENDING"
    and "distinct (map ob_event_id obs)"
  shows "\<exists>s'. relay_items env obs n s = (Inr (n + int (length obs)), s')
    \<and> queued (co_broker s') = queued (co_broker s) @ map ob_notification obs
    \<and> inflight (co_broker s') = inflight (co_broker s)
    \<and> co_objects s' = co_objects s \<and> items_map (co_repo s') = items_map (co_repo s)
    \<and> (outbox_ok (co_repo s) \<longrightarrow> outbox_ok (co_repo s'))
    \<and> (\<forall>e ob. dget (outbox_map (co_repo s')) e = Some ob \<longrightarrow>
          (if e \<in> set (map ob_event_id obs) then ob_status ob = OB_PUBLISHED else dget (outbox_map (co_repo s)) e = Some ob))"
  using assms
proof (induction obs arbitrary: s n)
  case (Cons ob obs)
  let ?now = "co_now env (co_clock s)"
  let ?r = "(co_repo s)\<lparr>outbox_map := dset (ob_event_id ob) (published_record ?now ob) (outbox_map (co_repo s))\<rparr>"
  let ?s = "s\<lparr>co_broker := publish (ob_notification ob) (co_broker s), co_clock := Suc (co_clock s), co_repo := ?r\<rparr>"
  have step: "relay_items env (ob # obs) n s = relay_items env obs (n + 1) ?s"
    using mark_published_run [of "co_repo s" "ob_event_id ob" ob ?now] Cons.prems(1)
    by (simp add: bindM_def co_tick_def with_repo_def)
  have "\<forall>b \<in> set obs. dget (outbox_map (co_repo ?s)) (ob_event_id b) = Some b \<and> ob_status b = OB_PENDING"
    using Cons.prems by auto
  from Cons.IH [OF this, of "n + 1"] Cons.prems(2) obtain s' where
    rest: "relay_items env obs (n + 1) ?s = (Inr (n + 1 + int (length obs)), s')"
      "queued (co_broker s') = queued (co_broker ?s) @ map ob_notification obs"
      "inflight (co_broker s') = inflight (co_broker ?s)"
      "co_objects s' = co_objects ?s" "items_map (co_repo s') = items_map (co_repo ?s)"
      "outbox_ok ?r \<longrightarrow> outbox_ok (co_repo s')"
      "\<forall>e b. dget (outbox_map (co_repo s')) e = Some b \<longrightarrow>
          (if e \<in> set (map ob_event_id obs) then ob_status b = OB_PUBLISHED else dget (outbox_map (co_repo ?s)) e = Some b)"
    by auto
  have "if e \<in> set (map ob_event_id (ob # obs)) then ob_status b = OB_PUBLISHED else dget (outbox_map (co_repo s)) e = Some b"
    if "dget (outbox_map (co_repo s')) e = Some b" for e b
    using rest(7) [rule_format, OF that] by (auto simp: published_record_def split: if_splits)
  moreover have "outbox_ok (co_repo s) \<longrightarrow> outbox_ok ?r"
    using outbox_step [of "co_repo s" "OpPublished (ob_event_id ob) ?now"] Cons.prems(1)
      mark_published_run [of "co_repo s" "ob_event_id ob" ob ?now] by simp
  ultimately show ?case using rest step by (auto simp: publish_def)
qed simp

lemma pending_entries:
  assumes "outbox_ok r"
  shows "\<forall>ob \<in> set (pending_outbox r). dget (outbox_map r) (ob_event_id ob) = Some ob \<and> ob_status ob = OB_PENDING"
    and "distinct (map ob_event_id (pending_outbox r))"
proof -
  have keyed: "(e, ob) \<in> set (outbox_map r) \<longleftrightarrow> dget (outbox_map r) e = Some ob" for e ob
    using assms by (simp add: outbox_ok_def map_of_eq_Some_iff)
  then show "\<forall>ob \<in> set (pending_outbox r). dget (outbox_map r) (ob_event_id ob) = Some ob \<and> ob_status ob = OB_PENDING"
    using assms by (auto simp: pending_outbox_def outbox_ok_def)
  have "map ob_event_id (dvalues (outbox_map r)) = dkeys (outbox_map r)"
    using keyed assms by (auto simp: outbox_ok_def)
  then show "distinct (map ob_event_id (pending_outbox r))"
    unfolding pending_outbox_def using assms by (metis distinct_map_filter outbox_ok_def)
qed

lemma relay_run:
  assumes ok: "outbox_ok (co_repo s)"
  shows "\<exists>s'. relay_pending env s = (Inr (int (length (pending_outbox (co_repo s)))), s')
    \<and> queued (co_broker s') = queued (co_broker s) @ map ob_notification (pending_outbox (co_repo s))
    \<and> pending_outbox (co_repo s') = [] \<and> items_map (co_repo s') = items_map (co_repo s)
    \<and> co_objects s' = co_objects s"
proof -
  let ?obs = "pending_outbox (co_repo s)"
  obtain s' where s': "relay_items env ?obs 0 s = (Inr (0 + int (length ?obs)), s')"
      "queued (co_broker s') = queued (co_broker s) @ map ob_notification ?obs"
      "items_map (co_repo s') = items_map (co_repo s)" "co_objects s' = co_objects s" "outbox_ok (co_repo s')"
      "\<forall>e ob. dget (outbox_map (co_repo s')) e = Some ob \<longrightarrow>
          (if e \<in> set (map ob_event_id ?obs) then ob_status ob = OB_PUBLISHED else dget (outbox_map (co_repo s)) e = Some ob)"
    using relay_items_run [OF pending_entries [OF ok], of env 0] ok by blast
  have "ob_status ob \<noteq> OB_PENDING" if entry: "(e, ob) \<in> set (outbox_map (co_repo s'))" for e ob
  proof -
    have e: "dget (outbox_map (co_repo s')) e = Some ob"
      using entry s'(5) by (simp add: outbox_ok_def map_of_eq_Some_iff)
    have "ob \<in> set ?obs" if "dget (outbox_map (co_repo s)) e = Some ob" "ob_status ob = OB_PENDING"
      using that dget_in_values by (auto simp: pending_outbox_def)
    with s'(6) [rule_format, OF e] s'(5) e show ?thesis
      by (auto simp: outbox_ok_def split: if_splits)
  qed
  then have "pending_outbox (co_repo s') = []"
    by (auto simp: pending_outbox_def filter_empty_conv)
  with s' show ?thesis by (auto simp: relay_pending_def)
qed

section \<open>Submission\<close>

definition outbox_of :: "string \<Rightarrow> work_item \<Rightarrow> outbox_record" where
  "outbox_of event i = \<lparr>ob_event_id = event, ob_notification = item_notification event i,
     ob_status = OB_PENDING, ob_published_at = None\<rparr>"

definition submittable :: "coordinator_env \<Rightarrow> work_submission \<Rightarrow> execution_context \<Rightarrow> work_item \<Rightarrow> bool" where
  "submittable env sub ctx i \<longleftrightarrow> ctx_path ctx = BULK \<and> WorkItem_post i = Inr i
     \<and> i = submitted_item sub ctx (stored_reference (co_digest env) PAYLOAD (sub_payload sub))
     \<and> \<not> blank (version (wi_configuration i)) \<and> \<not> blank (obj_reference (wi_payload_reference i))
     \<and> \<not> blank (content_hash (wi_payload_reference i))"

lemma submit_run:
  assumes "digest_ok (co_digest env) good" and "submittable env sub ctx i" and "\<not> blank (co_identifier env (co_calls s))"
  shows "submit env sub ctx s =
    (case create_with_outbox i (outbox_of (co_identifier env (co_calls s)) i) (co_repo s) of (x, r) \<Rightarrow>
      (x, s\<lparr>co_objects := snd (put_payload (co_digest env) (sub_payload sub) (co_objects s)),
            co_calls := Suc (co_calls s), co_repo := r\<rparr>))"
proof -
  have i: "i = submitted_item sub ctx (stored_reference (co_digest env) PAYLOAD (sub_payload sub))" "WorkItem_post i = Inr i"
      "ctx_path ctx = BULK"
    using assms(2) by (auto simp: submittable_def)
  obtain objs where put: "put_payload (co_digest env) (sub_payload sub) (co_objects s)
      = (Inr (stored_reference (co_digest env) PAYLOAD (sub_payload sub)), objs)"
    using put_object_run [OF assms(1)] by (auto simp: put_payload_def)
  have "WorkNotification_post (item_notification (co_identifier env (co_calls s)) i)
      = Inr (item_notification (co_identifier env (co_calls s)) i)"
    using assms(2,3) by (auto simp: WorkNotification_post_def item_notification_def submittable_def WorkItem_post_Inr)
  then show ?thesis
    using put i assms(3)
    by (simp add: submit_def bindM_def with_objects_def new_identifier_def with_repo_def outbox_of_def
        OutboxRecord_post_def split: prod.splits)
qed

lemma submit_refused:
  assumes "digest_ok (co_digest env) good" and "\<not> (\<not> blank (co_identifier env (co_calls s)) \<and> (\<exists>i. submittable env sub ctx i))"
  shows "\<exists>e s'. submit env sub ctx s = (Inl e, s') \<and> co_repo s' = co_repo s"
proof -
  let ?i = "submitted_item sub ctx (stored_reference (co_digest env) PAYLOAD (sub_payload sub))"
  obtain objs where put: "put_payload (co_digest env) (sub_payload sub) (co_objects s)
      = (Inr (stored_reference (co_digest env) PAYLOAD (sub_payload sub)), objs)"
    using put_object_run [OF assms(1)] by (auto simp: put_payload_def)
  have "WorkNotification_post (item_notification (co_identifier env (co_calls s)) ?i) = Inr n \<Longrightarrow>
      \<not> blank (version (wi_configuration ?i)) \<and> \<not> blank (obj_reference (wi_payload_reference ?i))
     \<and> \<not> blank (content_hash (wi_payload_reference ?i))" for n
    by (auto simp: WorkNotification_post_def item_notification_def split: if_splits)
  moreover have "WorkItem_post ?i = Inr j \<Longrightarrow> j = ?i" for j by (simp add: WorkItem_post_Inr)
  ultimately show ?thesis
    using put assms(2)
    by (cases "WorkItem_post ?i"; cases "WorkNotification_post (item_notification (co_identifier env (co_calls s)) ?i)")
       (auto simp: submit_def bindM_def with_objects_def new_identifier_def raiseM_def submittable_def Let_def)
qed

section \<open>Properties\<close>

text \<open>C4. The worker finishes: for an item of a reachable repository that is not completed or
  closed and that nobody holds, because it waits or because the lease of a crashed worker has
  expired at the first reading of the clock, whatever stage it stopped at, and any processor
  that checkpoints the due stage of the item it holds, six rounds of fuel are enough: the loop
  returns one result per remaining stage, and then the item is completed and no stage is due.
  The clock is timezone-aware, the lease positive and the owner not blank, as a claim demands.\<close>

theorem worker_completes:
  fixes process :: "work_claim \<Rightarrow> execution_context \<Rightarrow> ('p memory_world, bulk_stage_result) meth"
  assumes "repo_reachable (wd_repo w)" and "dget (items_map (wd_repo w)) (job, ikey) = Some i"
    and "wi_state i \<noteq> WS_COMPLETED" and "\<not> live_lease (clock (wd_clock w)) i"
    and "\<forall>t. tz_aware (clock t)" and "0 < d" and "\<not> blank owner" and "checkpointing job ikey ctx process"
  shows "\<exists>rs w' st. worker_resume 6 (memory_worker clock process d) job ikey owner ctx None w = Some (Inr rs, w')
    \<and> length rs = remaining_stages (due_stage (job, ikey) (wd_repo w))
    \<and> resume_state job ikey (wd_repo w') = Inr st \<and> rs_next_stage st = None \<and> wi_state (rs_item st) = WS_COMPLETED"
proof -
  let ?n = "due_stage (job, ikey) (wd_repo w)"
  have ok: "repo_ok (wd_repo w)" by (rule repo_reachable_ok [OF assms(1)])
  have unfinished: "\<not> completed_history (checkpoints_of (job, ikey) (wd_repo w))"
    using cell_item [OF ok assms(2)] assms(3) by (auto simp: cell_ok.simps)
  have "?n \<noteq> None"
  proof (cases "latest (job, ikey) (wd_repo w)")
    case (Some l)
    with unfinished have "completed_stage l \<noteq> CS_COMPLETED" by (auto simp: latest_Some completed_history_def)
    with Some show ?thesis by (simp add: due_stage_def next_stage_None del: not_None_eq)
  qed (simp add: due_stage_def)
  then have "memory_ready clock d owner (job, ikey) ?n w"
    using assms(2-7) ok by (auto simp: memory_ready_def)
  from memory_source.loop_completes [OF checkpointing_advances [OF assms(8)] this, of 6 "[]"]
  show ?thesis
    using remaining_bound [of ?n] by (auto simp: worker_resume_def memory_ready_def resume_due)
qed

text \<open>A bounded run of the worker always returns, with fuel one above the stage limit,
  whatever the claim source, the processor and the clock do, and it runs at most
  that many stages.\<close>

theorem worker_bounded:
  fixes wk :: "'w bulk_worker"
  shows "\<exists>x w'. worker_resume (Suc (nat m)) wk job ikey owner ctx (Some m) w = Some (x, w')
    \<and> (case x of Inl e \<Rightarrow> True | Inr rs \<Rightarrow> length rs \<le> nat m)"
proof -
  define ends where "ends out \<longleftrightarrow> (\<exists>x (w' :: 'w). out = Some (x, w')
    \<and> (case x of Inl (e :: exn) \<Rightarrow> True | Inr rs \<Rightarrow> length (rs :: bulk_stage_result list) \<le> nat m))" for out
  have "ends (worker_loop fuel wk job ikey owner ctx (Some m) acc w)"
    if "nat m < fuel + length acc" "length acc \<le> nat m" for fuel acc w
    using that
  proof (induction fuel arbitrary: acc w)
    case (Suc fuel)
    have rest: "ends (worker_loop fuel wk job ikey owner ctx (Some m) (acc @ [b]) v)" if "int (length acc) < m" for b v
      by (rule Suc.IH) (use Suc.prems that in auto)
    have stops: "ends (Some (Inl e, v))" "ends (Some (Inr acc, v))" for e v
      using Suc.prems(2) by (auto simp: ends_def)
    have last: "ends (Some (Inr (acc @ [b]), v))" if "int (length acc) < m" for b v
      using that by (auto simp: ends_def)
    show ?case using rest stops last by (simp split: sum.split prod.split option.split)
  qed simp
  from this [of "Suc (nat m)" "[]" w] show ?thesis
    by (simp add: worker_resume_def ends_def del: worker_loop.simps)
qed

text \<open>The relay publishes exactly the pending outbox: it returns their number, appends
  their notifications to the queue in order, leaves nothing pending and no item touched.\<close>

theorem relay_publishes_pending:
  assumes "repo_reachable (co_repo s)"
  shows "\<exists>s'. relay_pending env s = (Inr (int (length (pending_outbox (co_repo s)))), s')
    \<and> queued (co_broker s') = queued (co_broker s) @ map ob_notification (pending_outbox (co_repo s))
    \<and> pending_outbox (co_repo s') = [] \<and> items_map (co_repo s') = items_map (co_repo s)"
  using relay_run [OF outbox_reachable [OF assms]] by blast

text \<open>C23. Submission stores what a worker needs: for a bulk execution it either leaves the work
  repository unchanged or returns work bound to the configuration of the execution, whose
  payload is read back under the stored reference, and announces new work by a pending
  notification that matches it; and submitting it again at any later time returns the
  stored item and leaves the repository as it is.\<close>

theorem submit_stores_work:
  assumes "repo_reachable (co_repo s)" and "digest_ok (co_digest env) good"
    and "store_ok (co_digest env) good (co_objects s)" and "good (sub_payload sub)"
    and "submit env sub ctx s = (out, s')"
    and "repo_future (co_repo s') (co_repo s2)" and "\<not> blank (co_identifier env (co_calls s2))"
  shows "case out of
      Inl e \<Rightarrow> co_repo s' = co_repo s
    | Inr i \<Rightarrow> wi_job_id i = sub_job_id sub \<and> wi_item_id i = sub_item_id sub
        \<and> wi_configuration i = reference (ctx_configuration ctx)
        \<and> get_object (co_digest env) (wi_payload_reference i) (co_objects s') = Inr (sub_payload sub)
        \<and> (co_repo s' = co_repo s \<or> (\<exists>ob \<in> set (pending_outbox (co_repo s')). delivery_matches (ob_notification ob) i))
        \<and> (\<exists>j s2'. submit env sub ctx s2 = (Inr j, s2') \<and> co_repo s2' = co_repo s2 \<and> immutable_parts j = immutable_parts i)"
proof (cases "\<not> blank (co_identifier env (co_calls s)) \<and> (\<exists>i. submittable env sub ctx i)")
  case False
  with submit_refused [OF assms(2) False] assms(5) show ?thesis by auto
next
  case True
  then obtain i where i: "submittable env sub ctx i" and event: "\<not> blank (co_identifier env (co_calls s))" by blast
  let ?ob = "outbox_of (co_identifier env (co_calls s)) i"
  have parts: "wi_job_id i = sub_job_id sub" "wi_item_id i = sub_item_id sub"
      "wi_idempotency_key i = sub_idempotency_key sub" "wi_configuration i = reference (ctx_configuration ctx)"
      "wi_payload_reference i = stored_reference (co_digest env) PAYLOAD (sub_payload sub)"
    using i by (simp_all add: submittable_def submitted_item_def)
  obtain x r where create: "create_with_outbox i ?ob (co_repo s) = (x, r)" by fastforce
  with submit_run [OF assms(2) i event] assms(5)
  have out: "out = x" "co_repo s' = r"
      "co_objects s' = snd (put_payload (co_digest env) (sub_payload sub) (co_objects s))" by auto
  have read: "get_object (co_digest env) (wi_payload_reference i) (co_objects s') = Inr (sub_payload sub)"
    using put_object_stored [OF assms(2-4), of PAYLOAD] put_object_run [OF assms(2)] out(3) parts(5)
    by (simp add: put_payload_def get_object_stored)
  have again: "\<exists>j s2'. submit env sub ctx s2 = (Inr j, s2') \<and> co_repo s2' = co_repo s2 \<and> immutable_parts j = immutable_parts i"
    if "dget (items_map r) (wi_job_id i, wi_idempotency_key i) = Some j0" "immutable_parts j0 = immutable_parts i" for j0
    using future_immutable [of r "co_repo s2", OF _ that(1)] that(2) assms(6) out(2) submit_run [OF assms(2) i assms(7)]
    by (auto simp: create_with_outbox_def immutable_parts_def Let_def)
  show ?thesis
  proof (rule create_outcomes [of i ?ob "co_repo s"])
    fix e assume "create_with_outbox i ?ob (co_repo s) = (Inl e, co_repo s)"
    then show ?thesis using create out by simp
  next
    fix old assume old: "dget (items_map (co_repo s)) (wi_job_id i, wi_idempotency_key i) = Some old"
      "wi_item_id old = wi_item_id i" "wi_configuration old = wi_configuration i"
      "wi_payload_reference old = wi_payload_reference i" "create_with_outbox i ?ob (co_repo s) = (Inr old, co_repo s)"
    have "wi_job_id old = wi_job_id i"
      using cell_item [OF repo_reachable_ok [OF assms(1)] old(1)] by (simp add: cell_ok.simps)
    then show ?thesis using again [of old] old create out read parts by (auto simp: immutable_parts_def)
  next
    assume new: "create_with_outbox i ?ob (co_repo s) = (Inr i, (co_repo s)\<lparr>
        items_map := dset (wi_job_id i, wi_idempotency_key i) i (items_map (co_repo s)),
        item_ids_map := dset (wi_job_id i, wi_item_id i) (wi_idempotency_key i) (item_ids_map (co_repo s)),
        outbox_map := dset (ob_event_id ?ob) ?ob (outbox_map (co_repo s))\<rparr>)"
    then have r: "x = Inr i" "r = (co_repo s)\<lparr>items_map := dset (wi_job_id i, wi_idempotency_key i) i (items_map (co_repo s)),
        item_ids_map := dset (wi_job_id i, wi_item_id i) (wi_idempotency_key i) (item_ids_map (co_repo s)),
        outbox_map := dset (ob_event_id ?ob) ?ob (outbox_map (co_repo s))\<rparr>"
      using create by auto
    then have "dget (outbox_map r) (ob_event_id ?ob) = Some ?ob" by simp
    then have "?ob \<in> set (pending_outbox r)"
      using dget_in_values by (fastforce simp: pending_outbox_def outbox_of_def)
    moreover have "delivery_matches (ob_notification ?ob) i"
      by (simp add: delivery_matches_def outbox_of_def item_notification_def)
    moreover have "dget (items_map r) (wi_job_id i, wi_idempotency_key i) = Some i" using r by simp
    ultimately show ?thesis using again [of i] out r(1) read parts by auto
  qed
qed

text \<open>C25. A delivery is acknowledged only with a claim: if the notification is unknown, does not
  match the durable item, or the claim is refused, the broker keeps the delivery in flight
  and no item changes; otherwise the delivery is settled, whether the lease was acquired
  or is held by another worker.\<close>

theorem delivery_acknowledged_after_claim:
  assumes "repo_reachable (co_repo s)" and "claim_delivery env dl owner d s = (out, s')"
  shows "case out of
      Inl e \<Rightarrow> co_broker s' = co_broker s \<and> co_repo s' = co_repo s
    | Inr c \<Rightarrow> dget (inflight (co_broker s')) (delivery_id dl) = None
        \<and> queued (co_broker s') = queued (co_broker s)
        \<and> delivery_matches (bd_notification dl) (claim_item c)
        \<and> claim (wn_job_id (bd_notification dl)) (wn_idempotency_key (bd_notification dl)) owner
            (co_now env (co_clock s)) d (co_repo s) = (Inr c, co_repo s')"
proof -
  let ?n = "bd_notification dl"
  let ?claim = "claim (wn_job_id ?n) (wn_idempotency_key ?n) owner (co_now env (co_clock s)) d (co_repo s)"
  have ok: "repo_ok (co_repo s)" by (rule repo_reachable_ok [OF assms(1)])
  show ?thesis
  proof (cases "get_item (wn_job_id ?n) (wn_idempotency_key ?n) (co_repo s)")
    case None
    then show ?thesis using assms(2) by (auto simp: claim_delivery_def Let_def)
  next
    case (Some i)
    then have item: "dget (items_map (co_repo s)) (wn_job_id ?n, wn_idempotency_key ?n) = Some i" by (simp add: get_item_def)
    show ?thesis
    proof (cases "delivery_matches ?n i")
      case False
      then show ?thesis using Some assms(2) by (auto simp: claim_delivery_def Let_def)
    next
      case True
      obtain x r where run: "?claim = (x, r)" by fastforce
      have refused: "r = co_repo s" if "x = Inl e" for e
        by (rule claim_outcomes [OF ok, of "wn_job_id ?n" "wn_idempotency_key ?n" owner "co_now env (co_clock s)" d])
           (use run that in auto)
      have matched: "delivery_matches ?n (claim_item c)" if "x = Inr c" for c
        by (rule claim_outcomes [OF ok, of "wn_job_id ?n" "wn_idempotency_key ?n" owner "co_now env (co_clock s)" d])
           (use run that item True in \<open>auto simp: delivery_matches_def claimed_item_def\<close>)
      show ?thesis
        using Some True run refused matched assms(2)
        by (cases x) (auto simp: claim_delivery_def Let_def bindM_def co_tick_def with_repo_def acknowledge_def)
    qed
  qed
qed

section \<open>Witnesses\<close>

text \<open>A processor that checkpoints the due stage one microsecond before its lease expires.\<close>

definition sample_process :: "work_claim \<Rightarrow> execution_context \<Rightarrow> (unit memory_world, bulk_stage_result) meth" where
  "sample_process c ctx w =
     (case (due_stage (''j'', ''k'') (wd_repo w), wi_lease_owner (claim_item c), wi_lease_expires_at (claim_item c)) of
        (Some stage, Some owner, Some e) \<Rightarrow>
          (case checkpoint ''j'' ''k'' owner stage ''ok'' (dt_plus e (-1)) None (wd_repo w) of
             (Inl x, r) \<Rightarrow> (Inl x, w\<lparr>wd_repo := r\<rparr>)
           | (Inr cp, r) \<Rightarrow> (Inr \<lparr>bsr_action = STAGE_CHECKPOINTED, bsr_checkpoint_stage = Some stage,
                bsr_terminal = None, bsr_outcome = ''ok''\<rparr>, w\<lparr>wd_repo := r\<rparr>))
      | _ \<Rightarrow> (Inl (RuntimeError ''no lease''), w))"

lemma checkpoint_due_runs:
  assumes ok: "repo_ok r" and i: "dget (items_map r) (job, ikey) = Some i" "owns owner now i"
    and due: "due_stage (job, ikey) r = Some stage" and out: "\<not> blank out"
  shows "\<exists>cp r'. checkpoint job ikey owner stage out now res r = (Inr cp, r')"
proof -
  have "completed_stage l < stage" if "latest (job, ikey) r = Some l" for l
    using that due next_stage_later by (simp add: due_stage_def)
  then have "checkpoint job ikey owner stage out now res r
      = record_checkpoint (job, ikey) i stage out now res (int (length (checkpoints_of (job, ikey) r)) + 1) r"
    using checkpoint_later [OF i item_history [OF ok i(1)]] by simp
  moreover have "1 \<le> int (length (checkpoints_of (job, ikey) r)) + 1" by simp
  from ok i this have "\<exists>cp r'. record_checkpoint (job, ikey) i stage out now res
      (int (length (checkpoints_of (job, ikey) r)) + 1) r = (Inr cp, r')"
    by (rule record_checkpoint_outcomes [of r job ikey i owner now _ stage out res]) (use out in auto)
  ultimately show ?thesis by simp
qed

lemma sample_checkpointing: "checkpointing ''j'' ''k'' ctx sample_process"
  unfolding checkpointing_def
proof (intro allI impI)
  fix c :: work_claim and stage and w :: "unit memory_world"
  assume ok: "repo_ok (wd_repo w)" and item: "dget (items_map (wd_repo w)) (''j'', ''k'') = Some (claim_item c)"
    and state: "wi_state (claim_item c) = WS_IN_PROGRESS" and due: "due_stage (''j'', ''k'') (wd_repo w) = Some stage"
  obtain owner x where lease: "wi_lease_owner (claim_item c) = Some owner" "wi_lease_expires_at (claim_item c) = Some (Aware x)"
    using cell_item [OF ok item] state by (auto simp: cell_ok.simps WorkItem_post_Inr tz_aware_iff)
  then have "owns owner (Aware (x - 1)) (claim_item c)"
    using state by (simp add: owns_def live_lease_def expiry_after_def)
  then obtain cp r where "checkpoint ''j'' ''k'' owner stage ''ok'' (Aware (x - 1)) None (wd_repo w) = (Inr cp, r)"
    using checkpoint_due_runs [OF ok item _ due, of owner "Aware (x - 1)" "''ok''" None] by auto
  then show "\<exists>result w' cp owner out now res. sample_process c ctx w = (Inr result, w')
      \<and> bsr_action result = STAGE_CHECKPOINTED
      \<and> checkpoint ''j'' ''k'' owner stage out now res (wd_repo w) = (Inr cp, wd_repo w')"
    using due lease by (force simp: sample_process_def)
qed

lemma worker_completes_witness:
  "\<exists>rs w'. worker_resume 6 (memory_worker (\<lambda>t. Aware (int t)) sample_process 100) ''j'' ''k'' ''w1'' sample_context None
      \<lparr>wd_repo = sample_created, wd_clock = 0, wd_own = ()\<rparr> = Some (Inr rs, w') \<and> length rs = 5"
proof -
  have "due_stage (''j'', ''k'') sample_created = Some CS_ACCEPTED"
    using sample_created_latest by (simp add: due_stage_def)
  then show ?thesis
    using worker_completes [of "\<lparr>wd_repo = sample_created, wd_clock = 0, wd_own = ()\<rparr>" "''j''" "''k''" sample_item
        "\<lambda>t. Aware (int t)" 100 "''w1''" sample_context sample_process]
      sample_created_reachable sample_created_item sample_checkpointing
    by (auto simp: sample_item_def live_lease_def checkpoint_stages_def)
qed

definition sample_coordinator :: coordinator_state where
  "sample_coordinator = \<lparr>co_repo = sample_created, co_objects = [], co_broker = broker_init (\<lambda>n. ''d''), co_clock = 0, co_calls = 0\<rparr>"

definition sample_coordinator_env :: coordinator_env where
  "sample_coordinator_env = \<lparr>co_now = (\<lambda>n. Aware (int n)), co_digest = sample_digest, co_identifier = (\<lambda>n. ''e2'')\<rparr>"

lemma sample_pending: "pending_outbox sample_created = [sample_outbox]"
  by (simp add: sample_created_def create_with_outbox_def repository_init_def pending_outbox_def sample_outbox_def)

lemma relay_publishes_pending_witness:
  "\<exists>s'. relay_pending sample_coordinator_env sample_coordinator = (Inr 1, s') \<and> pending_outbox (co_repo s') = []"
  using relay_publishes_pending [of sample_coordinator sample_coordinator_env] sample_created_reachable sample_pending
  by (auto simp: sample_coordinator_def)

definition sample_submission :: work_submission where
  "sample_submission = \<lparr>sub_job_id = ''j'', sub_item_id = ''i2'', sub_idempotency_key = ''k2'', sub_payload = ''data''\<rparr>"

lemma submit_stores_work_witness:
  "\<exists>i s'. submit sample_coordinator_env sample_submission sample_context sample_coordinator = (Inr i, s')
     \<and> get_object sample_digest (wi_payload_reference i) (co_objects s') = Inr ''data''"
proof -
  obtain out s' where run: "submit sample_coordinator_env sample_submission sample_context sample_coordinator = (out, s')"
    by fastforce
  have "fst (submit sample_coordinator_env sample_submission sample_context sample_coordinator) = Inr
      (submitted_item sample_submission sample_context (stored_reference sample_digest PAYLOAD ''data''))"
    by code_simp
  then obtain i where "out = Inr i" using run by simp
  then show ?thesis
    using submit_stores_work [of sample_coordinator sample_coordinator_env "\<lambda>_. True" sample_submission sample_context out s' s',
        OF _ _ _ _ run repo_future.now]
      sample_created_reachable sample_digest_ok run
    by (auto simp: sample_coordinator_def sample_coordinator_env_def store_ok_def sample_submission_def)
qed

definition sample_delivery :: broker_delivery where
  "sample_delivery = \<lparr>delivery_id = ''d'', bd_notification = ob_notification sample_outbox\<rparr>"

lemma delivery_acknowledged_after_claim_witness:
  "\<exists>c s'. claim_delivery sample_coordinator_env sample_delivery ''w1'' 100 sample_coordinator = (Inr c, s')
     \<and> dget (inflight (co_broker s')) ''d'' = None"
proof -
  obtain out s' where run: "claim_delivery sample_coordinator_env sample_delivery ''w1'' 100 sample_coordinator = (out, s')"
    by fastforce
  have "returned (fst (claim_delivery sample_coordinator_env sample_delivery ''w1'' 100 sample_coordinator))"
    by code_simp
  then obtain c where "out = Inr c" using run by (cases out) (auto simp: returned_def)
  then show ?thesis
    using delivery_acknowledged_after_claim [OF _ run] sample_created_reachable run
    by (auto simp: sample_coordinator_def sample_delivery_def)
qed

end
