(* ===== verification/Json.thy ===== *)
theory Json
  imports Frozen
begin

text \<open>
  The text layer under the content hashes of the program: decimal numerals, Python's
  equality of values, \<open>json.dumps\<close> with the options the source passes, and UTF-8. The
  digest \<open>sha256(...).hexdigest()\<close> is a parameter of the definitions that use it, and so
  is the text of a finite float.
\<close>

section \<open>Numerals\<close>

definition digit :: "nat \<Rightarrow> char" where
  "digit n = char_of (48 + n)"

fun digits :: "nat \<Rightarrow> string" where
  "digits n = (if n < 10 then [digit n] else digits (n div 10) @ [digit (n mod 10)])"

declare digits.simps [simp del]

definition decimal :: "int \<Rightarrow> string" where
  "decimal i = (if i < 0 then CHR ''-'' # digits (nat (- i)) else digits (nat i))"

text \<open>\<open>str\<close> of a value; \<open>show\<close> gives the text of floats, containers and objects.\<close>

fun py_str :: "(pyval \<Rightarrow> string) \<Rightarrow> pyval \<Rightarrow> string" where
  "py_str show (VStr s) = s"
| "py_str show (VInt i) = decimal i"
| "py_str show (VBool b) = (if b then ''True'' else ''False'')"
| "py_str show VNone = ''None''"
| "py_str show v = show v"

section \<open>Equality\<close>

text \<open>\<open>==\<close> of Python: numbers and booleans are compared as numbers, lists with lists, tuples
  with tuples, mappings as sets of entries; not-a-number equals nothing.\<close>

fun py_number :: "pyval \<Rightarrow> pyfloat option" where
  "py_number (VBool b) = Some (Finite (if b then 1 else 0))"
| "py_number (VInt i) = Some (Finite (of_int i))"
| "py_number (VFloat x) = Some x"
| "py_number _ = None"

fun py_eq :: "pyval \<Rightarrow> pyval \<Rightarrow> bool" and py_eq_list :: "pyval list \<Rightarrow> pyval list \<Rightarrow> bool"
  and py_member :: "pyval \<Rightarrow> pyval list \<Rightarrow> bool" and py_subset :: "pyval list \<Rightarrow> pyval list \<Rightarrow> bool"
  and py_eq_entries :: "(string \<times> pyval) list \<Rightarrow> (string \<times> pyval) list \<Rightarrow> bool" where
  "py_eq (VList xs) w = (case w of VList ys \<Rightarrow> py_eq_list xs ys | _ \<Rightarrow> False)"
| "py_eq (VTuple xs) w = (case w of VTuple ys \<Rightarrow> py_eq_list xs ys | _ \<Rightarrow> False)"
| "py_eq (VFrozen m) w = (case w of VFrozen m' \<Rightarrow> py_eq_entries m m' | _ \<Rightarrow> False)"
| "py_eq (VSet xs) w = (case w of VSet ys \<Rightarrow> py_subset xs ys \<and> length xs = length ys
     | VFrozenset ys \<Rightarrow> py_subset xs ys \<and> length xs = length ys | _ \<Rightarrow> False)"
| "py_eq (VFrozenset xs) w = (case w of VSet ys \<Rightarrow> py_subset xs ys \<and> length xs = length ys
     | VFrozenset ys \<Rightarrow> py_subset xs ys \<and> length xs = length ys | _ \<Rightarrow> False)"
| "py_eq VNone w = (w = VNone)"
| "py_eq (VStr s) w = (w = VStr s)"
| "py_eq (VBytes s) w = (w = VBytes s \<or> w = VByteArray s)"
| "py_eq (VByteArray s) w = (w = VBytes s \<or> w = VByteArray s)"
| "py_eq (VDict d) w = (w = VDict d)"
| "py_eq (VObject n) w = (w = VObject n)"
| "py_eq (VBool b) w = (py_number w = py_number (VBool b))"
| "py_eq (VInt i) w = (py_number w = py_number (VInt i))"
| "py_eq (VFloat x) w = (x \<noteq> NaN \<and> py_number w = Some x)"
| "py_eq_list [] ys = (ys = [])"
| "py_eq_list (x # xs) ys = (case ys of [] \<Rightarrow> False | y # ys' \<Rightarrow> py_eq x y \<and> py_eq_list xs ys')"
| "py_member x [] = False"
| "py_member x (y # ys) = (py_eq x y \<or> py_member x ys)"
| "py_subset [] ys = True"
| "py_subset (x # xs) ys = (py_member x ys \<and> py_subset xs ys)"
| "py_eq_entries [] m = (m = [])"
| "py_eq_entries ((k, v) # kvs) m = (case m of [] \<Rightarrow> False
     | (k', v') # m' \<Rightarrow> k = k' \<and> py_eq v v' \<and> py_eq_entries kvs m')"

section \<open>json.dumps\<close>

record json_format =
  jf_ascii :: bool
  jf_sort :: bool
  jf_item :: string
  jf_key :: string
  jf_nan :: bool
  jf_float :: "rat \<Rightarrow> string"

definition hex_digit :: "nat \<Rightarrow> char" where
  "hex_digit n = (if n < 10 then char_of (48 + n) else char_of (87 + n))"

definition unicode_escape :: "char \<Rightarrow> string" where
  "unicode_escape c = (let n = of_char c :: nat in
     CHR 0x5C # ''u00'' @ [hex_digit (n div 16), hex_digit (n mod 16)])"

definition json_char :: "bool \<Rightarrow> char \<Rightarrow> string" where
  "json_char asc c =
     (if c = CHR 0x22 then [CHR 0x5C, CHR 0x22]
      else if c = CHR 0x5C then [CHR 0x5C, CHR 0x5C]
      else if c = CHR 0x0A then [CHR 0x5C, CHR ''n'']
      else if c = CHR 0x0D then [CHR 0x5C, CHR ''r'']
      else if c = CHR 0x09 then [CHR 0x5C, CHR ''t'']
      else if c = CHR 0x0C then [CHR 0x5C, CHR ''f'']
      else if c = CHR 0x08 then [CHR 0x5C, CHR ''b'']
      else if (of_char c :: nat) < 32 \<or> asc \<and> 126 < (of_char c :: nat) then unicode_escape c
      else [c])"

definition json_string :: "bool \<Rightarrow> string \<Rightarrow> string" where
  "json_string asc s = CHR 0x22 # concat (map (json_char asc) s) @ [CHR 0x22]"

fun json_float :: "json_format \<Rightarrow> pyfloat \<Rightarrow> string res" where
  "json_float f (Finite q) = Inr (jf_float f q)"
| "json_float f x =
     (if \<not> jf_nan f then Inl (ValueError ''Out of range float values are not JSON compliant'')
      else Inr (case x of PosInf \<Rightarrow> ''Infinity'' | NegInf \<Rightarrow> ''-Infinity'' | _ \<Rightarrow> ''NaN''))"

text \<open>The program only dumps dictionaries with string keys; another key raises here.\<close>

fun dumps :: "json_format \<Rightarrow> pyval \<Rightarrow> string res"
and dumps_list :: "json_format \<Rightarrow> pyval list \<Rightarrow> string list res"
and dumps_items :: "json_format \<Rightarrow> (pyval \<times> pyval) list \<Rightarrow> (string \<times> string) list res" where
  "dumps f VNone = Inr ''null''"
| "dumps f (VBool b) = Inr (if b then ''true'' else ''false'')"
| "dumps f (VInt i) = Inr (decimal i)"
| "dumps f (VFloat x) = json_float f x"
| "dumps f (VStr s) = Inr (json_string (jf_ascii f) s)"
| "dumps f (VList xs) = bindR (dumps_list f xs) (\<lambda>ts. Inr (CHR ''['' # join (jf_item f) ts @ '']''))"
| "dumps f (VTuple xs) = bindR (dumps_list f xs) (\<lambda>ts. Inr (CHR ''['' # join (jf_item f) ts @ '']''))"
| "dumps f (VDict kvs) = bindR (dumps_items f kvs) (\<lambda>ts.
     Inr (CHR ''{'' # join (jf_item f) (map (\<lambda>(k, t). json_string (jf_ascii f) k @ jf_key f @ t)
       (if jf_sort f then sort_key fst ts else ts)) @ ''}''))"
| "dumps f (VBytes b) = Inl (TypeError ''Object of type bytes is not JSON serializable'')"
| "dumps f (VByteArray b) = Inl (TypeError ''Object of type bytearray is not JSON serializable'')"
| "dumps f (VSet xs) = Inl (TypeError ''Object of type set is not JSON serializable'')"
| "dumps f (VFrozenset xs) = Inl (TypeError ''Object of type frozenset is not JSON serializable'')"
| "dumps f (VFrozen m) = Inl (TypeError ''Object of type FrozenMapping is not JSON serializable'')"
| "dumps f (VObject n) = Inl (TypeError (''Object of type '' @ n @ '' is not JSON serializable''))"
| "dumps_list f [] = Inr []"
| "dumps_list f (x # xs) = bindR (dumps f x) (\<lambda>t. bindR (dumps_list f xs) (\<lambda>ts. Inr (t # ts)))"
| "dumps_items f [] = Inr []"
| "dumps_items f ((k, v) # kvs) =
     (if \<not> is_str k then Inl (TypeError ''keys must be strings'')
      else bindR (dumps f v) (\<lambda>t. bindR (dumps_items f kvs) (\<lambda>ts. Inr ((str_of k, t) # ts))))"

text \<open>\<open>separators=(",", ":")\<close>; with \<open>ensure_ascii=False\<close> unless the first argument is set.\<close>

definition compact :: "bool \<Rightarrow> bool \<Rightarrow> (rat \<Rightarrow> string) \<Rightarrow> json_format" where
  "compact asc nan frepr = \<lparr>jf_ascii = asc, jf_sort = True, jf_item = '','', jf_key = '':'', jf_nan = nan,
     jf_float = frepr\<rparr>"

section \<open>UTF-8\<close>

definition utf8_char :: "char \<Rightarrow> string" where
  "utf8_char c = (let n = of_char c :: nat in
     if n < 128 then [c] else [char_of (192 + n div 64), char_of (128 + n mod 64)])"

definition utf8 :: "string \<Rightarrow> string" where
  "utf8 s = concat (map utf8_char s)"

end
