(* ===== verification/Validation.thy ===== *)
theory Validation
  imports Json Domain "HOL-Library.Multiset"
begin

text \<open>
  \<open>validation/\<close>: the immutable-by-version registry of validation rules and the
  deterministic validator, which decides whether the output of a model call corresponds
  to its input identifiers and obeys the field rules bound to the execution. The digest,
  the text of values other than strings, numbers and booleans, and the metadata sink are
  parameters.
\<close>

section \<open>Rules\<close>

datatype field_type = FT_STRING | FT_INTEGER | FT_NUMBER | FT_BOOLEAN

record field_rule =
  rule_id :: string
  rule_field :: string
  value_type :: field_type
  rule_required :: bool
  rule_nullable :: bool
  allowed_values :: "pyval list option"
  rule_minimum :: "pyfloat option"
  rule_maximum :: "pyfloat option"

text \<open>\<open><\<close> on numbers: every comparison with not-a-number is false.\<close>

fun pf_less :: "pyfloat \<Rightarrow> pyfloat \<Rightarrow> bool" where
  "pf_less (Finite a) (Finite b) = (a < b)"
| "pf_less (Finite a) PosInf = True"
| "pf_less NegInf (Finite b) = True"
| "pf_less NegInf PosInf = True"
| "pf_less x y = False"

definition FieldRule_post :: "field_rule \<Rightarrow> field_rule res" where
  "FieldRule_post r =
     (if blank (rule_id r) \<or> blank (rule_field r)
      then Inl (ValueError ''validation rule and field identifiers must not be blank'')
      else if (case (rule_minimum r, rule_maximum r) of (Some lo, Some hi) \<Rightarrow> pf_less hi lo | _ \<Rightarrow> False)
      then Inl (ValueError ''validation rule minimum must not exceed maximum'')
      else Inr r)"

record validation_rules =
  vr_version :: string
  identifier_field :: string
  field_rules :: "field_rule list"
  allow_additional_fields :: bool

definition ValidationRules_post :: "validation_rules \<Rightarrow> validation_rules res" where
  "ValidationRules_post r =
     (if blank (vr_version r) \<or> blank (identifier_field r)
      then Inl (ValueError ''validation version and identifier field must not be blank'')
      else if \<not> distinct (map rule_id (field_rules r)) \<or> \<not> distinct (map rule_field (field_rules r))
      then Inl (ValueError ''validation rule identifiers and fields must be unique'')
      else Inr r)"

text \<open>Equality of the dataclasses: allowed values are compared as sets.\<close>

definition field_rule_eq :: "field_rule \<Rightarrow> field_rule \<Rightarrow> bool" where
  "field_rule_eq a b \<longleftrightarrow> rule_id a = rule_id b \<and> rule_field a = rule_field b \<and> value_type a = value_type b
     \<and> rule_required a = rule_required b \<and> rule_nullable a = rule_nullable b
     \<and> (case (allowed_values a, allowed_values b) of (None, None) \<Rightarrow> True
          | (Some x, Some y) \<Rightarrow> py_eq (VFrozenset x) (VFrozenset y) | _ \<Rightarrow> False)
     \<and> rule_minimum a = rule_minimum b \<and> rule_maximum a = rule_maximum b"

definition validation_rules_eq :: "validation_rules \<Rightarrow> validation_rules \<Rightarrow> bool" where
  "validation_rules_eq a b \<longleftrightarrow> vr_version a = vr_version b \<and> identifier_field a = identifier_field b
     \<and> list_all2 field_rule_eq (field_rules a) (field_rules b)
     \<and> allow_additional_fields a = allow_additional_fields b"

type_synonym rules_registry = "(string, validation_rules) dict"

definition rules_register :: "validation_rules \<Rightarrow> (rules_registry, unit) meth" where
  "rules_register r reg =
     (case dget reg (vr_version r) of
        Some existing \<Rightarrow>
          if \<not> validation_rules_eq existing r
          then (Inl (ValueError (''validation rules version '' @ CHR 0x27 # vr_version r @ CHR 0x27 # '' is immutable'')), reg)
          else (Inr (), dset (vr_version r) r reg)
      | None \<Rightarrow> (Inr (), dset (vr_version r) r reg))"

definition rules_resolve :: "string option \<Rightarrow> rules_registry \<Rightarrow> validation_rules option" where
  "rules_resolve v reg = (case v of None \<Rightarrow> None | Some s \<Rightarrow> if s = [] then None else dget reg s)"

section \<open>Outcomes\<close>

datatype validation_status = VS_ACCEPTED | VS_FAILED

record validation_outcome =
  vo_accepted :: bool
  vo_status :: validation_status
  vo_failed_rule_ids :: "string list"
  vo_reason_codes :: "string list"
  vo_input_digest :: string
  vo_output_digest :: string
  vo_rules_version :: string

record validation_metadata =
  vm_rules_version :: string
  vm_outcome :: validation_status
  vm_failed_rule_ids :: "string list"
  vm_reason_codes :: "string list"
  vm_input_digest :: string
  vm_output_digest :: string

record validation_result =
  vres_outcome :: validation_outcome
  accepted_records :: "frozen_mapping list"
  metadata_recorded :: bool

definition ValidationResult_post :: "validation_result \<Rightarrow> validation_result res" where
  "ValidationResult_post r =
     (if \<not> vo_accepted (vres_outcome r) \<and> accepted_records r \<noteq> []
      then Inl (ValueError ''validation-failed results must withhold output'')
      else Inr r)"

section \<open>The validator\<close>

record 't validator_env =
  ve_show :: "pyval \<Rightarrow> string"
  ve_sha :: "string \<Rightarrow> string"
  ve_record :: "validation_metadata \<Rightarrow> ('t, unit) meth"

definition canonical_identifiers :: "string list \<Rightarrow> string" where
  "canonical_identifiers ids = CHR ''['' # join '','' (map (json_string False) (sort ids)) @ '']''"

definition identifier_digest :: "(string \<Rightarrow> string) \<Rightarrow> string list \<Rightarrow> string" where
  "identifier_digest sha ids = sha (utf8 (canonical_identifiers ids))"

fun matches_type :: "pyval \<Rightarrow> field_type \<Rightarrow> bool" where
  "matches_type v FT_STRING = is_str v"
| "matches_type v FT_INTEGER = (case v of VInt _ \<Rightarrow> True | _ \<Rightarrow> False)"
| "matches_type v FT_NUMBER = (case v of VInt _ \<Rightarrow> True | VFloat _ \<Rightarrow> True | _ \<Rightarrow> False)"
| "matches_type v FT_BOOLEAN = (case v of VBool _ \<Rightarrow> True | _ \<Rightarrow> False)"

definition domain_failure :: "field_rule \<Rightarrow> pyval \<Rightarrow> string option" where
  "domain_failure r v =
     (if \<not> matches_type v (value_type r) then Some ''type_mismatch''
      else if (case allowed_values r of None \<Rightarrow> False | Some vs \<Rightarrow> \<not> py_member v vs) then Some ''value_not_allowed''
      else if (case (rule_minimum r, py_number v) of (Some lo, Some x) \<Rightarrow> pf_less x lo | _ \<Rightarrow> False)
      then Some ''value_below_minimum''
      else if (case (rule_maximum r, py_number v) of (Some hi, Some x) \<Rightarrow> pf_less hi x | _ \<Rightarrow> False)
      then Some ''value_above_maximum''
      else None)"

text \<open>The failed rules and the reasons, each without repetitions in order of appearance.\<close>

type_synonym failure_log = "string list \<times> string list"

definition add_failure :: "string \<Rightarrow> string \<Rightarrow> failure_log \<Rightarrow> failure_log" where
  "add_failure rule reason lg = (case lg of (failed, reasons) \<Rightarrow>
     (if rule \<in> set failed then failed else failed @ [rule],
      if reason \<in> set reasons then reasons else reasons @ [reason]))"

text \<open>The entries of a mapping with string keys.\<close>

fun entries_of :: "pyval \<Rightarrow> (string \<times> pyval) list" where
  "entries_of (VDict kvs) = map (\<lambda>(k, v). (str_of k, v)) kvs"
| "entries_of (VFrozen m) = m"
| "entries_of v = []"

definition check_rule :: "(string \<times> pyval) list \<Rightarrow> field_rule \<Rightarrow> failure_log \<Rightarrow> failure_log" where
  "check_rule rec r lg =
     (case map_of rec (rule_field r) of
        None \<Rightarrow> if rule_required r then add_failure (rule_id r) ''required_field_missing'' lg else lg
      | Some v \<Rightarrow>
          if v = VNone
          then if \<not> rule_nullable r then add_failure (rule_id r) ''null_not_allowed'' lg else lg
          else (case domain_failure r v of Some reason \<Rightarrow> add_failure (rule_id r) reason lg | None \<Rightarrow> lg))"

definition check_record :: "validation_rules \<Rightarrow> (string \<times> pyval) list \<Rightarrow> failure_log \<Rightarrow> failure_log" where
  "check_record rules rec lg =
     (let lg1 = (case map_of rec (identifier_field rules) of
                    None \<Rightarrow> add_failure ''identifiers.present'' ''identifier_missing'' lg
                  | Some v \<Rightarrow> if v = VNone then add_failure ''identifiers.present'' ''identifier_missing'' lg else lg);
          lg2 = (if \<not> allow_additional_fields rules \<and> \<not> set (map fst rec) \<subseteq> set (map rule_field (field_rules rules))
                  then add_failure ''schema.additional_fields'' ''additional_fields'' lg1 else lg1) in
      fold (check_rule rec) (field_rules rules) lg2)"

definition record_identifier :: "validation_rules \<Rightarrow> (string \<times> pyval) list \<Rightarrow> pyval list" where
  "record_identifier rules rec = (case map_of rec (identifier_field rules) of
     None \<Rightarrow> [] | Some v \<Rightarrow> if v = VNone then [] else [v])"

text \<open>The loop over the output: frozen records, identifiers and failures.\<close>

fun scan_output :: "validation_rules \<Rightarrow> pyval list \<Rightarrow> failure_log \<Rightarrow> (frozen_mapping list \<times> pyval list \<times> failure_log) res" where
  "scan_output rules [] lg = Inr ([], [], lg)"
| "scan_output rules (rec # recs) lg =
     bindR (freeze rec) (\<lambda>fr. (case fr of
        VFrozen m \<Rightarrow>
          bindR (scan_output rules recs (check_record rules (entries_of rec) lg)) (\<lambda>(ms, ids, lg').
            Inr (m # ms, record_identifier rules (entries_of rec) @ ids, lg'))
      | _ \<Rightarrow> Inl (AssertionError [])))"

definition check_identifiers :: "string list \<Rightarrow> string list \<Rightarrow> nat \<Rightarrow> failure_log \<Rightarrow> failure_log" where
  "check_identifiers inputs outputs n lg =
     (let lg1 = (if \<not> distinct outputs then add_failure ''identifiers.unique'' ''duplicate_identifiers'' lg else lg);
          lg2 = (if set outputs \<noteq> set inputs then add_failure ''identifiers.exact_set'' ''identifier_set_mismatch'' lg1 else lg1) in
      if n \<noteq> length inputs then add_failure ''cardinality.equal'' ''cardinality_mismatch'' lg2 else lg2)"

definition finish_validation ::
    "'t validator_env \<Rightarrow> string \<Rightarrow> string list \<Rightarrow> string list \<Rightarrow> frozen_mapping list \<Rightarrow> failure_log
     \<Rightarrow> ('t, validation_result) meth" where
  "finish_validation env ver inputs outputs records lg t =
     (let accepted = (fst lg = []);
          status = (if accepted then VS_ACCEPTED else VS_FAILED);
          din = identifier_digest (ve_sha env) inputs; dout = identifier_digest (ve_sha env) outputs in
      case ve_record env \<lparr>vm_rules_version = ver, vm_outcome = status, vm_failed_rule_ids = fst lg,
             vm_reason_codes = snd lg, vm_input_digest = din, vm_output_digest = dout\<rparr> t of
        (recorded, t') \<Rightarrow>
          (ValidationResult_post \<lparr>vres_outcome = \<lparr>vo_accepted = accepted, vo_status = status,
               vo_failed_rule_ids = fst lg, vo_reason_codes = snd lg, vo_input_digest = din,
               vo_output_digest = dout, vo_rules_version = ver\<rparr>,
             accepted_records = (if accepted then records else []), metadata_recorded = returned recorded\<rparr>, t'))"

definition validate :: "'t validator_env \<Rightarrow> rules_registry \<Rightarrow> string list \<Rightarrow> pyval list \<Rightarrow> execution_context
    \<Rightarrow> ('t, validation_result) meth" where
  "validate env reg inputs output ctx =
     (let ver = validation_rules_version (ctx_configuration ctx) in
      case rules_resolve ver reg of
        None \<Rightarrow> finish_validation env (case ver of Some (c # s) \<Rightarrow> c # s | _ \<Rightarrow> ''unavailable'') inputs [] []
                  ([''validation.rules.bound''], [''rules_unavailable''])
      | Some rules \<Rightarrow>
          (\<lambda>t. case scan_output rules output ([], []) of
             Inl e \<Rightarrow> (Inl e, t)
           | Inr (records, ids, lg) \<Rightarrow>
               (let outputs = map (py_str (ve_show env)) ids in
                finish_validation env (vr_version rules) inputs outputs records
                  (check_identifiers inputs outputs (length output) lg) t)))"

section \<open>What acceptance means\<close>

definition rule_conforms :: "(string \<times> pyval) list \<Rightarrow> field_rule \<Rightarrow> bool" where
  "rule_conforms rec r = (case map_of rec (rule_field r) of
     None \<Rightarrow> \<not> rule_required r
   | Some v \<Rightarrow> if v = VNone then rule_nullable r else domain_failure r v = None)"

definition record_conforms :: "validation_rules \<Rightarrow> (string \<times> pyval) list \<Rightarrow> bool" where
  "record_conforms rules rec \<longleftrightarrow> record_identifier rules rec \<noteq> []
     \<and> (allow_additional_fields rules \<or> set (map fst rec) \<subseteq> set (map rule_field (field_rules rules)))
     \<and> list_all (rule_conforms rec) (field_rules rules)"

definition clean :: "failure_log \<Rightarrow> bool" where
  "clean lg \<longleftrightarrow> fst lg = []"

lemma add_failure_dirty [simp]: "\<not> clean (add_failure rule reason lg)"
  by (auto simp: clean_def add_failure_def split: prod.splits)

lemma check_rule_clean: "clean (check_rule rec r lg) \<longleftrightarrow> clean lg \<and> rule_conforms rec r"
  by (auto simp: check_rule_def rule_conforms_def split: option.splits)

lemma check_rules_clean: "clean (fold (check_rule rec) rs lg) \<longleftrightarrow> clean lg \<and> list_all (rule_conforms rec) rs"
  by (induction rs arbitrary: lg) (auto simp: check_rule_clean)

lemma check_record_clean: "clean (check_record rules rec lg) \<longleftrightarrow> clean lg \<and> record_conforms rules rec"
  by (auto simp: check_record_def Let_def check_rules_clean record_conforms_def record_identifier_def
      split: option.splits if_splits)

lemma check_identifiers_clean: "clean (check_identifiers ins outs n lg) \<longleftrightarrow>
    clean lg \<and> distinct outs \<and> set outs = set ins \<and> n = length ins"
  by (auto simp: check_identifiers_def Let_def)

lemma scan_output_Cons:
  "scan_output rules (r # recs) lg = Inr (ms, ids, lg') \<longleftrightarrow>
     (\<exists>m ms' ids'. freeze r = Inr (VFrozen m) \<and> ms = m # ms' \<and> ids = record_identifier rules (entries_of r) @ ids'
        \<and> scan_output rules recs (check_record rules (entries_of r) lg) = Inr (ms', ids', lg'))"
proof (cases "freeze r")
  case (Inr fr)
  then show ?thesis by (cases fr; cases lg') (auto simp: bindR_Inr)
qed simp

lemma scan_output_clean:
  "scan_output rules recs lg = Inr (ms, ids, lg') \<Longrightarrow>
     (clean lg' \<longleftrightarrow> clean lg \<and> list_all (\<lambda>r. record_conforms rules (entries_of r)) recs)
     \<and> map (\<lambda>r. freeze r) recs = map (\<lambda>m. Inr (VFrozen m)) ms
     \<and> ids = concat (map (\<lambda>r. record_identifier rules (entries_of r)) recs)"
proof (induction recs arbitrary: lg ms ids)
  case (Cons r recs)
  then obtain m ms' ids' where step: "freeze r = Inr (VFrozen m)" "ms = m # ms'"
      "ids = record_identifier rules (entries_of r) @ ids'"
      "scan_output rules recs (check_record rules (entries_of r) lg) = Inr (ms', ids', lg')"
    by (auto simp: scan_output_Cons simp del: scan_output.simps)
  from Cons.IH [OF step(4)] step(1-3) show ?case by (auto simp: check_record_clean)
qed simp

lemma scan_output_runs:
  "map freeze recs = map (\<lambda>m. Inr (VFrozen m)) ms \<Longrightarrow> \<exists>ids lg'. scan_output rules recs lg = Inr (ms, ids, lg')"
proof (induction recs arbitrary: ms lg)
  case (Cons r recs)
  then obtain m ms' where "ms = m # ms'" "freeze r = Inr (VFrozen m)" "map freeze recs = map (\<lambda>m. Inr (VFrozen m)) ms'"
    by (cases ms) auto
  with Cons.IH [of ms' "check_record rules (entries_of r) lg"] show ?case by fastforce
qed simp

lemma one_identifier: "record_conforms rules rec \<Longrightarrow> length (record_identifier rules rec) = 1"
  by (auto simp: record_conforms_def record_identifier_def split: option.splits if_splits)

lemma conforming_identifiers:
  "list_all (\<lambda>r. record_conforms rules (entries_of r)) recs \<Longrightarrow>
     length (concat (map (\<lambda>r. record_identifier rules (entries_of r)) recs)) = length recs"
  by (induction recs) (auto simp: one_identifier)

text \<open>What the validator promises for one output: its records obey the rules and their
  identifiers are the input identifiers, each once.\<close>

definition corresponds :: "(pyval \<Rightarrow> string) \<Rightarrow> validation_rules \<Rightarrow> string list \<Rightarrow> pyval list \<Rightarrow> bool" where
  "corresponds show rules inputs output \<longleftrightarrow>
     list_all (\<lambda>r. record_conforms rules (entries_of r)) output \<and> distinct inputs
     \<and> mset (map (py_str show) (concat (map (\<lambda>r. record_identifier rules (entries_of r)) output))) = mset inputs"

lemma corresponds_iff:
  "list_all (\<lambda>r. record_conforms rules (entries_of r)) output \<Longrightarrow>
     outs = map (py_str show) (concat (map (\<lambda>r. record_identifier rules (entries_of r)) output)) \<Longrightarrow>
     corresponds show rules inputs output \<longleftrightarrow>
       distinct outs \<and> set outs = set inputs \<and> length output = length inputs"
proof -
  assume all: "list_all (\<lambda>r. record_conforms rules (entries_of r)) output"
    and outs: "outs = map (py_str show) (concat (map (\<lambda>r. record_identifier rules (entries_of r)) output))"
  have len: "length outs = length output" using conforming_identifiers [OF all] outs by simp
  have "distinct inputs \<and> mset outs = mset inputs" if "distinct outs" "set outs = set inputs" "length output = length inputs"
  proof -
    have "card (set inputs) = length inputs" using that len distinct_card [of outs] by simp
    then have "distinct inputs" by (rule card_distinct)
    then show ?thesis using that set_eq_iff_mset_eq_distinct by blast
  qed
  moreover have "distinct outs \<and> set outs = set inputs \<and> length output = length inputs"
    if "distinct inputs" "mset outs = mset inputs"
    using that len mset_eq_setD mset_eq_imp_distinct_iff mset_eq_length by metis
  ultimately show ?thesis using all outs by (auto simp: corresponds_def)
qed

lemma validate_run:
  assumes "rules_resolve (validation_rules_version (ctx_configuration ctx)) reg = Some rules"
    and "scan_output rules output ([], []) = Inr (records, ids, lg)"
  shows "validate env reg inputs output ctx = finish_validation env (vr_version rules) inputs
    (map (py_str (ve_show env)) ids) records (check_identifiers inputs (map (py_str (ve_show env)) ids) (length output) lg)"
  using assms by (simp add: validate_def Let_def fun_eq_iff)

lemma finish_run: "\<exists>d din dout t'. finish_validation env ver inputs outputs records lg t =
    (Inr \<lparr>vres_outcome = \<lparr>vo_accepted = clean lg, vo_status = (if clean lg then VS_ACCEPTED else VS_FAILED),
       vo_failed_rule_ids = fst lg, vo_reason_codes = snd lg, vo_input_digest = din, vo_output_digest = dout,
       vo_rules_version = ver\<rparr>, accepted_records = (if clean lg then records else []), metadata_recorded = d\<rparr>, t')"
  by (cases "ve_record env \<lparr>vm_rules_version = ver, vm_outcome = (if fst lg = [] then VS_ACCEPTED else VS_FAILED),
      vm_failed_rule_ids = fst lg, vm_reason_codes = snd lg, vm_input_digest = identifier_digest (ve_sha env) inputs,
      vm_output_digest = identifier_digest (ve_sha env) outputs\<rparr> t")
     (auto simp: finish_validation_def Let_def ValidationResult_post_def clean_def)

section \<open>Registries of versions\<close>

text \<open>An immutable-by-version registry: what is registered under a version is found under it
  for ever, up to the equality of the registered values.\<close>

locale version_registry =
  fixes register :: "'v \<Rightarrow> ('s, unit) meth" and lookup :: "'k \<Rightarrow> 's \<Rightarrow> 'v option"
    and version_of :: "'v \<Rightarrow> 'k" and same :: "'v \<Rightarrow> 'v \<Rightarrow> bool"
  assumes registered: "register v s = (Inr u, s') \<Longrightarrow> lookup (version_of v) s' = Some v"
    and others: "register v s = (x, s') \<Longrightarrow> k \<noteq> version_of v \<Longrightarrow> lookup k s' = lookup k s"
    and rejected: "register v s = (Inl e, s') \<Longrightarrow> s' = s"
    and guarded: "register v s = (Inr u, s') \<Longrightarrow> lookup (version_of v) s = Some w \<Longrightarrow> same w v"
begin

fun register_all :: "'v list \<Rightarrow> 's \<Rightarrow> 's" where
  "register_all [] s = s"
| "register_all (v # vs) s = register_all vs (snd (register v s))"

lemma register_step:
  assumes "lookup k s = Some w" "register v s = (x, s')"
  shows "\<exists>w'. lookup k s' = Some w' \<and> (w' = w \<or> same w w')"
proof (cases x)
  case (Inl e)
  then have "s' = s" using assms(2) rejected by blast
  with assms(1) show ?thesis by blast
next
  case (Inr u)
  then show ?thesis
    using assms registered guarded others by (cases "k = version_of v") auto
qed

lemma registered_stays:
  "lookup k s = Some w \<Longrightarrow> \<exists>w'. lookup k (register_all vs s) = Some w' \<and> same\<^sup>*\<^sup>* w w'"
proof (induction vs arbitrary: s w)
  case (Cons v vs)
  obtain w1 where "lookup k (snd (register v s)) = Some w1" "w1 = w \<or> same w w1"
    using register_step [OF Cons.prems, of v "fst (register v s)" "snd (register v s)"] by auto
  with Cons.IH [OF this(1)] show ?case by (auto intro: converse_rtranclp_into_rtranclp)
qed simp

end

text \<open>The registry of validation rules is one.\<close>

interpretation rules: version_registry rules_register "\<lambda>k reg. dget reg k" vr_version validation_rules_eq
  by unfold_locales (auto simp: rules_register_def split: option.splits if_splits)

section \<open>Properties\<close>

text \<open>C19. Validation is exact: whenever the bound rules are registered and the output can be
  frozen, the result says accepted exactly when every record conforms to the rules and
  the identifiers of the records are the input identifiers, each exactly once; an accepted
  result returns the frozen records, and any other result returns none, whatever the
  metadata sink does.\<close>

theorem validation_exact:
  assumes "rules_resolve (validation_rules_version (ctx_configuration ctx)) reg = Some rules"
    and "map freeze output = map (\<lambda>m. Inr (VFrozen m)) records"
  shows "\<exists>r t'. validate env reg inputs output ctx t = (Inr r, t')
    \<and> vo_accepted (vres_outcome r) = corresponds (ve_show env) rules inputs output
    \<and> accepted_records r = (if corresponds (ve_show env) rules inputs output then records else [])
    \<and> vo_rules_version (vres_outcome r) = vr_version rules"
proof -
  obtain ids lg where scan: "scan_output rules output ([], []) = Inr (records, ids, lg)"
    using scan_output_runs [OF assms(2)] by blast
  let ?outs = "map (py_str (ve_show env)) ids"
  let ?lg = "check_identifiers inputs ?outs (length output) lg"
  have ids: "ids = concat (map (\<lambda>r. record_identifier rules (entries_of r)) output)"
    and lg: "clean lg \<longleftrightarrow> list_all (\<lambda>r. record_conforms rules (entries_of r)) output"
    using scan_output_clean [OF scan] by (auto simp: clean_def)
  have "clean ?lg \<longleftrightarrow> corresponds (ve_show env) rules inputs output"
  proof (cases "clean lg")
    case True
    with lg corresponds_iff [of rules "output" ?outs "ve_show env" inputs] ids show ?thesis
      by (simp add: check_identifiers_clean)
  next
    case False
    with lg show ?thesis by (auto simp: check_identifiers_clean corresponds_def)
  qed
  then show ?thesis
    using validate_run [OF assms(1) scan, of env inputs]
      finish_run [of env "vr_version rules" inputs ?outs records ?lg t] by auto
qed

text \<open>Validation fails closed: with no version bound to the execution, or a version that is
  not registered, every output is rejected with the reason that the rules are unavailable
  and nothing is returned.\<close>

theorem validation_fails_closed:
  assumes "rules_resolve (validation_rules_version (ctx_configuration ctx)) reg = None"
  shows "\<exists>r t'. validate env reg inputs output ctx t = (Inr r, t') \<and> \<not> vo_accepted (vres_outcome r)
    \<and> vo_reason_codes (vres_outcome r) = [''rules_unavailable''] \<and> accepted_records r = []"
  using finish_run [of env "case validation_rules_version (ctx_configuration ctx) of Some (c # s) \<Rightarrow> c # s | _ \<Rightarrow> ''unavailable''"
      inputs "[]" "[]" "([''validation.rules.bound''], [''rules_unavailable''])" t] assms
  by (auto simp: validate_def Let_def clean_def)

text \<open>A version of validation rules is immutable: once registered, it is found under its
  version after any further registrations, accepted or refused, and what is found is
  linked to the registered rules by equality of the rule sets.\<close>

theorem rules_version_immutable:
  assumes "rules_register r reg = (Inr u, reg')"
  shows "\<exists>w. dget (rules.register_all later reg') (vr_version r) = Some w \<and> validation_rules_eq\<^sup>*\<^sup>* r w"
  by (rule rules.registered_stays) (rule rules.registered [OF assms])

section \<open>Witnesses\<close>

definition sample_rules :: validation_rules where
  "sample_rules = \<lparr>vr_version = ''1'', identifier_field = ''id'', field_rules = [
     \<lparr>rule_id = ''r1'', rule_field = ''id'', value_type = FT_STRING, rule_required = True, rule_nullable = False,
       allowed_values = None, rule_minimum = None, rule_maximum = None\<rparr>,
     \<lparr>rule_id = ''r2'', rule_field = ''n'', value_type = FT_INTEGER, rule_required = True, rule_nullable = False,
       allowed_values = None, rule_minimum = Some (Finite 0), rule_maximum = None\<rparr>],
     allow_additional_fields = False\<rparr>"

definition sample_validator :: "unit validator_env" where
  "sample_validator = \<lparr>ve_show = class_name, ve_sha = (\<lambda>s. s), ve_record = (\<lambda>m t. (Inl (RuntimeError ''sink''), t))\<rparr>"

definition sample_bound :: execution_context where
  "sample_bound = sample_context\<lparr>ctx_configuration := (ctx_configuration sample_context)\<lparr>validation_rules_version := Some ''1''\<rparr>\<rparr>"

definition sample_output :: pyval where
  "sample_output = VDict [(VStr ''id'', VStr ''a''), (VStr ''n'', VInt 3)]"

lemma validation_exact_witness:
  "\<exists>r t'. validate sample_validator [(''1'', sample_rules)] [''a''] [sample_output] sample_bound () = (Inr r, t')
     \<and> vo_accepted (vres_outcome r)"
proof -
  have "corresponds (ve_show sample_validator) sample_rules [''a''] [sample_output]"
    by (simp add: corresponds_def sample_rules_def sample_output_def sample_validator_def record_conforms_def
        record_identifier_def rule_conforms_def domain_failure_def)
  then show ?thesis
    using validation_exact [of sample_bound "[(''1'', sample_rules)]" sample_rules "[sample_output]"
        "[[(''id'', VStr ''a''), (''n'', VInt 3)]]" sample_validator "[''a'']" "()"]
    by (auto simp: sample_bound_def rules_resolve_def sample_output_def)
qed

lemma validation_fails_closed_witness:
  "\<exists>r t'. validate sample_validator [] [''a''] [sample_output] sample_bound () = (Inr r, t') \<and> accepted_records r = []"
  using validation_fails_closed [of sample_bound "[]" sample_validator "[''a'']" "[sample_output]" "()"]
  by (auto simp: sample_bound_def rules_resolve_def)

lemma rules_version_immutable_witness:
  "\<exists>w. dget (rules.register_all [sample_rules] (snd (rules_register sample_rules []))) ''1'' = Some w"
proof -
  have "rules_register sample_rules [] = (Inr (), snd (rules_register sample_rules []))"
    by (simp add: rules_register_def)
  from rules_version_immutable [OF this, of "[sample_rules]"] show ?thesis
    by (auto simp: sample_rules_def)
qed

end
