(* ===== verification/Write_Back.thy ===== *)
theory Write_Back
  imports Bulk_Effects Bulk_Transport Validation
begin

text \<open>
  \<open>write_back/\<close>: the values, the in-memory authority and audit sink, and
  \<open>BatchWriteBackExecutor\<close>, the only owner of mutations. The executor is composed with the
  effect coordinator of \<open>Bulk_Effects\<close> and the object store of \<open>Bulk_Transport\<close>; the
  authorization source, the audit sink, the clock, the digest and the texts of floats and
  of other values (\<open>repr\<close>) are parameters.
\<close>

declare map_of_eq_Some_iff [simp del]

section \<open>Values\<close>

record write_back_scope =
  sc_job_id :: string
  sc_item_scope :: "string set"
  sc_data_scope :: string
  sc_target_dataset :: string
  sc_row_scope :: string
  sc_columns :: "string set"
  sc_mutation_type :: operation_kind
  sc_rules_version :: string
  sc_configuration_version :: string
  sc_valid_from :: datetime
  sc_valid_until :: datetime

definition blank_members :: "string set \<Rightarrow> bool" where
  "blank_members A \<longleftrightarrow> A = {} \<or> (\<exists>x \<in> A. blank x)"

definition WriteBackScope_post :: "write_back_scope \<Rightarrow> write_back_scope res" where
  "WriteBackScope_post s =
     bindR (require_texts [(''job_id'', sc_job_id s), (''data_scope'', sc_data_scope s),
              (''target_dataset'', sc_target_dataset s), (''row_scope'', sc_row_scope s),
              (''validation_rules_version'', sc_rules_version s),
              (''configuration_version'', sc_configuration_version s)]) (\<lambda>_.
       if blank_members (sc_item_scope s) then Inl (ValueError ''item scope must contain non-blank identifiers'')
       else if blank_members (sc_columns s) then Inl (ValueError ''columns must contain non-blank identifiers'')
       else if sc_mutation_type s \<notin> set MUTATION_OPERATIONS
       then Inl (ValueError ''write-back mutation type must be a mutation operation'')
       else if \<not> tz_aware (sc_valid_from s) \<or> \<not> tz_aware (sc_valid_until s)
       then Inl (ValueError ''approval validity timestamps must be timezone-aware'')
       else bindR (dt_le (sc_valid_until s) (sc_valid_from s)) (\<lambda>b.
              if b then Inl (ValueError ''approval validity interval must be positive'') else Inr s))"

record write_back_policy =
  wp_version :: string
  wp_scope :: write_back_scope
  wp_active :: bool

definition WriteBackPolicy_post :: "write_back_policy \<Rightarrow> write_back_policy res" where
  "WriteBackPolicy_post p = bindR (require_texts [(''write-back policy version'', wp_version p)]) (\<lambda>_. Inr p)"

record approval_record =
  ap_reference :: string
  ap_authority :: string
  ap_policy_version :: string
  ap_scope :: write_back_scope
  ap_revoked :: bool

definition ApprovalRecord_post :: "approval_record \<Rightarrow> approval_record res" where
  "ApprovalRecord_post a =
     bindR (require_texts [(''approval reference'', ap_reference a), (''approval authority'', ap_authority a),
              (''approval policy version'', ap_policy_version a)]) (\<lambda>_. Inr a)"

record authorization_snapshot =
  snap_policy :: "write_back_policy option"
  snap_approval :: "approval_record option"

record write_back_command =
  wc_claim :: work_claim
  wc_validation :: validation_result
  wc_policy_version :: string
  wc_approval_reference :: string
  wc_data_scope :: string
  wc_target_dataset :: string
  wc_row_scope :: string
  wc_columns :: "string set"
  wc_mutation_type :: operation_kind
  wc_parameters :: "(string \<times> pyval) list"
  wc_boundary :: transaction_boundary

definition WriteBackCommand_post :: "write_back_command \<Rightarrow> write_back_command res" where
  "WriteBackCommand_post c =
     (if \<not> acquired (wc_claim c) then Inl (ValueError ''an acquired work claim is required'')
      else bindR (require_texts [(''policy_version'', wc_policy_version c),
                    (''approval_reference'', wc_approval_reference c), (''data_scope'', wc_data_scope c),
                    (''target_dataset'', wc_target_dataset c), (''row_scope'', wc_row_scope c)]) (\<lambda>_.
        if blank_members (wc_columns c) then Inl (ValueError ''columns must contain non-blank identifiers'')
        else if wc_mutation_type c \<notin> set MUTATION_OPERATIONS
        then Inl (ValueError ''write-back mutation type must be a mutation operation'')
        else if list_ex blank (map fst (wc_parameters c)) \<or> \<not> distinct (map fst (wc_parameters c))
        then Inl (ValueError ''mutation parameter names must be unique and non-blank'')
        else Inr c))"

datatype write_back_status =
    WB_VALIDATION_REJECTED | WB_PERSISTED | WB_APPROVAL_REJECTED | WB_COMMITTED | WB_RECOVERED
  | WB_RECONCILIATION_REQUIRED | WB_FAILED

fun write_back_value :: "write_back_status \<Rightarrow> string" where
  "write_back_value WB_VALIDATION_REJECTED = ''validation_rejected''"
| "write_back_value WB_PERSISTED = ''persisted''"
| "write_back_value WB_APPROVAL_REJECTED = ''approval_rejected''"
| "write_back_value WB_COMMITTED = ''committed''"
| "write_back_value WB_RECOVERED = ''recovered''"
| "write_back_value WB_RECONCILIATION_REQUIRED = ''reconciliation_required''"
| "write_back_value WB_FAILED = ''write_back_failed''"

datatype audit_outcome =
    AUDIT_COMMIT | AUDIT_ROLLBACK | AUDIT_RECONCILIATION | AUDIT_RECOVERY_DUPLICATE | AUDIT_WITHHELD | AUDIT_FAILURE

record write_back_audit_event =
  wae_correlation_id :: string
  wae_job_id :: string
  wae_item_id :: string
  wae_idempotency_key :: string
  wae_approval_reference :: string
  wae_approval_authority :: string
  wae_policy_version :: string
  wae_target_dataset :: string
  wae_row_scope_digest :: string
  wae_effect_digest :: string
  wae_columns :: "string list"
  wae_mutation_type :: string
  wae_rules_version :: string
  wae_configuration_version :: string
  wae_outcome :: audit_outcome
  wae_timestamp :: datetime
  wae_reason_codes :: "string list"
  wae_redacted_details :: string

definition WriteBackAuditEvent_post :: "write_back_audit_event \<Rightarrow> write_back_audit_event res" where
  "WriteBackAuditEvent_post e =
     (if list_ex blank [wae_correlation_id e, wae_job_id e, wae_item_id e, wae_idempotency_key e,
           wae_approval_reference e, wae_approval_authority e, wae_policy_version e, wae_target_dataset e,
           wae_row_scope_digest e, wae_effect_digest e, wae_mutation_type e, wae_rules_version e,
           wae_configuration_version e, wae_redacted_details e]
      then Inl (ValueError ''write-back audit fields must not be blank'')
      else if wae_columns e = [] \<or> list_ex blank (wae_columns e)
      then Inl (ValueError ''write-back audit columns must not be blank'')
      else if wae_reason_codes e = [] \<or> list_ex blank (wae_reason_codes e)
      then Inl (ValueError ''write-back audit reason codes must not be blank'')
      else if \<not> tz_aware (wae_timestamp e)
      then Inl (ValueError ''write-back audit timestamp must be timezone-aware'')
      else Inr e)"

record write_back_result =
  wr_status :: write_back_status
  wr_reason_codes :: "string list"
  wr_output_reference :: "object_reference option"
  wr_effect :: "recovery_result option"

definition wr_mutated :: "write_back_result \<Rightarrow> bool" where
  "wr_mutated r \<longleftrightarrow> wr_status r \<in> {WB_COMMITTED, WB_RECOVERED}"

section \<open>The in-memory authority and audit sink\<close>

record authority =
  au_policies :: "(string, write_back_policy) dict"
  au_approvals :: "(string, approval_record) dict"
  au_revoked :: "string list"

definition authority_init :: "write_back_policy list \<Rightarrow> approval_record list \<Rightarrow> authority" where
  "authority_init ps as = \<lparr>au_policies = fold (\<lambda>p d. dset (wp_version p) p d) ps [],
     au_approvals = fold (\<lambda>a d. dset (ap_reference a) a d) as [], au_revoked = []\<rparr>"

definition authority_resolve :: "string \<Rightarrow> string \<Rightarrow> (authority, authorization_snapshot) meth" where
  "authority_resolve pv ref a =
     (case dget (au_approvals a) ref of
        None \<Rightarrow> (Inr \<lparr>snap_policy = dget (au_policies a) pv, snap_approval = None\<rparr>, a)
      | Some ap \<Rightarrow>
          if ap_reference ap \<in> set (au_revoked a) \<and> \<not> ap_revoked ap
          then (bindR (ApprovalRecord_post (ap\<lparr>ap_revoked := True\<rparr>)) (\<lambda>ap'.
                  Inr \<lparr>snap_policy = dget (au_policies a) pv, snap_approval = Some ap'\<rparr>), a)
          else (Inr \<lparr>snap_policy = dget (au_policies a) pv, snap_approval = Some ap\<rparr>, a))"

definition authority_revoke :: "string \<Rightarrow> authority \<Rightarrow> authority" where
  "authority_revoke ref a = a\<lparr>au_revoked := List.insert ref (au_revoked a)\<rparr>"

record audit_log =
  al_events :: "write_back_audit_event list"
  al_fail :: bool

definition audit_append :: "write_back_audit_event \<Rightarrow> (audit_log, unit) meth" where
  "audit_append e l =
     (if al_fail l then (Inl (RuntimeError ''write-back audit sink unavailable''), l)
      else (Inr (), l\<lparr>al_events := al_events l @ [e]\<rparr>))"

section \<open>The executor\<close>

text \<open>\<open>'a\<close> is the state of the effect adapter, \<open>'z\<close> that of the authorization source and
  \<open>'t\<close> that of the audit sink; the recovery coordinator reads its own clock.\<close>

record ('a, 'z, 't) write_back_state =
  ws_effects :: "'a effect_state"
  ws_objects :: object_store
  ws_authority :: 'z
  ws_audit :: 't
  ws_clock :: nat

record ('a, 'z, 't) write_back_env =
  we_adapter :: "'a effect_adapter"
  we_recovery_clock :: "nat \<Rightarrow> datetime"
  we_resolve :: "string \<Rightarrow> string \<Rightarrow> ('z, authorization_snapshot) meth"
  we_append :: "write_back_audit_event \<Rightarrow> ('t, unit) meth"
  we_clock :: "nat \<Rightarrow> datetime"
  we_sha :: "string \<Rightarrow> string"
  we_repr :: "pyval \<Rightarrow> string"
  we_float :: "rat \<Rightarrow> string"

definition wb_tick :: "('a, 'z, 't) write_back_env \<Rightarrow> (('a, 'z, 't) write_back_state, datetime) meth" where
  "wb_tick env s = (Inr (we_clock env (ws_clock s)), s\<lparr>ws_clock := Suc (ws_clock s)\<rparr>)"

definition require_bulk_claim :: "write_back_command \<Rightarrow> execution_context \<Rightarrow> unit res" where
  "require_bulk_claim c ctx =
     (if ctx_path ctx \<noteq> BULK then Inl (ValueError ''write-back executor requires a bulk execution context'')
      else if wi_configuration (claim_item (wc_claim c)) \<noteq> reference (ctx_configuration ctx)
      then Inl (ValueError ''write-back context must use the work item's bound configuration'')
      else Inr ())"

definition write_back_enabled :: "execution_context \<Rightarrow> pyval" where
  "write_back_enabled ctx = (case fm_get (content (ctx_configuration ctx)) ''write_back'' of
     Some (VFrozen section) \<Rightarrow> (case fm_get section ''enabled'' of None \<Rightarrow> VNone | Some v \<Rightarrow> v)
   | _ \<Rightarrow> VNone)"

fun plain :: "(pyval \<Rightarrow> string) \<Rightarrow> pyval \<Rightarrow> pyval" and plain_list :: "(pyval \<Rightarrow> string) \<Rightarrow> pyval list \<Rightarrow> pyval list"
  and plain_entries :: "(pyval \<Rightarrow> string) \<Rightarrow> (string \<times> pyval) list \<Rightarrow> (pyval \<times> pyval) list" where
  "plain rp (VFrozen m) = VDict (plain_entries rp m)"
| "plain rp (VTuple xs) = VList (plain_list rp xs)"
| "plain rp (VFrozenset xs) = VList (sort_key rp (plain_list rp xs))"
| "plain rp VNone = VNone"
| "plain rp (VBool b) = VBool b"
| "plain rp (VInt i) = VInt i"
| "plain rp (VFloat x) = VFloat x"
| "plain rp (VStr s) = VStr s"
| "plain rp (VBytes s) = VBytes s"
| "plain rp (VByteArray s) = VByteArray s"
| "plain rp (VList xs) = VList xs"
| "plain rp (VSet xs) = VSet xs"
| "plain rp (VDict d) = VDict d"
| "plain rp (VObject n) = VObject n"
| "plain_list rp [] = []"
| "plain_list rp (x # xs) = plain rp x # plain_list rp xs"
| "plain_entries rp [] = []"
| "plain_entries rp ((k, v) # kvs) = (VStr k, plain rp v) # plain_entries rp kvs"

definition canonical_output :: "('a, 'z, 't) write_back_env \<Rightarrow> validation_result \<Rightarrow> string res" where
  "canonical_output env v =
     bindR (dumps (compact False True (we_float env)) (VList (map (\<lambda>m. plain (we_repr env) (VFrozen m)) (accepted_records v))))
       (\<lambda>t. Inr (utf8 t))"

definition mutation_digest :: "('a, 'z, 't) write_back_env \<Rightarrow> write_back_command \<Rightarrow> string \<Rightarrow> string res" where
  "mutation_digest env c payload =
     bindR (dumps (compact True True (we_float env)) (VDict [
       (VStr ''data_scope'', VStr (wc_data_scope c)),
       (VStr ''target_dataset'', VStr (wc_target_dataset c)),
       (VStr ''row_scope'', VStr (wc_row_scope c)),
       (VStr ''columns'', VList (map VStr (sorted_list_of_set (wc_columns c)))),
       (VStr ''mutation_type'', VStr (operation_value (wc_mutation_type c))),
       (VStr ''parameters'', VList (map (\<lambda>(n, v). VTuple [VStr n, VStr (we_repr env v)]) (wc_parameters c))),
       (VStr ''validated_output_hash'', VStr (we_sha env payload))]))
       (\<lambda>t. Inr (we_sha env (utf8 t)))"

definition effect_request_of :: "('a, 'z, 't) write_back_env \<Rightarrow> write_back_command \<Rightarrow> string \<Rightarrow> effect_request res" where
  "effect_request_of env c payload =
     bindR (mutation_digest env c payload) (\<lambda>d.
       EffectRequest_post \<lparr>rq_claim = wc_claim c,
         rq_effect = \<lparr>effect_id = wi_idempotency_key (claim_item (wc_claim c)),
           ef_operation = OperationNode (wc_mutation_type c) [] (Some (wc_target_dataset c)),
           ef_parameters = wc_parameters c\<rparr>,
         rq_target_dataset = wc_target_dataset c,
         rq_row_scope_digest = we_sha env (utf8 (wc_row_scope c)),
         rq_mutation_digest = d, rq_boundary = wc_boundary c\<rparr>)"

definition requested_scope :: "write_back_command \<Rightarrow> execution_context \<Rightarrow> datetime \<Rightarrow> datetime \<Rightarrow> write_back_scope" where
  "requested_scope c ctx from till = (let i = claim_item (wc_claim c) in
     \<lparr>sc_job_id = wi_job_id i, sc_item_scope = {wi_item_id i}, sc_data_scope = wc_data_scope c,
       sc_target_dataset = wc_target_dataset c, sc_row_scope = wc_row_scope c, sc_columns = wc_columns c,
       sc_mutation_type = wc_mutation_type c, sc_rules_version = vo_rules_version (vres_outcome (wc_validation c)),
       sc_configuration_version = version (reference (ctx_configuration ctx)),
       sc_valid_from = from, sc_valid_until = till\<rparr>)"

definition proposed_scope :: "write_back_command \<Rightarrow> execution_context \<Rightarrow> datetime \<Rightarrow> datetime \<Rightarrow> write_back_scope res" where
  "proposed_scope c ctx from till = WriteBackScope_post (requested_scope c ctx from till)"

text \<open>\<open>_SCOPE_FIELDS\<close> with the comparison of each field.\<close>

definition scope_fields :: "(string \<times> (write_back_scope \<Rightarrow> write_back_scope \<Rightarrow> bool)) list" where
  "scope_fields = [
     (''job_id'', \<lambda>a b. sc_job_id a = sc_job_id b),
     (''item_scope'', \<lambda>a b. sc_item_scope a = sc_item_scope b),
     (''data_scope'', \<lambda>a b. sc_data_scope a = sc_data_scope b),
     (''target_dataset'', \<lambda>a b. sc_target_dataset a = sc_target_dataset b),
     (''row_scope'', \<lambda>a b. sc_row_scope a = sc_row_scope b),
     (''columns'', \<lambda>a b. sc_columns a = sc_columns b),
     (''mutation_type'', \<lambda>a b. sc_mutation_type a = sc_mutation_type b),
     (''validation_rules_version'', \<lambda>a b. sc_rules_version a = sc_rules_version b),
     (''configuration_version'', \<lambda>a b. sc_configuration_version a = sc_configuration_version b),
     (''valid_from'', \<lambda>a b. sc_valid_from a = sc_valid_from b),
     (''valid_until'', \<lambda>a b. sc_valid_until a = sc_valid_until b)]"

definition scope_mismatches :: "string \<Rightarrow> write_back_scope \<Rightarrow> write_back_scope \<Rightarrow> string list" where
  "scope_mismatches who a b =
     map (\<lambda>(field, _). who @ ''_'' @ field @ ''_mismatch'') (filter (\<lambda>(_, same). \<not> same a b) scope_fields)"

text \<open>\<open>valid_from <= now < valid_until\<close>, which stops at the first false comparison.\<close>

definition within_validity :: "write_back_scope \<Rightarrow> datetime \<Rightarrow> bool res" where
  "within_validity s now = bindR (dt_le (sc_valid_from s) now) (\<lambda>b.
     if b then dt_less now (sc_valid_until s) else Inr False)"

definition approval_failures ::
    "write_back_command \<Rightarrow> execution_context \<Rightarrow> authorization_snapshot \<Rightarrow> datetime \<Rightarrow> string list res" where
  "approval_failures c ctx snap now =
     (case snap_policy snap of
        None \<Rightarrow> Inr [''policy_missing'']
      | Some p \<Rightarrow>
         (case snap_approval snap of
            None \<Rightarrow> Inr [''approval_missing'']
          | Some a \<Rightarrow>
             bindR (proposed_scope c ctx (sc_valid_from (wp_scope p)) (sc_valid_until (wp_scope p))) (\<lambda>proposed.
             bindR (within_validity proposed now) (\<lambda>valid.
               Inr (fromkeys (
                 (if \<not> wp_active p then [''policy_inactive''] else [])
                 @ (if ap_revoked a then [''approval_revoked''] else [])
                 @ (if ap_policy_version a \<noteq> wp_version p \<or> wp_version p \<noteq> wc_policy_version c
                    then [''policy_version_mismatch''] else [])
                 @ scope_mismatches ''policy'' (wp_scope p) proposed
                 @ scope_mismatches ''approval'' (ap_scope a) proposed
                 @ (if \<not> valid then [''approval_outside_validity_interval''] else [])))))))"

definition audit_outcome_of :: "write_back_result \<Rightarrow> audit_outcome" where
  "audit_outcome_of r = (case wr_status r of
     WB_COMMITTED \<Rightarrow> AUDIT_COMMIT
   | WB_RECOVERED \<Rightarrow> AUDIT_RECOVERY_DUPLICATE
   | WB_RECONCILIATION_REQUIRED \<Rightarrow> AUDIT_RECONCILIATION
   | WB_FAILED \<Rightarrow> if ''precommit_transaction_rolled_back'' \<in> set (wr_reason_codes r) then AUDIT_ROLLBACK else AUDIT_FAILURE
   | _ \<Rightarrow> AUDIT_WITHHELD)"

definition emit_audit ::
    "('a, 'z, 't) write_back_env \<Rightarrow> write_back_command \<Rightarrow> execution_context \<Rightarrow> authorization_snapshot option
     \<Rightarrow> write_back_result \<Rightarrow> effect_request option \<Rightarrow> (('a, 'z, 't) write_back_state, unit) meth" where
  "emit_audit env c ctx snap r q =
     bindM (wb_tick env) (\<lambda>now.
     bindM (liftR (WriteBackAuditEvent_post \<lparr>wae_correlation_id = correlation_id ctx,
       wae_job_id = wi_job_id (claim_item (wc_claim c)), wae_item_id = wi_item_id (claim_item (wc_claim c)),
       wae_idempotency_key = wi_idempotency_key (claim_item (wc_claim c)),
       wae_approval_reference = wc_approval_reference c,
       wae_approval_authority = (case snap of None \<Rightarrow> ''unavailable'' | Some sn \<Rightarrow>
          (case snap_approval sn of None \<Rightarrow> ''unavailable'' | Some a \<Rightarrow> ap_authority a)),
       wae_policy_version = wc_policy_version c, wae_target_dataset = wc_target_dataset c,
       wae_row_scope_digest = (case q of Some x \<Rightarrow> rq_row_scope_digest x | None \<Rightarrow> we_sha env (utf8 (wc_row_scope c))),
       wae_effect_digest = (case q of Some x \<Rightarrow> rq_mutation_digest x | None \<Rightarrow> ''unavailable''),
       wae_columns = sorted_list_of_set (wc_columns c), wae_mutation_type = operation_value (wc_mutation_type c),
       wae_rules_version = vo_rules_version (vres_outcome (wc_validation c)),
       wae_configuration_version = version (reference (ctx_configuration ctx)),
       wae_outcome = audit_outcome_of r, wae_timestamp = now,
       wae_reason_codes = (if wr_reason_codes r = [] then [write_back_value (wr_status r)] else wr_reason_codes r),
       wae_redacted_details = ''[REDACTED]''\<rparr>)) (\<lambda>event s.
         (Inr (), s\<lparr>ws_audit := snd (we_append env event (ws_audit s))\<rparr>)))"

text \<open>Emitting the audit event of a result and returning the result.\<close>

definition audited ::
    "('a, 'z, 't) write_back_env \<Rightarrow> write_back_command \<Rightarrow> execution_context \<Rightarrow> authorization_snapshot option
     \<Rightarrow> effect_request option \<Rightarrow> write_back_result \<Rightarrow> (('a, 'z, 't) write_back_state, write_back_result) meth" where
  "audited env c ctx snap q r = bindM (emit_audit env c ctx snap r q) (\<lambda>_. pureM r)"

fun recovered_status :: "recovery_status \<Rightarrow> write_back_status" where
  "recovered_status RC_COMMITTED = WB_COMMITTED"
| "recovered_status RC_RECOVERED = WB_RECOVERED"
| "recovered_status RC_RECONCILIATION_REQUIRED = WB_RECONCILIATION_REQUIRED"
| "recovered_status RC_WRITE_BACK_FAILED = WB_FAILED"

text \<open>The part of \<open>execute\<close> after the approval checks: every exception of the coordinator is
  a failed result.\<close>

definition run_effect ::
    "('a, 'z, 't) write_back_env \<Rightarrow> effect_request \<Rightarrow> execution_context \<Rightarrow> object_reference
     \<Rightarrow> (('a, 'z, 't) write_back_state, write_back_result) meth" where
  "run_effect env q ctx ref s =
     (case execute_effect (we_recovery_clock env) (we_adapter env) q ctx (ws_effects s) of
        (Inl e, es) \<Rightarrow> (Inr \<lparr>wr_status = WB_FAILED, wr_reason_codes = [''effect_execution_failure:'' @ exn_name e],
            wr_output_reference = Some ref, wr_effect = None\<rparr>, s\<lparr>ws_effects := es\<rparr>)
      | (Inr res, es) \<Rightarrow> (Inr \<lparr>wr_status = recovered_status (rv_status res), wr_reason_codes = [rv_reason_code res],
            wr_output_reference = Some ref, wr_effect = Some res\<rparr>, s\<lparr>ws_effects := es\<rparr>))"

definition authorize_and_run ::
    "('a, 'z, 't) write_back_env \<Rightarrow> write_back_command \<Rightarrow> execution_context \<Rightarrow> string \<Rightarrow> object_reference
     \<Rightarrow> (('a, 'z, 't) write_back_state, write_back_result) meth" where
  "authorize_and_run env c ctx payload ref =
     bindM (liftR (effect_request_of env c payload)) (\<lambda>q.
     bindM (\<lambda>s. case we_resolve env (wc_policy_version c) (wc_approval_reference c) (ws_authority s) of
              (x, z) \<Rightarrow> (x, s\<lparr>ws_authority := z\<rparr>)) (\<lambda>snap.
     bindM (wb_tick env) (\<lambda>now.
     bindM (liftR (approval_failures c ctx snap now)) (\<lambda>reasons.
       if reasons \<noteq> []
       then audited env c ctx (Some snap) (Some q) \<lparr>wr_status = WB_APPROVAL_REJECTED, wr_reason_codes = reasons,
              wr_output_reference = Some ref, wr_effect = None\<rparr>
       else bindM (run_effect env q ctx ref) (audited env c ctx (Some snap) (Some q))))))"

definition write_back ::
    "('a, 'z, 't) write_back_env \<Rightarrow> write_back_command \<Rightarrow> execution_context
     \<Rightarrow> (('a, 'z, 't) write_back_state, write_back_result) meth" where
  "write_back env c ctx =
     bindM (liftR (require_bulk_claim c ctx)) (\<lambda>_.
     (let out = vres_outcome (wc_validation c) in
      if \<not> vo_accepted out
      then audited env c ctx None None \<lparr>wr_status = WB_VALIDATION_REJECTED,
             wr_reason_codes = (if vo_reason_codes out = [] then [''validation_failed''] else vo_reason_codes out),
             wr_output_reference = None, wr_effect = None\<rparr>
      else if Some (vo_rules_version out) \<noteq> validation_rules_version (ctx_configuration ctx)
      then audited env c ctx None None \<lparr>wr_status = WB_VALIDATION_REJECTED,
             wr_reason_codes = [''validation_version_not_bound''], wr_output_reference = None, wr_effect = None\<rparr>
      else
        bindM (liftR (canonical_output env (wc_validation c))) (\<lambda>payload.
        bindM (\<lambda>s. case put_result (we_sha env) payload (ws_objects s) of (x, objs) \<Rightarrow> (x, s\<lparr>ws_objects := objs\<rparr>)) (\<lambda>ref.
          if write_back_enabled ctx = VBool False
          then audited env c ctx None None \<lparr>wr_status = WB_PERSISTED, wr_reason_codes = [''write_back_disabled''],
                 wr_output_reference = Some ref, wr_effect = None\<rparr>
          else if write_back_enabled ctx \<noteq> VBool True
          then audited env c ctx None None \<lparr>wr_status = WB_APPROVAL_REJECTED,
                 wr_reason_codes = [''write_back_setting_unavailable''], wr_output_reference = Some ref, wr_effect = None\<rparr>
          else authorize_and_run env c ctx payload ref))))"

section \<open>Exact approval\<close>

text \<open>What the checks amount to: an active policy and an approval of it that is not revoked,
  both for exactly the requested scope, at a time within its validity.\<close>

definition approved :: "write_back_command \<Rightarrow> execution_context \<Rightarrow> authorization_snapshot \<Rightarrow> datetime \<Rightarrow> bool" where
  "approved c ctx snap now = (case (snap_policy snap, snap_approval snap) of
     (Some p, Some a) \<Rightarrow>
       wp_active p \<and> \<not> ap_revoked a \<and> ap_policy_version a = wp_version p \<and> wp_version p = wc_policy_version c
       \<and> ap_scope a = wp_scope p
       \<and> wp_scope p = requested_scope c ctx (sc_valid_from (wp_scope p)) (sc_valid_until (wp_scope p))
       \<and> dt_le (sc_valid_from (wp_scope p)) now = Inr True \<and> dt_less now (sc_valid_until (wp_scope p)) = Inr True
   | _ \<Rightarrow> False)"

lemma scope_mismatches_Nil: "scope_mismatches who a b = [] \<longleftrightarrow> a = b"
  by (auto simp: scope_mismatches_def scope_fields_def filter_empty_conv)

lemma WriteBackScope_post_Inr: "WriteBackScope_post s = Inr x \<Longrightarrow> x = s"
  by (auto simp: WriteBackScope_post_def bindR_Inr split: if_splits)

lemma within_validity_True: "within_validity sc now = Inr True \<longleftrightarrow>
    dt_le (sc_valid_from sc) now = Inr True \<and> dt_less now (sc_valid_until sc) = Inr True"
  by (auto simp: within_validity_def bindR_Inr split: if_splits)

lemma requested_validity [simp]:
  "sc_valid_from (requested_scope c ctx f t) = f" "sc_valid_until (requested_scope c ctx f t) = t"
  by (simp_all add: requested_scope_def Let_def)

lemma approval_failures_Nil:
  "approval_failures c ctx snap now = Inr [] \<longleftrightarrow> approved c ctx snap now
     \<and> (case snap_policy snap of None \<Rightarrow> False | Some p \<Rightarrow> returned (WriteBackScope_post (wp_scope p)))"
proof (cases "snap_policy snap")
  case (Some p)
  then show ?thesis
  proof (cases "snap_approval snap")
    case approval: (Some a)
    let ?sc = "requested_scope c ctx (sc_valid_from (wp_scope p)) (sc_valid_until (wp_scope p))"
    show ?thesis
    proof (cases "WriteBackScope_post ?sc")
      case (Inl e)
      then show ?thesis using Some approval
        by (auto simp: approval_failures_def proposed_scope_def approved_def returned_iff)
    next
      case (Inr sc)
      then have sc: "sc = ?sc" by (rule WriteBackScope_post_Inr)
      then have "approval_failures c ctx snap now = Inr [] \<longleftrightarrow>
          wp_active p \<and> \<not> ap_revoked a \<and> ap_policy_version a = wp_version p \<and> wp_version p = wc_policy_version c
          \<and> wp_scope p = ?sc \<and> ap_scope a = ?sc \<and> within_validity ?sc now = Inr True"
        using Some approval Inr
        by (cases "within_validity ?sc now")
           (auto simp: approval_failures_def proposed_scope_def scope_mismatches_Nil)
      also have "\<dots> \<longleftrightarrow> approved c ctx snap now \<and> returned (WriteBackScope_post (wp_scope p))"
        using Some approval Inr sc
        by (auto simp: approved_def within_validity_True returned_iff)
      finally show ?thesis using Some by simp
    qed
  qed (simp add: approval_failures_def approved_def)
qed (simp add: approval_failures_def approved_def)

section \<open>Effects happen only after the checks\<close>

lemma emit_audit_frame:
  "emit_audit env c ctx snap r q s = (x, s') \<Longrightarrow> ws_effects s' = ws_effects s \<and> ws_objects s' = ws_objects s
     \<and> ws_authority s' = ws_authority s"
  by (auto simp: emit_audit_def bindM_def wb_tick_def liftR_def split: sum.splits)

lemma audited_frame:
  "audited env c ctx snap q r s = (x, s') \<Longrightarrow> ws_effects s' = ws_effects s \<and> ws_objects s' = ws_objects s
     \<and> ws_authority s' = ws_authority s \<and> (\<forall>r'. x = Inr r' \<longrightarrow> r' = r)"
  by (auto simp: audited_def bindM_def pureM_def split: sum.splits prod.splits dest!: emit_audit_frame)

lemma authorize_effects:
  assumes "authorize_and_run env c ctx payload ref s = (out, s')"
  shows "(ws_effects s' = ws_effects s \<and> (\<forall>r. out = Inr r \<longrightarrow> \<not> wr_mutated r))
    \<or> (\<exists>snap z q. we_resolve env (wc_policy_version c) (wc_approval_reference c) (ws_authority s) = (Inr snap, z)
         \<and> approval_failures c ctx snap (we_clock env (ws_clock s)) = Inr []
         \<and> effect_request_of env c payload = Inr q
         \<and> snd (execute_effect (we_recovery_clock env) (we_adapter env) q ctx (ws_effects s)) = ws_effects s')"
proof -
  obtain x z where res: "we_resolve env (wc_policy_version c) (wc_approval_reference c) (ws_authority s) = (x, z)"
    by fastforce
  let ?now = "we_clock env (ws_clock s)"
  let ?s = "s\<lparr>ws_authority := z, ws_clock := Suc (ws_clock s)\<rparr>"
  have rejected: ?thesis if "audited env c ctx snap q \<lparr>wr_status = WB_APPROVAL_REJECTED, wr_reason_codes = reasons,
      wr_output_reference = Some ref, wr_effect = None\<rparr> ?s = (out, s')" for snap q reasons
    using audited_frame [OF that] by (auto simp: wr_mutated_def)
  show ?thesis
  proof (cases "effect_request_of env c payload")
    case (Inl e)
    then show ?thesis using assms by (auto simp: authorize_and_run_def bindM_def)
  next
    case (Inr q)
    note q = this
    show ?thesis
    proof (cases x)
      case (Inl e)
      then show ?thesis using assms q res by (auto simp: authorize_and_run_def bindM_def)
    next
      case (Inr snap)
      show ?thesis
      proof (cases "approval_failures c ctx snap ?now")
        case (Inl e)
        then show ?thesis using assms q res \<open>x = Inr snap\<close>
          by (auto simp: authorize_and_run_def bindM_def wb_tick_def)
      next
        case (Inr reasons)
        have run: "authorize_and_run env c ctx payload ref s = (if reasons \<noteq> []
            then audited env c ctx (Some snap) (Some q) \<lparr>wr_status = WB_APPROVAL_REJECTED, wr_reason_codes = reasons,
                   wr_output_reference = Some ref, wr_effect = None\<rparr> ?s
            else bindM (run_effect env q ctx ref) (audited env c ctx (Some snap) (Some q)) ?s)"
          using q res \<open>x = Inr snap\<close> Inr by (simp add: authorize_and_run_def bindM_def wb_tick_def)
        show ?thesis
        proof (cases "reasons = []")
          case False
          then show ?thesis using run assms rejected by auto
        next
          case True
          then have "bindM (run_effect env q ctx ref) (audited env c ctx (Some snap) (Some q)) ?s = (out, s')"
            using run assms by simp
          then have "snd (execute_effect (we_recovery_clock env) (we_adapter env) q ctx (ws_effects s)) = ws_effects s'"
            by (auto simp: bindM_def run_effect_def split: sum.splits prod.splits dest!: audited_frame)
          then show ?thesis using True Inr q res \<open>x = Inr snap\<close> by auto
        qed
      qed
    qed
  qed
qed

abbreviation withheld_result :: "write_back_status \<Rightarrow> string list \<Rightarrow> object_reference option \<Rightarrow> write_back_result" where
  "withheld_result st reasons ref \<equiv> \<lparr>wr_status = st, wr_reason_codes = reasons, wr_output_reference = ref, wr_effect = None\<rparr>"

definition authorizable :: "write_back_command \<Rightarrow> execution_context \<Rightarrow> bool" where
  "authorizable c ctx \<longleftrightarrow> ctx_path ctx = BULK
     \<and> wi_configuration (claim_item (wc_claim c)) = reference (ctx_configuration ctx)
     \<and> vo_accepted (vres_outcome (wc_validation c))
     \<and> validation_rules_version (ctx_configuration ctx) = Some (vo_rules_version (vres_outcome (wc_validation c)))
     \<and> write_back_enabled ctx = VBool True"

lemma write_back_validated:
  assumes "require_bulk_claim c ctx = Inr ()" and "vo_accepted (vres_outcome (wc_validation c))"
    and "Some (vo_rules_version (vres_outcome (wc_validation c))) = validation_rules_version (ctx_configuration ctx)"
  shows "write_back env c ctx = bindM (liftR (canonical_output env (wc_validation c))) (\<lambda>payload.
        bindM (\<lambda>s. case put_result (we_sha env) payload (ws_objects s) of (x, objs) \<Rightarrow> (x, s\<lparr>ws_objects := objs\<rparr>)) (\<lambda>ref.
          if write_back_enabled ctx = VBool False
          then audited env c ctx None None (withheld_result WB_PERSISTED [''write_back_disabled''] (Some ref))
          else if write_back_enabled ctx \<noteq> VBool True
          then audited env c ctx None None (withheld_result WB_APPROVAL_REJECTED [''write_back_setting_unavailable''] (Some ref))
          else authorize_and_run env c ctx payload ref))"
  using assms by (simp add: write_back_def bindM_def liftR_def fun_eq_iff)

lemma write_back_cases:
  obtains (refused) e s1 where "write_back env c ctx s = (Inl e, s1)" "ws_effects s1 = ws_effects s"
    | (withheld) st reasons ref s1 where
        "write_back env c ctx s = audited env c ctx None None (withheld_result st reasons ref) s1"
        "ws_effects s1 = ws_effects s" "st \<notin> {WB_COMMITTED, WB_RECOVERED}"
    | (authorizing) payload ref objs where "authorizable c ctx"
        "write_back env c ctx s = authorize_and_run env c ctx payload ref (s\<lparr>ws_objects := objs\<rparr>)"
proof (cases "require_bulk_claim c ctx")
  case (Inl e)
  then show thesis by (intro refused [of e s]) (simp_all add: write_back_def bindM_def)
next
  case (Inr u)
  let ?out = "vres_outcome (wc_validation c)"
  have ok: "require_bulk_claim c ctx = Inr ()" using Inr by simp
  consider "\<not> vo_accepted ?out" | "vo_accepted ?out" "Some (vo_rules_version ?out) \<noteq> validation_rules_version (ctx_configuration ctx)"
    | "vo_accepted ?out" "Some (vo_rules_version ?out) = validation_rules_version (ctx_configuration ctx)" by blast
  then show thesis
  proof cases
    case 1
    then show thesis using ok
      by (intro withheld [of WB_VALIDATION_REJECTED _ None s]) (simp_all add: write_back_def bindM_def Let_def)
  next
    case 2
    then show thesis using ok
      by (intro withheld [of WB_VALIDATION_REJECTED "[''validation_version_not_bound'']" None s])
         (simp_all add: write_back_def bindM_def Let_def)
  next
    case 3
    note run = write_back_validated [OF ok 3]
    show thesis
    proof (cases "canonical_output env (wc_validation c)")
      case (Inl e)
      then show thesis by (intro refused [of e s]) (simp_all add: run bindM_def)
    next
      case payload: (Inr payload)
      obtain y objs where put: "put_result (we_sha env) payload (ws_objects s) = (y, objs)" by fastforce
      let ?s = "s\<lparr>ws_objects := objs\<rparr>"
      show thesis
      proof (cases y)
        case (Inl e)
        then show thesis using payload put by (intro refused [of e ?s]) (simp_all add: run bindM_def)
      next
        case (Inr ref)
        consider "write_back_enabled ctx = VBool False" | "write_back_enabled ctx \<noteq> VBool False" "write_back_enabled ctx \<noteq> VBool True"
          | "write_back_enabled ctx = VBool True" by blast
        then show thesis
        proof cases
          case 1
          then show thesis using payload put Inr
            by (intro withheld [of WB_PERSISTED "[''write_back_disabled'']" "Some ref" ?s]) (simp_all add: run bindM_def)
        next
          case 2
          then show thesis using payload put Inr
            by (intro withheld [of WB_APPROVAL_REJECTED "[''write_back_setting_unavailable'']" "Some ref" ?s])
               (simp_all add: run bindM_def)
        next
          case enabled: 3
          then have "authorizable c ctx"
            using ok 3 by (auto simp: authorizable_def require_bulk_claim_def split: if_splits)
          then show thesis using payload put Inr enabled
            by (intro authorizing [of payload ref objs]) (simp_all add: run bindM_def)
        qed
      qed
    qed
  qed
qed

lemma write_back_effects:
  assumes "write_back env c ctx s = (out, s')"
  shows "(ws_effects s' = ws_effects s \<and> (\<forall>r. out = Inr r \<longrightarrow> \<not> wr_mutated r))
    \<or> authorizable c ctx \<and> (\<exists>snap z. we_resolve env (wc_policy_version c) (wc_approval_reference c) (ws_authority s) = (Inr snap, z)
         \<and> approval_failures c ctx snap (we_clock env (ws_clock s)) = Inr [])"
proof (cases rule: write_back_cases [of env c ctx s])
  case (refused e s1)
  then show ?thesis using assms by auto
next
  case (withheld st reasons ref s1)
  then show ?thesis using assms audited_frame [of env c ctx None None "withheld_result st reasons ref" s1 out s']
    by (auto simp: wr_mutated_def)
next
  case (authorizing payload ref objs)
  then show ?thesis using assms authorize_effects [of env c ctx payload ref "s\<lparr>ws_objects := objs\<rparr>" out s'] by auto
qed

section \<open>The audit sink cannot be observed\<close>

definition audit_blind :: "(('a, 'z, 't) write_back_state, 'x) meth \<Rightarrow> (('a, 'z, 't) write_back_state, 'x) meth \<Rightarrow> bool" where
  "audit_blind m m' \<longleftrightarrow> (\<forall>s x. \<exists>y. m' (s\<lparr>ws_audit := x\<rparr>) = (fst (m s), snd (m s)\<lparr>ws_audit := y\<rparr>))"

lemma blind_bind:
  assumes "audit_blind m m'" and "\<And>v. audit_blind (f v) (f' v)"
  shows "audit_blind (bindM m f) (bindM m' f')"
  unfolding audit_blind_def
proof (intro allI)
  fix s x
  obtain y where y: "m' (s\<lparr>ws_audit := x\<rparr>) = (fst (m s), snd (m s)\<lparr>ws_audit := y\<rparr>)"
    using assms(1) unfolding audit_blind_def by blast
  show "\<exists>y. bindM m' f' (s\<lparr>ws_audit := x\<rparr>) = (fst (bindM m f s), snd (bindM m f s)\<lparr>ws_audit := y\<rparr>)"
  proof (cases "fst (m s)")
    case (Inl e)
    then show ?thesis using y by (cases "m s") (auto simp: bindM_def)
  next
    case (Inr v)
    obtain z where "f' v (snd (m s)\<lparr>ws_audit := y\<rparr>) = (fst (f v (snd (m s))), snd (f v (snd (m s)))\<lparr>ws_audit := z\<rparr>)"
      using assms(2) [of v] unfolding audit_blind_def by blast
    then show ?thesis using y Inr by (cases "m s") (auto simp: bindM_def)
  qed
qed

lemma blind_lift: "audit_blind (liftR v) (liftR v)"
  by (auto simp: audit_blind_def liftR_def)

lemma blind_pure: "audit_blind (pureM v) (pureM v)"
  by (auto simp: audit_blind_def pureM_def)

lemma blind_if: "audit_blind m m' \<Longrightarrow> audit_blind n n' \<Longrightarrow> audit_blind (if b then m else n) (if b then m' else n')"
  by simp

lemma blind_tick: "audit_blind (wb_tick env) (wb_tick (env\<lparr>we_append := f\<rparr>))"
  unfolding audit_blind_def by (intro allI, rule_tac x = x in exI) (simp add: wb_tick_def)

lemma blind_steps:
  "audit_blind (\<lambda>s. case g (ws_objects s) of (x, objs) \<Rightarrow> (x, s\<lparr>ws_objects := objs\<rparr>))
     (\<lambda>s. case g (ws_objects s) of (x, objs) \<Rightarrow> (x, s\<lparr>ws_objects := objs\<rparr>))"
  "audit_blind (\<lambda>s. case h (ws_authority s) of (x, z) \<Rightarrow> (x, s\<lparr>ws_authority := z\<rparr>))
     (\<lambda>s. case h (ws_authority s) of (x, z) \<Rightarrow> (x, s\<lparr>ws_authority := z\<rparr>))"
  "audit_blind (\<lambda>s. (Inr (), s\<lparr>ws_audit := k (ws_audit s)\<rparr>)) (\<lambda>s. (Inr (), s\<lparr>ws_audit := k' (ws_audit s)\<rparr>))"
  "audit_blind (run_effect env q ctx ref) (run_effect (env\<lparr>we_append := f\<rparr>) q ctx ref)"
     prefer 3 subgoal unfolding audit_blind_def by (intro allI, rule_tac x = "k' x" in exI) simp
    prefer 3 subgoal unfolding audit_blind_def by (intro allI, rule_tac x = x in exI) (simp add: run_effect_def split: prod.split sum.split)
   by (unfold audit_blind_def; intro allI; rule_tac x = x in exI; simp split: prod.split)+

lemma env_sel:
  "we_sha (env\<lparr>we_append := f\<rparr>) = we_sha env" "we_repr (env\<lparr>we_append := f\<rparr>) = we_repr env"
  "we_resolve (env\<lparr>we_append := f\<rparr>) = we_resolve env" "we_clock (env\<lparr>we_append := f\<rparr>) = we_clock env"
  by simp_all

lemma env_frames:
  "canonical_output (env\<lparr>we_append := f\<rparr>) = canonical_output env"
  "effect_request_of (env\<lparr>we_append := f\<rparr>) = effect_request_of env"
  by (auto simp: fun_eq_iff canonical_output_def effect_request_of_def mutation_digest_def)

lemma blind_audited: "audit_blind (audited env c ctx snap q r) (audited (env\<lparr>we_append := f\<rparr>) c ctx snap q r)"
  unfolding audited_def emit_audit_def env_sel
  by (intro blind_bind blind_tick blind_pure blind_lift blind_steps(3))

lemma blind_write_back: "audit_blind (write_back env c ctx) (write_back (env\<lparr>we_append := f\<rparr>) c ctx)"
  unfolding write_back_def authorize_and_run_def Let_def env_frames env_sel
  by (intro blind_bind blind_if blind_lift blind_tick blind_steps blind_audited)

section \<open>Revocation\<close>

text \<open>The contract of an authority: from a revocation on, the approval is reported missing or
  revoked, whatever else is resolved or revoked in between.\<close>

locale revocable_authority =
  fixes resolve :: "string \<Rightarrow> string \<Rightarrow> ('z, authorization_snapshot) meth"
    and revoke :: "string \<Rightarrow> 'z \<Rightarrow> 'z"
    and ok :: "'z \<Rightarrow> bool" and revoked :: "string \<Rightarrow> 'z \<Rightarrow> bool"
  assumes revoke_ok: "ok z \<Longrightarrow> ok (revoke ref z)"
    and resolve_ok: "ok z \<Longrightarrow> ok (snd (resolve pv ref z))"
    and revoke_now: "revoked ref (revoke ref z)"
    and revoke_keeps: "revoked ref z \<Longrightarrow> revoked ref (revoke ref' z)"
    and resolve_keeps: "revoked ref z \<Longrightarrow> revoked ref (snd (resolve pv ref' z))"
    and resolve_revoked: "ok z \<Longrightarrow> revoked ref z \<Longrightarrow> resolve pv ref z = (Inr snap, z') \<Longrightarrow>
      snap_approval snap = Some a \<Longrightarrow> ap_revoked a"
begin

fun use :: "(string + string \<times> string) list \<Rightarrow> 'z \<Rightarrow> 'z" where
  "use [] z = z"
| "use (Inl ref # es) z = use es (revoke ref z)"
| "use (Inr (pv, ref) # es) z = use es (snd (resolve pv ref z))"

lemma use_keeps: "ok z \<and> revoked ref z \<Longrightarrow> ok (use es z) \<and> revoked ref (use es z)"
  by (induction es z rule: use.induct) (simp_all add: revoke_ok resolve_ok revoke_keeps resolve_keeps)

lemma never_again:
  assumes "ok z" and "resolve pv ref (use es (revoke ref z)) = (Inr snap, z')" and "snap_approval snap = Some a"
  shows "ap_revoked a"
  using resolve_revoked [OF _ _ assms(2,3)] use_keeps [of "revoke ref z" ref es] assms(1) revoke_ok revoke_now
  by blast

end

definition authority_ok :: "authority \<Rightarrow> bool" where
  "authority_ok z \<longleftrightarrow> (\<forall>ref a. dget (au_approvals z) ref = Some a \<longrightarrow> ap_reference a = ref)"

lemma authority_resolve_state [simp]: "snd (authority_resolve pv ref z) = z"
  by (simp add: authority_resolve_def split: option.splits)

interpretation memory_authority: revocable_authority authority_resolve authority_revoke authority_ok
    "\<lambda>ref z. ref \<in> set (au_revoked z)"
proof (unfold_locales, goal_cases)
  case (6 z ref pv snap z' a)
  then show ?case
    by (auto simp: authority_resolve_def authority_ok_def ApprovalRecord_post_def bindR_Inr split: option.splits if_splits)
qed (auto simp: authority_revoke_def authority_ok_def)

lemma approvals_keyed:
  assumes "\<forall>ref a. dget d ref = Some a \<longrightarrow> ap_reference a = ref"
  shows "\<forall>ref a. dget (fold (\<lambda>a d. dset (ap_reference a) a d) aps d) ref = Some a \<longrightarrow> ap_reference a = ref"
  using assms
proof (induction aps arbitrary: d)
  case (Cons x aps)
  have "\<forall>ref a. dget (dset (ap_reference x) x d) ref = Some a \<longrightarrow> ap_reference a = ref"
    using Cons.prems by (intro allI) (auto split: if_splits)
  then show ?case unfolding fold_simps by (rule Cons.IH)
qed simp

lemma authority_init_ok: "authority_ok (authority_init ps aps)"
  unfolding authority_init_def authority_ok_def authority.simps by (rule approvals_keyed) simp

section \<open>Properties\<close>

text \<open>C6. A mutation needs exact approval: if a write-back touches the effect adapter, the work
  repository or reports a mutation, then the execution is a bulk execution of the item's
  own configuration, the output was accepted by the validation rules bound to it,
  write-back is enabled in the configuration, and the authority reported at that moment an
  active policy and an unrevoked approval for exactly the requested scope, within its
  validity.\<close>

theorem mutation_requires_exact_approval:
  assumes "write_back env c ctx s = (out, s')"
    and "ws_effects s' \<noteq> ws_effects s \<or> (\<exists>r. out = Inr r \<and> wr_mutated r)"
  shows "authorizable c ctx
    \<and> (\<exists>snap z. we_resolve env (wc_policy_version c) (wc_approval_reference c) (ws_authority s) = (Inr snap, z)
         \<and> approved c ctx snap (we_clock env (ws_clock s)))"
  using write_back_effects [OF assms(1)] assms(2) approval_failures_Nil by blast

text \<open>The approval checks decide exact approval: there is no reason to refuse precisely when
  the snapshot approves the command (and the approved scope is a well-formed one).\<close>

theorem approval_checks_exact:
  assumes "snap_policy snap = Some p" and "WriteBackScope_post (wp_scope p) = Inr (wp_scope p)"
  shows "approval_failures c ctx snap now = Inr [] \<longleftrightarrow> approved c ctx snap now"
  using approval_failures_Nil [of c ctx snap now] assms by simp

text \<open>C27. Auditing cannot change the outcome: with any other audit sink, failing or not, and any
  other audit state, the same write-back ends with the same result, the same effects, the
  same stored objects and the same authority.\<close>

theorem audit_cannot_change_outcome:
  "fst (write_back (env\<lparr>we_append := other\<rparr>) c ctx (s\<lparr>ws_audit := x\<rparr>)) = fst (write_back env c ctx s)
   \<and> (\<exists>y. snd (write_back (env\<lparr>we_append := other\<rparr>) c ctx (s\<lparr>ws_audit := x\<rparr>)) = snd (write_back env c ctx s)\<lparr>ws_audit := y\<rparr>)"
proof -
  obtain y where "write_back (env\<lparr>we_append := other\<rparr>) c ctx (s\<lparr>ws_audit := x\<rparr>)
      = (fst (write_back env c ctx s), snd (write_back env c ctx s)\<lparr>ws_audit := y\<rparr>)"
    using blind_write_back [of env c ctx other] unfolding audit_blind_def by blast
  then show ?thesis by auto
qed

text \<open>A revoked approval is dead: with the in-memory authority, after an approval has been
  revoked and whatever is resolved or revoked later, a write-back under it mutates nothing.\<close>

theorem revoked_approval_never_mutates:
  assumes "authority_ok z" and "we_resolve env = authority_resolve"
    and "ws_authority s = memory_authority.use later (authority_revoke (wc_approval_reference c) z)"
    and "write_back env c ctx s = (out, s')"
  shows "ws_effects s' = ws_effects s \<and> (\<forall>r. out = Inr r \<longrightarrow> \<not> wr_mutated r)"
proof (rule ccontr)
  assume "\<not> ?thesis"
  then obtain snap z' where snap: "authority_resolve (wc_policy_version c) (wc_approval_reference c) (ws_authority s) = (Inr snap, z')"
      "approved c ctx snap (we_clock env (ws_clock s))"
    using write_back_effects [OF assms(4)] assms(2) approval_failures_Nil by auto
  from snap(2) obtain a where "snap_approval snap = Some a" "\<not> ap_revoked a"
    by (auto simp: approved_def split: option.splits)
  with memory_authority.never_again [OF assms(1), of "wc_policy_version c" "wc_approval_reference c" later snap z' a]
    snap(1) assms(3) show False by simp
qed

section \<open>Witnesses\<close>

definition sample_wb_context :: execution_context where
  "sample_wb_context = sample_context\<lparr>ctx_configuration := (ctx_configuration sample_context)\<lparr>
     validation_rules_version := Some ''1'', content := [(''write_back'', VFrozen [(''enabled'', VBool True)])]\<rparr>\<rparr>"

definition sample_validated :: validation_result where
  "sample_validated = \<lparr>vres_outcome = \<lparr>vo_accepted = True, vo_status = VS_ACCEPTED, vo_failed_rule_ids = [],
       vo_reason_codes = [], vo_input_digest = ''d'', vo_output_digest = ''d'', vo_rules_version = ''1''\<rparr>,
     accepted_records = [[(''id'', VStr ''i'')]], metadata_recorded = True\<rparr>"

definition sample_command :: write_back_command where
  "sample_command = \<lparr>wc_claim = \<lparr>claim_status = ACQUIRED, claim_item = sample_leased, claim_latest = None\<rparr>,
     wc_validation = sample_validated, wc_policy_version = ''p1'', wc_approval_reference = ''a1'',
     wc_data_scope = ''ds'', wc_target_dataset = ''d'', wc_row_scope = ''rows'', wc_columns = {''c''},
     wc_mutation_type = OP_UPDATE, wc_parameters = [(''x'', VInt 1)], wc_boundary = NON_SHARED\<rparr>"

definition sample_scope :: write_back_scope where
  "sample_scope = requested_scope sample_command sample_wb_context (Aware 0) (Aware 50)"

definition sample_authority :: authority where
  "sample_authority = authority_init [\<lparr>wp_version = ''p1'', wp_scope = sample_scope, wp_active = True\<rparr>]
     [\<lparr>ap_reference = ''a1'', ap_authority = ''boss'', ap_policy_version = ''p1'', ap_scope = sample_scope, ap_revoked = False\<rparr>]"

definition sample_wb_env :: "(nat, authority, audit_log) write_back_env" where
  "sample_wb_env = \<lparr>we_adapter = sample_adapter, we_recovery_clock = sample_clock, we_resolve = authority_resolve,
     we_append = audit_append, we_clock = (\<lambda>n. Aware (10 + int n)), we_sha = sample_digest, we_repr = class_name,
     we_float = (\<lambda>q. ''0.0'')\<rparr>"

definition sample_wb_state :: "authority \<Rightarrow> (nat, authority, audit_log) write_back_state" where
  "sample_wb_state z = \<lparr>ws_effects = sample_effect_start, ws_objects = [], ws_authority = z,
     ws_audit = \<lparr>al_events = [], al_fail = False\<rparr>, ws_clock = 0\<rparr>"

lemma sample_write_back:
  "map_option wr_status (case fst (write_back sample_wb_env sample_command sample_wb_context (sample_wb_state sample_authority))
     of Inl e \<Rightarrow> None | Inr r \<Rightarrow> Some r) = Some WB_COMMITTED"
  by code_simp

lemma sample_mutated:
  "\<exists>r s'. write_back sample_wb_env sample_command sample_wb_context (sample_wb_state sample_authority) = (Inr r, s')
     \<and> wr_mutated r"
proof -
  obtain out s' where run: "write_back sample_wb_env sample_command sample_wb_context (sample_wb_state sample_authority) = (out, s')"
    by fastforce
  with sample_write_back show ?thesis by (cases out) (auto simp: wr_mutated_def)
qed

lemma mutation_requires_exact_approval_witness:
  "authorizable sample_command sample_wb_context
   \<and> (\<exists>snap z. authority_resolve ''p1'' ''a1'' sample_authority = (Inr snap, z)
        \<and> approved sample_command sample_wb_context snap (Aware 10))"
proof -
  obtain r s' where run: "write_back sample_wb_env sample_command sample_wb_context (sample_wb_state sample_authority) = (Inr r, s')"
      "wr_mutated r"
    using sample_mutated by blast
  have "ws_effects s' \<noteq> ws_effects (sample_wb_state sample_authority) \<or> (\<exists>r'. Inr r = (Inr r' :: write_back_result res) \<and> wr_mutated r')"
    using run(2) by auto
  from mutation_requires_exact_approval [OF run(1) this] show ?thesis
    by (simp add: sample_wb_env_def sample_wb_state_def sample_command_def)
qed

lemma approval_checks_exact_witness:
  "approval_failures sample_command sample_wb_context
     \<lparr>snap_policy = Some \<lparr>wp_version = ''p1'', wp_scope = sample_scope, wp_active = False\<rparr>, snap_approval = None\<rparr> (Aware 10) \<noteq> Inr []"
proof -
  have "WriteBackScope_post sample_scope = Inr sample_scope" by code_simp
  with approval_checks_exact [of "\<lparr>snap_policy = Some \<lparr>wp_version = ''p1'', wp_scope = sample_scope, wp_active = False\<rparr>,
        snap_approval = None\<rparr>" "\<lparr>wp_version = ''p1'', wp_scope = sample_scope, wp_active = False\<rparr>"
      sample_command sample_wb_context "Aware 10"]
  show ?thesis by (simp add: approved_def)
qed

lemma revoked_approval_never_mutates_witness:
  "ws_effects (snd (write_back sample_wb_env sample_command sample_wb_context
     (sample_wb_state (authority_revoke ''a1'' sample_authority)))) = sample_effect_start"
proof -
  have "authority_ok sample_authority" unfolding sample_authority_def by (rule authority_init_ok)
  from revoked_approval_never_mutates [OF this, of sample_wb_env
      "sample_wb_state (authority_revoke ''a1'' sample_authority)" "[]" sample_command sample_wb_context, OF _ _ prod.collapse [symmetric]]
  show ?thesis by (simp add: sample_wb_env_def sample_wb_state_def sample_command_def)
qed

end
