(* ===== verification/Routing_Models.thy ===== *)
theory Routing_Models
  imports Domain
begin

text \<open>
  \<open>domain/model_routing.py\<close> and \<open>model_routing/retry.py\<close>: model candidates, operations,
  routing policies and eligibility, and the pure retry controller. Quality scores are
  exact rationals.
\<close>

section \<open>Candidates, operations, policies\<close>

datatype policy_decision = PD_ALLOW | PD_DENY | PD_INDETERMINATE

record model_candidate =
  mc_model_id :: string
  mc_provider_id :: string
  mc_capabilities :: "string set"
  mc_allowed_data_classes :: "string set"
  mc_cost_estimate :: int
  mc_priority :: int
  mc_predicted_latency_ms :: int
  mc_quality_score :: rat

definition ModelCandidate_post :: "model_candidate \<Rightarrow> model_candidate res" where
  "ModelCandidate_post c =
     (if blank (mc_model_id c) \<or> blank (mc_provider_id c)
      then Inl (ValueError ''model and provider identifiers must not be blank'')
      else if mc_cost_estimate c < 0 \<or> mc_predicted_latency_ms c < 0
      then Inl (ValueError ''model cost and predicted latency must be non-negative'')
      else if \<not> (0 \<le> mc_quality_score c \<and> mc_quality_score c \<le> 1)
      then Inl (ValueError ''quality_score must be between zero and one'')
      else Inr c)"

record model_operation =
  mo_operation_id :: string
  mo_tenant_id :: string
  mo_scope_id :: string
  mo_path :: execution_path
  mo_work :: model_work
  mo_estimated_total_tokens :: int
  mo_minimum_quality :: rat
  mo_data_classes :: "string set"
  mo_deadline :: "datetime option"
  mo_completion_reserve_ms :: int

definition ModelOperation_post :: "model_operation \<Rightarrow> model_operation res" where
  "ModelOperation_post o1 =
     (if blank (mo_operation_id o1) \<or> blank (mo_tenant_id o1) \<or> blank (mo_scope_id o1)
      then Inl (ValueError ''operation, tenant, and scope identifiers must not be blank'')
      else if mo_estimated_total_tokens o1 < 0 \<or> mo_completion_reserve_ms o1 < 0
      then Inl (ValueError ''token estimate and completion reserve must be non-negative'')
      else if \<not> (0 \<le> mo_minimum_quality o1 \<and> mo_minimum_quality o1 \<le> 1)
      then Inl (ValueError ''minimum_quality must be between zero and one'')
      else Inr o1)"

record routing_policy =
  rp_version :: string
  rp_decision :: policy_decision
  rp_available :: bool
  rp_valid :: bool
  rp_allowed_provider_ids :: "string set"
  rp_allowed_data_classes :: "string set"
  rp_minimum_quality :: rat

definition RoutingPolicy_post :: "routing_policy \<Rightarrow> routing_policy res" where
  "RoutingPolicy_post p =
     (if blank (rp_version p) then Inl (ValueError ''routing policy version must not be blank'')
      else if \<not> (0 \<le> rp_minimum_quality p \<and> rp_minimum_quality p \<le> 1)
      then Inl (ValueError ''policy minimum_quality must be between zero and one'')
      else Inr p)"

definition permits_routing :: "routing_policy \<Rightarrow> bool" where
  "permits_routing p \<longleftrightarrow> rp_available p \<and> rp_valid p \<and> rp_decision p = PD_ALLOW"

datatype eligibility_reason =
    POLICY_UNAVAILABLE | POLICY_INVALID | POLICY_DENIED | PROVIDER_DENIED | DATA_POLICY_DENIED
  | CAPABILITY_MISSING | QUALITY_INELIGIBLE | BUDGET_INELIGIBLE | DEADLINE_INELIGIBLE

record candidate_eligibility =
  ce_candidate :: model_candidate
  ce_reasons :: "eligibility_reason list"

definition ce_eligible :: "candidate_eligibility \<Rightarrow> bool" where
  "ce_eligible e \<longleftrightarrow> ce_reasons e = []"

text \<open>\<open>deadline is not None and now + timedelta(milliseconds=ms) > deadline\<close>.\<close>

definition past_deadline :: "datetime \<Rightarrow> int \<Rightarrow> datetime option \<Rightarrow> bool res" where
  "past_deadline now ms dl = (case dl of None \<Rightarrow> Inr False | Some d \<Rightarrow> dt_less d (dt_plus now (1000 * ms)))"

section \<open>Retries\<close>

record retry_policy =
  retryable_failure_classes :: "string set"
  max_attempts :: int
  delay_schedule_ms :: "int list"
  fallback_model_ids :: "string list"

definition RetryPolicy_post :: "retry_policy \<Rightarrow> retry_policy res" where
  "RetryPolicy_post p =
     (if max_attempts p < 1 then Inl (ValueError ''max_attempts must be at least one'')
      else if list_ex (\<lambda>d. d < 0) (delay_schedule_ms p) then Inl (ValueError ''retry delays must be non-negative'')
      else if list_ex blank (fallback_model_ids p)
      then Inl (ValueError ''fallback model identifiers must not be blank'')
      else Inr p)"

record attempt_state =
  current_model_id :: string
  attempts_completed :: int

definition AttemptState_post :: "attempt_state \<Rightarrow> attempt_state res" where
  "AttemptState_post s =
     (if blank (current_model_id s) \<or> attempts_completed s < 1
      then Inl (ValueError ''attempt state requires a model and at least one completed attempt'')
      else Inr s)"

record retry_gates =
  budget_available :: bool
  capacity_available :: bool
  model_eligible :: bool

datatype retry_kind = RT_RETRY | RT_FALLBACK | RT_TERMINAL

datatype retry_terminal_reason =
    NONRETRYABLE_FAILURE | ATTEMPTS_EXHAUSTED | DELAY_NOT_CONFIGURED | RETRY_MODEL_INELIGIBLE
  | RETRY_BUDGET_INELIGIBLE | RETRY_CAPACITY_UNAVAILABLE | RETRY_DEADLINE_INELIGIBLE

record retry_transition =
  rt_kind :: retry_kind
  rt_model_id :: "string option"
  rt_delay_ms :: "int option"
  rt_terminal_reason :: "retry_terminal_reason option"

definition invokes_model :: "retry_transition \<Rightarrow> bool" where
  "invokes_model t \<longleftrightarrow> rt_kind t \<noteq> RT_TERMINAL"

definition retry_terminal :: "retry_terminal_reason \<Rightarrow> retry_transition" where
  "retry_terminal r = \<lparr>rt_kind = RT_TERMINAL, rt_model_id = None, rt_delay_ms = None, rt_terminal_reason = Some r\<rparr>"

text \<open>The attempt count is at least one, so the index is not negative.\<close>

definition next_transition ::
    "model_operation \<Rightarrow> attempt_state \<Rightarrow> string \<Rightarrow> retry_policy \<Rightarrow> (string, model_candidate) dict \<Rightarrow> retry_gates
     \<Rightarrow> datetime \<Rightarrow> retry_transition res" where
  "next_transition op st failure p candidates gates now =
     (if failure \<notin> retryable_failure_classes p then Inr (retry_terminal NONRETRYABLE_FAILURE)
      else if max_attempts p \<le> attempts_completed st then Inr (retry_terminal ATTEMPTS_EXHAUSTED)
      else
        (let index = nat (attempts_completed st - 1) in
         if length (delay_schedule_ms p) \<le> index then Inr (retry_terminal DELAY_NOT_CONFIGURED)
         else
           (let delay = delay_schedule_ms p ! index;
                model = (if index < length (fallback_model_ids p) then fallback_model_ids p ! index
                         else current_model_id st) in
            case dget candidates model of
              None \<Rightarrow> Inr (retry_terminal RETRY_MODEL_INELIGIBLE)
            | Some c \<Rightarrow>
                if \<not> model_eligible gates then Inr (retry_terminal RETRY_MODEL_INELIGIBLE)
                else if \<not> budget_available gates then Inr (retry_terminal RETRY_BUDGET_INELIGIBLE)
                else if \<not> capacity_available gates then Inr (retry_terminal RETRY_CAPACITY_UNAVAILABLE)
                else bindR (past_deadline now (delay + mc_predicted_latency_ms c + mo_completion_reserve_ms op)
                              (mo_deadline op)) (\<lambda>late.
                       if late then Inr (retry_terminal RETRY_DEADLINE_INELIGIBLE)
                       else Inr \<lparr>rt_kind = (if model = current_model_id st then RT_RETRY else RT_FALLBACK),
                              rt_model_id = Some model, rt_delay_ms = Some delay, rt_terminal_reason = None\<rparr>))))"

section \<open>Retries are bounded\<close>

text \<open>One more invocation: a transition that invokes a model leads to the state after it,
  whatever failure, gates and time the attempt met.\<close>

inductive retried :: "model_operation \<Rightarrow> retry_policy \<Rightarrow> (string, model_candidate) dict \<Rightarrow> attempt_state \<Rightarrow> attempt_state \<Rightarrow> bool"
  for op p candidates where
  "next_transition op st failure p candidates gates now = Inr t \<Longrightarrow> invokes_model t \<Longrightarrow> rt_model_id t = Some m \<Longrightarrow>
     retried op p candidates st \<lparr>current_model_id = m, attempts_completed = attempts_completed st + 1\<rparr>"

inductive_simps retried_iff: "retried op p candidates st st'"

lemma invoking_transition:
  assumes "next_transition op st failure p candidates gates now = Inr t" and "invokes_model t"
  shows "attempts_completed st < max_attempts p \<and> nat (attempts_completed st - 1) < length (delay_schedule_ms p)
    \<and> failure \<in> retryable_failure_classes p \<and> budget_available gates \<and> capacity_available gates \<and> model_eligible gates
    \<and> (\<exists>m c. rt_model_id t = Some m \<and> dget candidates m = Some c)"
  using assms by (auto simp: next_transition_def Let_def invokes_model_def retry_terminal_def bindR_Inr
      split: if_splits option.splits)

lemma retried_less:
  "retried op p candidates st st' \<Longrightarrow> attempts_completed st' = attempts_completed st + 1
     \<and> attempts_completed st' \<le> max_attempts p \<and> (\<exists>c. dget candidates (current_model_id st') = Some c)"
  using invoking_transition by (fastforce simp: retried_iff)

lemma no_infinite_retries: "\<exists>n. \<not> retried op p candidates (chain n) (chain (Suc n))"
proof (rule ccontr)
  assume "\<not> ?thesis"
  then have step: "retried op p candidates (chain n) (chain (Suc n))" for n by blast
  have count: "attempts_completed (chain n) = attempts_completed (chain 0) + int n" for n
    by (induction n) (use retried_less [OF step] in auto)
  let ?n = "nat (max_attempts p - attempts_completed (chain 0))"
  have "attempts_completed (chain (Suc ?n)) \<le> max_attempts p" using retried_less [OF step] by blast
  moreover have "attempts_completed (chain (Suc ?n)) = attempts_completed (chain 0) + int (Suc ?n)" by (rule count)
  ultimately show False by linarith
qed

text \<open>C28. Retrying is bounded: however the attempts fail and whatever the gates and the clock
  say, a chain of retries and fallbacks never makes more attempts than the policy allows
  nor more than it has delays for, every model it invokes is a configured candidate, and
  no chain goes on for ever.\<close>

theorem retries_bounded:
  assumes "(retried op p candidates)\<^sup>+\<^sup>+ st st'" and "1 \<le> attempts_completed st"
  shows "attempts_completed st' \<le> max_attempts p
    \<and> attempts_completed st' \<le> 1 + int (length (delay_schedule_ms p))
    \<and> current_model_id st' \<in> set (dkeys candidates)
    \<and> \<not> (\<exists>chain. chain 0 = st' \<and> (\<forall>n. retried op p candidates (chain n) (chain (Suc n))))"
proof -
  have "1 \<le> attempts_completed st' \<and> attempts_completed st' \<le> max_attempts p
      \<and> attempts_completed st' \<le> 1 + int (length (delay_schedule_ms p))
      \<and> current_model_id st' \<in> set (dkeys candidates)"
    using assms
  proof (induction rule: tranclp_induct)
    case (base y)
    then obtain failure gates now t where "next_transition op st failure p candidates gates now = Inr t" "invokes_model t"
      by (auto simp: retried_iff)
    from invoking_transition [OF this] retried_less [OF base(1)] base(2) show ?case
      by (auto dest: map_of_SomeD intro: rev_image_eqI)
  next
    case (step y z)
    from step(2) obtain failure gates now t where "next_transition op y failure p candidates gates now = Inr t" "invokes_model t"
      by (auto simp: retried_iff)
    from invoking_transition [OF this] retried_less [OF step(2)] step show ?case
      by (auto dest: map_of_SomeD intro: rev_image_eqI)
  qed
  then show ?thesis using no_infinite_retries [of op p candidates] by blast
qed

definition sample_candidate :: model_candidate where
  "sample_candidate = \<lparr>mc_model_id = ''m1'', mc_provider_id = ''p1'', mc_capabilities = {''extract''},
     mc_allowed_data_classes = {''public''}, mc_cost_estimate = 5, mc_priority = 1,
     mc_predicted_latency_ms = 200, mc_quality_score = 1/2\<rparr>"

definition sample_model_operation :: model_operation where
  "sample_model_operation = \<lparr>mo_operation_id = ''op1'', mo_tenant_id = ''t1'', mo_scope_id = ''r1'', mo_path = INTERACTIVE,
     mo_work = \<lparr>task_type = ''extract'', payload_reference = ''r1'', mw_input_ids = [], required_capabilities = {''extract''},
       task_definition_version = None, estimated_input_tokens = None, estimated_output_tokens = None\<rparr>, mo_estimated_total_tokens = 10, mo_minimum_quality = 0,
     mo_data_classes = {''public''}, mo_deadline = None, mo_completion_reserve_ms = 0\<rparr>"

definition sample_retry_policy :: retry_policy where
  "sample_retry_policy = \<lparr>retryable_failure_classes = {''timeout''}, max_attempts = 3, delay_schedule_ms = [10, 20],
     fallback_model_ids = [''m1'']\<rparr>"

lemma sample_retried:
  "retried sample_model_operation sample_retry_policy [(''m1'', sample_candidate)]
     \<lparr>current_model_id = ''m0'', attempts_completed = 1\<rparr> \<lparr>current_model_id = ''m1'', attempts_completed = 2\<rparr>"
  unfolding retried_iff
  by (rule exI [of _ "''timeout''"], rule exI [of _ "\<lparr>budget_available = True, capacity_available = True, model_eligible = True\<rparr>"],
      rule exI [of _ "Aware 0"])
    (simp add: next_transition_def sample_retry_policy_def sample_model_operation_def sample_candidate_def past_deadline_def bindR_Inr
      invokes_model_def)

lemma retries_bounded_witness:
  "attempts_completed \<lparr>current_model_id = ''m1'', attempts_completed = 2\<rparr> \<le> max_attempts sample_retry_policy"
  by (rule retries_bounded [THEN conjunct1, OF tranclp.r_into_trancl, OF sample_retried]) simp

end
