(* ===== verification/Capacity.thy ===== *)
theory Capacity
  imports Routing_Models
begin

text \<open>
  \<open>model_routing/capacity.py\<close>: admission of model invocations under hierarchical limits on
  concurrency and on the requests and tokens of a rolling minute. A \<open>defaultdict\<close> is a
  total function with its default; the lock makes every method atomic. A timestamp is a
  number of microseconds since the epoch; \<open>utc_offset\<close> is the platform's offset of a naive
  datetime, which \<open>datetime.timestamp\<close> reads as local time.
\<close>

declare map_of_eq_Some_iff [simp del]

section \<open>Scopes, limits, leases\<close>

datatype capacity_scope_kind = CS_SYSTEM | CS_REQUEST | CS_JOB | CS_TENANT | CS_PROVIDER | CS_MODEL

record capacity_scope =
  cs_kind :: capacity_scope_kind
  cs_identifier :: string

definition CapacityScope :: "capacity_scope_kind \<Rightarrow> string \<Rightarrow> capacity_scope res" where
  "CapacityScope k i = (if blank i then Inl (ValueError ''capacity scope identifier must not be blank'')
     else Inr \<lparr>cs_kind = k, cs_identifier = i\<rparr>)"

record capacity_limit =
  cl_concurrency :: "int option"
  requests_per_minute :: "int option"
  tokens_per_minute :: "int option"

definition negative_limit :: "int option \<Rightarrow> bool" where
  "negative_limit v = (case v of None \<Rightarrow> False | Some n \<Rightarrow> n < 0)"

definition CapacityLimit_post :: "capacity_limit \<Rightarrow> capacity_limit res" where
  "CapacityLimit_post l =
     (let vs = [cl_concurrency l, requests_per_minute l, tokens_per_minute l] in
      if list_ex negative_limit vs then Inl (ValueError ''capacity limits must be non-negative'')
      else if list_all (\<lambda>v. v = None) vs then Inl (ValueError ''at least one capacity limit is required'')
      else Inr l)"

record capacity_lease =
  lease_operation_id :: string
  lease_scopes :: "capacity_scope list"

record capacity_admission =
  ca_candidate :: model_candidate
  ca_lease :: capacity_lease

section \<open>The capacity\<close>

record capacity =
  cap_limits :: "(capacity_scope, capacity_limit) dict"
  cap_active :: "capacity_scope \<Rightarrow> int"
  cap_events :: "capacity_scope \<Rightarrow> (int \<times> int) list"
  cap_leases :: "(string, capacity_lease) dict"

definition capacity_init :: "(capacity_scope, capacity_limit) dict \<Rightarrow> capacity" where
  "capacity_init limits = \<lparr>cap_limits = limits, cap_active = (\<lambda>_. 0), cap_events = (\<lambda>_. []), cap_leases = []\<rparr>"

fun timestamp :: "(int \<Rightarrow> int) \<Rightarrow> datetime \<Rightarrow> int" where
  "timestamp utc_offset (Aware t) = t"
| "timestamp utc_offset (Naive t) = t - utc_offset t"

text \<open>The scopes an invocation is counted in; a blank identifier raises.\<close>

definition scopes_for :: "model_operation \<Rightarrow> model_candidate \<Rightarrow> capacity_scope list res" where
  "scopes_for op c =
     bindR (CapacityScope CS_SYSTEM ''system'') (\<lambda>s1.
     bindR (CapacityScope (if mo_path op = INTERACTIVE then CS_REQUEST else CS_JOB) (mo_scope_id op)) (\<lambda>s2.
     bindR (CapacityScope CS_TENANT (mo_tenant_id op)) (\<lambda>s3.
     bindR (CapacityScope CS_PROVIDER (mc_provider_id c)) (\<lambda>s4.
     bindR (CapacityScope CS_MODEL (mc_model_id c)) (\<lambda>s5. Inr [s1, s2, s3, s4, s5])))))"

definition window :: int where "window = 60000000"

definition prune :: "capacity_scope list \<Rightarrow> int \<Rightarrow> capacity \<Rightarrow> capacity" where
  "prune scopes now s = s\<lparr>cap_events :=
     fold (\<lambda>k ev. ev(k := dropWhile (\<lambda>e. fst e \<le> now - window) (ev k))) scopes (cap_events s)\<rparr>"

definition limit_fits :: "capacity_limit \<Rightarrow> int \<Rightarrow> (int \<times> int) list \<Rightarrow> int \<Rightarrow> bool" where
  "limit_fits limit active events tokens =
     ((case cl_concurrency limit of None \<Rightarrow> True | Some n \<Rightarrow> active < n)
      \<and> (case requests_per_minute limit of None \<Rightarrow> True | Some n \<Rightarrow> int (length events) < n)
      \<and> (case tokens_per_minute limit of None \<Rightarrow> True | Some n \<Rightarrow> sum_list (map snd events) + tokens \<le> n))"

text \<open>Only limited scopes reach this test, so the lookup of the limit succeeds.\<close>

definition fits :: "capacity_scope list \<Rightarrow> int \<Rightarrow> capacity \<Rightarrow> bool" where
  "fits scopes tokens s = list_all (\<lambda>k. case dget (cap_limits s) k of None \<Rightarrow> True
     | Some limit \<Rightarrow> limit_fits limit (cap_active s k) (cap_events s k) tokens) scopes"

text \<open>The two assignments of the loop that takes the lease.\<close>

definition take_lease :: "capacity_lease \<Rightarrow> int \<Rightarrow> int \<Rightarrow> capacity \<Rightarrow> capacity" where
  "take_lease lease now tokens s =
     (let s' = fold (\<lambda>k s. s\<lparr>cap_active := (cap_active s)(k := cap_active s k + 1),
                            cap_events := (cap_events s)(k := cap_events s k @ [(now, tokens)])\<rparr>)
                (lease_scopes lease) s
      in s'\<lparr>cap_leases := dset (lease_operation_id lease) lease (cap_leases s')\<rparr>)"

definition limited_scopes :: "capacity \<Rightarrow> capacity_scope list \<Rightarrow> capacity_scope list" where
  "limited_scopes s ks = filter (\<lambda>k. dget (cap_limits s) k \<noteq> None) ks"

fun acquire_from :: "model_operation \<Rightarrow> model_candidate list \<Rightarrow> int \<Rightarrow> (capacity, capacity_admission option) meth" where
  "acquire_from op [] now s = (Inr None, s)"
| "acquire_from op (c # cs) now s =
     (case scopes_for op c of
        Inl e \<Rightarrow> (Inl e, s)
      | Inr all_scopes \<Rightarrow>
          (let scopes = limited_scopes s all_scopes;
               s1 = prune scopes now s in
           if fits scopes (mo_estimated_total_tokens op) s1
           then (let lease = \<lparr>lease_operation_id = mo_operation_id op, lease_scopes = scopes\<rparr> in
                 (Inr (Some \<lparr>ca_candidate = c, ca_lease = lease\<rparr>),
                  take_lease lease now (mo_estimated_total_tokens op) s1))
           else acquire_from op cs now s1))"

definition acquire_first ::
    "(int \<Rightarrow> int) \<Rightarrow> model_operation \<Rightarrow> model_candidate list \<Rightarrow> datetime \<Rightarrow> (capacity, capacity_admission option) meth" where
  "acquire_first utc_offset op ordered instant s =
     (if dget (cap_leases s) (mo_operation_id op) \<noteq> None then (Inr None, s)
      else acquire_from op ordered (timestamp utc_offset instant) s)"

definition capacity_release :: "capacity_lease \<Rightarrow> capacity \<Rightarrow> bool \<times> capacity" where
  "capacity_release lease s =
     (if dget (cap_leases s) (lease_operation_id lease) \<noteq> Some lease then (False, s)
      else (True, s\<lparr>cap_active := fold (\<lambda>k a. a(k := a k - 1)) (lease_scopes lease) (cap_active s),
                    cap_leases := dpop (lease_operation_id lease) (cap_leases s)\<rparr>))"

definition active_count :: "capacity_scope \<Rightarrow> capacity \<Rightarrow> int" where
  "active_count k s = cap_active s k"

section \<open>What the loops compute\<close>

lemma scopes_for_distinct: "scopes_for op c = Inr ks \<Longrightarrow> distinct ks"
  by (auto simp: scopes_for_def CapacityScope_def bindR_Inr split: if_splits)

lemma prune_events:
  "distinct ks \<Longrightarrow> cap_events (prune ks now s) k =
     (if k \<in> set ks then dropWhile (\<lambda>e. fst e \<le> now - window) (cap_events s k) else cap_events s k)"
proof -
  have "distinct ks \<Longrightarrow> fold (\<lambda>k ev. ev(k := dropWhile P (ev k))) ks ev k =
      (if k \<in> set ks then dropWhile P (ev k) else ev k)" for ev :: "capacity_scope \<Rightarrow> (int \<times> int) list" and P
    by (induction ks arbitrary: ev) auto
  then show "distinct ks \<Longrightarrow> ?thesis" by (simp add: prune_def)
qed

lemma prune_frame [simp]:
  "cap_limits (prune ks now s) = cap_limits s" "cap_active (prune ks now s) = cap_active s"
  "cap_leases (prune ks now s) = cap_leases s"
  by (simp_all add: prune_def)

lemma take_lease_effect:
  assumes "distinct (lease_scopes lease)"
  shows "cap_limits (take_lease lease now n s) = cap_limits s"
    and "cap_active (take_lease lease now n s) k = cap_active s k + (if k \<in> set (lease_scopes lease) then 1 else 0)"
    and "cap_events (take_lease lease now n s) k = cap_events s k @ (if k \<in> set (lease_scopes lease) then [(now, n)] else [])"
    and "cap_leases (take_lease lease now n s) = dset (lease_operation_id lease) lease (cap_leases s)"
proof -
  let ?f = "\<lambda>k s. s\<lparr>cap_active := (cap_active s)(k := cap_active s k + 1),
                            cap_events := (cap_events s)(k := cap_events s k @ [(now, n)])\<rparr>"
  have "distinct ks \<Longrightarrow> cap_limits (fold ?f ks s) = cap_limits s \<and> cap_leases (fold ?f ks s) = cap_leases s
     \<and> cap_active (fold ?f ks s) k = cap_active s k + (if k \<in> set ks then 1 else 0)
     \<and> cap_events (fold ?f ks s) k = cap_events s k @ (if k \<in> set ks then [(now, n)] else [])" for ks and s :: capacity
    by (induction ks arbitrary: s) auto
  from this [OF assms] show "cap_limits (take_lease lease now n s) = cap_limits s"
    "cap_active (take_lease lease now n s) k = cap_active s k + (if k \<in> set (lease_scopes lease) then 1 else 0)"
    "cap_events (take_lease lease now n s) k = cap_events s k @ (if k \<in> set (lease_scopes lease) then [(now, n)] else [])"
    "cap_leases (take_lease lease now n s) = dset (lease_operation_id lease) lease (cap_leases s)"
    by (simp_all add: take_lease_def Let_def)
qed

lemma release_active:
  "distinct ks \<Longrightarrow> fold (\<lambda>k a. a(k := a k - (1 :: int))) ks a k = a k - (if k \<in> set ks then 1 else 0)"
  by (induction ks arbitrary: a) auto

text \<open>Case analysis of the admission loop: it may raise, refuse, or take a lease for one
  of the candidates after pruning the windows of those tried.\<close>

inductive tried :: "model_operation \<Rightarrow> int \<Rightarrow> capacity \<Rightarrow> capacity \<Rightarrow> bool" for op now where
  tried_refl: "tried op now s s"
| tried_prune: "tried op now s s' \<Longrightarrow> distinct ks \<Longrightarrow> tried op now s (prune ks now s')"

lemma tried_frame: "tried op now s s' \<Longrightarrow>
    cap_limits s' = cap_limits s \<and> cap_active s' = cap_active s \<and> cap_leases s' = cap_leases s"
  by (induction rule: tried.induct) auto

lemma tried_trans: "tried op now s2 s3 \<Longrightarrow> tried op now s1 s2 \<Longrightarrow> tried op now s1 s3"
  by (induction rule: tried.induct) (auto intro: tried.intros)

inductive acquire_outcome ::
    "model_operation \<Rightarrow> model_candidate set \<Rightarrow> int \<Rightarrow> capacity \<Rightarrow> capacity_admission option res \<Rightarrow> capacity \<Rightarrow> bool"
  for op cs now s where
  refused: "r = Inr None \<or> (\<exists>e. r = Inl e) \<Longrightarrow> tried op now s s' \<Longrightarrow> acquire_outcome op cs now s r s'"
| granted: "c \<in> cs \<Longrightarrow> scopes_for op c = Inr all_ks \<Longrightarrow> ks = limited_scopes s all_ks \<Longrightarrow> distinct ks \<Longrightarrow>
     tried op now s s1 \<Longrightarrow> fits ks (mo_estimated_total_tokens op) (prune ks now s1) \<Longrightarrow>
     acquire_outcome op cs now s
       (Inr (Some \<lparr>ca_candidate = c, ca_lease = \<lparr>lease_operation_id = mo_operation_id op, lease_scopes = ks\<rparr>\<rparr>))
       (take_lease \<lparr>lease_operation_id = mo_operation_id op, lease_scopes = ks\<rparr> now (mo_estimated_total_tokens op)
          (prune ks now s1))"

lemma acquire_outcome_tried:
  assumes "acquire_outcome op cs now s1 r s'" and t: "tried op now s s1" and "cs \<subseteq> cs'"
  shows "acquire_outcome op cs' now s r s'"
  using assms(1)
proof (cases rule: acquire_outcome.cases)
  case refused
  then show ?thesis using tried_trans [OF _ t] by (auto intro: acquire_outcome.refused)
next
  case (granted c all_ks ks s2)
  have "ks = limited_scopes s all_ks" using granted(5) tried_frame [OF t] by (simp add: limited_scopes_def)
  with granted assms(3) show ?thesis using tried_trans [OF granted(7) t] by (auto intro: acquire_outcome.granted)
qed

lemma acquire_from_outcome: "acquire_from op cs now s = (r, s') \<Longrightarrow> acquire_outcome op (set cs) now s r s'"
proof (induction cs arbitrary: s)
  case Nil
  then show ?case by (auto intro: refused tried_refl)
next
  case (Cons c cs)
  show ?case
  proof (cases "scopes_for op c")
    case (Inl e)
    with Cons.prems show ?thesis by (auto intro: refused tried_refl)
  next
    case (Inr all_ks)
    define ks where "ks = limited_scopes s all_ks"
    have d: "distinct ks" using scopes_for_distinct [OF Inr] by (simp add: ks_def limited_scopes_def)
    show ?thesis
    proof (cases "fits ks (mo_estimated_total_tokens op) (prune ks now s)")
      case True
      with Cons.prems Inr granted [OF list.set_intros(1) Inr ks_def d tried_refl True] show ?thesis
        by (simp add: Let_def ks_def [symmetric])
    next
      case False
      with Cons.prems Inr have "acquire_from op cs now (prune ks now s) = (r, s')"
        by (simp add: Let_def ks_def)
      from acquire_outcome_tried [OF Cons.IH [OF this] tried_prune [OF tried_refl d]] show ?thesis by auto
    qed
  qed
qed

lemma acquire_first_outcome:
  assumes "acquire_first utc_offset op cs instant s = (r, s')"
  shows "acquire_outcome op (set cs) (timestamp utc_offset instant) s r s'"
    and "r = Inr (Some adm) \<Longrightarrow> dget (cap_leases s) (mo_operation_id op) = None"
proof -
  show "acquire_outcome op (set cs) (timestamp utc_offset instant) s r s'"
  proof (cases "dget (cap_leases s) (mo_operation_id op)")
    case (Some x)
    with assms show ?thesis by (auto simp: acquire_first_def intro: refused tried_refl)
  next
    case None
    with assms show ?thesis by (simp add: acquire_first_def acquire_from_outcome)
  qed
  show "r = Inr (Some adm) \<Longrightarrow> dget (cap_leases s) (mo_operation_id op) = None"
    using assms by (auto simp: acquire_first_def split: if_splits)
qed

section \<open>Active counts\<close>

text \<open>The active count of a scope is the number of leases that hold it.\<close>

definition holders :: "capacity_scope \<Rightarrow> (string, capacity_lease) dict \<Rightarrow> int" where
  "holders k leases = dsum (\<lambda>l. if k \<in> set (lease_scopes l) then 1 else 0) leases"

definition limits_valid :: "(capacity_scope, capacity_limit) dict \<Rightarrow> bool" where
  "limits_valid limits \<longleftrightarrow> list_all (\<lambda>l. returned (CapacityLimit_post l)) (dvalues limits)"

definition lease_wf :: "capacity \<Rightarrow> bool" where
  "lease_wf s \<longleftrightarrow> distinct (dkeys (cap_leases s))
     \<and> (\<forall>i l. dget (cap_leases s) i = Some l \<longrightarrow> lease_operation_id l = i \<and> distinct (lease_scopes l))
     \<and> (\<forall>k. cap_active s k = holders k (cap_leases s))"

definition concurrency_ok :: "capacity \<Rightarrow> bool" where
  "concurrency_ok s \<longleftrightarrow> (\<forall>k l n. dget (cap_limits s) k = Some l \<longrightarrow> cl_concurrency l = Some n \<longrightarrow> cap_active s k \<le> n)"

lemma limits_valid_lookup:
  assumes "limits_valid limits" and "dget limits k = Some l"
  shows "cl_concurrency l = Some n \<Longrightarrow> 0 \<le> n" "requests_per_minute l = Some n \<Longrightarrow> 0 \<le> n"
    "tokens_per_minute l = Some n \<Longrightarrow> 0 \<le> n"
  using assms dget_in_values [OF assms(2)]
  by (auto simp: limits_valid_def list_all_iff CapacityLimit_post_def Let_def negative_limit_def split: if_splits)

lemma holders_nonneg: "0 \<le> holders k leases"
  unfolding holders_def by (rule dsum_nonneg) simp

lemma init_wf: "limits_valid limits \<Longrightarrow> lease_wf (capacity_init limits) \<and> concurrency_ok (capacity_init limits)"
  using limits_valid_lookup by (auto simp: lease_wf_def concurrency_ok_def capacity_init_def holders_def)

lemma tried_wf: "tried op now s s' \<Longrightarrow> lease_wf s' = lease_wf s \<and> concurrency_ok s' = concurrency_ok s"
  using tried_frame [of op now s s'] by (simp add: lease_wf_def concurrency_ok_def)

lemma take_lease_wf:
  assumes "lease_wf s" "concurrency_ok s" "distinct ks" "dget (cap_leases s) i = None" "fits ks n s"
  shows "lease_wf (take_lease \<lparr>lease_operation_id = i, lease_scopes = ks\<rparr> now n s)
    \<and> concurrency_ok (take_lease \<lparr>lease_operation_id = i, lease_scopes = ks\<rparr> now n s)"
  using assms unfolding lease_wf_def concurrency_ok_def fits_def
  by (fastforce simp: take_lease_effect holders_def dsum_fresh list_all_iff limit_fits_def split: option.splits if_splits)

lemma acquire_first_wf:
  assumes "acquire_first utc_offset op cs instant s = (r, s')" "lease_wf s" "concurrency_ok s"
  shows "lease_wf s' \<and> concurrency_ok s' \<and> cap_limits s' = cap_limits s"
  using acquire_first_outcome(1) [OF assms(1)]
proof (cases rule: acquire_outcome.cases)
  case refused
  then show ?thesis using tried_wf [OF refused(2)] tried_frame [OF refused(2)] assms(2,3) by simp
next
  case (granted c all_ks ks s1)
  let ?s1 = "prune ks (timestamp utc_offset instant) s1"
  from tried_prune [OF granted(7,6)] have t: "tried op (timestamp utc_offset instant) s ?s1" .
  have "dget (cap_leases s) (mo_operation_id op) = None" by (rule acquire_first_outcome(2) [OF assms(1) granted(1)])
  with tried_wf [OF t] tried_frame [OF t] assms(2,3) granted show ?thesis
    by (simp add: take_lease_wf take_lease_effect)
qed

lemma release_lease_wf:
  assumes "capacity_release l s = (b, s')" "lease_wf s"
  shows "lease_wf s' \<and> (\<forall>k. cap_active s' k \<le> cap_active s k) \<and> cap_limits s' = cap_limits s \<and> cap_events s' = cap_events s"
proof (cases "dget (cap_leases s) (lease_operation_id l) = Some l")
  case True
  with assms(1) have s': "s' = s\<lparr>cap_active := fold (\<lambda>k a. a(k := a k - 1)) (lease_scopes l) (cap_active s),
                    cap_leases := dpop (lease_operation_id l) (cap_leases s)\<rparr>"
    by (simp add: capacity_release_def)
  have dk: "distinct (dkeys (cap_leases s))" and d: "distinct (lease_scopes l)"
    and ids: "\<And>i l. dget (cap_leases s) i = Some l \<Longrightarrow> lease_operation_id l = i \<and> distinct (lease_scopes l)"
    and act: "\<And>k. cap_active s k = holders k (cap_leases s)"
    using assms(2) True unfolding lease_wf_def by blast+
  define a where "a = fold (\<lambda>k a. a(k := a k - (1 :: int))) (lease_scopes l) (cap_active s)"
  have a: "a k = cap_active s k - (if k \<in> set (lease_scopes l) then 1 else 0)" for k
    unfolding a_def by (rule release_active [OF d])
  have h: "holders k (dpop (lease_operation_id l) (cap_leases s)) = a k" for k
    by (simp add: a act holders_def dsum_pop [OF dk True])
  have "lease_wf s'" unfolding s' lease_wf_def a_def [symmetric]
    using ids distinct_dpop [OF dk] by (simp add: h)
  moreover have "\<forall>k. cap_active s' k \<le> cap_active s k" unfolding s' a_def [symmetric] by (simp add: a)
  ultimately show ?thesis by (simp add: s')
qed (use assms in \<open>auto simp: capacity_release_def\<close>)

lemma release_wf:
  assumes "capacity_release l s = (b, s')" "lease_wf s" "concurrency_ok s"
  shows "lease_wf s' \<and> concurrency_ok s' \<and> cap_limits s' = cap_limits s \<and> cap_events s' = cap_events s"
  using release_lease_wf [OF assms(1,2)] assms(3) unfolding concurrency_ok_def by (metis order_trans)

section \<open>Rolling windows\<close>

text \<open>The log of the invocations admitted so far: time, tokens and counted scopes. The
  entries of a scope are what its event queue would hold if it were never pruned.\<close>

type_synonym admission_log = "(int \<times> int \<times> capacity_scope list) list"

definition scope_log :: "capacity_scope \<Rightarrow> admission_log \<Rightarrow> (int \<times> int) list" where
  "scope_log k lg = map (\<lambda>(t, n, ks). (t, n)) (filter (\<lambda>(t, n, ks). k \<in> set ks) lg)"

definition in_window :: "int \<Rightarrow> (int \<times> int) list \<Rightarrow> (int \<times> int) list" where
  "in_window T es = filter (\<lambda>e. T - window < fst e \<and> fst e \<le> T) es"

definition windows_ok :: "capacity_limit \<Rightarrow> (int \<times> int) list \<Rightarrow> bool" where
  "windows_ok l es \<longleftrightarrow> (\<forall>T. (\<forall>n. requests_per_minute l = Some n \<longrightarrow> int (length (in_window T es)) \<le> n)
     \<and> (\<forall>n. tokens_per_minute l = Some n \<longrightarrow> sum_list (map snd (in_window T es)) \<le> n))"

definition rate_inv :: "int \<Rightarrow> capacity \<Rightarrow> admission_log \<Rightarrow> bool" where
  "rate_inv now s lg \<longleftrightarrow>
     (\<forall>k. sorted (map fst (scope_log k lg)) \<and> (\<forall>e \<in> set (scope_log k lg). fst e \<le> now \<and> 0 \<le> snd e)
        \<and> (\<exists>b \<le> now - window. cap_events s k = filter (\<lambda>e. b < fst e) (scope_log k lg))
        \<and> (\<forall>l. dget (cap_limits s) k = Some l \<longrightarrow> windows_ok l (scope_log k lg)))"

lemma scope_log_append: "scope_log k (lg @ [(t, n, ks)]) = scope_log k lg @ (if k \<in> set ks then [(t, n)] else [])"
  by (simp add: scope_log_def)

lemma dropWhile_sorted:
  "sorted (map fst es) \<Longrightarrow> dropWhile (\<lambda>e. fst e \<le> (c :: int)) (filter (\<lambda>e. b < fst e) es) = filter (\<lambda>e. max b c < fst e) es"
proof (induction es)
  case (Cons e es)
  show ?case
  proof (cases "fst e \<le> c \<or> fst e \<le> b")
    case False
    then have "filter (\<lambda>e. b < fst e) es = es" "filter (\<lambda>e. max b c < fst e) es = es"
      using Cons.prems by (auto intro!: filter_True)
    with False show ?thesis by simp
  qed (use Cons in auto)
qed simp

lemma rate_inv_mono: "rate_inv now s lg \<Longrightarrow> now \<le> now' \<Longrightarrow> rate_inv now' s lg"
  unfolding rate_inv_def by (meson diff_right_mono order_trans)

lemma rate_inv_prune:
  assumes "rate_inv now s lg" and "distinct ks"
  shows "rate_inv now (prune ks now s) lg"
    and "k \<in> set ks \<Longrightarrow> cap_events (prune ks now s) k = filter (\<lambda>e. now - window < fst e) (scope_log k lg)"
proof -
  have pruned: "cap_events (prune ks now s) k = filter (\<lambda>e. now - window < fst e) (scope_log k lg)" if "k \<in> set ks" for k
  proof -
    from assms(1) obtain b where "b \<le> now - window" "cap_events s k = filter (\<lambda>e. b < fst e) (scope_log k lg)"
      and "sorted (map fst (scope_log k lg))" unfolding rate_inv_def by blast
    then show ?thesis using that by (simp add: prune_events [OF assms(2)] dropWhile_sorted max_absorb2)
  qed
  then show "k \<in> set ks \<Longrightarrow> cap_events (prune ks now s) k = filter (\<lambda>e. now - window < fst e) (scope_log k lg)" .
  have "\<exists>b \<le> now - window. cap_events (prune ks now s) k = filter (\<lambda>e. b < fst e) (scope_log k lg)" for k
  proof (cases "k \<in> set ks")
    case True
    from pruned [OF this] show ?thesis by blast
  next
    case False
    with assms show ?thesis by (simp add: prune_events rate_inv_def)
  qed
  with assms(1) show "rate_inv now (prune ks now s) lg" unfolding rate_inv_def prune_frame by blast
qed

lemma rate_inv_tried: "tried op now s s' \<Longrightarrow> rate_inv now s lg \<Longrightarrow> rate_inv now s' lg"
  by (induction rule: tried.induct) (simp_all add: rate_inv_prune)

text \<open>Where the new entry fits beside the events of the last minute, every window stays
  within the limit.\<close>

lemma windows_ok_snoc:
  assumes "windows_ok l es" and "\<forall>e \<in> set es. 0 \<le> snd e" and "0 \<le> n"
    and "limit_fits l a (filter (\<lambda>e. now - window < fst e) es) n"
  shows "windows_ok l (es @ [(now, n)])"
proof -
  let ?recent = "filter (\<lambda>e. now - window < fst e) es"
  have win: "in_window T (es @ [(now, n)]) = in_window T es @ (if T - window < now \<and> now \<le> T then [(now, n)] else [])" for T
    by (simp add: in_window_def)
  have sub: "in_window T es = filter (\<lambda>e. T - window < fst e \<and> fst e \<le> T) ?recent" if "now \<le> T" for T
    using that by (auto simp: in_window_def intro!: filter_cong)
  have len: "int (length (in_window T es)) \<le> int (length ?recent)" if "now \<le> T" for T
    unfolding sub [OF that] by (simp only: of_nat_le_iff length_filter_le)
  have tok_filter: "(\<forall>e \<in> set xs. 0 \<le> snd e) \<Longrightarrow> sum_list (map snd (filter P xs)) \<le> sum_list (map snd xs)"
    for xs :: "(int \<times> int) list" and P by (induction xs) auto
  have tok: "sum_list (map snd (in_window T es)) \<le> sum_list (map snd ?recent)" if "now \<le> T" for T
    unfolding sub [OF that] by (rule tok_filter) (use assms(2) in auto)
  show ?thesis unfolding windows_ok_def
  proof (intro allI conjI impI)
    fix T m assume m: "requests_per_minute l = Some m"
    with assms(1,4) len [of T] show "int (length (in_window T (es @ [(now, n)]))) \<le> m"
      by (fastforce simp: win windows_ok_def limit_fits_def)
  next
    fix T m assume m: "tokens_per_minute l = Some m"
    with assms(1,4) tok [of T] show "sum_list (map snd (in_window T (es @ [(now, n)]))) \<le> m"
      by (fastforce simp: win windows_ok_def limit_fits_def)
  qed
qed

lemma rate_inv_take:
  assumes inv: "rate_inv now s lg" and d: "distinct ks" and "0 \<le> n" and lim: "\<forall>k \<in> set ks. dget (cap_limits s) k \<noteq> None"
    and fit: "fits ks n (prune ks now s)"
  shows "rate_inv now (take_lease \<lparr>lease_operation_id = i, lease_scopes = ks\<rparr> now n (prune ks now s)) (lg @ [(now, n, ks)])"
proof -
  note pr = rate_inv_prune [OF inv d]
  let ?s = "take_lease \<lparr>lease_operation_id = i, lease_scopes = ks\<rparr> now n (prune ks now s)"
  have "sorted (map fst (scope_log k (lg @ [(now, n, ks)]))) \<and> (\<forall>e \<in> set (scope_log k (lg @ [(now, n, ks)])). fst e \<le> now \<and> 0 \<le> snd e)
        \<and> (\<exists>b \<le> now - window. cap_events ?s k = filter (\<lambda>e. b < fst e) (scope_log k (lg @ [(now, n, ks)])))
        \<and> (\<forall>l. dget (cap_limits ?s) k = Some l \<longrightarrow> windows_ok l (scope_log k (lg @ [(now, n, ks)])))" for k
  proof (cases "k \<in> set ks")
    case False
    with pr(1) show ?thesis by (simp add: rate_inv_def scope_log_append take_lease_effect d)
  next
    case True
    have old: "sorted (map fst (scope_log k lg))" "\<forall>e \<in> set (scope_log k lg). fst e \<le> now \<and> 0 \<le> snd e"
      "\<forall>l. dget (cap_limits s) k = Some l \<longrightarrow> windows_ok l (scope_log k lg)"
      using inv unfolding rate_inv_def by blast+
    have fitk: "limit_fits l (cap_active s k) (filter (\<lambda>e. now - window < fst e) (scope_log k lg)) n"
      if "dget (cap_limits s) k = Some l" for l
      using fit True that pr(2) [OF True] by (auto simp: fits_def list_all_iff)
    have "windows_ok l (scope_log k lg @ [(now, n)])" if l: "dget (cap_limits s) k = Some l" for l
      by (rule windows_ok_snoc [OF _ _ assms(3) fitk [OF l]]) (use old l in auto)
    moreover have "\<exists>b \<le> now - window. cap_events ?s k = filter (\<lambda>e. b < fst e) (scope_log k lg @ [(now, n)])"
      using pr(2) [OF True] True by (intro exI [of _ "now - window"]) (simp add: take_lease_effect d window_def)
    ultimately show ?thesis using True old(1,2) assms(3)
      by (auto simp: scope_log_append sorted_append take_lease_effect d)
  qed
  then show ?thesis unfolding rate_inv_def by blast
qed

section \<open>Runs\<close>

datatype capacity_command = Acquire model_operation "model_candidate list" datetime | Release capacity_lease

definition admission_entry :: "model_operation \<Rightarrow> int \<Rightarrow> capacity_admission option res \<Rightarrow> admission_log" where
  "admission_entry op now r =
     (case r of Inr (Some a) \<Rightarrow> [(now, mo_estimated_total_tokens op, lease_scopes (ca_lease a))] | _ \<Rightarrow> [])"

fun capacity_step :: "(int \<Rightarrow> int) \<Rightarrow> capacity_command \<Rightarrow> capacity \<times> admission_log \<Rightarrow> capacity \<times> admission_log" where
  "capacity_step utc_offset (Acquire op cs instant) (s, lg) =
     (let (r, s') = acquire_first utc_offset op cs instant s
      in (s', lg @ admission_entry op (timestamp utc_offset instant) r))"
| "capacity_step utc_offset (Release l) (s, lg) = (snd (capacity_release l s), lg)"

definition capacity_run :: "(int \<Rightarrow> int) \<Rightarrow> (capacity_scope, capacity_limit) dict \<Rightarrow> capacity_command list \<Rightarrow> capacity \<times> admission_log" where
  "capacity_run utc_offset limits cmds = fold (capacity_step utc_offset) cmds (capacity_init limits, [])"

fun acquire_times :: "(int \<Rightarrow> int) \<Rightarrow> capacity_command list \<Rightarrow> int list" where
  "acquire_times utc_offset [] = []"
| "acquire_times utc_offset (Acquire op cs instant # cmds) = timestamp utc_offset instant # acquire_times utc_offset cmds"
| "acquire_times utc_offset (Release l # cmds) = acquire_times utc_offset cmds"

fun tokens_valid :: "capacity_command list \<Rightarrow> bool" where
  "tokens_valid [] = True"
| "tokens_valid (Acquire op cs instant # cmds) = (0 \<le> mo_estimated_total_tokens op \<and> tokens_valid cmds)"
| "tokens_valid (Release l # cmds) = tokens_valid cmds"

lemma rate_inv_acquire:
  assumes "acquire_first utc_offset op cs instant s = (r, s')" "rate_inv (timestamp utc_offset instant) s lg"
    and "0 \<le> mo_estimated_total_tokens op"
  shows "rate_inv (timestamp utc_offset instant) s' (lg @ admission_entry op (timestamp utc_offset instant) r)"
  using acquire_first_outcome(1) [OF assms(1)]
proof (cases rule: acquire_outcome.cases)
  case refused
  then show ?thesis using rate_inv_tried [OF refused(2) assms(2)] by (auto simp: admission_entry_def)
next
  case (granted c all_ks ks s1)
  have "\<forall>k \<in> set ks. dget (cap_limits s1) k \<noteq> None"
    using granted(5) tried_frame [OF granted(7)] by (simp add: limited_scopes_def)
  from rate_inv_take [OF rate_inv_tried [OF granted(7) assms(2)] granted(6) assms(3) this granted(8)]
  show ?thesis by (simp add: granted(1,2) admission_entry_def)
qed

lemma capacity_run_from:
  assumes "lease_wf s" "concurrency_ok s" "rate_inv now s lg" "sorted (now # acquire_times utc_offset cmds)" "tokens_valid cmds"
    and "fold (capacity_step utc_offset) cmds (s, lg) = (s', lg')"
  shows "lease_wf s' \<and> concurrency_ok s' \<and> cap_limits s' = cap_limits s \<and> (\<exists>now'. rate_inv now' s' lg')"
  using assms
proof (induction cmds arbitrary: s lg now)
  case (Cons cmd cmds)
  show ?case
  proof (cases cmd)
    case (Acquire op cs instant)
    obtain r s1 where acq: "acquire_first utc_offset op cs instant s = (r, s1)" by force
    note wf = acquire_first_wf [OF acq Cons.prems(1,2)]
    have "rate_inv (timestamp utc_offset instant) s lg"
      using Cons.prems(3,4) by (auto simp: Acquire intro: rate_inv_mono)
    with rate_inv_acquire [OF acq] Cons.prems(5)
    have "rate_inv (timestamp utc_offset instant) s1 (lg @ admission_entry op (timestamp utc_offset instant) r)"
      by (simp add: Acquire)
    from Cons.IH [OF _ _ this] wf Cons.prems show ?thesis by (simp add: Acquire acq)
  next
    case (Release l)
    obtain b s1 where rel: "capacity_release l s = (b, s1)" by force
    note wf = release_wf [OF rel Cons.prems(1,2)]
    then have "rate_inv now s1 lg" using Cons.prems(3) by (simp add: rate_inv_def)
    from Cons.IH [OF _ _ this] wf Cons.prems show ?thesis by (simp add: Release rel)
  qed
qed auto

lemma rate_inv_init:
  assumes "limits_valid limits" shows "rate_inv now (capacity_init limits) []"
  using limits_valid_lookup [OF assms]
  by (auto simp: rate_inv_def capacity_init_def scope_log_def windows_ok_def in_window_def window_def intro!: exI [of _ "now - 60000000"])

lemma capacity_run_ok:
  assumes "limits_valid limits" "sorted (acquire_times utc_offset cmds)" "tokens_valid cmds"
    and run: "capacity_run utc_offset limits cmds = (s, lg)"
  shows "lease_wf s \<and> concurrency_ok s \<and> cap_limits s = limits \<and> (\<exists>now. rate_inv now s lg)"
proof -
  obtain now where "sorted (now # acquire_times utc_offset cmds)"
    using assms(2) by (cases "acquire_times utc_offset cmds") auto
  with init_wf [OF assms(1)] have "lease_wf s \<and> concurrency_ok s \<and> cap_limits s = cap_limits (capacity_init limits) \<and> (\<exists>now'. rate_inv now' s lg)"
    by (intro capacity_run_from [OF _ _ rate_inv_init [OF assms(1), of now] _ assms(3) run [unfolded capacity_run_def]]) simp_all
  then show ?thesis by (simp add: capacity_init_def)
qed

text \<open>C17. Under valid limits and a clock that does not run backwards, no interleaving of
  acquisitions and releases exceeds a limit: the active count of every scope is the number
  of leases that hold it and within its concurrency limit, and in every window of sixty
  seconds, at any moment of the history, the admitted requests and their tokens are within
  the scope's limits per minute. Releasing a lease gives back concurrency only.\<close>

theorem capacity_limits_hold:
  assumes "limits_valid limits" "sorted (acquire_times utc_offset cmds)" "tokens_valid cmds"
    and "capacity_run utc_offset limits cmds = (s, lg)" and "dget limits k = Some l"
  shows "active_count k s = holders k (cap_leases s)
    \<and> (\<forall>n. cl_concurrency l = Some n \<longrightarrow> active_count k s \<le> n)
    \<and> (\<forall>T. (\<forall>n. requests_per_minute l = Some n \<longrightarrow> int (length (in_window T (scope_log k lg))) \<le> n)
         \<and> (\<forall>n. tokens_per_minute l = Some n \<longrightarrow> sum_list (map snd (in_window T (scope_log k lg))) \<le> n))"
proof -
  from capacity_run_ok [OF assms(1-4)] obtain now where
    "lease_wf s" "concurrency_ok s" "cap_limits s = limits" "rate_inv now s lg" by blast
  with assms(5) show ?thesis
    unfolding lease_wf_def concurrency_ok_def rate_inv_def windows_ok_def active_count_def by blast
qed

definition sample_capacity_scope :: capacity_scope where
  "sample_capacity_scope = \<lparr>cs_kind = CS_TENANT, cs_identifier = ''t1''\<rparr>"

definition sample_limits :: "(capacity_scope, capacity_limit) dict" where
  "sample_limits = [(sample_capacity_scope, \<lparr>cl_concurrency = Some 1, requests_per_minute = Some 2, tokens_per_minute = Some 100\<rparr>)]"

definition sample_commands :: "capacity_command list" where
  "sample_commands = [Acquire sample_model_operation [sample_candidate] (Aware 0),
     Release \<lparr>lease_operation_id = ''op1'', lease_scopes = [sample_capacity_scope]\<rparr>,
     Acquire sample_model_operation [sample_candidate] (Aware 1000000)]"

lemma capacity_limits_hold_witness:
  "\<exists>s lg. capacity_run (\<lambda>_. 0) sample_limits sample_commands = (s, lg) \<and> length lg = 2
     \<and> active_count sample_capacity_scope s = 1 \<and> active_count sample_capacity_scope s \<le> 1"
proof -
  obtain s lg where run: "capacity_run (\<lambda>_. 0) sample_limits sample_commands = (s, lg)" by force
  have "length (snd (capacity_run (\<lambda>_. 0) sample_limits sample_commands)) = 2
      \<and> active_count sample_capacity_scope (fst (capacity_run (\<lambda>_. 0) sample_limits sample_commands)) = 1" by code_simp
  moreover have "limits_valid sample_limits" "sorted (acquire_times (\<lambda>_. 0) sample_commands)" "tokens_valid sample_commands"
    "dget sample_limits sample_capacity_scope = Some \<lparr>cl_concurrency = Some 1, requests_per_minute = Some 2, tokens_per_minute = Some 100\<rparr>"
    by code_simp+
  from capacity_limits_hold [OF this(1-3) run this(4)] have "active_count sample_capacity_scope s \<le> 1" by simp
  ultimately show ?thesis using run by simp
qed

section \<open>Leases are returned once\<close>

text \<open>The contract of a pool of leases: giving one back succeeds exactly when the pool has
  it out, and takes it out of the pool.\<close>

locale lease_pool =
  fixes valid :: "'s \<Rightarrow> bool" and held :: "'s \<Rightarrow> 'l set" and give_back :: "'l \<Rightarrow> 's \<Rightarrow> bool \<times> 's"
  assumes give_back_law: "valid s \<Longrightarrow> give_back l s = (b, s') \<Longrightarrow> b = (l \<in> held s) \<and> held s' = held s - {l} \<and> valid s'"
begin

fun give_back_all :: "'l list \<Rightarrow> 's \<Rightarrow> bool list \<times> 's" where
  "give_back_all [] s = ([], s)"
| "give_back_all (l # ls) s = (let (b, s1) = give_back l s; (bs, s2) = give_back_all ls s1 in (b # bs, s2))"

lemma give_back_all_held:
  "valid s \<Longrightarrow> give_back_all ls s = (bs, s') \<Longrightarrow> valid s' \<and> held s' = held s - set ls
     \<and> length bs = length ls \<and> (\<forall>i < length ls. bs ! i = (ls ! i \<in> held s \<and> ls ! i \<notin> set (take i ls)))"
proof (induction ls arbitrary: s bs)
  case (Cons l ls)
  obtain b s1 bs1 where step: "give_back l s = (b, s1)" "give_back_all ls s1 = (bs1, s')" "bs = b # bs1"
    using Cons.prems(2) by (auto split: prod.splits)
  note law = give_back_law [OF Cons.prems(1) step(1)]
  note ih = Cons.IH [OF _ step(2)]
  show ?case using law ih step(3) by (auto simp: nth_Cons split: nat.splits)
qed simp

lemma second_give_back:
  "valid s \<Longrightarrow> give_back l s = (b, s') \<Longrightarrow> \<not> fst (give_back l s')"
  using give_back_law [of s l b s'] give_back_law [of s' l "fst (give_back l s')" "snd (give_back l s')"] by simp

end

lemma release_law:
  assumes "lease_wf s" and "capacity_release l s = (b, s')"
  shows "b = (l \<in> set (dvalues (cap_leases s))) \<and> set (dvalues (cap_leases s')) = set (dvalues (cap_leases s)) - {l} \<and> lease_wf s'"
proof -
  have dk: "distinct (dkeys (cap_leases s))"
    and ids: "\<And>i l. dget (cap_leases s) i = Some l \<Longrightarrow> lease_operation_id l = i"
    using assms(1) unfolding lease_wf_def by blast+
  have mem: "l \<in> set (dvalues (cap_leases s)) \<longleftrightarrow> dget (cap_leases s) (lease_operation_id l) = Some l" for l
    using values_dget [OF dk] ids dget_in_values by metis
  from release_lease_wf [OF assms(2,1)] have wf: "lease_wf s'" ..
  have dk': "distinct (dkeys (cap_leases s'))" and ids': "\<And>i l. dget (cap_leases s') i = Some l \<Longrightarrow> lease_operation_id l = i"
    using wf unfolding lease_wf_def by blast+
  have mem': "m \<in> set (dvalues (cap_leases s')) \<longleftrightarrow> dget (cap_leases s') (lease_operation_id m) = Some m" for m
    using values_dget [OF dk'] ids' dget_in_values by metis
  have "set (dvalues (cap_leases s')) = set (dvalues (cap_leases s)) - {l}"
  proof (rule set_eqI)
    fix m
    have "dget (cap_leases s') (lease_operation_id m) = Some m
        \<longleftrightarrow> dget (cap_leases s) (lease_operation_id m) = Some m \<and> m \<noteq> l"
      using assms(2) by (auto simp: capacity_release_def split: if_splits)
    then show "m \<in> set (dvalues (cap_leases s')) \<longleftrightarrow> m \<in> set (dvalues (cap_leases s)) - {l}"
      unfolding mem' by (simp add: mem [of m, simplified])
  qed
  with wf assms(2) show ?thesis by (auto simp: capacity_release_def mem [of l, simplified] split: if_splits)
qed

interpretation pool: lease_pool lease_wf "\<lambda>s. set (dvalues (cap_leases s))" capacity_release
  by unfold_locales (rule release_law)

text \<open>A lease is given back once: releasing answers whether this very lease is held,
  takes it out, leaves every other lease, and a second release of it answers no.\<close>

theorem lease_released_once:
  assumes "lease_wf s" and "capacity_release l s = (b, s')"
  shows "b = (l \<in> set (dvalues (cap_leases s))) \<and> set (dvalues (cap_leases s')) = set (dvalues (cap_leases s)) - {l}
    \<and> (\<forall>b'' s''. capacity_release l s' = (b'', s'') \<longrightarrow> \<not> b'')"
  using release_law [OF assms] pool.second_give_back [OF assms] by auto

lemma lease_released_once_witness:
  "\<not> fst (capacity_release \<lparr>lease_operation_id = ''op1'', lease_scopes = []\<rparr>
     (snd (capacity_release \<lparr>lease_operation_id = ''op1'', lease_scopes = []\<rparr> (capacity_init []))))"
proof -
  have "lease_wf (capacity_init [])" using init_wf [of "[]"] by (simp add: limits_valid_def)
  from lease_released_once [OF this prod.collapse [symmetric]] show ?thesis by (metis prod.collapse)
qed

end
