(* ===== verification/Router.thy ===== *)
theory Router
  imports Capacity "HOL-Library.Multiset"
begin

text \<open>
  \<open>model_routing/router.py\<close>: eligibility of candidates, selection of the cheapest eligible
  model with capacity, and the fair queue of waiting operations. Whether the budget still
  has room for an estimate is the parameter \<open>is_available\<close>, the \<open>BudgetAvailability\<close>
  protocol of the source.
\<close>

declare map_of_eq_Some_iff [simp del]

section \<open>Admissions\<close>

datatype admission_failure = NO_ELIGIBLE_MODEL | AF_DEADLINE_INELIGIBLE | CAPACITY_UNAVAILABLE

record model_admission =
  ma_candidate :: "model_candidate option"
  ma_lease :: "capacity_lease option"
  ma_failure :: "admission_failure option"
  ma_eligibility :: "candidate_eligibility list"

definition admitted :: "model_admission \<Rightarrow> bool" where
  "admitted a \<longleftrightarrow> ma_candidate a \<noteq> None \<and> ma_lease a \<noteq> None \<and> ma_failure a = None"

datatype scheduling_order = FIFO | INTERACTIVE_FIRST | TENANT_ROUND_ROBIN

record queued_operation =
  q_sequence :: int
  q_operation :: model_operation
  q_candidates :: "model_candidate list"
  q_policy :: "routing_policy option"

record model_router =
  mr_capacity :: capacity
  mr_order :: scheduling_order
  mr_queue :: "queued_operation list"
  mr_next_sequence :: int
  mr_last_tenant :: "string option"

definition router_init :: "capacity \<Rightarrow> scheduling_order \<Rightarrow> model_router" where
  "router_init c ord = \<lparr>mr_capacity = c, mr_order = ord, mr_queue = [], mr_next_sequence = 0, mr_last_tenant = None\<rparr>"

text \<open>The list grows by each reason whose test holds; \<open>[r | b]\<close> of the source's \<open>append\<close>s.\<close>

definition reason_if :: "bool \<Rightarrow> eligibility_reason \<Rightarrow> eligibility_reason list" where
  "reason_if b r = (if b then [r] else [])"

definition reasons ::
    "(model_operation \<Rightarrow> model_candidate \<Rightarrow> bool) \<Rightarrow> model_operation \<Rightarrow> model_candidate \<Rightarrow> routing_policy option \<Rightarrow> datetime
     \<Rightarrow> eligibility_reason list res" where
  "reasons is_available op c policy now =
     (case policy of
        None \<Rightarrow> Inr [POLICY_UNAVAILABLE]
      | Some p \<Rightarrow>
          if \<not> rp_available p then Inr [POLICY_UNAVAILABLE]
          else if \<not> rp_valid p then Inr [POLICY_INVALID]
          else if rp_decision p \<noteq> PD_ALLOW then Inr [POLICY_DENIED]
          else bindR (past_deadline now (mc_predicted_latency_ms c + mo_completion_reserve_ms op) (mo_deadline op)) (\<lambda>late.
            Inr (reason_if (mc_provider_id c \<notin> rp_allowed_provider_ids p) PROVIDER_DENIED
               @ reason_if (\<not> mo_data_classes op \<subseteq> rp_allowed_data_classes p
                    \<or> \<not> mo_data_classes op \<subseteq> mc_allowed_data_classes c) DATA_POLICY_DENIED
               @ reason_if (\<not> required_capabilities (mo_work op) \<subseteq> mc_capabilities c) CAPABILITY_MISSING
               @ reason_if (mc_quality_score c < max (mo_minimum_quality op) (rp_minimum_quality p)) QUALITY_INELIGIBLE
               @ reason_if (\<not> is_available op c) BUDGET_INELIGIBLE
               @ reason_if late DEADLINE_INELIGIBLE)))"

fun evaluate ::
    "(model_operation \<Rightarrow> model_candidate \<Rightarrow> bool) \<Rightarrow> model_operation \<Rightarrow> model_candidate list \<Rightarrow> routing_policy option \<Rightarrow> datetime
     \<Rightarrow> candidate_eligibility list res" where
  "evaluate is_available op [] policy now = Inr []"
| "evaluate is_available op (c # cs) policy now =
     bindR (reasons is_available op c policy now) (\<lambda>r.
     bindR (evaluate is_available op cs policy now) (\<lambda>es. Inr (\<lparr>ce_candidate = c, ce_reasons = r\<rparr> # es)))"

definition cost_key :: "model_candidate \<Rightarrow> int \<times> int \<times> string" where
  "cost_key c = (mc_cost_estimate c, - mc_priority c, mc_model_id c)"

definition eligible_sorted :: "candidate_eligibility list \<Rightarrow> model_candidate list" where
  "eligible_sorted es = sort_key cost_key (map ce_candidate (filter ce_eligible es))"

definition rejection :: "admission_failure \<Rightarrow> candidate_eligibility list \<Rightarrow> model_admission" where
  "rejection f es = \<lparr>ma_candidate = None, ma_lease = None, ma_failure = Some f, ma_eligibility = es\<rparr>"

text \<open>\<open>admit\<close> works on the capacity the router holds.\<close>

definition admit ::
    "(model_operation \<Rightarrow> model_candidate \<Rightarrow> bool) \<Rightarrow> (int \<Rightarrow> int) \<Rightarrow> model_operation \<Rightarrow> model_candidate list
     \<Rightarrow> routing_policy option \<Rightarrow> datetime \<Rightarrow> (capacity, model_admission) meth" where
  "admit is_available utc_offset op cs policy now =
     bindM (liftR (evaluate is_available op cs policy now)) (\<lambda>es.
       if eligible_sorted es = []
       then (let rs = set (concat (map ce_reasons es)) in
             pureM (rejection (if rs \<noteq> {} \<and> rs = {DEADLINE_INELIGIBLE} then AF_DEADLINE_INELIGIBLE else NO_ELIGIBLE_MODEL) es))
       else bindM (acquire_first utc_offset op (eligible_sorted es) now) (\<lambda>r.
         case r of
           None \<Rightarrow> pureM (rejection CAPACITY_UNAVAILABLE es)
         | Some a \<Rightarrow> pureM \<lparr>ma_candidate = Some (ca_candidate a), ma_lease = Some (ca_lease a), ma_failure = None,
              ma_eligibility = es\<rparr>))"

section \<open>The queue\<close>

definition enqueue :: "model_operation \<Rightarrow> model_candidate list \<Rightarrow> routing_policy option \<Rightarrow> (model_router, unit) meth" where
  "enqueue op cs policy s =
     (if list_ex (\<lambda>q. mo_operation_id (q_operation q) = mo_operation_id op) (mr_queue s)
      then (Inl (ValueError (''operation '' @ CHR 0x27 # mo_operation_id op @ CHR 0x27 # '' is already queued'')), s)
      else (Inr (), s\<lparr>mr_queue := mr_queue s @ [\<lparr>q_sequence = mr_next_sequence s, q_operation = op, q_candidates = cs, q_policy = policy\<rparr>],
                     mr_next_sequence := mr_next_sequence s + 1\<rparr>))"

definition tenant_of :: "queued_operation \<Rightarrow> string" where
  "tenant_of q = mo_tenant_id (q_operation q)"

text \<open>\<open>tenant_order[pivot:] + tenant_order[:pivot]\<close>, one past the tenant served last.\<close>

definition rotate_after :: "'a option \<Rightarrow> 'a list \<Rightarrow> 'a list" where
  "rotate_after last_one xs =
     (case last_one of None \<Rightarrow> xs
      | Some x \<Rightarrow> if x \<in> set xs
          then drop (length (takeWhile (\<lambda>y. y \<noteq> x) xs) + 1) xs @ take (length (takeWhile (\<lambda>y. y \<noteq> x) xs) + 1) xs
          else xs)"

text \<open>One pass of the \<open>for\<close> loop pops the head of every non-empty line; the \<open>while\<close> loop
  repeats it as long as a line is not empty.\<close>

fun round_robin_pass :: "'t list \<Rightarrow> ('t \<Rightarrow> 'q list) \<Rightarrow> 'q list \<times> ('t \<Rightarrow> 'q list)" where
  "round_robin_pass [] per = ([], per)"
| "round_robin_pass (t # ts) per =
     (case per t of
        [] \<Rightarrow> round_robin_pass ts per
      | q # qs \<Rightarrow> (let (out, per') = round_robin_pass ts (per(t := qs)) in (q # out, per')))"

definition lines_size :: "'t list \<Rightarrow> ('t \<Rightarrow> 'q list) \<Rightarrow> nat" where
  "lines_size ts per = sum_list (map (\<lambda>t. length (per t)) ts)"

lemma pass_cons:
  "per t = [] \<Longrightarrow> round_robin_pass (t # ts) per = round_robin_pass ts per"
  "per t = q # qs \<Longrightarrow> round_robin_pass (t # ts) per
     = (q # fst (round_robin_pass ts (per(t := qs))), snd (round_robin_pass ts (per(t := qs))))"
  by (simp_all add: case_prod_beta)

declare round_robin_pass.simps(2) [simp del]

lemma lines_size_pop:
  assumes "per t = q # qs"
  shows "lines_size us (per(t := qs)) \<le> lines_size us per"
    and "t \<in> set us \<Longrightarrow> lines_size us (per(t := qs)) < lines_size us per"
proof -
  show le: "lines_size us (per(t := qs)) \<le> lines_size us per" for us
    unfolding lines_size_def by (rule sum_list_mono) (use assms in simp)
  show "t \<in> set us \<Longrightarrow> lines_size us (per(t := qs)) < lines_size us per"
  proof (induction us)
    case (Cons u us)
    with le [of us] assms show ?case by (cases "u = t") (auto simp: lines_size_def)
  qed simp
qed

lemma pass_size: "lines_size us (snd (round_robin_pass ts per)) \<le> lines_size us per"
proof (induction ts arbitrary: per)
  case (Cons t ts)
  show ?case
  proof (cases "per t")
    case line: (Cons q qs)
    from Cons.IH [of "per(t := qs)"] lines_size_pop(1) [of per t q qs us, OF line] show ?thesis
      by (simp only: pass_cons(2) [of per t q qs, OF line] snd_conv)
  qed (simp only: pass_cons(1) Cons.IH)
qed simp

lemma pass_progress:
  assumes "list_ex (\<lambda>t. per t \<noteq> []) ts" and "set ts \<subseteq> set us"
  shows "lines_size us (snd (round_robin_pass ts per)) < lines_size us per"
  using assms
proof (induction ts arbitrary: per)
  case (Cons t ts)
  show ?case
  proof (cases "per t")
    case line: (Cons q qs)
    from pass_size [of us ts "per(t := qs)"] lines_size_pop(2) [of per t q qs us, OF line] Cons.prems(2) show ?thesis
      by (simp only: pass_cons(2) [of per t q qs, OF line] snd_conv) simp
  next
    case Nil
    with Cons show ?thesis by (simp add: pass_cons(1))
  qed
qed simp

function round_robin :: "'t list \<Rightarrow> ('t \<Rightarrow> 'q list) \<Rightarrow> 'q list" where
  "round_robin ts per =
     (if list_ex (\<lambda>t. per t \<noteq> []) ts
      then fst (round_robin_pass ts per) @ round_robin ts (snd (round_robin_pass ts per))
      else [])"
  by pat_completeness auto
termination by (relation "measure (\<lambda>(ts, per). lines_size ts per)") (auto intro: pass_progress)

declare round_robin.simps [simp del]

definition ordered_queue :: "model_router \<Rightarrow> queued_operation list" where
  "ordered_queue s =
     (let queued = sort_key q_sequence (mr_queue s) in
      case mr_order s of
        FIFO \<Rightarrow> queued
      | INTERACTIVE_FIRST \<Rightarrow> sort_key (\<lambda>q. (mo_path (q_operation q) \<noteq> INTERACTIVE, q_sequence q)) queued
      | TENANT_ROUND_ROBIN \<Rightarrow>
          round_robin (rotate_after (mr_last_tenant s) (fromkeys (map tenant_of queued)))
            (\<lambda>t. filter (\<lambda>q. tenant_of q = t) queued))"

text \<open>The loop of \<open>schedule_next\<close> over the ordered queue.\<close>

fun schedule_from ::
    "(model_operation \<Rightarrow> model_candidate \<Rightarrow> bool) \<Rightarrow> (int \<Rightarrow> int) \<Rightarrow> datetime \<Rightarrow> queued_operation list
     \<Rightarrow> (model_router, model_admission option) meth" where
  "schedule_from is_available utc_offset now [] s = (Inr None, s)"
| "schedule_from is_available utc_offset now (q # qs) s =
     (case admit is_available utc_offset (q_operation q) (q_candidates q) (q_policy q) now (mr_capacity s) of
        (Inl e, c) \<Rightarrow> (Inl e, s\<lparr>mr_capacity := c\<rparr>)
      | (Inr d, c) \<Rightarrow>
          if admitted d
          then (Inr (Some d), s\<lparr>mr_capacity := c, mr_queue := remove1 q (mr_queue s), mr_last_tenant := Some (tenant_of q)\<rparr>)
          else schedule_from is_available utc_offset now qs (s\<lparr>mr_capacity := c\<rparr>))"

definition schedule_next ::
    "(model_operation \<Rightarrow> model_candidate \<Rightarrow> bool) \<Rightarrow> (int \<Rightarrow> int) \<Rightarrow> datetime \<Rightarrow> (model_router, model_admission option) meth" where
  "schedule_next is_available utc_offset now s = schedule_from is_available utc_offset now (ordered_queue s) s"

definition router_complete :: "capacity_lease \<Rightarrow> model_router \<Rightarrow> bool \<times> model_router" where
  "router_complete l s = (let (b, c) = capacity_release l (mr_capacity s) in (b, s\<lparr>mr_capacity := c\<rparr>))"

section \<open>Every order is a permutation of the queue\<close>

definition lines_mset :: "'t list \<Rightarrow> ('t \<Rightarrow> 'q list) \<Rightarrow> 'q multiset" where
  "lines_mset ts per = sum_list (map (\<lambda>t. mset (per t)) ts)"

lemma lines_mset_pop:
  assumes line: "per t = q # qs" and "distinct us"
  shows "t \<notin> set us \<Longrightarrow> lines_mset us (per(t := qs)) = lines_mset us per"
    and "t \<in> set us \<Longrightarrow> add_mset q (lines_mset us (per(t := qs))) = lines_mset us per"
proof -
  have out: "t \<notin> set us \<Longrightarrow> lines_mset us (per(t := qs)) = lines_mset us per" for us
    by (auto simp: lines_mset_def intro!: arg_cong [of _ _ sum_list])
  from out show "t \<notin> set us \<Longrightarrow> lines_mset us (per(t := qs)) = lines_mset us per" .
  show "t \<in> set us \<Longrightarrow> add_mset q (lines_mset us (per(t := qs))) = lines_mset us per"
    using assms(2)
  proof (induction us)
    case (Cons u us)
    with out [of us] line show ?case by (cases "u = t") (auto simp: lines_mset_def)
  qed simp
qed

lemma pass_mset:
  "distinct us \<Longrightarrow> set ts \<subseteq> set us \<Longrightarrow>
     mset (fst (round_robin_pass ts per)) + lines_mset us (snd (round_robin_pass ts per)) = lines_mset us per"
proof (induction ts arbitrary: per)
  case (Cons t ts)
  show ?case
  proof (cases "per t")
    case line: (Cons q qs)
    have "mset (fst (round_robin_pass ts (per(t := qs)))) + lines_mset us (snd (round_robin_pass ts (per(t := qs))))
        = lines_mset us (per(t := qs))" using Cons.prems by (intro Cons.IH) auto
    moreover have "add_mset q (lines_mset us (per(t := qs))) = lines_mset us per"
      by (rule lines_mset_pop(2) [of per t q qs us, OF line]) (use Cons.prems in auto)
    ultimately show ?thesis
      by (simp only: pass_cons(2) [of per t q qs, OF line] fst_conv snd_conv mset.simps union_mset_add_mset_left)
  next
    case Nil
    with Cons show ?thesis by (simp add: pass_cons(1))
  qed
qed simp

lemma round_robin_mset: "distinct ts \<Longrightarrow> mset (round_robin ts per) = lines_mset ts per"
proof (induction ts per rule: round_robin.induct)
  case (1 ts per)
  show ?case
  proof (cases "list_ex (\<lambda>t. per t \<noteq> []) ts")
    case True
    with 1 pass_mset [of ts ts per] show ?thesis by (subst round_robin.simps) simp
  next
    case False
    then have "lines_mset ts per = {#}" by (induction ts) (auto simp: lines_mset_def)
    with False show ?thesis by (subst round_robin.simps) simp
  qed
qed

lemma lines_mset_filter:
  "distinct ts \<Longrightarrow> f ` set qs \<subseteq> set ts \<Longrightarrow> lines_mset ts (\<lambda>t. filter (\<lambda>q. f q = t) qs) = mset qs"
proof (induction qs)
  case Nil
  then show ?case by (simp add: lines_mset_def)
next
  case (Cons q qs)
  let ?per = "\<lambda>t. filter (\<lambda>q. f q = t) (q # qs)"
  have "?per (f q) = q # filter (\<lambda>p. f p = f q) qs" by simp
  from lines_mset_pop(2) [of ?per, OF this Cons.prems(1)] Cons.prems(2)
  have "lines_mset ts ?per = add_mset q (lines_mset ts (?per(f q := filter (\<lambda>p. f p = f q) qs)))" by simp
  also have "?per(f q := filter (\<lambda>p. f p = f q) qs) = (\<lambda>t. filter (\<lambda>q. f q = t) qs)" by auto
  finally show ?case using Cons by simp
qed

lemma rotate_after_mset: "mset (rotate_after x xs) = mset xs"
proof -
  have "mset (drop n xs @ take n xs) = mset xs" for n
    by (metis append_take_drop_id mset_append union_commute)
  then show ?thesis by (simp add: rotate_after_def split: option.splits)
qed

lemma rotate_after_distinct: "distinct xs \<Longrightarrow> distinct (rotate_after x xs)"
  using rotate_after_mset [of x xs] by (metis mset_eq_imp_distinct_iff)

lemma rotate_after_set: "set (rotate_after x xs) = set xs"
  using rotate_after_mset [of x xs] by (metis set_mset_mset)

lemma ordered_queue_mset: "mset (ordered_queue s) = mset (mr_queue s)"
  by (cases "mr_order s")
    (simp_all add: ordered_queue_def Let_def round_robin_mset rotate_after_distinct
      lines_mset_filter rotate_after_set)

section \<open>The round robin is fair\<close>

lemma pass_lines:
  "(\<And>t. \<forall>q \<in> set (per t). f q = t) \<Longrightarrow>
     (\<forall>t. filter (\<lambda>q. f q = t) (fst (round_robin_pass ts per)) @ snd (round_robin_pass ts per) t = per t)
     \<and> (\<forall>t. \<forall>q \<in> set (snd (round_robin_pass ts per) t). f q = t)"
proof (induction ts arbitrary: per)
  case (Cons t ts)
  show ?case
  proof (cases "per t")
    case line: (Cons q qs)
    have f: "f q = t" using Cons.prems [of t] line by simp
    have "\<forall>x \<in> set ((per(t := qs)) u). f x = u" for u using Cons.prems [of u] line by auto
    note IH = Cons.IH [of "per(t := qs)", OF this]
    obtain out per' where p: "round_robin_pass ts (per(t := qs)) = (out, per')" by (rule prod.exhaust)
    have "filter (\<lambda>x. f x = u) (q # out) @ per' u = per u" for u
    proof -
      have u: "filter (\<lambda>x. f x = u) out @ per' u = (per(t := qs)) u"
        using IH [THEN conjunct1] unfolding p fst_conv snd_conv by (rule spec)
      show ?thesis
      proof (cases "t = u")
        case True
        then show ?thesis using u line unfolding True fun_upd_same filter.simps f by (simp only: simp_thms if_True append_Cons)
      next
        case False
        then have "(per(t := qs)) u = per u" by (rule fun_upd_other [OF not_sym])
        with u False show ?thesis unfolding filter.simps f by (simp only: if_False)
      qed
    qed
    moreover from IH have "\<forall>u. \<forall>x \<in> set (per' u). f x = u" unfolding p snd_conv by (rule conjunct2)
    ultimately show ?thesis
      unfolding pass_cons(2) [of per t q qs, OF line] p fst_conv snd_conv by (rule conjI [OF allI])
  next
    case Nil
    show ?thesis unfolding pass_cons(1) [of per t, OF Nil] by (rule Cons.IH [OF Cons.prems])
  qed
qed simp

lemma round_robin_lines:
  "(\<And>t. \<forall>q \<in> set (per t). f q = t) \<Longrightarrow> t \<in> set ts \<Longrightarrow> filter (\<lambda>q. f q = t) (round_robin ts per) = per t"
proof (induction ts per rule: round_robin.induct)
  case (1 ts per)
  note pl = pass_lines [of per f ts, OF 1(2)]
  show ?case
  proof (cases "list_ex (\<lambda>t. per t \<noteq> []) ts")
    case True
    from pl 1(1) [OF True _ 1(3)] True show ?thesis by (subst round_robin.simps) simp
  next
    case False
    with 1(3) show ?thesis by (subst round_robin.simps) (auto simp: list_ex_iff)
  qed
qed

lemma pass_heads:
  "(\<And>t. \<forall>q \<in> set (per t). f q = t) \<Longrightarrow> distinct ts \<Longrightarrow> \<forall>t \<in> set ts. per t \<noteq> [] \<Longrightarrow>
     map f (fst (round_robin_pass ts per)) = ts"
proof (induction ts arbitrary: per)
  case (Cons t ts)
  then obtain q qs where line: "per t = q # qs" by (cases "per t") auto
  have f: "f q = t" using Cons.prems(1) [of t] line by simp
  have "\<forall>x \<in> set ((per(t := qs)) u). f x = u" for u using Cons.prems(1) [of u] line by auto
  then have "map f (fst (round_robin_pass ts (per(t := qs)))) = ts" by (rule Cons.IH) (use Cons.prems(2,3) in auto)
  with f show ?case by (simp only: pass_cons(2) [of per t q qs, OF line] fst_conv list.map)
qed simp

lemma round_robin_first_round:
  assumes "\<And>t. \<forall>q \<in> set (per t). f q = t" and "distinct ts" and "\<forall>t \<in> set ts. per t \<noteq> []"
  shows "map f (take (length ts) (round_robin ts per)) = ts"
proof (cases "ts = []")
  case False
  have heads: "map f (fst (round_robin_pass ts per)) = ts" by (rule pass_heads [OF assms])
  have "list_ex (\<lambda>t. per t \<noteq> []) ts" using False assms(3) by (cases ts) auto
  then have "round_robin ts per = fst (round_robin_pass ts per) @ round_robin ts (snd (round_robin_pass ts per))"
    by (subst round_robin.simps) simp
  moreover from heads have "length (fst (round_robin_pass ts per)) = length ts" by (metis length_map)
  ultimately show ?thesis using heads by simp
qed simp

definition fifo :: "model_router \<Rightarrow> queued_operation list" where
  "fifo s = sort_key q_sequence (mr_queue s)"

lemma robin_order:
  assumes "mr_order s = TENANT_ROUND_ROBIN"
  defines "ts \<equiv> rotate_after (mr_last_tenant s) (fromkeys (map tenant_of (fifo s)))"
  shows "ordered_queue s = round_robin ts (\<lambda>t. filter (\<lambda>q. tenant_of q = t) (fifo s))"
    and "distinct ts" "set ts = tenant_of ` set (mr_queue s)"
    and "\<forall>t \<in> set ts. filter (\<lambda>q. tenant_of q = t) (fifo s) \<noteq> []"
  using assms(1)
  by (auto simp: ordered_queue_def Let_def ts_def fifo_def rotate_after_distinct rotate_after_set filter_empty_conv)

text \<open>The queue is served without loss and fairly: every order offers exactly the waiting
  operations; first-in first-out offers them by sequence number; interactive-first offers
  every interactive operation before any bulk one, each kind by sequence number; the round
  robin offers one operation of every waiting tenant before a second one of any, starts
  after the tenant served last, and keeps each tenant's own order.\<close>

theorem queue_order_fair:
  "mset (ordered_queue s) = mset (mr_queue s)
   \<and> (mr_order s = FIFO \<longrightarrow> sorted (map q_sequence (ordered_queue s)))
   \<and> (mr_order s = INTERACTIVE_FIRST \<longrightarrow>
        sorted (map (\<lambda>q. (mo_path (q_operation q) \<noteq> INTERACTIVE, q_sequence q)) (ordered_queue s)))
   \<and> (mr_order s = TENANT_ROUND_ROBIN \<longrightarrow>
        (let ts = rotate_after (mr_last_tenant s) (fromkeys (map tenant_of (fifo s))) in
         map tenant_of (take (length ts) (ordered_queue s)) = ts
         \<and> distinct ts \<and> set ts = tenant_of ` set (mr_queue s)
         \<and> (\<forall>t. filter (\<lambda>q. tenant_of q = t) (ordered_queue s) = filter (\<lambda>q. tenant_of q = t) (fifo s))))"
proof -
  have fair: "map tenant_of (take (length ts) (ordered_queue s)) = ts \<and> distinct ts \<and> set ts = tenant_of ` set (mr_queue s)
         \<and> (\<forall>t. filter (\<lambda>q. tenant_of q = t) (ordered_queue s) = filter (\<lambda>q. tenant_of q = t) (fifo s))"
    if rr: "mr_order s = TENANT_ROUND_ROBIN" and ts: "ts = rotate_after (mr_last_tenant s) (fromkeys (map tenant_of (fifo s)))" for ts
  proof -
    note ro = robin_order [OF rr, folded ts]
    have lines: "\<forall>q \<in> set (filter (\<lambda>q. tenant_of q = t) (fifo s)). tenant_of q = t" for t by simp
    have "filter (\<lambda>q. tenant_of q = t) (ordered_queue s) = filter (\<lambda>q. tenant_of q = t) (fifo s)" for t
    proof (cases "t \<in> set ts")
      case True
      show ?thesis unfolding ro(1) by (rule round_robin_lines [OF lines True])
    next
      case False
      have "set (ordered_queue s) = set (mr_queue s)" "set (fifo s) = set (mr_queue s)"
        using ordered_queue_mset [of s] by (metis set_mset_mset) (simp add: fifo_def)
      with False ro(3) have "filter (\<lambda>q. tenant_of q = t) (ordered_queue s) = []" "filter (\<lambda>q. tenant_of q = t) (fifo s) = []"
        by (auto simp: filter_empty_conv)
      then show ?thesis by simp
    qed
    with round_robin_first_round [of "\<lambda>t. filter (\<lambda>q. tenant_of q = t) (fifo s)", OF lines ro(2,4)] ro(1-3)
    show ?thesis by simp
  qed
  show ?thesis
    unfolding Let_def using fair ordered_queue_mset [of s] by (auto simp: ordered_queue_def Let_def)
qed

definition sample_queued :: "int \<Rightarrow> string \<Rightarrow> queued_operation" where
  "sample_queued n t = \<lparr>q_sequence = n, q_operation = sample_model_operation\<lparr>mo_tenant_id := t\<rparr>,
     q_candidates = [sample_candidate], q_policy = None\<rparr>"

definition sample_router :: model_router where
  "sample_router = \<lparr>mr_capacity = capacity_init [], mr_order = TENANT_ROUND_ROBIN,
     mr_queue = [sample_queued 0 ''t1'', sample_queued 1 ''t1'', sample_queued 2 ''t2''],
     mr_next_sequence = 3, mr_last_tenant = Some ''t1''\<rparr>"

lemma queue_order_fair_witness:
  "map tenant_of (ordered_queue sample_router) = [''t2'', ''t1'', ''t1'']
    \<and> mset (ordered_queue sample_router) = mset (mr_queue sample_router)"
proof -
  have "map tenant_of (ordered_queue sample_router) = [''t2'', ''t1'', ''t1'']"
    by (simp add: sample_router_def sample_queued_def ordered_queue_def tenant_of_def rotate_after_def
        round_robin.simps round_robin_pass.simps)
  moreover note queue_order_fair [of sample_router, THEN conjunct1]
  ultimately show ?thesis ..
qed

section \<open>The cheapest eligible model is admitted\<close>

definition lacks_capacity :: "model_operation \<Rightarrow> model_candidate \<Rightarrow> int \<Rightarrow> capacity \<Rightarrow> bool" where
  "lacks_capacity op c now s =
     (case scopes_for op c of Inl e \<Rightarrow> True
      | Inr ks \<Rightarrow> \<not> fits (limited_scopes s ks) (mo_estimated_total_tokens op) (prune (limited_scopes s ks) now s))"

lemma tried_events:
  "tried op now s s' \<Longrightarrow> cap_events s' k = cap_events s k
     \<or> cap_events s' k = dropWhile (\<lambda>e. fst e \<le> now - window) (cap_events s k)"
  by (induction rule: tried.induct) (auto simp: prune_events dropWhile_idem)

lemma lacks_capacity_tried:
  assumes "tried op now s s'"
  shows "lacks_capacity op c now s' = lacks_capacity op c now s"
proof (cases "scopes_for op c")
  case (Inr ks)
  have ls: "limited_scopes s' ks = limited_scopes s ks" using tried_frame [OF assms] by (simp add: limited_scopes_def)
  have d: "distinct (limited_scopes s ks)" using scopes_for_distinct [OF Inr] by (simp add: limited_scopes_def)
  have "cap_events (prune (limited_scopes s ks) now s') k = cap_events (prune (limited_scopes s ks) now s) k"
    if "k \<in> set (limited_scopes s ks)" for k
    using tried_events [OF assms, of k] that by (auto simp: prune_events [OF d] dropWhile_idem)
  then have "fits (limited_scopes s ks) n (prune (limited_scopes s ks) now s')
      = fits (limited_scopes s ks) n (prune (limited_scopes s ks) now s)" for n
    using tried_frame [OF assms] unfolding fits_def list_all_iff prune_frame by (intro ball_cong) (simp_all split: option.split)
  then show ?thesis by (simp add: lacks_capacity_def Inr ls)
qed (simp add: lacks_capacity_def)

lemma acquire_from_first:
  "acquire_from op cs now s = (Inr (Some a), s') \<Longrightarrow>
     \<exists>pre post. cs = pre @ ca_candidate a # post \<and> (\<forall>x \<in> set pre. lacks_capacity op x now s)
       \<and> \<not> lacks_capacity op (ca_candidate a) now s"
proof (induction cs arbitrary: s)
  case (Cons c cs)
  then obtain ks where ks: "scopes_for op c = Inr ks" by (cases "scopes_for op c") auto
  let ?l = "limited_scopes s ks"
  show ?case
  proof (cases "fits ?l (mo_estimated_total_tokens op) (prune ?l now s)")
    case True
    with Cons.prems ks have "ca_candidate a = c" "\<not> lacks_capacity op c now s"
      by (auto simp: Let_def lacks_capacity_def)
    then show ?thesis by (intro exI [of _ "[]"] exI [of _ cs]) simp
  next
    case False
    with ks have lacks: "lacks_capacity op c now s" by (simp add: lacks_capacity_def)
    have t: "tried op now s (prune ?l now s)"
      by (rule tried_prune [OF tried_refl]) (use scopes_for_distinct [OF ks] in \<open>simp add: limited_scopes_def\<close>)
    from Cons.prems ks False have "acquire_from op cs now (prune ?l now s) = (Inr (Some a), s')" by (simp add: Let_def)
    from Cons.IH [OF this] obtain pre post where "cs = pre @ ca_candidate a # post"
      "\<forall>x \<in> set pre. lacks_capacity op x now s" "\<not> lacks_capacity op (ca_candidate a) now s"
      unfolding lacks_capacity_tried [OF t] by blast
    with lacks show ?thesis by (intro exI [of _ "c # pre"] exI [of _ post]) simp
  qed
qed simp

lemma evaluate_spec:
  "evaluate is_available op cs policy now = Inr es \<Longrightarrow> map ce_candidate es = cs
     \<and> (\<forall>e \<in> set es. reasons is_available op (ce_candidate e) policy now = Inr (ce_reasons e))"
  by (induction cs arbitrary: es) (auto simp: bindR_Inr)

text \<open>What eligibility means: the policy allows, and every test passes.\<close>

definition suits ::
    "(model_operation \<Rightarrow> model_candidate \<Rightarrow> bool) \<Rightarrow> model_operation \<Rightarrow> model_candidate \<Rightarrow> routing_policy \<Rightarrow> datetime \<Rightarrow> bool" where
  "suits is_available op c p now \<longleftrightarrow>
     mc_provider_id c \<in> rp_allowed_provider_ids p
     \<and> mo_data_classes op \<subseteq> rp_allowed_data_classes p \<inter> mc_allowed_data_classes c
     \<and> required_capabilities (mo_work op) \<subseteq> mc_capabilities c
     \<and> mo_minimum_quality op \<le> mc_quality_score c \<and> rp_minimum_quality p \<le> mc_quality_score c
     \<and> is_available op c
     \<and> past_deadline now (mc_predicted_latency_ms c + mo_completion_reserve_ms op) (mo_deadline op) = Inr False"

lemma reason_if_Nil: "reason_if b r = [] \<longleftrightarrow> \<not> b"
  by (simp add: reason_if_def)

lemma no_reasons_iff:
  "reasons is_available op c policy now = Inr [] \<longleftrightarrow>
     (\<exists>p. policy = Some p \<and> permits_routing p \<and> suits is_available op c p now)"
  by (cases policy) (auto simp: reasons_def permits_routing_def suits_def bindR_Inr reason_if_Nil)

lemma admit_cases:
  assumes "admit is_available utc_offset op cs policy now s = (Inr d, s')"
  obtains es where "evaluate is_available op cs policy now = Inr es" "ma_eligibility d = es" "\<not> admitted d"
      "eligible_sorted es = []" "s' = s"
  | es where "evaluate is_available op cs policy now = Inr es" "ma_eligibility d = es" "\<not> admitted d"
      "eligible_sorted es \<noteq> []" "acquire_first utc_offset op (eligible_sorted es) now s = (Inr None, s')"
      "ma_failure d = Some CAPACITY_UNAVAILABLE"
  | es a where "evaluate is_available op cs policy now = Inr es" "ma_eligibility d = es" "admitted d"
      "acquire_first utc_offset op (eligible_sorted es) now s = (Inr (Some a), s')"
      "ma_candidate d = Some (ca_candidate a)" "ma_lease d = Some (ca_lease a)"
proof -
  from assms obtain es where es: "evaluate is_available op cs policy now = Inr es"
    by (auto simp: admit_def bindM_Inr)
  show ?thesis
  proof (cases "eligible_sorted es = []")
    case True
    with assms es show ?thesis
      by (intro that(1) [OF es]) (auto simp: admit_def bindM_Inr Let_def rejection_def admitted_def)
  next
    case False
    obtain r s1 where acq: "acquire_first utc_offset op (eligible_sorted es) now s = (r, s1)" by force
    show ?thesis
    proof (cases r)
      case (Inl e)
      with assms es False acq show ?thesis by (simp add: admit_def bindM_def)
    next
      case (Inr x)
      show ?thesis
      proof (cases x)
        case None
        with assms es False acq Inr show ?thesis
          by (intro that(2) [OF es]) (auto simp: admit_def bindM_def rejection_def admitted_def)
      next
        case (Some a)
        with assms es False acq Inr show ?thesis
          by (intro that(3) [OF es, of a]) (auto simp: admit_def bindM_def admitted_def)
      qed
    qed
  qed
qed

lemma eligible_sorted_members:
  assumes "evaluate is_available op cs policy now = Inr es"
  shows "c \<in> set (eligible_sorted es) \<longleftrightarrow> c \<in> set cs \<and> reasons is_available op c policy now = Inr []"
proof -
  note ev = evaluate_spec [OF assms]
  then have "c \<in> set cs \<longleftrightarrow> (\<exists>e \<in> set es. c = ce_candidate e)" by (auto simp flip: ev [THEN conjunct1])
  then show ?thesis using ev by (auto simp: eligible_sorted_def ce_eligible_def)
qed

text \<open>C18. Admission is economical and fails closed: an admitted model is one of the
  candidates, the policy is present, available, valid and allows, the model passes every
  eligibility test and has capacity; and every eligible candidate that is cheaper (or as
  cheap with a higher priority, or a smaller identifier) was out of capacity. Without such
  a policy nothing is admitted and no capacity is touched.\<close>

theorem cheapest_eligible_admitted:
  assumes "admit is_available utc_offset op cs policy now s = (Inr d, s')"
  shows "(admitted d \<longrightarrow> (\<exists>c p. ma_candidate d = Some c \<and> c \<in> set cs \<and> policy = Some p \<and> permits_routing p
        \<and> suits is_available op c p now \<and> \<not> lacks_capacity op c (timestamp utc_offset now) s
        \<and> (\<forall>x \<in> set cs. suits is_available op x p now \<longrightarrow> cost_key x < cost_key c \<longrightarrow>
             lacks_capacity op x (timestamp utc_offset now) s)))
    \<and> ((\<forall>p. policy = Some p \<longrightarrow> \<not> permits_routing p) \<longrightarrow> \<not> admitted d \<and> s' = s)"
proof (rule admit_cases [OF assms], goal_cases)
  case (1 es)
  then show ?thesis by simp
next
  case (2 es)
  then obtain c where "c \<in> set (eligible_sorted es)" by (cases "eligible_sorted es") auto
  with eligible_sorted_members [OF 2(1)] no_reasons_iff 2(3) show ?thesis by blast
next
  case (3 es a)
  then have acq: "acquire_from op (eligible_sorted es) (timestamp utc_offset now) s = (Inr (Some a), s')"
    by (auto simp: acquire_first_def split: if_splits)
  from acquire_from_first [OF acq] obtain pre post where
    split: "eligible_sorted es = pre @ ca_candidate a # post"
    and pre: "\<forall>x \<in> set pre. lacks_capacity op x (timestamp utc_offset now) s"
    and has: "\<not> lacks_capacity op (ca_candidate a) (timestamp utc_offset now) s" by blast
  have mem: "ca_candidate a \<in> set (eligible_sorted es)" by (simp add: split)
  then obtain p where p: "policy = Some p" "permits_routing p" "suits is_available op (ca_candidate a) p now"
    and c: "ca_candidate a \<in> set cs"
    using eligible_sorted_members [OF 3(1)] no_reasons_iff by blast
  have "sorted (map cost_key (pre @ ca_candidate a # post))"
    unfolding split [symmetric] eligible_sorted_def by simp
  then have after: "cost_key (ca_candidate a) \<le> cost_key x" if "x \<in> set (ca_candidate a # post)" for x
    using that by (auto simp: sorted_append)
  have "lacks_capacity op x (timestamp utc_offset now) s"
    if "x \<in> set cs" "suits is_available op x p now" "cost_key x < cost_key (ca_candidate a)" for x
  proof -
    have "reasons is_available op x policy now = Inr []" using that(2) p by (auto simp: no_reasons_iff)
    with that(1) have "x \<in> set (eligible_sorted es)" using eligible_sorted_members [OF 3(1)] by blast
    then have "x \<in> set pre \<or> x \<in> set (ca_candidate a # post)" unfolding split by auto
    with pre after that(3) show ?thesis by (meson leD)
  qed
  with p c has 3(3,5) show ?thesis by blast
qed

definition sample_routing_policy :: routing_policy where
  "sample_routing_policy = \<lparr>rp_version = ''1'', rp_decision = PD_ALLOW, rp_available = True, rp_valid = True,
     rp_allowed_provider_ids = {''p1''}, rp_allowed_data_classes = {''public''}, rp_minimum_quality = 0\<rparr>"

lemma sample_admit:
  "admit (\<lambda>_ _. True) (\<lambda>_. 0) sample_model_operation
      [sample_candidate\<lparr>mc_model_id := ''m2'', mc_cost_estimate := 9\<rparr>, sample_candidate] (Some sample_routing_policy) (Aware 0)
      (capacity_init []) = (Inr \<lparr>ma_candidate = Some sample_candidate,
         ma_lease = Some \<lparr>lease_operation_id = ''op1'', lease_scopes = []\<rparr>, ma_failure = None,
         ma_eligibility = [\<lparr>ce_candidate = sample_candidate\<lparr>mc_model_id := ''m2'', mc_cost_estimate := 9\<rparr>, ce_reasons = []\<rparr>,
           \<lparr>ce_candidate = sample_candidate, ce_reasons = []\<rparr>]\<rparr>,
       (capacity_init [])\<lparr>cap_leases := [(''op1'', \<lparr>lease_operation_id = ''op1'', lease_scopes = []\<rparr>)]\<rparr>)"
  by (simp add: admit_def bindM_def reasons_def sample_model_operation_def sample_candidate_def sample_routing_policy_def
      past_deadline_def reason_if_def eligible_sorted_def ce_eligible_def cost_key_def acquire_first_def capacity_init_def
      scopes_for_def CapacityScope_def limited_scopes_def fits_def prune_def take_lease_def Let_def)

lemma cheapest_eligible_admitted_witness:
  "\<exists>d s' c p. admit (\<lambda>_ _. True) (\<lambda>_. 0) sample_model_operation
      [sample_candidate\<lparr>mc_model_id := ''m2'', mc_cost_estimate := 9\<rparr>, sample_candidate] (Some sample_routing_policy) (Aware 0)
      (capacity_init []) = (Inr d, s') \<and> admitted d \<and> ma_candidate d = Some c \<and> permits_routing p
      \<and> suits (\<lambda>_ _. True) sample_model_operation c p (Aware 0)"
  using cheapest_eligible_admitted [OF sample_admit] sample_admit by (fastforce simp: admitted_def)

section \<open>Scheduling\<close>

text \<open>The queue is well formed: operation identifiers and sequence numbers are distinct and
  every sequence number was handed out.\<close>

definition queue_wf :: "model_router \<Rightarrow> bool" where
  "queue_wf s \<longleftrightarrow> distinct (map (mo_operation_id \<circ> q_operation) (mr_queue s))
     \<and> sorted_wrt (<) (map q_sequence (mr_queue s)) \<and> (\<forall>q \<in> set (mr_queue s). q_sequence q < mr_next_sequence s)"

lemma enqueue_wf:
  assumes "queue_wf s" and "enqueue op cs policy s = (r, s')"
  shows "queue_wf s' \<and> (r \<noteq> Inr () \<longrightarrow> s' = s)"
  using assms by (fastforce simp: enqueue_def queue_wf_def list_ex_iff sorted_wrt_append split: if_splits)

lemma sorted_wrt_remove1: "sorted_wrt P (map f qs) \<Longrightarrow> sorted_wrt P (map f (remove1 q qs))"
  by (induction qs) (auto dest: notin_set_remove1 in_set_remove1 [THEN iffD1] set_remove1_subset [THEN subsetD])

lemma distinct_map_remove1: "distinct (map f qs) \<Longrightarrow> distinct (map f (remove1 q qs))"
  by (induction qs) (auto dest: set_remove1_subset [THEN subsetD])

text \<open>The scan offers operations to \<open>admit\<close> in order, on the capacity the earlier offers
  left, and stops at the first that is admitted.\<close>

inductive offered ::
    "(model_operation \<Rightarrow> model_candidate \<Rightarrow> bool) \<Rightarrow> (int \<Rightarrow> int) \<Rightarrow> datetime \<Rightarrow> queued_operation list \<Rightarrow> capacity \<Rightarrow> capacity \<Rightarrow> bool"
  for is_available utc_offset now where
  offered_none: "offered is_available utc_offset now [] c c"
| offered_refused: "admit is_available utc_offset (q_operation q) (q_candidates q) (q_policy q) now c = (Inr d, c1) \<Longrightarrow>
     \<not> admitted d \<Longrightarrow> offered is_available utc_offset now qs c1 c2 \<Longrightarrow> offered is_available utc_offset now (q # qs) c c2"

lemma schedule_from_spec:
  assumes "schedule_from is_available utc_offset now qs s = (Inr r, s')"
  shows "case r of
      None \<Rightarrow> offered is_available utc_offset now qs (mr_capacity s) (mr_capacity s') \<and> s' = s\<lparr>mr_capacity := mr_capacity s'\<rparr>
    | Some d \<Rightarrow> \<exists>pre q post c. qs = pre @ q # post \<and> offered is_available utc_offset now pre (mr_capacity s) c
        \<and> admit is_available utc_offset (q_operation q) (q_candidates q) (q_policy q) now c = (Inr d, mr_capacity s') \<and> admitted d
        \<and> s' = s\<lparr>mr_capacity := mr_capacity s', mr_queue := remove1 q (mr_queue s), mr_last_tenant := Some (tenant_of q)\<rparr>"
  using assms
proof (induction qs arbitrary: s)
  case Nil
  then show ?case by (auto intro: offered_none)
next
  case (Cons q qs)
  obtain x c1 where ad: "admit is_available utc_offset (q_operation q) (q_candidates q) (q_policy q) now (mr_capacity s) = (x, c1)"
    by force
  with Cons.prems obtain d where x: "x = Inr d" by (cases x) auto
  show ?case
  proof (cases "admitted d")
    case True
    with Cons.prems ad x have "r = Some d" "s' = s\<lparr>mr_capacity := c1, mr_queue := remove1 q (mr_queue s), mr_last_tenant := Some (tenant_of q)\<rparr>"
      by auto
    with True ad x show ?thesis
      by (simp, intro exI [of _ "[]"] exI [of _ q] exI [of _ qs] exI [of _ "mr_capacity s"]) (auto intro: offered_none)
  next
    case False
    with Cons.prems ad x have "schedule_from is_available utc_offset now qs (s\<lparr>mr_capacity := c1\<rparr>) = (Inr r, s')" by simp
    from Cons.IH [OF this] show ?thesis
    proof (cases r)
      case None
      with Cons.IH [OF \<open>schedule_from _ _ _ qs _ = _\<close>] False ad x show ?thesis
        by (auto intro: offered_refused)
    next
      case (Some d')
      with Cons.IH [OF \<open>schedule_from _ _ _ qs _ = _\<close>] obtain pre q' post c where
        "qs = pre @ q' # post" "offered is_available utc_offset now pre c1 c"
        "admit is_available utc_offset (q_operation q') (q_candidates q') (q_policy q') now c = (Inr d', mr_capacity s')" "admitted d'"
        "s' = s\<lparr>mr_capacity := mr_capacity s', mr_queue := remove1 q' (mr_queue s), mr_last_tenant := Some (tenant_of q')\<rparr>"
        by auto
      with False ad x Some show ?thesis
        by (simp, intro exI [of _ "q # pre"] exI [of _ q'] exI [of _ post] exI [of _ c]) (auto intro: offered_refused)
    qed
  qed
qed

text \<open>Scheduling serves the queue in its order without losing or repeating work: when an
  operation is admitted it is the first of the order that was not refused, exactly that one
  leaves the queue and its tenant becomes the one served last; when none is, every waiting
  operation was offered and refused and the queue is unchanged. The queue stays well
  formed.\<close>

theorem schedule_serves_in_order:
  assumes "queue_wf s" and "schedule_next is_available utc_offset now s = (Inr r, s')"
  shows "queue_wf s'
    \<and> (r = None \<longrightarrow> mr_queue s' = mr_queue s \<and> mr_last_tenant s' = mr_last_tenant s
         \<and> offered is_available utc_offset now (ordered_queue s) (mr_capacity s) (mr_capacity s'))
    \<and> (\<forall>d. r = Some d \<longrightarrow> (\<exists>pre q post c. ordered_queue s = pre @ q # post
         \<and> offered is_available utc_offset now pre (mr_capacity s) c
         \<and> admit is_available utc_offset (q_operation q) (q_candidates q) (q_policy q) now c = (Inr d, mr_capacity s')
         \<and> admitted d \<and> mset (mr_queue s) = add_mset q (mset (mr_queue s')) \<and> mr_last_tenant s' = Some (tenant_of q)))"
proof (cases r)
  case None
  with schedule_from_spec [OF assms(2) [unfolded schedule_next_def]]
  have of: "offered is_available utc_offset now (ordered_queue s) (mr_capacity s) (mr_capacity s')"
    and s': "s' = s\<lparr>mr_capacity := mr_capacity s'\<rparr>" by auto
  have "mr_queue s' = mr_queue s" "mr_last_tenant s' = mr_last_tenant s" "mr_next_sequence s' = mr_next_sequence s"
    by (subst s'; simp)+
  with None of assms(1) show ?thesis by (simp add: queue_wf_def)
next
  case (Some d)
  with schedule_from_spec [OF assms(2) [unfolded schedule_next_def]] obtain pre q post c where
    split: "ordered_queue s = pre @ q # post" and of: "offered is_available utc_offset now pre (mr_capacity s) c"
    and ad: "admit is_available utc_offset (q_operation q) (q_candidates q) (q_policy q) now c = (Inr d, mr_capacity s')" "admitted d"
    and s': "s' = s\<lparr>mr_capacity := mr_capacity s', mr_queue := remove1 q (mr_queue s), mr_last_tenant := Some (tenant_of q)\<rparr>"
    by auto
  have q': "mr_queue s' = remove1 q (mr_queue s)" "mr_last_tenant s' = Some (tenant_of q)" "mr_next_sequence s' = mr_next_sequence s"
    by (subst s'; simp)+
  have "q \<in> set (mr_queue s)" using split ordered_queue_mset [of s] by (metis in_set_conv_decomp set_mset_mset)
  then have m: "mset (mr_queue s) = add_mset q (mset (mr_queue s'))" by (simp add: q')
  have "queue_wf s'" using assms(1) set_remove1_subset [of q "mr_queue s"]
    unfolding queue_wf_def q' by (auto intro: sorted_wrt_remove1 distinct_map_remove1)
  with split of ad m q' Some show ?thesis by blast
qed

definition sample_fifo :: model_router where
  "sample_fifo = \<lparr>mr_capacity = capacity_init [], mr_order = FIFO,
     mr_queue = [(sample_queued 0 ''t2'')\<lparr>q_policy := None\<rparr>,
       \<lparr>q_sequence = 1, q_operation = sample_model_operation\<lparr>mo_operation_id := ''op2''\<rparr>, q_candidates = [sample_candidate],
         q_policy = Some sample_routing_policy\<rparr>],
     mr_next_sequence = 2, mr_last_tenant = None\<rparr>"

lemma schedule_serves_in_order_witness:
  "\<exists>d s'. schedule_next (\<lambda>_ _. True) (\<lambda>_. 0) (Aware 0) sample_fifo = (Inr (Some d), s')
     \<and> mr_last_tenant s' = Some ''t1'' \<and> queue_wf s'"
proof -
  have run: "\<exists>d s'. schedule_next (\<lambda>_ _. True) (\<lambda>_. 0) (Aware 0) sample_fifo = (Inr (Some d), s') \<and> mr_last_tenant s' = Some ''t1''"
    by (simp add: schedule_next_def sample_fifo_def ordered_queue_def sample_queued_def admit_def bindM_def reasons_def
        sample_model_operation_def sample_candidate_def sample_routing_policy_def past_deadline_def reason_if_def
        eligible_sorted_def ce_eligible_def cost_key_def acquire_first_def capacity_init_def scopes_for_def
        CapacityScope_def limited_scopes_def fits_def prune_def take_lease_def Let_def rejection_def admitted_def tenant_of_def)
  have "queue_wf sample_fifo"
    by (simp add: queue_wf_def sample_fifo_def sample_queued_def sample_model_operation_def)
  with run schedule_serves_in_order show ?thesis by blast
qed

end
