(* ===== verification/Security.thy ===== *)
theory Security
  imports Json Routing_Models
begin

text \<open>
  \<open>security/models.py\<close>, \<open>security/gateway.py\<close> and \<open>observability/telemetry.py\<close>: redaction of
  telemetry, security policies and their registry, and the fail-closed boundary in front
  of a model provider. The authenticator, the gateway, the telemetry sink, the clock and
  \<open>isoformat\<close> are parameters; the state of the outside world is theirs.
\<close>

declare map_of_eq_Some_iff [simp del]

section \<open>Policies and requests\<close>

datatype security_decision = SD_ALLOW | SD_DENY | SD_INDETERMINATE

record redaction_policy =
  rd_sensitive_fields :: "string set"
  rd_sensitive_values :: "string set"
  rd_representation :: string

definition RedactionPolicy_post :: "redaction_policy \<Rightarrow> redaction_policy res" where
  "RedactionPolicy_post p = (if rd_representation p = []
     then Inl (ValueError ''redaction representation must not be empty'') else Inr p)"

record security_policy =
  sp_version :: string
  sp_available :: bool
  sp_valid :: bool
  sp_decision :: security_decision
  sp_allowed_provider_ids :: "string set"
  sp_allowed_data_classes :: "string set"
  sp_sensitive_fields :: "string set"
  sp_redaction :: string
  sp_masking :: string
  sp_transport_encryption :: "string option"
  sp_persistence_encryption :: "string option"

definition SecurityPolicy_post :: "security_policy \<Rightarrow> security_policy res" where
  "SecurityPolicy_post p =
     (if blank (sp_version p) then Inl (ValueError ''security policy version must not be blank'')
      else if sp_redaction p = [] \<or> sp_masking p = []
      then Inl (ValueError ''security representations must not be empty'')
      else Inr p)"

definition permits_disclosure :: "security_policy \<Rightarrow> bool" where
  "permits_disclosure p \<longleftrightarrow> sp_available p \<and> sp_valid p \<and> sp_decision p = SD_ALLOW"

definition redaction_of :: "security_policy \<Rightarrow> redaction_policy res" where
  "redaction_of p = RedactionPolicy_post
     \<lparr>rd_sensitive_fields = sp_sensitive_fields p, rd_sensitive_values = {}, rd_representation = sp_redaction p\<rparr>"

record authentication_result =
  au_authenticated :: bool
  au_service_identity :: string
  au_reason_code :: string

record encryption_metadata =
  em_transport :: string
  em_persistence :: string

definition EncryptionMetadata :: "string \<Rightarrow> string \<Rightarrow> encryption_metadata res" where
  "EncryptionMetadata t p = (if blank t \<or> blank p then Inl (ValueError ''encryption metadata must not be blank'')
     else Inr \<lparr>em_transport = t, em_persistence = p\<rparr>)"

record secured_model_request =
  sr_operation :: model_operation
  sr_candidate :: model_candidate
  sr_payload :: frozen_mapping
  sr_service_identity :: string
  sr_policy_version :: string
  sr_data_classes :: "string set"
  sr_encryption :: encryption_metadata

definition SecuredModelRequest_post :: "secured_model_request \<Rightarrow> secured_model_request res" where
  "SecuredModelRequest_post r = (if blank (sr_service_identity r) \<or> blank (sr_policy_version r)
     then Inl (ValueError ''secured request identity and policy version must not be blank'') else Inr r)"

section \<open>Telemetry\<close>

record telemetry_event =
  te_correlation_id :: string
  te_timestamp :: datetime
  te_event_type :: string
  te_component :: string
  te_outcome :: string
  te_configuration_version :: string
  te_details :: frozen_mapping

definition TelemetryEvent_post :: "telemetry_event \<Rightarrow> telemetry_event res" where
  "TelemetryEvent_post e =
     (if list_ex blank [te_correlation_id e, te_event_type e, te_component e, te_outcome e, te_configuration_version e]
      then Inl (ValueError ''telemetry envelope fields must not be blank'') else Inr e)"

text \<open>\<open>key in fields or ".".join(path) in fields\<close>.\<close>

definition sensitive :: "string set \<Rightarrow> string \<Rightarrow> string list \<Rightarrow> bool" where
  "sensitive names key path \<longleftrightarrow> key \<in> names \<or> join ''.'' path \<in> names"

text \<open>\<open>current\<close> of \<open>_redact\<close>: the envelope's own \<open>details\<close> key is not part of the path.\<close>

definition redact_path :: "string list \<Rightarrow> string \<Rightarrow> string list" where
  "redact_path path key = (if path = [] \<and> key = ''details'' then [] else path @ [key])"

text \<open>The output dictionary of a mapping is built entry by entry in \<open>acc\<close>.\<close>

fun redact :: "(pyval \<Rightarrow> string) \<Rightarrow> redaction_policy \<Rightarrow> string list \<Rightarrow> pyval \<Rightarrow> pyval"
and redact_list :: "(pyval \<Rightarrow> string) \<Rightarrow> redaction_policy \<Rightarrow> string list \<Rightarrow> pyval list \<Rightarrow> pyval list"
and redact_entries :: "(pyval \<Rightarrow> string) \<Rightarrow> redaction_policy \<Rightarrow> string list \<Rightarrow> (pyval \<times> pyval) list
    \<Rightarrow> (pyval \<times> pyval) list \<Rightarrow> (pyval \<times> pyval) list"
and redact_frozen :: "(pyval \<Rightarrow> string) \<Rightarrow> redaction_policy \<Rightarrow> string list \<Rightarrow> (string \<times> pyval) list
    \<Rightarrow> (pyval \<times> pyval) list \<Rightarrow> (pyval \<times> pyval) list" where
  "redact show p path (VDict kvs) = VDict (redact_entries show p path kvs [])"
| "redact show p path (VFrozen m) = VDict (redact_frozen show p path m [])"
| "redact show p path (VList xs) = VTuple (redact_list show p path xs)"
| "redact show p path (VTuple xs) = VTuple (redact_list show p path xs)"
| "redact show p path (VStr s) = VStr (if s \<in> rd_sensitive_values p then rd_representation p else s)"
| "redact show p path VNone = VNone"
| "redact show p path (VBool b) = VBool b"
| "redact show p path (VInt i) = VInt i"
| "redact show p path (VFloat x) = VFloat x"
| "redact show p path (VBytes b) = VBytes b"
| "redact show p path (VByteArray b) = VByteArray b"
| "redact show p path (VSet xs) = VSet xs"
| "redact show p path (VFrozenset xs) = VFrozenset xs"
| "redact show p path (VObject n) = VObject n"
| "redact_list show p path [] = []"
| "redact_list show p path (x # xs) = redact show p path x # redact_list show p path xs"
| "redact_entries show p path [] acc = acc"
| "redact_entries show p path ((k, v) # kvs) acc =
     redact_entries show p path kvs (dset (VStr (py_str show k))
       (if sensitive (rd_sensitive_fields p) (py_str show k) (redact_path path (py_str show k))
        then VStr (rd_representation p) else redact show p (redact_path path (py_str show k)) v) acc)"
| "redact_frozen show p path [] acc = acc"
| "redact_frozen show p path ((k, v) # kvs) acc =
     redact_frozen show p path kvs (dset (VStr k)
       (if sensitive (rd_sensitive_fields p) k (redact_path path k)
        then VStr (rd_representation p) else redact show p (redact_path path k) v) acc)"

definition frozen_of :: "pyval \<Rightarrow> frozen_mapping res" where
  "frozen_of v = bindR (freeze v) (\<lambda>f. case f of VFrozen m \<Rightarrow> Inr m | _ \<Rightarrow> Inl (AssertionError []))"

definition envelope :: "(datetime \<Rightarrow> string) \<Rightarrow> telemetry_event \<Rightarrow> pyval" where
  "envelope isoformat e = VDict [
     (VStr ''correlation_id'', VStr (te_correlation_id e)),
     (VStr ''timestamp'', VStr (isoformat (te_timestamp e))),
     (VStr ''event_type'', VStr (te_event_type e)),
     (VStr ''component'', VStr (te_component e)),
     (VStr ''outcome'', VStr (te_outcome e)),
     (VStr ''configuration_version'', VStr (te_configuration_version e)),
     (VStr ''details'', VFrozen (te_details e))]"

definition serialize_redacted :: "(pyval \<Rightarrow> string) \<Rightarrow> (datetime \<Rightarrow> string) \<Rightarrow> telemetry_event \<Rightarrow> redaction_policy \<Rightarrow> frozen_mapping res" where
  "serialize_redacted show isoformat e p = frozen_of (redact show p [] (envelope isoformat e))"

section \<open>The registry of policies\<close>

type_synonym policy_registry = "(string, security_policy) dict"

definition policies_register :: "security_policy \<Rightarrow> (policy_registry, unit) meth" where
  "policies_register p reg =
     (case dget reg (sp_version p) of
        Some e \<Rightarrow> if e \<noteq> p
          then (Inl (ValueError (''security policy version '' @ CHR 0x27 # sp_version p @ CHR 0x27 # '' is immutable'')), reg)
          else (Inr (), dset (sp_version p) p reg)
      | None \<Rightarrow> (Inr (), dset (sp_version p) p reg))"

definition policies_resolve :: "string option \<Rightarrow> policy_registry \<Rightarrow> security_policy option" where
  "policies_resolve v reg = (case v of None \<Rightarrow> None | Some s \<Rightarrow> if s = [] then None else dget reg s)"

section \<open>The protected invoker\<close>

record ('s, 'o) invoker_env =
  iv_policies :: policy_registry
  iv_authenticate :: "string \<Rightarrow> string \<Rightarrow> execution_context \<Rightarrow> ('s, authentication_result) meth"
  iv_gateway :: "secured_model_request \<Rightarrow> execution_context \<Rightarrow> ('s, 'o) meth"
  iv_sink :: "frozen_mapping \<Rightarrow> ('s, unit) meth"
  iv_clock :: "('s, datetime) meth"
  iv_show :: "pyval \<Rightarrow> string"
  iv_iso :: "datetime \<Rightarrow> string"

definition telemetry_emit :: "('s, 'o) invoker_env \<Rightarrow> telemetry_event \<Rightarrow> redaction_policy \<Rightarrow> ('s, unit) meth" where
  "telemetry_emit env e p = bindM (liftR (serialize_redacted (iv_show env) (iv_iso env) e p)) (iv_sink env)"

fun mask :: "(pyval \<Rightarrow> string) \<Rightarrow> security_policy \<Rightarrow> string list \<Rightarrow> pyval \<Rightarrow> pyval"
and mask_list :: "(pyval \<Rightarrow> string) \<Rightarrow> security_policy \<Rightarrow> string list \<Rightarrow> pyval list \<Rightarrow> pyval list"
and mask_entries :: "(pyval \<Rightarrow> string) \<Rightarrow> security_policy \<Rightarrow> string list \<Rightarrow> (pyval \<times> pyval) list
    \<Rightarrow> (pyval \<times> pyval) list \<Rightarrow> (pyval \<times> pyval) list"
and mask_frozen :: "(pyval \<Rightarrow> string) \<Rightarrow> security_policy \<Rightarrow> string list \<Rightarrow> (string \<times> pyval) list
    \<Rightarrow> (pyval \<times> pyval) list \<Rightarrow> (pyval \<times> pyval) list" where
  "mask show p path (VDict kvs) = VDict (mask_entries show p path kvs [])"
| "mask show p path (VFrozen m) = VDict (mask_frozen show p path m [])"
| "mask show p path (VList xs) = VTuple (mask_list show p path xs)"
| "mask show p path (VTuple xs) = VTuple (mask_list show p path xs)"
| "mask show p path (VStr s) = VStr s"
| "mask show p path VNone = VNone"
| "mask show p path (VBool b) = VBool b"
| "mask show p path (VInt i) = VInt i"
| "mask show p path (VFloat x) = VFloat x"
| "mask show p path (VBytes b) = VBytes b"
| "mask show p path (VByteArray b) = VByteArray b"
| "mask show p path (VSet xs) = VSet xs"
| "mask show p path (VFrozenset xs) = VFrozenset xs"
| "mask show p path (VObject n) = VObject n"
| "mask_list show p path [] = []"
| "mask_list show p path (x # xs) = mask show p path x # mask_list show p path xs"
| "mask_entries show p path [] acc = acc"
| "mask_entries show p path ((k, v) # kvs) acc =
     mask_entries show p path kvs (dset (VStr (py_str show k))
       (if sensitive (sp_sensitive_fields p) (py_str show k) (path @ [py_str show k])
        then VStr (sp_masking p) else mask show p (path @ [py_str show k]) v) acc)"
| "mask_frozen show p path [] acc = acc"
| "mask_frozen show p path ((k, v) # kvs) acc =
     mask_frozen show p path kvs (dset (VStr k)
       (if sensitive (sp_sensitive_fields p) k (path @ [k])
        then VStr (sp_masking p) else mask show p (path @ [k]) v) acc)"

text \<open>The redaction of a rejection without a policy is that of a denying policy.\<close>

definition unavailable_policy :: security_policy where
  "unavailable_policy = \<lparr>sp_version = ''unavailable'', sp_available = False, sp_valid = False, sp_decision = SD_DENY,
     sp_allowed_provider_ids = {}, sp_allowed_data_classes = {}, sp_sensitive_fields = {},
     sp_redaction = ''[REDACTED]'', sp_masking = ''[MASKED]'', sp_transport_encryption = None, sp_persistence_encryption = None\<rparr>"

text \<open>\<open>finally: raise\<close> replaces whatever \<open>emit\<close> did.\<close>

definition reject_disclosure ::
    "('s, 'o) invoker_env \<Rightarrow> execution_context \<Rightarrow> security_policy option \<Rightarrow> string \<Rightarrow> string \<Rightarrow> failure_code \<Rightarrow> ('s, 'a) meth" where
  "reject_disclosure env ctx policy ident reason code =
     bindM (liftR (redaction_of (case policy of Some p \<Rightarrow> p | None \<Rightarrow> unavailable_policy))) (\<lambda>redaction.
     bindM (liftR (frozen_of (VDict [
        (VStr ''policy_version'', VStr (case policy of Some p \<Rightarrow> sp_version p | None \<Rightarrow> ''unavailable'')),
        (VStr ''service_identity'', VStr (if ident = [] then ''unavailable'' else ident)),
        (VStr ''decision'', VStr ''rejected''),
        (VStr ''reason_code'', VStr reason)]))) (\<lambda>details.
     bindM (iv_clock env) (\<lambda>now.
     bindM (liftR (TelemetryEvent_post \<lparr>te_correlation_id = correlation_id ctx, te_timestamp = now,
        te_event_type = ''security_decision'', te_component = ''security'', te_outcome = ''rejected'',
        te_configuration_version = version (reference (ctx_configuration ctx)), te_details = details\<rparr>)) (\<lambda>event s.
       (Inl (SecurityRejection (TypedFailure code reason)), snd (telemetry_emit env event redaction s))))))"

definition empty_text :: "string option \<Rightarrow> bool" where
  "empty_text v = (v = None \<or> v = Some [])"

definition policy_rejection :: "security_policy \<Rightarrow> model_operation \<Rightarrow> model_candidate \<Rightarrow> (string \<times> failure_code) option" where
  "policy_rejection p op c =
     (if \<not> sp_available p then Some (''policy_unavailable'', SECURITY_POLICY_UNAVAILABLE)
      else if \<not> sp_valid p then Some (''policy_invalid'', SECURITY_POLICY_INVALID)
      else if sp_decision p \<noteq> SD_ALLOW
      then Some (if sp_decision p = SD_INDETERMINATE then ''policy_indeterminate'' else ''policy_denied'', SECURITY_POLICY_DENIED)
      else if mc_provider_id c \<notin> sp_allowed_provider_ids p then Some (''provider_denied'', SECURITY_PROVIDER_DENIED)
      else if \<not> mo_data_classes op \<subseteq> sp_allowed_data_classes p then Some (''data_class_denied'', SECURITY_DATA_DENIED)
      else if empty_text (sp_transport_encryption p) \<or> empty_text (sp_persistence_encryption p)
      then Some (''encryption_metadata_missing'', SECURITY_PROTECTION_REQUIRED)
      else None)"

definition secured_request ::
    "(pyval \<Rightarrow> string) \<Rightarrow> security_policy \<Rightarrow> model_operation \<Rightarrow> model_candidate \<Rightarrow> pyval \<Rightarrow> string \<Rightarrow> secured_model_request res" where
  "secured_request show p op c payload ident =
     bindR (frozen_of (mask show p [] payload)) (\<lambda>frozen.
     bindR (EncryptionMetadata (the (sp_transport_encryption p)) (the (sp_persistence_encryption p))) (\<lambda>em.
     SecuredModelRequest_post \<lparr>sr_operation = op, sr_candidate = c, sr_payload = frozen, sr_service_identity = ident,
       sr_policy_version = sp_version p, sr_data_classes = mo_data_classes op, sr_encryption = em\<rparr>))"

definition protected_invoke ::
    "('s, 'o) invoker_env \<Rightarrow> model_operation \<Rightarrow> model_candidate \<Rightarrow> pyval \<Rightarrow> string \<Rightarrow> execution_context \<Rightarrow> ('s, 'o) meth" where
  "protected_invoke env op c payload ident ctx =
     (case policies_resolve (security_policy_version (ctx_configuration ctx)) (iv_policies env) of
        None \<Rightarrow> reject_disclosure env ctx None ident ''policy_unavailable'' SECURITY_POLICY_UNAVAILABLE
      | Some p \<Rightarrow>
         (case policy_rejection p op c of
            Some (reason, code) \<Rightarrow> reject_disclosure env ctx (Some p) ident reason code
          | None \<Rightarrow>
             bindM (iv_authenticate env ident (mc_provider_id c) ctx) (\<lambda>au.
               if \<not> au_authenticated au \<or> au_service_identity au \<noteq> ident
               then reject_disclosure env ctx (Some p) ident
                 (if au_reason_code au = [] then ''authentication_failed'' else au_reason_code au) MODEL_AUTHENTICATION_FAILED
               else bindM (liftR (secured_request (iv_show env) p op c payload ident)) (\<lambda>r. iv_gateway env r ctx))))"

section \<open>What scrubbing leaves\<close>

text \<open>The values at a path of keys: sequences are passed through, mappings are entered by a
  key.\<close>

fun values_at :: "pyval \<Rightarrow> string list \<Rightarrow> pyval list"
and list_at :: "pyval list \<Rightarrow> string list \<Rightarrow> pyval list"
and entries_at :: "(pyval \<times> pyval) list \<Rightarrow> string \<Rightarrow> string list \<Rightarrow> pyval list"
and items_at :: "(string \<times> pyval) list \<Rightarrow> string \<Rightarrow> string list \<Rightarrow> pyval list" where
  "values_at (VDict kvs) q = (case q of [] \<Rightarrow> [VDict kvs] | k # q' \<Rightarrow> entries_at kvs k q')"
| "values_at (VFrozen m) q = (case q of [] \<Rightarrow> [VFrozen m] | k # q' \<Rightarrow> items_at m k q')"
| "values_at (VList xs) q = list_at xs q"
| "values_at (VTuple xs) q = list_at xs q"
| "values_at (VStr x) q = (if q = [] then [VStr x] else [])"
| "values_at VNone q = (if q = [] then [VNone] else [])"
| "values_at (VBool x) q = (if q = [] then [VBool x] else [])"
| "values_at (VInt x) q = (if q = [] then [VInt x] else [])"
| "values_at (VFloat x) q = (if q = [] then [VFloat x] else [])"
| "values_at (VBytes x) q = (if q = [] then [VBytes x] else [])"
| "values_at (VByteArray x) q = (if q = [] then [VByteArray x] else [])"
| "values_at (VSet x) q = (if q = [] then [VSet x] else [])"
| "values_at (VFrozenset x) q = (if q = [] then [VFrozenset x] else [])"
| "values_at (VObject x) q = (if q = [] then [VObject x] else [])"
| "list_at [] q = []"
| "list_at (x # xs) q = values_at x q @ list_at xs q"
| "entries_at [] k q = []"
| "entries_at ((k', v) # kvs) k q = (if k' = VStr k then values_at v q else []) @ entries_at kvs k q"
| "items_at [] k q = []"
| "items_at ((k', v) # m) k q = (if k' = k then values_at v q else []) @ items_at m k q"

lemma entries_at_dset:
  "set (entries_at (dset (VStr k) w acc) k' q) \<subseteq> set (entries_at acc k' q) \<union> (if k = k' then set (values_at w q) else {})"
  by (induction acc) auto

text \<open>A property of the values by path that holds of every entry holds of the dictionary
  built from them.\<close>

definition all_values :: "(string list \<Rightarrow> pyval \<Rightarrow> bool) \<Rightarrow> pyval \<Rightarrow> bool" where
  "all_values P v \<longleftrightarrow> (\<forall>q. \<forall>x \<in> set (values_at v q). P q x)"

definition all_entries :: "(string list \<Rightarrow> pyval \<Rightarrow> bool) \<Rightarrow> (pyval \<times> pyval) list \<Rightarrow> bool" where
  "all_entries P kvs \<longleftrightarrow> (\<forall>k q. \<forall>x \<in> set (entries_at kvs k q). P (k # q) x)"

lemma all_entries_dset:
  assumes "all_entries P acc" and "all_values (\<lambda>q. P (k # q)) w"
  shows "all_entries P (dset (VStr k) w acc)"
  unfolding all_entries_def
proof (intro allI ballI)
  fix k' q x assume "x \<in> set (entries_at (dset (VStr k) w acc) k' q)"
  with entries_at_dset [of k w acc k' q] have "x \<in> set (entries_at acc k' q) \<or> k = k' \<and> x \<in> set (values_at w q)"
    by (auto split: if_splits)
  then show "P (k' # q) x" using assms unfolding all_entries_def all_values_def by blast
qed

lemma all_entries_Nil [simp]: "all_entries P []"
  by (simp add: all_entries_def)

lemma all_values_dict: "all_entries P kvs \<Longrightarrow> (\<And>d. P [] (VDict d)) \<Longrightarrow> all_values P (VDict kvs)"
  by (auto simp: all_entries_def all_values_def split: list.splits)

lemma all_values_str: "all_values P (VStr x) \<longleftrightarrow> P [] (VStr x)"
  by (auto simp: all_values_def)

text \<open>What is required at a path: below or at a sensitive name only the replacement; no
  string that must not appear.\<close>

definition scrubbed ::
    "string set \<Rightarrow> string set \<Rightarrow> string \<Rightarrow> (string list \<Rightarrow> string \<Rightarrow> string list) \<Rightarrow> string list \<Rightarrow> string list \<Rightarrow> pyval \<Rightarrow> bool" where
  "scrubbed names secrets repl step path q x \<longleftrightarrow>
     (q \<noteq> [] \<and> sensitive names (last q) (foldl step path q) \<longrightarrow> x = VStr repl)
     \<and> (\<forall>s. x = VStr s \<longrightarrow> s \<notin> secrets \<or> s = repl)"

lemma scrubbed_Cons:
  "q \<noteq> [] \<Longrightarrow> scrubbed names secrets repl step path (k # q) x = scrubbed names secrets repl step (step path k) q x"
  by (simp add: scrubbed_def)

lemma scrubbed_entry:
  assumes "all_values (scrubbed names secrets repl step (step path k)) w"
  shows "all_values (\<lambda>q. scrubbed names secrets repl step path (k # q))
    (if sensitive names k (step path k) then VStr repl else w)"
proof (cases "sensitive names k (step path k)")
  case True
  then show ?thesis by (simp add: all_values_str scrubbed_def)
next
  case False
  have "scrubbed names secrets repl step path (k # q) x" if "x \<in> set (values_at w q)" for q x
    using assms that False by (cases "q = []") (auto simp: all_values_def scrubbed_def)
  with False show ?thesis by (simp add: all_values_def)
qed

lemma all_values_list: "list_all (all_values P) xs \<Longrightarrow> all_values P (VTuple xs)"
  by (induction xs) (auto simp: all_values_def)

lemma scrubbed_leaf [simp]: "scrubbed names secrets repl step path [] x \<longleftrightarrow> (\<forall>s. x = VStr s \<longrightarrow> s \<notin> secrets \<or> s = repl)"
  by (simp add: scrubbed_def)

abbreviation redact_ok :: "redaction_policy \<Rightarrow> string list \<Rightarrow> string list \<Rightarrow> pyval \<Rightarrow> bool" where
  "redact_ok p \<equiv> scrubbed (rd_sensitive_fields p) (rd_sensitive_values p) (rd_representation p) redact_path"

abbreviation mask_ok :: "security_policy \<Rightarrow> string list \<Rightarrow> string list \<Rightarrow> pyval \<Rightarrow> bool" where
  "mask_ok p \<equiv> scrubbed (sp_sensitive_fields p) {} (sp_masking p) (\<lambda>path k. path @ [k])"

lemma redact_scrubs:
  shows "all_values (redact_ok p path) (redact sh p path v)"
    and "list_all (all_values (redact_ok p path)) (redact_list sh p path vs)"
    and "all_entries (redact_ok p path) acc \<Longrightarrow> all_entries (redact_ok p path) (redact_entries sh p path kvs acc)"
    and "all_entries (redact_ok p path) acc \<Longrightarrow> all_entries (redact_ok p path) (redact_frozen sh p path m acc)"
proof (induction sh p path v and sh p path vs and sh p path kvs acc and sh p path m acc
    rule: redact_redact_list_redact_entries_redact_frozen.induct)
  case (18 sh p path k v kvs acc)
  have "all_values (\<lambda>q. redact_ok p path (py_str sh k # q))
      (if sensitive (rd_sensitive_fields p) (py_str sh k) (redact_path path (py_str sh k))
       then VStr (rd_representation p) else redact sh p (redact_path path (py_str sh k)) v)"
    by (cases "sensitive (rd_sensitive_fields p) (py_str sh k) (redact_path path (py_str sh k))")
      (use scrubbed_entry [OF 18(1)] in \<open>simp_all add: all_values_str scrubbed_def\<close>)
  from 18(2) [OF all_entries_dset [OF 18(3) this]] show ?case by simp
next
  case (20 sh p path k v m acc)
  have "all_values (\<lambda>q. redact_ok p path (k # q))
      (if sensitive (rd_sensitive_fields p) k (redact_path path k)
       then VStr (rd_representation p) else redact sh p (redact_path path k) v)"
    by (cases "sensitive (rd_sensitive_fields p) k (redact_path path k)")
      (use scrubbed_entry [OF 20(1)] in \<open>simp_all add: all_values_str scrubbed_def\<close>)
  from 20(2) [OF all_entries_dset [OF 20(3) this]] show ?case by simp
qed (simp_all add: all_values_dict all_values_list, (simp_all add: all_values_def)?)

lemma mask_scrubs:
  shows "all_values (mask_ok p path) (mask sh p path v)"
    and "list_all (all_values (mask_ok p path)) (mask_list sh p path vs)"
    and "all_entries (mask_ok p path) acc \<Longrightarrow> all_entries (mask_ok p path) (mask_entries sh p path kvs acc)"
    and "all_entries (mask_ok p path) acc \<Longrightarrow> all_entries (mask_ok p path) (mask_frozen sh p path m acc)"
proof (induction sh p path v and sh p path vs and sh p path kvs acc and sh p path m acc
    rule: mask_mask_list_mask_entries_mask_frozen.induct)
  case (18 sh p path k v kvs acc)
  have "all_values (\<lambda>q. mask_ok p path (py_str sh k # q))
      (if sensitive (sp_sensitive_fields p) (py_str sh k) (path @ [py_str sh k])
       then VStr (sp_masking p) else mask sh p (path @ [py_str sh k]) v)"
    by (cases "sensitive (sp_sensitive_fields p) (py_str sh k) (path @ [py_str sh k])")
      (use scrubbed_entry [OF 18(1)] in \<open>simp_all add: all_values_str scrubbed_def\<close>)
  from 18(2) [OF all_entries_dset [OF 18(3) this]] show ?case by simp
next
  case (20 sh p path k v m acc)
  have "all_values (\<lambda>q. mask_ok p path (k # q))
      (if sensitive (sp_sensitive_fields p) k (path @ [k])
       then VStr (sp_masking p) else mask sh p (path @ [k]) v)"
    by (cases "sensitive (sp_sensitive_fields p) k (path @ [k])")
      (use scrubbed_entry [OF 20(1)] in \<open>simp_all add: all_values_str scrubbed_def\<close>)
  from 20(2) [OF all_entries_dset [OF 20(3) this]] show ?case by simp
qed (simp_all add: all_values_dict all_values_list, (simp_all add: all_values_def)?)

lemma set_items_at: "x \<in> set (items_at m k q) \<longleftrightarrow> (\<exists>v. (k, v) \<in> set m \<and> x \<in> set (values_at v q))"
  by (induction m) auto

lemma items_at_sort: "set (items_at (sort_key f m) k q) = set (items_at m k q)"
  by (rule set_eqI) (simp add: set_items_at)

lemma is_str_str_of: "is_str k \<Longrightarrow> k = VStr (str_of k)"
  by (cases k) auto

text \<open>A property by path that survives freezing of the value holds after freezing.\<close>

definition thaw :: "(string list \<Rightarrow> pyval \<Rightarrow> bool) \<Rightarrow> bool" where
  "thaw P \<longleftrightarrow> (\<forall>q x y. P q x \<longrightarrow> freeze x = Inr y \<longrightarrow> P q y)"

lemma freeze_values:
  shows "freeze v = Inr w \<Longrightarrow> thaw P \<Longrightarrow> all_values P v \<Longrightarrow> all_values P w"
    and "freeze_list vs = Inr ws \<Longrightarrow> thaw P \<Longrightarrow> \<forall>q. \<forall>x \<in> set (list_at vs q). P q x \<Longrightarrow> \<forall>q. \<forall>x \<in> set (list_at ws q). P q x"
    and "freeze_items kvs = Inr items \<Longrightarrow> list_all (\<lambda>p. is_str (fst p)) kvs \<Longrightarrow> \<forall>k. thaw (P' k) \<Longrightarrow>
      \<forall>k q. \<forall>x \<in> set (entries_at kvs k q). P' k q x \<Longrightarrow> \<forall>k q. \<forall>x \<in> set (items_at items k q). P' k q x"
proof (induction v and vs and kvs arbitrary: w P and ws P and items P' rule: freeze_freeze_list_freeze_items.induct)
  case (2 kvs)
  then obtain items where items: "list_all (\<lambda>p. is_str (fst p)) kvs" "freeze_items kvs = Inr items"
    "w = VFrozen (sort_key fst items)" by (auto simp: bindR_Inr split: if_splits)
  have "VDict kvs \<in> set (values_at (VDict kvs) [])" by simp
  then have "P [] (VDict kvs)" using 2(4) unfolding all_values_def by blast
  then have "P [] w" using 2(2,3) unfolding thaw_def by blast
  moreover have "\<forall>k q. \<forall>x \<in> set (items_at items k q). P (k # q) x"
    by (rule 2(1) [OF _ items(2,1)]) (use 2(3,4) items in \<open>auto simp: thaw_def all_values_def split: list.splits\<close>)
  ultimately show ?case by (auto simp: items(3) all_values_def items_at_sort split: list.splits)
next
  case (3 xs)
  then obtain ys where ys: "freeze_list xs = Inr ys" "w = VTuple ys" by (auto simp: bindR_Inr)
  have "\<forall>q. \<forall>x \<in> set (list_at ys q). P q x"
    by (rule 3(1) [OF ys(1) 3(3)]) (use 3(4) in \<open>simp add: all_values_def\<close>)
  then show ?case by (simp add: ys(2) all_values_def)
next
  case (4 xs)
  then obtain ys where ys: "freeze_list xs = Inr ys" "w = VTuple ys" by (auto simp: bindR_Inr)
  have "\<forall>q. \<forall>x \<in> set (list_at ys q). P q x"
    by (rule 4(1) [OF ys(1) 4(3)]) (use 4(4) in \<open>simp add: all_values_def\<close>)
  then show ?case by (simp add: ys(2) all_values_def)
next
  case (16 x xs)
  then obtain y ys where ys: "freeze x = Inr y" "freeze_list xs = Inr ys" "ws = y # ys" by (auto simp: bindR_Inr)
  have "all_values P y" by (rule 16(1) [OF ys(1) 16(4)]) (use 16(5) in \<open>auto simp: all_values_def\<close>)
  moreover have "\<forall>q. \<forall>x \<in> set (list_at ys q). P q x"
    by (rule 16(2) [OF ys(2) 16(4)]) (use 16(5) in auto)
  ultimately show ?case by (auto simp: ys(3) all_values_def)
next
  case (18 k v kvs)
  then obtain w ws where ws: "freeze v = Inr w" "freeze_items kvs = Inr ws" "items = (str_of k, w) # ws" by (auto simp: bindR_Inr)
  have k: "k = VStr (str_of k)" using 18(4) by (simp add: is_str_str_of)
  have "all_values (P' (str_of k)) w"
    by (rule 18(1) [OF ws(1)]) (use 18(5,6) k in \<open>auto simp: all_values_def\<close>)
  moreover have "\<forall>k q. \<forall>x \<in> set (items_at ws k q). P' k q x"
    by (rule 18(2) [OF ws(2)]) (use 18(4,5,6) in auto)
  ultimately show ?case by (auto simp: ws(3) all_values_def)
qed (auto simp: bindR_Inr all_values_def thaw_def split: if_splits)

lemma thaw_scrubbed: "thaw (scrubbed names secrets repl step path)"
proof -
  have "y = VStr t \<Longrightarrow> freeze x = Inr y \<Longrightarrow> x = VStr t" for x y t
    by (cases x) (auto simp: bindR_Inr split: if_splits)
  then show ?thesis unfolding thaw_def scrubbed_def by (metis Inr_inject freeze.simps(8))
qed

lemma frozen_of_scrubbed:
  assumes "frozen_of v = Inr m" and "all_values (scrubbed names secrets repl step path) v"
  shows "all_values (scrubbed names secrets repl step path) (VFrozen m)"
proof -
  from assms(1) obtain f where f: "freeze v = Inr f" "(case f of VFrozen m \<Rightarrow> Inr m | _ \<Rightarrow> Inl (AssertionError [])) = Inr m"
    by (auto simp: frozen_of_def bindR_Inr)
  from f(2) have "f = VFrozen m" by (cases f) auto
  with f(1) have "freeze v = Inr (VFrozen m)" by simp
  from freeze_values(1) [OF this thaw_scrubbed assms(2)] show ?thesis .
qed

text \<open>C29. Redacted telemetry discloses nothing sensitive: in a serialised event, at any depth,
  the value at a key that is a sensitive field, or whose dotted path (below details, relative
  to it) is one, is the replacement, and no string among the sensitive values occurs, other
  than the replacement itself.\<close>

theorem telemetry_redacted:
  assumes "serialize_redacted shw isoformat e p = Inr out" and "x \<in> set (values_at (VFrozen out) q)"
  shows "(q \<noteq> [] \<and> (last q \<in> rd_sensitive_fields p \<or> join ''.'' (foldl redact_path [] q) \<in> rd_sensitive_fields p) \<longrightarrow>
      x = VStr (rd_representation p))
    \<and> (\<forall>s \<in> rd_sensitive_values p. x = VStr s \<longrightarrow> s = rd_representation p)"
proof -
  have "all_values (redact_ok p []) (VFrozen out)"
    by (rule frozen_of_scrubbed [OF assms(1) [unfolded serialize_redacted_def] redact_scrubs(1)])
  with assms(2) show ?thesis by (auto simp: all_values_def scrubbed_def sensitive_def)
qed

definition sample_event :: telemetry_event where
  "sample_event = \<lparr>te_correlation_id = ''c1'', te_timestamp = Aware 0, te_event_type = ''x'', te_component = ''security'',
     te_outcome = ''ok'', te_configuration_version = ''1'',
     te_details = [(''user'', VFrozen [(''ssn'', VStr ''123'')]), (''note'', VStr ''hunter2'')]\<rparr>"

definition sample_redaction :: redaction_policy where
  "sample_redaction = \<lparr>rd_sensitive_fields = {''user.ssn''}, rd_sensitive_values = {''hunter2''}, rd_representation = ''#''\<rparr>"

lemma sample_redacted:
  "serialize_redacted class_name (\<lambda>_. ''t'') sample_event sample_redaction =
     Inr [(''component'', VStr ''security''), (''configuration_version'', VStr ''1''), (''correlation_id'', VStr ''c1''),
       (''details'', VFrozen [(''note'', VStr ''#''), (''user'', VFrozen [(''ssn'', VStr ''#'')])]),
       (''event_type'', VStr ''x''), (''outcome'', VStr ''ok''), (''timestamp'', VStr ''t'')]"
  by code_simp

lemma telemetry_redacted_witness:
  "\<exists>out. serialize_redacted class_name (\<lambda>_. ''t'') sample_event sample_redaction = Inr out
     \<and> set (values_at (VFrozen out) [''details'', ''user'', ''ssn'']) = {VStr ''#''}"
proof -
  let ?out = "[(''component'', VStr ''security''), (''configuration_version'', VStr ''1''), (''correlation_id'', VStr ''c1''),
       (''details'', VFrozen [(''note'', VStr ''#''), (''user'', VFrozen [(''ssn'', VStr ''#'')])]),
       (''event_type'', VStr ''x''), (''outcome'', VStr ''ok''), (''timestamp'', VStr ''t'')]"
  have "x = VStr ''#''" if "x \<in> set (values_at (VFrozen ?out) [''details'', ''user'', ''ssn''])" for x
    using telemetry_redacted [OF sample_redacted that] by (simp add: sample_redaction_def redact_path_def)
  moreover have "VStr ''#'' \<in> set (values_at (VFrozen ?out) [''details'', ''user'', ''ssn''])" by simp
  ultimately show ?thesis using sample_redacted by blast
qed

section \<open>Disclosure\<close>

definition may_disclose :: "security_policy \<Rightarrow> model_operation \<Rightarrow> model_candidate \<Rightarrow> bool" where
  "may_disclose p op c \<longleftrightarrow> permits_disclosure p \<and> mc_provider_id c \<in> sp_allowed_provider_ids p
     \<and> mo_data_classes op \<subseteq> sp_allowed_data_classes p
     \<and> \<not> empty_text (sp_transport_encryption p) \<and> \<not> empty_text (sp_persistence_encryption p)"

lemma policy_rejection_None: "policy_rejection p op c = None \<longleftrightarrow> may_disclose p op c"
  by (auto simp: policy_rejection_def may_disclose_def permits_disclosure_def)

lemma reject_raises: "reject_disclosure env ctx policy ident reason code s = (r, s') \<Longrightarrow> \<exists>e. r = Inl e"
  by (auto simp: reject_disclosure_def bindM_def split: sum.splits prod.splits)

lemma reject_gateway: "reject_disclosure (env\<lparr>iv_gateway := g\<rparr>) ctx policy ident reason code = reject_disclosure env ctx policy ident reason code"
  by (simp add: reject_disclosure_def telemetry_emit_def)

text \<open>C7. The provider sees a request only behind every check, and never a sensitive field:
  either the gateway is called once, under a policy of the bound version that is available,
  valid and allows, for an allowed provider and allowed data classes, with encryption
  metadata and an authenticated service identity, with a payload whose values at every
  sensitive field name or dotted path, at any depth of mappings and sequences, are the
  masking text; or the invocation raises, with an outcome that no gateway can change.\<close>

theorem disclosure_guarded:
  assumes "protected_invoke env op c payload ident ctx s = (r, s')"
  shows "(\<exists>p au s1 req. policies_resolve (security_policy_version (ctx_configuration ctx)) (iv_policies env) = Some p
        \<and> may_disclose p op c \<and> iv_authenticate env ident (mc_provider_id c) ctx s = (Inr au, s1)
        \<and> au_authenticated au \<and> au_service_identity au = ident \<and> iv_gateway env req ctx s1 = (r, s')
        \<and> sr_operation req = op \<and> sr_candidate req = c \<and> sr_policy_version req = sp_version p
        \<and> (\<forall>q. q \<noteq> [] \<longrightarrow> last q \<in> sp_sensitive_fields p \<or> join ''.'' q \<in> sp_sensitive_fields p \<longrightarrow>
             set (values_at (VFrozen (sr_payload req)) q) \<subseteq> {VStr (sp_masking p)}))
    \<or> (\<exists>e. r = Inl e \<and> (\<forall>g. protected_invoke (env\<lparr>iv_gateway := g\<rparr>) op c payload ident ctx s = (r, s')))"
  (is "?sent \<or> ?raised")
proof (cases "policies_resolve (security_policy_version (ctx_configuration ctx)) (iv_policies env)")
  case None
  with assms have "reject_disclosure env ctx None ident ''policy_unavailable'' SECURITY_POLICY_UNAVAILABLE s = (r, s')"
    by (simp add: protected_invoke_def)
  with None reject_raises [OF this] have ?raised by (simp add: protected_invoke_def reject_gateway)
  then show ?thesis ..
next
  case policy: (Some p)
  show ?thesis
  proof (cases "policy_rejection p op c")
    case (Some rc)
    then have "reject_disclosure env ctx (Some p) ident (fst rc) (snd rc) s = (r, s')"
      using assms policy by (simp add: protected_invoke_def case_prod_beta)
    with policy Some reject_raises [OF this] have ?raised by (simp add: protected_invoke_def reject_gateway case_prod_beta)
    then show ?thesis ..
  next
    case permitted: None
    obtain x s1 where auth: "iv_authenticate env ident (mc_provider_id c) ctx s = (x, s1)" by force
    show ?thesis
    proof (cases x)
      case (Inl e)
      with assms policy permitted auth have ?raised by (auto simp: protected_invoke_def bindM_def)
      then show ?thesis ..
    next
      case (Inr au)
      show ?thesis
      proof (cases "au_authenticated au \<and> au_service_identity au = ident")
        case False
        then have "reject_disclosure env ctx (Some p) ident (if au_reason_code au = [] then ''authentication_failed''
            else au_reason_code au) MODEL_AUTHENTICATION_FAILED s1 = (r, s')"
          using assms policy permitted auth Inr by (auto simp: protected_invoke_def bindM_def)
        with policy permitted auth Inr False reject_raises [OF this] have ?raised
          by (auto simp: protected_invoke_def bindM_def reject_gateway)
        then show ?thesis ..
      next
        case True
        show ?thesis
        proof (cases "secured_request (iv_show env) p op c payload ident")
          case failed: (Inl e)
          with assms policy permitted auth Inr True have ?raised by (auto simp: protected_invoke_def bindM_def)
          then show ?thesis ..
        next
          case ok: (Inr req)
          then obtain m em where m: "frozen_of (mask (iv_show env) p [] payload) = Inr m"
            and req: "req = \<lparr>sr_operation = op, sr_candidate = c, sr_payload = m, sr_service_identity = ident,
              sr_policy_version = sp_version p, sr_data_classes = mo_data_classes op, sr_encryption = em\<rparr>"
            by (auto simp: secured_request_def bindR_Inr SecuredModelRequest_post_def split: if_splits)
          have path: "foldl (\<lambda>path k. path @ [k]) [] q = q" for q :: "string list"
            by (induction q rule: rev_induct) simp_all
          have "all_values (mask_ok p []) (VFrozen m)" by (rule frozen_of_scrubbed [OF m mask_scrubs(1)])
          then have masked: "\<forall>q. q \<noteq> [] \<longrightarrow> last q \<in> sp_sensitive_fields p \<or> join ''.'' q \<in> sp_sensitive_fields p \<longrightarrow>
              set (values_at (VFrozen m) q) \<subseteq> {VStr (sp_masking p)}"
            by (auto simp: all_values_def scrubbed_def sensitive_def path)
          have gateway: "iv_gateway env req ctx s1 = (r, s')"
            using assms policy permitted auth Inr True ok by (simp add: protected_invoke_def bindM_def)
          have ?sent
            by (intro exI [of _ p] exI [of _ au] exI [of _ s1] exI [of _ req] conjI policy auth [unfolded Inr] gateway)
              (use True permitted masked in \<open>simp_all add: req policy_rejection_None\<close>)
          then show ?thesis ..
        qed
      qed
    qed
  qed
qed

text \<open>Disclosure fails closed with the right code: when the bound policy is missing or does
  not permit the operation, the invocation raises SecurityRejection with the code of the
  first failed check, even when the telemetry sink fails, provided the clock answers.\<close>

theorem rejection_fails_closed:
  fixes env :: "('s, 'o) invoker_env"
  assumes "policies_resolve (security_policy_version (ctx_configuration ctx)) (iv_policies env) = pol"
    and "\<And>p. pol = Some p \<Longrightarrow> \<not> may_disclose p op c \<and> sp_redaction p \<noteq> []"
    and "iv_clock env s = (Inr now, s1)" and "\<not> blank (correlation_id ctx)"
    and "\<not> blank (version (reference (ctx_configuration ctx)))"
  shows "\<exists>s' code reason. protected_invoke env op c payload ident ctx s = (Inl (SecurityRejection (TypedFailure code reason)), s')
    \<and> (case pol of None \<Rightarrow> code = SECURITY_POLICY_UNAVAILABLE | Some p \<Rightarrow> policy_rejection p op c = Some (reason, code))"
proof -
  have reject: "\<exists>s'. (reject_disclosure env ctx policy ident reason code :: ('s, 'o) meth) s = (Inl (SecurityRejection (TypedFailure code reason)), s')"
    if "\<And>p. policy = Some p \<Longrightarrow> sp_redaction p \<noteq> []" for policy reason code
    using that assms(3-5)
    by (cases policy) (auto simp: reject_disclosure_def bindM_def redaction_of_def RedactionPolicy_post_def unavailable_policy_def
        frozen_of_def TelemetryEvent_post_def)
  show ?thesis
  proof (cases pol)
    case None
    obtain s' where "(reject_disclosure env ctx None ident ''policy_unavailable'' SECURITY_POLICY_UNAVAILABLE :: ('s, 'o) meth) s
        = (Inl (SecurityRejection (TypedFailure SECURITY_POLICY_UNAVAILABLE ''policy_unavailable'')), s')"
      using reject [of None "''policy_unavailable''" SECURITY_POLICY_UNAVAILABLE] by auto
    with None assms(1) show ?thesis by (auto simp: protected_invoke_def)
  next
    case (Some p)
    with assms(2) policy_rejection_None [of p op c] obtain reason code where "policy_rejection p op c = Some (reason, code)"
      by (cases "policy_rejection p op c") auto
    with Some assms(1,2) reject [of "Some p" reason code] show ?thesis by (auto simp: protected_invoke_def)
  qed
qed

text \<open>Masking does not look inside sets: a mapping in a frozen set reaches the provider with its
  sensitive fields in the clear.\<close>

lemma masking_skips_sets:
  assumes "''ssn'' \<in> sp_sensitive_fields p"
    and "''rows'' \<notin> sp_sensitive_fields p"
  shows "mask shw p [] (VDict [(VStr ''rows'', VFrozenset [VFrozen [(''ssn'', VStr ''123'')]])])
    = VDict [(VStr ''rows'', VFrozenset [VFrozen [(''ssn'', VStr ''123'')]])]"
  using assms by (simp add: sensitive_def)

definition sample_security_policy :: security_policy where
  "sample_security_policy = \<lparr>sp_version = ''s1'', sp_available = True, sp_valid = True, sp_decision = SD_ALLOW,
     sp_allowed_provider_ids = {''p1''}, sp_allowed_data_classes = {''public''}, sp_sensitive_fields = {''ssn''},
     sp_redaction = ''[REDACTED]'', sp_masking = ''[MASKED]'', sp_transport_encryption = Some ''tls'',
     sp_persistence_encryption = Some ''aes''\<rparr>"

definition sample_invoker :: "(nat, frozen_mapping) invoker_env" where
  "sample_invoker = \<lparr>iv_policies = [(''s1'', sample_security_policy)],
     iv_authenticate = (\<lambda>i _ _ s. (Inr \<lparr>au_authenticated = True, au_service_identity = i, au_reason_code = []\<rparr>, s)),
     iv_gateway = (\<lambda>r _ s. (Inr (sr_payload r), s + 1)), iv_sink = (\<lambda>_ s. (Inl (RuntimeError ''sink down''), s)),
     iv_clock = (\<lambda>s. (Inr (Aware 0), s)), iv_show = class_name, iv_iso = (\<lambda>_. ''t'')\<rparr>"

definition sample_secured_context :: "string option \<Rightarrow> execution_context" where
  "sample_secured_context v = sample_context\<lparr>ctx_configuration := (ctx_configuration sample_context)\<lparr>security_policy_version := v\<rparr>\<rparr>"

lemma sample_invoke:
  "protected_invoke sample_invoker sample_model_operation sample_candidate
      (VDict [(VStr ''ssn'', VStr ''123''), (VStr ''text'', VStr ''hello'')]) ''svc'' (sample_secured_context (Some ''s1'')) 0
   = (Inr [(''ssn'', VStr ''[MASKED]''), (''text'', VStr ''hello'')], 1)"
  by (simp add: protected_invoke_def sample_invoker_def sample_secured_context_def sample_context_def policies_resolve_def
      policy_rejection_def sample_security_policy_def sample_model_operation_def sample_candidate_def empty_text_def
      bindM_def secured_request_def EncryptionMetadata_def SecuredModelRequest_post_def frozen_of_def sensitive_def)

lemma disclosure_guarded_witness:
  "\<exists>p. policies_resolve (Some ''s1'') (iv_policies sample_invoker) = Some p
     \<and> may_disclose p sample_model_operation sample_candidate"
  using disclosure_guarded [OF sample_invoke] by (auto simp: sample_secured_context_def)

lemma rejection_fails_closed_witness:
  "\<exists>s' code reason. protected_invoke sample_invoker sample_model_operation sample_candidate VNone ''svc'' (sample_secured_context None) 0
     = (Inl (SecurityRejection (TypedFailure code reason)), s') \<and> code = SECURITY_POLICY_UNAVAILABLE"
proof -
  have pol: "policies_resolve (security_policy_version (ctx_configuration (sample_secured_context None))) (iv_policies sample_invoker) = None"
    by (simp add: sample_secured_context_def policies_resolve_def)
  have clock: "iv_clock sample_invoker 0 = (Inr (Aware 0), 0)" by (simp add: sample_invoker_def)
  from rejection_fails_closed [OF pol _ clock, of sample_model_operation sample_candidate VNone "''svc''"]
  show ?thesis by (simp add: sample_secured_context_def sample_context_def)
qed

end
