(* ===== verification/Configuration.thy ===== *)
theory Configuration
  imports Json Domain "HOL-Library.Multiset"
begin

text \<open>
  \<open>domain/configuration.py\<close>, \<open>control_plane/configuration.py\<close> and
  \<open>control_plane/context.py\<close>: activation registries, the validator of profiles, canonical
  content and its digest, the content-addressed registry of versions, the static binder,
  generated artifacts, and the creation of execution contexts. \<open>sha\<close> is
  \<open>sha256(...).hexdigest()\<close> and \<open>frepr\<close> the text of a finite float.
\<close>

declare map_of_eq_Some_iff [simp del]

section \<open>Registries\<close>

text \<open>\<open>VersionRegistry\<close> is the set of its versions.\<close>

definition version_register :: "string \<Rightarrow> (string set, unit) meth" where
  "version_register v s = (if blank v then (Inl (ValueError ''version must not be blank''), s) else (Inr (), insert v s))"

fun version_contains :: "string set \<Rightarrow> pyval \<Rightarrow> bool" where
  "version_contains s (VStr v) = (v \<in> s)"
| "version_contains s _ = False"

record credential_evidence =
  credential_id :: string
  effective_operations :: "string set"

definition CredentialEvidence_post :: "credential_evidence \<Rightarrow> credential_evidence res" where
  "CredentialEvidence_post e = (if blank (credential_id e) then Inl (ValueError ''credential_id must not be blank'') else Inr e)"

type_synonym credential_registry = "(string, credential_evidence) dict"

definition credential_register :: "credential_evidence \<Rightarrow> credential_registry \<Rightarrow> credential_registry" where
  "credential_register e reg = dset (credential_id e) e reg"

fun credential_get :: "credential_registry \<Rightarrow> pyval \<Rightarrow> credential_evidence option" where
  "credential_get reg (VStr i) = dget reg i"
| "credential_get reg _ = None"

record adapter_evidence =
  adapter_id :: string
  adapter_version :: string
  contract_suite_version :: string
  tested_operations :: "string list"
  normalized_type_cases :: "string list"
  null_cases :: "string list"
  ordering_cases :: "string list"
  failure_cases :: "string list"
  commit_cases :: "string list"
  rollback_cases :: "string list"
  test_outcomes :: "(string \<times> bool) list"
  evidence_timestamp :: datetime

definition AdapterEvidence_post :: "adapter_evidence \<Rightarrow> adapter_evidence res" where
  "AdapterEvidence_post e = (if blank (adapter_id e) \<or> blank (adapter_version e)
     then Inl (ValueError ''adapter identifier and version must not be blank'') else Inr e)"

section \<open>Reports\<close>

fun failure_kind_value :: "validation_failure_kind \<Rightarrow> string" where
  "failure_kind_value VF_MISSING = ''missing''"
| "failure_kind_value VF_INVALID = ''invalid''"
| "failure_kind_value VF_INCOMPATIBLE = ''incompatible''"
| "failure_kind_value VF_UNAUTHORIZED = ''unauthorized''"
| "failure_kind_value VF_UNAVAILABLE = ''unavailable''"

definition failure :: "string \<Rightarrow> string \<Rightarrow> validation_failure_kind \<Rightarrow> string \<Rightarrow> configuration_failure" where
  "failure rule path kind message = \<lparr>cf_rule_id = rule, cf_path = path, cf_kind = kind, cf_message = message\<rparr>"

text \<open>\<open>tuple(sorted(set(failures)))\<close>, by the order of the dataclass.\<close>

definition failure_key :: "configuration_failure \<Rightarrow> string \<times> string \<times> string \<times> string" where
  "failure_key f = (cf_rule_id f, cf_path f, failure_kind_value (cf_kind f), cf_message f)"

definition report :: "configuration_failure list \<Rightarrow> configuration_failure list" where
  "report fs = sort_key failure_key (fromkeys fs)"

definition valid_report :: "configuration_failure list \<Rightarrow> bool" where
  "valid_report fs \<longleftrightarrow> fs = []"

text \<open>A rule that reports when its test fails.\<close>

definition unless :: "bool \<Rightarrow> configuration_failure \<Rightarrow> configuration_failure list" where
  "unless b f = (if b then [] else [f])"

section \<open>Adapter evidence\<close>

definition case_fields :: "adapter_evidence \<Rightarrow> (string \<times> string list) list" where
  "case_fields e = [
     (''tested_operations'', tested_operations e), (''normalized_type_cases'', normalized_type_cases e),
     (''null_cases'', null_cases e), (''ordering_cases'', ordering_cases e), (''failure_cases'', failure_cases e),
     (''commit_cases'', commit_cases e), (''rollback_cases'', rollback_cases e)]"

definition evidence_failures :: "adapter_evidence \<Rightarrow> configuration_failure list" where
  "evidence_failures e =
     unless (\<not> blank (contract_suite_version e))
       (failure ''adapter_evidence.contract_suite_version.required'' ''contract_suite_version'' VF_MISSING
          ''contract_suite_version is required'')
     @ unless (tz_aware (evidence_timestamp e))
       (failure ''adapter_evidence.timestamp.aware'' ''evidence_timestamp'' VF_INVALID
          ''evidence_timestamp must include a timezone'')
     @ concat (map (\<lambda>(field, present). unless present
         (failure (''adapter_evidence.'' @ field @ ''.required'') field VF_MISSING (field @ '' is required'')))
         (map (\<lambda>(field, cases). (field, cases \<noteq> [])) (case_fields e) @ [(''test_outcomes'', test_outcomes e \<noteq> [])]))
     @ concat (map (\<lambda>(field, cases). unless (\<not> list_ex blank cases)
         (failure (''adapter_evidence.'' @ field @ ''.valid'') field VF_INVALID
            (field @ '' must contain only nonblank case identifiers''))) (case_fields e))
     @ unless (\<not> list_ex blank (map fst (test_outcomes e)) \<and> distinct (map fst (test_outcomes e)))
       (failure ''adapter_evidence.test_outcomes.valid'' ''test_outcomes'' VF_INVALID
          ''test outcomes require unique nonblank case identifiers'')
     @ (let failed = map fst (filter (\<lambda>p. \<not> snd p) (test_outcomes e)) in
        unless (failed = []) (failure ''adapter_evidence.tests.passed'' ''test_outcomes'' VF_INVALID
          (''failed contract tests: '' @ join '', '' (sort failed))))"

type_synonym adapter_registry = "((string \<times> string), adapter_evidence) dict"

definition adapter_activate :: "adapter_evidence \<Rightarrow> (adapter_registry, unit) meth" where
  "adapter_activate e reg =
     (if evidence_failures e \<noteq> [] then (Inl (EvidenceActivationError (report (evidence_failures e))), reg)
      else (Inr (), dset (adapter_id e, adapter_version e) e reg))"

fun evidence_for :: "adapter_registry \<Rightarrow> pyval \<Rightarrow> pyval \<Rightarrow> adapter_evidence option" where
  "evidence_for reg (VStr i) (VStr v) = dget reg (i, v)"
| "evidence_for reg _ _ = None"

section \<open>Canonical profiles\<close>

text \<open>The key a frozen set is sorted by; its members are canonical, so \<open>dumps\<close> returns.\<close>

definition canonical_key :: "(rat \<Rightarrow> string) \<Rightarrow> pyval \<Rightarrow> string" where
  "canonical_key frepr v = (case dumps (compact True True frepr) v of Inr t \<Rightarrow> t | Inl _ \<Rightarrow> [])"

fun canonical_value :: "(rat \<Rightarrow> string) \<Rightarrow> pyval \<Rightarrow> pyval res"
and canonical_list :: "(rat \<Rightarrow> string) \<Rightarrow> pyval list \<Rightarrow> pyval list res"
and canonical_items :: "(rat \<Rightarrow> string) \<Rightarrow> (string \<times> pyval) list \<Rightarrow> (pyval \<times> pyval) list res" where
  "canonical_value frepr (VFrozen m) = bindR (canonical_items frepr m) (\<lambda>kvs. Inr (VDict kvs))"
| "canonical_value frepr (VTuple xs) = bindR (canonical_list frepr xs) (\<lambda>ys. Inr (VList ys))"
| "canonical_value frepr (VFrozenset xs) =
     bindR (canonical_list frepr xs) (\<lambda>ys. Inr (VList (sort_key (canonical_key frepr) ys)))"
| "canonical_value frepr (VFloat x) =
     (case x of Finite q \<Rightarrow> Inr (VFloat x) | _ \<Rightarrow> Inl (ValueError ''configuration numbers must be finite''))"
| "canonical_value frepr VNone = Inr VNone"
| "canonical_value frepr (VBool b) = Inr (VBool b)"
| "canonical_value frepr (VInt i) = Inr (VInt i)"
| "canonical_value frepr (VStr s) = Inr (VStr s)"
| "canonical_value frepr (VBytes s) = Inr (VBytes s)"
| "canonical_value frepr (VByteArray s) = Inr (VByteArray s)"
| "canonical_value frepr (VList xs) = Inr (VList xs)"
| "canonical_value frepr (VSet xs) = Inr (VSet xs)"
| "canonical_value frepr (VDict d) = Inr (VDict d)"
| "canonical_value frepr (VObject n) = Inr (VObject n)"
| "canonical_list frepr [] = Inr []"
| "canonical_list frepr (x # xs) = bindR (canonical_value frepr x) (\<lambda>y. bindR (canonical_list frepr xs) (\<lambda>ys. Inr (y # ys)))"
| "canonical_items frepr [] = Inr []"
| "canonical_items frepr ((k, v) # m) =
     bindR (canonical_value frepr v) (\<lambda>w. bindR (canonical_items frepr m) (\<lambda>ws. Inr ((VStr k, w) # ws)))"

definition canonical_json :: "(rat \<Rightarrow> string) \<Rightarrow> frozen_mapping \<Rightarrow> string res" where
  "canonical_json frepr m = bindR (canonical_value frepr (VFrozen m)) (dumps (compact False False frepr))"

definition canonicalize_profile :: "(string \<Rightarrow> string) \<Rightarrow> (rat \<Rightarrow> string) \<Rightarrow> pyval \<Rightarrow> (frozen_mapping \<times> string) res" where
  "canonicalize_profile sha frepr profile =
     bindR (freeze profile) (\<lambda>f. case f of
        VFrozen m \<Rightarrow> bindR (canonical_json frepr m) (\<lambda>t. Inr (m, sha (utf8 t)))
      | _ \<Rightarrow> Inl (TypeError ''configuration profile must be a mapping''))"

section \<open>The validator\<close>

record profile_validator =
  pv_security_policies :: "string set"
  pv_validation_rules :: "string set"
  pv_models :: "string set"
  pv_adapters :: adapter_registry
  pv_credentials :: credential_registry

text \<open>\<open>mapping.get(key)\<close>; another value has no entries.\<close>

fun mget :: "pyval \<Rightarrow> string \<Rightarrow> pyval" where
  "mget (VDict kvs) k = (case map_of kvs (VStr k) of None \<Rightarrow> VNone | Some v \<Rightarrow> v)"
| "mget (VFrozen m) k = (case map_of m k of None \<Rightarrow> VNone | Some v \<Rightarrow> v)"
| "mget _ k = VNone"

fun is_mapping :: "pyval \<Rightarrow> bool" where
  "is_mapping (VDict _) = True"
| "is_mapping (VFrozen _) = True"
| "is_mapping _ = False"

definition required_sections :: "string list" where
  "required_sections = [''routing'', ''database'', ''model'', ''budget'', ''deadline'', ''cancellation'', ''concurrency'',
     ''retry'', ''security'', ''validation'', ''telemetry'', ''write_back'']"

definition section_failures :: "pyval \<Rightarrow> string \<Rightarrow> configuration_failure list" where
  "section_failures profile name =
     (let v = mget profile name in
      if v = VNone then [failure (''profile.'' @ name @ ''.required'') name VF_MISSING (name @ '' settings are required'')]
      else unless (is_mapping v) (failure (''profile.'' @ name @ ''.mapping'') name VF_INVALID (name @ '' must be a mapping'')))"

text \<open>\<open>sections.get(section, {}).get(field)\<close>: only mappings are kept as sections.\<close>

definition setting :: "pyval \<Rightarrow> string \<Rightarrow> string \<Rightarrow> pyval" where
  "setting profile name field = mget (mget profile name) field"

definition setting_failure :: "string \<Rightarrow> string \<Rightarrow> string \<Rightarrow> string \<Rightarrow> configuration_failure" where
  "setting_failure name field suffix message =
     failure (''profile.'' @ name @ ''.'' @ field @ ''.'' @ suffix) (name @ ''.'' @ field) VF_INVALID (field @ '' '' @ message)"

text \<open>\<open>math.isfinite\<close> converts an integer to a double, which raises where it rounds to
  \<open>2 ^ 1024\<close>.\<close>

definition double_bound :: int where "double_bound = 2 ^ 1024 - 2 ^ 970"

definition validate_number :: "(rat \<Rightarrow> bool) \<Rightarrow> string \<Rightarrow> pyval \<Rightarrow> string \<Rightarrow> string \<Rightarrow> configuration_failure list res" where
  "validate_number ok message profile name field =
     (let f = setting_failure name field ''valid'' message in
      case setting profile name field of
        VInt i \<Rightarrow> if double_bound \<le> \<bar>i\<bar> then Inl (ForeignError ''OverflowError'' ''int too large to convert to float'')
          else Inr (unless (ok (of_int i)) f)
      | VFloat (Finite q) \<Rightarrow> Inr (unless (ok q) f)
      | _ \<Rightarrow> Inr [f])"

definition positive_number :: "pyval \<Rightarrow> string \<Rightarrow> string \<Rightarrow> configuration_failure list res" where
  "positive_number = validate_number (\<lambda>q. 0 < q) ''must be greater than zero''"

definition nonnegative_number :: "pyval \<Rightarrow> string \<Rightarrow> string \<Rightarrow> configuration_failure list res" where
  "nonnegative_number = validate_number (\<lambda>q. 0 \<le> q) ''must be non-negative''"

definition positive_integer :: "pyval \<Rightarrow> string \<Rightarrow> string \<Rightarrow> configuration_failure list" where
  "positive_integer profile name field =
     unless (case setting profile name field of VInt i \<Rightarrow> 0 < i | _ \<Rightarrow> False)
       (setting_failure name field ''valid'' ''must be a positive integer'')"

text \<open>A section that is missing or not a mapping is reported by the section check alone.\<close>

definition boolean_setting :: "pyval \<Rightarrow> string \<Rightarrow> string \<Rightarrow> configuration_failure list" where
  "boolean_setting profile name field =
     unless (is_mapping (mget profile name) \<longrightarrow> (case setting profile name field of VBool b \<Rightarrow> True | _ \<Rightarrow> False))
       (setting_failure name field ''valid'' ''must be boolean'')"

fun nonblank_string :: "pyval \<Rightarrow> bool" where
  "nonblank_string (VStr s) = (\<not> blank s)"
| "nonblank_string _ = False"

definition version_setting ::
    "string set \<Rightarrow> string \<Rightarrow> string \<Rightarrow> pyval \<Rightarrow> string \<Rightarrow> string \<Rightarrow> configuration_failure list" where
  "version_setting known rule message profile name field =
     (let v = setting profile name field in
      if \<not> nonblank_string v then [setting_failure name field ''required'' ''must be a nonblank string'']
      else unless (version_contains known v) (failure rule (name @ ''.'' @ field) VF_UNAVAILABLE message))"

definition model_path :: "nat \<Rightarrow> string" where
  "model_path n = ''model.versions['' @ decimal (int n) @ '']''"

definition model_version_failures :: "string set \<Rightarrow> nat \<Rightarrow> pyval \<Rightarrow> configuration_failure list" where
  "model_version_failures known n v =
     (if \<not> nonblank_string v
      then [failure ''profile.model.version.valid'' (model_path n) VF_INVALID ''model version must be a nonblank string'']
      else unless (version_contains known v)
        (failure ''profile.model.version.available'' (model_path n) VF_UNAVAILABLE (''model version '' @ str_of v @ '' is unavailable'')))"

fun elements :: "pyval \<Rightarrow> pyval list" where
  "elements (VList xs) = xs"
| "elements (VTuple xs) = xs"
| "elements _ = []"

definition model_failures :: "string set \<Rightarrow> pyval \<Rightarrow> configuration_failure list" where
  "model_failures known profile =
     (let vs = elements (setting profile ''model'' ''versions'') in
      if vs = [] then [failure ''profile.model.versions.required'' ''model.versions'' VF_INVALID ''at least one model version is required'']
      else concat (map (\<lambda>(n, v). model_version_failures known n v) (enumerate 0 vs)))"

definition adapter_failures :: "adapter_registry \<Rightarrow> pyval \<Rightarrow> configuration_failure list" where
  "adapter_failures reg profile =
     (let i = setting profile ''database'' ''adapter_id''; v = setting profile ''database'' ''adapter_version'' in
      unless (nonblank_string i) (failure ''profile.database.adapter_id.required'' ''database.adapter_id'' VF_INVALID ''adapter_id is required'')
      @ unless (nonblank_string v)
          (failure ''profile.database.adapter_version.required'' ''database.adapter_version'' VF_INVALID ''adapter_version is required'')
      @ unless (nonblank_string i \<and> nonblank_string v \<longrightarrow> evidence_for reg i v \<noteq> None)
          (failure ''profile.database.adapter.evidence'' ''database.adapter_version'' VF_UNAVAILABLE
             ''complete passing adapter evidence is unavailable''))"

definition mutation_operations :: "string set" where
  "mutation_operations = {''insert'', ''update'', ''delete'', ''merge'', ''alter'', ''create'', ''drop'', ''truncate'',
     ''grant'', ''revoke'', ''execute_mutating_routine''}"

text \<open>\<open>str.casefold\<close> of the code points below 256: capitals to small letters, the micro sign to
  the Greek letter, the sharp s to \<open>ss\<close>. The Greek letter is outside this range and is
  left; no operation name contains either.\<close>

definition casefold_char :: "char \<Rightarrow> string" where
  "casefold_char c = (let n = of_char c :: nat in
     if 65 \<le> n \<and> n \<le> 90 \<or> 192 \<le> n \<and> n \<le> 222 \<and> n \<noteq> 215 then [char_of (n + 32)]
     else if n = 223 then ''ss'' else [c])"

definition casefold :: "string \<Rightarrow> string" where
  "casefold s = concat (map casefold_char s)"

definition credential_failures :: "credential_registry \<Rightarrow> pyval \<Rightarrow> configuration_failure list" where
  "credential_failures reg profile =
     (let i = setting profile ''database'' ''read_only_credential_id''; path = ''database.read_only_credential_id'' in
      if \<not> nonblank_string i
      then [failure ''profile.database.credential.required'' path VF_INVALID ''read-only credential is required'']
      else (case credential_get reg i of
         None \<Rightarrow> [failure ''profile.database.credential.evidence'' path VF_UNAVAILABLE ''credential authorization evidence is unavailable'']
       | Some e \<Rightarrow> unless (casefold ` effective_operations e \<inter> mutation_operations = {})
           (failure ''profile.database.credential.read_only'' path VF_UNAUTHORIZED ''credential has effective mutation authorization'')))"

text \<open>\<open>except (TypeError, ValueError)\<close> around \<open>canonicalize_profile\<close>.\<close>

definition canonical_failures :: "(string \<Rightarrow> string) \<Rightarrow> (rat \<Rightarrow> string) \<Rightarrow> pyval \<Rightarrow> configuration_failure list" where
  "canonical_failures sha frepr profile =
     (case canonicalize_profile sha frepr profile of
        Inl e \<Rightarrow> [failure ''profile.content.canonical'' ''$'' VF_INVALID (exn_text e)]
      | Inr _ \<Rightarrow> [])"

text \<open>The numeric checks may raise; the others only report.\<close>

definition numeric_failures :: "pyval \<Rightarrow> configuration_failure list res" where
  "numeric_failures profile =
     bindR (positive_number profile ''deadline'' ''duration_seconds'') (\<lambda>a.
     bindR (nonnegative_number profile ''cancellation'' ''timeout_seconds'') (\<lambda>b.
     bindR (nonnegative_number profile ''budget'' ''cost_limit'') (\<lambda>c.
     bindR (nonnegative_number profile ''budget'' ''token_limit'') (\<lambda>d. Inr (a @ b @ c @ d)))))"

definition profile_validate ::
    "(string \<Rightarrow> string) \<Rightarrow> (rat \<Rightarrow> string) \<Rightarrow> profile_validator \<Rightarrow> pyval \<Rightarrow> configuration_failure list res" where
  "profile_validate sha frepr pv profile =
     bindR (numeric_failures profile) (\<lambda>numeric.
       Inr (report (
         concat (map (section_failures profile) required_sections)
         @ numeric
         @ positive_integer profile ''concurrency'' ''limit''
         @ positive_integer profile ''retry'' ''max_attempts''
         @ boolean_setting profile ''routing'' ''interactive''
         @ boolean_setting profile ''routing'' ''bulk''
         @ boolean_setting profile ''telemetry'' ''enabled''
         @ boolean_setting profile ''write_back'' ''enabled''
         @ version_setting (pv_security_policies pv) ''profile.security.policy.available''
             ''referenced security policy is unavailable'' profile ''security'' ''policy_version''
         @ version_setting (pv_validation_rules pv) ''profile.validation.rules.available''
             ''referenced validation rules are unavailable'' profile ''validation'' ''rules_version''
         @ model_failures (pv_models pv) profile
         @ adapter_failures (pv_adapters pv) profile
         @ credential_failures (pv_credentials pv) profile
         @ canonical_failures sha frepr profile)))"

section \<open>The registry of versions\<close>

record stored_configuration =
  st_reference :: configuration_reference
  st_content :: frozen_mapping
  st_digest :: string
  st_created_at :: datetime
  st_retain_until :: datetime

record configuration_registry =
  cr_retention :: timedelta
  cr_versions :: "(configuration_reference, stored_configuration) dict"
  cr_active :: "(string, configuration_reference) dict"

definition registry_init :: "timedelta \<Rightarrow> configuration_registry res" where
  "registry_init retention = (if retention < 0 then Inl (ValueError ''retention period must be non-negative'')
     else Inr \<lparr>cr_retention = retention, cr_versions = [], cr_active = []\<rparr>)"

definition store_version :: "configuration_reference \<Rightarrow> frozen_mapping \<Rightarrow> string \<Rightarrow> datetime \<Rightarrow> configuration_registry \<Rightarrow> configuration_registry" where
  "store_version ref m digest now s = s\<lparr>cr_versions := dset ref
     \<lparr>st_reference = ref, st_content = m, st_digest = digest, st_created_at = now,
      st_retain_until = dt_plus now (cr_retention s)\<rparr> (cr_versions s)\<rparr>"

text \<open>\<open>pv\<close> is the validator with its registries at the time of the call, \<open>now\<close> the clock's
  answer, which is used for a new version only.\<close>

definition activate ::
    "(string \<Rightarrow> string) \<Rightarrow> (rat \<Rightarrow> string) \<Rightarrow> profile_validator \<Rightarrow> datetime \<Rightarrow> string \<Rightarrow> pyval
     \<Rightarrow> (configuration_registry, configuration_reference) meth" where
  "activate sha frepr pv now profile_name profile s =
     (if blank profile_name then (Inl (ValueError ''profile_id must not be blank''), s)
      else case profile_validate sha frepr pv profile of
        Inl e \<Rightarrow> (Inl e, s)
      | Inr failures \<Rightarrow>
          if failures \<noteq> [] then (Inl (ConfigurationActivationError failures), s)
          else (case canonicalize_profile sha frepr profile of
             Inl e \<Rightarrow> (Inl e, s)
           | Inr (m, digest) \<Rightarrow>
              (case ConfigurationReference profile_name (''sha256:'' @ digest) of
                 Inl e \<Rightarrow> (Inl e, s)
               | Inr ref \<Rightarrow>
                  (case dget (cr_versions s) ref of
                     None \<Rightarrow> (Inr ref, (store_version ref m digest now s)\<lparr>cr_active := dset profile_name ref (cr_active s)\<rparr>)
                   | Some st \<Rightarrow>
                       if \<not> py_eq_entries (st_content st) m then (Inl (RuntimeError ''configuration digest collision''), s)
                       else (Inr ref, s\<lparr>cr_active := dset profile_name ref (cr_active s)\<rparr>)))))"

definition active_reference :: "string \<Rightarrow> configuration_registry \<Rightarrow> configuration_reference res" where
  "active_reference profile_name s = (case dget (cr_active s) profile_name of
     Some ref \<Rightarrow> Inr ref
   | None \<Rightarrow> Inl (ConfigurationBindingError (TypedFailure CONFIGURATION_UNAVAILABLE
       (''active configuration '' @ profile_name @ '' is unavailable''))))"

definition unavailable_configuration :: "configuration_reference \<Rightarrow> exn" where
  "unavailable_configuration ref = ConfigurationBindingError (TypedFailure CONFIGURATION_UNAVAILABLE
     (''configuration '' @ profile_id ref @ ''@'' @ version ref @ '' is unavailable''))"

definition stored_version :: "configuration_reference \<Rightarrow> configuration_registry \<Rightarrow> stored_configuration res" where
  "stored_version ref s = (case dget (cr_versions s) ref of Some st \<Rightarrow> Inr st | None \<Rightarrow> Inl (unavailable_configuration ref))"

fun text_option :: "pyval \<Rightarrow> string option" where
  "text_option (VStr s) = Some s"
| "text_option _ = None"

text \<open>The version a section binds, or else the profile's own key.\<close>

definition bound_version :: "frozen_mapping \<Rightarrow> string \<Rightarrow> string \<Rightarrow> string \<Rightarrow> string option" where
  "bound_version m name field fallback =
     text_option (case mget (VFrozen m) name of VFrozen sec \<Rightarrow> mget (VFrozen sec) field | _ \<Rightarrow> mget (VFrozen m) fallback)"

definition configuration_of :: "configuration_reference \<Rightarrow> frozen_mapping \<Rightarrow> execution_configuration" where
  "configuration_of ref m = \<lparr>reference = ref, content = m,
     security_policy_version = bound_version m ''security'' ''policy_version'' ''security_policy_version'',
     validation_rules_version = bound_version m ''validation'' ''rules_version'' ''validation_rules_version''\<rparr>"

definition registry_bind :: "configuration_reference \<Rightarrow> configuration_registry \<Rightarrow> execution_configuration res" where
  "registry_bind ref s = bindR (stored_version ref s) (\<lambda>st. Inr (configuration_of ref (st_content st)))"

definition static_bind :: "(configuration_reference, pyval) dict \<Rightarrow> configuration_reference \<Rightarrow> execution_configuration res" where
  "static_bind profiles ref = (case dget profiles ref of
     None \<Rightarrow> Inl (unavailable_configuration ref)
   | Some source \<Rightarrow> bindR (freeze source) (\<lambda>f. case f of
       VFrozen m \<Rightarrow> Inr (configuration_of ref m) | _ \<Rightarrow> Inl (AssertionError [])))"

section \<open>Generated artifacts\<close>

datatype generated_artifact_kind = GA_RESULT | GA_CHECKPOINT | GA_EFFECT_RECORD | GA_TELEMETRY | GA_AUDIT

record bound_artifact =
  ba_artifact_id :: string
  ba_kind :: generated_artifact_kind
  ba_configuration :: configuration_reference
  ba_content :: frozen_mapping

definition BoundArtifact_post :: "bound_artifact \<Rightarrow> bound_artifact res" where
  "BoundArtifact_post a = (if blank (ba_artifact_id a) then Inl (ValueError ''artifact_id must not be blank'') else Inr a)"

definition artifact_version :: "bound_artifact \<Rightarrow> string" where
  "artifact_version a = version (ba_configuration a)"

definition artifact_create :: "execution_context \<Rightarrow> string \<Rightarrow> generated_artifact_kind \<Rightarrow> pyval \<Rightarrow> bound_artifact res" where
  "artifact_create ctx i kind v = bindR (freeze v) (\<lambda>f. case f of
     VFrozen m \<Rightarrow> BoundArtifact_post \<lparr>ba_artifact_id = i, ba_kind = kind, ba_configuration = reference (ctx_configuration ctx), ba_content = m\<rparr>
   | _ \<Rightarrow> Inl (TypeError ''artifact content must be a mapping''))"

section \<open>Execution contexts\<close>

text \<open>\<open>timedelta(seconds=x)\<close> rounds to the nearest microsecond, halves to even.\<close>

definition seconds :: "rat \<Rightarrow> timedelta" where
  "seconds x = (let r = x * 1000000; n = \<lfloor>r\<rfloor>; d = r - of_int n in
     if d < 1/2 then n else if 1/2 < d then n + 1 else if even n then n else n + 1)"

definition context_create ::
    "('s, datetime) meth \<Rightarrow> ('s, string) meth \<Rightarrow> execution_path \<Rightarrow> execution_configuration \<Rightarrow> rat option \<Rightarrow> rat
     \<Rightarrow> ('s, execution_context) meth" where
  "context_create clock fresh path cfg deadline_seconds cancel_seconds =
     bindM clock (\<lambda>accepted.
     bindM fresh (\<lambda>i1. bindM (liftR (ExecutionId i1)) (\<lambda>eid.
     bindM fresh (\<lambda>i2. bindM (liftR (CorrelationId i2)) (\<lambda>cid.
     bindM (liftR (DeadlineContext accepted (map_option (\<lambda>x. dt_plus accepted (seconds x)) deadline_seconds))) (\<lambda>time.
     bindM fresh (\<lambda>i3. bindM (liftR (CancellationContext i3 cancel_seconds)) (\<lambda>cancel.
       pureM \<lparr>execution_id = eid, correlation_id = cid, ctx_path = path, ctx_configuration = cfg, timing = time,
         cancellation = cancel\<rparr>))))))))"

section \<open>What the validator accepts\<close>

lemma unless_Nil [simp]: "unless b f = [] \<longleftrightarrow> b"
  by (simp add: unless_def)

lemma report_Nil [simp]: "report fs = [] \<longleftrightarrow> fs = []"
proof -
  have "length (report fs) = length (fromkeys fs)" by (simp add: report_def)
  then show ?thesis by (metis fromkeys_eq_Nil length_0_conv)
qed

definition number_setting :: "(rat \<Rightarrow> bool) \<Rightarrow> pyval \<Rightarrow> string \<Rightarrow> string \<Rightarrow> bool" where
  "number_setting ok profile name field = (case setting profile name field of
     VInt i \<Rightarrow> \<bar>i\<bar> < double_bound \<and> ok (of_int i) | VFloat (Finite q) \<Rightarrow> ok q | _ \<Rightarrow> False)"

definition bool_setting :: "pyval \<Rightarrow> string \<Rightarrow> string \<Rightarrow> bool" where
  "bool_setting profile name field = (case setting profile name field of VBool b \<Rightarrow> True | _ \<Rightarrow> False)"

text \<open>What an active profile satisfies.\<close>

definition profile_ok :: "(string \<Rightarrow> string) \<Rightarrow> (rat \<Rightarrow> string) \<Rightarrow> profile_validator \<Rightarrow> pyval \<Rightarrow> bool" where
  "profile_ok sha frepr pv profile \<longleftrightarrow>
     (\<forall>name \<in> set required_sections. is_mapping (mget profile name))
     \<and> number_setting (\<lambda>q. 0 < q) profile ''deadline'' ''duration_seconds''
     \<and> number_setting (\<lambda>q. 0 \<le> q) profile ''cancellation'' ''timeout_seconds''
     \<and> number_setting (\<lambda>q. 0 \<le> q) profile ''budget'' ''cost_limit''
     \<and> number_setting (\<lambda>q. 0 \<le> q) profile ''budget'' ''token_limit''
     \<and> (\<exists>n > 0. setting profile ''concurrency'' ''limit'' = VInt n)
     \<and> (\<exists>n > 0. setting profile ''retry'' ''max_attempts'' = VInt n)
     \<and> bool_setting profile ''routing'' ''interactive'' \<and> bool_setting profile ''routing'' ''bulk''
     \<and> bool_setting profile ''telemetry'' ''enabled'' \<and> bool_setting profile ''write_back'' ''enabled''
     \<and> (\<exists>v \<in> pv_security_policies pv. \<not> blank v \<and> setting profile ''security'' ''policy_version'' = VStr v)
     \<and> (\<exists>v \<in> pv_validation_rules pv. \<not> blank v \<and> setting profile ''validation'' ''rules_version'' = VStr v)
     \<and> elements (setting profile ''model'' ''versions'') \<noteq> []
     \<and> (\<forall>v \<in> set (elements (setting profile ''model'' ''versions'')). \<exists>m \<in> pv_models pv. \<not> blank m \<and> v = VStr m)
     \<and> (\<exists>i v e. setting profile ''database'' ''adapter_id'' = VStr i \<and> setting profile ''database'' ''adapter_version'' = VStr v
          \<and> \<not> blank i \<and> \<not> blank v \<and> dget (pv_adapters pv) (i, v) = Some e)
     \<and> (\<exists>i e. setting profile ''database'' ''read_only_credential_id'' = VStr i \<and> \<not> blank i
          \<and> dget (pv_credentials pv) i = Some e \<and> casefold ` effective_operations e \<inter> mutation_operations = {})
     \<and> (\<exists>m d. canonicalize_profile sha frepr profile = Inr (m, d))"

lemma section_failures_Nil: "section_failures profile name = [] \<longleftrightarrow> is_mapping (mget profile name)"
  by (cases "mget profile name") (auto simp: section_failures_def Let_def)

lemma validate_number_Nil: "validate_number ok message profile name field = Inr [] \<longleftrightarrow> number_setting ok profile name field"
  by (auto simp: validate_number_def number_setting_def Let_def split: pyval.splits pyfloat.splits)

lemma positive_integer_Nil: "positive_integer profile name field = [] \<longleftrightarrow> (\<exists>n > 0. setting profile name field = VInt n)"
  by (cases "setting profile name field") (auto simp: positive_integer_def)

lemma boolean_setting_Nil:
  "is_mapping (mget profile name) \<Longrightarrow> boolean_setting profile name field = [] \<longleftrightarrow> bool_setting profile name field"
  by (simp add: boolean_setting_def bool_setting_def)

lemma nonblank_string_iff: "nonblank_string v \<longleftrightarrow> (\<exists>s. v = VStr s \<and> \<not> blank s)"
  by (cases v) auto

lemma version_setting_Nil:
  "version_setting known rule message profile name field = [] \<longleftrightarrow> (\<exists>v \<in> known. \<not> blank v \<and> setting profile name field = VStr v)"
  by (auto simp: version_setting_def Let_def nonblank_string_iff)

lemma model_failures_Nil:
  "model_failures known profile = [] \<longleftrightarrow> elements (setting profile ''model'' ''versions'') \<noteq> []
     \<and> (\<forall>v \<in> set (elements (setting profile ''model'' ''versions'')). \<exists>m \<in> known. \<not> blank m \<and> v = VStr m)"
proof -
  have one: "model_version_failures known n v = [] \<longleftrightarrow> (\<exists>m \<in> known. \<not> blank m \<and> v = VStr m)" for n v
    by (auto simp: model_version_failures_def nonblank_string_iff)
  have "concat (map (\<lambda>(n, v). model_version_failures known n v) (enumerate k xs)) = []
      \<longleftrightarrow> (\<forall>v \<in> set xs. \<exists>m \<in> known. \<not> blank m \<and> v = VStr m)" for k xs
    by (induction xs arbitrary: k) (simp_all add: one)
  then show ?thesis by (simp only: model_failures_def Let_def if_distrib) simp
qed

lemma adapter_failures_Nil:
  "adapter_failures reg profile = [] \<longleftrightarrow> (\<exists>i v e. setting profile ''database'' ''adapter_id'' = VStr i
     \<and> setting profile ''database'' ''adapter_version'' = VStr v \<and> \<not> blank i \<and> \<not> blank v \<and> dget reg (i, v) = Some e)"
  by (auto simp: adapter_failures_def Let_def nonblank_string_iff)

lemma credential_failures_Nil:
  "credential_failures reg profile = [] \<longleftrightarrow> (\<exists>i e. setting profile ''database'' ''read_only_credential_id'' = VStr i \<and> \<not> blank i
     \<and> dget reg i = Some e \<and> casefold ` effective_operations e \<inter> mutation_operations = {})"
  by (auto simp: credential_failures_def Let_def nonblank_string_iff disjoint_iff split: option.splits)

lemma canonical_failures_Nil: "canonical_failures sha frepr profile = [] \<longleftrightarrow> (\<exists>m d. canonicalize_profile sha frepr profile = Inr (m, d))"
  by (auto simp: canonical_failures_def split: sum.splits)

lemmas validator_Nil = section_failures_Nil positive_integer_Nil version_setting_Nil model_failures_Nil
  adapter_failures_Nil credential_failures_Nil canonical_failures_Nil

lemma profile_validate_ok:
  "profile_validate sha frepr pv profile = Inr [] \<longleftrightarrow> profile_ok sha frepr pv profile"
proof -
  have num: "numeric_failures profile = Inr [] \<longleftrightarrow>
     number_setting (\<lambda>q. 0 < q) profile ''deadline'' ''duration_seconds''
     \<and> number_setting (\<lambda>q. 0 \<le> q) profile ''cancellation'' ''timeout_seconds''
     \<and> number_setting (\<lambda>q. 0 \<le> q) profile ''budget'' ''cost_limit''
     \<and> number_setting (\<lambda>q. 0 \<le> q) profile ''budget'' ''token_limit''"
    by (auto simp: numeric_failures_def positive_number_def nonnegative_number_def bindR_Inr validate_number_Nil)
  have "profile_validate sha frepr pv profile = Inr [] \<longleftrightarrow>
      (\<forall>name \<in> set required_sections. section_failures profile name = []) \<and> numeric_failures profile = Inr []
      \<and> positive_integer profile ''concurrency'' ''limit'' = [] \<and> positive_integer profile ''retry'' ''max_attempts'' = []
      \<and> boolean_setting profile ''routing'' ''interactive'' = [] \<and> boolean_setting profile ''routing'' ''bulk'' = []
      \<and> boolean_setting profile ''telemetry'' ''enabled'' = [] \<and> boolean_setting profile ''write_back'' ''enabled'' = []
      \<and> version_setting (pv_security_policies pv) ''profile.security.policy.available''
             ''referenced security policy is unavailable'' profile ''security'' ''policy_version'' = []
      \<and> version_setting (pv_validation_rules pv) ''profile.validation.rules.available''
             ''referenced validation rules are unavailable'' profile ''validation'' ''rules_version'' = []
      \<and> model_failures (pv_models pv) profile = [] \<and> adapter_failures (pv_adapters pv) profile = []
      \<and> credential_failures (pv_credentials pv) profile = [] \<and> canonical_failures sha frepr profile = []"
    by (cases "numeric_failures profile") (auto simp: profile_validate_def)
  note run = this
  let ?sections = "\<forall>name \<in> set required_sections. is_mapping (mget profile name)"
  show ?thesis
  proof (cases ?sections)
    case True
    have "is_mapping (mget profile ''routing'')" "is_mapping (mget profile ''telemetry'')" "is_mapping (mget profile ''write_back'')"
      using True by (simp_all add: required_sections_def)
    note bools = this [THEN boolean_setting_Nil]
    show ?thesis unfolding profile_ok_def run num validator_Nil bools by (simp only: True simp_thms conj_assoc)
  next
    case False
    then show ?thesis unfolding profile_ok_def run validator_Nil by (simp only: simp_thms)
  qed
qed

text \<open>C20. A profile is accepted exactly when it satisfies every rule: all twelve sections are
  mappings, the limits are finite numbers in range, the switches are booleans, the bound
  policy, rules, models and adapter are registered, the credential has no mutating
  operation under any spelling of its case, and the content has a canonical form.\<close>

theorem profile_accepted_exactly:
  "profile_validate sha frepr pv profile = Inr [] \<longleftrightarrow> profile_ok sha frepr pv profile"
  by (rule profile_validate_ok)

section \<open>Evidence\<close>

text \<open>Complete, fully passing evidence.\<close>

definition evidence_ok :: "adapter_evidence \<Rightarrow> bool" where
  "evidence_ok e \<longleftrightarrow> \<not> blank (contract_suite_version e) \<and> tz_aware (evidence_timestamp e)
     \<and> (\<forall>p \<in> set (case_fields e). snd p \<noteq> [] \<and> list_all (\<lambda>c. \<not> blank c) (snd p))
     \<and> test_outcomes e \<noteq> [] \<and> list_all (\<lambda>p. \<not> blank (fst p) \<and> snd p) (test_outcomes e)
     \<and> distinct (map fst (test_outcomes e))"

lemma evidence_failures_Nil: "evidence_failures e = [] \<longleftrightarrow> evidence_ok e"
proof -
  have "filter (\<lambda>p. \<not> snd p) xs = [] \<longleftrightarrow> list_all snd xs" for xs :: "(string \<times> bool) list"
    by (auto simp: filter_empty_conv list_all_iff)
  moreover have "\<not> list_ex blank cs \<longleftrightarrow> list_all (\<lambda>c. \<not> blank c) cs" for cs
    by (auto simp: list_ex_iff list_all_iff)
  moreover have "\<not> list_ex blank (map fst xs) \<longleftrightarrow> list_all (\<lambda>p. \<not> blank (fst p)) xs" for xs :: "(string \<times> bool) list"
    by (auto simp: list_ex_iff list_all_iff)
  ultimately show ?thesis
    unfolding evidence_failures_def evidence_ok_def Let_def case_fields_def
    by (simp add: list_all_iff) blast
qed

text \<open>An adapter becomes supported only by complete evidence: activation succeeds exactly for
  evidence with a suite version, an aware timestamp, non-blank cases in every field and
  uniquely named passing tests; it then stores that evidence for its adapter and version
  and no other, and a rejection, which reports every failure once and in order, leaves the
  registry as it was.\<close>

theorem evidence_gates_adapters:
  "adapter_activate e reg =
     (if evidence_ok e then (Inr (), dset (adapter_id e, adapter_version e) e reg)
      else (Inl (EvidenceActivationError (report (evidence_failures e))), reg))
   \<and> sorted (map failure_key (report (evidence_failures e))) \<and> distinct (report (evidence_failures e))
   \<and> set (report (evidence_failures e)) = set (evidence_failures e)"
proof -
  have "distinct (report fs) \<and> set (report fs) = set fs \<and> sorted (map failure_key (report fs))" for fs
    by (simp add: report_def)
  then show ?thesis by (simp add: adapter_activate_def evidence_failures_Nil [symmetric])
qed

section \<open>Versions are content addressed and immutable\<close>

definition version_ok :: "(string \<Rightarrow> string) \<Rightarrow> (rat \<Rightarrow> string) \<Rightarrow> timedelta \<Rightarrow> configuration_reference \<Rightarrow> stored_configuration \<Rightarrow> bool" where
  "version_ok sha frepr retention ref st \<longleftrightarrow> st_reference st = ref \<and> version ref = ''sha256:'' @ st_digest st
     \<and> (\<exists>t. canonical_json frepr (st_content st) = Inr t \<and> st_digest st = sha (utf8 t))
     \<and> st_retain_until st = dt_plus (st_created_at st) retention"

definition registry_ok :: "(string \<Rightarrow> string) \<Rightarrow> (rat \<Rightarrow> string) \<Rightarrow> configuration_registry \<Rightarrow> bool" where
  "registry_ok sha frepr s \<longleftrightarrow>
     (\<forall>ref st. dget (cr_versions s) ref = Some st \<longrightarrow> version_ok sha frepr (cr_retention s) ref st)
     \<and> (\<forall>p ref. dget (cr_active s) p = Some ref \<longrightarrow> profile_id ref = p \<and> dget (cr_versions s) ref \<noteq> None)"

lemma registry_init_ok: "registry_init r = Inr s \<Longrightarrow> registry_ok sha frepr s"
  by (auto simp: registry_init_def registry_ok_def split: if_splits)

lemma canonicalize_profile_Inr:
  "canonicalize_profile sha frepr profile = Inr (m, d) \<longleftrightarrow>
     freeze profile = Inr (VFrozen m) \<and> (\<exists>t. canonical_json frepr m = Inr t \<and> d = sha (utf8 t))"
proof -
  have "(case f of VFrozen m \<Rightarrow> bindR (canonical_json frepr m) (\<lambda>t. Inr (m, sha (utf8 t)))
      | _ \<Rightarrow> Inl (TypeError ''configuration profile must be a mapping'')) = Inr (m, d)
    \<longleftrightarrow> f = VFrozen m \<and> (\<exists>t. canonical_json frepr m = Inr t \<and> d = sha (utf8 t))" for f
    by (cases f) (auto simp: bindR_Inr)
  then show ?thesis by (auto simp: canonicalize_profile_def bindR_Inr)
qed

text \<open>The two ways an activation succeeds.\<close>

lemma activate_cases:
  assumes "activate sha frepr pv now name profile s = (r, s')"
  obtains (rejected) e where "r = Inl e" "s' = s"
  | (fresh) m d ref where "profile_ok sha frepr pv profile" "canonicalize_profile sha frepr profile = Inr (m, d)"
      "ref = \<lparr>profile_id = name, version = ''sha256:'' @ d\<rparr>" "r = Inr ref" "dget (cr_versions s) ref = None"
      "s' = (store_version ref m d now s)\<lparr>cr_active := dset name ref (cr_active s)\<rparr>"
  | (known) m d ref st where "profile_ok sha frepr pv profile" "canonicalize_profile sha frepr profile = Inr (m, d)"
      "ref = \<lparr>profile_id = name, version = ''sha256:'' @ d\<rparr>" "r = Inr ref" "dget (cr_versions s) ref = Some st"
      "py_eq_entries (st_content st) m" "s' = s\<lparr>cr_active := dset name ref (cr_active s)\<rparr>"
proof (cases "\<exists>e. r = Inl e")
  case True
  with assms have "s' = s"
    by (auto simp: activate_def split: if_splits sum.splits prod.splits option.splits)
  with True rejected show ?thesis by blast
next
  case False
  then obtain ref where r: "r = Inr ref" by (cases r) auto
  from assms r obtain m d where *: "\<not> blank name" "profile_validate sha frepr pv profile = Inr []"
    "canonicalize_profile sha frepr profile = Inr (m, d)" "ConfigurationReference name (''sha256:'' @ d) = Inr ref"
    by (auto simp: activate_def split: if_splits sum.splits prod.splits option.splits)
  have ref: "ref = \<lparr>profile_id = name, version = ''sha256:'' @ d\<rparr>"
    using *(4) by (auto simp: ConfigurationReference_def split: if_splits)
  have ok: "profile_ok sha frepr pv profile" using *(2) profile_validate_ok by blast
  show ?thesis
  proof (cases "dget (cr_versions s) ref")
    case None
    with assms r * show ?thesis by (intro fresh [OF ok *(3) ref r None]) (auto simp: activate_def)
  next
    case (Some st)
    with assms r * show ?thesis
      by (intro known [OF ok *(3) ref r Some]) (auto simp: activate_def split: if_splits)
  qed
qed

lemma active_update:
  assumes "\<forall>p r. dget act p = Some r \<longrightarrow> profile_id r = p \<and> P r" and "profile_id ref = name" and "Q ref"
    and "\<And>r. P r \<Longrightarrow> Q r"
  shows "\<forall>p r. dget (dset name ref act) p = Some r \<longrightarrow> profile_id r = p \<and> Q r"
proof (intro allI impI)
  fix p r assume "dget (dset name ref act) p = Some r"
  with assms show "profile_id r = p \<and> Q r" by (cases "name = p") auto
qed

lemma activate_ok:
  assumes "activate sha frepr pv now name profile s = (r, s')" and "registry_ok sha frepr s"
  shows "registry_ok sha frepr s' \<and> cr_retention s' = cr_retention s
    \<and> (\<forall>ref st. dget (cr_versions s) ref = Some st \<longrightarrow> dget (cr_versions s') ref = Some st)"
proof -
  have versions: "\<forall>ref st. dget (cr_versions s) ref = Some st \<longrightarrow> version_ok sha frepr (cr_retention s) ref st"
    and active: "\<forall>p ref. dget (cr_active s) p = Some ref \<longrightarrow> profile_id ref = p \<and> dget (cr_versions s) ref \<noteq> None"
    using assms(2) unfolding registry_ok_def by blast+
  from assms(1) show ?thesis
  proof (cases rule: activate_cases)
    case rejected
    with assms(2) show ?thesis by simp
  next
    case (fresh m d ref)
    from fresh(2) obtain t where t: "canonical_json frepr m = Inr t" "d = sha (utf8 t)"
      by (auto simp: canonicalize_profile_Inr)
    let ?st = "\<lparr>st_reference = ref, st_content = m, st_digest = d, st_created_at = now, st_retain_until = dt_plus now (cr_retention s)\<rparr>"
    have v: "cr_versions s' = dset ref ?st (cr_versions s)" "cr_active s' = dset name ref (cr_active s)" "cr_retention s' = cr_retention s"
      by (simp_all add: fresh(6) store_version_def)
    have "version_ok sha frepr (cr_retention s) ref ?st" using t by (simp add: version_ok_def fresh(3))
    then have "\<forall>ref st. dget (cr_versions s') ref = Some st \<longrightarrow> version_ok sha frepr (cr_retention s') ref st"
      using versions by (simp add: v)
    moreover have "\<forall>p ref. dget (cr_active s') p = Some ref \<longrightarrow> profile_id ref = p \<and> dget (cr_versions s') ref \<noteq> None"
      unfolding v by (rule active_update [OF active]) (simp_all add: fresh(3))
    moreover have "\<forall>ref st. dget (cr_versions s) ref = Some st \<longrightarrow> dget (cr_versions s') ref = Some st"
      using fresh(5) by (auto simp: v)
    ultimately show ?thesis unfolding registry_ok_def using v(3) by blast
  next
    case (known m d ref st)
    have v: "cr_versions s' = cr_versions s" "cr_active s' = dset name ref (cr_active s)" "cr_retention s' = cr_retention s"
      by (simp_all add: known(7))
    have "\<forall>p ref. dget (cr_active s') p = Some ref \<longrightarrow> profile_id ref = p \<and> dget (cr_versions s') ref \<noteq> None"
      unfolding v by (rule active_update [OF active]) (simp_all add: known(3) known(5) [unfolded known(3), simplified])
    with versions show ?thesis unfolding registry_ok_def v by blast
  qed
qed

text \<open>A history of activations.\<close>

type_synonym activation = "profile_validator \<times> datetime \<times> string \<times> pyval"

fun activate_all ::
    "(string \<Rightarrow> string) \<Rightarrow> (rat \<Rightarrow> string) \<Rightarrow> activation list \<Rightarrow> configuration_registry \<Rightarrow> configuration_registry" where
  "activate_all sha frepr [] s = s"
| "activate_all sha frepr ((pv, now, name, profile) # as') s =
     activate_all sha frepr as' (snd (activate sha frepr pv now name profile s))"

lemma activate_all_ok:
  "registry_ok sha frepr s \<Longrightarrow> registry_ok sha frepr (activate_all sha frepr as' s)
     \<and> (\<forall>ref st. dget (cr_versions s) ref = Some st \<longrightarrow> dget (cr_versions (activate_all sha frepr as' s)) ref = Some st)"
proof (induction sha frepr as' s rule: activate_all.induct)
  case (2 sha frepr pv now name profile as' s)
  from activate_ok [OF prod.collapse [symmetric] 2(2)] 2(1) show ?case by auto
qed simp

text \<open>C16. A configuration version never changes: once a reference binds, every later binding of
  it, after any history of activations, valid or not, gives the same snapshot, and its
  version is the digest of the canonical form of the bound content.\<close>

theorem binding_immutable:
  assumes "registry_ok sha frepr s" and "registry_bind ref s = Inr cfg"
  shows "registry_bind ref (activate_all sha frepr history s) = Inr cfg \<and> reference cfg = ref
    \<and> (\<exists>t. canonical_json frepr (content cfg) = Inr t \<and> version ref = ''sha256:'' @ sha (utf8 t))"
proof -
  from assms(2) obtain st where st: "dget (cr_versions s) ref = Some st" "cfg = configuration_of ref (st_content st)"
    by (auto simp: registry_bind_def stored_version_def bindR_Inr split: option.splits)
  with activate_all_ok [OF assms(1)] have "dget (cr_versions (activate_all sha frepr history s)) ref = Some st" by blast
  moreover have "version_ok sha frepr (cr_retention s) ref st" using assms(1) st(1) unfolding registry_ok_def by blast
  then obtain t where "canonical_json frepr (st_content st) = Inr t" "version ref = ''sha256:'' @ sha (utf8 t)"
    unfolding version_ok_def by auto
  ultimately show ?thesis using st(2) by (simp add: registry_bind_def stored_version_def configuration_of_def)
qed

text \<open>Activation is all or nothing: it either raises and changes nothing, or the profile
  satisfied every rule, its reference is named by its digest, becomes the profile's active
  one and binds to content equal to the frozen profile; a version that is stored already is
  kept with its first creation time.\<close>

theorem activation_all_or_nothing:
  assumes "registry_ok sha frepr s" and "activate sha frepr pv now name profile s = (r, s')"
  shows "(\<exists>e. r = Inl e \<and> s' = s)
    \<or> (\<exists>ref m cfg. r = Inr ref \<and> profile_ok sha frepr pv profile \<and> freeze profile = Inr (VFrozen m)
        \<and> profile_id ref = name \<and> active_reference name s' = Inr ref
        \<and> registry_bind ref s' = Inr cfg \<and> (content cfg = m \<or> py_eq_entries (content cfg) m)
        \<and> (\<forall>st. dget (cr_versions s) ref = Some st \<longrightarrow> cr_versions s' = cr_versions s))"
  using assms(2)
proof (cases rule: activate_cases)
  case rejected
  then show ?thesis by simp
next
  case (fresh m d ref)
  then show ?thesis
    by (auto simp: canonicalize_profile_Inr active_reference_def registry_bind_def stored_version_def store_version_def
        configuration_of_def)
next
  case (known m d ref st)
  then show ?thesis
    by (auto simp: canonicalize_profile_Inr active_reference_def registry_bind_def stored_version_def configuration_of_def)
qed

section \<open>The digest does not depend on the order of keys\<close>

lemma freeze_items_map:
  "freeze_items kvs = Inr items \<longleftrightarrow> list_all (\<lambda>p. \<exists>w. freeze (snd p) = Inr w) kvs
     \<and> items = map (\<lambda>p. (str_of (fst p), projr (freeze (snd p)))) kvs"
proof (induction kvs arbitrary: items)
  case (Cons p kvs)
  show ?case
    by (cases p; cases "freeze (snd p)") (auto simp: bindR_Inr Cons.IH)
qed auto

lemma str_of_inj: "is_str k \<Longrightarrow> is_str k' \<Longrightarrow> str_of k = str_of k' \<Longrightarrow> k = k'"
  by (cases k; cases k') auto

lemma freeze_dict_permuted:
  assumes "freeze (VDict kvs) = Inr w" and "distinct (map fst kvs)" and "mset kvs' = mset kvs"
  shows "freeze (VDict kvs') = Inr w"
proof -
  let ?f = "\<lambda>p. (str_of (fst p), projr (freeze (snd p)))"
  from assms(1) obtain items where strs: "list_all (\<lambda>p. is_str (fst p)) kvs" and items: "freeze_items kvs = Inr items"
    and w: "w = VFrozen (sort_key fst items)" by (auto simp: bindR_Inr split: if_splits)
  have set_eq: "set kvs' = set kvs" using assms(3) by (metis set_mset_mset)
  have items': "freeze_items kvs' = Inr (map ?f kvs')"
    using items unfolding freeze_items_map list_all_iff set_eq by simp
  have eq: "mset (map ?f kvs') = mset items"
    using items assms(3) by (simp add: freeze_items_map)
  have "inj_on fst (set items)"
  proof -
    have "map fst items = map str_of (map fst kvs)" using items by (simp add: freeze_items_map)
    moreover have "inj_on str_of (set (map fst kvs))"
      using strs by (auto simp: list_all_iff intro!: inj_onI str_of_inj)
    ultimately have "distinct (map fst items)" using assms(2) by (simp add: distinct_map comp_inj_on)
    then show ?thesis by (simp add: distinct_map)
  qed
  moreover have "set (map ?f kvs') = set items" using eq by (metis set_mset_mset)
  ultimately have "sort_key fst (map ?f kvs') = sort_key fst items"
    using eq by (intro sort_key_inj_key_eq) simp_all
  moreover have "list_all (\<lambda>p. is_str (fst p)) kvs'" using strs set_eq by (simp add: list_all_iff)
  ultimately show ?thesis using items' w by simp
qed

text \<open>The digest of a profile does not depend on the order in which its keys were
  written: two profiles with the same entries canonicalise to the same content and digest,
  so they activate the same version.\<close>

theorem digest_order_independent:
  assumes "canonicalize_profile sha frepr (VDict kvs) = Inr (m, d)" and "distinct (map fst kvs)" and "mset kvs' = mset kvs"
  shows "canonicalize_profile sha frepr (VDict kvs') = Inr (m, d)"
  using assms freeze_dict_permuted unfolding canonicalize_profile_Inr by blast

section \<open>An integer no double holds\<close>

text \<open>A profile with such a limit is not reported: the validator itself raises.\<close>

lemma huge_limit_raises:
  assumes "setting profile ''deadline'' ''duration_seconds'' = VInt (2 ^ 1024)"
  shows "profile_validate sha frepr pv profile = Inl (ForeignError ''OverflowError'' ''int too large to convert to float'')"
  using assms by (simp add: profile_validate_def numeric_failures_def positive_number_def validate_number_def Let_def double_bound_def)

section \<open>Samples\<close>

definition sample_profile :: pyval where
  "sample_profile = VDict [
     (VStr ''routing'', VDict [(VStr ''interactive'', VBool True), (VStr ''bulk'', VBool True)]),
     (VStr ''database'', VDict [(VStr ''adapter_id'', VStr ''a''), (VStr ''adapter_version'', VStr ''1''),
        (VStr ''read_only_credential_id'', VStr ''ro'')]),
     (VStr ''model'', VDict [(VStr ''versions'', VList [VStr ''m1''])]),
     (VStr ''budget'', VDict [(VStr ''cost_limit'', VInt 10), (VStr ''token_limit'', VInt 100)]),
     (VStr ''deadline'', VDict [(VStr ''duration_seconds'', VInt 5)]),
     (VStr ''cancellation'', VDict [(VStr ''timeout_seconds'', VInt 0)]),
     (VStr ''concurrency'', VDict [(VStr ''limit'', VInt 2)]),
     (VStr ''retry'', VDict [(VStr ''max_attempts'', VInt 3)]),
     (VStr ''security'', VDict [(VStr ''policy_version'', VStr ''s1'')]),
     (VStr ''validation'', VDict [(VStr ''rules_version'', VStr ''r1'')]),
     (VStr ''telemetry'', VDict [(VStr ''enabled'', VBool True)]),
     (VStr ''write_back'', VDict [(VStr ''enabled'', VBool False)])]"

definition sample_evidence :: adapter_evidence where
  "sample_evidence = \<lparr>adapter_id = ''a'', adapter_version = ''1'', contract_suite_version = ''1'', tested_operations = [''scan''],
     normalized_type_cases = [''t''], null_cases = [''n''], ordering_cases = [''o''], failure_cases = [''f''],
     commit_cases = [''c''], rollback_cases = [''r''], test_outcomes = [(''t'', True)], evidence_timestamp = Aware 0\<rparr>"

definition sample_profile_validator :: profile_validator where
  "sample_profile_validator = \<lparr>pv_security_policies = {''s1''}, pv_validation_rules = {''r1''}, pv_models = {''m1''},
     pv_adapters = [((''a'', ''1''), sample_evidence)],
     pv_credentials = [(''ro'', \<lparr>credential_id = ''ro'', effective_operations = {''select''}\<rparr>)]\<rparr>"

definition sample_registry :: configuration_registry where
  "sample_registry = \<lparr>cr_retention = 10, cr_versions = [], cr_active = []\<rparr>"

lemma sample_registry_ok: "registry_ok sha frepr sample_registry"
  by (simp add: registry_ok_def sample_registry_def)

lemma sample_activation:
  "\<exists>ref. fst (activate (\<lambda>t. ''0'') (\<lambda>q. ''f'') sample_profile_validator (Aware 0) ''p'' sample_profile sample_registry) = Inr ref"
proof -
  have "fst (activate (\<lambda>t. ''0'') (\<lambda>q. ''f'') sample_profile_validator (Aware 0) ''p'' sample_profile sample_registry)
      = Inr \<lparr>profile_id = ''p'', version = ''sha256:0''\<rparr>" by code_simp
  then show ?thesis by blast
qed

lemma binding_immutable_witness:
  "\<exists>s ref cfg. registry_bind ref s = Inr cfg
     \<and> registry_bind ref (activate_all (\<lambda>t. ''0'') (\<lambda>q. ''f'')
          [(sample_profile_validator, Aware 9, ''p'', VNone), (sample_profile_validator, Aware 9, ''q'', sample_profile)] s) = Inr cfg"
proof -
  obtain ref s where run: "activate (\<lambda>t. ''0'') (\<lambda>q. ''f'') sample_profile_validator (Aware 0) ''p'' sample_profile sample_registry = (Inr ref, s)"
    using sample_activation by (metis prod.collapse)
  from activate_ok [OF this sample_registry_ok] have ok: "registry_ok (\<lambda>t. ''0'') (\<lambda>q. ''f'') s" ..
  from run obtain cfg where "registry_bind ref s = Inr cfg"
    by (cases rule: activate_cases)
      (auto simp: registry_bind_def stored_version_def store_version_def)
  with binding_immutable [OF ok this] show ?thesis by blast
qed

lemma activation_all_or_nothing_witness:
  "\<exists>ref s'. activate (\<lambda>t. ''0'') (\<lambda>q. ''f'') sample_profile_validator (Aware 0) ''p'' sample_profile sample_registry = (Inr ref, s')
     \<and> active_reference ''p'' s' = Inr ref"
proof -
  obtain ref s' where run: "activate (\<lambda>t. ''0'') (\<lambda>q. ''f'') sample_profile_validator (Aware 0) ''p'' sample_profile sample_registry = (Inr ref, s')"
    using sample_activation by (metis prod.collapse)
  from activation_all_or_nothing [OF sample_registry_ok run] run show ?thesis by auto
qed

lemma digest_order_independent_witness:
  "canonicalize_profile utf8 (\<lambda>q. ''f'') (VDict [(VStr ''b'', VInt 2), (VStr ''a'', VInt 1)])
     = canonicalize_profile utf8 (\<lambda>q. ''f'') (VDict [(VStr ''a'', VInt 1), (VStr ''b'', VInt 2)])"
proof -
  have "\<exists>m d. canonicalize_profile utf8 (\<lambda>q. ''f'') (VDict [(VStr ''a'', VInt 1), (VStr ''b'', VInt 2)]) = Inr (m, d)"
    unfolding canonicalize_profile_Inr by (simp add: canonical_json_def bindR_Inr compact_def)
  then obtain m d where run: "canonicalize_profile utf8 (\<lambda>q. ''f'') (VDict [(VStr ''a'', VInt 1), (VStr ''b'', VInt 2)]) = Inr (m, d)"
    by blast
  show ?thesis unfolding run by (rule digest_order_independent [OF run]) simp_all
qed

end
