(* ===== verification/Tasks.thy ===== *)
theory Tasks
  imports Json Domain Validation
begin

text \<open>
  \<open>tasks/models.py\<close>, \<open>tasks/registry.py\<close> and \<open>tasks/runtime.py\<close>: task definitions,
  invocations, packed requests and prepared tasks; the registry that stores a definition
  under the digest of its content; and the runtime that resolves exactly the definition the
  execution is bound to and checks an invocation against it before anything is packed.
\<close>

declare map_of_eq_Some_iff [simp del]

section \<open>Models\<close>

datatype task_function = AI_CLASSIFY | AI_SUMMARIZE

fun function_value :: "task_function \<Rightarrow> string" where
  "function_value AI_CLASSIFY = ''ai_classify''"
| "function_value AI_SUMMARIZE = ''ai_summarize''"

text \<open>\<open>TaskFunction(text)\<close>.\<close>

definition task_function_of :: "string \<Rightarrow> task_function option" where
  "task_function_of s = (if s = ''ai_classify'' then Some AI_CLASSIFY
     else if s = ''ai_summarize'' then Some AI_SUMMARIZE else None)"

datatype task_stage = TS_DEFINITION | TS_RESOLUTION | TS_INVOCATION | TS_PACKING | TS_PARSING | TS_VALIDATION

fun stage_value :: "task_stage \<Rightarrow> string" where
  "stage_value TS_DEFINITION = ''definition''"
| "stage_value TS_RESOLUTION = ''resolution''"
| "stage_value TS_INVOCATION = ''invocation''"
| "stage_value TS_PACKING = ''packing''"
| "stage_value TS_PARSING = ''parsing''"
| "stage_value TS_VALIDATION = ''validation''"

datatype task_failure_code =
    INVALID_TASK_DEFINITION | TASK_DEFINITION_UNAVAILABLE | TASK_DEFINITION_INCOMPATIBLE
  | INVALID_TASK_INVOCATION | OVERSIZED_ROW | RESPONSE_TOO_LARGE | UNSUPPORTED_REPRESENTATION
  | MALFORMED_STRUCTURED_OUTPUT | OUTPUT_SCHEMA_VIOLATION | EXACT_ROW_MAPPING_VIOLATION
  | LABEL_NOT_ALLOWED | SUMMARY_WORD_LIMIT_EXCEEDED | SUMMARY_CHARACTER_LIMIT_EXCEEDED

fun code_value :: "task_failure_code \<Rightarrow> string" where
  "code_value INVALID_TASK_DEFINITION = ''invalid_task_definition''"
| "code_value TASK_DEFINITION_UNAVAILABLE = ''task_definition_unavailable''"
| "code_value TASK_DEFINITION_INCOMPATIBLE = ''task_definition_incompatible''"
| "code_value INVALID_TASK_INVOCATION = ''invalid_task_invocation''"
| "code_value OVERSIZED_ROW = ''oversized_row''"
| "code_value RESPONSE_TOO_LARGE = ''response_too_large''"
| "code_value UNSUPPORTED_REPRESENTATION = ''unsupported_representation''"
| "code_value MALFORMED_STRUCTURED_OUTPUT = ''malformed_structured_output''"
| "code_value OUTPUT_SCHEMA_VIOLATION = ''output_schema_violation''"
| "code_value EXACT_ROW_MAPPING_VIOLATION = ''exact_row_mapping_violation''"
| "code_value LABEL_NOT_ALLOWED = ''label_not_allowed''"
| "code_value SUMMARY_WORD_LIMIT_EXCEEDED = ''summary_word_limit_exceeded''"
| "code_value SUMMARY_CHARACTER_LIMIT_EXCEEDED = ''summary_character_limit_exceeded''"

record packing_limits =
  pl_max_items :: int
  pl_max_input_tokens :: int
  pl_max_output_tokens :: int
  pl_max_payload_bytes :: int

record summary_limits =
  sl_max_source_characters :: int
  sl_max_words :: int
  sl_max_summary_characters :: int

record task_definition =
  td_function :: task_function
  td_version :: string
  td_prompt_template :: string
  td_parameter_contract :: frozen_mapping
  td_payload_contract :: frozen_mapping
  td_output_schema :: frozen_mapping
  td_required_capabilities :: "string set"
  td_validation_rules_version :: string
  td_packing_limits :: packing_limits
  td_response_size_limit :: int
  td_label_count_limit :: "int option"
  td_label_character_limit :: "int option"
  td_summary_limits :: "summary_limits option"

record row_input =
  ri_identifier :: string
  ri_source_fields :: frozen_mapping

definition RowInput_post :: "row_input \<Rightarrow> row_input res" where
  "RowInput_post r = (if blank (ri_identifier r) then Inl (ValueError ''row identifier must not be blank'') else Inr r)"

record task_invocation =
  tv_function :: task_function
  tv_parameters :: frozen_mapping
  tv_rows :: "row_input list"
  tv_requested_version :: "string option"

definition TaskInvocation_post :: "task_invocation \<Rightarrow> task_invocation res" where
  "TaskInvocation_post v =
     (if tv_rows v = [] then Inl (ValueError ''task invocation requires at least one row'')
      else if \<not> distinct (map ri_identifier (tv_rows v))
      then Inl (ValueError ''task invocation row identifiers must be unique'')
      else if blank_option (tv_requested_version v)
      then Inl (ValueError ''requested task definition version must not be blank'')
      else Inr v)"

record packed_request =
  pk_function :: task_function
  pk_definition_version :: string
  pk_pack_index :: int
  pk_input_ids :: "string list"
  pk_payload :: string
  pk_estimated_input_tokens :: int
  pk_estimated_output_tokens :: int

definition PackedRequest_post :: "packed_request \<Rightarrow> packed_request res" where
  "PackedRequest_post p =
     (if blank (pk_definition_version p) then Inl (ValueError ''packed request definition version must not be blank'')
      else if pk_pack_index p < 0 then Inl (ValueError ''packed request index must be a nonnegative integer'')
      else if pk_input_ids p = [] \<or> list_ex blank (pk_input_ids p)
      then Inl (ValueError ''packed request requires non-blank input identifiers'')
      else if \<not> distinct (pk_input_ids p) then Inl (ValueError ''packed request input identifiers must be unique'')
      else if pk_payload p = [] then Inl (ValueError ''packed request payload must not be empty'')
      else if pk_estimated_input_tokens p < 0 \<or> pk_estimated_output_tokens p < 0
      then Inl (ValueError ''packed request token estimates must be nonnegative integers'')
      else Inr p)"

record prepared_task =
  pt_definition :: task_definition
  pt_invocation :: task_invocation
  pt_packs :: "packed_request list"
  pt_model_work :: "model_work list"

fun check_packs :: "task_definition \<Rightarrow> int \<Rightarrow> packed_request list \<Rightarrow> model_work list \<Rightarrow> unit res" where
  "check_packs d n (p # ps) (w # ws) =
     (if pk_function p \<noteq> td_function d then Inl (ValueError ''prepared task pack function must match its definition'')
      else if pk_definition_version p \<noteq> td_version d
      then Inl (ValueError ''prepared task pack version must match its definition'')
      else if pk_pack_index p \<noteq> n then Inl (ValueError ''prepared task pack indexes must be contiguous from zero'')
      else if task_type w \<noteq> function_value (td_function d) \<or> mw_input_ids w \<noteq> pk_input_ids p
      then Inl (ValueError ''prepared task ModelWork must match its packed request'')
      else check_packs d (n + 1) ps ws)"
| "check_packs d n _ _ = Inr ()"

definition PreparedTask_post :: "prepared_task \<Rightarrow> prepared_task res" where
  "PreparedTask_post t =
     (if td_function (pt_definition t) \<noteq> tv_function (pt_invocation t)
      then Inl (ValueError ''prepared task definition and invocation functions must match'')
      else if pt_packs t = [] then Inl (ValueError ''prepared task requires at least one packed request'')
      else if length (pt_packs t) \<noteq> length (pt_model_work t)
      then Inl (ValueError ''prepared task requires one ModelWork per packed request'')
      else if concat (map pk_input_ids (pt_packs t)) \<noteq> map ri_identifier (tv_rows (pt_invocation t))
      then Inl (ValueError ''prepared task packs must exactly preserve invocation row order'')
      else bindR (check_packs (pt_definition t) 0 (pt_packs t) (pt_model_work t)) (\<lambda>_. Inr t))"

text \<open>A \<open>TaskFailure\<close>; \<open>TaskOutputFailure\<close> adds nothing to it. Its rule identifiers are
  constants of the source, so its checks hold. \<open>details\<close> freezes a dictionary of frozen
  values.\<close>

record task_failure =
  xf_stage :: task_stage
  xf_code :: task_failure_code
  xf_rules :: "string list"
  xf_details :: frozen_mapping

definition details :: "(string \<times> pyval) list \<Rightarrow> frozen_mapping" where
  "details kvs = sort_key fst kvs"

definition failed_task :: "task_stage \<Rightarrow> task_failure_code \<Rightarrow> string list \<Rightarrow> (string \<times> pyval) list \<Rightarrow> task_failure" where
  "failed_task stage code rules kvs = \<lparr>xf_stage = stage, xf_code = code, xf_rules = rules, xf_details = details kvs\<rparr>"

section \<open>Canonical definitions\<close>

text \<open>\<open>_plain\<close>: frozen sets are listed in the order of their texts.\<close>

definition spaced :: "(rat \<Rightarrow> string) \<Rightarrow> json_format" where
  "spaced frepr = \<lparr>jf_ascii = False, jf_sort = True, jf_item = '', '', jf_key = '': '', jf_nan = True, jf_float = frepr\<rparr>"

definition plain_key :: "(rat \<Rightarrow> string) \<Rightarrow> pyval \<Rightarrow> string" where
  "plain_key frepr v = (case dumps (spaced frepr) v of Inr t \<Rightarrow> t | Inl _ \<Rightarrow> [])"

fun plain_content :: "(rat \<Rightarrow> string) \<Rightarrow> pyval \<Rightarrow> pyval res"
and plain_list :: "(rat \<Rightarrow> string) \<Rightarrow> pyval list \<Rightarrow> pyval list res"
and plain_items :: "(rat \<Rightarrow> string) \<Rightarrow> (string \<times> pyval) list \<Rightarrow> (pyval \<times> pyval) list res" where
  "plain_content frepr (VFrozen m) = bindR (plain_items frepr m) (\<lambda>kvs. Inr (VDict kvs))"
| "plain_content frepr (VTuple xs) = bindR (plain_list frepr xs) (\<lambda>ys. Inr (VList ys))"
| "plain_content frepr (VFrozenset xs) = bindR (plain_list frepr xs) (\<lambda>ys. Inr (VList (sort_key (plain_key frepr) ys)))"
| "plain_content frepr (VFloat x) =
     (case x of Finite q \<Rightarrow> Inr (VFloat x) | _ \<Rightarrow> Inl (ValueError ''canonical task definitions require finite numbers''))"
| "plain_content frepr VNone = Inr VNone"
| "plain_content frepr (VBool b) = Inr (VBool b)"
| "plain_content frepr (VInt i) = Inr (VInt i)"
| "plain_content frepr (VStr s) = Inr (VStr s)"
| "plain_content frepr v = Inl (TypeError (''unsupported canonical task-definition value: '' @ class_name v))"
| "plain_list frepr [] = Inr []"
| "plain_list frepr (x # xs) = bindR (plain_content frepr x) (\<lambda>y. bindR (plain_list frepr xs) (\<lambda>ys. Inr (y # ys)))"
| "plain_items frepr [] = Inr []"
| "plain_items frepr ((k, v) # m) =
     bindR (plain_content frepr v) (\<lambda>w. bindR (plain_items frepr m) (\<lambda>ws. Inr ((VStr k, w) # ws)))"

definition optional_int :: "int option \<Rightarrow> pyval" where
  "optional_int v = (case v of None \<Rightarrow> VNone | Some i \<Rightarrow> VInt i)"

definition definition_content :: "(rat \<Rightarrow> string) \<Rightarrow> task_definition \<Rightarrow> pyval res" where
  "definition_content frepr d =
     bindR (plain_content frepr (VFrozen (td_parameter_contract d))) (\<lambda>params.
     bindR (plain_content frepr (VFrozen (td_payload_contract d))) (\<lambda>payload.
     bindR (plain_content frepr (VFrozen (td_output_schema d))) (\<lambda>schema.
       Inr (VDict [
         (VStr ''function'', VStr (function_value (td_function d))),
         (VStr ''prompt_template'', VStr (td_prompt_template d)),
         (VStr ''parameter_contract'', params), (VStr ''payload_contract'', payload), (VStr ''output_schema'', schema),
         (VStr ''required_capabilities'', VList (map VStr (sorted_list_of_set (td_required_capabilities d)))),
         (VStr ''validation_rules_version'', VStr (td_validation_rules_version d)),
         (VStr ''packing_limits'', VDict [
            (VStr ''max_items'', VInt (pl_max_items (td_packing_limits d))),
            (VStr ''max_input_tokens'', VInt (pl_max_input_tokens (td_packing_limits d))),
            (VStr ''max_output_tokens'', VInt (pl_max_output_tokens (td_packing_limits d))),
            (VStr ''max_payload_bytes'', VInt (pl_max_payload_bytes (td_packing_limits d)))]),
         (VStr ''response_size_limit'', VInt (td_response_size_limit d)),
         (VStr ''label_count_limit'', optional_int (td_label_count_limit d)),
         (VStr ''label_character_limit'', optional_int (td_label_character_limit d)),
         (VStr ''summary_limits'', case td_summary_limits d of None \<Rightarrow> VNone
            | Some l \<Rightarrow> VDict [(VStr ''max_source_characters'', VInt (sl_max_source_characters l)),
                (VStr ''max_words'', VInt (sl_max_words l)),
                (VStr ''max_summary_characters'', VInt (sl_max_summary_characters l))])]))))"

definition canonical_definition_bytes :: "(rat \<Rightarrow> string) \<Rightarrow> task_definition \<Rightarrow> string res" where
  "canonical_definition_bytes frepr d =
     bindR (definition_content frepr d) (\<lambda>c. bindR (dumps (compact False False frepr) c) (\<lambda>t. Inr (utf8 t)))"


section \<open>The registry of definitions\<close>

text \<open>One rule: its identifier is reported when the condition does not hold.\<close>

definition demand :: "bool \<Rightarrow> string \<Rightarrow> string list" where
  "demand b rid = (if b then [] else [rid])"

definition optional_positive :: "int option \<Rightarrow> bool" where
  "optional_positive v = (case v of None \<Rightarrow> False | Some n \<Rightarrow> 0 < n)"

definition validate_definition :: "task_definition \<Rightarrow> rules_registry \<Rightarrow> string list" where
  "validate_definition d rules =
     demand (\<not> blank (td_prompt_template d)) ''task_definition.prompt_template''
     @ demand (td_parameter_contract d \<noteq> []) ''task_definition.parameter_contract''
     @ demand (td_payload_contract d \<noteq> []) ''task_definition.payload_contract''
     @ demand (td_output_schema d \<noteq> []) ''task_definition.output_schema''
     @ demand (td_required_capabilities d \<noteq> {} \<and> (\<forall>c \<in> td_required_capabilities d. \<not> blank c))
         ''task_definition.required_capabilities''
     @ (if blank (td_validation_rules_version d) then [''task_definition.validation_rules_version'']
        else demand (rules_resolve (Some (td_validation_rules_version d)) rules \<noteq> None)
          ''task_definition.validation_rules_unavailable'')
     @ demand (0 < pl_max_items (td_packing_limits d)) ''task_definition.packing_limits.max_items''
     @ demand (0 < pl_max_input_tokens (td_packing_limits d)) ''task_definition.packing_limits.max_input_tokens''
     @ demand (0 < pl_max_output_tokens (td_packing_limits d)) ''task_definition.packing_limits.max_output_tokens''
     @ demand (0 < pl_max_payload_bytes (td_packing_limits d)) ''task_definition.packing_limits.max_payload_bytes''
     @ demand (0 < td_response_size_limit d) ''task_definition.response_size_limit''
     @ (case td_function d of
          AI_CLASSIFY \<Rightarrow>
            demand (optional_positive (td_label_count_limit d)) ''task_definition.label_count_limit''
            @ demand (optional_positive (td_label_character_limit d)) ''task_definition.label_character_limit''
            @ demand (td_summary_limits d = None) ''task_definition.summary_limits''
        | AI_SUMMARIZE \<Rightarrow>
            demand (td_label_count_limit d = None) ''task_definition.label_count_limit''
            @ demand (td_label_character_limit d = None) ''task_definition.label_character_limit''
            @ (case td_summary_limits d of
                 None \<Rightarrow> [''task_definition.summary_limits'']
               | Some l \<Rightarrow>
                   demand (0 < sl_max_source_characters l) ''task_definition.summary_limits.max_source_characters''
                   @ demand (0 < sl_max_words l) ''task_definition.summary_limits.max_words''
                   @ demand (0 < sl_max_summary_characters l) ''task_definition.summary_limits.max_summary_characters''))"

record task_registry =
  tr_definitions :: "(task_function \<times> string, task_definition) dict"
  tr_canonical :: "(string, string) dict"

definition version_failures :: "(string \<Rightarrow> string) \<Rightarrow> task_definition \<Rightarrow> string option \<Rightarrow> task_registry \<Rightarrow> string list" where
  "version_failures sha d canonical reg =
     demand (canonical \<noteq> None) ''task_definition.canonical_content''
     @ (case canonical of None \<Rightarrow> []
        | Some c \<Rightarrow> demand (td_version d = [] \<or> td_version d = sha c) ''task_definition.version'')
     @ demand (td_version d = [] \<or> (case dget (tr_canonical reg) (td_version d) of None \<Rightarrow> True | Some c \<Rightarrow> Some c = canonical))
         ''task_definition.version_immutable''"

text \<open>\<open>canonical_definition_bytes\<close> raises nothing but \<open>TypeError\<close> and \<open>ValueError\<close>.\<close>

definition register_task ::
    "(string \<Rightarrow> string) \<Rightarrow> (rat \<Rightarrow> string) \<Rightarrow> rules_registry \<Rightarrow> task_definition \<Rightarrow> (task_registry, task_definition) meth" where
  "register_task sha frepr rules d reg =
     (let canonical = (case canonical_definition_bytes frepr d of Inl _ \<Rightarrow> None | Inr c \<Rightarrow> Some c);
          failed = validate_definition d rules @ version_failures sha d canonical reg in
      if failed \<noteq> [] then (Inl (TaskDefinitionValidationError (fromkeys failed)), reg)
      else (case canonical of
          None \<Rightarrow> (Inl (AssertionError []), reg)
        | Some c \<Rightarrow>
            if (case dget (tr_canonical reg) (sha c) of None \<Rightarrow> False | Some c' \<Rightarrow> c' \<noteq> c)
            then (Inl (TaskDefinitionValidationError [''task_definition.version_immutable'']), reg)
            else (case dget (tr_definitions reg) (td_function d, sha c) of
                Some existing \<Rightarrow> (Inr existing, reg)
              | None \<Rightarrow> (Inr (d\<lparr>td_version := sha c\<rparr>),
                  reg\<lparr>tr_canonical := dset (sha c) c (tr_canonical reg),
                      tr_definitions := dset (td_function d, sha c) (d\<lparr>td_version := sha c\<rparr>) (tr_definitions reg)\<rparr>))))"

definition resolve_task :: "task_registry \<Rightarrow> task_function \<Rightarrow> string \<Rightarrow> task_definition option" where
  "resolve_task reg f v = (if v = [] then None else dget (tr_definitions reg) (f, v))"

definition registered_definitions :: "task_registry \<Rightarrow> task_definition list" where
  "registered_definitions reg = map snd (sort_key (\<lambda>p. (function_value (fst (fst p)), snd (fst p))) (tr_definitions reg))"

text \<open>\<open>task_output_schema\<close> and the contracts of the seeds, as \<open>freeze\<close> leaves them.\<close>

definition task_output_schema :: "task_function \<Rightarrow> frozen_mapping" where
  "task_output_schema f =
     (let field = (case f of AI_CLASSIFY \<Rightarrow> ''label'' | AI_SUMMARIZE \<Rightarrow> ''summary'') in
      [(''items'', VFrozen [(''additionalProperties'', VBool False),
          (''properties'', VFrozen [(''id'', VFrozen [(''type'', VStr ''string'')]), (field, VFrozen [(''type'', VStr ''string'')])]),
          (''required'', VTuple [VStr ''id'', VStr field]),
          (''type'', VStr ''object'')]),
       (''type'', VStr ''array'')])"

definition object_contract :: "string list \<Rightarrow> frozen_mapping" where
  "object_contract required = [(''required'', VTuple (map VStr required)), (''type'', VStr ''object'')]"

definition seed_definition :: "task_function \<Rightarrow> string \<Rightarrow> task_definition" where
  "seed_definition f rules_version = \<lparr>td_function = f, td_version = [],
     td_prompt_template = (case f of AI_CLASSIFY \<Rightarrow> ''Classify each row using exactly one allowed label.''
       | AI_SUMMARIZE \<Rightarrow> ''Summarize each row within the requested word limit.''),
     td_parameter_contract = object_contract [case f of AI_CLASSIFY \<Rightarrow> ''labels'' | AI_SUMMARIZE \<Rightarrow> ''max_words''],
     td_payload_contract = object_contract [''task'', ''definition_version'', ''instructions'', ''parameters'', ''rows'', ''output_schema''],
     td_output_schema = task_output_schema f,
     td_required_capabilities = {function_value f}, td_validation_rules_version = rules_version,
     td_packing_limits = \<lparr>pl_max_items = 100, pl_max_input_tokens = 16384,
       pl_max_output_tokens = (case f of AI_CLASSIFY \<Rightarrow> 4096 | AI_SUMMARIZE \<Rightarrow> 8192), pl_max_payload_bytes = 1048576\<rparr>,
     td_response_size_limit = 1048576,
     td_label_count_limit = (case f of AI_CLASSIFY \<Rightarrow> Some 100 | AI_SUMMARIZE \<Rightarrow> None),
     td_label_character_limit = (case f of AI_CLASSIFY \<Rightarrow> Some 256 | AI_SUMMARIZE \<Rightarrow> None),
     td_summary_limits = (case f of AI_CLASSIFY \<Rightarrow> None
       | AI_SUMMARIZE \<Rightarrow> Some \<lparr>sl_max_source_characters = 100000, sl_max_words = 2000, sl_max_summary_characters = 20000\<rparr>)\<rparr>"

definition empty_registry :: task_registry where
  "empty_registry = \<lparr>tr_definitions = [], tr_canonical = []\<rparr>"

definition seeded_registry ::
    "(string \<Rightarrow> string) \<Rightarrow> (rat \<Rightarrow> string) \<Rightarrow> rules_registry \<Rightarrow> string \<Rightarrow> task_registry res" where
  "seeded_registry sha frepr rules rules_version =
     (case bindM (register_task sha frepr rules (seed_definition AI_CLASSIFY rules_version))
        (\<lambda>_. register_task sha frepr rules (seed_definition AI_SUMMARIZE rules_version)) empty_registry of
        (Inl e, _) \<Rightarrow> Inl e
      | (Inr _, reg) \<Rightarrow> Inr reg)"

section \<open>Resolution\<close>

record resolved_task =
  rt_definition :: task_definition
  rt_invocation :: task_invocation

definition ResolvedTask_post :: "resolved_task \<Rightarrow> resolved_task res" where
  "ResolvedTask_post r =
     (if td_function (rt_definition r) \<noteq> tv_function (rt_invocation r)
      then Inl (ValueError ''resolved task definition and invocation functions must match'')
      else Inr r)"

text \<open>A step of the runtime raises, fails with a \<open>TaskFailure\<close>, or returns.\<close>

type_synonym 'a attempt = "(task_failure + 'a) res"

definition attempt :: "'a res \<Rightarrow> 'a attempt" where
  "attempt r = bindR r (\<lambda>x. Inr (Inr x))"

definition resolution_failure ::
    "task_failure_code \<Rightarrow> string \<Rightarrow> string \<Rightarrow> task_function \<Rightarrow> string option \<Rightarrow> string option \<Rightarrow> task_failure" where
  "resolution_failure code rid reason f bound requested =
     failed_task TS_RESOLUTION code [rid]
       ([(''function'', VStr (function_value f)), (''reason'', VStr reason)]
        @ (case bound of None \<Rightarrow> [] | Some v \<Rightarrow> [(''bound_version'', VStr v)])
        @ (case requested of None \<Rightarrow> [] | Some v \<Rightarrow> [(''requested_version'', VStr v)]))"

definition bound_definition :: "task_registry \<Rightarrow> task_invocation \<Rightarrow> string \<Rightarrow> resolved_task attempt" where
  "bound_definition reg v bound =
     (if (case tv_requested_version v of Some requested \<Rightarrow> requested \<noteq> bound | None \<Rightarrow> False)
      then Inr (Inl (resolution_failure TASK_DEFINITION_INCOMPATIBLE ''task_definition.requested_version''
          ''requested_version_mismatch'' (tv_function v) (Some bound) (tv_requested_version v)))
      else (case resolve_task reg (tv_function v) bound of
          None \<Rightarrow> Inr (Inl (resolution_failure TASK_DEFINITION_UNAVAILABLE ''task_definition.available''
            ''definition_unavailable'' (tv_function v) (Some bound) None))
        | Some d \<Rightarrow>
            if td_function d \<noteq> tv_function v \<or> td_version d \<noteq> bound
            then Inr (Inl (resolution_failure TASK_DEFINITION_INCOMPATIBLE ''task_definition.compatible''
              ''resolved_definition_mismatch'' (tv_function v) (Some bound) None))
            else attempt (ResolvedTask_post \<lparr>rt_definition = d, rt_invocation = v\<rparr>)))"


definition resolve_invocation :: "task_registry \<Rightarrow> task_invocation \<Rightarrow> execution_context \<Rightarrow> resolved_task attempt" where
  "resolve_invocation reg v ctx =
     (let fails = (\<lambda>reason. Inr (Inl (resolution_failure TASK_DEFINITION_UNAVAILABLE ''task_definition.binding'' reason
            (tv_function v) None None))) in
      case fm_get (content (ctx_configuration ctx)) ''task_definitions'' of
        None \<Rightarrow> fails ''binding_missing''
      | Some (VFrozen bindings) \<Rightarrow>
          (case fm_get bindings (function_value (tv_function v)) of
             None \<Rightarrow> fails ''binding_missing''
           | Some VNone \<Rightarrow> fails ''binding_missing''
           | Some (VStr bound) \<Rightarrow> if blank bound then fails ''binding_malformed'' else bound_definition reg v bound
           | Some _ \<Rightarrow> fails ''binding_malformed'')
      | Some _ \<Rightarrow> fails ''binding_malformed'')"

section \<open>Checking an invocation against its definition\<close>

definition invocation_failure :: "string list \<Rightarrow> string \<Rightarrow> task_function \<Rightarrow> task_failure" where
  "invocation_failure rules reason f = failed_task TS_INVOCATION INVALID_TASK_INVOCATION (fromkeys rules)
     [(''function'', VStr (function_value f)), (''reason'', VStr reason)]"

text \<open>Labels are frozen values: \<open>len(labels) != len(set(labels))\<close> finds two that are equal.\<close>

fun py_distinct :: "pyval list \<Rightarrow> bool" where
  "py_distinct [] = True"
| "py_distinct (x # xs) = (\<not> py_member x xs \<and> py_distinct xs)"

fun nonblank_label :: "pyval \<Rightarrow> bool" where
  "nonblank_label (VStr s) = (\<not> blank s)"
| "nonblank_label _ = False"

fun label_longer :: "int \<Rightarrow> pyval \<Rightarrow> bool" where
  "label_longer n (VStr s) = (n < int (length s))"
| "label_longer n _ = False"

definition label_failures :: "task_definition \<Rightarrow> pyval option \<Rightarrow> string list" where
  "label_failures d labels = (case labels of
     Some (VTuple (l # ls)) \<Rightarrow>
       demand (list_all nonblank_label (l # ls)) ''task_invocation.classify.labels.nonblank''
       @ demand (py_distinct (l # ls)) ''task_invocation.classify.labels.unique''
       @ demand (case td_label_count_limit d of None \<Rightarrow> False | Some n \<Rightarrow> int (length (l # ls)) \<le> n)
           ''task_invocation.classify.labels.count_limit''
       @ demand (case td_label_character_limit d of None \<Rightarrow> False | Some n \<Rightarrow> \<not> list_ex (label_longer n) (l # ls))
           ''task_invocation.classify.labels.character_limit''
   | _ \<Rightarrow> [''task_invocation.classify.labels.nonempty''])"

definition renewed :: "task_definition \<Rightarrow> task_invocation \<Rightarrow> resolved_task attempt" where
  "renewed d v = attempt (bindR (TaskInvocation_post v) (\<lambda>v. ResolvedTask_post \<lparr>rt_definition = d, rt_invocation = v\<rparr>))"

definition validate_classify :: "task_definition \<Rightarrow> task_invocation \<Rightarrow> resolved_task attempt" where
  "validate_classify d v =
     (let labels = fm_get (tv_parameters v) ''labels'';
          failed = label_failures d labels
            @ demand (set (map fst (tv_parameters v)) = {''labels''}) ''task_invocation.classify.parameters.exact'' in
      if failed \<noteq> [] then Inr (Inl (invocation_failure failed ''invalid_labels'' (tv_function v)))
      else bindR (freeze (the labels)) (\<lambda>ls. renewed d (v\<lparr>tv_parameters := [(''labels'', ls)]\<rparr>)))"

definition word_failures :: "task_definition \<Rightarrow> pyval option \<Rightarrow> string list" where
  "word_failures d max_words = (case max_words of
     Some (VInt n) \<Rightarrow>
       if n \<le> 0 then [''task_invocation.summarize.max_words.positive_integer'']
       else demand (case td_summary_limits d of None \<Rightarrow> False | Some l \<Rightarrow> n \<le> sl_max_words l)
         ''task_invocation.summarize.max_words.limit''
   | _ \<Rightarrow> [''task_invocation.summarize.max_words.positive_integer''])"

text \<open>The loop over the rows; a row that is not exactly one text is skipped.\<close>

fun source_rows :: "task_definition \<Rightarrow> row_input list \<Rightarrow> string list \<times> row_input list" where
  "source_rows d [] = ([], [])"
| "source_rows d (r # rs) =
     (let rest = source_rows d rs in
      case fm_get (ri_source_fields r) ''text'' of
        Some (VStr t) \<Rightarrow>
          if set (map fst (ri_source_fields r)) \<noteq> {''text''}
          then (''task_invocation.summarize.source_text.string'' # fst rest, snd rest)
          else (demand (case td_summary_limits d of None \<Rightarrow> False | Some l \<Rightarrow> int (length t) \<le> sl_max_source_characters l)
                  ''task_invocation.summarize.source_text.character_limit'' @ fst rest,
                r\<lparr>ri_source_fields := [(''text'', VStr t)]\<rparr> # snd rest)
      | _ \<Rightarrow> (''task_invocation.summarize.source_text.string'' # fst rest, snd rest))"

definition validate_summarize :: "task_definition \<Rightarrow> task_invocation \<Rightarrow> resolved_task attempt" where
  "validate_summarize d v =
     (let max_words = fm_get (tv_parameters v) ''max_words'';
          rows = source_rows d (tv_rows v);
          failed = word_failures d max_words
            @ demand (set (map fst (tv_parameters v)) = {''max_words''}) ''task_invocation.summarize.parameters.exact''
            @ fst rows in
      if failed \<noteq> [] then Inr (Inl (invocation_failure failed ''invalid_summary_invocation'' (tv_function v)))
      else renewed d (v\<lparr>tv_parameters := [(''max_words'', the max_words)], tv_rows := snd rows\<rparr>))"

definition validate_task_invocation :: "resolved_task \<Rightarrow> resolved_task attempt" where
  "validate_task_invocation r =
     (let d = rt_definition r; v = rt_invocation r in
      if \<not> py_eq_entries (td_output_schema d) (task_output_schema (tv_function v))
      then Inr (Inl (invocation_failure [''task_invocation.output_schema.exact''] ''incompatible_output_schema'' (tv_function v)))
      else case tv_function v of AI_CLASSIFY \<Rightarrow> validate_classify d v | AI_SUMMARIZE \<Rightarrow> validate_summarize d v)"

text \<open>\<open>TaskRuntime.prepare\<close>; \<open>preparer\<close> is the packing step.\<close>

definition task_prepare ::
    "task_registry \<Rightarrow> (resolved_task \<Rightarrow> ('s, task_failure + 'p) meth) \<Rightarrow> task_invocation \<Rightarrow> execution_context
     \<Rightarrow> ('s, task_failure + 'p) meth" where
  "task_prepare reg preparer v ctx =
     bindM (liftR (resolve_invocation reg v ctx)) (\<lambda>resolved. case resolved of
        Inl f \<Rightarrow> pureM (Inl f)
      | Inr r \<Rightarrow> bindM (liftR (validate_task_invocation r)) (\<lambda>validated. case validated of
            Inl f \<Rightarrow> pureM (Inl f)
          | Inr r \<Rightarrow> preparer r))"


section \<open>What an invocation must be\<close>

lemma demand_Nil [simp]: "demand b rid = [] \<longleftrightarrow> b"
  by (simp add: demand_def)

definition labels_ok :: "task_definition \<Rightarrow> string list \<Rightarrow> bool" where
  "labels_ok d ls \<longleftrightarrow> ls \<noteq> [] \<and> distinct ls \<and> \<not> list_ex blank ls
     \<and> (\<exists>n. td_label_count_limit d = Some n \<and> int (length ls) \<le> n)
     \<and> (\<exists>n. td_label_character_limit d = Some n \<and> (\<forall>l \<in> set ls. int (length l) \<le> n))"

definition row_text :: "row_input \<Rightarrow> string" where
  "row_text r = (case fm_get (ri_source_fields r) ''text'' of Some (VStr t) \<Rightarrow> t | _ \<Rightarrow> [])"

definition row_ok :: "task_definition \<Rightarrow> row_input \<Rightarrow> bool" where
  "row_ok d r \<longleftrightarrow> set (map fst (ri_source_fields r)) = {''text''} \<and> fm_get (ri_source_fields r) ''text'' = Some (VStr (row_text r))
     \<and> (\<exists>l. td_summary_limits d = Some l \<and> int (length (row_text r)) \<le> sl_max_source_characters l)"

definition text_row :: "row_input \<Rightarrow> row_input" where
  "text_row r = r\<lparr>ri_source_fields := [(''text'', VStr (row_text r))]\<rparr>"

text \<open>The invocation that is packed: its parameters and, for a summary, its rows reduced to
  what the contract names.\<close>

fun accepts :: "task_definition \<Rightarrow> task_invocation \<Rightarrow> task_invocation \<Rightarrow> bool" where
  "accepts d v w \<longleftrightarrow> py_eq_entries (td_output_schema d) (task_output_schema (tv_function v))
     \<and> (case tv_function v of
          AI_CLASSIFY \<Rightarrow> (\<exists>ls. labels_ok d ls \<and> set (map fst (tv_parameters v)) = {''labels''}
            \<and> fm_get (tv_parameters v) ''labels'' = Some (VTuple (map VStr ls))
            \<and> w = v\<lparr>tv_parameters := [(''labels'', VTuple (map VStr ls))]\<rparr>)
        | AI_SUMMARIZE \<Rightarrow> (\<exists>n l. 0 < n \<and> td_summary_limits d = Some l \<and> n \<le> sl_max_words l
            \<and> set (map fst (tv_parameters v)) = {''max_words''} \<and> fm_get (tv_parameters v) ''max_words'' = Some (VInt n)
            \<and> list_all (row_ok d) (tv_rows v)
            \<and> w = v\<lparr>tv_parameters := [(''max_words'', VInt n)], tv_rows := map text_row (tv_rows v)\<rparr>))"

declare accepts.simps [simp del]

lemma py_member_str [simp]: "py_member (VStr s) (map VStr ls) \<longleftrightarrow> s \<in> set ls"
  by (induction ls) auto

lemma py_distinct_str [simp]: "py_distinct (map VStr ls) \<longleftrightarrow> distinct ls"
  by (induction ls) auto

lemma nonblank_labels: "list_all nonblank_label xs \<longleftrightarrow> (\<exists>ls. xs = map VStr ls \<and> \<not> list_ex blank ls)"
proof (induction xs)
  case (Cons x xs)
  then show ?case
    by (cases x) (auto simp: Cons_eq_map_conv)
qed auto

lemma label_longer_str [simp]: "list_ex (label_longer n) (map VStr ls) \<longleftrightarrow> (\<exists>l \<in> set ls. n < int (length l))"
  by (induction ls) auto

lemma label_failures_tuple:
  "label_failures d (Some (VTuple xs)) = [] \<longleftrightarrow> xs \<noteq> [] \<and> list_all nonblank_label xs \<and> py_distinct xs
     \<and> (\<exists>n. td_label_count_limit d = Some n \<and> int (length xs) \<le> n)
     \<and> (\<exists>n. td_label_character_limit d = Some n \<and> \<not> list_ex (label_longer n) xs)"
  by (cases xs) (simp_all add: label_failures_def split: option.splits)

lemma label_failures_strs: "label_failures d (Some (VTuple (map VStr ls))) = [] \<longleftrightarrow> labels_ok d ls"
proof -
  have "list_all nonblank_label (map VStr ls) \<longleftrightarrow> \<not> list_ex blank ls" by (induction ls) auto
  then show ?thesis by (simp add: label_failures_tuple labels_ok_def not_less) blast
qed

lemma label_failures_Nil:
  "label_failures d labels = [] \<longleftrightarrow> (\<exists>ls. labels = Some (VTuple (map VStr ls)) \<and> labels_ok d ls)"
proof
  assume none: "label_failures d labels = []"
  then obtain xs where xs: "labels = Some (VTuple xs)"
    by (auto simp: label_failures_def split: option.splits pyval.splits)
  with none have "list_all nonblank_label xs" by (simp add: label_failures_tuple)
  from iffD1 [OF nonblank_labels this] obtain ls where "xs = map VStr ls" by blast
  with none xs show "\<exists>ls. labels = Some (VTuple (map VStr ls)) \<and> labels_ok d ls"
    by (auto simp: label_failures_strs)
qed (auto simp: label_failures_strs)

lemma freeze_labels [simp]: "freeze_list (map VStr ls) = Inr (map VStr ls)"
  by (induction ls) auto

lemma word_failures_Nil:
  "word_failures d mw = [] \<longleftrightarrow> (\<exists>n l. mw = Some (VInt n) \<and> 0 < n \<and> td_summary_limits d = Some l \<and> n \<le> sl_max_words l)"
  by (auto simp: word_failures_def split: option.splits pyval.splits)

lemma source_rows_ok:
  "(fst (source_rows d rs) = [] \<longleftrightarrow> list_all (row_ok d) rs)
     \<and> (list_all (row_ok d) rs \<longrightarrow> snd (source_rows d rs) = map text_row rs)"
proof (induction rs)
  case (Cons r rs)
  show ?case
  proof (cases "\<exists>t. fm_get (ri_source_fields r) ''text'' = Some (VStr t)")
    case True
    then obtain t where t: "fm_get (ri_source_fields r) ''text'' = Some (VStr t)" by blast
    then have "row_text r = t" by (simp add: row_text_def)
    with t Cons show ?thesis
      by (cases "td_summary_limits d") (simp_all add: row_ok_def text_row_def Let_def)
  next
    case False
    then have "fst (source_rows d (r # rs)) = ''task_invocation.summarize.source_text.string'' # fst (source_rows d rs)"
      by (auto simp: Let_def split: option.splits pyval.splits)
    moreover have "\<not> row_ok d r" using False by (auto simp: row_ok_def)
    ultimately show ?thesis by simp
  qed
qed simp

lemma TaskInvocation_post_Inr [simp]:
  "TaskInvocation_post v = Inr w \<longleftrightarrow> w = v \<and> tv_rows v \<noteq> [] \<and> distinct (map ri_identifier (tv_rows v))
     \<and> \<not> blank_option (tv_requested_version v)"
  by (auto simp: TaskInvocation_post_def)

lemma renewed_same:
  assumes "TaskInvocation_post v = Inr v" and "td_function d = tv_function v"
    and "tv_function w = tv_function v" and "map ri_identifier (tv_rows w) = map ri_identifier (tv_rows v)"
    and "tv_requested_version w = tv_requested_version v"
  shows "renewed d w = Inr (Inr \<lparr>rt_definition = d, rt_invocation = w\<rparr>)"
proof -
  from assms have "TaskInvocation_post w = Inr w" by (metis TaskInvocation_post_Inr map_is_Nil_conv)
  with assms(2,3) show ?thesis by (simp add: renewed_def attempt_def bindR_def ResolvedTask_post_def del: TaskInvocation_post_Inr)
qed

lemma validate_decides:
  assumes "TaskInvocation_post v = Inr v" and "td_function d = tv_function v"
  shows "(\<exists>f. validate_task_invocation \<lparr>rt_definition = d, rt_invocation = v\<rparr> = Inr (Inl f)
        \<and> xf_stage f = TS_INVOCATION \<and> xf_code f = INVALID_TASK_INVOCATION \<and> \<not> (\<exists>w. accepts d v w))
    \<or> (\<exists>w. validate_task_invocation \<lparr>rt_definition = d, rt_invocation = v\<rparr> = Inr (Inr \<lparr>rt_definition = d, rt_invocation = w\<rparr>)
        \<and> accepts d v w)"
proof (cases "py_eq_entries (td_output_schema d) (task_output_schema (tv_function v))")
  case False
  then show ?thesis by (simp add: validate_task_invocation_def accepts.simps invocation_failure_def failed_task_def)
next
  case schema: True
  show ?thesis
  proof (cases "tv_function v")
    case AI_CLASSIFY
    show ?thesis
    proof (cases "label_failures d (fm_get (tv_parameters v) ''labels'') = [] \<and> set (map fst (tv_parameters v)) = {''labels''}")
      case True
      then obtain ls where ls: "fm_get (tv_parameters v) ''labels'' = Some (VTuple (map VStr ls))" "labels_ok d ls"
        unfolding label_failures_Nil by blast
      let ?w = "v\<lparr>tv_parameters := [(''labels'', VTuple (map VStr ls))]\<rparr>"
      have "renewed d ?w = Inr (Inr \<lparr>rt_definition = d, rt_invocation = ?w\<rparr>)" by (rule renewed_same [OF assms]) simp_all
      with True ls schema AI_CLASSIFY have "validate_task_invocation \<lparr>rt_definition = d, rt_invocation = v\<rparr>
          = Inr (Inr \<lparr>rt_definition = d, rt_invocation = ?w\<rparr>)"
        by (simp add: validate_task_invocation_def validate_classify_def bindR_def)
      moreover have "accepts d v ?w" using True ls schema AI_CLASSIFY by (auto simp: accepts.simps)
      ultimately show ?thesis by blast
    next
      case False
      then have "\<not> (\<exists>w. accepts d v w)" using AI_CLASSIFY by (auto simp: accepts.simps label_failures_Nil)
      with False schema AI_CLASSIFY show ?thesis
        by (auto simp: validate_task_invocation_def validate_classify_def Let_def invocation_failure_def failed_task_def)
    qed
  next
    case AI_SUMMARIZE
    show ?thesis
    proof (cases "word_failures d (fm_get (tv_parameters v) ''max_words'') = [] \<and> set (map fst (tv_parameters v)) = {''max_words''}
        \<and> list_all (row_ok d) (tv_rows v)")
      case True
      then obtain n l where n: "fm_get (tv_parameters v) ''max_words'' = Some (VInt n)" "0 < n"
          "td_summary_limits d = Some l" "n \<le> sl_max_words l"
        unfolding word_failures_Nil by blast
      let ?w = "v\<lparr>tv_parameters := [(''max_words'', VInt n)], tv_rows := map text_row (tv_rows v)\<rparr>"
      have "renewed d ?w = Inr (Inr \<lparr>rt_definition = d, rt_invocation = ?w\<rparr>)"
        by (rule renewed_same [OF assms]) (simp_all add: text_row_def)
      with True n schema AI_SUMMARIZE source_rows_ok [of d "tv_rows v"]
      have "validate_task_invocation \<lparr>rt_definition = d, rt_invocation = v\<rparr>
          = Inr (Inr \<lparr>rt_definition = d, rt_invocation = ?w\<rparr>)"
        by (simp add: validate_task_invocation_def validate_summarize_def Let_def)
      moreover have "accepts d v ?w" using True n schema AI_SUMMARIZE by (auto simp: accepts.simps)
      ultimately show ?thesis by blast
    next
      case False
      then have "\<not> (\<exists>w. accepts d v w)" using AI_SUMMARIZE by (auto simp: accepts.simps word_failures_Nil)
      with False schema AI_SUMMARIZE source_rows_ok [of d "tv_rows v"] show ?thesis
        by (auto simp: validate_task_invocation_def validate_summarize_def Let_def invocation_failure_def failed_task_def)
    qed
  qed
qed


section \<open>What the registry keeps\<close>

lemma canonical_ignores_version [simp]:
  "canonical_definition_bytes frepr (d\<lparr>td_version := x\<rparr>) = canonical_definition_bytes frepr d"
  by (simp add: canonical_definition_bytes_def definition_content_def)

definition filed :: "(string \<Rightarrow> string) \<Rightarrow> (rat \<Rightarrow> string) \<Rightarrow> (string, string) dict \<Rightarrow> task_function \<times> string \<Rightarrow> task_definition \<Rightarrow> bool" where
  "filed sha frepr canonical key d \<longleftrightarrow> key = (td_function d, td_version d)
     \<and> (\<exists>c. canonical_definition_bytes frepr d = Inr c \<and> td_version d = sha c \<and> dget canonical (td_version d) = Some c)"

definition task_registry_ok :: "(string \<Rightarrow> string) \<Rightarrow> (rat \<Rightarrow> string) \<Rightarrow> task_registry \<Rightarrow> bool" where
  "task_registry_ok sha frepr reg \<longleftrightarrow>
     (\<forall>key d. dget (tr_definitions reg) key = Some d \<longrightarrow> filed sha frepr (tr_canonical reg) key d)"

lemma empty_registry_ok [simp]: "task_registry_ok sha frepr empty_registry"
  by (simp add: task_registry_ok_def empty_registry_def)

text \<open>A registration is refused and changes nothing, finds the definition stored, or stores
  it under the digest of its content.\<close>

lemma register_cases [consumes 1, case_names refused known fresh]:
  assumes "register_task sha frepr rules d reg = (r, reg')"
  obtains (refused) e where "r = Inl e" "reg' = reg"
  | (known) c d' where "r = Inr d'" "reg' = reg" "validate_definition d rules = []" "canonical_definition_bytes frepr d = Inr c"
      "dget (tr_definitions reg) (td_function d, sha c) = Some d'"
  | (fresh) c where "r = Inr (d\<lparr>td_version := sha c\<rparr>)" "validate_definition d rules = []"
      "canonical_definition_bytes frepr d = Inr c" "dget (tr_definitions reg) (td_function d, sha c) = None"
      "dget (tr_canonical reg) (sha c) \<in> {None, Some c}"
      "tr_canonical reg' = dset (sha c) c (tr_canonical reg)"
      "tr_definitions reg' = dset (td_function d, sha c) (d\<lparr>td_version := sha c\<rparr>) (tr_definitions reg)"
proof (cases "canonical_definition_bytes frepr d")
  case (Inl e)
  with assms refused show thesis by (auto simp: register_task_def version_failures_def)
next
  case (Inr c)
  show thesis
  proof (cases "validate_definition d rules @ version_failures sha d (Some c) reg = []
      \<and> dget (tr_canonical reg) (sha c) \<in> {None, Some c}")
    case True
    then have clear: "validate_definition d rules = []" "version_failures sha d (Some c) reg = []"
        "dget (tr_canonical reg) (sha c) \<in> {None, Some c}" by auto
    show thesis
    proof (cases "dget (tr_definitions reg) (td_function d, sha c)")
      case (Some d')
      with assms Inr clear have "r = Inr d'" "reg' = reg" by (auto simp: register_task_def Let_def)
      then show thesis by (rule known) (use clear Inr Some in simp_all)
    next
      case None
      with assms Inr clear have "r = Inr (d\<lparr>td_version := sha c\<rparr>)"
          "reg' = reg\<lparr>tr_canonical := dset (sha c) c (tr_canonical reg),
             tr_definitions := dset (td_function d, sha c) (d\<lparr>td_version := sha c\<rparr>) (tr_definitions reg)\<rparr>"
        by (auto simp: register_task_def Let_def)
      with clear Inr None show thesis by (intro fresh) simp_all
    qed
  next
    case False
    with assms Inr have "\<exists>e. r = Inl e \<and> reg' = reg"
      by (auto simp: register_task_def Let_def split: option.splits if_splits)
    with refused show thesis by blast
  qed
qed

lemma filed_kept:
  "filed sha frepr canonical key d \<Longrightarrow> dget canonical v \<in> {None, Some c} \<Longrightarrow> filed sha frepr (dset v c canonical) key d"
  by (auto simp: filed_def)

lemma register_keeps:
  assumes "register_task sha frepr rules d reg = (r, reg')" and "dget (tr_definitions reg) key = Some d0"
  shows "dget (tr_definitions reg') key = Some d0"
  using assms(1)
proof (cases rule: register_cases)
  case (fresh c)
  then have "key \<noteq> (td_function d, sha c)" using assms(2) by auto
  with fresh(7) assms(2) show ?thesis by simp
qed (use assms(2) in simp_all)

lemma register_ok:
  assumes "register_task sha frepr rules d reg = (r, reg')" and "task_registry_ok sha frepr reg"
  shows "task_registry_ok sha frepr reg'"
  using assms(1)
proof (cases rule: register_cases)
  case (fresh c)
  have new: "filed sha frepr (tr_canonical reg') (td_function d, sha c) (d\<lparr>td_version := sha c\<rparr>)"
    using fresh by (simp add: filed_def)
  show ?thesis
    unfolding task_registry_ok_def
  proof (intro allI impI)
    fix key0 d1 assume stored: "dget (tr_definitions reg') key0 = Some d1"
    show "filed sha frepr (tr_canonical reg') key0 d1"
    proof (cases "key0 = (td_function d, sha c)")
      case True
      with stored new fresh show ?thesis by simp
    next
      case False
      with stored fresh have "dget (tr_definitions reg) key0 = Some d1" by (simp split: if_splits)
      with assms(2) have "filed sha frepr (tr_canonical reg) key0 d1" unfolding task_registry_ok_def by blast
      then show ?thesis unfolding fresh(6) by (rule filed_kept [OF _ fresh(5)])
    qed
  qed
qed (use assms(2) in simp_all)

text \<open>The registry as the program fills it.\<close>

fun register_tasks ::
    "(string \<Rightarrow> string) \<Rightarrow> (rat \<Rightarrow> string) \<Rightarrow> (rules_registry \<times> task_definition) list \<Rightarrow> task_registry \<Rightarrow> task_registry" where
  "register_tasks sha frepr [] reg = reg"
| "register_tasks sha frepr ((rules, d) # rest) reg =
     register_tasks sha frepr rest (snd (register_task sha frepr rules d reg))"

lemma register_tasks_ok:
  "task_registry_ok sha frepr reg \<Longrightarrow> task_registry_ok sha frepr (register_tasks sha frepr history reg)
     \<and> (dget (tr_definitions reg) key = Some d \<longrightarrow> dget (tr_definitions (register_tasks sha frepr history reg)) key = Some d)"
proof (induction history arbitrary: reg)
  case (Cons h history)
  obtain rules c where h: "h = (rules, c)" by (cases h)
  obtain r reg' where run: "register_task sha frepr rules c reg = (r, reg')" by force
  from register_ok [OF run Cons.prems] register_keeps [OF run] Cons.IH [of reg'] show ?case by (auto simp: h run)
qed simp

text \<open>C30. A task definition is what its version says, for good: whatever a registry built from
  empty by any history of registrations resolves for a function and version is a definition
  of this function and version, the version is the digest of its canonical content, and it
  resolves to the same definition after any further registrations.\<close>

theorem definition_version_immutable:
  assumes "resolve_task (register_tasks sha frepr history empty_registry) f v = Some d"
  shows "td_function d = f \<and> td_version d = v \<and> (\<exists>c. canonical_definition_bytes frepr d = Inr c \<and> v = sha c)
    \<and> resolve_task (register_tasks sha frepr later (register_tasks sha frepr history empty_registry)) f v = Some d"
proof -
  let ?reg = "register_tasks sha frepr history empty_registry"
  have ok: "task_registry_ok sha frepr ?reg" using register_tasks_ok [OF empty_registry_ok] by blast
  from assms have stored: "v \<noteq> []" "dget (tr_definitions ?reg) (f, v) = Some d" by (auto simp: resolve_task_def split: if_splits)
  with ok have "filed sha frepr (tr_canonical ?reg) (f, v) d" unfolding task_registry_ok_def by blast
  moreover have "dget (tr_definitions (register_tasks sha frepr later ?reg)) (f, v) = Some d"
    using register_tasks_ok [OF ok] stored(2) by blast
  ultimately show ?thesis using stored(1) by (auto simp: filed_def resolve_task_def)
qed


section \<open>Canonical content always has a text\<close>

definition dumpable :: "json_format \<Rightarrow> pyval \<Rightarrow> bool" where
  "dumpable f v \<longleftrightarrow> (\<exists>t. dumps f v = Inr t)"

lemma dumps_list_Inr: "(\<exists>ts. dumps_list f xs = Inr ts) \<longleftrightarrow> list_all (dumpable f) xs"
  by (induction xs) (auto simp: dumpable_def bindR_Inr)

lemma dumps_items_Inr: "(\<exists>ts. dumps_items f kvs = Inr ts) \<longleftrightarrow> list_all (\<lambda>p. is_str (fst p) \<and> dumpable f (snd p)) kvs"
proof (induction kvs)
  case (Cons p kvs)
  then show ?case by (cases p) (auto simp: dumpable_def bindR_Inr)
qed simp

lemma dumpable_simps [simp]:
  "dumpable f VNone" "dumpable f (VBool b)" "dumpable f (VInt i)" "dumpable f (VFloat (Finite q))" "dumpable f (VStr s)"
  by (simp_all add: dumpable_def)

lemma dumpable_list [simp]: "dumpable f (VList xs) \<longleftrightarrow> list_all (dumpable f) xs"
  unfolding dumps_list_Inr [symmetric] by (auto simp: dumpable_def bindR_Inr)

lemma dumpable_dict [simp]: "dumpable f (VDict kvs) \<longleftrightarrow> list_all (\<lambda>p. is_str (fst p) \<and> dumpable f (snd p)) kvs"
  unfolding dumps_items_Inr [symmetric] by (auto simp: dumpable_def bindR_Inr)

lemma plain_dumpable:
  shows "plain_content frepr v = Inr w \<Longrightarrow> dumpable f w"
    and "plain_list frepr vs = Inr ws \<Longrightarrow> list_all (dumpable f) ws"
    and "plain_items frepr m = Inr kvs \<Longrightarrow> list_all (\<lambda>p. is_str (fst p) \<and> dumpable f (snd p)) kvs"
proof (induction v and vs and m arbitrary: w and ws and kvs rule: plain_content_plain_list_plain_items.induct)
  case (3 frepr xs)
  then show ?case by (auto simp: bindR_Inr list_all_iff)
qed (auto simp: bindR_Inr split: pyfloat.splits)

lemma canonical_definition_Inr:
  "(\<exists>c. canonical_definition_bytes frepr d = Inr c) \<longleftrightarrow> (\<exists>kvs. plain_content frepr (VFrozen (td_parameter_contract d)) = Inr kvs)
     \<and> (\<exists>kvs. plain_content frepr (VFrozen (td_payload_contract d)) = Inr kvs) \<and> (\<exists>kvs. plain_content frepr (VFrozen (td_output_schema d)) = Inr kvs)"
    (is "?l \<longleftrightarrow> ?p \<and> ?q \<and> ?s")
proof
  assume ?l
  then show "?p \<and> ?q \<and> ?s" by (auto simp: canonical_definition_bytes_def definition_content_def bindR_Inr)
next
  assume "?p \<and> ?q \<and> ?s"
  then obtain p q t where parts: "plain_content frepr (VFrozen (td_parameter_contract d)) = Inr p"
      "plain_content frepr (VFrozen (td_payload_contract d)) = Inr q" "plain_content frepr (VFrozen (td_output_schema d)) = Inr t" by blast
  then obtain c where c: "definition_content frepr d = Inr c"
    unfolding definition_content_def parts by (simp add: bindR_def)
  have "dumpable f p" "dumpable f q" "dumpable f t" for f
    using parts plain_dumpable(1) by blast+
  then have "dumpable f c" for f
    using c unfolding definition_content_def parts
    by (auto simp: bindR_def list_all_iff optional_int_def split: option.splits)
  then obtain t where "dumps (compact False False frepr) c = Inr t" unfolding dumpable_def by blast
  then show ?l by (simp add: canonical_definition_bytes_def c)
qed

text \<open>The text starts with the function, the least of the keys.\<close>

lemma utf8_append [simp]: "utf8 (s @ t) = utf8 s @ utf8 t"
  by (simp add: utf8_def)

lemma dumps_least_key:
  assumes "jf_sort f" and "dumps f (VDict ((VStr k, v) # p # kvs)) = Inr t" and "\<forall>q \<in> set (p # kvs). k \<le> str_of (fst q)"
  shows "\<exists>u rest. dumps f v = Inr u \<and> t = CHR ''{'' # json_string (jf_ascii f) k @ jf_key f @ u @ jf_item f @ rest"
proof -
  from assms(2) obtain u us where u: "dumps f v = Inr u" "dumps_items f (p # kvs) = Inr us"
    and t: "t = CHR ''{'' # join (jf_item f) (map (\<lambda>(k, t). json_string (jf_ascii f) k @ jf_key f @ t)
      (sort_key fst ((k, u) # us))) @ ''}''"
    using assms(1) by (auto simp: bindR_Inr)
  have keys: "dumps_items f qs = Inr ws \<Longrightarrow> map fst ws = map (\<lambda>q. str_of (fst q)) qs" for qs ws
    by (induction qs arbitrary: ws) (auto simp: bindR_Inr split: if_splits)
  have "set (map fst us) = set (map (\<lambda>q. str_of (fst q)) (p # kvs))" using keys [OF u(2)] by (rule arg_cong)
  then have "k \<le> x" if "x \<in> set (map fst us)" for x using that assms(3) by auto
  then have "\<forall>w \<in> set (sort_key fst us). k \<le> fst w" by simp
  then have "sort_key fst ((k, u) # us) = (k, u) # sort_key fst us" by (simp add: insort_is_Cons)
  moreover have "length (sort_key fst us) = Suc (length kvs)" using keys [OF u(2)] by (metis length_map length_sort length_Cons)
  then obtain w ws where "sort_key fst us = w # ws" by (cases "sort_key fst us") auto
  ultimately show ?thesis using u(1) t by (cases w) auto
qed

lemma canonical_function:
  assumes "canonical_definition_bytes frepr d = Inr c" and "canonical_definition_bytes frepr e = Inr c"
  shows "td_function d = td_function e"
proof -
  have head: "\<exists>rest. c = utf8 (CHR ''{'' # json_string False ''function'' @ '':'' @ json_string False (function_value (td_function d))) @ rest"
    if bytes: "canonical_definition_bytes frepr d = Inr c" for d
  proof -
    from bytes obtain v t where v: "definition_content frepr d = Inr v" "dumps (compact False False frepr) v = Inr t" "c = utf8 t"
      by (auto simp: canonical_definition_bytes_def bindR_Inr)
    from v(1) obtain p kvs where first: "v = VDict ((VStr ''function'', VStr (function_value (td_function d))) # p # kvs)"
        "\<forall>q \<in> set (p # kvs). ''function'' \<le> str_of (fst q)"
      by (auto simp: definition_content_def bindR_Inr)
    from dumps_least_key [OF _ v(2) [unfolded first(1)] first(2)] obtain rest
      where "t = CHR ''{'' # json_string False ''function'' @ '':'' @ json_string False (function_value (td_function d)) @ '','' @ rest"
      by (auto simp: compact_def)
    then have "t = (CHR ''{'' # json_string False ''function'' @ '':'' @ json_string False (function_value (td_function d))) @ '','' @ rest"
      by simp
    with v(3) show ?thesis by (metis utf8_append)
  qed
  show ?thesis
    using head [OF assms(1)] head [OF assms(2)]
    by (cases "td_function d"; cases "td_function e") (auto simp: utf8_def json_string_def json_char_def utf8_char_def)
qed

lemma plain_strs [simp]: "plain_list frepr (map VStr ls) = Inr (map VStr ls)"
  by (induction ls) (auto simp: bindR_def)

lemma seed_canonical: "\<exists>c. canonical_definition_bytes frepr (seed_definition f rv) = Inr c"
  unfolding canonical_definition_Inr
  by (cases f) (simp_all add: seed_definition_def object_contract_def task_output_schema_def bindR_def Let_def)

lemma seed_valid:
  "\<not> blank rv \<Longrightarrow> rules_resolve (Some rv) rules \<noteq> None \<Longrightarrow> validate_definition (seed_definition f rv) rules = []"
  by (cases f) (auto simp: validate_definition_def seed_definition_def object_contract_def task_output_schema_def optional_positive_def Let_def)

lemma register_new:
  assumes "validate_definition d rules = []" and "td_version d = []" and "canonical_definition_bytes frepr d = Inr c"
    and "dget (tr_canonical reg) (sha c) \<in> {None, Some c}" and "dget (tr_definitions reg) (td_function d, sha c) = None"
  shows "register_task sha frepr rules d reg = (Inr (d\<lparr>td_version := sha c\<rparr>),
    reg\<lparr>tr_canonical := dset (sha c) c (tr_canonical reg),
        tr_definitions := dset (td_function d, sha c) (d\<lparr>td_version := sha c\<rparr>) (tr_definitions reg)\<rparr>)"
  using assms by (auto simp: register_task_def version_failures_def Let_def)


lemma accepts_unique:
  assumes "accepts d v w" and "accepts d v w'"
  shows "w = w'"
proof (cases "tv_function v")
  case AI_CLASSIFY
  from assms(1) AI_CLASSIFY obtain ls where ls: "fm_get (tv_parameters v) ''labels'' = Some (VTuple (map VStr ls))"
      "w = v\<lparr>tv_parameters := [(''labels'', VTuple (map VStr ls))]\<rparr>"
    unfolding accepts.simps by auto
  from assms(2) AI_CLASSIFY obtain ls' where ls': "fm_get (tv_parameters v) ''labels'' = Some (VTuple (map VStr ls'))"
      "w' = v\<lparr>tv_parameters := [(''labels'', VTuple (map VStr ls'))]\<rparr>"
    unfolding accepts.simps by auto
  from ls(1) ls'(1) have "map VStr ls = map VStr ls'" by simp
  then show ?thesis unfolding ls(2) ls'(2) by simp
next
  case AI_SUMMARIZE
  from assms(1) AI_SUMMARIZE obtain n where n: "fm_get (tv_parameters v) ''max_words'' = Some (VInt n)"
      "w = v\<lparr>tv_parameters := [(''max_words'', VInt n)], tv_rows := map text_row (tv_rows v)\<rparr>"
    unfolding accepts.simps by auto
  from assms(2) AI_SUMMARIZE obtain n' where n': "fm_get (tv_parameters v) ''max_words'' = Some (VInt n')"
      "w' = v\<lparr>tv_parameters := [(''max_words'', VInt n')], tv_rows := map text_row (tv_rows v)\<rparr>"
    unfolding accepts.simps by auto
  from n(1) n'(1) have "n = n'" by simp
  then show ?thesis unfolding n(2) n'(2) by simp
qed

section \<open>Properties\<close>


lemma resolve_invocation_Inr:
  assumes "resolve_invocation reg v ctx = Inr (Inr r)"
  shows "\<exists>bindings d. fm_get (content (ctx_configuration ctx)) ''task_definitions'' = Some (VFrozen bindings)
    \<and> fm_get bindings (function_value (tv_function v)) = Some (VStr (td_version d)) \<and> td_function d = tv_function v
    \<and> resolve_task reg (tv_function v) (td_version d) = Some d \<and> tv_requested_version v \<in> {None, Some (td_version d)}
    \<and> r = \<lparr>rt_definition = d, rt_invocation = v\<rparr>"
proof -
  from assms obtain bindings bound where bound: "fm_get (content (ctx_configuration ctx)) ''task_definitions'' = Some (VFrozen bindings)"
      "fm_get bindings (function_value (tv_function v)) = Some (VStr bound)" "bound_definition reg v bound = Inr (Inr r)"
    by (auto simp: resolve_invocation_def Let_def split: option.splits pyval.splits if_splits)
  from bound(3) obtain d where "resolve_task reg (tv_function v) bound = Some d" "td_function d = tv_function v" "td_version d = bound"
      "tv_requested_version v \<in> {None, Some bound}" "r = \<lparr>rt_definition = d, rt_invocation = v\<rparr>"
    by (auto simp: bound_definition_def attempt_def bindR_def ResolvedTask_post_def split: option.splits if_splits)
  with bound(1,2) show ?thesis by blast
qed

lemma resolve_invocation_returns: "\<exists>x. resolve_invocation reg v ctx = Inr x"
  by (auto simp: resolve_invocation_def Let_def bound_definition_def attempt_def bindR_def ResolvedTask_post_def
      split: option.splits pyval.splits)

text \<open>Only the bound definition is ever prepared: preparing an invocation either fails
  without any effect, before the packer is reached, or hands to the packer exactly the
  definition that the registry holds under the version the execution's configuration binds
  to this function, which the caller did not ask to be another, with an invocation that
  meets its contract.\<close>

theorem only_bound_definition_prepared:
  fixes preparer :: "resolved_task \<Rightarrow> ('s, task_failure + 'p) meth"
  assumes "TaskInvocation_post v = Inr v" and "task_prepare reg preparer v ctx s = (r, s')"
  shows "(\<exists>f. r = Inr (Inl f) \<and> s' = s \<and> (\<forall>other. task_prepare reg other v ctx s = (r, s)))
    \<or> (\<exists>bindings d w. fm_get (content (ctx_configuration ctx)) ''task_definitions'' = Some (VFrozen bindings)
        \<and> fm_get bindings (function_value (tv_function v)) = Some (VStr (td_version d))
        \<and> resolve_task reg (tv_function v) (td_version d) = Some d \<and> tv_requested_version v \<in> {None, Some (td_version d)}
        \<and> accepts d v w \<and> preparer \<lparr>rt_definition = d, rt_invocation = w\<rparr> s = (r, s'))"
proof -
  obtain x where x: "resolve_invocation reg v ctx = Inr x" using resolve_invocation_returns by blast
  show ?thesis
  proof (cases x)
    case (Inl f)
    with x have "task_prepare reg other v ctx s = (Inr (Inl f), s)" for other :: "resolved_task \<Rightarrow> ('s, task_failure + 'p) meth"
      by (simp add: task_prepare_def bindM_def)
    with assms(2) show ?thesis by auto
  next
    case (Inr r0)
    with x obtain bindings d where d: "fm_get (content (ctx_configuration ctx)) ''task_definitions'' = Some (VFrozen bindings)"
        "fm_get bindings (function_value (tv_function v)) = Some (VStr (td_version d))" "td_function d = tv_function v"
        "resolve_task reg (tv_function v) (td_version d) = Some d" "tv_requested_version v \<in> {None, Some (td_version d)}"
        "r0 = \<lparr>rt_definition = d, rt_invocation = v\<rparr>"
      using resolve_invocation_Inr by blast
    from validate_decides [OF assms(1) d(3)] show ?thesis
    proof (elim disjE exE conjE)
      fix f assume "validate_task_invocation \<lparr>rt_definition = d, rt_invocation = v\<rparr> = Inr (Inl f)"
      with x Inr d(6) have "task_prepare reg other v ctx s = (Inr (Inl f), s)" for other :: "resolved_task \<Rightarrow> ('s, task_failure + 'p) meth"
        by (simp add: task_prepare_def bindM_def)
      with assms(2) show ?thesis by auto
    next
      fix w assume "validate_task_invocation \<lparr>rt_definition = d, rt_invocation = v\<rparr> = Inr (Inr \<lparr>rt_definition = d, rt_invocation = w\<rparr>)"
        and "accepts d v w"
      with x Inr d(6) assms(2) have "preparer \<lparr>rt_definition = d, rt_invocation = w\<rparr> s = (r, s')"
        by (simp add: task_prepare_def bindM_def)
      with d \<open>accepts d v w\<close> show ?thesis by blast
    qed
  qed
qed

text \<open>The seeded registry serves both functions: when the validation rules exist and the
  digest separates the two contents and is never empty, seeding succeeds and each function
  resolves, under the digest of its content, to its seed with the exact output schema.\<close>

theorem seeded_definitions_resolve:
  assumes "\<not> blank rv" and "rules_resolve (Some rv) rules \<noteq> None"
    and "\<And>f. canonical_definition_bytes frepr (seed_definition f rv) = Inr (text_of f)"
    and "sha (text_of AI_CLASSIFY) \<noteq> sha (text_of AI_SUMMARIZE)" and "\<And>t. sha t \<noteq> []"
  shows "\<exists>reg. seeded_registry sha frepr rules rv = Inr reg
    \<and> (\<forall>f. resolve_task reg f (sha (text_of f)) = Some ((seed_definition f rv)\<lparr>td_version := sha (text_of f)\<rparr>)
        \<and> td_output_schema (seed_definition f rv) = task_output_schema f)"
proof -
  let ?c = "sha (text_of AI_CLASSIFY)" and ?s = "sha (text_of AI_SUMMARIZE)"
  have empty: "td_version (seed_definition f rv) = []" "td_function (seed_definition f rv) = f"
      "td_output_schema (seed_definition f rv) = task_output_schema f" for f
    by (simp_all add: seed_definition_def)
  note valid = seed_valid [OF assms(1,2)]
  have all: "(\<forall>f. P f) \<longleftrightarrow> P AI_CLASSIFY \<and> P AI_SUMMARIZE" for P by (metis task_function.exhaust)
  show ?thesis
    using assms(4,5)
    by (simp add: all seeded_registry_def bindM_def register_new [OF valid empty(1) assms(3)] empty empty_registry_def resolve_task_def)
qed


section \<open>Samples\<close>

definition sample_task_rules :: rules_registry where
  "sample_task_rules = [(''r1'', sample_rules)]"

definition sample_definition :: task_definition where
  "sample_definition = (seed_definition AI_CLASSIFY ''r1'')\<lparr>td_version := ''1''\<rparr>"

definition sample_invocation :: task_invocation where
  "sample_invocation = \<lparr>tv_function = AI_CLASSIFY, tv_parameters = [(''labels'', VTuple [VStr ''good'', VStr ''bad''])],
     tv_rows = [\<lparr>ri_identifier = ''a'', ri_source_fields = [(''text'', VStr ''x'')]\<rparr>,
       \<lparr>ri_identifier = ''b'', ri_source_fields = [(''text'', VStr ''y'')]\<rparr>], tv_requested_version = None\<rparr>"

definition sample_task_context :: execution_context where
  "sample_task_context = sample_context\<lparr>ctx_configuration := (ctx_configuration sample_context)\<lparr>content :=
     [(''task_definitions'', VFrozen [(''ai_classify'', VStr ''1'')])]\<rparr>\<rparr>"

lemma sample_rules_resolve: "rules_resolve (Some ''r1'') sample_task_rules \<noteq> None"
  by (simp add: rules_resolve_def sample_task_rules_def)

lemma sample_registered:
  "resolve_task (register_tasks (\<lambda>_. ''1'') frepr [(sample_task_rules, seed_definition AI_CLASSIFY ''r1'')] empty_registry)
     AI_CLASSIFY ''1'' = Some sample_definition"
proof -
  obtain c where c: "canonical_definition_bytes frepr (seed_definition AI_CLASSIFY ''r1'') = Inr c" using seed_canonical by blast
  have "validate_definition (seed_definition AI_CLASSIFY ''r1'') sample_task_rules = []"
    by (rule seed_valid [OF _ sample_rules_resolve]) simp
  moreover have "td_version (seed_definition AI_CLASSIFY ''r1'') = []" "td_function (seed_definition AI_CLASSIFY ''r1'') = AI_CLASSIFY"
    by (simp_all add: seed_definition_def)
  ultimately show ?thesis
    using register_new [of "seed_definition AI_CLASSIFY ''r1''" sample_task_rules frepr c empty_registry "\<lambda>_. ''1''"] c
    by (simp add: empty_registry_def resolve_task_def sample_definition_def)
qed

lemma definition_version_immutable_witness:
  "\<exists>reg. resolve_task reg AI_CLASSIFY ''1'' = Some sample_definition
     \<and> resolve_task (register_tasks (\<lambda>_. ''1'') (\<lambda>_. []) [(sample_task_rules, seed_definition AI_SUMMARIZE ''r1'')] reg) AI_CLASSIFY ''1''
       = Some sample_definition"
  using definition_version_immutable [OF sample_registered, of "\<lambda>_. []" "[(sample_task_rules, seed_definition AI_SUMMARIZE ''r1'')]"]
    sample_registered by blast

lemma sample_constructed: "TaskInvocation_post sample_invocation = Inr sample_invocation" "td_function sample_definition = tv_function sample_invocation"
  by (simp_all add: sample_invocation_def sample_definition_def seed_definition_def blank_option_def)

lemma sample_accepts: "accepts sample_definition sample_invocation sample_invocation"
proof -
  have "labels_ok sample_definition [''good'', ''bad'']" by (simp add: labels_ok_def sample_definition_def seed_definition_def)
  then show ?thesis
    unfolding accepts.simps
    by (auto simp: sample_invocation_def sample_definition_def seed_definition_def task_output_schema_def Let_def
        intro!: exI [of _ "[''good'', ''bad'']"])
qed


lemma sample_prepare:
  "\<exists>r s. task_prepare \<lparr>tr_definitions = [((AI_CLASSIFY, ''1''), sample_definition)], tr_canonical = []\<rparr>
     (\<lambda>r n. (Inr (Inr r), n + 1)) sample_invocation sample_task_context (0 :: nat) = (Inr (Inr r), s)"
proof -
  have "resolve_invocation \<lparr>tr_definitions = [((AI_CLASSIFY, ''1''), sample_definition)], tr_canonical = []\<rparr>
      sample_invocation sample_task_context = Inr (Inr \<lparr>rt_definition = sample_definition, rt_invocation = sample_invocation\<rparr>)"
    by (simp add: resolve_invocation_def sample_task_context_def sample_invocation_def bound_definition_def resolve_task_def
        sample_definition_def seed_definition_def attempt_def ResolvedTask_post_def)
  moreover have "validate_task_invocation \<lparr>rt_definition = sample_definition, rt_invocation = sample_invocation\<rparr>
      = Inr (Inr \<lparr>rt_definition = sample_definition, rt_invocation = sample_invocation\<rparr>)"
    using validate_decides [OF sample_constructed] sample_accepts accepts_unique by blast
  ultimately show ?thesis by (simp add: task_prepare_def bindM_def)
qed

lemma only_bound_definition_prepared_witness:
  "\<exists>bindings d w. fm_get (content (ctx_configuration sample_task_context)) ''task_definitions'' = Some (VFrozen bindings)
     \<and> fm_get bindings (function_value (tv_function sample_invocation)) = Some (VStr (td_version d)) \<and> accepts d sample_invocation w"
proof -
  obtain r s where "task_prepare \<lparr>tr_definitions = [((AI_CLASSIFY, ''1''), sample_definition)], tr_canonical = []\<rparr>
      (\<lambda>r n. (Inr (Inr r), n + 1)) sample_invocation sample_task_context (0 :: nat) = (Inr (Inr r), s)"
    using sample_prepare by blast
  from only_bound_definition_prepared [OF sample_constructed(1) this]
  show ?thesis
  proof (elim disjE exE conjE)
    fix f assume "(Inr (Inr r) :: (task_failure + resolved_task) res) = Inr (Inl f)"
    then show ?thesis by simp
  next
    fix bindings d w
    assume "fm_get (content (ctx_configuration sample_task_context)) ''task_definitions'' = Some (VFrozen bindings)"
      and "fm_get bindings (function_value (tv_function sample_invocation)) = Some (VStr (td_version d))"
      and "accepts d sample_invocation w"
    then show ?thesis by (intro exI [of _ bindings] exI [of _ d] exI [of _ w] conjI)
  qed
qed

definition sample_text :: "task_function \<Rightarrow> string" where
  "sample_text f = projr (canonical_definition_bytes (\<lambda>_. []) (seed_definition f ''r1''))"

lemma sample_texts_differ: "sample_text AI_CLASSIFY \<noteq> sample_text AI_SUMMARIZE"
proof
  assume same: "sample_text AI_CLASSIFY = sample_text AI_SUMMARIZE"
  obtain c c' where "canonical_definition_bytes (\<lambda>_. []) (seed_definition AI_CLASSIFY ''r1'') = Inr c"
      "canonical_definition_bytes (\<lambda>_. []) (seed_definition AI_SUMMARIZE ''r1'') = Inr c'" using seed_canonical by blast
  moreover from this same have "c = c'" by (simp add: sample_text_def)
  ultimately have "AI_CLASSIFY = td_function (seed_definition AI_SUMMARIZE ''r1'')"
    using canonical_function [of "\<lambda>_. []" "seed_definition AI_CLASSIFY ''r1''" c "seed_definition AI_SUMMARIZE ''r1''"]
    by (simp add: seed_definition_def)
  then show False by (simp add: seed_definition_def)
qed

lemma seeded_definitions_resolve_witness:
  "\<exists>reg. seeded_registry (\<lambda>t. CHR ''#'' # t) (\<lambda>_. []) sample_task_rules ''r1'' = Inr reg
     \<and> resolve_task reg AI_SUMMARIZE (CHR ''#'' # sample_text AI_SUMMARIZE) \<noteq> None"
proof -
  have "canonical_definition_bytes (\<lambda>_. []) (seed_definition f ''r1'') = Inr (sample_text f)" for f
    using seed_canonical [of "\<lambda>_. []" f "''r1''"] by (auto simp: sample_text_def)
  from seeded_definitions_resolve [OF _ sample_rules_resolve this, of "\<lambda>t. CHR ''#'' # t"] sample_texts_differ
  show ?thesis by auto
qed

end
