(* ===== verification/Packing.thy ===== *)
theory Packing
  imports Tasks
begin

text \<open>
  \<open>tasks/packing.py\<close>: canonical payload bytes and the greedy packing of rows into bounded
  requests. The token estimator and the payload store are code outside: an estimator may
  answer anything or raise, the store may raise and has a state of its own.
\<close>

declare map_of_eq_Some_iff [simp del]

section \<open>Canonical payloads\<close>

fun canonical_plain :: "pyval \<Rightarrow> pyval res"
and canonical_plain_list :: "pyval list \<Rightarrow> pyval list res"
and canonical_plain_entries :: "(pyval \<times> pyval) list \<Rightarrow> (pyval \<times> pyval) list res"
and canonical_plain_items :: "(string \<times> pyval) list \<Rightarrow> (pyval \<times> pyval) list res" where
  "canonical_plain (VFrozen m) = bindR (canonical_plain_items m) (\<lambda>kvs. Inr (VDict kvs))"
| "canonical_plain (VDict kvs) =
     (if \<not> list_all (\<lambda>p. is_str (fst p)) kvs then Inl (TypeError ''canonical JSON object keys must be strings'')
      else bindR (canonical_plain_entries kvs) (\<lambda>kvs. Inr (VDict kvs)))"
| "canonical_plain (VTuple xs) = bindR (canonical_plain_list xs) (\<lambda>ys. Inr (VList ys))"
| "canonical_plain (VList xs) = bindR (canonical_plain_list xs) (\<lambda>ys. Inr (VList ys))"
| "canonical_plain (VFloat x) =
     (case x of Finite q \<Rightarrow> Inr (VFloat x) | _ \<Rightarrow> Inl (ValueError ''canonical JSON numbers must be finite''))"
| "canonical_plain VNone = Inr VNone"
| "canonical_plain (VBool b) = Inr (VBool b)"
| "canonical_plain (VInt i) = Inr (VInt i)"
| "canonical_plain (VStr s) = Inr (VStr s)"
| "canonical_plain v = Inl (TypeError (''unsupported canonical JSON value: '' @ class_name v))"
| "canonical_plain_list [] = Inr []"
| "canonical_plain_list (x # xs) = bindR (canonical_plain x) (\<lambda>y. bindR (canonical_plain_list xs) (\<lambda>ys. Inr (y # ys)))"
| "canonical_plain_entries [] = Inr []"
| "canonical_plain_entries ((k, v) # kvs) =
     bindR (canonical_plain v) (\<lambda>w. bindR (canonical_plain_entries kvs) (\<lambda>ws. Inr ((k, w) # ws)))"
| "canonical_plain_items [] = Inr []"
| "canonical_plain_items ((k, v) # m) =
     bindR (canonical_plain v) (\<lambda>w. bindR (canonical_plain_items m) (\<lambda>ws. Inr ((VStr k, w) # ws)))"

text \<open>Both steps raise nothing but \<open>TypeError\<close> and \<open>ValueError\<close>.\<close>

definition canonical_payload_bytes :: "(rat \<Rightarrow> string) \<Rightarrow> pyval \<Rightarrow> string res" where
  "canonical_payload_bytes frepr v =
     (case bindR (canonical_plain v) (dumps (compact False False frepr)) of
        Inl e \<Rightarrow> Inl (CanonicalSerializationError (exn_text e))
      | Inr t \<Rightarrow> Inr (utf8 t))"

definition payload_object :: "task_definition \<Rightarrow> frozen_mapping \<Rightarrow> row_input list \<Rightarrow> pyval" where
  "payload_object d params rows = VDict [
     (VStr ''task'', VStr (function_value (td_function d))),
     (VStr ''definition_version'', VStr (td_version d)),
     (VStr ''instructions'', VStr (td_prompt_template d)),
     (VStr ''parameters'', VFrozen params),
     (VStr ''rows'', VList (map (\<lambda>r. VDict [(VStr ''id'', VStr (ri_identifier r)), (VStr ''source'', VFrozen (ri_source_fields r))]) rows)),
     (VStr ''output_schema'', VFrozen (td_output_schema d))]"

section \<open>Packing\<close>

record 's packer_env =
  pe_input :: "string \<Rightarrow> pyval res"
  pe_output :: "task_definition \<Rightarrow> int \<Rightarrow> pyval res"
  pe_put :: "string \<Rightarrow> string \<Rightarrow> ('s, string) meth"
  pe_sha :: "string \<Rightarrow> string"
  pe_float :: "rat \<Rightarrow> string"

record candidate_pack =
  cp_rows :: "row_input list"
  cp_payload :: string
  cp_input_tokens :: int
  cp_output_tokens :: int

definition estimate_value :: "string \<Rightarrow> pyval \<Rightarrow> int res" where
  "estimate_value name v =
     (case v of VInt n \<Rightarrow> if n < 0 then Inl (ValueError (name @ '' must be a nonnegative integer'')) else Inr n
      | _ \<Rightarrow> Inl (ValueError (name @ '' must be a nonnegative integer'')))"

definition pack_candidate :: "('s, 'e) packer_env_scheme \<Rightarrow> task_definition \<Rightarrow> frozen_mapping \<Rightarrow> row_input list \<Rightarrow> candidate_pack res" where
  "pack_candidate env d params rows =
     bindR (canonical_payload_bytes (pe_float env) (payload_object d params rows)) (\<lambda>payload.
     bindR (bindR (pe_input env payload) (estimate_value ''input token estimate'')) (\<lambda>i.
     bindR (bindR (pe_output env d (int (length rows))) (estimate_value ''output token estimate'')) (\<lambda>u.
       Inr \<lparr>cp_rows = rows, cp_payload = payload, cp_input_tokens = i, cp_output_tokens = u\<rparr>)))"

definition pack_fits :: "task_definition \<Rightarrow> candidate_pack \<Rightarrow> bool" where
  "pack_fits d c \<longleftrightarrow> int (length (cp_rows c)) \<le> pl_max_items (td_packing_limits d)
     \<and> cp_input_tokens c \<le> pl_max_input_tokens (td_packing_limits d)
     \<and> cp_output_tokens c \<le> pl_max_output_tokens (td_packing_limits d)
     \<and> int (length (cp_payload c)) \<le> pl_max_payload_bytes (td_packing_limits d)"

text \<open>The loop over the rows, with the rows of the open pack.\<close>

fun build_from :: "('s, 'e) packer_env_scheme \<Rightarrow> task_definition \<Rightarrow> frozen_mapping \<Rightarrow> row_input list \<Rightarrow> row_input list
    \<Rightarrow> candidate_pack list res" where
  "build_from env d params current [] =
     (if current = [] then Inr [] else bindR (pack_candidate env d params current) (\<lambda>c. Inr [c]))"
| "build_from env d params current (r # rs) =
     bindR (pack_candidate env d params (current @ [r])) (\<lambda>proposed.
       if pack_fits d proposed then build_from env d params (current @ [r]) rs
       else if current = [] then Inl (OversizedRow (ri_identifier r))
       else bindR (pack_candidate env d params current) (\<lambda>full.
            bindR (pack_candidate env d params [r]) (\<lambda>single.
              if \<not> pack_fits d single then Inl (OversizedRow (ri_identifier r))
              else bindR (build_from env d params [r] rs) (\<lambda>cs. Inr (full # cs)))))"

definition build_candidates :: "('s, 'e) packer_env_scheme \<Rightarrow> resolved_task \<Rightarrow> candidate_pack list res" where
  "build_candidates env r = build_from env (rt_definition r) (tv_parameters (rt_invocation r)) [] (tv_rows (rt_invocation r))"

definition pack_of :: "task_definition \<Rightarrow> int \<Rightarrow> candidate_pack \<Rightarrow> packed_request" where
  "pack_of d n c = \<lparr>pk_function = td_function d, pk_definition_version = td_version d, pk_pack_index = n,
     pk_input_ids = map ri_identifier (cp_rows c), pk_payload = cp_payload c,
     pk_estimated_input_tokens = cp_input_tokens c, pk_estimated_output_tokens = cp_output_tokens c\<rparr>"

definition work_of :: "task_definition \<Rightarrow> string \<Rightarrow> candidate_pack \<Rightarrow> model_work" where
  "work_of d ref c = \<lparr>task_type = function_value (td_function d), payload_reference = ref,
     mw_input_ids = map ri_identifier (cp_rows c), required_capabilities = td_required_capabilities d,
     task_definition_version = Some (td_version d), estimated_input_tokens = Some (cp_input_tokens c),
     estimated_output_tokens = Some (cp_output_tokens c)\<rparr>"

fun persist_packs :: "('s, 'e) packer_env_scheme \<Rightarrow> task_definition \<Rightarrow> int \<Rightarrow> candidate_pack list
    \<Rightarrow> ('s, packed_request list \<times> model_work list) meth" where
  "persist_packs env d n [] = pureM ([], [])"
| "persist_packs env d n (c # cs) =
     bindM (pe_put env (cp_payload c) (pe_sha env (cp_payload c))) (\<lambda>ref.
     bindM (liftR (PackedRequest_post (pack_of d n c))) (\<lambda>p.
     bindM (liftR (ModelWork_post (work_of d ref c))) (\<lambda>w.
     bindM (persist_packs env d (n + 1) cs) (\<lambda>rest. pureM (p # fst rest, w # snd rest)))))"

text \<open>\<open>except (TypeError, ValueError)\<close>: the classes of the program and of the standard library
  that derive from them.\<close>

fun type_or_value_error :: "exn \<Rightarrow> bool" where
  "type_or_value_error (TypeError _) = True"
| "type_or_value_error (ValueError _) = True"
| "type_or_value_error (CanonicalSerializationError _) = True"
| "type_or_value_error (OversizedRow _) = True"
| "type_or_value_error (TaskDefinitionValidationError _) = True"
| "type_or_value_error (ConfigurationActivationError _) = True"
| "type_or_value_error (EvidenceActivationError _) = True"
| "type_or_value_error (NormalizationError _) = True"
| "type_or_value_error (ForeignError n _) = (n \<in> {''UnicodeError'', ''UnicodeDecodeError'', ''UnicodeEncodeError'', ''JSONDecodeError''})"
| "type_or_value_error _ = False"

definition packing_failure :: "exn \<Rightarrow> task_failure option" where
  "packing_failure e = (case e of
     OversizedRow i \<Rightarrow> Some (failed_task TS_PACKING OVERSIZED_ROW [''task_payload.row_fits_empty_pack'']
       [(''reason'', VStr ''oversized_row''), (''row_id'', VStr i)])
   | CanonicalSerializationError m \<Rightarrow> Some (failed_task TS_PACKING INVALID_TASK_INVOCATION [''task_payload.canonical_json'']
       [(''reason'', VStr ''unsupported_canonical_value''), (''error_type'', VStr (exn_name e))])
   | _ \<Rightarrow> if type_or_value_error e
       then Some (failed_task TS_PACKING INVALID_TASK_INVOCATION [''task_payload.estimate'']
         [(''reason'', VStr ''invalid_token_estimate''), (''error_type'', VStr (exn_name e))])
       else None)"

definition pack_prepare :: "('s, 'e) packer_env_scheme \<Rightarrow> resolved_task \<Rightarrow> ('s, task_failure + prepared_task) meth" where
  "pack_prepare env r =
     (case build_candidates env r of
        Inl e \<Rightarrow> (case packing_failure e of Some f \<Rightarrow> pureM (Inl f) | None \<Rightarrow> raiseM e)
      | Inr cs \<Rightarrow> bindM (persist_packs env (rt_definition r) 0 cs) (\<lambda>pw.
          bindM (liftR (PreparedTask_post \<lparr>pt_definition = rt_definition r, pt_invocation = rt_invocation r,
             pt_packs = fst pw, pt_model_work = snd pw\<rparr>)) (\<lambda>t. pureM (Inr t))))"


section \<open>What the loop builds\<close>

lemma estimate_value_Inr: "estimate_value name v = Inr n \<longleftrightarrow> v = VInt n \<and> 0 \<le> n"
  by (cases v) (auto simp: estimate_value_def)

lemma pack_candidate_Inr:
  assumes "pack_candidate env d params rows = Inr c"
  shows "cp_rows c = rows" "0 \<le> cp_input_tokens c" "0 \<le> cp_output_tokens c"
    "canonical_payload_bytes (pe_float env) (payload_object d params rows) = Inr (cp_payload c)"
  using assms
  by (auto simp: pack_candidate_def bindR_Inr estimate_value_Inr)

definition alone :: "('s, 'e) packer_env_scheme \<Rightarrow> task_definition \<Rightarrow> frozen_mapping \<Rightarrow> row_input \<Rightarrow> bool" where
  "alone env d params r \<longleftrightarrow> (\<exists>c. pack_candidate env d params [r] = Inr c \<and> pack_fits d c)"

definition good_pack :: "('s, 'e) packer_env_scheme \<Rightarrow> task_definition \<Rightarrow> frozen_mapping \<Rightarrow> candidate_pack \<Rightarrow> bool" where
  "good_pack env d params c \<longleftrightarrow> cp_rows c \<noteq> [] \<and> pack_candidate env d params (cp_rows c) = Inr c \<and> pack_fits d c"

definition closed_by :: "('s, 'e) packer_env_scheme \<Rightarrow> task_definition \<Rightarrow> frozen_mapping \<Rightarrow> candidate_pack \<Rightarrow> candidate_pack \<Rightarrow> bool" where
  "closed_by env d params c c' \<longleftrightarrow>
     (\<exists>more. pack_candidate env d params (cp_rows c @ [hd (cp_rows c')]) = Inr more \<and> \<not> pack_fits d more)"

definition open_pack :: "('s, 'e) packer_env_scheme \<Rightarrow> task_definition \<Rightarrow> frozen_mapping \<Rightarrow> row_input list \<Rightarrow> bool" where
  "open_pack env d params current \<longleftrightarrow> current = [] \<or> (\<exists>c. pack_candidate env d params current = Inr c \<and> pack_fits d c)"

lemma successively_Cons_hd: "cs \<noteq> [] \<Longrightarrow> P c (hd cs) \<Longrightarrow> successively P cs \<Longrightarrow> successively P (c # cs)"
  by (cases cs) auto

lemma build_from_Inr:
  assumes "build_from env d params current rs = Inr cs" and "open_pack env d params current"
  shows "concat (map cp_rows cs) = current @ rs \<and> list_all (good_pack env d params) cs
    \<and> successively (closed_by env d params) cs \<and> (current \<noteq> [] \<longrightarrow> cs \<noteq> [] \<and> (\<exists>ext. cp_rows (hd cs) = current @ ext))"
  using assms
proof (induction env d params current rs arbitrary: cs rule: build_from.induct)
  case (1 env d params current)
  then show ?case
    by (auto simp: bindR_Inr open_pack_def good_pack_def pack_candidate_Inr(1) split: if_splits)
next
  case (2 env d params current r rs)
  obtain proposed where proposed: "pack_candidate env d params (current @ [r]) = Inr proposed"
    using 2(3) by (auto simp: bindR_Inr)
  show ?case
  proof (cases "pack_fits d proposed")
    case True
    with 2(3) proposed have run: "build_from env d params (current @ [r]) rs = Inr cs" by simp
    have "open_pack env d params (current @ [r])" using proposed True by (simp add: open_pack_def)
    from 2(1) [OF True run this] show ?thesis by auto
  next
    case False
    with 2(3) proposed obtain full single ds where new: "current \<noteq> []" "pack_candidate env d params current = Inr full"
        "pack_candidate env d params [r] = Inr single" "pack_fits d single" "build_from env d params [r] rs = Inr ds" "cs = full # ds"
      by (auto simp: bindR_Inr split: if_splits)
    have "open_pack env d params [r]" using new by (simp add: open_pack_def)
    from 2(2) [OF False new(1) _ new(5) this, of single] new(4)
    have rest: "concat (map cp_rows ds) = [r] @ rs" "list_all (good_pack env d params) ds"
        "successively (closed_by env d params) ds" "ds \<noteq> []" "\<exists>ext. cp_rows (hd ds) = [r] @ ext" by simp_all
    have full: "cp_rows full = current" using new(2) by (rule pack_candidate_Inr)
    then have "closed_by env d params full (hd ds)" using rest(5) proposed False by (auto simp: closed_by_def)
    with rest(3,4) have "successively (closed_by env d params) (full # ds)" by (intro successively_Cons_hd)
    moreover have "good_pack env d params full" using new(1,2) full 2(4) by (auto simp: good_pack_def open_pack_def)
    ultimately show ?thesis using rest full new(6) by simp
  qed
qed

lemma build_from_decides:
  assumes "\<And>rows. rows \<noteq> [] \<Longrightarrow> set rows \<subseteq> set (current @ rs) \<Longrightarrow> \<exists>c. pack_candidate env d params rows = Inr c"
  shows "(\<exists>cs. build_from env d params current rs = Inr cs)
    \<or> (\<exists>r \<in> set rs. build_from env d params current rs = Inl (OversizedRow (ri_identifier r)) \<and> \<not> alone env d params r)"
  using assms
proof (induction rs arbitrary: current)
  case Nil
  from Nil [of current] show ?case by (auto simp: bindR_def)
next
  case (Cons r rs)
  obtain proposed single where candidates: "pack_candidate env d params (current @ [r]) = Inr proposed"
      "pack_candidate env d params [r] = Inr single"
    using Cons.prems [of "current @ [r]"] Cons.prems [of "[r]"] by auto
  have extend: "(\<exists>cs. build_from env d params (current @ [r]) rs = Inr cs)
      \<or> (\<exists>r' \<in> set rs. build_from env d params (current @ [r]) rs = Inl (OversizedRow (ri_identifier r')) \<and> \<not> alone env d params r')"
    by (rule Cons.IH) (rule Cons.prems, auto)
  have fresh: "(\<exists>cs. build_from env d params [r] rs = Inr cs)
      \<or> (\<exists>r' \<in> set rs. build_from env d params [r] rs = Inl (OversizedRow (ri_identifier r')) \<and> \<not> alone env d params r')"
    by (rule Cons.IH) (rule Cons.prems, auto)
  show ?case
  proof (cases "pack_fits d proposed")
    case True
    with candidates extend show ?thesis by auto
  next
    case False
    show ?thesis
    proof (cases "current = []")
      case True
      with candidates False show ?thesis by (auto simp: alone_def)
    next
      case nonempty: False
      then obtain full where "pack_candidate env d params current = Inr full" using Cons.prems [of current] by auto
      with nonempty candidates False fresh show ?thesis
        by (cases "pack_fits d single") (auto simp: alone_def)
    qed
  qed
qed


section \<open>What is stored\<close>

text \<open>The calls of the payload store for a plan, one per pack and in order.\<close>

fun put_all :: "('s, 'e) packer_env_scheme \<Rightarrow> candidate_pack list \<Rightarrow> ('s, string list) meth" where
  "put_all env [] = pureM []"
| "put_all env (c # cs) =
     bindM (pe_put env (cp_payload c) (pe_sha env (cp_payload c))) (\<lambda>ref. bindM (put_all env cs) (\<lambda>refs. pureM (ref # refs)))"

definition packs_from :: "task_definition \<Rightarrow> int \<Rightarrow> candidate_pack list \<Rightarrow> packed_request list" where
  "packs_from d n cs = map2 (\<lambda>i c. pack_of d (n + int i) c) [0..<length cs] cs"

lemma packs_from_Nil [simp]: "packs_from d n [] = []"
  by (simp add: packs_from_def)

lemma packs_from_Cons [simp]: "packs_from d n (c # cs) = pack_of d n c # packs_from d (n + 1) cs"
proof -
  have "map2 (\<lambda>i c. pack_of d (n + int i) c) (map Suc [0..<length cs]) cs = packs_from d (n + 1) cs"
    unfolding packs_from_def by (simp add: zip_map1 case_prod_beta add.assoc)
  then show ?thesis
    by (simp add: packs_from_def upt_conv_Cons flip: map_Suc_upt del: upt_Suc)
qed

lemma PackedRequest_post_Inr: "PackedRequest_post p = Inr q \<Longrightarrow> q = p"
  by (auto simp: PackedRequest_post_def split: if_splits)

lemma ModelWork_post_Inr: "ModelWork_post w = Inr q \<Longrightarrow> q = w"
  by (auto simp: ModelWork_post_def split: if_splits)

lemma PreparedTask_post_Inr: "PreparedTask_post t = Inr q \<Longrightarrow> q = t"
  by (auto simp: PreparedTask_post_def bindR_Inr split: if_splits)

lemma persist_Inr:
  "persist_packs env d n cs s = (Inr pw, s') \<Longrightarrow>
     \<exists>refs. put_all env cs s = (Inr refs, s') \<and> length refs = length cs \<and> fst pw = packs_from d n cs
       \<and> snd pw = map2 (work_of d) refs cs"
proof (induction env d n cs arbitrary: s pw rule: persist_packs.induct)
  case (2 env d n c cs)
  then obtain ref s1 p w rest where step: "pe_put env (cp_payload c) (pe_sha env (cp_payload c)) s = (Inr ref, s1)"
      "PackedRequest_post (pack_of d n c) = Inr p" "ModelWork_post (work_of d ref c) = Inr w"
      "persist_packs env d (n + 1) cs s1 = (Inr rest, s')" "pw = (p # fst rest, w # snd rest)"
    by (auto simp: bindM_def liftR_def pureM_def split: sum.splits prod.splits)
  from 2(1) [OF step(4)] step show ?case
    by (auto simp: bindM_def pureM_def dest: PackedRequest_post_Inr ModelWork_post_Inr)
qed (auto simp: pureM_def)

lemma utf8_eq_Nil [simp]: "utf8 s = [] \<longleftrightarrow> s = []"
  by (cases s) (simp_all add: utf8_def utf8_char_def Let_def)

lemma canonical_payload_nonempty:
  assumes "canonical_payload_bytes frepr (payload_object d params rows) = Inr b"
  shows "b \<noteq> []"
proof -
  from assms obtain v t where v: "canonical_plain (payload_object d params rows) = Inr v"
      and t: "dumps (compact False False frepr) v = Inr t" and b: "b = utf8 t"
    by (auto simp: canonical_payload_bytes_def bindR_Inr split: sum.splits)
  from v obtain kvs where "v = VDict kvs" by (auto simp: payload_object_def bindR_Inr)
  with t b show ?thesis by (auto simp: bindR_Inr)
qed

lemma function_nonblank [simp]: "\<not> blank (function_value f)"
  by (cases f) simp_all

lemma persist_returns:
  assumes "\<And>b h s. \<exists>ref s'. pe_put env b h s = (Inr ref, s') \<and> \<not> blank ref"
    and "\<not> blank (td_version d)" and "list_all (good_pack env d params) cs"
    and "\<forall>c \<in> set cs. distinct (map ri_identifier (cp_rows c)) \<and> (\<forall>r \<in> set (cp_rows c). \<not> blank (ri_identifier r))" and "0 \<le> n"
  shows "\<exists>pw s'. persist_packs env d n cs s = (Inr pw, s')"
  using assms(3-5)
proof (induction cs arbitrary: n s)
  case (Cons c cs)
  obtain ref s1 where put: "pe_put env (cp_payload c) (pe_sha env (cp_payload c)) s = (Inr ref, s1)" "\<not> blank ref"
    using assms(1) by blast
  from Cons.prems(1) have c: "pack_candidate env d params (cp_rows c) = Inr c" "cp_rows c \<noteq> []"
    by (simp_all add: good_pack_def)
  note facts = pack_candidate_Inr [OF c(1)] canonical_payload_nonempty [OF pack_candidate_Inr(4) [OF c(1)]]
  have ids: "\<not> list_ex blank (map ri_identifier (cp_rows c))" using Cons.prems(2) by (auto simp: list_ex_iff)
  have p: "PackedRequest_post (pack_of d n c) = Inr (pack_of d n c)"
    using facts ids c(2) Cons.prems(2,3) assms(2) by (auto simp: PackedRequest_post_def pack_of_def)
  have w: "ModelWork_post (work_of d ref c) = Inr (work_of d ref c)"
    using facts ids put(2) assms(2) by (auto simp: ModelWork_post_def work_of_def blank_option_def negative_estimate_def)
  from Cons.IH [of "n + 1" s1] Cons.prems obtain pw s' where "persist_packs env d (n + 1) cs s1 = (Inr pw, s')" by auto
  with put p w show ?case by (auto simp: bindM_def liftR_def pureM_def)
qed (auto simp: pureM_def)

lemma check_packs_ok:
  "length refs = length cs \<Longrightarrow> check_packs d n (packs_from d n cs) (map2 (work_of d) refs cs) = Inr ()"
proof (induction cs arbitrary: n refs)
  case (Cons c cs)
  then show ?case by (cases refs) (auto simp: pack_of_def work_of_def)
qed simp

lemma packs_ids: "concat (map pk_input_ids (packs_from d n cs)) = map ri_identifier (concat (map cp_rows cs))"
  by (induction cs arbitrary: n) (auto simp: pack_of_def)

lemma packs_from_length [simp]: "length (packs_from d n cs) = length cs"
  by (simp add: packs_from_def)

section \<open>Properties\<close>

text \<open>C32. The prepared packs are the rows, in order and greedily: a prepared task has one packed
  request and one model work per pack, numbered from zero; the rows of the packs, put
  together, are the invocation's rows; every pack is nonempty, carries the canonical payload
  and the estimates of exactly its rows, and is within every limit; the first row of the
  next pack would not have fitted into it; and the store was called once per pack, in order,
  with its payload and digest, and its answers are the payload references.\<close>

theorem packs_exact_and_greedy:
  assumes "pack_prepare env r s = (Inr (Inr t), s')"
  shows "\<exists>cs refs. pt_packs t = packs_from (rt_definition r) 0 cs \<and> pt_model_work t = map2 (work_of (rt_definition r)) refs cs
    \<and> pt_definition t = rt_definition r \<and> pt_invocation t = rt_invocation r \<and> length refs = length cs
    \<and> concat (map cp_rows cs) = tv_rows (rt_invocation r)
    \<and> list_all (good_pack env (rt_definition r) (tv_parameters (rt_invocation r))) cs
    \<and> successively (closed_by env (rt_definition r) (tv_parameters (rt_invocation r))) cs
    \<and> put_all env cs s = (Inr refs, s')"
proof -
  from assms obtain cs pw where cs: "build_candidates env r = Inr cs" "persist_packs env (rt_definition r) 0 cs s = (Inr pw, s')"
      "PreparedTask_post \<lparr>pt_definition = rt_definition r, pt_invocation = rt_invocation r, pt_packs = fst pw, pt_model_work = snd pw\<rparr> = Inr t"
    by (auto simp: pack_prepare_def bindM_def liftR_def pureM_def raiseM_def split: sum.splits prod.splits option.splits)
  from persist_Inr [OF cs(2)] build_from_Inr [OF cs(1) [unfolded build_candidates_def]] PreparedTask_post_Inr [OF cs(3)]
  show ?thesis by (auto simp: open_pack_def)
qed

text \<open>Packing fails only on a row that no pack can hold: for a constructed invocation whose
  payloads can all be serialised and estimated, and a store that answers, preparation returns
  a plan, or the oversized-row failure naming a row that alone exceeds a limit, with nothing
  stored; when every row fits alone, it returns a plan.\<close>

theorem packing_fails_only_on_oversized_row:
  assumes "TaskInvocation_post (rt_invocation r) = Inr (rt_invocation r)"
    and "td_function (rt_definition r) = tv_function (rt_invocation r)" and "\<not> blank (td_version (rt_definition r))"
    and "\<forall>row \<in> set (tv_rows (rt_invocation r)). \<not> blank (ri_identifier row)"
    and "\<And>rows. rows \<noteq> [] \<Longrightarrow> set rows \<subseteq> set (tv_rows (rt_invocation r)) \<Longrightarrow>
      \<exists>c. pack_candidate env (rt_definition r) (tv_parameters (rt_invocation r)) rows = Inr c"
    and "\<And>b h s. \<exists>ref s'. pe_put env b h s = (Inr ref, s') \<and> \<not> blank ref"
  shows "(\<exists>t s'. pack_prepare env r s = (Inr (Inr t), s'))
    \<or> (\<exists>row \<in> set (tv_rows (rt_invocation r)). \<not> alone env (rt_definition r) (tv_parameters (rt_invocation r)) row
        \<and> (\<exists>f. pack_prepare env r s = (Inr (Inl f), s) \<and> xf_code f = OVERSIZED_ROW
            \<and> fm_get (xf_details f) ''row_id'' = Some (VStr (ri_identifier row))))"
proof -
  let ?d = "rt_definition r" and ?v = "rt_invocation r"
  have "(\<exists>cs. build_candidates env r = Inr cs)
      \<or> (\<exists>row \<in> set (tv_rows ?v). build_candidates env r = Inl (OversizedRow (ri_identifier row)) \<and> \<not> alone env ?d (tv_parameters ?v) row)"
    unfolding build_candidates_def by (rule build_from_decides) (rule assms(5), simp_all)
  then show ?thesis
  proof (elim disjE bexE exE conjE)
    fix row assume row: "row \<in> set (tv_rows ?v)" "build_candidates env r = Inl (OversizedRow (ri_identifier row))"
      "\<not> alone env ?d (tv_parameters ?v) row"
    then show ?thesis
      by (intro disjI2 bexI [of _ row] conjI) (auto simp: pack_prepare_def packing_failure_def failed_task_def details_def pureM_def)
  next
    fix cs assume cs: "build_candidates env r = Inr cs"
    from build_from_Inr [OF this [unfolded build_candidates_def]] have rows: "concat (map cp_rows cs) = tv_rows ?v"
        and good: "list_all (good_pack env ?d (tv_parameters ?v)) cs" by (simp_all add: open_pack_def)
    from assms(1) have ids: "distinct (map ri_identifier (concat (map cp_rows cs)))" "tv_rows ?v \<noteq> []" by (simp_all add: rows)
    have "distinct (map ri_identifier (cp_rows c)) \<and> (\<forall>row \<in> set (cp_rows c). \<not> blank (ri_identifier row))" if c: "c \<in> set cs" for c
    proof
      from c obtain cs1 cs2 where "cs = cs1 @ c # cs2" by (meson split_list)
      with ids(1) show "distinct (map ri_identifier (cp_rows c))" by simp
      have "set (cp_rows c) \<subseteq> set (concat (map cp_rows cs))" using c by auto
      then show "\<forall>row \<in> set (cp_rows c). \<not> blank (ri_identifier row)" using assms(4) unfolding rows by blast
    qed
    then obtain pw s' where run: "persist_packs env ?d 0 cs s = (Inr pw, s')"
      using persist_returns [OF assms(6,3) good, of 0 s] by auto
    from persist_Inr [OF run] obtain refs where refs: "length refs = length cs" "fst pw = packs_from ?d 0 cs"
        "snd pw = map2 (work_of ?d) refs cs" by blast
    have "cs \<noteq> []" using rows ids(2) by auto
    then have "packs_from ?d 0 cs \<noteq> []" by (cases cs) simp_all
    then have "PreparedTask_post \<lparr>pt_definition = ?d, pt_invocation = ?v, pt_packs = fst pw, pt_model_work = snd pw\<rparr>
        = Inr \<lparr>pt_definition = ?d, pt_invocation = ?v, pt_packs = fst pw, pt_model_work = snd pw\<rparr>"
      using refs assms(2) rows by (simp add: PreparedTask_post_def packs_ids check_packs_ok)
    with cs run show ?thesis by (simp add: pack_prepare_def bindM_def liftR_def pureM_def)
  qed
qed


section \<open>Samples\<close>

lemma canonical_plain_dumpable:
  shows "canonical_plain v = Inr w \<Longrightarrow> dumpable f w"
    and "canonical_plain_list vs = Inr ws \<Longrightarrow> list_all (dumpable f) ws"
    and "canonical_plain_entries kvs = Inr kws \<Longrightarrow> list_all (\<lambda>p. is_str (fst p)) kvs \<Longrightarrow>
      list_all (\<lambda>p. is_str (fst p) \<and> dumpable f (snd p)) kws"
    and "canonical_plain_items m = Inr kvs' \<Longrightarrow> list_all (\<lambda>p. is_str (fst p) \<and> dumpable f (snd p)) kvs'"
proof (induction v and vs and kvs and m arbitrary: w and ws and kws and kvs'
    rule: canonical_plain_canonical_plain_list_canonical_plain_entries_canonical_plain_items.induct)
qed (auto simp: bindR_Inr split: pyfloat.splits if_splits)

lemma payload_exists:
  assumes "\<exists>p. canonical_plain (VFrozen params) = Inr p" and "\<exists>p. canonical_plain (VFrozen (td_output_schema d)) = Inr p"
    and "\<forall>r \<in> set rows. \<exists>p. canonical_plain (VFrozen (ri_source_fields r)) = Inr p"
  shows "\<exists>b. canonical_payload_bytes frepr (payload_object d params rows) = Inr b"
proof -
  have "\<exists>ws. canonical_plain_list (map (\<lambda>r. VDict [(VStr ''id'', VStr (ri_identifier r)), (VStr ''source'', VFrozen (ri_source_fields r))]) rows) = Inr ws"
    using assms(3) by (induction rows) (auto simp: bindR_Inr)
  with assms(1,2) obtain v where "canonical_plain (payload_object d params rows) = Inr v"
    by (auto simp: payload_object_def bindR_Inr)
  moreover from canonical_plain_dumpable(1) [OF this] obtain t where "dumps (compact False False frepr) v = Inr t"
    unfolding dumpable_def by blast
  ultimately show ?thesis by (simp add: canonical_payload_bytes_def)
qed

definition sample_packer :: "string list packer_env" where
  "sample_packer = \<lparr>pe_input = (\<lambda>b. Inr (VInt 1)), pe_output = (\<lambda>d n. Inr (VInt n)),
     pe_put = (\<lambda>b h s. (Inr ''ref'', s @ [b])), pe_sha = (\<lambda>b. b), pe_float = (\<lambda>_. [])\<rparr>"

definition sample_resolved :: resolved_task where
  "sample_resolved = \<lparr>rt_definition = sample_definition, rt_invocation = sample_invocation\<rparr>"

lemma sample_candidates:
  assumes "set rows \<subseteq> set (tv_rows (rt_invocation sample_resolved))"
  shows "\<exists>c. pack_candidate sample_packer (rt_definition sample_resolved) (tv_parameters (rt_invocation sample_resolved)) rows = Inr c"
proof -
  have "\<exists>b. canonical_payload_bytes (pe_float sample_packer)
      (payload_object (rt_definition sample_resolved) (tv_parameters (rt_invocation sample_resolved)) rows) = Inr b"
    using assms
    by (intro payload_exists) (auto simp: sample_resolved_def sample_invocation_def sample_definition_def seed_definition_def
        task_output_schema_def Let_def bindR_Inr)
  then show ?thesis by (auto simp: pack_candidate_def sample_packer_def estimate_value_def bindR_def)
qed

lemma packing_fails_only_on_oversized_row_witness:
  "(\<exists>t s'. pack_prepare sample_packer sample_resolved [] = (Inr (Inr t), s'))
    \<or> (\<exists>row \<in> set (tv_rows (rt_invocation sample_resolved)).
        \<not> alone sample_packer (rt_definition sample_resolved) (tv_parameters (rt_invocation sample_resolved)) row
        \<and> (\<exists>f. pack_prepare sample_packer sample_resolved [] = (Inr (Inl f), []) \<and> xf_code f = OVERSIZED_ROW
            \<and> fm_get (xf_details f) ''row_id'' = Some (VStr (ri_identifier row))))"
proof (rule packing_fails_only_on_oversized_row)
  show "TaskInvocation_post (rt_invocation sample_resolved) = Inr (rt_invocation sample_resolved)"
    "td_function (rt_definition sample_resolved) = tv_function (rt_invocation sample_resolved)"
    using sample_constructed by (simp_all add: sample_resolved_def)
  show "\<not> blank (td_version (rt_definition sample_resolved))" by (simp add: sample_resolved_def sample_definition_def)
  show "\<forall>row \<in> set (tv_rows (rt_invocation sample_resolved)). \<not> blank (ri_identifier row)"
    by (simp add: sample_resolved_def sample_invocation_def)
  show "\<exists>c. pack_candidate sample_packer (rt_definition sample_resolved) (tv_parameters (rt_invocation sample_resolved)) rows = Inr c"
    if "set rows \<subseteq> set (tv_rows (rt_invocation sample_resolved))" for rows
    using that by (rule sample_candidates)
  show "\<exists>ref s'. pe_put sample_packer b h s = (Inr ref, s') \<and> \<not> blank ref" for b h s
    by (simp add: sample_packer_def)
qed

text \<open>One row, with the payload limit set to the size of its payload.\<close>

definition sample_row :: row_input where
  "sample_row = \<lparr>ri_identifier = ''a'', ri_source_fields = [(''text'', VStr ''x'')]\<rparr>"

definition sample_size :: int where
  "sample_size = int (length (cp_payload (projr
     (pack_candidate sample_packer sample_definition (tv_parameters sample_invocation) [sample_row]))))"

definition sample_single :: resolved_task where
  "sample_single = \<lparr>rt_definition = sample_definition\<lparr>td_packing_limits :=
       \<lparr>pl_max_items = 1, pl_max_input_tokens = 1, pl_max_output_tokens = 1, pl_max_payload_bytes = sample_size\<rparr>\<rparr>,
     rt_invocation = sample_invocation\<lparr>tv_rows := [sample_row]\<rparr>\<rparr>"

lemma sample_single_packed: "\<exists>t s'. pack_prepare sample_packer sample_single [] = (Inr (Inr t), s')"
proof -
  let ?d = "rt_definition sample_single" and ?ps = "tv_parameters (rt_invocation sample_single)"
  have "set [sample_row] \<subseteq> set (tv_rows (rt_invocation sample_resolved))"
    by (simp add: sample_resolved_def sample_invocation_def sample_row_def)
  from sample_candidates [OF this] obtain c
    where c: "pack_candidate sample_packer sample_definition (tv_parameters sample_invocation) [sample_row] = Inr c"
    by (auto simp: sample_resolved_def)
  have "pack_candidate sample_packer ?d ?ps [sample_row] = Inr c"
    using c by (simp add: sample_single_def pack_candidate_def payload_object_def sample_packer_def)
  moreover have "pack_fits ?d c"
    using c pack_candidate_Inr(1) [OF c]
    by (auto simp: pack_fits_def sample_single_def sample_size_def pack_candidate_def sample_packer_def estimate_value_def bindR_Inr)
  ultimately have build: "build_candidates sample_packer sample_single = Inr [c]"
    by (simp add: build_candidates_def sample_single_def)
  from c \<open>pack_fits ?d c\<close> \<open>pack_candidate sample_packer ?d ?ps [sample_row] = Inr c\<close> pack_candidate_Inr(1) [OF c]
  have good: "list_all (good_pack sample_packer ?d ?ps) [c]" by (simp add: good_pack_def)
  have "\<exists>pw s'. persist_packs sample_packer ?d 0 [c] [] = (Inr pw, s')"
    by (rule persist_returns [OF _ _ good])
      (use pack_candidate_Inr(1) [OF c] in \<open>simp_all add: sample_packer_def sample_single_def sample_definition_def sample_row_def\<close>)
  then obtain pw s' where run: "persist_packs sample_packer ?d 0 [c] [] = (Inr pw, s')" by blast
  from persist_Inr [OF run] obtain refs where refs: "length refs = Suc 0" "fst pw = packs_from ?d 0 [c]"
      "snd pw = map2 (work_of ?d) refs [c]" by auto
  then have "PreparedTask_post \<lparr>pt_definition = ?d, pt_invocation = rt_invocation sample_single, pt_packs = fst pw, pt_model_work = snd pw\<rparr>
      = Inr \<lparr>pt_definition = ?d, pt_invocation = rt_invocation sample_single, pt_packs = fst pw, pt_model_work = snd pw\<rparr>"
    using check_packs_ok [of refs "[c]" ?d 0] pack_candidate_Inr(1) [OF c]
    by (simp add: PreparedTask_post_def pack_of_def) (simp add: sample_single_def sample_definition_def seed_definition_def sample_invocation_def)
  with build run show ?thesis by (simp add: pack_prepare_def bindM_def liftR_def pureM_def)
qed

lemma packs_exact_and_greedy_witness:
  "\<exists>(t :: prepared_task) (cs :: candidate_pack list). pt_packs t = packs_from (rt_definition sample_single) 0 cs \<and> concat (map cp_rows cs) = [sample_row]"
proof -
  obtain t s' where run: "pack_prepare sample_packer sample_single [] = (Inr (Inr t), s')" using sample_single_packed by blast
  from packs_exact_and_greedy [OF this] obtain cs where "pt_packs t = packs_from (rt_definition sample_single) 0 cs"
      "concat (map cp_rows cs) = tv_rows (rt_invocation sample_single)"
    by (elim exE conjE) (rule that)
  moreover have "tv_rows (rt_invocation sample_single) = [sample_row]" by (simp add: sample_single_def)
  ultimately show ?thesis by (intro exI [of _ t] exI [of _ cs]) simp
qed

end
