(* ===== verification/Json_Reader.thy ===== *)
theory Json_Reader
  imports Json
begin

text \<open>
  The reading side of the text layer: \<open>bytes.decode('utf-8')\<close> and \<open>json.loads\<close> with the hooks
  the program passes. The texts of the model consist of code points below 256; what stands
  for a greater one is a parameter, and so is the number a float literal denotes. The depth
  at which the interpreter gives up (\<open>RecursionError\<close>) is a parameter as well.
\<close>

record json_reader =
  jr_wide :: "nat \<Rightarrow> string"
  jr_float :: "string \<Rightarrow> pyfloat"
  jr_depth :: nat
  jr_unique :: bool
  jr_constants :: bool

definition code_text :: "json_reader \<Rightarrow> nat \<Rightarrow> string" where
  "code_text j n = (if n < 256 then [char_of n] else jr_wide j n)"

section \<open>UTF-8\<close>

definition continuation :: "nat \<Rightarrow> bool" where
  "continuation n \<longleftrightarrow> 128 \<le> n \<and> n < 192"

definition decode_error :: exn where
  "decode_error = ForeignError ''UnicodeDecodeError'' ''invalid utf-8''"

text \<open>Strict decoding: no overlong form, no surrogate, nothing beyond the last code point.\<close>

fun utf8_points :: "nat list \<Rightarrow> nat list res" where
  "utf8_points [] = Inr []"
| "utf8_points (a # bs) =
     (if a < 128 then bindR (utf8_points bs) (\<lambda>ps. Inr (a # ps))
      else case bs of
        [] \<Rightarrow> Inl decode_error
      | b # cs \<Rightarrow>
          if 194 \<le> a \<and> a < 224 \<and> continuation b
          then bindR (utf8_points cs) (\<lambda>ps. Inr (((a - 192) * 64 + (b - 128)) # ps))
          else (case cs of
            [] \<Rightarrow> Inl decode_error
          | c # ds \<Rightarrow>
              if 224 \<le> a \<and> a < 240 \<and> continuation b \<and> continuation c \<and> (a = 224 \<longrightarrow> 160 \<le> b) \<and> (a = 237 \<longrightarrow> b < 160)
              then bindR (utf8_points ds) (\<lambda>ps. Inr (((a - 224) * 4096 + (b - 128) * 64 + (c - 128)) # ps))
              else (case ds of
                [] \<Rightarrow> Inl decode_error
              | d # es \<Rightarrow>
                  if 240 \<le> a \<and> a < 245 \<and> continuation b \<and> continuation c \<and> continuation d
                    \<and> (a = 240 \<longrightarrow> 144 \<le> b) \<and> (a = 244 \<longrightarrow> b < 144)
                  then bindR (utf8_points es) (\<lambda>ps.
                    Inr (((a - 240) * 262144 + (b - 128) * 4096 + (c - 128) * 64 + (d - 128)) # ps))
                  else Inl decode_error)))"

definition decode_utf8 :: "json_reader \<Rightarrow> string \<Rightarrow> string res" where
  "decode_utf8 j b = bindR (utf8_points (map of_char b)) (\<lambda>ps. Inr (concat (map (code_text j) ps)))"

section \<open>json.loads\<close>

definition json_error :: exn where
  "json_error = ForeignError ''JSONDecodeError'' ''invalid JSON''"

definition recursion_error :: exn where
  "recursion_error = ForeignError ''RecursionError'' ''maximum recursion depth exceeded''"

definition json_space :: "char \<Rightarrow> bool" where
  "json_space c \<longleftrightarrow> c \<in> {CHR '' '', CHR 0x09, CHR 0x0A, CHR 0x0D}"

definition skip_space :: "string \<Rightarrow> string" where
  "skip_space s = dropWhile json_space s"

definition is_digit :: "char \<Rightarrow> bool" where
  "is_digit c \<longleftrightarrow> 48 \<le> (of_char c :: nat) \<and> (of_char c :: nat) \<le> 57"

definition digit_value :: "char \<Rightarrow> int" where
  "digit_value c = int (of_char c) - 48"

definition digits_value :: "string \<Rightarrow> int" where
  "digits_value ds = foldl (\<lambda>n c. 10 * n + digit_value c) 0 ds"

text \<open>\<open>int\<close> refuses more than 4300 digits.\<close>

definition int_digits :: nat where "int_digits = 4300"

definition int_limit :: "nat \<Rightarrow> exn" where
  "int_limit n = ValueError (''Exceeds the limit (4300 digits) for integer string conversion: value has ''
     @ decimal (int n) @ '' digits; use sys.set_int_max_str_digits() to increase the limit'')"

definition read_int :: "string \<Rightarrow> string \<Rightarrow> pyval res" where
  "read_int sign ds =
     (if int_digits < length ds then Inl (int_limit (length ds))
      else Inr (VInt (if sign = [] then digits_value ds else - digits_value ds)))"

text \<open>The fraction and the exponent are only consumed when a digit follows.\<close>

definition read_fraction :: "string \<Rightarrow> string \<times> string" where
  "read_fraction s = (case s of
     c # d # r \<Rightarrow> if c = CHR ''.'' \<and> is_digit d then (c # takeWhile is_digit (d # r), dropWhile is_digit (d # r)) else ([], s)
   | _ \<Rightarrow> ([], s))"

definition read_exponent :: "string \<Rightarrow> string \<times> string" where
  "read_exponent s = (case s of
     e # r \<Rightarrow>
       if e \<in> {CHR ''e'', CHR ''E''} then
         (let sign = takeWhile (\<lambda>c. c \<in> {CHR ''+'', CHR ''-''}) (take 1 r); ds = drop (length sign) r in
          if ds \<noteq> [] \<and> is_digit (hd ds) then (e # sign @ takeWhile is_digit ds, dropWhile is_digit ds) else ([], s))
       else ([], s)
   | [] \<Rightarrow> ([], s))"

definition read_number :: "json_reader \<Rightarrow> string \<Rightarrow> (pyval \<times> string) res" where
  "read_number j s =
     (let sign = (if s \<noteq> [] \<and> hd s = CHR ''-'' then ''-'' else []);
          s1 = drop (length sign) s;
          whole = (if s1 \<noteq> [] \<and> hd s1 = CHR ''0'' then ''0'' else takeWhile is_digit s1);
          s2 = drop (length whole) s1 in
      if whole = [] then Inl json_error
      else (let (fraction, s3) = read_fraction s2; (ex, s4) = read_exponent s3 in
            if fraction = [] \<and> ex = [] then bindR (read_int sign whole) (\<lambda>v. Inr (v, s4))
            else Inr (VFloat (jr_float j (sign @ whole @ fraction @ ex)), s4)))"

definition hex_value :: "char \<Rightarrow> nat option" where
  "hex_value c = (let n = of_char c :: nat in
     if 48 \<le> n \<and> n \<le> 57 then Some (n - 48) else if 65 \<le> n \<and> n \<le> 70 then Some (n - 55)
     else if 97 \<le> n \<and> n \<le> 102 then Some (n - 87) else None)"

definition read_unit :: "string \<Rightarrow> (nat \<times> string) option" where
  "read_unit s = (case s of
     a # b # c # d # r \<Rightarrow>
       (case (hex_value a, hex_value b, hex_value c, hex_value d) of
          (Some w, Some x, Some y, Some z) \<Rightarrow> Some (4096 * w + 256 * x + 16 * y + z, r)
        | _ \<Rightarrow> None)
   | _ \<Rightarrow> None)"

text \<open>A high surrogate followed by the escape of a low one is one code point.\<close>

definition read_escape :: "json_reader \<Rightarrow> string \<Rightarrow> (string \<times> string) option" where
  "read_escape j s = (case s of
     [] \<Rightarrow> None
   | e # r \<Rightarrow>
       if e \<in> {CHR 0x22, CHR 0x5C, CHR ''/''} then Some ([e], r)
       else if e = CHR ''b'' then Some ([CHR 0x08], r)
       else if e = CHR ''f'' then Some ([CHR 0x0C], r)
       else if e = CHR ''n'' then Some ([CHR 0x0A], r)
       else if e = CHR ''r'' then Some ([CHR 0x0D], r)
       else if e = CHR ''t'' then Some ([CHR 0x09], r)
       else if e = CHR ''u'' then
         (case read_unit r of
            None \<Rightarrow> None
          | Some (high, r1) \<Rightarrow>
              (case (if 55296 \<le> high \<and> high < 56320 \<and> take 2 r1 = [CHR 0x5C, CHR ''u''] then read_unit (drop 2 r1) else None) of
                 Some (low, r2) \<Rightarrow>
                   if 56320 \<le> low \<and> low < 57344
                   then Some (code_text j (65536 + (high - 55296) * 1024 + (low - 56320)), r2)
                   else Some (code_text j high, r1)
               | None \<Rightarrow> Some (code_text j high, r1)))
       else None)"

text \<open>The rest of a string after its opening quote, with fuel for its length; control
  characters are refused.\<close>

fun read_chars :: "json_reader \<Rightarrow> nat \<Rightarrow> string \<Rightarrow> (string \<times> string) res" where
  "read_chars j 0 s = Inl json_error"
| "read_chars j (Suc n) [] = Inl json_error"
| "read_chars j (Suc n) (c # r) =
     (if c = CHR 0x22 then Inr ([], r)
      else if c = CHR 0x5C then
        (case read_escape j r of
           None \<Rightarrow> Inl json_error
         | Some (t, r') \<Rightarrow> bindR (read_chars j n r') (\<lambda>p. Inr (t @ fst p, snd p)))
      else if (of_char c :: nat) < 32 then Inl json_error
      else bindR (read_chars j n r) (\<lambda>p. Inr (c # fst p, snd p)))"

definition read_string :: "json_reader \<Rightarrow> string \<Rightarrow> (string \<times> string) res" where
  "read_string j r = read_chars j (Suc (length r)) r"

text \<open>\<open>object_pairs_hook=_object_from_pairs\<close> refuses a repeated key; without it the last value
  wins. \<open>parse_constant=_reject_constant\<close> refuses the three constants.\<close>

definition object_of :: "json_reader \<Rightarrow> (string \<times> pyval) list \<Rightarrow> pyval res" where
  "object_of j kvs =
     (if jr_unique j \<and> \<not> distinct (map fst kvs) then Inl (ForeignError ''_DuplicateKeyError'' [])
      else Inr (VDict (foldl (\<lambda>d kv. dset (VStr (fst kv)) (snd kv) d) [] kvs)))"

definition constant_of :: "json_reader \<Rightarrow> pyfloat \<Rightarrow> string \<Rightarrow> (pyval \<times> string) res" where
  "constant_of j x r = (if jr_constants j then Inr (VFloat x, r) else Inl (ForeignError ''_NonFiniteNumberError'' []))"

definition literal :: "string \<Rightarrow> string \<Rightarrow> bool" where
  "literal t s \<longleftrightarrow> take (length t) s = t"

fun read_value :: "json_reader \<Rightarrow> nat \<Rightarrow> nat \<Rightarrow> string \<Rightarrow> (pyval \<times> string) res"
and read_elements :: "json_reader \<Rightarrow> nat \<Rightarrow> nat \<Rightarrow> string \<Rightarrow> (pyval list \<times> string) res"
and read_members :: "json_reader \<Rightarrow> nat \<Rightarrow> nat \<Rightarrow> string \<Rightarrow> ((string \<times> pyval) list \<times> string) res" where
  "read_value j d 0 s = Inl json_error"
| "read_value j d (Suc n) s =
     (if s = [] then Inl json_error
      else if hd s = CHR 0x22 then bindR (read_string j (tl s)) (\<lambda>p. Inr (VStr (fst p), snd p))
      else if hd s = CHR ''['' then
        (if d = 0 then Inl recursion_error
         else let r = skip_space (tl s) in
           if r \<noteq> [] \<and> hd r = CHR '']'' then Inr (VList [], tl r)
           else bindR (read_elements j (d - 1) n r) (\<lambda>p. Inr (VList (fst p), snd p)))
      else if hd s = CHR ''{'' then
        (if d = 0 then Inl recursion_error
         else let r = skip_space (tl s) in
           if r \<noteq> [] \<and> hd r = CHR ''}'' then bindR (object_of j []) (\<lambda>v. Inr (v, tl r))
           else bindR (read_members j (d - 1) n r) (\<lambda>p. bindR (object_of j (fst p)) (\<lambda>v. Inr (v, snd p))))
      else if literal ''null'' s then Inr (VNone, drop 4 s)
      else if literal ''true'' s then Inr (VBool True, drop 4 s)
      else if literal ''false'' s then Inr (VBool False, drop 5 s)
      else if literal ''NaN'' s then constant_of j NaN (drop 3 s)
      else if literal ''Infinity'' s then constant_of j PosInf (drop 8 s)
      else if literal ''-Infinity'' s then constant_of j NegInf (drop 9 s)
      else read_number j s)"
| "read_elements j d 0 s = Inl json_error"
| "read_elements j d (Suc n) s =
     bindR (read_value j d n s) (\<lambda>p.
       let r = skip_space (snd p) in
       if r \<noteq> [] \<and> hd r = CHR '']'' then Inr ([fst p], tl r)
       else if r \<noteq> [] \<and> hd r = CHR '','' then
         bindR (read_elements j d n (skip_space (tl r))) (\<lambda>q. Inr (fst p # fst q, snd q))
       else Inl json_error)"
| "read_members j d 0 s = Inl json_error"
| "read_members j d (Suc n) s =
     (if s = [] \<or> hd s \<noteq> CHR 0x22 then Inl json_error
      else bindR (read_string j (tl s)) (\<lambda>k.
        let r = skip_space (snd k) in
        if r = [] \<or> hd r \<noteq> CHR '':'' then Inl json_error
        else bindR (read_value j d n (skip_space (tl r))) (\<lambda>p.
          let r = skip_space (snd p) in
          if r \<noteq> [] \<and> hd r = CHR ''}'' then Inr ([(fst k, fst p)], tl r)
          else if r \<noteq> [] \<and> hd r = CHR '','' then
            bindR (read_members j d n (skip_space (tl r))) (\<lambda>q. Inr ((fst k, fst p) # fst q, snd q))
          else Inl json_error)))"

text \<open>Every call consumes a character or is followed by one that does, so twice the length of
  the text is enough fuel.\<close>

definition loads :: "json_reader \<Rightarrow> string \<Rightarrow> pyval res" where
  "loads j s =
     bindR (read_value j (jr_depth j) (2 * length s + 2) (skip_space s)) (\<lambda>p.
       if skip_space (snd p) = [] then Inr (fst p) else Inl json_error)"


section \<open>Strings are read back\<close>

lemma skip_space_same [simp]: "s \<noteq> [] \<Longrightarrow> \<not> json_space (hd s) \<Longrightarrow> skip_space s = s"
  by (cases s) (auto simp: skip_space_def)

lemma skip_space_Nil [simp]: "skip_space [] = []"
  by (simp add: skip_space_def)

lemma hex_value_digit: "k < 16 \<Longrightarrow> hex_value (hex_digit k) = Some k"
  by (auto simp: hex_value_def hex_digit_def Let_def)

lemma hex_value_zero: "hex_value (CHR ''0'') = Some 0"
  by (simp add: hex_value_def)

lemma read_unit_escape:
  "read_unit (''00'' @ [hex_digit ((of_char c :: nat) div 16), hex_digit (of_char c mod 16)] @ r) = Some (of_char c, r)"
proof -
  have "(of_char c :: nat) < 256" using nat_of_char_less_256 .
  then have "(of_char c :: nat) div 16 < 16" by linarith
  then show ?thesis
    by (simp add: read_unit_def hex_value_digit hex_value_zero)
qed

lemma read_chars_char:
  "read_chars j (Suc n) (json_char asc c @ r) = bindR (read_chars j n r) (\<lambda>p. Inr (c # fst p, snd p))"
proof -
  have small: "\<not> 55296 \<le> (of_char c :: nat)" using nat_of_char_less_256 [of c] by linarith
  have wide: "code_text j (of_char c) = [c]" using nat_of_char_less_256 [of c] by (simp add: code_text_def)
  consider "c \<in> {CHR 0x22, CHR 0x5C, CHR 0x0A, CHR 0x0D, CHR 0x09, CHR 0x0C, CHR 0x08}"
    | "c \<notin> {CHR 0x22, CHR 0x5C, CHR 0x0A, CHR 0x0D, CHR 0x09, CHR 0x0C, CHR 0x08}" "json_char asc c = unicode_escape c"
    | "c \<notin> {CHR 0x22, CHR 0x5C, CHR 0x0A, CHR 0x0D, CHR 0x09, CHR 0x0C, CHR 0x08}" "json_char asc c = [c]" "\<not> (of_char c :: nat) < 32"
  proof (cases "c \<in> {CHR 0x22, CHR 0x5C, CHR 0x0A, CHR 0x0D, CHR 0x09, CHR 0x0C, CHR 0x08}")
    case True
    then show thesis by (rule that(1))
  next
    case False
    then have "json_char asc c = (if (of_char c :: nat) < 32 \<or> asc \<and> 126 < (of_char c :: nat) then unicode_escape c else [c])"
      by (simp add: json_char_def)
    with False that(2,3) show thesis by (cases "(of_char c :: nat) < 32 \<or> asc \<and> 126 < (of_char c :: nat)") auto
  qed
  then show ?thesis
  proof cases
    case 1
    then show ?thesis by (auto simp: json_char_def read_escape_def)
  next
    case 2
    have "read_escape j (CHR ''u'' # ''00'' @ [hex_digit ((of_char c :: nat) div 16), hex_digit (of_char c mod 16)] @ r) = Some ([c], r)"
      using small by (simp add: read_escape_def read_unit_escape [simplified] wide)
    with 2 show ?thesis by (simp add: unicode_escape_def Let_def)
  next
    case 3
    then show ?thesis by simp
  qed
qed

lemma read_chars_string: "length s < n \<Longrightarrow> read_chars j n (concat (map (json_char asc) s) @ CHR 0x22 # r) = Inr (s, r)"
proof (induction s arbitrary: n)
  case Nil
  then show ?case by (cases n) auto
next
  case (Cons c s)
  then obtain m where m: "n = Suc m" "length s < m" by (cases n) auto
  with Cons.IH [OF m(2)] show ?case by (simp add: read_chars_char)
qed

lemma json_char_length: "1 \<le> length (json_char asc c)"
  by (simp add: json_char_def unicode_escape_def Let_def)

lemma read_string_json: "read_string j (concat (map (json_char asc) s) @ CHR 0x22 # r) = Inr (s, r)"
proof -
  have "length s \<le> length (concat (map (json_char asc) s))"
  proof (induction s)
    case (Cons c s)
    with json_char_length [of asc c] show ?case by simp
  qed simp
  then show ?thesis unfolding read_string_def by (intro read_chars_string) simp
qed

section \<open>Numerals are read back\<close>

definition ends_number :: "string \<Rightarrow> bool" where
  "ends_number r \<longleftrightarrow> r = [] \<or> hd r \<in> {CHR '','', CHR '']'', CHR ''}''}"

lemma digit_zero [simp]: "digit 0 = CHR ''0''"
  unfolding digit_def by code_simp

lemma is_digit_digit [simp]: "n < 10 \<Longrightarrow> is_digit (digit n)" "n < 10 \<Longrightarrow> digit_value (digit n) = int n"
  by (simp_all add: is_digit_def digit_value_def digit_def)

lemma digits_are: "list_all is_digit (digits n)"
proof (induction n rule: digits.induct)
  case (1 n)
  then show ?case by (subst digits.simps) (auto intro!: is_digit_digit)
qed

lemma digits_value_snoc: "digits_value (ds @ [c]) = 10 * digits_value ds + digit_value c"
  by (simp add: digits_value_def)

lemma digits_read: "digits_value (digits n) = int n"
proof (induction n rule: digits.induct)
  case (1 n)
  show ?case
  proof (cases "n < 10")
    case True
    then have "digits n = [digit n]" by (subst digits.simps) simp
    with True show ?thesis by (simp add: digits_value_def)
  next
    case False
    then have "digits n = digits (n div 10) @ [digit (n mod 10)]" by (subst digits.simps) simp
    with False 1 show ?thesis by (simp add: digits_value_snoc) presburger
  qed
qed

lemma digits_zero: "digits n \<noteq> []" "hd (digits n) = CHR ''0'' \<longleftrightarrow> n = 0"
proof -
  have "digits n \<noteq> [] \<and> (hd (digits n) = CHR ''0'' \<longleftrightarrow> n = 0)"
  proof (induction n rule: digits.induct)
    case (1 n)
    show ?case
    proof (cases "n < 10")
      case True
      then have "digits n = [digit n]" by (subst digits.simps) simp
      moreover have "digit n = CHR ''0'' \<longleftrightarrow> n = 0"
      proof
        assume "digit n = CHR ''0''"
        then have "digit_value (digit n) = 0" by (simp add: digit_value_def)
        with True show "n = 0" by simp
      qed simp
      ultimately show ?thesis by simp
    next
      case False
      then have "digits n = digits (n div 10) @ [digit (n mod 10)]" by (subst digits.simps) simp
      with False 1 show ?thesis by auto
    qed
  qed
  then show "digits n \<noteq> []" "hd (digits n) = CHR ''0'' \<longleftrightarrow> n = 0" by auto
qed

lemma ends_number_stops [simp]:
  assumes "ends_number r"
  shows "takeWhile is_digit r = []" "dropWhile is_digit r = r" "read_fraction r = ([], r)" "read_exponent r = ([], r)"
  using assms by (cases r; auto simp: ends_number_def is_digit_def read_fraction_def read_exponent_def split: list.splits)+

lemma takeWhile_digits:
  "list_all is_digit ds \<Longrightarrow> ends_number r \<Longrightarrow> takeWhile is_digit (ds @ r) = ds"
  by (induction ds) auto

lemma read_number_digits:
  assumes "list_all is_digit ds" and "ds \<noteq> []" and "hd ds = CHR ''0'' \<longrightarrow> ds = ''0''" and "ends_number r"
  shows "read_number j (ds @ r) = bindR (read_int [] ds) (\<lambda>v. Inr (v, r))"
    and "read_number j (CHR ''-'' # ds @ r) = bindR (read_int ''-'' ds) (\<lambda>v. Inr (v, r))"
proof -
  from assms(1,2) have "is_digit (hd ds)" by (cases ds) auto
  then have minus: "hd ds \<noteq> CHR ''-''" by (auto simp: is_digit_def)
  note sums = read_number_def Let_def assms(2,4) takeWhile_digits [OF assms(1,4)] minus
  show "read_number j (ds @ r) = bindR (read_int [] ds) (\<lambda>v. Inr (v, r))"
    using assms(3) by (cases "hd ds = CHR ''0''") (auto simp: sums)
  show "read_number j (CHR ''-'' # ds @ r) = bindR (read_int ''-'' ds) (\<lambda>v. Inr (v, r))"
    using assms(3) by (cases "hd ds = CHR ''0''") (auto simp: sums)
qed

lemma read_number_decimal:
  assumes "length (digits (nat \<bar>i\<bar>)) \<le> int_digits" and "ends_number r"
  shows "read_number j (decimal i @ r) = Inr (VInt i, r)"
proof -
  let ?ds = "digits (nat \<bar>i\<bar>)"
  have zero: "hd ?ds = CHR ''0'' \<longrightarrow> ?ds = ''0''"
    unfolding digits_zero(2) by (auto simp: digits.simps)
  note run = read_number_digits [OF digits_are digits_zero(1) zero assms(2)]
  show ?thesis
  proof (cases "i < 0")
    case True
    with assms(1) run(2) show ?thesis by (simp add: decimal_def read_int_def digits_read)
  next
    case False
    with assms(1) run(1) show ?thesis by (simp add: decimal_def read_int_def digits_read)
  qed
qed


section \<open>What is dumped is read back\<close>

text \<open>The values JSON has, floats apart; integers that can be read; and how deep they nest.\<close>

fun json_form :: "pyval \<Rightarrow> bool" where
  "json_form (VList xs) = (\<forall>x \<in> set xs. json_form x)"
| "json_form (VDict kvs) = (distinct (map fst kvs) \<and> (\<forall>p \<in> set kvs. is_str (fst p) \<and> json_form (snd p)))"
| "json_form (VInt i) = (length (digits (nat \<bar>i\<bar>)) \<le> int_digits)"
| "json_form v = (v = VNone \<or> (\<exists>b. v = VBool b) \<or> is_str v)"

fun nesting :: "pyval \<Rightarrow> nat" where
  "nesting (VList xs) = Suc (foldr max (map nesting xs) 0)"
| "nesting (VDict kvs) = Suc (foldr max (map (\<lambda>p. nesting (snd p)) kvs) 0)"
| "nesting v = 0"

text \<open>\<open>sort_keys=True\<close> puts the entries of every object in the order of their keys.\<close>

fun sorted_keys :: "pyval \<Rightarrow> pyval" where
  "sorted_keys (VList xs) = VList (map sorted_keys xs)"
| "sorted_keys (VDict kvs) = VDict (sort_key (\<lambda>p. str_of (fst p)) (map (\<lambda>p. (fst p, sorted_keys (snd p))) kvs))"
| "sorted_keys v = v"

lemma nesting_member: "x \<in> set xs \<Longrightarrow> nesting (g x) \<le> foldr max (map (\<lambda>x. nesting (g x)) xs) 0"
  by (induction xs) auto

definition dumped :: "json_format \<Rightarrow> pyval \<Rightarrow> string" where
  "dumped f v = projr (dumps f v)"

lemma dumps_list_texts: "dumps_list f xs = Inr ts \<Longrightarrow> ts = map (dumped f) xs \<and> (\<forall>x \<in> set xs. dumps f x = Inr (dumped f x))"
  by (induction xs arbitrary: ts) (auto simp: bindR_Inr dumped_def)

lemma dumps_items_texts:
  "dumps_items f kvs = Inr ts \<Longrightarrow> ts = map (\<lambda>p. (str_of (fst p), dumped f (snd p))) kvs
     \<and> (\<forall>p \<in> set kvs. is_str (fst p) \<and> dumps f (snd p) = Inr (dumped f (snd p)))"
proof (induction kvs arbitrary: ts)
  case (Cons p kvs)
  then show ?case by (cases p) (auto simp: bindR_Inr dumped_def split: if_splits)
qed simp

lemma insort_key_map: "insort_key g (h x) (map h xs) = map h (insort_key (\<lambda>x. g (h x)) x xs)"
  by (induction xs) auto

lemma sort_key_map: "sort_key g (map h xs) = map h (sort_key (\<lambda>x. g (h x)) xs)"
  by (induction xs) (auto simp: insort_key_map)

lemma is_digit_other:
  "is_digit c \<Longrightarrow> \<not> json_space c \<and> c \<noteq> CHR '']'' \<and> c \<noteq> CHR ''}'' \<and> c \<notin> {CHR 0x22, CHR ''['', CHR ''{'', CHR ''n'', CHR ''t'',
     CHR ''f'', CHR ''N'', CHR ''I'', CHR ''-''}"
  by (auto simp: is_digit_def json_space_def)

lemma dumps_first:
  assumes "dumps f v = Inr t" and "json_form v"
  shows "t \<noteq> [] \<and> \<not> json_space (hd t) \<and> hd t \<noteq> CHR '']'' \<and> hd t \<noteq> CHR ''}''"
proof (cases v)
  case (VInt i)
  have "is_digit (hd (digits n))" for n using digits_are [of n] digits_zero(1) [of n] by (cases "digits n") auto
  then have "\<not> json_space (hd (digits n)) \<and> hd (digits n) \<noteq> CHR '']'' \<and> hd (digits n) \<noteq> CHR ''}''" for n
    using is_digit_other by blast
  then show ?thesis using assms VInt digits_zero(1)
    by (cases "i < 0") (auto simp: decimal_def json_space_def)
qed (use assms in \<open>auto simp: json_string_def json_space_def bindR_Inr split: if_splits\<close>)


definition read_back :: "json_reader \<Rightarrow> json_format \<Rightarrow> pyval \<Rightarrow> bool" where
  "read_back j f v \<longleftrightarrow> (\<forall>d n r. nesting v \<le> d \<longrightarrow> 2 * length (dumped f v) \<le> n \<longrightarrow> ends_number r \<longrightarrow>
     read_value j d n (dumped f v @ r) = Inr (sorted_keys v, r))"

lemma ends_number_punctuation [simp]:
  "ends_number []" "ends_number (CHR '','' # r)" "ends_number (CHR '']'' # r)" "ends_number (CHR ''}'' # r)"
  by (simp_all add: ends_number_def)

lemma punctuation_no_space [simp]:
  "\<not> json_space (CHR '','')" "\<not> json_space (CHR '']'')" "\<not> json_space (CHR ''}'')" "\<not> json_space (CHR '':'')"
  "\<not> json_space (CHR ''['')" "\<not> json_space (CHR ''{'')" "\<not> json_space (CHR 0x22)"
  by (simp_all add: json_space_def)

definition first_ok :: "string \<Rightarrow> bool" where
  "first_ok t \<longleftrightarrow> t \<noteq> [] \<and> \<not> json_space (hd t) \<and> hd t \<noteq> CHR '']'' \<and> hd t \<noteq> CHR ''}''"

lemma read_elements_back:
  assumes "xs \<noteq> []" and "\<forall>x \<in> set xs. read_back j f x \<and> first_ok (dumped f x) \<and> nesting x \<le> d"
    and "2 * length (join '','' (map (dumped f) xs)) + 1 \<le> n"
  shows "read_elements j d n (join '','' (map (dumped f) xs) @ CHR '']'' # r) = Inr (map sorted_keys xs, r)"
  using assms
proof (induction xs arbitrary: n)
  case (Cons x xs)
  then obtain m where m: "n = Suc m" by (cases n) auto
  show ?case
  proof (cases xs)
    case Nil
    with Cons.prems m have "read_value j d m (dumped f x @ CHR '']'' # r) = Inr (sorted_keys x, CHR '']'' # r)"
      by (simp add: read_back_def)
    with Nil m show ?thesis by simp
  next
    case (Cons y ys)
    let ?rest = "join '','' (map (dumped f) xs)"
    have value_read: "read_value j d m (dumped f x @ CHR '','' # ?rest @ CHR '']'' # r) = Inr (sorted_keys x, CHR '','' # ?rest @ CHR '']'' # r)"
      using Cons.prems m Cons by (simp add: read_back_def)
    have "first_ok (dumped f y)" using Cons.prems(2) Cons by simp
    then have "first_ok (?rest @ CHR '']'' # r)" using Cons by (cases ys) (simp_all add: first_ok_def)
    then have skip: "skip_space (?rest @ CHR '']'' # r) = ?rest @ CHR '']'' # r" by (simp add: first_ok_def)
    have "read_elements j d m (?rest @ CHR '']'' # r) = Inr (map sorted_keys xs, r)"
      by (rule Cons.IH) (use Cons.prems Cons m in auto)
    with value_read skip m Cons show ?thesis by simp
  qed
qed simp

lemma read_members_back:
  fixes f :: json_format
  defines "entry p \<equiv> json_string (jf_ascii f) (str_of (fst p)) @ CHR '':'' # dumped f (snd p)"
  assumes "ps \<noteq> []" and "\<forall>p \<in> set ps. read_back j f (snd p) \<and> first_ok (dumped f (snd p)) \<and> nesting (snd p) \<le> d"
    and "2 * length (join '','' (map entry ps)) + 1 \<le> n"
  shows "read_members j d n (join '','' (map entry ps) @ CHR ''}'' # r)
    = Inr (map (\<lambda>p. (str_of (fst p), sorted_keys (snd p))) ps, r)"
  using assms(2-)
proof (induction ps arbitrary: n)
  case (Cons p ps)
  then obtain m where m: "n = Suc m" by (cases n) auto
  have key: "read_string j (tl (entry p @ s)) = Inr (str_of (fst p), CHR '':'' # dumped f (snd p) @ s)" for s
    by (simp add: entry_def json_string_def read_string_json)
  have first: "entry q \<noteq> []" "hd (entry q) = CHR 0x22" for q by (simp_all add: entry_def json_string_def)
  have skip: "skip_space (dumped f (snd p) @ s) = dumped f (snd p) @ s" for s
    using Cons.prems(2) by (simp add: first_ok_def)
  show ?case
  proof (cases ps)
    case Nil
    have "2 * length (dumped f (snd p)) \<le> m" using Cons.prems(3) m Nil by (simp add: entry_def)
    with Cons.prems(2) have "read_value j d m (dumped f (snd p) @ CHR ''}'' # r) = Inr (sorted_keys (snd p), CHR ''}'' # r)"
      by (simp add: read_back_def)
    with Nil m key [of "CHR ''}'' # r"] first skip [of "CHR ''}'' # r"] show ?thesis by simp
  next
    case (Cons q qs)
    let ?rest = "join '','' (map entry ps)"
    have "2 * length (dumped f (snd p)) \<le> m" using Cons.prems(3) m Cons by (simp add: entry_def)
    with Cons.prems(2) have value_read: "read_value j d m (dumped f (snd p) @ CHR '','' # ?rest @ CHR ''}'' # r)
        = Inr (sorted_keys (snd p), CHR '','' # ?rest @ CHR ''}'' # r)"
      by (simp add: read_back_def)
    have "?rest @ CHR ''}'' # r \<noteq> [] \<and> hd (?rest @ CHR ''}'' # r) = CHR 0x22" using first Cons by (cases qs) simp_all
    then have skip_rest: "skip_space (?rest @ CHR ''}'' # r) = ?rest @ CHR ''}'' # r" by simp
    have "read_members j d m (?rest @ CHR ''}'' # r) = Inr (map (\<lambda>p. (str_of (fst p), sorted_keys (snd p))) ps, r)"
      by (rule Cons.IH) (use Cons.prems Cons m in auto)
    with value_read skip_rest m Cons key [of "CHR '','' # ?rest @ CHR ''}'' # r"] first
      skip [of "CHR '','' # ?rest @ CHR ''}'' # r"] show ?thesis by simp
  qed
qed simp


lemma object_of_distinct:
  assumes "distinct (map fst kvs)"
  shows "object_of j kvs = Inr (VDict (map (\<lambda>p. (VStr (fst p), snd p)) kvs))"
proof -
  have "foldl (\<lambda>d kv. dset (VStr (fst kv)) (snd kv) d) d kvs = d @ map (\<lambda>p. (VStr (fst p), snd p)) kvs"
    if "\<forall>p \<in> set kvs. VStr (fst p) \<notin> set (map fst d)" for d :: "(pyval \<times> pyval) list"
    using assms that
  proof (induction kvs arbitrary: d)
    case (Cons kv kvs)
    have "dset (VStr (fst kv)) (snd kv) d = d @ [(VStr (fst kv), snd kv)]"
      by (rule dset_fresh) (use Cons.prems(2) in \<open>auto simp: map_of_eq_None_iff\<close>)
    moreover have "\<forall>p \<in> set kvs. VStr (fst p) \<notin> set (map fst (d @ [(VStr (fst kv), snd kv)]))"
      using Cons.prems by (force simp: image_iff)
    ultimately show ?case using Cons.IH [of "d @ [(VStr (fst kv), snd kv)]"] Cons.prems(1) by simp
  qed simp
  from this [of "[]"] assms show ?thesis by (simp add: object_of_def)
qed

lemma literal_Cons [simp]: "literal (a # t) (b # s) \<longleftrightarrow> a = b \<and> literal t s" "literal [] s" "literal (a # t) [] \<longleftrightarrow> False"
  by (auto simp: literal_def)

lemma read_value_int:
  assumes "length (digits (nat \<bar>i\<bar>)) \<le> int_digits" and "ends_number r"
  shows "read_value j d (Suc n) (decimal i @ r) = Inr (VInt i, r)"
proof -
  have other: "is_digit (hd (digits m)) \<and> digits m \<noteq> []" for m
    using digits_are [of m] digits_zero(1) [of m] by (cases "digits m") auto
  have "\<not> literal ''null'' (decimal i @ r) \<and> \<not> literal ''true'' (decimal i @ r) \<and> \<not> literal ''false'' (decimal i @ r)
      \<and> \<not> literal ''NaN'' (decimal i @ r) \<and> \<not> literal ''Infinity'' (decimal i @ r) \<and> \<not> literal ''-Infinity'' (decimal i @ r)
      \<and> decimal i @ r \<noteq> [] \<and> hd (decimal i @ r) \<notin> {CHR 0x22, CHR ''['', CHR ''{''}"
  proof (cases "i < 0")
    case True
    obtain c ds where ds: "digits (nat (- i)) = c # ds" "is_digit c" using other [of "nat (- i)"] by (cases "digits (nat (- i))") auto
    with True is_digit_other [of c] show ?thesis by (auto simp: decimal_def)
  next
    case False
    obtain c ds where ds: "digits (nat i) = c # ds" "is_digit c" using other [of "nat i"] by (cases "digits (nat i)") auto
    with False is_digit_other [of c] show ?thesis by (auto simp: decimal_def)
  qed
  with read_number_decimal [OF assms, of j] show ?thesis by simp
qed

lemma str_of_same: "is_str k \<Longrightarrow> is_str k' \<Longrightarrow> str_of k = str_of k' \<Longrightarrow> k = k'"
  by (cases k; cases k') auto

lemma is_str_VStr: "is_str k \<Longrightarrow> VStr (str_of k) = k"
  by (cases k) auto

lemma read_literals:
  "8 \<le> n \<Longrightarrow> read_value j d n (CHR ''n'' # CHR ''u'' # CHR ''l'' # CHR ''l'' # r) = Inr (VNone, r)"
  "8 \<le> n \<Longrightarrow> read_value j d n (CHR ''t'' # CHR ''r'' # CHR ''u'' # CHR ''e'' # r) = Inr (VBool True, r)"
  "10 \<le> n \<Longrightarrow> read_value j d n (CHR ''f'' # CHR ''a'' # CHR ''l'' # CHR ''s'' # CHR ''e'' # r) = Inr (VBool False, r)"
  by (cases n; simp)+

lemma read_array:
  "read_value j (Suc d) (Suc n) (CHR ''['' # s) =
     (if skip_space s \<noteq> [] \<and> hd (skip_space s) = CHR '']'' then Inr (VList [], tl (skip_space s))
      else bindR (read_elements j d n (skip_space s)) (\<lambda>p. Inr (VList (fst p), snd p)))"
  by (simp add: Let_def)

lemma read_object:
  "read_value j (Suc d) (Suc n) (CHR ''{'' # s) =
     (if skip_space s \<noteq> [] \<and> hd (skip_space s) = CHR ''}'' then bindR (object_of j []) (\<lambda>v. Inr (v, tl (skip_space s)))
      else bindR (read_members j d n (skip_space s)) (\<lambda>p. bindR (object_of j (fst p)) (\<lambda>v. Inr (v, snd p))))"
  by (simp add: Let_def)

lemma read_back_all:
  assumes "jf_item f = '',''" and "jf_key f = '':''" and "jf_sort f"
  shows "json_form v \<Longrightarrow> dumps f v = Inr t \<Longrightarrow> read_back j f v"
proof (induction v arbitrary: t)
  case (VInt i)
  show ?case
    unfolding read_back_def
  proof (intro allI impI)
    fix d n r assume n: "2 * length (dumped f (VInt i)) \<le> n" and r: "ends_number r"
    have "decimal i \<noteq> []" using digits_zero(1) by (auto simp: decimal_def)
    with n obtain m where "n = Suc m" by (cases n) (auto simp: dumped_def)
    moreover have "dumped f (VInt i) = decimal i" by (simp add: dumped_def)
    ultimately show "read_value j d n (dumped f (VInt i) @ r) = Inr (sorted_keys (VInt i), r)"
      using VInt.prems(1) r by (simp add: read_value_int del: read_value.simps)
  qed
next
  case (VStr s)
  show ?case
    unfolding read_back_def
  proof (intro allI impI)
    fix d n r assume n: "2 * length (dumped f (VStr s)) \<le> n"
    then obtain m where "n = Suc m" by (cases n) (auto simp: dumped_def json_string_def)
    then show "read_value j d n (dumped f (VStr s) @ r) = Inr (sorted_keys (VStr s), r)"
      by (simp add: dumped_def json_string_def read_string_json)
  qed
next
  case (VList xs)
  from VList.prems(2) obtain ts where ts: "dumps_list f xs = Inr ts" by (auto simp: bindR_Inr)
  note texts = dumps_list_texts [OF ts]
  have shape: "dumped f (VList xs) = CHR ''['' # join '','' (map (dumped f) xs) @ '']''"
    using ts texts assms(1) by (simp add: dumped_def)
  have members: "read_back j f x \<and> first_ok (dumped f x)" if "x \<in> set xs" for x
    using VList.IH [OF that] VList.prems(1) texts that dumps_first [of f x "dumped f x"] by (auto simp: first_ok_def)
  show ?case
    unfolding read_back_def
  proof (intro allI impI)
    fix d n r assume d: "nesting (VList xs) \<le> d" and n: "2 * length (dumped f (VList xs)) \<le> n"
    then obtain d' m where dm: "d = Suc d'" "n = Suc m" by (cases d; cases n) (auto simp: shape)
    show "read_value j d n (dumped f (VList xs) @ r) = Inr (sorted_keys (VList xs), r)"
    proof (cases "xs = []")
      case True
      then show ?thesis unfolding shape dm by (simp add: read_array del: read_value.simps)
    next
      case False
      have depth: "\<forall>x \<in> set xs. nesting x \<le> d'"
        using d dm nesting_member [of _ xs "\<lambda>x. x"] by (auto intro: order_trans)
      have "first_ok (join '','' (map (dumped f) xs) @ CHR '']'' # r)"
        using members False by (cases xs; cases "tl xs") (auto simp: first_ok_def)
      then have "skip_space (join '','' (map (dumped f) xs) @ CHR '']'' # r) = join '','' (map (dumped f) xs) @ CHR '']'' # r"
          "hd (join '','' (map (dumped f) xs) @ CHR '']'' # r) \<noteq> CHR '']''" by (simp_all add: first_ok_def)
      moreover have "read_elements j d' m (join '','' (map (dumped f) xs) @ CHR '']'' # r) = Inr (map sorted_keys xs, r)"
        by (rule read_elements_back) (use False members depth n dm shape in auto)
      ultimately show ?thesis
        using False unfolding shape dm by (simp add: read_array del: read_value.simps)
    qed
  qed
next
  case (VDict kvs)
  from VDict.prems(2) obtain ts where ts: "dumps_items f kvs = Inr ts" by (auto simp: bindR_Inr)
  note texts = dumps_items_texts [OF ts]
  define ps where "ps = sort_key (\<lambda>p. str_of (fst p)) kvs"
  define entry where "entry p = json_string (jf_ascii f) (str_of (fst p)) @ CHR '':'' # dumped f (snd p)" for p
  have set_ps: "set ps = set kvs" by (simp add: ps_def)
  have "sort_key fst ts = map (\<lambda>p. (str_of (fst p), dumped f (snd p))) ps"
    using texts by (simp add: sort_key_map ps_def)
  then have shape: "dumped f (VDict kvs) = CHR ''{'' # join '','' (map entry ps) @ ''}''"
    using ts assms by (simp add: dumped_def entry_def [abs_def] comp_def)
  have members: "read_back j f (snd p) \<and> first_ok (dumped f (snd p)) \<and> is_str (fst p)" if p: "p \<in> set ps" for p
  proof -
    from p have kv: "p \<in> set kvs" by (simp add: set_ps)
    moreover have "snd p \<in> Basic_BNFs.snds p" by (cases p) simp
    ultimately show ?thesis
      using VDict.IH(2) [OF kv] VDict.prems(1) texts dumps_first [of f "snd p" "dumped f (snd p)"] by (auto simp: first_ok_def)
  qed
  have "inj_on str_of (set (map fst kvs))"
  proof (rule inj_onI)
    fix k k' assume "k \<in> set (map fst kvs)" "k' \<in> set (map fst kvs)" and eq: "str_of k = str_of k'"
    then have "is_str k" "is_str k'" using VDict.prems(1) by auto
    then show "k = k'" using eq by (rule str_of_same)
  qed
  then have "distinct (map str_of (map fst kvs))" using VDict.prems(1) by (simp only: distinct_map json_form.simps)
  then have "distinct (map (\<lambda>p. str_of (fst p)) kvs)" by (simp add: comp_def)
  then have distinct: "distinct (map (\<lambda>p. str_of (fst p)) ps)"
    unfolding distinct_map set_ps by (simp add: ps_def)
  have object: "sorted_keys (VDict kvs) = VDict (map (\<lambda>p. (VStr (str_of (fst p)), sorted_keys (snd p))) ps)"
  proof -
    have "map (\<lambda>p. (fst p, sorted_keys (snd p))) ps = map (\<lambda>p. (VStr (str_of (fst p)), sorted_keys (snd p))) ps"
      by (rule map_cong) (use members is_str_VStr in auto)
    then show ?thesis by (simp add: sort_key_map ps_def)
  qed
  show ?case
    unfolding read_back_def
  proof (intro allI impI)
    fix d n r assume d: "nesting (VDict kvs) \<le> d" and n: "2 * length (dumped f (VDict kvs)) \<le> n"
    then obtain d' m where dm: "d = Suc d'" "n = Suc m" by (cases d; cases n) (auto simp: shape)
    show "read_value j d n (dumped f (VDict kvs) @ r) = Inr (sorted_keys (VDict kvs), r)"
    proof (cases "ps = []")
      case True
      then show ?thesis unfolding shape dm object by (simp add: read_object object_of_def del: read_value.simps)
    next
      case False
      have depth: "nesting (snd p) \<le> d'" if "p \<in> set ps" for p
        using d dm nesting_member [of p kvs snd] that by (auto simp: set_ps intro: order_trans)
      have "hd (join '','' (map entry ps) @ CHR ''}'' # r) = CHR 0x22 \<and> join '','' (map entry ps) @ CHR ''}'' # r \<noteq> []"
        using False by (cases ps; cases "tl ps") (auto simp: entry_def json_string_def)
      moreover have "read_members j d' m (join '','' (map entry ps) @ CHR ''}'' # r)
          = Inr (map (\<lambda>p. (str_of (fst p), sorted_keys (snd p))) ps, r)"
        unfolding entry_def
        by (rule read_members_back) (use False members depth n dm shape in \<open>auto simp: entry_def [abs_def]\<close>)
      moreover have "object_of j (map (\<lambda>p. (str_of (fst p), sorted_keys (snd p))) ps) = Inr (sorted_keys (VDict kvs))"
        using object_of_distinct [of "map (\<lambda>p. (str_of (fst p), sorted_keys (snd p))) ps" j] distinct object by (simp add: comp_def)
      ultimately show ?thesis unfolding shape dm by (simp add: read_object del: read_value.simps)
    qed
  qed
qed (auto simp: read_back_def dumped_def read_literals)


text \<open>Reading what was dumped gives the value back, with the entries of its objects in the
  order of their keys.\<close>

lemma loads_dumps:
  assumes "json_form v" and "nesting v \<le> jr_depth j" and "jf_item f = '',''" and "jf_key f = '':''" and "jf_sort f"
    and "dumps f v = Inr t"
  shows "loads j t = Inr (sorted_keys v)"
proof -
  have t: "dumped f v = t" using assms(6) by (simp add: dumped_def)
  have "read_back j f v" by (rule read_back_all [OF assms(3-5,1,6)])
  then have "read_value j (jr_depth j) (2 * length t + 2) (t @ []) = Inr (sorted_keys v, [])"
    using assms(2) unfolding read_back_def t by (metis ends_number_punctuation(1) le_add1)
  moreover have "first_ok t" using dumps_first [OF assms(6,1)] by (simp add: first_ok_def)
  then have "skip_space t = t" by (simp add: first_ok_def)
  ultimately show ?thesis by (simp add: loads_def)
qed

lemma decode_encode: "decode_utf8 j (utf8 s) = Inr s"
proof -
  have points: "utf8_points (map of_char (utf8 s)) = Inr (map of_char s)"
  proof (induction s)
    case (Cons c s)
    have less: "(of_char c :: nat) < 256" by (rule nat_of_char_less_256)
    show ?case
    proof (cases "(of_char c :: nat) < 128")
      case True
      with Cons show ?thesis by (simp add: utf8_def utf8_char_def)
    next
      case False
      define h l where "h = (of_char c :: nat) div 64" and "l = (of_char c :: nat) mod 64"
      have hl: "h < 4" unfolding h_def using less by linarith
      have "2 \<le> h" "l < 64" "h * 64 + l = of_char c" using False by (auto simp: h_def l_def)
      note hl = hl this
      have "utf8_char c = [char_of (192 + h), char_of (128 + l)]"
        using False by (simp add: utf8_char_def h_def l_def Let_def)
      then have "map of_char (utf8 (c # s)) = (192 + h) # (128 + l) # map of_char (utf8 s)" using hl by (simp add: utf8_def)
      moreover have "continuation (128 + l)" using hl by (simp add: continuation_def)
      ultimately show ?thesis using hl Cons by simp
    qed
  qed (simp add: utf8_def)
  have "concat (map (code_text j \<circ> of_char) s) = s"
    by (induction s) (simp_all add: code_text_def)
  with points show ?thesis by (simp add: decode_utf8_def)
qed

end
