(* ===== verification/Task_Output.thy ===== *)
theory Task_Output
  imports Packing Json_Reader
begin

text \<open>
  \<open>tasks/parser.py\<close> and \<open>tasks/validation.py\<close>: the strict parser of structured output and
  the validation of the output of packs against the invocation they were prepared for.
\<close>

declare map_of_eq_Some_iff [simp del]

section \<open>The parser\<close>

text \<open>\<open>ps_extract\<close> are the configured envelope extractors, code outside. \<open>ps_frames\<close> is how many
  calls of \<open>_normalize\<close> the interpreter lets nest, as \<open>ps_depth\<close> is how deep it lets a document
  nest. \<open>ps_lone\<close> says which texts hold a lone surrogate: characters stand for code points below
  256, so what stands for larger ones is the choice of whoever instantiates it, as in \<open>ps_wide\<close>.\<close>

record parser_env =
  ps_wide :: "nat \<Rightarrow> string"
  ps_float :: "string \<Rightarrow> pyfloat"
  ps_depth :: nat
  ps_frames :: nat
  ps_lone :: "string \<Rightarrow> bool"
  ps_extract :: "(string, pyval \<Rightarrow> pyval res) dict"

definition Parser_init :: "('e parser_env_scheme) \<Rightarrow> ('e parser_env_scheme) res" where
  "Parser_init env = (if list_ex blank (dkeys (ps_extract env)) then Inl (ValueError ''envelope extractor names must be non-blank strings'')
     else Inr env)"

definition strict_reader :: "'e parser_env_scheme \<Rightarrow> json_reader" where
  "strict_reader env = \<lparr>jr_wide = ps_wide env, jr_float = ps_float env, jr_depth = ps_depth env, jr_unique = True, jr_constants = False\<rparr>"

fun representation :: "pyval \<Rightarrow> string" where
  "representation (VBytes _) = ''bytes''"
| "representation (VStr _) = ''text''"
| "representation (VDict _) = ''mapping''"
| "representation (VFrozen _) = ''mapping''"
| "representation (VList _) = ''sequence''"
| "representation (VTuple _) = ''sequence''"
| "representation (VByteArray _) = ''sequence''"
| "representation _ = ''unsupported''"

definition unsupported_value :: exn where "unsupported_value = ForeignError ''_UnsupportedValueError'' []"
definition non_finite :: exn where "non_finite = ForeignError ''_NonFiniteNumberError'' []"
definition duplicate_key :: exn where "duplicate_key = ForeignError ''_DuplicateKeyError'' []"

text \<open>\<open>_normalize\<close>, whose calls nest as deep as the value does: \<open>ps_frames\<close> of them is what the
  interpreter allows, and one more is a \<open>RecursionError\<close>.\<close>

fun normalize_json :: "nat \<Rightarrow> pyval \<Rightarrow> pyval res"
and normalize_list :: "nat \<Rightarrow> pyval list \<Rightarrow> pyval list res"
and normalize_entries :: "nat \<Rightarrow> (pyval \<times> pyval) list \<Rightarrow> (pyval \<times> pyval) list \<Rightarrow> (pyval \<times> pyval) list res"
and normalize_items :: "nat \<Rightarrow> (string \<times> pyval) list \<Rightarrow> (pyval \<times> pyval) list \<Rightarrow> (pyval \<times> pyval) list res" where
  "normalize_json 0 v = Inl recursion_error"
| "normalize_json (Suc n) VNone = Inr VNone"
| "normalize_json (Suc n) (VStr s) = Inr (VStr s)"
| "normalize_json (Suc n) (VBool b) = Inr (VBool b)"
| "normalize_json (Suc n) (VInt i) = Inr (VInt i)"
| "normalize_json (Suc n) (VFloat x) = (case x of Finite q \<Rightarrow> Inr (VFloat x) | _ \<Rightarrow> Inl non_finite)"
| "normalize_json (Suc n) (VDict kvs) = bindR (normalize_entries n kvs []) (\<lambda>d. Inr (VDict d))"
| "normalize_json (Suc n) (VFrozen m) = bindR (normalize_items n m []) (\<lambda>d. Inr (VDict d))"
| "normalize_json (Suc n) (VList xs) = bindR (normalize_list n xs) (\<lambda>ys. Inr (VList ys))"
| "normalize_json (Suc n) (VTuple xs) = bindR (normalize_list n xs) (\<lambda>ys. Inr (VList ys))"
| "normalize_json (Suc n) v = Inl unsupported_value"
| "normalize_list n [] = Inr []"
| "normalize_list n (x # xs) = bindR (normalize_json n x) (\<lambda>y. bindR (normalize_list n xs) (\<lambda>ys. Inr (y # ys)))"
| "normalize_entries n [] d = Inr d"
| "normalize_entries n ((k, v) # kvs) d =
     (if \<not> is_str k then Inl unsupported_value
      else if dget d k \<noteq> None then Inl duplicate_key
      else bindR (normalize_json n v) (\<lambda>w. normalize_entries n kvs (dset k w d)))"
| "normalize_items n [] d = Inr d"
| "normalize_items n ((k, v) # m) d =
     (if dget d (VStr k) \<noteq> None then Inl duplicate_key
      else bindR (normalize_json n v) (\<lambda>w. normalize_items n m (dset (VStr k) w d)))"

definition result_field :: "task_function \<Rightarrow> string" where
  "result_field f = (case f of AI_CLASSIFY \<Rightarrow> ''label'' | AI_SUMMARIZE \<Rightarrow> ''summary'')"

definition parsing_failure :: "task_failure_code \<Rightarrow> string \<Rightarrow> (string \<times> pyval) list \<Rightarrow> task_failure" where
  "parsing_failure code rid kvs = failed_task TS_PARSING code [rid] kvs"

definition malformed :: "string \<Rightarrow> string \<Rightarrow> task_failure" where
  "malformed rep reason = parsing_failure MALFORMED_STRUCTURED_OUTPUT ''structured_output.document''
     [(''representation'', VStr rep), (''reason'', VStr reason)]"

definition too_large :: "string \<Rightarrow> int \<Rightarrow> int \<Rightarrow> task_failure" where
  "too_large rep n limit = parsing_failure RESPONSE_TOO_LARGE ''structured_output.response_size''
     [(''representation'', VStr rep), (''response_size'', VInt n), (''response_size_limit'', VInt limit)]"

definition schema_failure :: "string \<Rightarrow> string \<Rightarrow> int option \<Rightarrow> task_failure" where
  "schema_failure rep reason index = parsing_failure OUTPUT_SCHEMA_VIOLATION ''structured_output.schema''
     ([(''representation'', VStr rep), (''reason'', VStr reason)]
      @ (case index of None \<Rightarrow> [] | Some i \<Rightarrow> [(''record_index'', VInt i)]))"

definition unsupported_representation :: "string \<Rightarrow> task_failure" where
  "unsupported_representation rep = parsing_failure UNSUPPORTED_REPRESENTATION ''structured_output.representation''
     [(''representation'', VStr rep)]"

text \<open>The handlers around \<open>json.loads\<close> and around \<open>_normalize\<close>; any other exception passes.\<close>

definition decode_json :: "'e parser_env_scheme \<Rightarrow> string \<Rightarrow> string \<Rightarrow> pyval attempt" where
  "decode_json env s rep =
     (case loads (strict_reader env) s of
        Inr v \<Rightarrow> Inr (Inr v)
      | Inl e \<Rightarrow>
          if exn_name e = ''_DuplicateKeyError'' then Inr (Inl (malformed rep ''duplicate_object_key''))
          else if exn_name e = ''_NonFiniteNumberError'' then Inr (Inl (malformed rep ''non_finite_number''))
          else if exn_name e \<in> {''JSONDecodeError'', ''RecursionError''} then Inr (Inl (malformed rep ''invalid_json''))
          else Inl e)"

definition decode_structure :: "'e parser_env_scheme \<Rightarrow> pyval \<Rightarrow> string \<Rightarrow> pyval attempt" where
  "decode_structure env v rep =
     (case normalize_json (ps_frames env) v of
        Inr w \<Rightarrow> Inr (Inr w)
      | Inl e \<Rightarrow>
          if exn_name e = ''_NonFiniteNumberError'' then Inr (Inl (malformed rep ''non_finite_number''))
          else if exn_name e = ''_DuplicateKeyError'' then Inr (Inl (malformed rep ''duplicate_object_key''))
          else if exn_name e = ''_UnsupportedValueError'' then Inr (Inl (unsupported_representation rep))
          else Inl e)"

text \<open>\<open>len(response.encode("utf-8"))\<close>; a lone surrogate has no encoding.\<close>

definition encode_error :: exn where "encode_error = ForeignError ''UnicodeEncodeError'' ''surrogates not allowed''"

definition encoded_size :: "'e parser_env_scheme \<Rightarrow> string \<Rightarrow> int res" where
  "encoded_size env s = (if ps_lone env s then Inl encode_error else Inr (int (length (utf8 s))))"

definition decode_response :: "'e parser_env_scheme \<Rightarrow> pyval \<Rightarrow> task_definition \<Rightarrow> string \<Rightarrow> pyval attempt" where
  "decode_response env response d rep =
     (let limit = td_response_size_limit d in
      case response of
        VBytes b \<Rightarrow>
          if limit < int (length b) then Inr (Inl (too_large rep (int (length b)) limit))
          else (case decode_utf8 (strict_reader env) b of
             Inl e \<Rightarrow> Inr (Inl (malformed rep ''invalid_utf8''))
           | Inr s \<Rightarrow> decode_json env s rep)
      | VStr s \<Rightarrow>
          bindR (encoded_size env s) (\<lambda>n.
            if limit < n then Inr (Inl (too_large rep n limit)) else decode_json env s rep)
      | VByteArray b \<Rightarrow> Inr (Inl (unsupported_representation rep))
      | VDict kvs \<Rightarrow> decode_structure env response rep
      | VFrozen m \<Rightarrow> decode_structure env response rep
      | VList xs \<Rightarrow> decode_structure env response rep
      | VTuple xs \<Rightarrow> decode_structure env response rep
      | _ \<Rightarrow> Inr (Inl (unsupported_representation rep)))"

fun mapping_entries :: "pyval \<Rightarrow> (pyval \<times> pyval) list option" where
  "mapping_entries (VDict kvs) = Some kvs"
| "mapping_entries (VFrozen m) = Some (map (\<lambda>p. (VStr (fst p), snd p)) m)"
| "mapping_entries _ = None"

fun parse_records :: "string \<Rightarrow> task_function \<Rightarrow> int \<Rightarrow> pyval list \<Rightarrow> frozen_mapping list attempt" where
  "parse_records rep f n [] = Inr (Inr [])"
| "parse_records rep f n (v # vs) =
     (case mapping_entries v of
        None \<Rightarrow> Inr (Inl (schema_failure rep ''record_object_required'' (Some n)))
      | Some kvs \<Rightarrow>
          if set (map fst kvs) \<noteq> {VStr ''id'', VStr (result_field f)}
          then Inr (Inl (schema_failure rep ''exact_fields_required'' (Some n)))
          else if \<not> is_str (the (dget kvs (VStr ''id''))) \<or> \<not> is_str (the (dget kvs (VStr (result_field f))))
          then Inr (Inl (schema_failure rep ''string_fields_required'' (Some n)))
          else bindR (freeze v) (\<lambda>fr. case fr of
              VFrozen m \<Rightarrow> bindR (parse_records rep f (n + 1) vs) (\<lambda>rest. Inr (map_sum id (\<lambda>ms. m # ms) rest))
            | _ \<Rightarrow> Inl (AssertionError [])))"

definition validate_records :: "pyval \<Rightarrow> task_definition \<Rightarrow> string \<Rightarrow> frozen_mapping list attempt" where
  "validate_records v d rep = (case v of
     VList vs \<Rightarrow> parse_records rep (td_function d) 0 vs
   | _ \<Rightarrow> Inr (Inl (schema_failure rep ''array_root_required'' None)))"

text \<open>The response and its representation, out of the envelope that is named.\<close>

definition open_envelope :: "'e parser_env_scheme \<Rightarrow> pyval \<Rightarrow> string option \<Rightarrow> task_failure + pyval \<times> string" where
  "open_envelope env response envelope = (case envelope of
     None \<Rightarrow> Inr (response, representation response)
   | Some name \<Rightarrow>
       (case dget (ps_extract env) name of
          None \<Rightarrow> Inl (parsing_failure UNSUPPORTED_REPRESENTATION ''structured_output.representation''
            [(''representation'', VStr ''envelope''), (''envelope_configured'', VBool False)])
        | Some extract \<Rightarrow>
            (case extract response of
               Inl e \<Rightarrow> Inl (parsing_failure MALFORMED_STRUCTURED_OUTPUT ''structured_output.envelope''
                 [(''representation'', VStr ''envelope''), (''envelope_configured'', VBool True)])
             | Inr inner \<Rightarrow> Inr (inner, ''envelope:'' @ representation inner))))"

definition parse_output :: "'e parser_env_scheme \<Rightarrow> pyval \<Rightarrow> task_definition \<Rightarrow> string option \<Rightarrow> frozen_mapping list attempt" where
  "parse_output env response d envelope =
     (case open_envelope env response envelope of
        Inl f \<Rightarrow> Inr (Inl f)
      | Inr (inner, rep) \<Rightarrow>
          bindR (decode_response env inner d rep) (\<lambda>decoded. case decoded of
            Inl f \<Rightarrow> Inr (Inl f)
          | Inr v \<Rightarrow> validate_records v d rep))"


section \<open>The validator of task output\<close>

text \<open>\<open>record[key]\<close> of a frozen mapping, and \<open>any(...)\<close> over a test that may raise.\<close>

definition fm_item :: "frozen_mapping \<Rightarrow> string \<Rightarrow> pyval res" where
  "fm_item m k = (case fm_get m k of None \<Rightarrow> Inl (KeyError k) | Some v \<Rightarrow> Inr v)"

fun any_res :: "('a \<Rightarrow> bool res) \<Rightarrow> 'a list \<Rightarrow> bool res" where
  "any_res p [] = Inr False"
| "any_res p (x # xs) = bindR (p x) (\<lambda>b. if b then Inr True else any_res p xs)"

text \<open>\<open>str.split()\<close>: the maximal runs of other than white space.\<close>

function split_words :: "string \<Rightarrow> string list" where
  "split_words s = (case dropWhile py_space s of [] \<Rightarrow> []
     | c # r \<Rightarrow> (c # takeWhile (\<lambda>c. \<not> py_space c) r) # split_words (dropWhile (\<lambda>c. \<not> py_space c) r))"
  by pat_completeness auto
termination
proof (relation "measure length")
  fix s c r assume "dropWhile py_space s = c # r"
  then have "Suc (length r) \<le> length s" using length_dropWhile_le [of py_space s] by simp
  then show "(dropWhile (\<lambda>c. \<not> py_space c) r, s) \<in> measure length"
    using length_dropWhile_le [of "\<lambda>c. \<not> py_space c" r] by simp
qed simp

declare split_words.simps [simp del]

definition longer_text :: "int \<Rightarrow> pyval \<Rightarrow> bool res" where
  "longer_text limit v = (case v of
     VStr s \<Rightarrow> Inr (limit < int (length s))
   | VTuple xs \<Rightarrow> Inr (limit < int (length xs))
   | VFrozenset xs \<Rightarrow> Inr (limit < int (length xs))
   | VFrozen m \<Rightarrow> Inr (limit < int (length m))
   | _ \<Rightarrow> Inl (TypeError (''object of type '' @ class_name v @ '' has no len()'')))"

definition more_words :: "int \<Rightarrow> pyval \<Rightarrow> bool res" where
  "more_words limit v = (case v of
     VStr s \<Rightarrow> Inr (limit < int (length (split_words s)))
   | _ \<Rightarrow> Inl (ForeignError ''AttributeError'' (class_name v @ '' object has no attribute split'')))"

definition allowed_labels :: "task_invocation \<Rightarrow> pyval list" where
  "allowed_labels v = (case fm_get (tv_parameters v) ''labels'' of Some (VTuple ls) \<Rightarrow> ls | _ \<Rightarrow> [])"

definition task_failures :: "prepared_task \<Rightarrow> frozen_mapping list \<Rightarrow> (string list \<times> string list) res" where
  "task_failures t records =
     (let v = pt_invocation t in
      case tv_function v of
        AI_CLASSIFY \<Rightarrow>
          bindR (any_res (\<lambda>m. bindR (fm_item m ''label'') (\<lambda>l. Inr (\<not> py_member l (allowed_labels v)))) records) (\<lambda>wrong.
            Inr (if wrong then ([''task_output.classify.label.membership''], [''label_not_allowed'']) else ([], [])))
      | AI_SUMMARIZE \<Rightarrow>
          (case (fm_get (tv_parameters v) ''max_words'', td_summary_limits (pt_definition t)) of
             (Some (VInt n), Some l) \<Rightarrow>
               bindR (any_res (\<lambda>m. bindR (fm_item m ''summary'') (more_words n)) records) (\<lambda>wordy.
               bindR (any_res (\<lambda>m. bindR (fm_item m ''summary'') (longer_text (sl_max_summary_characters l))) records) (\<lambda>long.
                 Inr ((if wordy then [''task_output.summarize.summary.word_limit''] else [])
                        @ (if long then [''task_output.summarize.summary.character_limit''] else []),
                      (if wordy then [''summary_word_limit_exceeded''] else [])
                        @ (if long then [''summary_character_limit_exceeded''] else []))))
           | _ \<Rightarrow> Inl (ValueError ''prepared summary task has invalid invocation constraints'')))"

text \<open>\<open>by_identifier\<close>: the last record of an identifier is kept; only texts are looked up.\<close>

fun index_records :: "frozen_mapping list \<Rightarrow> (pyval, frozen_mapping) dict \<Rightarrow> (pyval, frozen_mapping) dict res" where
  "index_records [] d = Inr d"
| "index_records (m # ms) d = bindR (fm_item m ''id'') (\<lambda>i. index_records ms (dset i m d))"

fun take_records :: "(pyval, frozen_mapping) dict \<Rightarrow> string list \<Rightarrow> frozen_mapping list res" where
  "take_records d [] = Inr []"
| "take_records d (i # ids) =
     (case dget d (VStr i) of None \<Rightarrow> Inl (KeyError i) | Some m \<Rightarrow> bindR (take_records d ids) (\<lambda>ms. Inr (m # ms)))"

definition order_records :: "frozen_mapping list \<Rightarrow> string list \<Rightarrow> frozen_mapping list res" where
  "order_records ms ids = bindR (index_records ms []) (\<lambda>d. take_records d ids)"

definition failed_result :: "validation_result \<Rightarrow> string list \<Rightarrow> string list \<Rightarrow> validation_result res" where
  "failed_result base rules reasons = ValidationResult_post
     \<lparr>vres_outcome = (vres_outcome base)\<lparr>vo_accepted := False, vo_status := VS_FAILED,
        vo_failed_rule_ids := fromkeys (vo_failed_rule_ids (vres_outcome base) @ rules),
        vo_reason_codes := fromkeys (vo_reason_codes (vres_outcome base) @ reasons)\<rparr>,
      accepted_records = [], metadata_recorded = False\<rparr>"

definition task_validate ::
    "'t validator_env \<Rightarrow> rules_registry \<Rightarrow> prepared_task \<Rightarrow> packed_request \<Rightarrow> pyval list \<Rightarrow> execution_context
     \<Rightarrow> ('t, validation_result) meth" where
  "task_validate env reg t pack output ctx =
     (if pack \<notin> set (pt_packs t) then raiseM (ValueError ''packed request does not belong to the prepared task'')
      else bindM (validate env reg (pk_input_ids pack) output ctx) (\<lambda>base.
        if \<not> vo_accepted (vres_outcome base) then pureM base
        else liftR (bindR (task_failures t (accepted_records base)) (\<lambda>(rules, reasons).
          if rules \<noteq> [] then failed_result base rules reasons
          else bindR (order_records (accepted_records base) (pk_input_ids pack)) (\<lambda>ms.
            ValidationResult_post \<lparr>vres_outcome = vres_outcome base, accepted_records = ms,
              metadata_recorded = metadata_recorded base\<rparr>)))))"

fun validate_each ::
    "'t validator_env \<Rightarrow> rules_registry \<Rightarrow> prepared_task \<Rightarrow> packed_request list \<Rightarrow> (packed_request \<times> pyval list) list
     \<Rightarrow> execution_context \<Rightarrow> ('t, validation_result list) meth" where
  "validate_each env reg t (expected # es) ((pack, output) # outs) ctx =
     (if pack \<noteq> expected then raiseM (ValueError ''pack outputs must match the prepared task'')
      else bindM (task_validate env reg t pack output ctx) (\<lambda>r.
        bindM (validate_each env reg t es outs ctx) (\<lambda>rs. pureM (r # rs))))"
| "validate_each env reg t _ _ ctx = pureM []"

definition combined_output_digest :: "(string \<Rightarrow> string) \<Rightarrow> validation_result list \<Rightarrow> string" where
  "combined_output_digest sha rs =
     sha (utf8 (CHR ''['' # join '','' (map (\<lambda>r. json_string False (vo_output_digest (vres_outcome r))) rs) @ '']''))"

definition combined_outcome :: "(string \<Rightarrow> string) \<Rightarrow> prepared_task \<Rightarrow> validation_result list \<Rightarrow> bool \<Rightarrow> validation_outcome res" where
  "combined_outcome sha t rs accepted = (case rs of
     [] \<Rightarrow> Inl (ForeignError ''IndexError'' ''list index out of range'')
   | first # _ \<Rightarrow>
       (let din = identifier_digest sha (concat (map pk_input_ids (pt_packs t))) in
        Inr \<lparr>vo_accepted = accepted, vo_status = (if accepted then VS_ACCEPTED else VS_FAILED),
          vo_failed_rule_ids = fromkeys (concat (map (\<lambda>r. vo_failed_rule_ids (vres_outcome r)) rs)),
          vo_reason_codes = fromkeys (concat (map (\<lambda>r. vo_reason_codes (vres_outcome r)) rs)),
          vo_input_digest = din, vo_output_digest = (if accepted then din else combined_output_digest sha rs),
          vo_rules_version = vo_rules_version (vres_outcome first)\<rparr>))"

definition validate_packs ::
    "'t validator_env \<Rightarrow> rules_registry \<Rightarrow> prepared_task \<Rightarrow> (packed_request \<times> pyval list) list \<Rightarrow> execution_context
     \<Rightarrow> ('t, validation_result) meth" where
  "validate_packs env reg t outputs ctx =
     (let ordered = sort_key (\<lambda>p. pk_pack_index (fst p)) outputs in
      if map (\<lambda>p. pk_pack_index (fst p)) ordered \<noteq> map int [0..<length (pt_packs t)]
      then raiseM (ValueError ''pack outputs must contain every prepared pack exactly once'')
      else bindM (validate_each env reg t (pt_packs t) ordered ctx) (\<lambda>rs.
        let accepted = list_all (\<lambda>r. vo_accepted (vres_outcome r)) rs in
        liftR (bindR (combined_outcome (ve_sha env) t rs accepted) (\<lambda>outcome.
          ValidationResult_post \<lparr>vres_outcome = outcome,
            accepted_records = (if accepted then concat (map accepted_records rs) else []),
            metadata_recorded = (accepted \<and> list_all metadata_recorded rs)\<rparr>))))"


section \<open>What decoding returns\<close>

text \<open>Values of lists, of dictionaries with distinct text keys, and of plain values.\<close>

fun json_value :: "pyval \<Rightarrow> bool" where
  "json_value (VList xs) = (\<forall>x \<in> set xs. json_value x)"
| "json_value (VDict kvs) = (distinct (map fst kvs) \<and> (\<forall>p \<in> set kvs. is_str (fst p) \<and> json_value (snd p)))"
| "json_value v = (v = VNone \<or> (\<exists>b. v = VBool b) \<or> (\<exists>i. v = VInt i) \<or> (\<exists>x. v = VFloat x) \<or> is_str v)"

lemma json_value_dset:
  assumes "json_value (VDict d)" and "is_str k" and "json_value w"
  shows "json_value (VDict (dset k w d))"
proof -
  have "set (dset k w d) \<subseteq> insert (k, w) (set d)" by (induction d) auto
  with assms show ?thesis by auto
qed

lemma object_of_value:
  assumes "object_of j kvs = Inr v" and "\<forall>p \<in> set kvs. json_value (snd p)"
  shows "json_value v"
proof -
  have "json_value (VDict d) \<Longrightarrow> \<forall>p \<in> set kvs. json_value (snd p) \<Longrightarrow>
      json_value (VDict (foldl (\<lambda>d kv. dset (VStr (fst kv)) (snd kv) d) d kvs))" for d
  proof (induction kvs arbitrary: d)
    case (Cons kv kvs)
    have "json_value (VDict (dset (VStr (fst kv)) (snd kv) d))"
      by (rule json_value_dset [OF Cons.prems(1)]) (use Cons.prems(2) in simp_all)
    from Cons.IH [OF this] Cons.prems(2) show ?case by (simp del: json_value.simps)
  qed simp
  from this [of "[]"] assms show ?thesis by (auto simp: object_of_def split: if_splits)
qed

lemma read_value_value:
  shows "read_value j d n s = Inr (v, r) \<Longrightarrow> json_value v"
    and "read_elements j d n s = Inr (vs, r) \<Longrightarrow> \<forall>v \<in> set vs. json_value v"
    and "read_members j d n s = Inr (kvs, r) \<Longrightarrow> \<forall>p \<in> set kvs. json_value (snd p)"
proof (induction j d n s and j d n s and j d n s arbitrary: v r and vs r and kvs r
    rule: read_value_read_elements_read_members.induct)
  case (2 j d n s)
  have number: "read_number j s = Inr (v, r) \<Longrightarrow> json_value v"
    by (auto simp: read_number_def Let_def read_int_def bindR_Inr split: if_splits prod.splits)
  have const: "constant_of j x u = Inr (v, r) \<Longrightarrow> json_value v" for x u by (auto simp: constant_of_def split: if_splits)
  show ?case
    using 2(3) 2(1,2) number const object_of_value [of j]
    by (auto simp: bindR_Inr Let_def split: if_splits)
next
  case (4 j d n s)
  then show ?case by (auto simp: bindR_Inr Let_def split: if_splits)
next
  case (6 j d n s)
  from 6(3) obtain k p where head: "read_string j (tl s) = Inr k"
      and body: "read_value j d n (skip_space (tl (skip_space (snd k)))) = Inr p"
      and colon: "\<not> (s = [] \<or> hd s \<noteq> CHR 0x22)" "\<not> (skip_space (snd k) = [] \<or> hd (skip_space (snd k)) \<noteq> CHR '':'')"
    by (auto simp: bindR_Inr Let_def split: if_splits)
  from body have first: "json_value (snd (fst k, fst p))" using 6(1) colon by (cases p) auto
  show ?case
  proof (cases "hd (skip_space (snd p)) = CHR ''}''")
    case True
    with 6(3) head body colon first show ?thesis by (auto simp: Let_def split: if_splits)
  next
    case False
    with 6(3) head body colon obtain q where rest: "skip_space (snd p) \<noteq> []" "hd (skip_space (snd p)) = CHR '',''"
        "read_members j d n (skip_space (tl (skip_space (snd p)))) = Inr q" "kvs = (fst k, fst p) # fst q"
      by (auto simp: Let_def bindR_Inr split: if_splits)
    have "\<forall>p \<in> set (fst q). json_value (snd p)" using 6(2) rest colon by (cases q) auto
    with rest(4) first show ?thesis by simp
  qed
qed simp_all

lemma loads_value: "loads j s = Inr v \<Longrightarrow> json_value v"
  by (auto simp: loads_def bindR_Inr simp del: read_value.simps split: if_splits intro: read_value_value(1))

lemma json_value_empty: "json_value (VDict [])"
  by simp

lemma normalize_value:
  shows "normalize_json n v = Inr w \<Longrightarrow> json_value w"
    and "normalize_list n vs = Inr ws \<Longrightarrow> \<forall>w \<in> set ws. json_value w"
    and "normalize_entries n kvs d = Inr e \<Longrightarrow> json_value (VDict d) \<Longrightarrow> json_value (VDict e)"
    and "normalize_items n m d = Inr e \<Longrightarrow> json_value (VDict d) \<Longrightarrow> json_value (VDict e)"
proof (induction n v and n vs and n kvs d and n m d arbitrary: w and ws and e and e
      rule: normalize_json_normalize_list_normalize_entries_normalize_items.induct)
  case (7 n kvs)
  then show ?case by (auto simp: bindR_Inr json_value_empty simp del: json_value.simps(2))
next
  case (8 n m)
  then show ?case by (auto simp: bindR_Inr json_value_empty simp del: json_value.simps(2))
next
  case (15 n k v kvs d)
  then show ?case by (auto simp: bindR_Inr json_value_dset simp del: json_value.simps(2) split: if_splits)
next
  case (17 n k v m d)
  then show ?case by (auto simp: bindR_Inr json_value_dset simp del: json_value.simps(2) split: if_splits)
qed (auto simp: bindR_Inr simp del: json_value.simps(2) split: pyfloat.splits)

lemma decode_response_value: "decode_response env response d rep = Inr (Inr v) \<Longrightarrow> json_value v"
  by (auto simp: decode_response_def decode_json_def decode_structure_def bindR_Inr Let_def simp del: normalize_json.simps
      split: pyval.splits if_splits sum.splits intro: loads_value normalize_value(1))


section \<open>What parsing returns\<close>

definition typed_record :: "task_function \<Rightarrow> frozen_mapping \<Rightarrow> bool" where
  "typed_record f m \<longleftrightarrow> (\<exists>i t. m = [(''id'', VStr i), (result_field f, VStr t)])"

lemma two_keys:
  assumes "set (map fst kvs) = {x, y}" and "x \<noteq> y" and "distinct (map fst kvs)"
  obtains a b where "kvs = [(x, a), (y, b)] \<or> kvs = [(y, b), (x, a)]"
proof -
  have "length kvs = 2" using distinct_card [OF assms(3)] assms(1,2) by simp
  then obtain p q where "kvs = [p, q]" by (cases kvs; cases "tl kvs") auto
  with assms(1,2) that show ?thesis by (cases p; cases q) (auto simp: doubleton_eq_iff)
qed

lemma result_field_text [simp]: "result_field f \<noteq> ''id''" "''id'' \<noteq> result_field f"
  by (cases f; simp add: result_field_def)+

lemma freeze_record:
  assumes "kvs = [(VStr ''id'', VStr i), (VStr (result_field f), VStr t)]
      \<or> kvs = [(VStr (result_field f), VStr t), (VStr ''id'', VStr i)]"
  shows "freeze (VDict kvs) = Inr (VFrozen [(''id'', VStr i), (result_field f, VStr t)])"
  using assms by (cases f) (auto simp: result_field_def bindR_Inr)

lemma is_str_exists: "is_str v \<longleftrightarrow> (\<exists>s. v = VStr s)"
  by (cases v) auto

lemma record_shape:
  assumes "distinct (map fst kvs)" and "set (map fst kvs) = {VStr ''id'', VStr (result_field f)}"
    and "is_str (the (dget kvs (VStr ''id'')))" and "is_str (the (dget kvs (VStr (result_field f))))"
  obtains i t where "kvs = [(VStr ''id'', VStr i), (VStr (result_field f), VStr t)]
      \<or> kvs = [(VStr (result_field f), VStr t), (VStr ''id'', VStr i)]"
proof -
  obtain a b where shape: "kvs = [(VStr ''id'', a), (VStr (result_field f), b)]
      \<or> kvs = [(VStr (result_field f), b), (VStr ''id'', a)]"
    using two_keys [OF assms(2) _ assms(1)] by auto
  with assms(3,4) obtain i t where "a = VStr i" "b = VStr t" by (auto simp: is_str_exists)
  with shape that show ?thesis by blast
qed

lemma map_sum_Inr: "map_sum id g x = Inr y \<longleftrightarrow> (\<exists>z. x = Inr z \<and> y = g z)"
  by (cases x) auto

lemma parse_records_all:
  assumes "parse_records rep f n vs = Inr (Inr ms)" and "\<forall>v \<in> set vs. json_value v"
  shows "list_all (typed_record f) ms"
  using assms
proof (induction rep f n vs arbitrary: ms rule: parse_records.induct)
  case (2 rep f n v vs)
  from 2(2) obtain kvs where kvs: "mapping_entries v = Some kvs" by (auto split: option.splits)
  then have v: "v = VDict kvs" using 2(3) by (cases v) auto
  from 2(2) kvs have keys: "set (map fst kvs) = {VStr ''id'', VStr (result_field f)}"
      and texts: "is_str (the (dget kvs (VStr ''id'')))" "is_str (the (dget kvs (VStr (result_field f))))"
    by (auto split: if_splits)
  have "distinct (map fst kvs)" using 2(3) v by simp
  from record_shape [OF this keys texts] obtain i t where "kvs = [(VStr ''id'', VStr i), (VStr (result_field f), VStr t)]
      \<or> kvs = [(VStr (result_field f), VStr t), (VStr ''id'', VStr i)]" .
  then have fr: "freeze v = Inr (VFrozen [(''id'', VStr i), (result_field f, VStr t)])"
    unfolding v by (rule freeze_record)
  with 2(2) kvs keys texts obtain rest where "parse_records rep f (n + 1) vs = Inr (Inr rest)"
      "ms = [(''id'', VStr i), (result_field f, VStr t)] # rest"
    by (auto simp: bindR_Inr map_sum_Inr)
  with 2(1) [OF kvs _ _ this(1)] keys texts 2(3) show ?case by (simp add: typed_record_def)
qed simp

lemma validate_records_typed:
  "validate_records v d rep = Inr (Inr ms) \<Longrightarrow> json_value v \<Longrightarrow> list_all (typed_record (td_function d)) ms"
  by (cases v) (auto simp: validate_records_def intro: parse_records_all)

lemma parse_output_typed:
  assumes "parse_output env response d envelope = Inr (Inr ms)"
  shows "list_all (typed_record (td_function d)) ms"
proof -
  from assms obtain inner rep decoded where decoded: "decode_response env inner d rep = Inr decoded"
      "(case decoded of Inl f \<Rightarrow> Inr (Inl f) | Inr v \<Rightarrow> validate_records v d rep) = Inr (Inr ms)"
    by (cases "open_envelope env response envelope") (auto simp: parse_output_def bindR_Inr simp del: sum.case_eq_if)
  then obtain v where "decoded = Inr v" "validate_records v d rep = Inr (Inr ms)" by (cases decoded) auto
  with decoded(1) show ?thesis using decode_response_value validate_records_typed by blast
qed


section \<open>What parsing raises\<close>

text \<open>The exceptions of the reader that the parser handles, and the one it does not. How deep the
  calls of \<open>_normalize\<close> nest on a value.\<close>

definition parser_handles :: "exn \<Rightarrow> bool" where
  "parser_handles e \<longleftrightarrow> exn_name e \<in> {''_DuplicateKeyError'', ''_NonFiniteNumberError'', ''JSONDecodeError'', ''RecursionError''}"



lemma handled_reader [simp]: "parser_handles json_error" "parser_handles recursion_error"
  by (simp_all add: parser_handles_def json_error_def recursion_error_def)















section \<open>The records of a response\<close>

definition response_record :: "task_function \<Rightarrow> string \<times> string \<Rightarrow> pyval" where
  "response_record f p = VDict [(VStr ''id'', VStr (fst p)), (VStr (result_field f), VStr (snd p))]"

definition parsed_record :: "task_function \<Rightarrow> string \<times> string \<Rightarrow> frozen_mapping" where
  "parsed_record f p = [(''id'', VStr (fst p)), (result_field f, VStr (snd p))]"

lemma canonical_response:
  "canonical_plain (VList (map (response_record f) rs)) = Inr (VList (map (response_record f) rs))"
proof -
  have "canonical_plain_list (map (response_record f) rs) = Inr (map (response_record f) rs)"
    by (induction rs) (auto simp: response_record_def bindR_Inr)
  then show ?thesis by simp
qed

lemma dumps_response: "\<exists>t. dumps (compact False False frepr) (VList (map (response_record f) rs)) = Inr t"
proof -
  have "\<exists>ts. dumps_list (compact False False frepr) (map (response_record f) rs) = Inr ts"
    by (induction rs) (auto simp: response_record_def bindR_Inr)
  then show ?thesis by auto
qed

lemma response_form: "json_form (VList (map (response_record f) rs))"
  by (auto simp: response_record_def)

lemma response_nesting: "nesting (VList (map (response_record f) rs)) \<le> 2"
proof -
  have "foldr max (map nesting (map (response_record f) rs)) 0 \<le> 1"
    by (induction rs) (auto simp: response_record_def)
  then show ?thesis by simp
qed

lemma response_sorted: "sorted_keys (VList (map (response_record f) rs)) = VList (map (response_record f) rs)"
  by (cases f) (simp_all add: response_record_def result_field_def)

lemma parse_response: "parse_records rep f n (map (response_record f) rs) = Inr (Inr (map (parsed_record f) rs))"
proof (induction rs arbitrary: n)
  case (Cons p rs)
  have "freeze (response_record f p) = Inr (VFrozen (parsed_record f p))"
    unfolding response_record_def parsed_record_def by (rule freeze_record) simp
  with Cons show ?case by (simp add: response_record_def del: freeze.simps)
qed simp


text \<open>C33. Whatever the response, the envelope and the configured extractors, the records that
  parsing returns are typed: each is a frozen mapping of exactly the two fields of the task,
  the identifier and the label or summary, in sorted order and both texts.\<close>

theorem parsed_records_typed:
  assumes "parse_output env response d envelope = Inr (Inr ms)"
  shows "\<forall>m \<in> set ms. \<exists>i t. m = [(''id'', VStr i), (result_field (td_function d), VStr t)]"
  using parse_output_typed [OF assms] by (auto simp: list_all_iff typed_record_def)

text \<open>C34. Round trip: a list of records, serialised canonically and sent as bytes, is parsed
  back to these records, in their order, when the bytes are within the limit of the
  definition; one byte more and the response is refused as too large before it is read.\<close>

theorem response_round_trip:
  assumes "2 \<le> ps_depth env"
  shows "\<exists>b. canonical_payload_bytes frepr (VList (map (response_record (td_function d)) rs)) = Inr b
    \<and> parse_output env (VBytes b) d None =
        (if int (length b) \<le> td_response_size_limit d then Inr (Inr (map (parsed_record (td_function d)) rs))
         else Inr (Inl (too_large ''bytes'' (int (length b)) (td_response_size_limit d))))"
proof -
  let ?v = "VList (map (response_record (td_function d)) rs)"
  obtain t where t: "dumps (compact False False frepr) ?v = Inr t" using dumps_response by blast
  have bytes: "canonical_payload_bytes frepr ?v = Inr (utf8 t)"
    unfolding canonical_payload_bytes_def canonical_response by (simp only: bindR_simps t sum.case)
  have "loads (strict_reader env) t = Inr (sorted_keys ?v)"
    by (rule loads_dumps [OF response_form _ _ _ _ t])
      (use assms response_nesting [of "td_function d" rs] in \<open>simp_all add: strict_reader_def compact_def\<close>)
  then have decoded: "decode_json env t ''bytes'' = Inr (Inr ?v)" by (simp only: decode_json_def response_sorted sum.case)
  have "validate_records ?v d ''bytes'' = Inr (Inr (map (parsed_record (td_function d)) rs))"
    by (simp add: validate_records_def parse_response)
  with bytes decoded show ?thesis
    by (intro exI [of _ "utf8 t"]) (simp add: parse_output_def open_envelope_def decode_response_def decode_encode Let_def)
qed

lemma int_limit_name [simp]: "exn_name (int_limit n) = ''ValueError''"
  by (simp add: int_limit_def)







section \<open>What validation accepts\<close>

lemma any_res_False: "any_res p xs = Inr False \<longleftrightarrow> (\<forall>x \<in> set xs. p x = Inr False)"
  by (induction xs) (auto simp: bindR_Inr)

text \<open>What the task asks of one record, beyond the rules bound to the execution.\<close>

definition within_task :: "prepared_task \<Rightarrow> frozen_mapping \<Rightarrow> bool" where
  "within_task t m = (case tv_function (pt_invocation t) of
     AI_CLASSIFY \<Rightarrow> (case fm_get m ''label'' of None \<Rightarrow> False | Some l \<Rightarrow> py_member l (allowed_labels (pt_invocation t)))
   | AI_SUMMARIZE \<Rightarrow>
       (case (fm_get m ''summary'', fm_get (tv_parameters (pt_invocation t)) ''max_words'', td_summary_limits (pt_definition t)) of
          (Some (VStr s), Some (VInt n), Some l) \<Rightarrow>
            int (length (split_words s)) \<le> n \<and> int (length s) \<le> sl_max_summary_characters l
        | _ \<Rightarrow> False))"

lemma more_words_False: "more_words n v = Inr False \<longleftrightarrow> (\<exists>s. v = VStr s \<and> int (length (split_words s)) \<le> n)"
  by (cases v) (auto simp: more_words_def)

lemma task_failures_none:
  assumes "task_failures t ms = Inr ([], reasons)" and "m \<in> set ms"
  shows "within_task t m"
proof (cases "tv_function (pt_invocation t)")
  case AI_CLASSIFY
  with assms(1) have "any_res (\<lambda>m. bindR (fm_item m ''label'') (\<lambda>l. Inr (\<not> py_member l (allowed_labels (pt_invocation t))))) ms
      = Inr False"
    by (auto simp: task_failures_def bindR_Inr split: if_splits)
  with assms(2) AI_CLASSIFY show ?thesis
    by (auto simp: any_res_False within_task_def fm_item_def bindR_Inr split: option.splits)
next
  case AI_SUMMARIZE
  with assms(1) obtain n l where limits: "fm_get (tv_parameters (pt_invocation t)) ''max_words'' = Some (VInt n)"
      "td_summary_limits (pt_definition t) = Some l"
    and words: "any_res (\<lambda>m. bindR (fm_item m ''summary'') (more_words n)) ms = Inr False"
    and chars: "any_res (\<lambda>m. bindR (fm_item m ''summary'') (longer_text (sl_max_summary_characters l))) ms = Inr False"
    by (auto simp: task_failures_def Let_def bindR_Inr split: option.splits pyval.splits if_splits)
  from words assms(2) obtain x where x: "fm_get m ''summary'' = Some (VStr x)" "int (length (split_words x)) \<le> n"
    by (fastforce simp: any_res_False fm_item_def bindR_Inr more_words_False split: option.splits)
  from bspec [OF chars [unfolded any_res_False] assms(2)] x(1) have "int (length x) \<le> sl_max_summary_characters l"
    by (simp add: fm_item_def longer_text_def)
  with x AI_SUMMARIZE limits show ?thesis by (simp add: within_task_def)
qed

lemma index_records_get:
  assumes "index_records ms d = Inr d'" and "dget d' k = Some m"
  shows "dget d k = Some m \<or> (m \<in> set ms \<and> fm_get m ''id'' = Some k)"
  using assms
proof (induction ms arbitrary: d)
  case (Cons x ms)
  from Cons.prems(1) obtain i where i: "fm_get x ''id'' = Some i" "index_records ms (dset i x d) = Inr d'"
    by (auto simp: bindR_Inr fm_item_def split: option.splits)
  from Cons.IH [OF this(2) Cons.prems(2)] i(1) show ?case by (auto split: if_splits)
qed simp

lemma take_records_Inr:
  "take_records d ids = Inr ms \<Longrightarrow> list_all2 (\<lambda>i m. dget d (VStr i) = Some m) ids ms"
  by (induction ids arbitrary: ms) (auto simp: bindR_Inr split: option.splits)

lemma order_records_Inr:
  assumes "order_records ms ids = Inr ordered"
  shows "list_all2 (\<lambda>i m. fm_get m ''id'' = Some (VStr i) \<and> m \<in> set ms) ids ordered"
proof -
  from assms obtain d where d: "index_records ms [] = Inr d" "take_records d ids = Inr ordered"
    by (auto simp: order_records_def bindR_Inr)
  show ?thesis
    by (rule list_all2_mono [OF take_records_Inr [OF d(2)]]) (use index_records_get [OF d(1)] in auto)
qed

lemma task_validate_accepted:
  assumes "task_validate env reg t pack out ctx s = (Inr r, s')" and "vo_accepted (vres_outcome r)"
  obtains base where "pack \<in> set (pt_packs t)" "validate env reg (pk_input_ids pack) out ctx s = (Inr base, s')"
    "vo_accepted (vres_outcome base)" "\<forall>m \<in> set (accepted_records base). within_task t m"
    "order_records (accepted_records base) (pk_input_ids pack) = Inr (accepted_records r)"
proof -
  from assms(1) obtain base s1 where base: "pack \<in> set (pt_packs t)" "validate env reg (pk_input_ids pack) out ctx s = (Inr base, s1)"
    and rest: "(if \<not> vo_accepted (vres_outcome base) then pureM base
        else liftR (bindR (task_failures t (accepted_records base)) (\<lambda>(rules, reasons).
          if rules \<noteq> [] then failed_result base rules reasons
          else bindR (order_records (accepted_records base) (pk_input_ids pack)) (\<lambda>ms.
            ValidationResult_post \<lparr>vres_outcome = vres_outcome base, accepted_records = ms,
              metadata_recorded = metadata_recorded base\<rparr>)))) s1 = (Inr r, s')"
    by (auto simp: task_validate_def bindM_def raiseM_def split: if_splits prod.splits sum.splits)
  show ?thesis
  proof (cases "vo_accepted (vres_outcome base)")
    case False
    with rest assms(2) show ?thesis by (auto simp: pureM_def)
  next
    case True
    with rest obtain rules reasons where failures: "task_failures t (accepted_records base) = Inr (rules, reasons)"
        "(if rules \<noteq> [] then failed_result base rules reasons
          else bindR (order_records (accepted_records base) (pk_input_ids pack)) (\<lambda>ms.
            ValidationResult_post \<lparr>vres_outcome = vres_outcome base, accepted_records = ms,
              metadata_recorded = metadata_recorded base\<rparr>)) = Inr r" "s' = s1"
      by (auto simp: liftR_def bindR_Inr split: sum.splits)
    have "rules = []"
      using failures(2) assms(2) by (auto simp: failed_result_def ValidationResult_post_def split: if_splits)
    with failures True base task_failures_none that [of base] show ?thesis
      by (auto simp: bindR_Inr ValidationResult_post_def)
  qed
qed

lemma finish_accepted:
  assumes "finish_validation env ver ids outs records lg s = (Inr base, s')" and "vo_accepted (vres_outcome base)"
  shows "clean lg \<and> accepted_records base = records"
  using finish_run [of env ver ids outs records lg s] assms by (auto split: if_splits)

lemma validate_accepted:
  assumes "validate env reg ids out ctx s = (Inr base, s')" and "vo_accepted (vres_outcome base)"
  shows "map freeze out = map (\<lambda>m. Inr (VFrozen m)) (accepted_records base)"
proof (cases "rules_resolve (validation_rules_version (ctx_configuration ctx)) reg")
  case None
  with assms finish_accepted show ?thesis by (fastforce simp: validate_def Let_def clean_def)
next
  case (Some rules)
  with assms(1) obtain records found lg where scan: "scan_output rules out ([], []) = Inr (records, found, lg)"
    by (auto simp: validate_def Let_def split: sum.splits)
  from assms(1) [unfolded validate_run [OF Some scan]] assms(2) have "accepted_records base = records"
    by (auto dest: finish_accepted)
  with scan_output_clean [OF scan] show ?thesis by simp
qed

definition identified :: "string list \<Rightarrow> frozen_mapping list \<Rightarrow> bool" where
  "identified ids ms \<longleftrightarrow> list_all2 (\<lambda>i m. fm_get m ''id'' = Some (VStr i)) ids ms"

lemma pack_accepted:
  assumes "task_validate env reg t pack out ctx s = (Inr r, s')" and "vo_accepted (vres_outcome r)"
  shows "pack \<in> set (pt_packs t)" and "identified (pk_input_ids pack) (accepted_records r)"
    and "\<forall>m \<in> set (accepted_records r). within_task t m \<and> Inr (VFrozen m) \<in> freeze ` set out"
proof -
  obtain base where base: "pack \<in> set (pt_packs t)" "validate env reg (pk_input_ids pack) out ctx s = (Inr base, s')"
      "vo_accepted (vres_outcome base)" "\<forall>m \<in> set (accepted_records base). within_task t m"
      "order_records (accepted_records base) (pk_input_ids pack) = Inr (accepted_records r)"
    using task_validate_accepted [OF assms] by blast
  note order = order_records_Inr [OF base(5)]
  show "pack \<in> set (pt_packs t)" by (rule base)
  show "identified (pk_input_ids pack) (accepted_records r)"
    unfolding identified_def by (rule list_all2_mono [OF order]) simp
  have sub: "set (accepted_records r) \<subseteq> set (accepted_records base)"
    using order by (auto simp: list_all2_conv_all_nth in_set_conv_nth)
  have "freeze ` set out = (\<lambda>m. Inr (VFrozen m)) ` set (accepted_records base)"
    using arg_cong [OF validate_accepted [OF base(2,3)], of set] by simp
  with sub base(4) show "\<forall>m \<in> set (accepted_records r). within_task t m \<and> Inr (VFrozen m) \<in> freeze ` set out" by auto
qed

lemma validate_each_accepted:
  assumes "validate_each env reg t ps outs ctx s = (Inr rs, s')" and "length outs = length ps"
    and "list_all (\<lambda>r. vo_accepted (vres_outcome r)) rs"
  shows "map fst outs = ps \<and> identified (concat (map pk_input_ids ps)) (concat (map accepted_records rs))
    \<and> (\<forall>m \<in> set (concat (map accepted_records rs)). within_task t m)"
  using assms
proof (induction env reg t ps outs ctx arbitrary: s rs rule: validate_each.induct)
  case (1 env reg t expected es pack out outs ctx)
  from 1(2) obtain r s1 rest where step: "pack = expected" "task_validate env reg t pack out ctx s = (Inr r, s1)"
      "validate_each env reg t es outs ctx s1 = (Inr rest, s')" "rs = r # rest"
    by (auto simp: bindM_def pureM_def raiseM_def split: if_splits prod.splits sum.splits)
  have "vo_accepted (vres_outcome r)" using 1(4) step(4) by simp
  note head = pack_accepted [OF step(2) this]
  have "map fst outs = es \<and> identified (concat (map pk_input_ids es)) (concat (map accepted_records rest))
      \<and> (\<forall>m \<in> set (concat (map accepted_records rest)). within_task t m)"
    by (rule 1(1) [OF _ step(3)]) (use 1(3,4) step in auto)
  with head step(1,4) show ?case by (auto simp: identified_def list_all2_appendI)
qed (auto simp: pureM_def identified_def)

text \<open>C36. What is returned for a pack answers the pack: an accepted validation returns one
  record per input identifier of the pack, in the order of the pack, each a frozen record of
  the output that was given, with an allowed label, or a summary within the words of the
  invocation and the characters of the definition; and the pack belongs to the task.\<close>

theorem pack_output_validated:
  assumes "task_validate env reg t pack out ctx s = (Inr r, s')" and "vo_accepted (vres_outcome r)"
  shows "pack \<in> set (pt_packs t)
    \<and> list_all2 (\<lambda>i m. fm_get m ''id'' = Some (VStr i)) (pk_input_ids pack) (accepted_records r)
    \<and> (\<forall>m \<in> set (accepted_records r). within_task t m \<and> Inr (VFrozen m) \<in> freeze ` set out)"
  using pack_accepted [OF assms] by (simp add: identified_def)

text \<open>C37. Nothing is lost, repeated or reordered between the rows and the accepted result: when
  the outputs of a constructed prepared task are accepted together, there is one record for
  every row of the invocation, in the order of the rows, whatever the order in which the packs
  were given, and all of them are within what the task asks.\<close>

theorem packs_output_complete:
  assumes "PreparedTask_post t = Inr t" and "validate_packs env reg t outputs ctx s = (Inr r, s')"
    and "vo_accepted (vres_outcome r)"
  shows "list_all2 (\<lambda>row m. fm_get m ''id'' = Some (VStr (ri_identifier row))) (tv_rows (pt_invocation t)) (accepted_records r)
    \<and> (\<forall>m \<in> set (accepted_records r). within_task t m) \<and> mset (map fst outputs) = mset (pt_packs t)"
proof -
  let ?o = "sort_key (\<lambda>p. pk_pack_index (fst p)) outputs"
  from assms(2) have indexes: "map (\<lambda>p. pk_pack_index (fst p)) ?o = map int [0..<length (pt_packs t)]"
    by (auto simp: validate_packs_def Let_def raiseM_def split: if_splits)
  then have len: "length ?o = length (pt_packs t)" by (metis length_map length_upt diff_zero)
  from assms(2) indexes obtain rs where rs: "validate_each env reg t (pt_packs t) ?o ctx s = (Inr rs, s')"
    and fin: "bindR (combined_outcome (ve_sha env) t rs (list_all (\<lambda>r. vo_accepted (vres_outcome r)) rs)) (\<lambda>outcome.
          ValidationResult_post \<lparr>vres_outcome = outcome,
            accepted_records = (if list_all (\<lambda>r. vo_accepted (vres_outcome r)) rs then concat (map accepted_records rs) else []),
            metadata_recorded = (list_all (\<lambda>r. vo_accepted (vres_outcome r)) rs \<and> list_all metadata_recorded rs)\<rparr>) = Inr r"
    by (auto simp: validate_packs_def Let_def bindM_def liftR_def raiseM_def split: if_splits prod.splits sum.splits)
  then have all: "list_all (\<lambda>r. vo_accepted (vres_outcome r)) rs" and records: "accepted_records r = concat (map accepted_records rs)"
    using assms(3) by (auto simp: bindR_Inr combined_outcome_def Let_def ValidationResult_post_def split: list.splits if_splits)
  from validate_each_accepted [OF rs len all] records have ids: "map fst ?o = pt_packs t"
      "identified (concat (map pk_input_ids (pt_packs t))) (accepted_records r)" "\<forall>m \<in> set (accepted_records r). within_task t m"
    by auto
  have "concat (map pk_input_ids (pt_packs t)) = map ri_identifier (tv_rows (pt_invocation t))"
    using assms(1) by (auto simp: PreparedTask_post_def split: if_splits)
  with ids(2) have "list_all2 (\<lambda>row m. fm_get m ''id'' = Some (VStr (ri_identifier row))) (tv_rows (pt_invocation t)) (accepted_records r)"
    by (simp add: identified_def list_all2_map1)
  moreover have "mset (map fst outputs) = mset (pt_packs t)"
    using ids(1) by (metis mset_map mset_sort)
  ultimately show ?thesis using ids(3) by blast
qed

section \<open>Witnesses\<close>

definition sample_parser :: parser_env where
  "sample_parser = \<lparr>ps_wide = (\<lambda>_. ''?''), ps_float = (\<lambda>_. NaN), ps_depth = 10, ps_frames = 10,
     ps_lone = (\<lambda>_. False), ps_extract = []\<rparr>"

lemma parsed_records_typed_witness:
  "\<exists>ms. parse_output sample_parser (VList [VDict [(VStr ''label'', VStr ''good''), (VStr ''id'', VStr ''a'')]]) sample_definition None
     = Inr (Inr ms) \<and> (\<forall>m \<in> set ms. \<exists>i t. m = [(''id'', VStr i), (result_field (td_function sample_definition), VStr t)])"
proof -
  let ?v = "VList [VDict [(VStr ''label'', VStr ''good''), (VStr ''id'', VStr ''a'')]]"
  have normal: "normalize_json (ps_frames sample_parser) ?v = Inr ?v" by code_simp
  have "parse_output sample_parser ?v sample_definition None = Inr (Inr [[(''id'', VStr ''a''), (''label'', VStr ''good'')]])"
    by (simp add: normal parse_output_def open_envelope_def decode_response_def decode_structure_def validate_records_def
        result_field_def sample_definition_def seed_definition_def insert_commute)
  with parsed_records_typed [OF this] show ?thesis by blast
qed

lemma response_round_trip_witness:
  "\<exists>b. canonical_payload_bytes (\<lambda>_. []) (VList [response_record AI_CLASSIFY (''a'', ''good'')]) = Inr b
     \<and> (int (length b) \<le> td_response_size_limit sample_definition \<longrightarrow>
         parse_output sample_parser (VBytes b) sample_definition None = Inr (Inr [parsed_record AI_CLASSIFY (''a'', ''good'')]))"
  using response_round_trip [of sample_parser "\<lambda>_. []" sample_definition "[(''a'', ''good'')]"]
  by (auto simp: sample_parser_def sample_definition_def seed_definition_def)


definition label_rules :: validation_rules where
  "label_rules = \<lparr>vr_version = ''1'', identifier_field = ''id'', field_rules = [
     \<lparr>rule_id = ''r1'', rule_field = ''id'', value_type = FT_STRING, rule_required = True, rule_nullable = False,
       allowed_values = None, rule_minimum = None, rule_maximum = None\<rparr>], allow_additional_fields = True\<rparr>"

definition sample_pack :: packed_request where
  "sample_pack = \<lparr>pk_function = AI_CLASSIFY, pk_definition_version = ''1'', pk_pack_index = 0, pk_input_ids = [''a'', ''b''],
     pk_payload = ''p'', pk_estimated_input_tokens = 1, pk_estimated_output_tokens = 1\<rparr>"

definition sample_prepared :: prepared_task where
  "sample_prepared = \<lparr>pt_definition = sample_definition, pt_invocation = sample_invocation, pt_packs = [sample_pack],
     pt_model_work = [\<lparr>task_type = ''ai_classify'', payload_reference = ''r'', mw_input_ids = [''a'', ''b''],
       required_capabilities = {}, task_definition_version = Some ''1'', estimated_input_tokens = Some 1,
       estimated_output_tokens = Some 1\<rparr>]\<rparr>"

definition sample_records :: "frozen_mapping list" where
  "sample_records = [[(''id'', VStr ''b''), (''label'', VStr ''bad'')], [(''id'', VStr ''a''), (''label'', VStr ''good'')]]"

lemma sample_task_validate:
  "\<exists>r. task_validate sample_validator [(''1'', label_rules)] sample_prepared sample_pack (map VFrozen sample_records) sample_bound ()
     = (Inr r, ()) \<and> vo_accepted (vres_outcome r)"
  by (simp add: task_validate_def validate_def rules_resolve_def sample_bound_def label_rules_def sample_records_def Let_def
      check_record_def check_rule_def record_identifier_def domain_failure_def check_identifiers_def add_failure_def
      finish_validation_def sample_validator_def ValidationResult_post_def bindM_def liftR_def sample_prepared_def sample_pack_def
      task_failures_def sample_invocation_def allowed_labels_def fm_item_def order_records_def
      insert_commute)

lemma sample_prepared_ok: "PreparedTask_post sample_prepared = Inr sample_prepared"
  by (simp add: PreparedTask_post_def sample_prepared_def sample_definition_def seed_definition_def sample_invocation_def sample_pack_def)

lemma pack_output_validated_witness:
  "\<exists>r. vo_accepted (vres_outcome r)
     \<and> list_all2 (\<lambda>i m. fm_get m ''id'' = Some (VStr i)) [''a'', ''b''] (accepted_records (r :: validation_result))"
proof -
  obtain r where run: "task_validate sample_validator [(''1'', label_rules)] sample_prepared sample_pack (map VFrozen sample_records)
      sample_bound () = (Inr r, ())" "vo_accepted (vres_outcome r)"
    using sample_task_validate by blast
  from pack_output_validated [OF this] run(2) show ?thesis by (intro exI [of _ r]) (simp add: sample_pack_def)
qed

lemma packs_output_complete_witness:
  "\<exists>r. list_all2 (\<lambda>row m. fm_get m ''id'' = Some (VStr (ri_identifier row))) (tv_rows sample_invocation)
     (accepted_records (r :: validation_result))"
proof -
  obtain r where run: "task_validate sample_validator [(''1'', label_rules)] sample_prepared sample_pack (map VFrozen sample_records)
      sample_bound () = (Inr r, ())" "vo_accepted (vres_outcome r)"
    using sample_task_validate by blast
  have "\<exists>r'. validate_packs sample_validator [(''1'', label_rules)] sample_prepared [(sample_pack, map VFrozen sample_records)]
      sample_bound () = (Inr r', ()) \<and> vo_accepted (vres_outcome r')"
    using run by (simp add: validate_packs_def sample_prepared_def bindM_def pureM_def liftR_def combined_outcome_def
        ValidationResult_post_def Let_def bindR_def) (simp add: sample_pack_def)
  then obtain r' where "validate_packs sample_validator [(''1'', label_rules)] sample_prepared [(sample_pack, map VFrozen sample_records)]
      sample_bound () = (Inr r', ())" "vo_accepted (vres_outcome r')" by blast
  from packs_output_complete [OF sample_prepared_ok this] show ?thesis
    by (intro exI [of _ r']) (simp add: sample_prepared_def)
qed

end
