(* ===== verification/Admission.thy ===== *)
theory Admission
  imports Bulk_Coordination Budget Configuration Packing
begin

text \<open>
  \<open>admission/router.py\<close>, and the dispatchers of \<open>composition/prototype.py\<close> it is composed
  with: an envelope is resolved to one path, bound to its configuration, given a fresh
  execution context and handed to exactly one dispatcher. The ports of the router are a
  record of operations on one world; the bulk dispatcher binds the budget scope of the
  execution, submits an item of durable work per identifier and relays the outbox.
\<close>

declare map_of_eq_Some_iff [simp del]

section \<open>The router\<close>

definition discriminate_path :: "admission_envelope \<Rightarrow> typed_failure + execution_path" where
  "discriminate_path e =
     (let has_interactive = ae_interactive e \<noteq> None; has_bulk = ae_bulk e \<noteq> None in
      if has_interactive \<and> has_bulk then
        (case ae_discriminator e of
           Some p \<Rightarrow> Inr p
         | None \<Rightarrow> Inl (TypedFailure AMBIGUOUS_PATH ''both path indicators require one discriminator''))
      else if has_interactive then
        (if ae_discriminator e \<in> {None, Some INTERACTIVE} then Inr INTERACTIVE
         else Inl (TypedFailure INVALID_DISCRIMINATOR ''bulk discriminator has no bulk payload''))
      else if has_bulk then
        (if ae_discriminator e \<in> {None, Some BULK} then Inr BULK
         else Inl (TypedFailure INVALID_DISCRIMINATOR ''interactive discriminator has no interactive payload''))
      else Inl (TypedFailure MISSING_PATH ''one interactive or bulk payload is required''))"

record ('w, 'o) admission_ports =
  ap_bind :: "configuration_reference \<Rightarrow> ('w, execution_configuration) meth"
  ap_create :: "execution_path \<Rightarrow> execution_configuration \<Rightarrow> rat option \<Rightarrow> rat \<Rightarrow> ('w, execution_context) meth"
  ap_interactive :: "interactive_request \<Rightarrow> execution_context \<Rightarrow> ('w, 'o) meth"
  ap_bulk :: "batch_job \<Rightarrow> execution_context \<Rightarrow> ('w, 'o) meth"

definition rejected_decision :: "typed_failure \<Rightarrow> 'o admission_decision res" where
  "rejected_decision f = AdmissionDecision_post
     \<lparr>ad_status = REJECTED, ad_path = None, ad_context = None, ad_outcome = None, ad_failure = Some f\<rparr>"

definition dispatch_admitted :: "('w, 'o) admission_ports \<Rightarrow> admission_envelope \<Rightarrow> execution_path \<Rightarrow> execution_context \<Rightarrow> ('w, 'o) meth" where
  "dispatch_admitted ports e path ctx = (case path of
     INTERACTIVE \<Rightarrow> (case ae_interactive e of None \<Rightarrow> raiseM (AssertionError []) | Some r \<Rightarrow> ap_interactive ports r ctx)
   | BULK \<Rightarrow> (case ae_bulk e of None \<Rightarrow> raiseM (AssertionError []) | Some j \<Rightarrow> ap_bulk ports j ctx))"

definition admit_envelope :: "('w, 'o) admission_ports \<Rightarrow> admission_envelope \<Rightarrow> ('w, 'o admission_decision) meth" where
  "admit_envelope ports e w =
     (case discriminate_path e of
        Inl f \<Rightarrow> (rejected_decision f, w)
      | Inr path \<Rightarrow>
          (case ap_bind ports (ae_configuration e) w of
             (Inl (ConfigurationBindingError f), w1) \<Rightarrow> (rejected_decision f, w1)
           | (Inl x, w1) \<Rightarrow> (Inl x, w1)
           | (Inr cfg, w1) \<Rightarrow>
               bindM (ap_create ports path cfg (if path = INTERACTIVE then interactive_deadline_seconds e else None)
                        (cancellation_timeout_seconds e)) (\<lambda>ctx.
               bindM (dispatch_admitted ports e path ctx) (\<lambda>out.
                 liftR (AdmissionDecision_post \<lparr>ad_status = ACCEPTED, ad_path = Some path, ad_context = Some ctx,
                   ad_outcome = Some out, ad_failure = None\<rparr>))) w1))"


section \<open>The bulk dispatcher\<close>

record dispatch_state =
  ds_budget :: budget_controller
  ds_coordinator :: coordinator_state

definition with_budget :: "(budget_controller, 'a) meth \<Rightarrow> (dispatch_state, 'a) meth" where
  "with_budget m s = (case m (ds_budget s) of (x, b) \<Rightarrow> (x, s\<lparr>ds_budget := b\<rparr>))"

definition with_coordinator :: "(coordinator_state, 'a) meth \<Rightarrow> (dispatch_state, 'a) meth" where
  "with_coordinator m s = (case m (ds_coordinator s) of (x, c) \<Rightarrow> (x, s\<lparr>ds_coordinator := c\<rparr>))"

record bulk_dispatch_result =
  dr_job_id :: string
  dr_item_count :: int
  dr_submitted_item_ids :: "string list"

text \<open>\<open>json.dumps(..., sort_keys=True)\<close> with the default separators.\<close>

definition default_json :: "(rat \<Rightarrow> string) \<Rightarrow> json_format" where
  "default_json frepr = \<lparr>jf_ascii = True, jf_sort = True, jf_item = '', '', jf_key = '': '', jf_nan = True, jf_float = frepr\<rparr>"

definition source_row :: "bulk_task_work \<Rightarrow> string \<Rightarrow> frozen_mapping" where
  "source_row t i = (case fm_get (bt_source_rows t) i of Some (VFrozen m) \<Rightarrow> m | _ \<Rightarrow> [(''text'', VStr i)])"

definition optional_text :: "string option \<Rightarrow> pyval" where
  "optional_text x = (case x of None \<Rightarrow> VNone | Some s \<Rightarrow> VStr s)"

definition bulk_payload :: "(rat \<Rightarrow> string) \<Rightarrow> batch_job \<Rightarrow> string \<Rightarrow> string res" where
  "bulk_payload frepr job i = (case bj_task job of
     None \<Rightarrow> bindR (dumps (default_json frepr) (VDict [(VStr ''id'', VStr i), (VStr ''label'', VStr ''ok'')])) (\<lambda>t. Inr (utf8 t))
   | Some t \<Rightarrow> canonical_payload_bytes frepr (VDict [
       (VStr ''kind'', VStr ''task_invocation''),
       (VStr ''function'', VStr (bt_function t)),
       (VStr ''parameters'', VFrozen (bt_parameters t)),
       (VStr ''rows'', VTuple [VDict [(VStr ''id'', VStr i), (VStr ''source'', VFrozen (source_row t i))]]),
       (VStr ''requested_definition_version'', optional_text (bt_requested_definition_version t))]))"

definition submission_key :: "batch_job \<Rightarrow> string \<Rightarrow> string" where
  "submission_key job i = bj_job_id job @ '':'' @ i"

fun submit_items :: "coordinator_env \<Rightarrow> (rat \<Rightarrow> string) \<Rightarrow> batch_job \<Rightarrow> execution_context \<Rightarrow> string list
    \<Rightarrow> (coordinator_state, unit) meth" where
  "submit_items env frepr job ctx [] = pureM ()"
| "submit_items env frepr job ctx (i # rest) =
     bindM (liftR (bulk_payload frepr job i)) (\<lambda>payload.
     bindM (liftR (WorkSubmission_post \<lparr>sub_job_id = bj_job_id job, sub_item_id = i, sub_idempotency_key = submission_key job i,
              sub_payload = payload\<rparr>)) (\<lambda>sub.
     bindM (submit env sub ctx) (\<lambda>_. submit_items env frepr job ctx rest)))"

definition bulk_dispatch :: "coordinator_env \<Rightarrow> (rat \<Rightarrow> string) \<Rightarrow> string option \<Rightarrow> batch_job \<Rightarrow> execution_context
    \<Rightarrow> (dispatch_state, bulk_dispatch_result) meth" where
  "bulk_dispatch env frepr scope job ctx =
     bindM (case scope of None \<Rightarrow> pureM () | Some sc \<Rightarrow> bindM (with_budget (bind ctx [sc])) (\<lambda>_. pureM ())) (\<lambda>_.
     bindM (with_coordinator (submit_items env frepr job ctx (bj_item_ids job))) (\<lambda>_.
     bindM (with_coordinator (relay_pending env)) (\<lambda>_.
       pureM \<lparr>dr_job_id = bj_job_id job, dr_item_count = int (length (bj_item_ids job)), dr_submitted_item_ids = bj_item_ids job\<rparr>)))"

definition budgeted_dispatch :: "string \<Rightarrow> (interactive_request \<Rightarrow> execution_context \<Rightarrow> (dispatch_state, 'i) meth)
    \<Rightarrow> interactive_request \<Rightarrow> execution_context \<Rightarrow> (dispatch_state, 'i) meth" where
  "budgeted_dispatch scope dispatch r ctx = bindM (with_budget (bind ctx [scope])) (\<lambda>_. dispatch r ctx)"

text \<open>The composition of \<open>PrototypeApplication\<close>: the execution contexts draw their identifiers
  from the iterator of the coordinator and their time from its clock.\<close>

definition drawn_identifier :: "coordinator_env \<Rightarrow> (coordinator_state, string) meth" where
  "drawn_identifier env s = (Inr (co_identifier env (co_calls s)), s\<lparr>co_calls := Suc (co_calls s)\<rparr>)"

definition prototype_ports :: "configuration_registry \<Rightarrow> coordinator_env \<Rightarrow> (rat \<Rightarrow> string) \<Rightarrow> string
    \<Rightarrow> (interactive_request \<Rightarrow> execution_context \<Rightarrow> (dispatch_state, 'i) meth)
    \<Rightarrow> (dispatch_state, 'i + bulk_dispatch_result) admission_ports" where
  "prototype_ports reg env frepr scope interactive =
     \<lparr>ap_bind = (\<lambda>ref. liftR (registry_bind ref reg)),
      ap_create = context_create (with_coordinator (co_tick env)) (with_coordinator (drawn_identifier env)),
      ap_interactive = (\<lambda>r ctx. bindM (budgeted_dispatch scope interactive r ctx) (\<lambda>x. pureM (Inl x))),
      ap_bulk = (\<lambda>j ctx. bindM (bulk_dispatch env frepr (Some scope) j ctx) (\<lambda>x. pureM (Inr x)))\<rparr>"


section \<open>What the router decides\<close>

definition has_payload :: "admission_envelope \<Rightarrow> execution_path \<Rightarrow> bool" where
  "has_payload e p = (case p of INTERACTIVE \<Rightarrow> ae_interactive e \<noteq> None | BULK \<Rightarrow> ae_bulk e \<noteq> None)"

definition other_path :: "execution_path \<Rightarrow> execution_path" where
  "other_path p = (case p of INTERACTIVE \<Rightarrow> BULK | BULK \<Rightarrow> INTERACTIVE)"

lemma rejected_decision_Inr: "rejected_decision f = Inr d \<longleftrightarrow>
    d = \<lparr>ad_status = REJECTED, ad_path = None, ad_context = None, ad_outcome = None, ad_failure = Some f\<rparr>"
  by (auto simp: rejected_decision_def AdmissionDecision_post_def)

lemma decision_shapes:
  "admit_envelope ports e w = (Inr d, w') \<Longrightarrow> ad_status d = ACCEPTED
     \<or> (\<exists>f. d = \<lparr>ad_status = REJECTED, ad_path = None, ad_context = None, ad_outcome = None, ad_failure = Some f\<rparr>)"
  by (auto simp: admit_envelope_def rejected_decision_Inr bindM_def liftR_def AdmissionDecision_post_def Let_def
      split: sum.splits prod.splits exn.splits if_splits)

text \<open>Binders that only look at the world: a rejected envelope has no effect at all.\<close>

locale pure_binding =
  fixes ports :: "('w, 'o) admission_ports"
  assumes bind_pure: "ap_bind ports ref w = (x, w') \<Longrightarrow> w' = w"
begin

lemma rejected_untouched:
  assumes "admit_envelope ports e w = (Inr d, w')" and "ad_status d \<noteq> ACCEPTED"
  shows "w' = w"
  using assms bind_pure
  by (auto simp: admit_envelope_def bindM_def liftR_def AdmissionDecision_post_def Let_def
      split: sum.splits prod.splits exn.splits if_splits)

lemma accepted_dispatched:
  assumes "admit_envelope ports e w = (Inr d, w')" and "ad_status d = ACCEPTED"
  obtains p cfg ctx w1 out where "discriminate_path e = Inr p" "ap_bind ports (ae_configuration e) w = (Inr cfg, w)"
    "ap_create ports p cfg (if p = INTERACTIVE then interactive_deadline_seconds e else None) (cancellation_timeout_seconds e) w = (Inr ctx, w1)"
    "dispatch_admitted ports e p ctx w1 = (Inr out, w')"
    "d = \<lparr>ad_status = ACCEPTED, ad_path = Some p, ad_context = Some ctx, ad_outcome = Some out, ad_failure = None\<rparr>"
proof -
  from assms obtain p cfg w0 where p: "discriminate_path e = Inr p" and cfg: "ap_bind ports (ae_configuration e) w = (Inr cfg, w0)"
    by (auto simp: admit_envelope_def rejected_decision_Inr split: sum.splits prod.splits exn.splits)
  then have "w0 = w" using bind_pure by blast
  with assms(1) p cfg that show ?thesis
    by (auto simp: admit_envelope_def bindM_def liftR_def AdmissionDecision_post_def Let_def
        split: sum.splits prod.splits if_splits)
qed

end

interpretation prototype: pure_binding "prototype_ports reg env frepr scope interactive"
  for reg env frepr scope and interactive :: "interactive_request \<Rightarrow> execution_context \<Rightarrow> (dispatch_state, 'i) meth"
  by unfold_locales (auto simp: prototype_ports_def liftR_def)


section \<open>What the bulk dispatcher leaves\<close>

text \<open>The work and the objects of a coordinator that are kept.\<close>

definition keeps :: "coordinator_env \<Rightarrow> coordinator_state \<Rightarrow> coordinator_state \<Rightarrow> bool" where
  "keeps env s s' \<longleftrightarrow> (\<forall>k i. dget (items_map (co_repo s)) k = Some i \<longrightarrow> dget (items_map (co_repo s')) k = Some i)
     \<and> (\<forall>ref b. get_object (co_digest env) ref (co_objects s) = Inr b \<longrightarrow> get_object (co_digest env) ref (co_objects s') = Inr b)"

definition sound :: "coordinator_env \<Rightarrow> (string \<Rightarrow> bool) \<Rightarrow> coordinator_state \<Rightarrow> bool" where
  "sound env good s \<longleftrightarrow> outbox_ok (co_repo s) \<and> store_ok (co_digest env) good (co_objects s)"

text \<open>The work of an item with its payload, under a configuration.\<close>

definition work_stored :: "coordinator_env \<Rightarrow> coordinator_state \<Rightarrow> configuration_reference \<Rightarrow> string \<Rightarrow> string \<Rightarrow> string \<Rightarrow> string \<Rightarrow> bool" where
  "work_stored env s ref job ikey i b \<longleftrightarrow> (\<exists>w. dget (items_map (co_repo s)) (job, ikey) = Some w \<and> wi_item_id w = i
     \<and> wi_configuration w = ref \<and> get_object (co_digest env) (wi_payload_reference w) (co_objects s) = Inr b)"

lemma keeps_refl: "keeps env s s"
  by (simp add: keeps_def)

lemma keeps_trans: "keeps env s s1 \<Longrightarrow> keeps env s1 s2 \<Longrightarrow> keeps env s s2"
  by (simp add: keeps_def)

lemma keeps_work: "keeps env s s' \<Longrightarrow> work_stored env s ref job ikey i b \<Longrightarrow> work_stored env s' ref job ikey i b"
  by (auto simp: keeps_def work_stored_def)

lemma submit_stores:
  assumes "digest_ok (co_digest env) good" and "sound env good s" and "good (sub_payload sub)"
    and "submit env sub ctx s = (Inr i, s')"
  shows "sound env good s' \<and> keeps env s s' \<and> work_stored env s' (reference (ctx_configuration ctx))
    (sub_job_id sub) (sub_idempotency_key sub) (sub_item_id sub) (sub_payload sub)"
proof -
  have can: "\<not> blank (co_identifier env (co_calls s)) \<and> (\<exists>i. submittable env sub ctx i)"
    using submit_refused [OF assms(1), of s sub ctx] assms(4) by auto
  then obtain j where j: "submittable env sub ctx j" and event: "\<not> blank (co_identifier env (co_calls s))" by blast
  let ?ob = "outbox_of (co_identifier env (co_calls s)) j"
  have parts: "wi_job_id j = sub_job_id sub" "wi_item_id j = sub_item_id sub"
      "wi_idempotency_key j = sub_idempotency_key sub" "wi_configuration j = reference (ctx_configuration ctx)"
      "wi_payload_reference j = stored_reference (co_digest env) PAYLOAD (sub_payload sub)"
    using j by (simp_all add: submittable_def submitted_item_def)
  obtain x r where create: "create_with_outbox j ?ob (co_repo s) = (x, r)" by fastforce
  obtain y objs where put: "put_object (co_digest env) PAYLOAD (sub_payload sub) (co_objects s) = (y, objs)" by fastforce
  from submit_run [OF assms(1) j event] create put assms(4)
  have s': "x = Inr i" "co_repo s' = r" "co_objects s' = objs" by (auto simp: put_payload_def)
  from put_object_stored [OF assms(1) _ assms(3) put] assms(2)
  have objs: "store_ok (co_digest env) good objs" "dget objs (object_key (co_digest env) PAYLOAD (sub_payload sub)) = Some (sub_payload sub)"
      "\<forall>ref d. dget (co_objects s) ref = Some d \<longrightarrow> dget objs ref = Some d" by (simp_all add: sound_def)
  have get: "get_object (co_digest env) (stored_reference (co_digest env) PAYLOAD (sub_payload sub)) objs = Inr (sub_payload sub)"
    using objs(2) by (simp add: get_object_stored)
  have "outbox_ok r" using outbox_create [of "co_repo s" j ?ob] assms(2) create by (simp add: sound_def)
  with objs(1) s' have sound: "sound env good s'" by (simp add: sound_def)
  have objects: "get_object (co_digest env) ref (co_objects s) = Inr b \<Longrightarrow> get_object (co_digest env) ref objs = Inr b" for ref b
    using objs(3) by (auto simp: get_object_def split: option.splits if_splits)
  show ?thesis
  proof (rule create_outcomes [of j ?ob "co_repo s"])
    fix e assume "create_with_outbox j ?ob (co_repo s) = (Inl e, co_repo s)"
    with create s' show ?thesis by simp
  next
    fix old assume "dget (items_map (co_repo s)) (wi_job_id j, wi_idempotency_key j) = Some old"
      "wi_item_id old = wi_item_id j" "wi_configuration old = wi_configuration j"
      "wi_payload_reference old = wi_payload_reference j" "create_with_outbox j ?ob (co_repo s) = (Inr old, co_repo s)"
    with create s' sound objects get parts show ?thesis by (auto simp: keeps_def work_stored_def)
  next
    assume "dget (items_map (co_repo s)) (wi_job_id j, wi_idempotency_key j) = None"
      "create_with_outbox j ?ob (co_repo s) = (Inr j, (co_repo s)\<lparr>
        items_map := dset (wi_job_id j, wi_idempotency_key j) j (items_map (co_repo s)),
        item_ids_map := dset (wi_job_id j, wi_item_id j) (wi_idempotency_key j) (item_ids_map (co_repo s)),
        outbox_map := dset (ob_event_id ?ob) ?ob (outbox_map (co_repo s))\<rparr>)"
    then have r: "dget (items_map r) (sub_job_id sub, sub_idempotency_key sub) = Some j"
        "\<forall>k v. dget (items_map (co_repo s)) k = Some v \<longrightarrow> dget (items_map r) k = Some v"
      using create parts by auto
    with s' objects have "keeps env s s'" by (simp add: keeps_def)
    with r(1) s' sound get parts show ?thesis by (simp add: work_stored_def)
  qed
qed

lemma submit_items_stores:
  assumes "digest_ok (co_digest env) good" and "sound env good s"
    and "\<forall>i \<in> set is. \<forall>b. bulk_payload frepr job i = Inr b \<longrightarrow> good b"
    and "submit_items env frepr job ctx is s = (Inr u, s')"
  shows "sound env good s' \<and> keeps env s s' \<and> (\<forall>i \<in> set is. \<exists>b. bulk_payload frepr job i = Inr b
    \<and> work_stored env s' (reference (ctx_configuration ctx)) (bj_job_id job) (submission_key job i) i b)"
  using assms(2-4)
proof (induction "is" arbitrary: s)
  case Nil
  then show ?case by (simp add: pureM_def keeps_refl)
next
  case (Cons i rest)
  from Cons.prems(3) obtain b w s1 where step: "bulk_payload frepr job i = Inr b"
      "submit env \<lparr>sub_job_id = bj_job_id job, sub_item_id = i, sub_idempotency_key = submission_key job i, sub_payload = b\<rparr> ctx s = (Inr w, s1)"
      "submit_items env frepr job ctx rest s1 = (Inr u, s')"
    by (auto simp: bindM_def liftR_def WorkSubmission_post_def bindR_Inr split: sum.splits prod.splits)
  from submit_stores [OF assms(1) Cons.prems(1) _ step(2)] Cons.prems(2) step(1)
  have s1: "sound env good s1" "keeps env s s1" "work_stored env s1 (reference (ctx_configuration ctx)) (bj_job_id job) (submission_key job i) i b"
    by simp_all
  from Cons.IH [OF s1(1) _ step(3)] Cons.prems(2) have rest: "sound env good s'" "keeps env s1 s'"
      "\<forall>i \<in> set rest. \<exists>b. bulk_payload frepr job i = Inr b
        \<and> work_stored env s' (reference (ctx_configuration ctx)) (bj_job_id job) (submission_key job i) i b" by simp_all
  from keeps_work [OF rest(2) s1(3)] step(1) rest(3)
  have "\<forall>k \<in> set (i # rest). \<exists>b. bulk_payload frepr job k = Inr b
      \<and> work_stored env s' (reference (ctx_configuration ctx)) (bj_job_id job) (submission_key job k) k b" by (simp only: list.set) blast
  with rest(1) keeps_trans [OF s1(2) rest(2)] show ?case by blast
qed

lemma relay_stores:
  assumes "outbox_ok (co_repo s)" and "relay_pending env s = (Inr n, s')"
  shows "pending_outbox (co_repo s') = [] \<and> keeps env s s'"
  using relay_run [OF assms(1), of env] assms(2) by (auto simp: keeps_def)

lemma bind_stores:
  assumes "bind ctx scs c = (Inr b, c')"
  shows "binding_for (execution_id ctx) c' = Some b \<and> bb_scopes b = fromkeys scs
    \<and> bb_configuration_version b = version (reference (ctx_configuration ctx))"
  using assms
  by (auto simp: bind_def binding_for_def normalize_scopes_def require_known_scopes_def BudgetBinding_def Let_def bindR_Inr bindR_Inl
      split: sum.splits option.splits if_splits)

lemma context_create_Inr:
  assumes "context_create clock fresh path cfg dl cancel w = (Inr ctx, w')"
  shows "ctx_configuration ctx = cfg \<and> ctx_path ctx = path"
  using assms
  by (auto simp: context_create_def bindM_def liftR_def pureM_def split: sum.splits prod.splits)

lemma context_create_frame:
  assumes "context_create clock fresh path cfg dl cancel w = (x, w')"
    and "\<And>w y w'. clock w = (y, w') \<Longrightarrow> f w' = f w" and "\<And>w y w'. fresh w = (y, w') \<Longrightarrow> f w' = f w"
  shows "f w' = f w"
  using assms(1)
  by (auto simp: context_create_def bindM_def liftR_def pureM_def dest!: assms(2,3) split: sum.splits prod.splits)


section \<open>Properties\<close>

text \<open>Exactly one path: an envelope resolves to a path exactly when it has the payload of
  that path and either its discriminator names the path, or it has no discriminator and no
  other payload.\<close>

theorem path_resolved_exactly:
  "discriminate_path e = Inr p \<longleftrightarrow> has_payload e p
     \<and> (ae_discriminator e = Some p \<or> ae_discriminator e = None \<and> \<not> has_payload e (other_path p))"
  by (cases p; cases "ae_discriminator e"; cases "the (ae_discriminator e)")
    (auto simp: discriminate_path_def has_payload_def other_path_def Let_def)

lemma admit_cong:
  assumes "ap_bind p = ap_bind q" and "ap_create p = ap_create q" and "dispatch_admitted p e path = dispatch_admitted q e path"
    and "discriminate_path e = Inr path"
  shows "admit_envelope p e w = admit_envelope q e w"
proof -
  have "admit_envelope r e w = (case ap_bind r (ae_configuration e) w of
             (Inl (ConfigurationBindingError f), w1) \<Rightarrow> (rejected_decision f, w1)
           | (Inl x, w1) \<Rightarrow> (Inl x, w1)
           | (Inr cfg, w1) \<Rightarrow>
               bindM (ap_create r path cfg (if path = INTERACTIVE then interactive_deadline_seconds e else None)
                        (cancellation_timeout_seconds e)) (\<lambda>ctx.
               bindM (dispatch_admitted r e path ctx) (\<lambda>out.
                 liftR (AdmissionDecision_post \<lparr>ad_status = ACCEPTED, ad_path = Some path, ad_context = Some ctx,
                   ad_outcome = Some out, ad_failure = None\<rparr>))) w1)" for r
    by (simp add: admit_envelope_def assms(4))
  note form = this
  show ?thesis unfolding form assms(1-3) ..
qed

text \<open>Admission is exclusive: the dispatcher of the path that was not resolved is not
  consulted, and an envelope that resolves to no path consults no port at all; any other
  operation in its place gives the same decision and the same world.\<close>

theorem admission_exclusive:
  "admit_envelope ports e w = admit_envelope (case discriminate_path e of
       Inr INTERACTIVE \<Rightarrow> ports\<lparr>ap_bulk := other_bulk\<rparr>
     | Inr BULK \<Rightarrow> ports\<lparr>ap_interactive := other_interactive\<rparr>
     | Inl f \<Rightarrow> \<lparr>ap_bind = other_bind, ap_create = other_create, ap_interactive = other_interactive, ap_bulk = other_bulk\<rparr>) e w"
proof (cases "discriminate_path e")
  case (Inl f)
  then show ?thesis by (simp add: admit_envelope_def)
next
  case (Inr p)
  show ?thesis by (rule admit_cong [OF _ _ _ Inr]; cases p) (simp_all add: Inr dispatch_admitted_def fun_eq_iff split: option.split)
qed

text \<open>C38. A rejected envelope leaves no trace: when the composed router rejects, neither the
  budget nor the durable work, the objects, the queue or the identifiers have changed, and
  the decision carries the failure and nothing else.\<close>

theorem rejection_leaves_no_trace:
  assumes "admit_envelope (prototype_ports reg env frepr scope interactive) e w = (Inr d, w')" and "ad_status d \<noteq> ACCEPTED"
  shows "w' = w \<and> (\<exists>f. d = \<lparr>ad_status = REJECTED, ad_path = None, ad_context = None, ad_outcome = None, ad_failure = Some f\<rparr>)"
proof
  show "w' = w" by (rule prototype.rejected_untouched [OF assms])
  from decision_shapes [OF assms(1)] assms(2)
  show "\<exists>f. d = \<lparr>ad_status = REJECTED, ad_path = None, ad_context = None, ad_outcome = None, ad_failure = Some f\<rparr>" by auto
qed

text \<open>C39. An accepted bulk job is durable when admission returns: every item identifier has its
  work under the configuration that the envelope names, with its canonical payload readable
  from the object store; the budget scope is bound to the new execution; nothing of the
  outbox is left to publish; and no work or object that was there before has changed.\<close>

theorem admitted_bulk_job_durable:
  assumes "repo_reachable (co_repo (ds_coordinator w))" and "digest_ok (co_digest env) good"
    and "store_ok (co_digest env) good (co_objects (ds_coordinator w))"
    and "ae_bulk e = Some job" and "\<And>i b. i \<in> set (bj_item_ids job) \<Longrightarrow> bulk_payload frepr job i = Inr b \<Longrightarrow> good b"
    and "admit_envelope (prototype_ports reg env frepr scope interactive) e w = (Inr d, w')" and "ad_path d = Some BULK"
  shows "\<exists>ctx. ad_context d = Some ctx \<and> reference (ctx_configuration ctx) = ae_configuration e
    \<and> (\<exists>b. binding_for (execution_id ctx) (ds_budget w') = Some b \<and> bb_scopes b = [scope])
    \<and> (\<forall>i \<in> set (bj_item_ids job). \<exists>b. bulk_payload frepr job i = Inr b
          \<and> work_stored env (ds_coordinator w') (ae_configuration e) (bj_job_id job) (submission_key job i) i b)
    \<and> pending_outbox (co_repo (ds_coordinator w')) = [] \<and> keeps env (ds_coordinator w) (ds_coordinator w')"
proof -
  let ?ports = "prototype_ports reg env frepr scope interactive"
  from decision_shapes [OF assms(6)] assms(7) have "ad_status d = ACCEPTED" by auto
  with prototype.accepted_dispatched [OF assms(6)] obtain p cfg ctx w1 out where run:
      "ap_bind ?ports (ae_configuration e) w = (Inr cfg, w)"
      "ap_create ?ports p cfg (if p = INTERACTIVE then interactive_deadline_seconds e else None) (cancellation_timeout_seconds e) w = (Inr ctx, w1)"
      "dispatch_admitted ?ports e p ctx w1 = (Inr out, w')"
      "d = \<lparr>ad_status = ACCEPTED, ad_path = Some p, ad_context = Some ctx, ad_outcome = Some out, ad_failure = None\<rparr>"
    by metis
  then have p: "p = BULK" using assms(7) by simp
  from run(1) have cfg: "reference cfg = ae_configuration e"
    by (auto simp: prototype_ports_def liftR_def registry_bind_def configuration_of_def bindR_Inr)
  with run(2) have ctx: "reference (ctx_configuration ctx) = ae_configuration e"
    using context_create_Inr by (fastforce simp: prototype_ports_def)
  have "(co_repo (ds_coordinator w1), co_objects (ds_coordinator w1)) = (co_repo (ds_coordinator w), co_objects (ds_coordinator w))"
    by (rule context_create_frame [OF run(2) [unfolded prototype_ports_def, simplified]])
      (auto simp: with_coordinator_def co_tick_def drawn_identifier_def)
  then have w1: "co_repo (ds_coordinator w1) = co_repo (ds_coordinator w)" "co_objects (ds_coordinator w1) = co_objects (ds_coordinator w)" by simp_all
  from run(3) p assms(4) obtain b c2 c3 c4 n where dispatched: "bind ctx [scope] (ds_budget w1) = (Inr b, c2)"
      "submit_items env frepr job ctx (bj_item_ids job) (ds_coordinator w1) = (Inr (), c3)"
      "relay_pending env c3 = (Inr n, c4)" "ds_coordinator w' = c4" "ds_budget w' = c2"
    by (auto simp: dispatch_admitted_def prototype_ports_def bulk_dispatch_def bindM_def pureM_def with_budget_def with_coordinator_def
        split: sum.splits prod.splits)
  have sound: "sound env good (ds_coordinator w1)"
    using outbox_reachable [OF assms(1)] assms(3) w1 by (simp add: sound_def)
  from submit_items_stores [OF assms(2) sound _ dispatched(2)] assms(5)
  have items: "sound env good c3" "keeps env (ds_coordinator w1) c3" "\<forall>i \<in> set (bj_item_ids job). \<exists>b. bulk_payload frepr job i = Inr b
      \<and> work_stored env c3 (reference (ctx_configuration ctx)) (bj_job_id job) (submission_key job i) i b" by auto
  from relay_stores [OF _ dispatched(3)] items(1) have relay: "pending_outbox (co_repo c4) = []" "keeps env c3 c4"
    by (simp_all add: sound_def)
  have "keeps env (ds_coordinator w) (ds_coordinator w1)" using w1 by (simp add: keeps_def)
  with items(2) relay(2) have "keeps env (ds_coordinator w) c4" using keeps_trans by blast
  moreover have "\<forall>i \<in> set (bj_item_ids job). \<exists>b. bulk_payload frepr job i = Inr b
      \<and> work_stored env c4 (ae_configuration e) (bj_job_id job) (submission_key job i) i b"
    using items(3) keeps_work [OF relay(2)] ctx by metis
  moreover from bind_stores [OF dispatched(1)] have "\<exists>b. binding_for (execution_id ctx) (ds_budget w') = Some b \<and> bb_scopes b = [scope]"
    using dispatched(5) by auto
  ultimately show ?thesis using run(4) ctx relay(1) dispatched(4) by simp
qed


section \<open>Witnesses\<close>

definition sample_job :: batch_job where
  "sample_job = \<lparr>bj_job_id = ''job'', bj_item_ids = [''x'', ''y''], bj_model_work = [], bj_task = None\<rparr>"

definition sample_profiles :: configuration_registry where
  "sample_profiles = \<lparr>cr_retention = 1, cr_versions = [(\<lparr>profile_id = ''p'', version = ''1''\<rparr>,
     \<lparr>st_reference = \<lparr>profile_id = ''p'', version = ''1''\<rparr>, st_content = [], st_digest = ''1'', st_created_at = Aware 0,
       st_retain_until = Aware 1\<rparr>)], cr_active = []\<rparr>"

definition sample_envelope :: "string \<Rightarrow> admission_envelope" where
  "sample_envelope ver = \<lparr>ae_configuration = \<lparr>profile_id = ''p'', version = ver\<rparr>, ae_interactive = None, ae_bulk = Some sample_job,
     ae_discriminator = None, interactive_deadline_seconds = None, cancellation_timeout_seconds = 1\<rparr>"

definition sample_names :: coordinator_env where
  "sample_names = \<lparr>co_now = (\<lambda>n. Aware (int n)), co_digest = sample_digest, co_identifier = (\<lambda>n. replicate (Suc n) CHR ''i'')\<rparr>"

definition sample_world :: dispatch_state where
  "sample_world = \<lparr>ds_budget = projr (budget_init [\<lparr>bl_scope = ''all'', bl_cost_minor_units = 10, bl_token_units = 10\<rparr>] (\<lambda>n. ''r'')),
     ds_coordinator = \<lparr>co_repo = repository_init, co_objects = [], co_broker = broker_init (\<lambda>n. ''d''), co_clock = 0, co_calls = 0\<rparr>\<rparr>"

definition sample_router :: "(dispatch_state, unit + bulk_dispatch_result) admission_ports" where
  "sample_router = prototype_ports sample_profiles sample_names (\<lambda>_. []) ''all'' (\<lambda>r ctx s. (Inr (), s))"

lemma sample_admission: "\<exists>d w'. admit_envelope sample_router (sample_envelope ''1'') sample_world = (Inr d, w') \<and> ad_path d = Some BULK"
proof -
  obtain x w' where run: "admit_envelope sample_router (sample_envelope ''1'') sample_world = (x, w')" by fastforce
  have "case fst (admit_envelope sample_router (sample_envelope ''1'') sample_world) of Inl e \<Rightarrow> False | Inr d \<Rightarrow> ad_path d = Some BULK"
    by code_simp
  with run show ?thesis by (cases x) auto
qed

lemma admitted_bulk_job_durable_witness:
  "\<exists>(w' :: dispatch_state) b. pending_outbox (co_repo (ds_coordinator w')) = []
     \<and> work_stored sample_names (ds_coordinator w') \<lparr>profile_id = ''p'', version = ''1''\<rparr> ''job'' ''job:x'' ''x'' b"
proof -
  obtain d w' where run: "admit_envelope (prototype_ports sample_profiles sample_names (\<lambda>_. []) ''all'' (\<lambda>r ctx s. (Inr (), s)))
      (sample_envelope ''1'') sample_world = (Inr (d :: (unit + bulk_dispatch_result) admission_decision), w')" "ad_path d = Some BULK"
    using sample_admission by (auto simp: sample_router_def)
  have "\<exists>ctx. ad_context d = Some ctx \<and> reference (ctx_configuration ctx) = ae_configuration (sample_envelope ''1'')
    \<and> (\<exists>b. binding_for (execution_id ctx) (ds_budget w') = Some b \<and> bb_scopes b = [''all''])
    \<and> (\<forall>i \<in> set (bj_item_ids sample_job). \<exists>b. bulk_payload (\<lambda>_. []) sample_job i = Inr b
          \<and> work_stored sample_names (ds_coordinator w') (ae_configuration (sample_envelope ''1'')) (bj_job_id sample_job) (submission_key sample_job i) i b)
    \<and> pending_outbox (co_repo (ds_coordinator w')) = [] \<and> keeps sample_names (ds_coordinator sample_world) (ds_coordinator w')"
    by (rule admitted_bulk_job_durable [OF _ _ _ _ _ run, where good = "\<lambda>_. True"])
      (simp_all add: sample_world_def repo_reachable.initial sample_names_def sample_digest_ok store_ok_def sample_envelope_def)
  then have "pending_outbox (co_repo (ds_coordinator w')) = []
      \<and> (\<exists>b. work_stored sample_names (ds_coordinator w') \<lparr>profile_id = ''p'', version = ''1''\<rparr> ''job'' ''job:x'' ''x'' b)"
    by (auto simp: sample_job_def sample_envelope_def submission_key_def)
  then show ?thesis by blast
qed

lemma rejection_leaves_no_trace_witness:
  "\<exists>d. admit_envelope sample_router (sample_envelope ''2'') sample_world = (Inr d, sample_world) \<and> ad_status d = REJECTED"
proof -
  obtain x w' where run: "admit_envelope sample_router (sample_envelope ''2'') sample_world = (x, w')" by fastforce
  have "case fst (admit_envelope sample_router (sample_envelope ''2'') sample_world) of Inl e \<Rightarrow> False | Inr d \<Rightarrow> ad_status d = REJECTED"
    by code_simp
  with run obtain d where d: "x = Inr d" "ad_status d = REJECTED" by (cases x) auto
  with run rejection_leaves_no_trace [OF run [unfolded sample_router_def d(1)]] show ?thesis by auto
qed

end
