(* ===== verification/Relational.thy ===== *)
theory Relational
  imports Relational_Models Json_Reader Validation
begin

text \<open>
  \<open>relational/plans.py\<close>, \<open>normalization.py\<close> and \<open>data_access.py\<close>: the allowlist of query
  plans, the classification of operation trees, typed parameters, the canonical form and the
  order of results, and the fail-closed read path. The adapter, the access policy, the audit
  sink and the clock are parameters with a world of their own, and so are the text of a
  finite float and of objects that are no scalars.
\<close>

declare map_of_eq_Some_iff [simp del]

section \<open>Scalars\<close>

text \<open>The values of parameters and results. A decimal is \<open>coefficient * 10 ^ exponent\<close>, or
  special; the sign of zero is not kept. \<open>DB_OBJECT t\<close> is any other object, \<open>t\<close> its text.\<close>

datatype decimal_value = Dec int int | DecInf bool | DecNaN

datatype db_value =
    DB_NONE | DB_STR string | DB_INT int | DB_DECIMAL decimal_value | DB_FLOAT pyfloat | DB_BOOL bool
  | DB_DATE int | DB_DATETIME datetime | DB_BYTES string | DB_BYTEARRAY string | DB_MEMORY string | DB_OBJECT string

definition dec_rat :: "int \<Rightarrow> int \<Rightarrow> rat" where
  "dec_rat c e = (if 0 \<le> e then of_int (c * 10 ^ nat e) else of_int c / of_int (10 ^ nat (- e)))"

text \<open>\<open>Decimal(str)\<close>: white space around and underscores within are dropped; a number needs a
  digit of the integer or the fraction, and must be exact in the widest context.\<close>

definition strip_text :: "string \<Rightarrow> string" where
  "strip_text s = rev (dropWhile py_space (rev (dropWhile py_space s)))"

definition lower_char :: "char \<Rightarrow> char" where
  "lower_char c = (let n = of_char c :: nat in if 65 \<le> n \<and> n \<le> 90 then char_of (n + 32) else c)"

definition split_sign :: "string \<Rightarrow> bool \<times> string" where
  "split_sign s = (case s of
     c # r \<Rightarrow> if c = CHR ''-'' then (True, r) else if c = CHR ''+'' then (False, r) else (False, s)
   | [] \<Rightarrow> (False, s))"

definition parse_exponent :: "string \<Rightarrow> int option" where
  "parse_exponent s = (case s of
     [] \<Rightarrow> Some 0
   | c # r \<Rightarrow>
       if lower_char c \<noteq> CHR ''e'' then None
       else (let (neg, ds) = split_sign r in
             if ds \<noteq> [] \<and> list_all is_digit ds then Some (if neg then - digits_value ds else digits_value ds) else None))"

definition parse_special :: "bool \<Rightarrow> string \<Rightarrow> decimal_value option" where
  "parse_special neg s =
     (let t = map lower_char s in
      if t \<in> {''inf'', ''infinity''} then Some (DecInf neg)
      else if take 3 t = ''nan'' \<and> list_all is_digit (drop 3 t) \<or> take 4 t = ''snan'' \<and> list_all is_digit (drop 4 t) then Some DecNaN
      else None)"

definition decimal_digits :: "int \<Rightarrow> int" where
  "decimal_digits c = int (length (digits (nat \<bar>c\<bar>)))"

definition parse_decimal :: "string \<Rightarrow> decimal_value option" where
  "parse_decimal text =
     (let (neg, s) = split_sign (filter (\<lambda>c. c \<noteq> CHR ''_'') (strip_text text));
          whole = takeWhile is_digit s; rest = dropWhile is_digit s;
          point = (rest \<noteq> [] \<and> hd rest = CHR ''.'');
          fraction = (if point then takeWhile is_digit (tl rest) else []);
          tail = (if point then dropWhile is_digit (tl rest) else rest) in
      if whole @ fraction = [] then parse_special neg s
      else (case parse_exponent tail of
              None \<Rightarrow> None
            | Some x \<Rightarrow>
                (let c = digits_value (whole @ fraction); e = x - int (length fraction) in
                 if c \<noteq> 0 \<and> (999999999999999999 < e + decimal_digits c - 1 \<or> e < -1999999999999999997) then None
                 else Some (Dec (if neg then - c else c) e))))"

text \<open>\<open>Decimal(str(value))\<close>; \<open>str\<close> of an integer of more than 4300 digits raises.\<close>

fun to_decimal :: "(rat \<Rightarrow> string) \<Rightarrow> db_value \<Rightarrow> decimal_value option" where
  "to_decimal frepr (DB_DECIMAL d) = Some d"
| "to_decimal frepr (DB_INT i) = (if int_digits < length (digits (nat \<bar>i\<bar>)) then None else Some (Dec i 0))"
| "to_decimal frepr (DB_STR s) = parse_decimal s"
| "to_decimal frepr (DB_FLOAT x) = (case x of Finite q \<Rightarrow> parse_decimal (frepr q) | PosInf \<Rightarrow> Some (DecInf False)
     | NegInf \<Rightarrow> Some (DecInf True) | NaN \<Rightarrow> Some DecNaN)"
| "to_decimal frepr (DB_OBJECT t) = parse_decimal t"
| "to_decimal frepr v = None"

text \<open>\<open>Decimal.normalize()\<close> in the default context: at most 28 digits, half to even; exponents
  up to 999999, beyond which \<open>Overflow\<close> is raised; then trailing zeros are dropped.\<close>

definition round_half_even :: "int \<Rightarrow> nat \<Rightarrow> int" where
  "round_half_even c k =
     (let p = 10 ^ k; q = \<bar>c\<bar> div p; r = \<bar>c\<bar> mod p;
          up = (if 2 * r < p then q else if p < 2 * r then q + 1 else if even q then q else q + 1) in
      if c < 0 then - up else up)"

function drop_zeros :: "int \<Rightarrow> int \<Rightarrow> int \<times> int" where
  "drop_zeros c e = (if c = 0 then (0, 0) else if c mod 10 = 0 then drop_zeros (c div 10) (e + 1) else (c, e))"
  by pat_completeness auto
termination
  by (relation "measure (\<lambda>(c, e). nat \<bar>c\<bar>)") (auto elim!: dvdE simp: mod_eq_0_iff_dvd)

declare drop_zeros.simps [simp del]

definition decimal_overflow :: exn where
  "decimal_overflow = ForeignError ''Overflow'' ''[<class 'decimal.Overflow'>]''"

definition dec_normalize :: "int \<Rightarrow> int \<Rightarrow> (int \<times> int) res" where
  "dec_normalize c e =
     (if c = 0 then Inr (0, 0)
      else (let least = max (decimal_digits c + e - 28) (-1000026);
                (c', e') = (if e < least then (round_half_even c (nat (least - e)), least) else (c, e)) in
            if c' \<noteq> 0 \<and> 999999 < e' + decimal_digits c' - 1 then Inl decimal_overflow
            else Inr (drop_zeros c' e')))"

section \<open>Plans\<close>

type_synonym plan_registry = "(query_plan_reference, query_plan) dict"

definition plan_register :: "query_plan \<Rightarrow> (plan_registry, unit) meth" where
  "plan_register p reg =
     (case dget reg (qp_reference p) of
        Some existing \<Rightarrow>
          if existing \<noteq> p
          then (Inl (ValueError (''query plan '' @ qpr_plan_id (qp_reference p) @ ''@'' @ qpr_version (qp_reference p) @ '' is immutable'')), reg)
          else (Inr (), dset (qp_reference p) p reg)
      | None \<Rightarrow> (Inr (), dset (qp_reference p) p reg))"

definition plan_resolve :: "query_plan_reference \<Rightarrow> plan_registry \<Rightarrow> query_plan option" where
  "plan_resolve ref reg = dget reg ref"

fun operation_kinds :: "operation_node \<Rightarrow> operation_kind set" where
  "operation_kinds (OperationNode k cs d) = insert k (\<Union> (set (map operation_kinds cs)))"

definition classify_operation :: "operation_node \<Rightarrow> operation_classification" where
  "classify_operation n =
     (let kinds = operation_kinds n in
      if kinds \<inter> set MUTATION_OPERATIONS \<noteq> {} then MUTATION
      else if kinds = {} \<or> \<not> kinds \<subseteq> set RETRIEVAL_OPERATIONS then UNSUPPORTED
      else RETRIEVAL)"

fun matches_normalized :: "db_value \<Rightarrow> normalized_type \<Rightarrow> bool" where
  "matches_normalized v NT_STRING = (case v of DB_STR _ \<Rightarrow> True | _ \<Rightarrow> False)"
| "matches_normalized v NT_INTEGER = (case v of DB_INT _ \<Rightarrow> True | _ \<Rightarrow> False)"
| "matches_normalized v NT_DECIMAL = (case v of DB_INT _ \<Rightarrow> True | DB_DECIMAL _ \<Rightarrow> True | _ \<Rightarrow> False)"
| "matches_normalized v NT_BOOLEAN = (case v of DB_BOOL _ \<Rightarrow> True | _ \<Rightarrow> False)"
| "matches_normalized v NT_DATE = (case v of DB_DATE _ \<Rightarrow> True | _ \<Rightarrow> False)"
| "matches_normalized v NT_DATETIME = (case v of DB_DATETIME _ \<Rightarrow> True | _ \<Rightarrow> False)"
| "matches_normalized v NT_BINARY = (case v of DB_BYTES _ \<Rightarrow> True | _ \<Rightarrow> False)"

type_synonym parameters = "(string, db_value) dict"

fun bind_supplied :: "(string, parameter_spec) dict \<Rightarrow> parameters \<Rightarrow> parameters res" where
  "bind_supplied schema [] = Inr []"
| "bind_supplied schema ((name, v) # rest) =
     (case dget schema name of
        None \<Rightarrow> Inl (KeyError name)
      | Some spec \<Rightarrow>
          if v = DB_NONE \<and> \<not> ps_nullable spec then Inl (ValueError (''parameter '' @ name @ '' must not be null''))
          else if v \<noteq> DB_NONE \<and> \<not> matches_normalized v (ps_value_type spec)
          then Inl (ValueError (''parameter '' @ name @ '' must be '' @ normalized_type_value (ps_value_type spec)))
          else bindR (bind_supplied schema rest) (\<lambda>bound. Inr ((name, v) # bound)))"

definition bind_parameters :: "query_plan \<Rightarrow> parameters \<Rightarrow> parameters res" where
  "bind_parameters p supplied =
     (let schema = map (\<lambda>s. (ps_name s, s)) (parameter_schema p);
          unknown = set (dkeys supplied) - set (dkeys schema);
          missing = set (map ps_name (filter ps_required (parameter_schema p))) - set (dkeys supplied) in
      if unknown \<noteq> {} then Inl (ValueError (''unknown parameters: '' @ join '', '' (sorted_list_of_set unknown)))
      else if missing \<noteq> {} then Inl (ValueError (''missing parameters: '' @ join '', '' (sorted_list_of_set missing)))
      else bind_supplied schema supplied)"

section \<open>Normalization\<close>

record raw_result =
  raw_columns :: "normalized_column list"
  raw_rows :: "db_value list list"
  raw_affected_rows :: "int option"
  raw_transaction_outcome :: "string option"

record normalized_result =
  nr_columns :: "normalized_column list"
  nr_rows :: "db_value list list"
  nr_affected_rows :: "int option"
  nr_transaction_outcome :: "string option"
  nr_adapter_version :: string
  nr_protection :: protection_metadata

definition mismatch :: "normalized_column \<Rightarrow> exn" where
  "mismatch c = NormalizationError (''column '' @ nc_name c @ '' does not match '' @ normalized_type_value (nc_value_type c))"

definition normalize_decimal :: "(rat \<Rightarrow> string) \<Rightarrow> db_value \<Rightarrow> normalized_column \<Rightarrow> db_value res" where
  "normalize_decimal frepr v c =
     (case to_decimal frepr v of
        None \<Rightarrow> Inl (NormalizationError (''column '' @ nc_name c @ '' is not decimal''))
      | Some (Dec m e) \<Rightarrow> bindR (dec_normalize m e) (\<lambda>(m, e). Inr (DB_DECIMAL (Dec m e)))
      | Some _ \<Rightarrow> Inl (NormalizationError (''column '' @ nc_name c @ '' must be finite'')))"

definition normalize_value :: "(rat \<Rightarrow> string) \<Rightarrow> db_value \<Rightarrow> normalized_column \<Rightarrow> db_value res" where
  "normalize_value frepr v c =
     (if v = DB_NONE
      then if nc_nullable c then Inr DB_NONE else Inl (NormalizationError (''column '' @ nc_name c @ '' is not nullable''))
      else (case nc_value_type c of
          NT_STRING \<Rightarrow> (case v of DB_STR s \<Rightarrow> Inr v | _ \<Rightarrow> Inl (mismatch c))
        | NT_INTEGER \<Rightarrow> (case v of DB_INT i \<Rightarrow> Inr v | _ \<Rightarrow> Inl (mismatch c))
        | NT_DECIMAL \<Rightarrow> normalize_decimal frepr v c
        | NT_BOOLEAN \<Rightarrow> (case v of DB_BOOL b \<Rightarrow> Inr v | _ \<Rightarrow> Inl (mismatch c))
        | NT_DATE \<Rightarrow> (case v of DB_DATE d \<Rightarrow> Inr v | _ \<Rightarrow> Inl (mismatch c))
        | NT_DATETIME \<Rightarrow> (case v of
             DB_DATETIME t \<Rightarrow>
               if tz_aware t then Inr v
               else Inl (NormalizationError (''column '' @ nc_name c @ '' datetime must include timezone''))
           | _ \<Rightarrow> Inl (mismatch c))
        | NT_BINARY \<Rightarrow> (case v of
             DB_BYTES b \<Rightarrow> Inr v | DB_BYTEARRAY b \<Rightarrow> Inr (DB_BYTES b) | DB_MEMORY b \<Rightarrow> Inr (DB_BYTES b) | _ \<Rightarrow> Inl (mismatch c))))"

fun normalize_values :: "(rat \<Rightarrow> string) \<Rightarrow> db_value list \<Rightarrow> normalized_column list \<Rightarrow> db_value list res" where
  "normalize_values frepr (v # vs) (c # cs) =
     bindR (normalize_value frepr v c) (\<lambda>w. bindR (normalize_values frepr vs cs) (\<lambda>ws. Inr (w # ws)))"
| "normalize_values frepr _ _ = Inr []"

definition normalize_row :: "(rat \<Rightarrow> string) \<Rightarrow> normalized_column list \<Rightarrow> db_value list \<Rightarrow> db_value list res" where
  "normalize_row frepr cs row =
     (if length row \<noteq> length cs then Inl (NormalizationError ''row width does not match result columns'')
      else normalize_values frepr row cs)"

fun normalize_rows :: "(rat \<Rightarrow> string) \<Rightarrow> normalized_column list \<Rightarrow> db_value list list \<Rightarrow> db_value list list res" where
  "normalize_rows frepr cs [] = Inr []"
| "normalize_rows frepr cs (row # rows) =
     bindR (normalize_row frepr cs row) (\<lambda>r. bindR (normalize_rows frepr cs rows) (\<lambda>rs. Inr (r # rs)))"

fun order_indexes :: "normalized_column list \<Rightarrow> order_term list \<Rightarrow> (nat \<times> order_term) list res" where
  "order_indexes cs [] = Inr []"
| "order_indexes cs (t # ts) =
     (case dget (zip (map nc_name cs) [0..<length cs]) (ot_column t) of
        None \<Rightarrow> Inl (NormalizationError (''order column '' @ ot_column t @ '' is absent from result''))
      | Some i \<Rightarrow> bindR (order_indexes cs ts) (\<lambda>rest. Inr ((i, t) # rest)))"

text \<open>\<open>first < second\<close> of two values of one normalized type other than \<open>None\<close>.\<close>

definition db_less :: "db_value \<Rightarrow> db_value \<Rightarrow> bool" where
  "db_less x y = (case x of
     DB_STR a \<Rightarrow> (case y of DB_STR b \<Rightarrow> a < b | _ \<Rightarrow> False)
   | DB_INT a \<Rightarrow> (case y of DB_INT b \<Rightarrow> a < b | _ \<Rightarrow> False)
   | DB_DECIMAL (Dec a e) \<Rightarrow> (case y of DB_DECIMAL (Dec b f) \<Rightarrow> dec_rat a e < dec_rat b f | _ \<Rightarrow> False)
   | DB_BOOL a \<Rightarrow> (case y of DB_BOOL b \<Rightarrow> \<not> a \<and> b | _ \<Rightarrow> False)
   | DB_DATE a \<Rightarrow> (case y of DB_DATE b \<Rightarrow> a < b | _ \<Rightarrow> False)
   | DB_DATETIME (Aware a) \<Rightarrow> (case y of DB_DATETIME (Aware b) \<Rightarrow> a < b | _ \<Rightarrow> False)
   | DB_BYTES a \<Rightarrow> (case y of DB_BYTES b \<Rightarrow> a < b | _ \<Rightarrow> False)
   | _ \<Rightarrow> False)"

definition compare_term :: "order_term \<Rightarrow> db_value \<Rightarrow> db_value \<Rightarrow> int" where
  "compare_term t x y =
     (if x = DB_NONE \<or> y = DB_NONE
      then (let c = (if x = y then 0 else if x = DB_NONE then -1 else 1) in if ot_nulls t = NULLS_LAST then - c else c)
      else (let c = of_bool (db_less y x) - of_bool (db_less x y) in if ot_direction t = DESCENDING then - c else c))"

fun compare_rows :: "(nat \<times> order_term) list \<Rightarrow> db_value list \<Rightarrow> db_value list \<Rightarrow> int" where
  "compare_rows [] l r = 0"
| "compare_rows ((i, t) # rest) l r =
     (let c = compare_term t (l ! i) (r ! i) in if c \<noteq> 0 then c else compare_rows rest l r)"

text \<open>\<open>sorted(rows, key=cmp_to_key(compare))\<close> is stable.\<close>

fun insert_row :: "('r \<Rightarrow> 'r \<Rightarrow> int) \<Rightarrow> 'r \<Rightarrow> 'r list \<Rightarrow> 'r list" where
  "insert_row cmp x [] = [x]"
| "insert_row cmp x (y # ys) = (if cmp y x < 0 then y # insert_row cmp x ys else x # y # ys)"

definition sort_rows :: "('r \<Rightarrow> 'r \<Rightarrow> int) \<Rightarrow> 'r list \<Rightarrow> 'r list" where
  "sort_rows cmp rows = foldr (insert_row cmp) rows []"

definition normalize_result :: "(rat \<Rightarrow> string) \<Rightarrow> raw_result \<Rightarrow> query_plan \<Rightarrow> protection_metadata \<Rightarrow> string
    \<Rightarrow> normalized_result res" where
  "normalize_result frepr raw p prot ver =
     (if \<not> distinct (map nc_name (raw_columns raw)) then Inl (NormalizationError ''result column names must be unique'')
      else bindR (normalize_rows frepr (raw_columns raw) (raw_rows raw)) (\<lambda>rows.
        bindR (if deterministic_order p = [] then Inr rows
               else bindR (order_indexes (raw_columns raw) (deterministic_order p)) (\<lambda>ix. Inr (sort_rows (compare_rows ix) rows))) (\<lambda>rows.
          Inr \<lparr>nr_columns = raw_columns raw, nr_rows = rows, nr_affected_rows = raw_affected_rows raw,
            nr_transaction_outcome = raw_transaction_outcome raw, nr_adapter_version = ver, nr_protection = prot\<rparr>)))"

section \<open>The read path\<close>

record 'w dal =
  dl_plans :: plan_registry
  dl_contract :: vendor_neutral_contract
  dl_capabilities :: "string set"
  dl_adapter_version :: string
  dl_execute :: "query_plan \<Rightarrow> parameters \<Rightarrow> database_access_decision \<Rightarrow> execution_context \<Rightarrow> ('w, raw_result) meth"
  dl_cancel :: "string \<Rightarrow> ('w, unit) meth"
  dl_authorize :: "string \<Rightarrow> query_plan \<Rightarrow> execution_context \<Rightarrow> ('w, database_access_decision) meth"
  dl_audit :: "security_audit_event \<Rightarrow> ('w, unit) meth"
  dl_clock :: "('w, datetime) meth"
  dl_float :: "rat \<Rightarrow> string"

definition reject :: "failure_code \<Rightarrow> string \<Rightarrow> exn" where
  "reject code m = DataAccessRejection (TypedFailure code m)"

definition credential_id :: "execution_context \<Rightarrow> string res" where
  "credential_id ctx =
     (case (case fm_get (content (ctx_configuration ctx)) ''database'' of
              Some (VFrozen m) \<Rightarrow> fm_get m ''read_only_credential_id'' | _ \<Rightarrow> None) of
        Some (VStr s) \<Rightarrow>
          if blank s then Inl (reject READ_ONLY_CREDENTIAL_REQUIRED ''bound read-only credential is unavailable'') else Inr s
      | _ \<Rightarrow> Inl (reject READ_ONLY_CREDENTIAL_REQUIRED ''bound read-only credential is unavailable''))"

definition unavailable_text :: "string option \<Rightarrow> string" where
  "unavailable_text x = (case x of Some (c # s) \<Rightarrow> c # s | _ \<Rightarrow> ''unavailable'')"

text \<open>The rejection is raised whatever the audit sink does.\<close>

definition security_reject :: "'w dal \<Rightarrow> execution_context \<Rightarrow> query_plan \<Rightarrow> failure_code \<Rightarrow> string
    \<Rightarrow> database_access_decision option \<Rightarrow> ('w, 'a) meth" where
  "security_reject d ctx p code reason access =
     bindM (dl_clock d) (\<lambda>now w.
       (Inl (reject code reason), snd (dl_audit d \<lparr>sae_correlation_id = correlation_id ctx,
          sae_configuration_version = version (reference (ctx_configuration ctx)),
          sae_policy_version = (case access of Some a \<Rightarrow> dad_policy_version a
             | None \<Rightarrow> unavailable_text (security_policy_version (ctx_configuration ctx))),
          sae_service_identity = (case access of Some a \<Rightarrow> dad_service_identity a | None \<Rightarrow> ''unavailable''),
          sae_decision = ''rejected'', sae_reason_code = reason, sae_timestamp = now,
          sae_operation_classification = classify_operation (qp_operation p), sae_plan_reference = qp_reference p,
          sae_redacted_details = ''[REDACTED]''\<rparr> w)))"

definition required_by :: "query_plan \<Rightarrow> string set" where
  "required_by p = qp_required_capabilities p \<union> (\<lambda>k. ''operation:'' @ operation_value k) ` operation_kinds (qp_operation p)"

definition empty_text :: "string option \<Rightarrow> bool" where
  "empty_text x = (case x of None \<Rightarrow> True | Some s \<Rightarrow> s = [])"

text \<open>What follows once the parameters are bound: authorization, protection, submission.\<close>

definition submit_read :: "'w dal \<Rightarrow> query_plan \<Rightarrow> string \<Rightarrow> parameters \<Rightarrow> execution_context \<Rightarrow> ('w, normalized_result) meth" where
  "submit_read d p credential bound ctx =
     bindM (dl_authorize d credential p ctx) (\<lambda>access.
       if \<not> dad_allowed access \<or> dad_credential_id access \<noteq> credential
       then security_reject d ctx p DATABASE_ACCESS_DENIED (dad_reason_code access) (Some access)
       else if blank (dad_service_identity access)
       then security_reject d ctx p DATABASE_AUTHENTICATION_FAILED ''service_identity_missing'' (Some access)
       else if empty_text (dad_transport_encryption access) \<or> empty_text (dad_persistence_encryption access)
       then security_reject d ctx p DATABASE_PROTECTION_REQUIRED ''encryption_metadata_missing'' (Some access)
       else bindM (dl_execute d p bound access ctx) (\<lambda>raw.
         liftR (case normalize_result (dl_float d) raw p
             \<lparr>pm_policy_version = dad_policy_version access, pm_service_identity = dad_service_identity access,
               pm_transport_encryption = the (dad_transport_encryption access),
               pm_persistence_encryption = the (dad_persistence_encryption access)\<rparr> (dl_adapter_version d) of
           Inl (NormalizationError m) \<Rightarrow> Inl (reject RESULT_NORMALIZATION_FAILED m)
         | x \<Rightarrow> x)))"

definition execute_read :: "'w dal \<Rightarrow> query_plan_reference \<Rightarrow> parameters \<Rightarrow> execution_context \<Rightarrow> ('w, normalized_result) meth" where
  "execute_read d ref supplied ctx =
     (case plan_resolve ref (dl_plans d) of
        None \<Rightarrow> raiseM (reject QUERY_PLAN_UNAVAILABLE
          (''query plan '' @ qpr_plan_id ref @ ''@'' @ qpr_version ref @ '' is not allowlisted''))
      | Some p \<Rightarrow>
          if classify_operation (qp_operation p) = MUTATION
          then security_reject d ctx p MUTATION_BLOCKED ''mutation_operation'' None
          else if classify_operation (qp_operation p) \<noteq> RETRIEVAL
          then raiseM (reject UNSUPPORTED_OPERATION ''query plan contains an unsupported operation'')
          else if \<not> required_by p \<subseteq> vnc_capabilities (dl_contract d)
          then raiseM (reject UNSUPPORTED_CAPABILITY (''capabilities absent from contract: ''
            @ join '', '' (sorted_list_of_set (required_by p - vnc_capabilities (dl_contract d)))))
          else if \<not> required_by p \<subseteq> dl_capabilities d
          then raiseM (reject UNSUPPORTED_CAPABILITY (''adapter lacks capabilities: ''
            @ join '', '' (sorted_list_of_set (required_by p - dl_capabilities d))))
          else if \<not> intrinsically_ordered p \<and> deterministic_order p = []
          then raiseM (reject NONDETERMINISTIC_ORDER ''comparable results require deterministic ordering'')
          else bindM (liftR (credential_id ctx)) (\<lambda>credential.
            if ctx_path ctx \<noteq> INTERACTIVE
            then raiseM (reject READ_ONLY_CREDENTIAL_REQUIRED ''read DAL accepts interactive execution context only'')
            else (case bind_parameters p supplied of
                Inl (ValueError m) \<Rightarrow> raiseM (reject INVALID_QUERY_PARAMETERS m)
              | Inl e \<Rightarrow> raiseM e
              | Inr bound \<Rightarrow> submit_read d p credential bound ctx)))"

definition cancel_read :: "'w dal \<Rightarrow> string \<Rightarrow> ('w, unit) meth" where
  "cancel_read d token = dl_cancel d token"


section \<open>Decimals\<close>

definition canonical_decimal :: "int \<Rightarrow> int \<Rightarrow> bool" where
  "canonical_decimal m e \<longleftrightarrow> (if m = 0 then e = 0 else m mod 10 \<noteq> 0)"

lemma drop_zeros_canonical: "drop_zeros c e = (m, f) \<Longrightarrow> canonical_decimal m f"
proof (induction c e rule: drop_zeros.induct)
  case (1 c e)
  show ?case using 1(1) 1(2) [unfolded drop_zeros.simps [of c e]] by (auto simp: canonical_decimal_def split: if_splits)
qed

lemma dec_rat_shift: "dec_rat (10 * c) e = dec_rat c (e + 1)"
proof (cases "0 \<le> e")
  case True
  then show ?thesis by (simp add: dec_rat_def nat_add_distrib)
next
  case False
  define k where "k = nat (- e - 1)"
  have e: "nat (- e) = Suc k" "e = - 1 - int k" using False by (simp_all add: k_def)
  show ?thesis unfolding dec_rat_def e(2) by (cases k) (simp_all add: nat_add_distrib field_simps)
qed

lemma drop_zeros_exact: "drop_zeros c e = (m, f) \<Longrightarrow> dec_rat m f = dec_rat c e"
proof (induction c e rule: drop_zeros.induct)
  case (1 c e)
  show ?case
  proof (cases "c \<noteq> 0 \<and> c mod 10 = 0")
    case True
    then have "c = 10 * (c div 10)" by presburger
    then have "dec_rat c e = dec_rat (c div 10) (e + 1)" by (metis dec_rat_shift)
    with 1(1) 1(2) [unfolded drop_zeros.simps [of c e]] True show ?thesis by simp
  next
    case False
    with 1(2) [unfolded drop_zeros.simps [of c e]] show ?thesis by (auto simp: dec_rat_def split: if_splits)
  qed
qed

text \<open>A decimal of at most 28 digits within the range of exponents keeps its value.\<close>

lemma dec_normalize_exact:
  assumes "dec_normalize c e = Inr (m, f)" and "decimal_digits c \<le> 28" and "-1000026 \<le> e"
  shows "dec_rat m f = dec_rat c e"
proof (cases "c = 0")
  case True
  with assms(1) show ?thesis by (simp add: dec_normalize_def dec_rat_def)
next
  case False
  from assms(2,3) have "\<not> e < max (decimal_digits c + e - 28) (-1000026)" by simp
  with assms(1) False have "drop_zeros c e = (m, f)" by (auto simp: dec_normalize_def Let_def split: if_splits)
  then show ?thesis by (rule drop_zeros_exact)
qed

lemma dec_normalize_canonical: "dec_normalize c e = Inr (m, f) \<Longrightarrow> canonical_decimal m f"
  by (auto simp: dec_normalize_def Let_def canonical_decimal_def [of 0] split: if_splits dest: drop_zeros_canonical)


section \<open>Ordering\<close>

text \<open>What sorting with a comparison relies on: on the rows that are sorted, swapping the sides
  negates it, and it is transitive.\<close>

locale row_order =
  fixes cmp :: "'r \<Rightarrow> 'r \<Rightarrow> int" and rows :: "'r set"
  assumes swap: "a \<in> rows \<Longrightarrow> b \<in> rows \<Longrightarrow> cmp b a = - cmp a b"
    and trans: "a \<in> rows \<Longrightarrow> b \<in> rows \<Longrightarrow> c \<in> rows \<Longrightarrow> cmp a b \<le> 0 \<Longrightarrow> cmp b c \<le> 0 \<Longrightarrow> cmp a c \<le> 0"
begin

lemma mset_insert_row: "mset (insert_row cmp x ys) = add_mset x (mset ys)"
  by (induction ys) auto

lemma mset_sort_rows: "mset (sort_rows cmp xs) = mset xs"
  by (induction xs) (simp_all add: sort_rows_def mset_insert_row)

lemma set_sort_rows: "set (sort_rows cmp xs) = set xs"
  by (metis mset_sort_rows set_mset_mset)

lemma set_insert_row: "set (insert_row cmp x ys) = insert x (set ys)"
  by (induction ys) auto

lemma sorted_insert_row:
  "x \<in> rows \<Longrightarrow> set ys \<subseteq> rows \<Longrightarrow> sorted_wrt (\<lambda>a b. cmp a b \<le> 0) ys \<Longrightarrow> sorted_wrt (\<lambda>a b. cmp a b \<le> 0) (insert_row cmp x ys)"
proof (induction ys)
  case (Cons y ys)
  show ?case
  proof (cases "cmp y x < 0")
    case True
    with Cons show ?thesis by (auto simp: set_insert_row)
  next
    case False
    then have "cmp x y \<le> 0" using swap [of x y] Cons.prems by simp
    with Cons.prems False show ?thesis by (auto intro: trans [of x y])
  qed
qed simp

lemma sorted_sort_rows: "set xs \<subseteq> rows \<Longrightarrow> sorted_wrt (\<lambda>a b. cmp a b \<le> 0) (sort_rows cmp xs)"
proof (induction xs)
  case (Cons x xs)
  then show ?case using sorted_insert_row [of x "sort_rows cmp xs"] set_sort_rows [of xs] by (simp add: sort_rows_def)
qed (simp add: sort_rows_def)

lemma filter_insert_row:
  "x \<in> rows \<Longrightarrow> set ys \<subseteq> rows \<Longrightarrow> z \<in> rows \<Longrightarrow>
     filter (\<lambda>r. cmp r z = 0) (insert_row cmp x ys) = (if cmp x z = 0 then x # filter (\<lambda>r. cmp r z = 0) ys else filter (\<lambda>r. cmp r z = 0) ys)"
proof (induction ys)
  case (Cons y ys)
  have "\<not> (cmp y x < 0 \<and> cmp x z = 0 \<and> cmp y z = 0)"
    using trans [of x z y] swap [of y x] swap [of y z] Cons.prems by auto
  with Cons show ?case by auto
qed simp

lemma sort_rows_stable:
  "set xs \<subseteq> rows \<Longrightarrow> z \<in> rows \<Longrightarrow> filter (\<lambda>r. cmp r z = 0) (sort_rows cmp xs) = filter (\<lambda>r. cmp r z = 0) xs"
proof (induction xs)
  case (Cons x xs)
  then show ?case using filter_insert_row [of x "sort_rows cmp xs" z] set_sort_rows [of xs] by (simp add: sort_rows_def)
qed (simp add: sort_rows_def)

end

text \<open>Values of a normalized type, and rows of the columns.\<close>

definition typed :: "normalized_type \<Rightarrow> db_value \<Rightarrow> bool" where
  "typed ty v \<longleftrightarrow> (case ty of
     NT_STRING \<Rightarrow> \<exists>s. v = DB_STR s
   | NT_INTEGER \<Rightarrow> \<exists>i. v = DB_INT i
   | NT_DECIMAL \<Rightarrow> \<exists>m e. v = DB_DECIMAL (Dec m e) \<and> canonical_decimal m e
   | NT_BOOLEAN \<Rightarrow> \<exists>b. v = DB_BOOL b
   | NT_DATE \<Rightarrow> \<exists>d. v = DB_DATE d
   | NT_DATETIME \<Rightarrow> \<exists>t. v = DB_DATETIME (Aware t)
   | NT_BINARY \<Rightarrow> \<exists>b. v = DB_BYTES b)"

definition typed_cell :: "normalized_column \<Rightarrow> db_value \<Rightarrow> bool" where
  "typed_cell c v \<longleftrightarrow> v = DB_NONE \<and> nc_nullable c \<or> typed (nc_value_type c) v"

definition typed_row :: "normalized_column list \<Rightarrow> db_value list \<Rightarrow> bool" where
  "typed_row cs row \<longleftrightarrow> list_all2 typed_cell cs row"

lemma typed_None [simp]: "\<not> typed ty DB_NONE"
  by (cases ty) (simp_all add: typed_def)

lemma db_less_swap: "typed ty x \<Longrightarrow> typed ty y \<Longrightarrow> db_less x y \<Longrightarrow> \<not> db_less y x"
  by (cases ty) (auto simp: typed_def db_less_def)

lemma db_less_trans: "typed ty x \<Longrightarrow> typed ty y \<Longrightarrow> typed ty z \<Longrightarrow> \<not> db_less y x \<Longrightarrow> \<not> db_less z y \<Longrightarrow> \<not> db_less z x"
  by (cases ty) (auto simp: typed_def db_less_def)

lemma compare_term_swap:
  assumes "typed_cell c x" and "typed_cell c y"
  shows "compare_term t y x = - compare_term t x y"
  using assms by (auto simp: compare_term_def typed_cell_def Let_def)

lemma compare_term_trans:
  assumes "typed_cell c x" and "typed_cell c y" and "typed_cell c z" and "compare_term t x y \<le> 0" and "compare_term t y z \<le> 0"
  shows "compare_term t x z \<le> 0"
proof (cases "x = DB_NONE \<or> y = DB_NONE \<or> z = DB_NONE")
  case True
  with assms(4,5) show ?thesis by (auto simp: compare_term_def Let_def split: if_splits)
next
  case False
  with assms(1-3) have typed: "typed (nc_value_type c) x" "typed (nc_value_type c) y" "typed (nc_value_type c) z"
    by (auto simp: typed_cell_def)
  note laws = db_less_trans [of "nc_value_type c"] db_less_swap [of "nc_value_type c"]
  from False assms(4,5) show ?thesis
    using laws(1) [OF typed] laws(1) [OF typed(3,2,1)] laws(2) [OF typed(1,2)] laws(2) [OF typed(2,3)] laws(2) [OF typed(1,3)]
    by (auto simp: compare_term_def Let_def of_bool_def split: if_splits)
qed

definition ordered_rows :: "(nat \<times> order_term) list \<Rightarrow> normalized_column list \<Rightarrow> db_value list set" where
  "ordered_rows ix cs = {row. typed_row cs row \<and> (\<forall>p \<in> set ix. fst p < length cs)}"

lemma typed_row_nth: "typed_row cs row \<Longrightarrow> i < length cs \<Longrightarrow> typed_cell (cs ! i) (row ! i)"
  by (simp add: typed_row_def list_all2_nthD)

lemma compare_rows_swap:
  assumes "typed_row cs l" and "typed_row cs r" and "\<forall>p \<in> set ix. fst p < length cs"
  shows "compare_rows ix r l = - compare_rows ix l r"
  using assms(3)
proof (induction ix)
  case (Cons p ix)
  obtain i t where p: "p = (i, t)" by (cases p)
  with Cons.prems have "compare_term t (r ! i) (l ! i) = - compare_term t (l ! i) (r ! i)"
    by (intro compare_term_swap [of "cs ! i"] typed_row_nth assms) simp_all
  with Cons p show ?case by (simp add: Let_def)
qed simp

lemma compare_rows_trans:
  assumes "typed_row cs l" and "typed_row cs m" and "typed_row cs r" and "\<forall>p \<in> set ix. fst p < length cs"
    and "compare_rows ix l m \<le> 0" and "compare_rows ix m r \<le> 0"
  shows "compare_rows ix l r \<le> 0"
  using assms(4-6)
proof (induction ix)
  case (Cons p ix)
  obtain i t where p: "p = (i, t)" by (cases p)
  with Cons.prems have i: "i < length cs" by simp
  note cells = typed_row_nth [OF assms(1) i] typed_row_nth [OF assms(2) i] typed_row_nth [OF assms(3) i]
  let ?c = "compare_term t"
  have le: "?c (l ! i) (m ! i) \<le> 0" "?c (m ! i) (r ! i) \<le> 0" using Cons.prems(2,3) p by (auto simp: Let_def split: if_splits)
  have lr: "?c (l ! i) (r ! i) \<le> 0" by (rule compare_term_trans [OF cells le])
  have swaps: "?c (m ! i) (l ! i) = - ?c (l ! i) (m ! i)" "?c (r ! i) (m ! i) = - ?c (m ! i) (r ! i)"
      "?c (r ! i) (l ! i) = - ?c (l ! i) (r ! i)"
    by (rule compare_term_swap [OF cells(1,2)], rule compare_term_swap [OF cells(2,3)], rule compare_term_swap [OF cells(1,3)])
  have "?c (l ! i) (m ! i) = 0 \<and> ?c (m ! i) (r ! i) = 0" if "?c (l ! i) (r ! i) = 0"
    using that le swaps compare_term_trans [OF cells(2,3,1), of t] compare_term_trans [OF cells(3,1,2), of t] by auto
  with Cons p lr show ?case by (auto simp: Let_def split: if_splits)
qed simp

interpretation result_rows: row_order "compare_rows ix" "ordered_rows ix cs" for ix cs
  by unfold_locales (auto simp: ordered_rows_def intro: compare_rows_swap compare_rows_trans)

section \<open>What normalization returns\<close>

lemma normalize_value_typed: "normalize_value frepr v c = Inr w \<Longrightarrow> typed_cell c w"
  by (auto simp: normalize_value_def normalize_decimal_def typed_cell_def typed_def bindR_Inr dec_normalize_canonical tz_aware_iff
      split: if_splits normalized_type.splits db_value.splits option.splits decimal_value.splits datetime.splits prod.splits)

lemma normalize_values_typed:
  "normalize_values frepr vs cs = Inr ws \<Longrightarrow> length vs = length cs \<Longrightarrow> list_all2 typed_cell cs ws"
  by (induction frepr vs cs arbitrary: ws rule: normalize_values.induct) (auto simp: bindR_Inr normalize_value_typed)

lemma normalize_row_typed: "normalize_row frepr cs row = Inr r \<Longrightarrow> typed_row cs r"
  by (auto simp: normalize_row_def typed_row_def normalize_values_typed split: if_splits)

lemma normalize_rows_Inr:
  "normalize_rows frepr cs rows = Inr rs \<Longrightarrow> list_all2 (\<lambda>row r. normalize_row frepr cs row = Inr r \<and> typed_row cs r) rows rs"
  by (induction rows arbitrary: rs) (auto simp: bindR_Inr normalize_row_typed)

lemma order_indexes_Inr:
  "order_indexes cs ts = Inr ix \<Longrightarrow> map snd ix = ts \<and> (\<forall>p \<in> set ix. fst p < length cs \<and> nc_name (cs ! fst p) = ot_column (snd p))"
proof (induction ts arbitrary: ix)
  case (Cons t ts)
  from Cons.prems obtain i rest where i: "dget (zip (map nc_name cs) [0..<length cs]) (ot_column t) = Some i"
      "order_indexes cs ts = Inr rest" "ix = (i, t) # rest"
    by (auto simp: bindR_Inr split: option.splits)
  from map_of_SomeD [OF i(1)] have "i < length cs \<and> nc_name (cs ! i) = ot_column t" by (auto simp: set_zip)
  with Cons.IH [OF i(2)] i(3) show ?case by simp
qed simp

lemma ordered_subset:
  assumes "list_all2 (\<lambda>row r. normalize_row frepr cs row = Inr r \<and> typed_row cs r) rows rs" and "order_indexes cs ts = Inr ix"
  shows "set rs \<subseteq> ordered_rows ix cs"
  using assms(1) order_indexes_Inr [OF assms(2)] by (auto simp: ordered_rows_def list_all2_conv_all_nth in_set_conv_nth)

section \<open>What a read may do\<close>

text \<open>All that has to hold before the adapter is asked.\<close>

definition readable :: "'w dal \<Rightarrow> query_plan_reference \<Rightarrow> parameters \<Rightarrow> execution_context \<Rightarrow> query_plan \<Rightarrow> string \<Rightarrow> bool" where
  "readable d ref supplied ctx p credential \<longleftrightarrow> dget (dl_plans d) ref = Some p
     \<and> operation_kinds (qp_operation p) \<subseteq> set RETRIEVAL_OPERATIONS
     \<and> required_by p \<subseteq> vnc_capabilities (dl_contract d) \<inter> dl_capabilities d
     \<and> (intrinsically_ordered p \<or> deterministic_order p \<noteq> [])
     \<and> credential_id ctx = Inr credential \<and> ctx_path ctx = INTERACTIVE \<and> bind_parameters p supplied = Inr supplied"

definition access_granted :: "string \<Rightarrow> database_access_decision \<Rightarrow> bool" where
  "access_granted credential a \<longleftrightarrow> dad_allowed a \<and> dad_credential_id a = credential \<and> \<not> blank (dad_service_identity a)
     \<and> \<not> empty_text (dad_transport_encryption a) \<and> \<not> empty_text (dad_persistence_encryption a)"

lemma operation_kinds_nonempty [simp]: "operation_kinds n \<noteq> {}"
  by (cases n) simp

lemma classify_retrieval: "classify_operation n = RETRIEVAL \<longleftrightarrow> operation_kinds n \<subseteq> set RETRIEVAL_OPERATIONS"
  using retrieval_not_mutation by (auto simp: classify_operation_def Let_def)

lemma bind_supplied_same: "bind_supplied schema ps = Inr bound \<Longrightarrow> bound = ps"
  by (induction ps arbitrary: bound) (auto simp: bindR_Inr split: option.splits if_splits)

lemma bind_parameters_same: "bind_parameters p supplied = Inr bound \<Longrightarrow> bound = supplied"
  by (auto simp: bind_parameters_def Let_def bind_supplied_same split: if_splits)

text \<open>Reads that are not refused before authorization go to \<open>submit_read\<close>; all others leave the
  adapter out of the computation.\<close>

lemma execute_read_cases:
  obtains (submitted) p credential where "readable d ref supplied ctx p credential"
      "execute_read d ref supplied ctx = submit_read d p credential supplied ctx"
  | (refused) "\<And>x. execute_read (d\<lparr>dl_execute := x\<rparr>) ref supplied ctx = execute_read d ref supplied ctx"
      "\<And>w r w'. execute_read d ref supplied ctx w \<noteq> (Inr r, w')"
proof (cases "\<exists>p credential. readable d ref supplied ctx p credential")
  case True
  then obtain p credential where r: "readable d ref supplied ctx p credential" by blast
  then have "execute_read d ref supplied ctx = submit_read d p credential supplied ctx"
    by (auto simp: readable_def execute_read_def plan_resolve_def classify_retrieval [symmetric] bindM_def liftR_def)
  with r show ?thesis by (rule that(1))
next
  case False
  have frame: "security_reject (d\<lparr>dl_execute := x\<rparr>) = security_reject d" for x
    by (simp add: security_reject_def fun_eq_iff bindM_def)
  have raises: "fst (security_reject d ctx p code reason access w) \<noteq> Inr r" for p code reason access w and r :: normalized_result
    by (auto simp: security_reject_def bindM_def split: sum.splits prod.splits)
  have "(\<forall>x. execute_read (d\<lparr>dl_execute := x\<rparr>) ref supplied ctx = execute_read d ref supplied ctx)
      \<and> (\<forall>w r. fst (execute_read d ref supplied ctx w) \<noteq> Inr r)"
  proof (cases "dget (dl_plans d) ref")
    case None
    then show ?thesis by (simp add: execute_read_def plan_resolve_def raiseM_def)
  next
    case (Some p)
    show ?thesis
    proof (cases "credential_id ctx")
      case (Inl e)
      with Some show ?thesis by (auto simp: execute_read_def plan_resolve_def frame raises raiseM_def bindM_def liftR_def)
    next
      case (Inr credential)
      show ?thesis
      proof (cases "bind_parameters p supplied")
        case (Inl e)
        with Some Inr show ?thesis
          by (auto simp: execute_read_def plan_resolve_def frame raises raiseM_def bindM_def liftR_def split: exn.split)
      next
        case (Inr bound)
        have "\<not> (operation_kinds (qp_operation p) \<subseteq> set RETRIEVAL_OPERATIONS
            \<and> required_by p \<subseteq> vnc_capabilities (dl_contract d) \<and> required_by p \<subseteq> dl_capabilities d
            \<and> (intrinsically_ordered p \<or> deterministic_order p \<noteq> []) \<and> ctx_path ctx = INTERACTIVE)"
          using False Some \<open>credential_id ctx = Inr credential\<close> Inr bind_parameters_same [OF Inr] by (auto simp: readable_def)
        with Some \<open>credential_id ctx = Inr credential\<close> Inr show ?thesis
          by (auto simp: execute_read_def plan_resolve_def frame raises raiseM_def bindM_def liftR_def classify_retrieval)
      qed
    qed
  qed
  then show ?thesis by (intro that(2)) (auto simp: prod_eq_iff)
qed

text \<open>The allowlist is a registry of versions.\<close>

interpretation plans: version_registry plan_register plan_resolve qp_reference "(=)"
  by unfold_locales (auto simp: plan_register_def plan_resolve_def split: option.splits if_splits)

section \<open>Properties\<close>

text \<open>C40. The read path fails closed: the adapter has a part in a read only when the plan is
  allowlisted and its whole operation tree retrieves, the contract and the adapter have all
  capabilities it requires, its order is determined, the execution is interactive and bound
  to a read-only credential, the parameters fit the schema, and the policy then allowed
  exactly this credential with an identity and encryption metadata; in every other case any
  other adapter gives the same outcome and the same world.\<close>

theorem adapter_consulted_only_when_readable:
  assumes "execute_read (d\<lparr>dl_execute := other\<rparr>) ref supplied ctx w \<noteq> execute_read d ref supplied ctx w"
  shows "\<exists>p credential access w1. readable d ref supplied ctx p credential
    \<and> dl_authorize d credential p ctx w = (Inr access, w1) \<and> access_granted credential access"
proof (rule execute_read_cases [of d ref supplied ctx])
  fix p credential
  assume r: "readable d ref supplied ctx p credential" "execute_read d ref supplied ctx = submit_read d p credential supplied ctx"
  then have "readable (d\<lparr>dl_execute := other\<rparr>) ref supplied ctx p credential" by (simp add: readable_def)
  then have "execute_read (d\<lparr>dl_execute := other\<rparr>) ref supplied ctx = submit_read (d\<lparr>dl_execute := other\<rparr>) p credential supplied ctx"
    by (auto simp: readable_def execute_read_def plan_resolve_def classify_retrieval [symmetric] bindM_def liftR_def)
  with r(2) assms have differs: "submit_read (d\<lparr>dl_execute := other\<rparr>) p credential supplied ctx w \<noteq> submit_read d p credential supplied ctx w"
    by simp
  have frame: "security_reject (d\<lparr>dl_execute := other\<rparr>) = security_reject d"
    by (simp add: security_reject_def fun_eq_iff bindM_def)
  obtain x w1 where authorize: "dl_authorize d credential p ctx w = (x, w1)" by fastforce
  with differs obtain access where "x = Inr access" by (cases x) (auto simp: submit_read_def bindM_def)
  moreover from differs authorize this have "access_granted credential access"
    by (auto simp: submit_read_def bindM_def frame access_granted_def split: if_splits)
  ultimately show ?thesis using r(1) authorize by blast
qed (use assms in simp)

text \<open>What a read returns is canonical: the rows of the result are the rows of the adapter
  after normalization, each as wide as the columns and every value of the type of its column
  or an allowed null, in the order that the plan determines; rows that the order does not
  tell apart keep the order of the adapter.\<close>

theorem read_result_canonical:
  assumes "execute_read d ref supplied ctx w = (Inr r, w')"
  shows "\<exists>p credential access w1 raw rows ix. readable d ref supplied ctx p credential \<and> access_granted credential access
    \<and> dl_execute d p supplied access ctx w1 = (Inr raw, w')
    \<and> list_all2 (\<lambda>x y. normalize_row (dl_float d) (raw_columns raw) x = Inr y) (raw_rows raw) rows
    \<and> (\<forall>row \<in> set (nr_rows r). typed_row (nr_columns r) row)
    \<and> (if deterministic_order p = [] then nr_rows r = rows
       else order_indexes (nr_columns r) (deterministic_order p) = Inr ix \<and> mset (nr_rows r) = mset rows
         \<and> sorted_wrt (\<lambda>a b. compare_rows ix a b \<le> 0) (nr_rows r)
         \<and> (\<forall>z \<in> set rows. filter (\<lambda>a. compare_rows ix a z = 0) (nr_rows r) = filter (\<lambda>a. compare_rows ix a z = 0) rows))"
proof (rule execute_read_cases [of d ref supplied ctx])
  fix p credential
  assume readable: "readable d ref supplied ctx p credential" "execute_read d ref supplied ctx = submit_read d p credential supplied ctx"
  with assms obtain access w1 raw prot where run: "access_granted credential access" "dl_execute d p supplied access ctx w1 = (Inr raw, w')"
      "normalize_result (dl_float d) raw p prot (dl_adapter_version d) = Inr r"
    by (auto simp: submit_read_def bindM_def liftR_def access_granted_def security_reject_def
        split: if_splits prod.splits sum.splits exn.splits)
  let ?cs = "raw_columns raw"
  from run(3) obtain rows where rows: "normalize_rows (dl_float d) ?cs (raw_rows raw) = Inr rows" "nr_columns r = ?cs"
      and order: "(if deterministic_order p = [] then Inr rows
        else bindR (order_indexes ?cs (deterministic_order p)) (\<lambda>ix. Inr (sort_rows (compare_rows ix) rows))) = Inr (nr_rows r)"
    by (auto simp: normalize_result_def bindR_Inr split: if_splits)
  note normal = normalize_rows_Inr [OF rows(1)]
  then have typed: "\<forall>row \<in> set rows. typed_row ?cs row" by (auto simp: list_all2_conv_all_nth in_set_conv_nth)
  have each: "list_all2 (\<lambda>x y. normalize_row (dl_float d) ?cs x = Inr y) (raw_rows raw) rows"
    by (rule list_all2_mono [OF normal]) simp
  show ?thesis
  proof (cases "deterministic_order p = []")
    case True
    with order have "nr_rows r = rows" by simp
    with True readable(1) run each typed rows(2) show ?thesis by metis
  next
    case False
    with order obtain ix where ix: "order_indexes ?cs (deterministic_order p) = Inr ix" "nr_rows r = sort_rows (compare_rows ix) rows"
      by (auto simp: bindR_Inr)
    have sub: "set rows \<subseteq> ordered_rows ix ?cs" by (rule ordered_subset [OF normal ix(1)])
    have "sorted_wrt (\<lambda>a b. compare_rows ix a b \<le> 0) (nr_rows r)" "mset (nr_rows r) = mset rows"
        "\<forall>z \<in> set rows. filter (\<lambda>a. compare_rows ix a z = 0) (nr_rows r) = filter (\<lambda>a. compare_rows ix a z = 0) rows"
      unfolding ix(2) using sub result_rows.sorted_sort_rows [OF sub] result_rows.mset_sort_rows [of ix rows]
        result_rows.sort_rows_stable [OF sub] by auto
    moreover have "\<forall>row \<in> set (nr_rows r). typed_row (nr_columns r) row"
      using typed rows(2) by (simp add: ix(2) result_rows.set_sort_rows)
    ultimately show ?thesis using False readable(1) run each rows(2) ix(1)
      by (intro exI [of _ p] exI [of _ credential] exI [of _ access] exI [of _ w1] exI [of _ raw] exI [of _ rows] exI [of _ ix]) simp
  qed
next
  assume "\<And>w r w'. execute_read d ref supplied ctx w \<noteq> (Inr r, w')"
  with assms show ?thesis by blast
qed

text \<open>Decimals of more than 28 digits lose their last digits in normalization, and one with an
  exponent beyond the context raises Overflow, which is not a normalization failure.\<close>

theorem decimal_precision_lost:
  "normalize_value frepr (DB_DECIMAL (Dec (10 ^ 28 + 1) 0)) \<lparr>nc_name = n, nc_value_type = NT_DECIMAL, nc_nullable = b\<rparr>
     = Inr (DB_DECIMAL (Dec 1 28))
   \<and> normalize_value frepr (DB_DECIMAL (Dec 1 1000000)) \<lparr>nc_name = n, nc_value_type = NT_DECIMAL, nc_nullable = b\<rparr>
     = Inl decimal_overflow"
proof
  have digits: "decimal_digits (10 ^ 28 + 1) = 29" by (simp add: decimal_digits_def digits.simps)
  have "round_half_even (10 ^ 28 + 1) 1 = 10 ^ 27" by (simp add: round_half_even_def Let_def)
  with digits have "dec_normalize (10 ^ 28 + 1) 0 = Inr (drop_zeros (10 ^ 27) 1)"
    by (simp add: dec_normalize_def Let_def decimal_digits_def digits.simps)
  also have "drop_zeros (10 ^ 27) 1 = (1, 28)" by (simp add: drop_zeros.simps)
  finally show "normalize_value frepr (DB_DECIMAL (Dec (10 ^ 28 + 1) 0)) \<lparr>nc_name = n, nc_value_type = NT_DECIMAL, nc_nullable = b\<rparr>
      = Inr (DB_DECIMAL (Dec 1 28))"
    by (simp add: normalize_value_def normalize_decimal_def)
  have "dec_normalize 1 1000000 = Inl decimal_overflow"
    by (simp add: dec_normalize_def Let_def decimal_digits_def digits.simps)
  then show "normalize_value frepr (DB_DECIMAL (Dec 1 1000000)) \<lparr>nc_name = n, nc_value_type = NT_DECIMAL, nc_nullable = b\<rparr>
      = Inl decimal_overflow"
    by (simp add: normalize_value_def normalize_decimal_def)
qed

section \<open>Witnesses\<close>

definition sample_plan :: query_plan where
  "sample_plan = \<lparr>qp_reference = \<lparr>qpr_plan_id = ''q'', qpr_version = ''1''\<rparr>, qp_operation = OperationNode OP_SELECT [] None,
     parameter_schema = [], qp_required_capabilities = {},
     deterministic_order = [\<lparr>ot_column = ''id'', ot_direction = ASCENDING, ot_nulls = NULLS_LAST\<rparr>], intrinsically_ordered = False,
     max_rows = 10, max_bytes = 10, authorized_datasets = {}\<rparr>"

definition sample_access :: database_access_decision where
  "sample_access = \<lparr>dad_allowed = True, dad_credential_id = ''reader'', dad_service_identity = ''svc'', dad_policy_version = ''1'',
     dad_reason_code = ''ok'', dad_transport_encryption = Some ''tls'', dad_persistence_encryption = Some ''aes''\<rparr>"

definition sample_raw :: raw_result where
  "sample_raw = \<lparr>raw_columns = [\<lparr>nc_name = ''id'', nc_value_type = NT_INTEGER, nc_nullable = False\<rparr>],
     raw_rows = [[DB_INT 2], [DB_INT 1]], raw_affected_rows = None, raw_transaction_outcome = None\<rparr>"

definition sample_dal :: "unit dal" where
  "sample_dal = \<lparr>dl_plans = [(\<lparr>qpr_plan_id = ''q'', qpr_version = ''1''\<rparr>, sample_plan)],
     dl_contract = \<lparr>vnc_version = ''1'', vnc_capabilities = {''operation:select''}, vnc_normalized_types = {}\<rparr>,
     dl_capabilities = {''operation:select''}, dl_adapter_version = ''1'', dl_execute = (\<lambda>p ps a ctx w. (Inr sample_raw, w)),
     dl_cancel = (\<lambda>t w. (Inr (), w)), dl_authorize = (\<lambda>c p ctx w. (Inr sample_access, w)), dl_audit = (\<lambda>e w. (Inr (), w)),
     dl_clock = (\<lambda>w. (Inr (Aware 0), w)), dl_float = (\<lambda>_. [])\<rparr>"

definition sample_reader :: execution_context where
  "sample_reader = sample_context\<lparr>ctx_path := INTERACTIVE, ctx_configuration := (ctx_configuration sample_context)\<lparr>content :=
     [(''database'', VFrozen [(''read_only_credential_id'', VStr ''reader'')])]\<rparr>\<rparr>"

lemma sample_read: "\<exists>r. execute_read sample_dal \<lparr>qpr_plan_id = ''q'', qpr_version = ''1''\<rparr> [] sample_reader () = (Inr r, ())
    \<and> nr_rows r = [[DB_INT 1], [DB_INT 2]]"
  by (simp add: execute_read_def sample_dal_def plan_resolve_def classify_operation_def sample_plan_def RETRIEVAL_OPERATIONS_def
      MUTATION_OPERATIONS_def all_operation_kinds_def required_by_def credential_id_def sample_reader_def bindM_def liftR_def
      bind_parameters_def submit_read_def sample_access_def empty_text_def normalize_result_def sample_raw_def normalize_row_def
      normalize_value_def sort_rows_def compare_term_def db_less_def)

lemma adapter_consulted_only_when_readable_witness:
  "\<exists>p credential. readable sample_dal \<lparr>qpr_plan_id = ''q'', qpr_version = ''1''\<rparr> [] sample_reader p credential"
proof -
  have "execute_read (sample_dal\<lparr>dl_execute := \<lambda>p ps a ctx w. (Inl (RuntimeError ''down''), w)\<rparr>)
      \<lparr>qpr_plan_id = ''q'', qpr_version = ''1''\<rparr> [] sample_reader () \<noteq>
      execute_read sample_dal \<lparr>qpr_plan_id = ''q'', qpr_version = ''1''\<rparr> [] sample_reader ()"
    using sample_read
    by (auto simp: execute_read_def sample_dal_def plan_resolve_def submit_read_def bindM_def liftR_def raiseM_def security_reject_def
        split: if_splits sum.splits prod.splits exn.splits)
  from adapter_consulted_only_when_readable [OF this] show ?thesis by blast
qed

lemma read_result_canonical_witness:
  "\<exists>r. nr_rows r = [[DB_INT 1], [DB_INT 2]] \<and> (\<forall>row \<in> set (nr_rows (r :: normalized_result)). typed_row (nr_columns r) row)"
proof -
  obtain r where run: "execute_read sample_dal \<lparr>qpr_plan_id = ''q'', qpr_version = ''1''\<rparr> [] sample_reader () = (Inr r, ())"
      "nr_rows r = [[DB_INT 1], [DB_INT 2]]" using sample_read by blast
  from read_result_canonical [OF run(1)] have "\<forall>row \<in> set (nr_rows r). typed_row (nr_columns r) row" by (elim exE conjE)
  with run(2) show ?thesis by blast
qed

end
