(* ===== verification/Interactive.thy ===== *)
theory Interactive
  imports Task_Output Packing Relational
begin

text \<open>
  The parts of the interactive path without concurrency: the response and its consistency
  check (\<open>interactive/models.py\<close>), the aggregator that collects what every requested
  operation came to (\<open>interactive/aggregator.py\<close>), and the row adapter and the processor of
  tasks over a read result (\<open>interactive/tasking.py\<close>).
\<close>

declare map_of_eq_Some_iff [simp del]

section \<open>Outcomes\<close>

datatype terminal_reason =
    TR_COMPLETE | TR_DEADLINE_EXCEEDED | TR_DEADLINE_INELIGIBLE | TR_BUDGET_EXHAUSTED | TR_DATABASE_FAILURE
  | TR_MODEL_FAILURE | TR_VALIDATION_FAILED | TR_SECURITY_REJECTED | TR_CANCELLED | TR_INTERNAL_FAILURE
  | TR_DEPENDENCY_FAILED

fun reason_value :: "terminal_reason \<Rightarrow> string" where
  "reason_value TR_COMPLETE = ''complete''"
| "reason_value TR_DEADLINE_EXCEEDED = ''deadline_exceeded''"
| "reason_value TR_DEADLINE_INELIGIBLE = ''deadline_ineligible''"
| "reason_value TR_BUDGET_EXHAUSTED = ''budget_exhausted''"
| "reason_value TR_DATABASE_FAILURE = ''database_failure''"
| "reason_value TR_MODEL_FAILURE = ''model_failure''"
| "reason_value TR_VALIDATION_FAILED = ''validation_failed''"
| "reason_value TR_SECURITY_REJECTED = ''security_rejected''"
| "reason_value TR_CANCELLED = ''cancelled''"
| "reason_value TR_INTERNAL_FAILURE = ''internal_failure''"
| "reason_value TR_DEPENDENCY_FAILED = ''dependency_failed''"

datatype operation_state = OS_COMPLETED | OS_OMITTED | OS_INCOMPLETE

record operation_incompleteness =
  oi_operation_id :: string
  oi_state :: operation_state
  oi_reason :: terminal_reason
  oi_details :: frozen_mapping

definition OperationIncompleteness_post :: "operation_incompleteness \<Rightarrow> operation_incompleteness res" where
  "OperationIncompleteness_post x =
     (if blank (oi_operation_id x) \<or> oi_state x = OS_COMPLETED
      then Inl (ValueError ''incompleteness requires a non-completed operation'') else Inr x)"

record 'v operation_result =
  or_operation_id :: string
  or_value :: 'v

record execution_metrics =
  xm_end_to_end_latency_ms :: rat
  xm_database_duration_ms :: rat
  xm_model_duration_ms :: rat
  xm_token_usage :: int
  xm_cost_minor_units :: int
  xm_cancellation_duration_ms :: rat
  xm_late_completion_count :: int

record 'v interactive_response =
  rs_request_id :: string
  rs_complete :: bool
  rs_terminal_reason :: terminal_reason
  rs_results :: "'v operation_result list"
  rs_incompleteness :: "operation_incompleteness list"
  rs_deadline :: datetime
  rs_emitted_at :: datetime
  rs_configuration_version :: string
  rs_metrics :: execution_metrics

definition InteractiveResponse_post :: "'v interactive_response \<Rightarrow> 'v interactive_response res" where
  "InteractiveResponse_post r =
     (if blank (rs_request_id r) then Inl (ValueError ''response request_id must not be blank'')
      else if rs_complete r \<noteq> (rs_incompleteness r = [])
      then Inl (ValueError ''only responses without incompleteness are complete'')
      else if rs_complete r \<noteq> (rs_terminal_reason r = TR_COMPLETE)
      then Inl (ValueError ''complete responses require the complete terminal reason'')
      else if or_operation_id ` set (rs_results r) \<inter> oi_operation_id ` set (rs_incompleteness r) \<noteq> {}
      then Inl (ValueError ''an operation cannot be included and incomplete'')
      else Inr r)"

section \<open>The aggregator\<close>

fun reason_priority :: "terminal_reason \<Rightarrow> nat option" where
  "reason_priority TR_DEADLINE_EXCEEDED = Some 0"
| "reason_priority TR_BUDGET_EXHAUSTED = Some 1"
| "reason_priority TR_SECURITY_REJECTED = Some 2"
| "reason_priority TR_DATABASE_FAILURE = Some 3"
| "reason_priority TR_VALIDATION_FAILED = Some 4"
| "reason_priority TR_DEADLINE_INELIGIBLE = Some 5"
| "reason_priority TR_MODEL_FAILURE = Some 6"
| "reason_priority TR_CANCELLED = Some 7"
| "reason_priority TR_DEPENDENCY_FAILED = Some 8"
| "reason_priority TR_INTERNAL_FAILURE = Some 9"
| "reason_priority TR_COMPLETE = None"

record 'v aggregator =
  ag_operation_ids :: "string list"
  ag_results :: "(string, 'v) dict"
  ag_incomplete :: "(string, operation_incompleteness) dict"

definition aggregator_init :: "string list \<Rightarrow> 'v aggregator res" where
  "aggregator_init ids =
     (if ids = [] \<or> \<not> distinct ids then Inl (ValueError ''aggregation requires unique requested operations'')
      else Inr \<lparr>ag_operation_ids = ids, ag_results = [], ag_incomplete = []\<rparr>)"

definition require_pending :: "string \<Rightarrow> ('v aggregator, unit) meth" where
  "require_pending i g =
     (if i \<notin> set (ag_operation_ids g) then (Inl (KeyError (''unknown operation: '' @ i)), g)
      else if dget (ag_results g) i \<noteq> None \<or> dget (ag_incomplete g) i \<noteq> None
      then (Inl (ValueError (''operation already terminal: '' @ i)), g)
      else (Inr (), g))"

definition ag_complete :: "string \<Rightarrow> 'v \<Rightarrow> ('v aggregator, unit) meth" where
  "ag_complete i v = bindM (require_pending i) (\<lambda>_ g. (Inr (), g\<lparr>ag_results := dset i v (ag_results g)\<rparr>))"

definition ag_omit :: "string \<Rightarrow> terminal_reason \<Rightarrow> frozen_mapping \<Rightarrow> operation_state \<Rightarrow> ('v aggregator, unit) meth" where
  "ag_omit i reason ds st =
     bindM (require_pending i) (\<lambda>_.
     bindM (liftR (OperationIncompleteness_post \<lparr>oi_operation_id = i, oi_state = st, oi_reason = reason, oi_details = ds\<rparr>))
       (\<lambda>x g. (Inr (), g\<lparr>ag_incomplete := dset i x (ag_incomplete g)\<rparr>)))"

definition ag_pending :: "'v aggregator \<Rightarrow> string list" where
  "ag_pending g = filter (\<lambda>i. dget (ag_results g) i = None \<and> dget (ag_incomplete g) i = None) (ag_operation_ids g)"

fun omit_each :: "terminal_reason \<Rightarrow> operation_state \<Rightarrow> string list \<Rightarrow> ('v aggregator, unit) meth" where
  "omit_each reason st [] = pureM ()"
| "omit_each reason st (i # rest) = bindM (ag_omit i reason [] st) (\<lambda>_. omit_each reason st rest)"

definition finalize_pending :: "terminal_reason \<Rightarrow> ('v aggregator, unit) meth" where
  "finalize_pending reason g = omit_each reason OS_INCOMPLETE (ag_pending g) g"

definition complete_result :: "'v aggregator \<Rightarrow> bool" where
  "complete_result g \<longleftrightarrow> ag_pending g = [] \<and> ag_incomplete g = []"

definition aggregated_results :: "'v aggregator \<Rightarrow> 'v operation_result list" where
  "aggregated_results g = concat (map (\<lambda>i. case dget (ag_results g) i of
     None \<Rightarrow> [] | Some v \<Rightarrow> [\<lparr>or_operation_id = i, or_value = v\<rparr>]) (ag_operation_ids g))"

definition aggregated_incompleteness :: "'v aggregator \<Rightarrow> operation_incompleteness list" where
  "aggregated_incompleteness g = concat (map (\<lambda>i. case dget (ag_incomplete g) i of
     None \<Rightarrow> [] | Some x \<Rightarrow> [x]) (ag_operation_ids g))"

text \<open>\<open>min\<close> keeps the first of the reasons with the least priority; a reason without
  priority raises.\<close>

definition terminal_reason_of :: "'v aggregator \<Rightarrow> terminal_reason res" where
  "terminal_reason_of g =
     (let reasons = map oi_reason (dvalues (ag_incomplete g)) in
      if reasons = [] then Inr TR_COMPLETE
      else if TR_COMPLETE \<in> set reasons then Inl (KeyError ''complete'')
      else Inr (arg_min_list (\<lambda>r. the (reason_priority r)) reasons))"

section \<open>Rows of a task\<close>

fun source_value :: "db_value \<Rightarrow> pyval" where
  "source_value DB_NONE = VNone"
| "source_value (DB_STR s) = VStr s"
| "source_value (DB_INT n) = VInt n"
| "source_value (DB_DECIMAL _) = VObject ''Decimal''"
| "source_value (DB_FLOAT x) = VFloat x"
| "source_value (DB_BOOL b) = VBool b"
| "source_value (DB_DATE _) = VObject ''date''"
| "source_value (DB_DATETIME _) = VObject ''datetime''"
| "source_value (DB_BYTES b) = VBytes b"
| "source_value (DB_BYTEARRAY b) = VByteArray b"
| "source_value (DB_MEMORY _) = VObject ''memoryview''"
| "source_value (DB_OBJECT n) = VObject n"

definition row_failure :: "string \<Rightarrow> (string \<times> pyval) list \<Rightarrow> task_failure" where
  "row_failure reason kvs = failed_task TS_INVOCATION INVALID_TASK_INVOCATION [''interactive_task.row_mapping'']
     ((''reason'', VStr reason) # kvs)"

definition function_failure :: "string \<Rightarrow> task_failure" where
  "function_failure reason = failed_task TS_INVOCATION INVALID_TASK_INVOCATION [''interactive_task.function'']
     [(''reason'', VStr reason)]"

definition named :: "pyval \<Rightarrow> bool" where
  "named v \<longleftrightarrow> (case v of VStr s \<Rightarrow> \<not> blank s | _ \<Rightarrow> False)"

definition column_pairs :: "pyval option \<Rightarrow> (pyval \<times> pyval) list option" where
  "column_pairs v = (case v of
     Some (VFrozen m) \<Rightarrow> Some (map (\<lambda>(k, w). (VStr k, w)) m)
   | Some (VTuple ws) \<Rightarrow> Some (map (\<lambda>w. (w, w)) ws)
   | _ \<Rightarrow> None)"

definition selected_columns :: "pyval option \<Rightarrow> (string \<times> string) list option" where
  "selected_columns v = (case column_pairs v of
     None \<Rightarrow> None
   | Some pairs \<Rightarrow>
       if \<not> list_all (\<lambda>(f, c). named f \<and> named c) pairs then None
       else (let selected = map (\<lambda>(f, c). (str_of f, str_of c)) pairs in
             if distinct (map fst selected) then Some selected else None))"

definition column_indexes :: "string list \<Rightarrow> (string, nat) dict" where
  "column_indexes names = zip names [0..<length names]"

definition cell :: "(string, nat) dict \<Rightarrow> db_value list \<Rightarrow> string \<Rightarrow> db_value" where
  "cell indexes cells c = cells ! the (dget indexes c)"

definition row_source :: "(string, nat) dict \<Rightarrow> (string \<times> string) list \<Rightarrow> db_value list \<Rightarrow> pyval res" where
  "row_source indexes selected cells =
     freeze (VDict (map (\<lambda>(f, c). (VStr f, source_value (cell indexes cells c))) selected))"

fun adapt_rows :: "nat \<Rightarrow> (string, nat) dict \<Rightarrow> string \<Rightarrow> (string \<times> string) list \<Rightarrow> int \<Rightarrow> string set
    \<Rightarrow> db_value list list \<Rightarrow> row_input list attempt" where
  "adapt_rows width indexes idc selected n seen [] = Inr (Inr [])"
| "adapt_rows width indexes idc selected n seen (cells # rest) =
     (if length cells \<noteq> width then Inr (Inl (row_failure ''row_width_mismatch'' [(''row_index'', VInt n)]))
      else case source_value (cell indexes cells idc) of
        VStr i \<Rightarrow>
          if blank i then Inr (Inl (row_failure ''row_identifier_invalid'' [(''row_index'', VInt n)]))
          else if i \<in> seen then Inr (Inl (row_failure ''row_identifier_duplicate'' [(''row_index'', VInt n)]))
          else (case row_source indexes selected cells of
              Inl (TypeError _) \<Rightarrow> Inr (Inl (row_failure ''source_value_not_canonical'' [(''row_index'', VInt n)]))
            | Inl e \<Rightarrow> Inl e
            | Inr (VFrozen m) \<Rightarrow>
                bindR (RowInput_post \<lparr>ri_identifier = i, ri_source_fields = m\<rparr>) (\<lambda>r.
                bindR (adapt_rows width indexes idc selected (n + 1) (insert i seen) rest) (\<lambda>rs.
                  Inr (map_sum id (\<lambda>rows. r # rows) rs)))
            | Inr _ \<Rightarrow> Inl (AssertionError []))
      | _ \<Rightarrow> Inr (Inl (row_failure ''row_identifier_invalid'' [(''row_index'', VInt n)])))"

definition configured_rows :: "string \<Rightarrow> normalized_result \<Rightarrow> execution_context \<Rightarrow> row_input list attempt" where
  "configured_rows key source ctx =
     (case (case fm_get (content (ctx_configuration ctx)) ''interactive'' of Some (VFrozen m) \<Rightarrow> fm_get m key | _ \<Rightarrow> None) of
        Some (VFrozen mapping) \<Rightarrow>
          (case fm_get mapping ''identifier_column'' of
             Some (VStr idc) \<Rightarrow>
               if blank idc then Inr (Inl (row_failure ''identifier_column_invalid'' []))
               else (case selected_columns (fm_get mapping ''source_fields'') of
                   Some (s # ss) \<Rightarrow>
                     (let names = map nc_name (nr_columns source); indexes = column_indexes names;
                          missing = fromkeys (filter (\<lambda>c. dget indexes c = None) (idc # map snd (s # ss))) in
                      if \<not> distinct names then Inr (Inl (row_failure ''result_columns_duplicate'' []))
                      else if missing \<noteq> [] then Inr (Inl (row_failure ''configured_column_missing''
                        [(''missing_columns'', VTuple (map VStr missing))]))
                      else bindR (adapt_rows (length names) indexes idc (s # ss) 0 {} (nr_rows source)) (\<lambda>rs. case rs of
                          Inr [] \<Rightarrow> Inr (Inl (row_failure ''normalized_result_empty'' []))
                        | _ \<Rightarrow> Inr rs))
                 | _ \<Rightarrow> Inr (Inl (row_failure ''source_fields_invalid'' [])))
           | _ \<Rightarrow> Inr (Inl (row_failure ''identifier_column_invalid'' [])))
      | _ \<Rightarrow> Inr (Inl (row_failure ''row_mapping_missing'' [])))"

section \<open>The task processor\<close>

record ('s, 't) processor =
  pr_registry :: task_registry
  pr_preparer :: "resolved_task \<Rightarrow> ('s, task_failure + prepared_task) meth"
  pr_parser :: parser_env
  pr_validator :: "'t validator_env"
  pr_rules :: rules_registry
  pr_rows :: "normalized_result \<Rightarrow> execution_context \<Rightarrow> row_input list attempt"

definition processor_prepare :: "('s, 't) processor \<Rightarrow> interactive_task_work \<Rightarrow> normalized_result \<Rightarrow> execution_context
    \<Rightarrow> ('s, task_failure + prepared_task) meth" where
  "processor_prepare p sel source ctx =
     (case task_function_of (it_function sel) of
        None \<Rightarrow> pureM (Inl (function_failure ''unsupported_task_function''))
      | Some f \<Rightarrow> bindM (liftR (pr_rows p source ctx)) (\<lambda>rs. case rs of
            Inl x \<Rightarrow> pureM (Inl x)
          | Inr rows \<Rightarrow>
              (case TaskInvocation_post \<lparr>tv_function = f, tv_parameters = it_parameters sel, tv_rows = rows,
                     tv_requested_version = it_requested_definition_version sel\<rparr> of
                 Inl (ValueError _) \<Rightarrow> pureM (Inl (function_failure ''task_invocation_invalid''))
               | Inl (TypeError _) \<Rightarrow> pureM (Inl (function_failure ''task_invocation_invalid''))
               | Inl e \<Rightarrow> raiseM e
               | Inr v \<Rightarrow> task_prepare (pr_registry p) (pr_preparer p) v ctx)))"

definition parse_and_validate :: "('s, 't) processor \<Rightarrow> prepared_task \<Rightarrow> packed_request \<Rightarrow> pyval \<Rightarrow> execution_context
    \<Rightarrow> ('t, task_failure + validation_result) meth" where
  "parse_and_validate p t pack response ctx =
     bindM (liftR (parse_output (pr_parser p) response (pt_definition t) None)) (\<lambda>parsed. case parsed of
        Inl f \<Rightarrow> pureM (Inl f)
      | Inr records \<Rightarrow> bindM (task_validate (pr_validator p) (pr_rules p) t pack (map VFrozen records) ctx) (\<lambda>r. pureM (Inr r)))"


section \<open>What the aggregator keeps\<close>

text \<open>Every operation has at most one outcome, an incomplete one is recorded under its own
  identifier, and no incompleteness claims completion.\<close>

definition aggregator_ok :: "'v aggregator \<Rightarrow> bool" where
  "aggregator_ok g \<longleftrightarrow> distinct (ag_operation_ids g) \<and> ag_operation_ids g \<noteq> []
     \<and> (\<forall>i. dget (ag_results g) i \<noteq> None \<longrightarrow> i \<in> set (ag_operation_ids g) \<and> dget (ag_incomplete g) i = None)
     \<and> (\<forall>i x. dget (ag_incomplete g) i = Some x \<longrightarrow> i \<in> set (ag_operation_ids g) \<and> oi_operation_id x = i
          \<and> oi_state x \<noteq> OS_COMPLETED \<and> oi_reason x \<noteq> TR_COMPLETE)
     \<and> distinct (dkeys (ag_incomplete g))"

lemma aggregator_init_ok: "aggregator_init ids = Inr g \<Longrightarrow> aggregator_ok g \<and> ag_operation_ids g = ids \<and> ag_pending g = ids"
  by (auto simp: aggregator_init_def aggregator_ok_def ag_pending_def split: if_splits)

lemma aggregator_init_Inr [simp]: "ids \<noteq> [] \<Longrightarrow> distinct ids \<Longrightarrow> aggregator_init ids
    = Inr \<lparr>ag_operation_ids = ids, ag_results = [], ag_incomplete = []\<rparr>"
  by (simp add: aggregator_init_def)

lemma fresh_aggregator_ok [simp]: "ids \<noteq> [] \<Longrightarrow> distinct ids \<Longrightarrow> aggregator_ok \<lparr>ag_operation_ids = ids, ag_results = [], ag_incomplete = []\<rparr>"
  by (simp add: aggregator_ok_def)

lemma pending_iff: "i \<in> set (ag_pending g) \<longleftrightarrow> i \<in> set (ag_operation_ids g) \<and> dget (ag_results g) i = None \<and> dget (ag_incomplete g) i = None"
  by (simp add: ag_pending_def)

lemma require_pending_ok: "i \<in> set (ag_pending g) \<Longrightarrow> require_pending i g = (Inr (), g)"
  by (simp add: require_pending_def pending_iff)

lemma ag_complete_pending:
  "i \<in> set (ag_pending g) \<Longrightarrow> ag_complete i v g = (Inr (), g\<lparr>ag_results := dset i v (ag_results g)\<rparr>)"
  by (simp add: ag_complete_def bindM_def require_pending_ok)

lemma ag_omit_pending:
  "i \<in> set (ag_pending g) \<Longrightarrow> \<not> blank i \<Longrightarrow> st \<noteq> OS_COMPLETED \<Longrightarrow> ag_omit i reason ds st g
     = (Inr (), g\<lparr>ag_incomplete := dset i \<lparr>oi_operation_id = i, oi_state = st, oi_reason = reason, oi_details = ds\<rparr> (ag_incomplete g)\<rparr>)"
  by (simp add: ag_omit_def bindM_def liftR_def require_pending_ok OperationIncompleteness_post_def)

text \<open>Each of the two records an outcome for one pending operation and leaves the others.\<close>

lemma outcome_recorded:
  assumes "aggregator_ok g" and "i \<in> set (ag_pending g)"
  shows "aggregator_ok (g\<lparr>ag_results := dset i v (ag_results g)\<rparr>)"
    and "ag_pending (g\<lparr>ag_results := dset i v (ag_results g)\<rparr>) = filter (\<lambda>j. j \<noteq> i) (ag_pending g)"
    and "st \<noteq> OS_COMPLETED \<Longrightarrow> reason \<noteq> TR_COMPLETE \<Longrightarrow> aggregator_ok (g\<lparr>ag_incomplete :=
           dset i \<lparr>oi_operation_id = i, oi_state = st, oi_reason = reason, oi_details = ds\<rparr> (ag_incomplete g)\<rparr>)"
    and "ag_pending (g\<lparr>ag_incomplete := dset i x (ag_incomplete g)\<rparr>) = filter (\<lambda>j. j \<noteq> i) (ag_pending g)"
  using assms by (auto simp: aggregator_ok_def pending_iff ag_pending_def intro!: filter_cong)

lemma omit_each_ok:
  "aggregator_ok g \<Longrightarrow> set is \<subseteq> set (ag_pending g) \<Longrightarrow> distinct is \<Longrightarrow> list_all (\<lambda>i. \<not> blank i) is \<Longrightarrow>
     st \<noteq> OS_COMPLETED \<Longrightarrow> reason \<noteq> TR_COMPLETE \<Longrightarrow>
     \<exists>g'. omit_each reason st is g = (Inr (), g') \<and> aggregator_ok g' \<and> ag_operation_ids g' = ag_operation_ids g
       \<and> ag_results g' = ag_results g \<and> ag_pending g' = filter (\<lambda>i. i \<notin> set is) (ag_pending g)
       \<and> (\<forall>i. dget (ag_incomplete g') i = (if i \<in> set is then Some \<lparr>oi_operation_id = i, oi_state = st, oi_reason = reason,
             oi_details = []\<rparr> else dget (ag_incomplete g) i))"
proof (induction "is" arbitrary: g)
  case (Cons i rest)
  let ?x = "\<lparr>oi_operation_id = i, oi_state = st, oi_reason = reason, oi_details = []\<rparr>"
  let ?g = "g\<lparr>ag_incomplete := dset i ?x (ag_incomplete g)\<rparr>"
  have i: "i \<in> set (ag_pending g)" "\<not> blank i" using Cons.prems by simp_all
  note rec = outcome_recorded [OF Cons.prems(1) i(1)]
  have "set rest \<subseteq> set (ag_pending ?g)" using Cons.prems(2,3) by (auto simp: rec(4))
  with Cons.IH [of ?g] Cons.prems rec(3) [of st reason "[]"] obtain g' where run: "omit_each reason st rest ?g = (Inr (), g')"
      and g': "aggregator_ok g'" "ag_operation_ids g' = ag_operation_ids ?g" "ag_results g' = ag_results ?g"
        "ag_pending g' = filter (\<lambda>i. i \<notin> set rest) (ag_pending ?g)"
        "\<forall>j. dget (ag_incomplete g') j = (if j \<in> set rest then Some \<lparr>oi_operation_id = j, oi_state = st, oi_reason = reason,
             oi_details = []\<rparr> else dget (ag_incomplete ?g) j)" by auto
  have "omit_each reason st (i # rest) g = (Inr (), g')"
    using run by (simp add: bindM_def ag_omit_pending [OF i Cons.prems(5)])
  moreover have "ag_pending g' = filter (\<lambda>j. j \<notin> set (i # rest)) (ag_pending g)"
    by (auto simp: g'(4) rec(4) intro!: filter_cong)
  ultimately show ?case using g'(1,2,3,5) Cons.prems(3) by (intro exI [of _ g']) auto
qed (auto simp: pureM_def)

lemma finalize_pending_ok:
  assumes "aggregator_ok g" and "list_all (\<lambda>i. \<not> blank i) (ag_operation_ids g)" and "reason \<noteq> TR_COMPLETE"
  shows "\<exists>g'. finalize_pending reason g = (Inr (), g') \<and> aggregator_ok g' \<and> ag_operation_ids g' = ag_operation_ids g
       \<and> ag_results g' = ag_results g \<and> ag_pending g' = []
       \<and> (\<forall>i. dget (ag_incomplete g') i = (if i \<in> set (ag_pending g) then Some \<lparr>oi_operation_id = i, oi_state = OS_INCOMPLETE,
             oi_reason = reason, oi_details = []\<rparr> else dget (ag_incomplete g) i))"
proof -
  have "distinct (ag_pending g)" "list_all (\<lambda>i. \<not> blank i) (ag_pending g)"
    using assms(1,2) by (auto simp: aggregator_ok_def list_all_iff ag_pending_def)
  from omit_each_ok [OF assms(1) subset_refl this _ assms(3), of OS_INCOMPLETE] show ?thesis
    unfolding finalize_pending_def by simp
qed

text \<open>What the response lists: the operations with a result and the operations without, in
  the order requested.\<close>

lemma listed_results: "map or_operation_id (aggregated_results g) = filter (\<lambda>i. dget (ag_results g) i \<noteq> None) (ag_operation_ids g)"
proof -
  have "map or_operation_id (concat (map (\<lambda>i. case dget d i of None \<Rightarrow> [] | Some v \<Rightarrow> [\<lparr>or_operation_id = i, or_value = v\<rparr>]) is))
      = filter (\<lambda>i. dget d i \<noteq> None) is" for d :: "(string, 'a) dict" and "is"
    by (induction "is") (auto split: option.splits)
  then show ?thesis by (simp add: aggregated_results_def)
qed

lemma listed_incompleteness:
  assumes "aggregator_ok g"
  shows "map oi_operation_id (aggregated_incompleteness g) = filter (\<lambda>i. dget (ag_incomplete g) i \<noteq> None) (ag_operation_ids g)"
proof -
  have "(\<forall>i x. dget d i = Some x \<longrightarrow> oi_operation_id x = i) \<Longrightarrow>
      map oi_operation_id (concat (map (\<lambda>i. case dget d i of None \<Rightarrow> [] | Some x \<Rightarrow> [x]) is)) = filter (\<lambda>i. dget d i \<noteq> None) is"
    for d :: "(string, operation_incompleteness) dict" and "is"
    by (induction "is") (auto split: option.splits)
  moreover have "\<forall>i x. dget (ag_incomplete g) i = Some x \<longrightarrow> oi_operation_id x = i"
    using assms by (auto simp: aggregator_ok_def)
  ultimately show ?thesis by (simp add: aggregated_incompleteness_def)
qed

lemma set_incompleteness:
  assumes "aggregator_ok g"
  shows "set (aggregated_incompleteness g) = set (dvalues (ag_incomplete g))"
proof -
  have "x \<in> set (aggregated_incompleteness g) \<longleftrightarrow> (\<exists>i \<in> set (ag_operation_ids g). dget (ag_incomplete g) i = Some x)" for x
    by (auto simp: aggregated_incompleteness_def split: option.splits) (metis)
  moreover have "(\<exists>i \<in> set (ag_operation_ids g). dget (ag_incomplete g) i = Some x) \<longleftrightarrow> x \<in> set (dvalues (ag_incomplete g))" for x
    using assms values_dget [of "ag_incomplete g" x] dget_in_values [of "ag_incomplete g" _ x] unfolding aggregator_ok_def by blast
  ultimately show ?thesis by blast
qed

lemma partition_ids:
  assumes "aggregator_ok g" and "ag_pending g = []" and "i \<in> set (ag_operation_ids g)"
  shows "dget (ag_incomplete g) i \<noteq> None \<longleftrightarrow> dget (ag_results g) i = None"
proof -
  have "i \<notin> set (ag_pending g)" using assms(2) by simp
  then show ?thesis using assms(1,3) by (auto simp: pending_iff aggregator_ok_def)
qed

lemma arg_min_list_least:
  "xs \<noteq> [] \<Longrightarrow> arg_min_list f xs \<in> set xs \<and> (\<forall>y \<in> set xs. f (arg_min_list f xs) \<le> (f y :: nat))"
  by (induction f xs rule: arg_min_list.induct) (auto simp: Let_def)

definition least_reason :: "terminal_reason \<Rightarrow> terminal_reason list \<Rightarrow> bool" where
  "least_reason r rs \<longleftrightarrow> (if rs = [] then r = TR_COMPLETE
     else r \<in> set rs \<and> r \<noteq> TR_COMPLETE \<and> (\<forall>q \<in> set rs. the (reason_priority r) \<le> the (reason_priority q)))"

lemma terminal_reason_least:
  assumes "aggregator_ok g"
  shows "\<exists>r. terminal_reason_of g = Inr r \<and> least_reason r (map oi_reason (aggregated_incompleteness g))"
proof -
  let ?rs = "map oi_reason (dvalues (ag_incomplete g))"
  have same: "set (map oi_reason (aggregated_incompleteness g)) = set ?rs"
    by (simp only: set_map set_incompleteness [OF assms])
  then have empty: "aggregated_incompleteness g = [] \<longleftrightarrow> ?rs = []" by (metis list.map_disc_iff set_empty)
  have none: "TR_COMPLETE \<notin> set ?rs"
    using assms values_dget [of "ag_incomplete g"] by (fastforce simp: aggregator_ok_def)
  show ?thesis
  proof (cases "?rs = []")
    case True
    with empty show ?thesis by (simp add: terminal_reason_of_def least_reason_def)
  next
    case False
    let ?r = "arg_min_list (\<lambda>r. the (reason_priority r)) ?rs"
    from arg_min_list_least [OF False, of "\<lambda>r. the (reason_priority r)"] none
    have "?r \<in> set ?rs" "?r \<noteq> TR_COMPLETE" "\<forall>q \<in> set ?rs. the (reason_priority ?r) \<le> the (reason_priority q)" by metis+
    moreover have "terminal_reason_of g = Inr ?r" using False none by (simp add: terminal_reason_of_def Let_def)
    ultimately show ?thesis using False empty same by (simp add: least_reason_def)
  qed
qed

text \<open>A finished aggregator always gives a consistent response.\<close>

definition response_of :: "string \<Rightarrow> datetime \<Rightarrow> datetime \<Rightarrow> string \<Rightarrow> execution_metrics \<Rightarrow> 'v aggregator \<Rightarrow> 'v interactive_response res" where
  "response_of request due emitted ver metrics g =
     bindR (terminal_reason_of g) (\<lambda>reason.
       InteractiveResponse_post \<lparr>rs_request_id = request, rs_complete = complete_result g, rs_terminal_reason = reason,
         rs_results = aggregated_results g, rs_incompleteness = aggregated_incompleteness g, rs_deadline = due,
         rs_emitted_at = emitted, rs_configuration_version = ver, rs_metrics = metrics\<rparr>)"

definition partitions :: "string list \<Rightarrow> 'v interactive_response \<Rightarrow> bool" where
  "partitions ids r \<longleftrightarrow> (\<exists>P. map or_operation_id (rs_results r) = filter P ids
     \<and> map oi_operation_id (rs_incompleteness r) = filter (\<lambda>i. \<not> P i) ids)"

definition consistent_response :: "string list \<Rightarrow> 'v interactive_response \<Rightarrow> bool" where
  "consistent_response ids r \<longleftrightarrow> distinct ids \<and> partitions ids r
     \<and> (rs_complete r \<longleftrightarrow> map or_operation_id (rs_results r) = ids)
     \<and> (rs_complete r \<longleftrightarrow> rs_incompleteness r = [])
     \<and> least_reason (rs_terminal_reason r) (map oi_reason (rs_incompleteness r))
     \<and> (\<forall>x \<in> set (rs_incompleteness r). oi_state x \<noteq> OS_COMPLETED)"

lemma finished_response:
  assumes "aggregator_ok g" and "ag_pending g = []" and "\<not> blank request"
  shows "\<exists>r. response_of request due emitted ver metrics g = Inr r \<and> consistent_response (ag_operation_ids g) r
    \<and> rs_results r = aggregated_results g \<and> rs_incompleteness r = aggregated_incompleteness g
    \<and> rs_request_id r = request \<and> rs_deadline r = due \<and> rs_emitted_at r = emitted
    \<and> rs_configuration_version r = ver \<and> rs_metrics r = metrics"
proof -
  obtain reason where reason: "terminal_reason_of g = Inr reason" "least_reason reason (map oi_reason (aggregated_incompleteness g))"
    using terminal_reason_least [OF assms(1)] by blast
  let ?ids = "ag_operation_ids g" and ?P = "\<lambda>i. dget (ag_results g) i \<noteq> None"
  have results: "map or_operation_id (aggregated_results g) = filter ?P ?ids" by (rule listed_results)
  have missing: "map oi_operation_id (aggregated_incompleteness g) = filter (\<lambda>i. \<not> ?P i) ?ids"
    using partition_ids [OF assms(1,2)] by (auto simp: listed_incompleteness [OF assms(1)] intro!: filter_cong)
  have "aggregated_incompleteness g = [] \<longleftrightarrow> dvalues (ag_incomplete g) = []"
    by (metis set_empty set_incompleteness [OF assms(1)])
  then have complete: "complete_result g \<longleftrightarrow> aggregated_incompleteness g = []"
    by (simp add: complete_result_def assms(2))
  have all: "aggregated_incompleteness g = [] \<longleftrightarrow> map or_operation_id (aggregated_results g) = ?ids"
    using missing results by (metis (no_types, lifting) filter_True filter_empty_conv filter_id_conv list.map_disc_iff)
  have disjoint: "or_operation_id ` set (aggregated_results g) \<inter> oi_operation_id ` set (aggregated_incompleteness g) = {}"
    unfolding set_map [symmetric] results missing by auto
  have states: "\<forall>x \<in> set (aggregated_incompleteness g). oi_state x \<noteq> OS_COMPLETED"
    using assms(1) values_dget [of "ag_incomplete g"] unfolding set_incompleteness [OF assms(1)] aggregator_ok_def by blast
  have post: "(aggregated_incompleteness g = []) = (reason = TR_COMPLETE)"
    using reason(2) by (auto simp: least_reason_def split: if_splits)
  have "partitions ?ids r" if "rs_results r = aggregated_results g" "rs_incompleteness r = aggregated_incompleteness g"
    for r :: "'a interactive_response" unfolding partitions_def that using results missing by blast
  moreover have "distinct ?ids" using assms(1) by (simp add: aggregator_ok_def)
  ultimately show ?thesis
    by (simp add: response_of_def reason(1) InteractiveResponse_post_def assms(3) complete post [symmetric] disjoint
        consistent_response_def all [symmetric] reason(2) states)
qed

section \<open>What the row mapping keeps\<close>

definition canonical_cell :: "db_value \<Rightarrow> bool" where
  "canonical_cell v \<longleftrightarrow> (case source_value v of VObject _ \<Rightarrow> False | VBytes _ \<Rightarrow> False | VByteArray _ \<Rightarrow> False | _ \<Rightarrow> True)"

lemma freeze_source: "freeze (source_value v) = (if canonical_cell v then Inr (source_value v)
    else Inl (TypeError (''unsupported immutable value: '' @ class_name (source_value v))))"
  by (cases v) (simp_all add: canonical_cell_def)

lemma freeze_cells: "freeze_items (map (\<lambda>(f, c). (VStr f, source_value (g c))) sel) =
    (if \<forall>(f, c) \<in> set sel. canonical_cell (g c) then Inr (map (\<lambda>(f, c). (f, source_value (g c))) sel)
     else Inl (TypeError (''unsupported immutable value: ''
       @ class_name (source_value (g (snd (hd (filter (\<lambda>(f, c). \<not> canonical_cell (g c)) sel))))))))"
  by (induction sel) (auto simp: freeze_source bindR_def split: if_splits)

definition row_fields :: "string list \<Rightarrow> (string \<times> string) list \<Rightarrow> db_value list \<Rightarrow> frozen_mapping" where
  "row_fields names selected cells =
     sort_key fst (map (\<lambda>(f, c). (f, source_value (the (map_of (zip names cells) c)))) selected)"

definition canonical_row :: "string list \<Rightarrow> (string \<times> string) list \<Rightarrow> db_value list \<Rightarrow> bool" where
  "canonical_row names selected cells \<longleftrightarrow> (\<forall>(f, c) \<in> set selected. canonical_cell (the (map_of (zip names cells) c)))"

text \<open>One row: as wide as the columns, with a text that is not blank in the identifier
  column and values that can be frozen in the selected ones.\<close>

definition adapted_row :: "string list \<Rightarrow> string \<Rightarrow> (string \<times> string) list \<Rightarrow> db_value list \<Rightarrow> row_input \<Rightarrow> bool" where
  "adapted_row names idc selected cells r \<longleftrightarrow> length cells = length names
     \<and> map_of (zip names cells) idc = Some (DB_STR (ri_identifier r)) \<and> \<not> blank (ri_identifier r)
     \<and> canonical_row names selected cells \<and> ri_source_fields r = row_fields names selected cells"

lemma indexes_nth: "distinct names \<Longrightarrow> length cells = length names \<Longrightarrow> c \<in> set names \<Longrightarrow>
    \<exists>v. map_of (zip names cells) c = Some v \<and> cell (column_indexes names) cells c = v"
proof -
  assume d: "distinct names" "length cells = length names" "c \<in> set names"
  then obtain i where i: "i < length names" "names ! i = c" by (auto simp: in_set_conv_nth)
  from d i have "map_of (zip names cells) (names ! i) = Some (cells ! i)" by (intro map_of_zip_nth) simp_all
  moreover from d i have "map_of (zip names [0..<length names]) (names ! i) = Some ([0..<length names] ! i)"
    by (intro map_of_zip_nth) simp_all
  ultimately show ?thesis using i by (simp add: cell_def column_indexes_def)
qed

lemma index_known: "dget (column_indexes names) c = None \<longleftrightarrow> c \<notin> set names"
  by (simp add: column_indexes_def map_of_zip_is_None)

lemma source_is_text: "source_value v = VStr i \<longleftrightarrow> v = DB_STR i"
  by (cases v) auto

definition mapped_columns :: "string list \<Rightarrow> string \<Rightarrow> (string \<times> string) list \<Rightarrow> bool" where
  "mapped_columns names idc selected \<longleftrightarrow> distinct names \<and> idc \<in> set names \<and> snd ` set selected \<subseteq> set names"

lemma cell_lookup: "mapped_columns names idc selected \<Longrightarrow> length cells = length names \<Longrightarrow> (f, c) \<in> set selected \<Longrightarrow>
    cell (column_indexes names) cells c = the (map_of (zip names cells) c)"
  using indexes_nth [of names cells c] by (force simp: mapped_columns_def)

lemma row_source_eq:
  assumes "mapped_columns names idc selected" and "length cells = length names"
  shows "canonical_row names selected cells \<Longrightarrow> row_source (column_indexes names) selected cells
      = Inr (VFrozen (row_fields names selected cells))"
    and "\<not> canonical_row names selected cells \<Longrightarrow> \<exists>m. row_source (column_indexes names) selected cells = Inl (TypeError m)"
proof -
  let ?g = "cell (column_indexes names) cells"
  have c: "(\<forall>(f, c) \<in> set selected. canonical_cell (?g c)) \<longleftrightarrow> canonical_row names selected cells"
    unfolding canonical_row_def using cell_lookup [OF assms] by (intro ball_cong refl) auto
  have m: "map (\<lambda>(f, c). (f, source_value (?g c))) selected
      = map (\<lambda>(f, c). (f, source_value (the (map_of (zip names cells) c)))) selected"
    using cell_lookup [OF assms] by (intro map_cong refl) auto
  have keys: "list_all (\<lambda>p. is_str (fst p)) (map (\<lambda>(f, c). (VStr f, source_value (?g c))) selected)"
    by (auto simp: list_all_iff)
  note eq = row_source_def freeze.simps(2) keys not_True_eq_False if_False freeze_cells c m
  show "canonical_row names selected cells \<Longrightarrow> row_source (column_indexes names) selected cells
      = Inr (VFrozen (row_fields names selected cells))"
    by (simp add: eq bindR_def row_fields_def)
  show "\<not> canonical_row names selected cells \<Longrightarrow> \<exists>m. row_source (column_indexes names) selected cells = Inl (TypeError m)"
    by (simp add: eq bindR_def)
qed

lemma adapt_rows_spec:
  assumes "mapped_columns names idc selected"
  shows "\<exists>out. adapt_rows (length names) (column_indexes names) idc selected n seen cs = Inr out
    \<and> (\<forall>rows. out = Inr rows \<longleftrightarrow> list_all2 (adapted_row names idc selected) cs rows
          \<and> distinct (map ri_identifier rows) \<and> ri_identifier ` set rows \<inter> seen = {})"
proof (induction cs arbitrary: n seen)
  case (Cons cells cs)
  let ?P = "list_all2 (adapted_row names idc selected)"
  have refused: "\<not> adapted_row names idc selected cells r" if "length cells = length names"
      "\<And>i. cell (column_indexes names) cells idc = DB_STR i \<Longrightarrow> blank i \<or> \<not> canonical_row names selected cells" for r
    using indexes_nth [of names cells idc] that assms by (auto simp: adapted_row_def mapped_columns_def)
  have out: ?case if "\<exists>f. adapt_rows (length names) (column_indexes names) idc selected n seen (cells # cs) = Inr (Inl f)"
      "\<And>r rows. adapted_row names idc selected cells r \<Longrightarrow> ri_identifier r \<in> seen"
    using that by (auto simp: list_all2_Cons1)
  show ?case
  proof (cases "length cells = length names")
    case False
    then show ?thesis by (intro out) (auto simp: adapted_row_def)
  next
    case width: True
    show ?thesis
    proof (cases "\<exists>i. cell (column_indexes names) cells idc = DB_STR i \<and> \<not> blank i")
      case False
      then show ?thesis using refused [OF width] width
        by (intro out) (auto split: pyval.splits simp: source_is_text)
    next
      case True
      then obtain i where i: "cell (column_indexes names) cells idc = DB_STR i" "\<not> blank i" by blast
      then have lookup: "map_of (zip names cells) idc = Some (DB_STR i)"
        using indexes_nth [of names cells idc] width assms by (auto simp: mapped_columns_def)
      show ?thesis
      proof (cases "i \<in> seen \<or> \<not> canonical_row names selected cells")
        case True
        then show ?thesis using width i lookup row_source_eq(2) [OF assms width]
          by (intro out) (auto simp: adapted_row_def)
      next
        case False
        let ?r = "\<lparr>ri_identifier = i, ri_source_fields = row_fields names selected cells\<rparr>"
        obtain o1 where tail: "adapt_rows (length names) (column_indexes names) idc selected (n + 1) (insert i seen) cs = Inr o1"
            "\<forall>rows. o1 = Inr rows \<longleftrightarrow> ?P cs rows \<and> distinct (map ri_identifier rows) \<and> ri_identifier ` set rows \<inter> insert i seen = {}"
          using Cons.IH [of "n + 1" "insert i seen"] by blast
        have run: "adapt_rows (length names) (column_indexes names) idc selected n seen (cells # cs)
            = Inr (map_sum id (\<lambda>rows. ?r # rows) o1)"
          using False width i row_source_eq(1) [OF assms width] tail(1) by (simp add: RowInput_post_def bindR_def)
        have r: "adapted_row names idc selected cells r \<longleftrightarrow> r = ?r" for r
          using False width i lookup by (auto simp: adapted_row_def)
        have shape: "map_sum id (\<lambda>rows. ?r # rows) o1 = Inr rows \<longleftrightarrow> (\<exists>rest. rows = ?r # rest \<and> o1 = Inr rest)" for rows
          by (cases o1) auto
        have "map_sum id (\<lambda>rows. ?r # rows) o1 = Inr rows \<longleftrightarrow> ?P (cells # cs) rows
            \<and> distinct (map ri_identifier rows) \<and> ri_identifier ` set rows \<inter> seen = {}" for rows
          unfolding shape tail(2) [rule_format] list_all2_Cons1 r using False by (auto simp: disjoint_iff)
        then show ?thesis unfolding run by blast
      qed
    qed
  qed
qed auto

section \<open>Properties\<close>

text \<open>The configured mapping: the identifier column and the selected fields with their columns.\<close>

definition row_mapping :: "string \<Rightarrow> execution_context \<Rightarrow> string \<Rightarrow> (string \<times> string) list \<Rightarrow> bool" where
  "row_mapping key ctx idc selected \<longleftrightarrow> (\<exists>interactive mapping.
     fm_get (content (ctx_configuration ctx)) ''interactive'' = Some (VFrozen interactive)
     \<and> fm_get interactive key = Some (VFrozen mapping) \<and> fm_get mapping ''identifier_column'' = Some (VStr idc) \<and> \<not> blank idc
     \<and> selected_columns (fm_get mapping ''source_fields'') = Some selected \<and> selected \<noteq> [])"

text \<open>The row adapter answers every read result, with rows exactly when the mapping is
  configured, the columns are unique and contain the mapped ones, and there are rows, each of
  the width of the columns with a nonblank identifier of its own and values that can be frozen;
  the rows then carry those identifiers and the selected values, in the order of the result.\<close>

theorem rows_mapped_exactly:
  "\<exists>out. configured_rows key source ctx = Inr out \<and> (\<forall>rows. out = Inr rows \<longleftrightarrow>
     (\<exists>idc selected. row_mapping key ctx idc selected \<and> mapped_columns (map nc_name (nr_columns source)) idc selected
        \<and> rows \<noteq> [] \<and> list_all2 (adapted_row (map nc_name (nr_columns source)) idc selected) (nr_rows source) rows
        \<and> distinct (map ri_identifier rows)))"
proof (cases "\<exists>idc selected. row_mapping key ctx idc selected")
  case False
  then have "\<exists>f. configured_rows key source ctx = Inr (Inl f)"
    by (auto simp: configured_rows_def row_mapping_def split: option.splits pyval.splits list.splits)
  with False show ?thesis by auto
next
  case True
  let ?names = "map nc_name (nr_columns source)"
  from True obtain idc s ss where m: "row_mapping key ctx idc (s # ss)" by (metis neq_Nil_conv row_mapping_def)
  then have only: "row_mapping key ctx i sel \<longleftrightarrow> i = idc \<and> sel = s # ss" for i sel by (auto simp: row_mapping_def)
  let ?missing = "fromkeys (filter (\<lambda>c. dget (column_indexes ?names) c = None) (idc # map snd (s # ss)))"
  have run: "configured_rows key source ctx =
      (if \<not> distinct ?names then Inr (Inl (row_failure ''result_columns_duplicate'' []))
       else if ?missing \<noteq> [] then Inr (Inl (row_failure ''configured_column_missing'' [(''missing_columns'', VTuple (map VStr ?missing))]))
       else bindR (adapt_rows (length ?names) (column_indexes ?names) idc (s # ss) 0 {} (nr_rows source)) (\<lambda>rs. case rs of
              Inr [] \<Rightarrow> Inr (Inl (row_failure ''normalized_result_empty'' [])) | _ \<Rightarrow> Inr rs))"
    using m unfolding row_mapping_def configured_rows_def Let_def by auto
  have "?missing = [] \<longleftrightarrow> idc \<in> set ?names \<and> snd ` set (s # ss) \<subseteq> set ?names"
    by (auto simp: filter_empty_conv index_known image_subset_iff)
  then have columns: "mapped_columns ?names idc (s # ss) \<longleftrightarrow> distinct ?names \<and> ?missing = []"
    unfolding mapped_columns_def by blast
  show ?thesis
  proof (cases "mapped_columns ?names idc (s # ss)")
    case False
    then have "\<exists>f. configured_rows key source ctx = Inr (Inl f)" unfolding run columns by auto
    with False show ?thesis by (auto simp: only)
  next
    case True
    from adapt_rows_spec [OF this, of 0 "{}" "nr_rows source"] obtain out where
      out: "adapt_rows (length ?names) (column_indexes ?names) idc (s # ss) 0 {} (nr_rows source) = Inr out"
        "\<And>rows. out = Inr rows \<longleftrightarrow> list_all2 (adapted_row ?names idc (s # ss)) (nr_rows source) rows \<and> distinct (map ri_identifier rows)"
      by auto
    from True columns have "configured_rows key source ctx = (case out of
        Inr [] \<Rightarrow> Inr (Inl (row_failure ''normalized_result_empty'' [])) | _ \<Rightarrow> Inr out)"
      unfolding run by (simp only: out(1) bindR_def sum.case simp_thms if_False)
    then have "\<exists>o2. configured_rows key source ctx = Inr o2 \<and> (\<forall>rows. o2 = Inr rows \<longleftrightarrow> rows \<noteq> [] \<and> out = Inr rows)"
      by (auto split: sum.splits list.splits)
    with out(2) True show ?thesis by (auto simp: only)
  qed
qed

end
