(* ===== verification/Interactive_Run.thy ===== *)
theory Interactive_Run
  imports Interactive Router Budget
begin

text \<open>
  \<open>interactive/coordinator.py\<close>: one bounded run over the ports of \<open>interactive/ports.py\<close>, which
  are a record of operations on one world. Every model operation is an \<open>asyncio\<close> task. Its
  body runs from its start to the invocation of the model without interruption, and from the
  completion of the invocation to its end; these are the two steps a schedule interleaves. A
  schedule also says whether the read finished in time and in which order the finished tasks
  are collected (the iteration order of a Python set). What the tasks that were still pending
  do after the response, when they are cancelled, is a second list of steps.
\<close>

declare map_of_eq_Some_iff [simp del]

section \<open>Ports and state\<close>

record model_plan =
  mp_operation :: model_operation
  mp_candidate :: model_candidate
  mp_lease :: capacity_lease
  mp_estimate :: usage

record model_invocation_result =
  mi_output :: pyval
  mi_actual_usage :: usage

record 'w task_pipeline =
  tp_prepare :: "interactive_task_work \<Rightarrow> normalized_result \<Rightarrow> execution_context \<Rightarrow> ('w, task_failure + prepared_task) meth"
  tp_validate :: "prepared_task \<Rightarrow> packed_request \<Rightarrow> pyval \<Rightarrow> execution_context \<Rightarrow> ('w, task_failure + validation_result) meth"

datatype operation_value = ReadResult normalized_result | AcceptedRecords "frozen_mapping list"

record 'w interactive_ports =
  ip_read :: "query_plan_reference \<Rightarrow> parameters \<Rightarrow> execution_context \<Rightarrow> ('w, normalized_result) meth"
  ip_plan :: "string \<Rightarrow> model_work \<Rightarrow> execution_context \<Rightarrow> int \<Rightarrow> ('w, model_plan) meth"
  ip_complete :: "model_plan \<Rightarrow> ('w, unit) meth"
  ip_reserve :: "execution_context \<Rightarrow> usage \<Rightarrow> ('w, reservation_decision) meth"
  ip_reconcile :: "string \<Rightarrow> usage \<Rightarrow> ('w, reconciliation_receipt) meth"
  ip_invoke :: "model_plan \<Rightarrow> normalized_result \<Rightarrow> execution_context \<Rightarrow> ('w, model_invocation_result) meth"
  ip_validate :: "string list \<Rightarrow> pyval list \<Rightarrow> execution_context \<Rightarrow> ('w, validation_result) meth"
  ip_tasks :: "'w task_pipeline option"
  ip_terminal :: "operation_value interactive_response \<Rightarrow> execution_context \<Rightarrow> ('w, unit) meth"
  ip_late :: "string \<Rightarrow> execution_context \<Rightarrow> ('w, unit) meth"
  ip_now :: "('w, datetime) meth"
  ip_monotonic :: "'w \<Rightarrow> rat \<times> 'w"
  ip_response_reserve_ms :: int

text \<open>\<open>InteractiveCoordinator.__init__\<close>.\<close>

definition Coordinator_init :: "'w interactive_ports \<Rightarrow> 'w interactive_ports res" where
  "Coordinator_init p = (if ip_response_reserve_ms p < 0 then Inl (ValueError ''response reserve must be non-negative'') else Inr p)"

text \<open>An error of an operation: an exception, or one of the two private classes of the module
  that carry data of their own.\<close>

datatype operation_error = Raised exn | ValidationFailed "string list" "string list" | TaskFailed task_failure

datatype operation_job = ModelJob model_work | PackJob prepared_task packed_request model_work

datatype operation_status =
    Unstarted | Waiting model_plan string rat | Finished "operation_error + frozen_mapping list" | Cancelled

record operation =
  op_id :: string
  op_job :: operation_job
  op_source :: normalized_result
  op_status :: operation_status

text \<open>\<open>_RunState\<close> with the world, the tasks and whether the read is still pending.\<close>

record 'w run =
  ru_world :: 'w
  ru_tasks :: "operation list"
  ru_query :: bool
  ru_terminal :: bool
  ru_late_completions :: int
  ru_database_ms :: rat
  ru_model_ms :: rat
  ru_tokens :: int
  ru_cost :: int

definition run_init :: "'w \<Rightarrow> 'w run" where
  "run_init w = \<lparr>ru_world = w, ru_tasks = [], ru_query = False, ru_terminal = False, ru_late_completions = 0,
     ru_database_ms = 0, ru_model_ms = 0, ru_tokens = 0, ru_cost = 0\<rparr>"

definition in_world :: "('w, 'a) meth \<Rightarrow> ('w run, 'a) meth" where
  "in_world m s = (let (x, w) = m (ru_world s) in (x, s\<lparr>ru_world := w\<rparr>))"

definition monotonic :: "'w interactive_ports \<Rightarrow> ('w run, rat) meth" where
  "monotonic p s = (let (t, w) = ip_monotonic p (ru_world s) in (Inr t, s\<lparr>ru_world := w\<rparr>))"

section \<open>Identifiers and errors\<close>

definition query_id :: "interactive_request \<Rightarrow> string" where
  "query_id r = ''query:'' @ qw_plan_id (ir_query r)"

definition model_id :: "nat \<Rightarrow> model_work \<Rightarrow> string" where
  "model_id n w = ''model:'' @ decimal (int n) @ '':'' @ task_type w"

definition task_preparation_id :: "interactive_task_work \<Rightarrow> string" where
  "task_preparation_id t = ''task:'' @ it_function t @ '':prepare''"

definition pack_id :: "packed_request \<Rightarrow> string" where
  "pack_id k = ''task:'' @ function_value (pk_function k) @ '':'' @ pk_definition_version k @ '':pack:'' @ decimal (pk_pack_index k)"

definition initial_operation_ids :: "interactive_request \<Rightarrow> string list" where
  "initial_operation_ids r = (case ir_task r of
     Some t \<Rightarrow> [query_id r, task_preparation_id t]
   | None \<Rightarrow> query_id r # map (\<lambda>(n, w). model_id n w) (enumerate 0 (ir_model_work r)))"

definition query_plan_version :: "execution_context \<Rightarrow> string" where
  "query_plan_version ctx =
     (case (case fm_get (content (ctx_configuration ctx)) ''database'' of
              Some (VFrozen m) \<Rightarrow> fm_get m ''query_plan_version'' | _ \<Rightarrow> None) of
        Some (VStr v) \<Rightarrow> if blank v then ''1'' else v
      | _ \<Rightarrow> ''1'')"

fun failure_code_value :: "failure_code \<Rightarrow> string" where
  "failure_code_value AMBIGUOUS_PATH = ''ambiguous_path''"
| "failure_code_value MISSING_PATH = ''missing_path''"
| "failure_code_value INVALID_DISCRIMINATOR = ''invalid_discriminator''"
| "failure_code_value CONFIGURATION_UNAVAILABLE = ''configuration_unavailable''"
| "failure_code_value QUERY_PLAN_UNAVAILABLE = ''query_plan_unavailable''"
| "failure_code_value UNSUPPORTED_OPERATION = ''unsupported_operation''"
| "failure_code_value MUTATION_BLOCKED = ''mutation_blocked''"
| "failure_code_value UNSUPPORTED_CAPABILITY = ''unsupported_capability''"
| "failure_code_value NONDETERMINISTIC_ORDER = ''nondeterministic_order''"
| "failure_code_value INVALID_QUERY_PARAMETERS = ''invalid_query_parameters''"
| "failure_code_value READ_ONLY_CREDENTIAL_REQUIRED = ''read_only_credential_required''"
| "failure_code_value DATABASE_AUTHENTICATION_FAILED = ''database_authentication_failed''"
| "failure_code_value DATABASE_ACCESS_DENIED = ''database_access_denied''"
| "failure_code_value DATABASE_PROTECTION_REQUIRED = ''database_protection_required''"
| "failure_code_value RESULT_NORMALIZATION_FAILED = ''result_normalization_failed''"
| "failure_code_value SECURITY_POLICY_UNAVAILABLE = ''security_policy_unavailable''"
| "failure_code_value SECURITY_POLICY_INVALID = ''security_policy_invalid''"
| "failure_code_value SECURITY_POLICY_DENIED = ''security_policy_denied''"
| "failure_code_value SECURITY_PROVIDER_DENIED = ''security_provider_denied''"
| "failure_code_value SECURITY_DATA_DENIED = ''security_data_denied''"
| "failure_code_value SECURITY_PROTECTION_REQUIRED = ''security_protection_required''"
| "failure_code_value MODEL_AUTHENTICATION_FAILED = ''model_authentication_failed''"

text \<open>The exceptions with a \<open>failure\<close> attribute.\<close>

definition failure_of :: "exn \<Rightarrow> typed_failure option" where
  "failure_of e = (case e of ConfigurationBindingError f \<Rightarrow> Some f | DataAccessRejection f \<Rightarrow> Some f
     | SecurityRejection f \<Rightarrow> Some f | _ \<Rightarrow> None)"

definition texts :: "string list \<Rightarrow> pyval" where
  "texts xs = VTuple (map VStr xs)"

definition task_failure_details :: "task_failure option \<Rightarrow> frozen_mapping" where
  "task_failure_details x = (case x of
     None \<Rightarrow> details [(''failure_code'', VStr ''task_pipeline_unavailable''), (''failure_stage'', VStr ''preparation''),
               (''failed_rule_ids'', texts [''interactive_task.pipeline''])]
   | Some f \<Rightarrow> details [(''failure_code'', VStr (code_value (xf_code f))), (''failure_stage'', VStr (stage_value (xf_stage f))),
               (''failed_rule_ids'', texts (xf_rules f)), (''failure_details'', VFrozen (xf_details f))])"

definition error_details :: "operation_error \<Rightarrow> frozen_mapping" where
  "error_details x = (case x of
     Raised (BudgetExhausted scopes) \<Rightarrow> details [(''exhausted_scopes'', texts scopes)]
   | TaskFailed f \<Rightarrow> task_failure_details (Some f)
   | ValidationFailed codes rules \<Rightarrow> details [(''reason_codes'', texts codes), (''failed_rule_ids'', texts rules)]
   | Raised e \<Rightarrow> details [(''reason_code'', VStr (case failure_of e of Some f \<Rightarrow> failure_code_value (tf_code f) | None \<Rightarrow> exn_name e))])"

definition error_reason :: "operation_error \<Rightarrow> terminal_reason" where
  "error_reason x = (case x of
     ValidationFailed _ _ \<Rightarrow> TR_VALIDATION_FAILED
   | TaskFailed _ \<Rightarrow> TR_VALIDATION_FAILED
   | Raised e \<Rightarrow> (case e of
        BudgetExhausted _ \<Rightarrow> TR_BUDGET_EXHAUSTED
      | SecurityRejection _ \<Rightarrow> TR_SECURITY_REJECTED
      | DataAccessRejection _ \<Rightarrow> TR_DATABASE_FAILURE
      | ModelPlanningError reason \<Rightarrow> if reason = ''deadline_ineligible'' then TR_DEADLINE_INELIGIBLE else TR_MODEL_FAILURE
      | _ \<Rightarrow> TR_MODEL_FAILURE))"

section \<open>One model operation\<close>

text \<open>The \<open>finally\<close> block of \<open>_model\<close> and \<open>_task_model\<close>: what it raises replaces the outcome,
  and what follows in it is skipped.\<close>

definition settle_operation :: "'w interactive_ports \<Rightarrow> model_plan option \<Rightarrow> (string \<times> usage) option \<Rightarrow> rat \<Rightarrow> ('w run, unit) meth" where
  "settle_operation p plan held started =
     bindM (case held of None \<Rightarrow> pureM () | Some (rid, u) \<Rightarrow> bindM (in_world (ip_reconcile p rid u)) (\<lambda>_. pureM ())) (\<lambda>_.
     bindM (case plan of None \<Rightarrow> pureM () | Some q \<Rightarrow> in_world (ip_complete p q)) (\<lambda>_.
     bindM (monotonic p) (\<lambda>now s. (Inr (), s\<lparr>ru_model_ms := ru_model_ms s + (now - started) * 1000\<rparr>))))"

definition finally_settled :: "'w interactive_ports \<Rightarrow> model_plan option \<Rightarrow> (string \<times> usage) option \<Rightarrow> rat
    \<Rightarrow> (operation_error + 'a) \<Rightarrow> 'w run \<Rightarrow> (operation_error + 'a) \<times> 'w run" where
  "finally_settled p plan held started out s =
     (case settle_operation p plan held started s of
        (Inl e, s') \<Rightarrow> (Inl (Raised e), s')
      | (Inr _, s') \<Rightarrow> (out, s'))"

definition job_work :: "operation_job \<Rightarrow> model_work" where
  "job_work j = (case j of ModelJob w \<Rightarrow> w | PackJob _ _ w \<Rightarrow> w)"

text \<open>Up to the invocation: the status it then has.\<close>

definition start_operation :: "'w interactive_ports \<Rightarrow> execution_context \<Rightarrow> string \<Rightarrow> operation_job \<Rightarrow> 'w run
    \<Rightarrow> operation_status \<times> 'w run" where
  "start_operation p ctx i job s =
     (let ended = (\<lambda>plan started e s. case finally_settled p plan None started (Inl (Raised e)) s of (out, s') \<Rightarrow> (Finished out, s'));
          (started, w) = ip_monotonic p (ru_world s); s0 = s\<lparr>ru_world := w\<rparr> in
      case in_world (ip_plan p i (job_work job) ctx (ip_response_reserve_ms p)) s0 of
        (Inl e, s1) \<Rightarrow> ended None started e s1
      | (Inr plan, s1) \<Rightarrow>
          (case in_world (ip_reserve p ctx (mp_estimate plan)) s1 of
             (Inl e, s2) \<Rightarrow> ended (Some plan) started e s2
           | (Inr d, s2) \<Rightarrow>
               (case rd_reservation d of
                  Some r \<Rightarrow> (Waiting plan (reservation_id r) started, s2)
                | None \<Rightarrow> ended (Some plan) started (case rd_exhaustion d of
                    Some x \<Rightarrow> BudgetExhausted (exhausted_scopes x)
                  | None \<Rightarrow> ForeignError ''AttributeError'' ''exhausted_scopes'') s2)))"

text \<open>The checks of the output, which differ between the two kinds of operation.\<close>

definition judged :: "usage \<Rightarrow> validation_result \<Rightarrow> 'w run \<Rightarrow> (operation_error + frozen_mapping list) \<times> 'w run" where
  "judged actual v s =
     (if \<not> vo_accepted (vres_outcome v)
      then (Inl (ValidationFailed (vo_reason_codes (vres_outcome v)) (vo_failed_rule_ids (vres_outcome v))), s)
      else (Inr (accepted_records v), s\<lparr>ru_tokens := ru_tokens s + total_tokens actual, ru_cost := ru_cost s + cost_minor_units actual\<rparr>))"

definition check_output :: "'w interactive_ports \<Rightarrow> execution_context \<Rightarrow> operation_job \<Rightarrow> model_invocation_result \<Rightarrow> 'w run
    \<Rightarrow> (operation_error + frozen_mapping list) \<times> 'w run" where
  "check_output p ctx job invoked s = (case job of
     ModelJob work \<Rightarrow>
       (case mi_output invoked of
          VTuple records \<Rightarrow>
            (case in_world (ip_validate p (mw_input_ids work) records ctx) s of
               (Inl e, s') \<Rightarrow> (Inl (Raised e), s')
             | (Inr v, s') \<Rightarrow> judged (mi_actual_usage invoked) v s')
        | _ \<Rightarrow> (Inl (Raised (TypeError ''legacy model output must be a tuple of records'')), s))
   | PackJob prepared pack _ \<Rightarrow>
       (case ip_tasks p of
          None \<Rightarrow> (Inl (Raised (AssertionError [])), s)
        | Some tp \<Rightarrow>
            (case in_world (tp_validate tp prepared pack (mi_output invoked) ctx) s of
               (Inl e, s') \<Rightarrow> (Inl (Raised e), s')
             | (Inr (Inl f), s') \<Rightarrow> (Inl (TaskFailed f), s')
             | (Inr (Inr v), s') \<Rightarrow> judged (mi_actual_usage invoked) v s')))"

definition finish_operation :: "'w interactive_ports \<Rightarrow> execution_context \<Rightarrow> operation_job \<Rightarrow> normalized_result
    \<Rightarrow> model_plan \<Rightarrow> string \<Rightarrow> rat \<Rightarrow> 'w run \<Rightarrow> (operation_error + frozen_mapping list) \<times> 'w run" where
  "finish_operation p ctx job source plan rid started s =
     (case in_world (ip_invoke p plan source ctx) s of
        (Inl e, s1) \<Rightarrow> finally_settled p (Some plan) (Some (rid, mp_estimate plan)) started (Inl (Raised e)) s1
      | (Inr invoked, s1) \<Rightarrow>
          (case check_output p ctx job invoked s1 of (out, s2) \<Rightarrow>
             finally_settled p (Some plan) (Some (rid, mi_actual_usage invoked)) started out s2))"

text \<open>A step of the schedule gives control to one task.\<close>

definition set_status :: "nat \<Rightarrow> operation_status \<Rightarrow> 'w run \<Rightarrow> 'w run" where
  "set_status n st s = s\<lparr>ru_tasks := (ru_tasks s)[n := (ru_tasks s ! n)\<lparr>op_status := st\<rparr>]\<rparr>"

definition resume :: "'w interactive_ports \<Rightarrow> execution_context \<Rightarrow> nat \<Rightarrow> 'w run \<Rightarrow> 'w run" where
  "resume p ctx n s =
     (if n < length (ru_tasks s) then
        (let op = ru_tasks s ! n in
         case op_status op of
           Unstarted \<Rightarrow> (case start_operation p ctx (op_id op) (op_job op) s of (st, s') \<Rightarrow> set_status n st s')
         | Waiting plan rid started \<Rightarrow>
             (case finish_operation p ctx (op_job op) (op_source op) plan rid started s of (out, s') \<Rightarrow> set_status n (Finished out) s')
         | _ \<Rightarrow> s)
      else s)"

definition run_steps :: "'w interactive_ports \<Rightarrow> execution_context \<Rightarrow> nat list \<Rightarrow> 'w run \<Rightarrow> 'w run" where
  "run_steps p ctx steps s = fold (resume p ctx) steps s"

section \<open>The run\<close>

fun dt_diff :: "datetime \<Rightarrow> datetime \<Rightarrow> timedelta res" where
  "dt_diff (Aware a) (Aware b) = Inr (a - b)"
| "dt_diff (Naive a) (Naive b) = Inr (a - b)"
| "dt_diff _ _ = Inl (TypeError ''can't subtract offset-naive and offset-aware datetimes'')"

text \<open>\<open>_remaining_seconds\<close>, in microseconds; it is compared with the reserve, a number of
  milliseconds.\<close>

definition remaining :: "'w interactive_ports \<Rightarrow> datetime \<Rightarrow> ('w run, timedelta) meth" where
  "remaining p due = bindM (in_world (ip_now p)) (\<lambda>now. liftR (bindR (dt_diff due now) (\<lambda>d. Inr (max d 0))))"

definition no_time_left :: "'w interactive_ports \<Rightarrow> timedelta \<Rightarrow> bool" where
  "no_time_left p left \<longleftrightarrow> left \<le> ip_response_reserve_ms p * 1000"

definition aggregated :: "(operation_value aggregator, unit) meth \<Rightarrow> operation_value aggregator
    \<Rightarrow> ('w run, operation_value aggregator) meth" where
  "aggregated m g = liftR (case m g of (Inl e, g') \<Rightarrow> Inl e | (Inr _, g') \<Rightarrow> Inr g')"

record run_schedule =
  sc_read_in_time :: bool
  sc_steps :: "nat list"
  sc_rank :: "string \<Rightarrow> nat"

definition add_task :: "operation \<Rightarrow> 'w run \<Rightarrow> 'w run" where
  "add_task op s = s\<lparr>ru_tasks := ru_tasks s @ [op]\<rparr>"

fun launch :: "'w interactive_ports \<Rightarrow> datetime \<Rightarrow> normalized_result \<Rightarrow> (string \<times> operation_job) list
    \<Rightarrow> operation_value aggregator \<Rightarrow> ('w run, operation_value aggregator) meth" where
  "launch p due source [] g = pureM g"
| "launch p due source ((i, job) # rest) g =
     bindM (remaining p due) (\<lambda>left.
       if no_time_left p left
       then bindM (aggregated (ag_omit i TR_DEADLINE_EXCEEDED [] OS_OMITTED) g) (\<lambda>g. launch p due source rest g)
       else (\<lambda>s. launch p due source rest g (add_task \<lparr>op_id = i, op_job = job, op_source = source, op_status = Unstarted\<rparr> s)))"

definition ended :: "operation \<Rightarrow> bool" where
  "ended op \<longleftrightarrow> (case op_status op of Finished _ \<Rightarrow> True | _ \<Rightarrow> False)"

definition collect_one :: "operation \<Rightarrow> (operation_value aggregator, unit) meth" where
  "collect_one op g =
     (let failed = (\<lambda>x g. ag_omit (op_id op) (error_reason x) (error_details x) OS_OMITTED g) in
      case op_status op of
        Finished (Inr records) \<Rightarrow>
          (case ag_complete (op_id op) (AcceptedRecords records) g of
             (Inl e, g') \<Rightarrow> failed (Raised e) g'
           | (Inr _, g') \<Rightarrow> (Inr (), g'))
      | Finished (Inl x) \<Rightarrow> failed x g
      | _ \<Rightarrow> ag_omit (op_id op) TR_DEADLINE_EXCEEDED [] OS_OMITTED g)"

fun collect_all :: "operation list \<Rightarrow> operation_value aggregator \<Rightarrow> ('w run, operation_value aggregator) meth" where
  "collect_all [] g = pureM g"
| "collect_all (op # rest) g = bindM (aggregated (collect_one op) g) (collect_all rest)"

text \<open>\<open>_collect_models\<close>: the tasks run until the timeout; the finished ones are collected in
  the order of the set, then the others are omitted.\<close>

definition collect_models :: "'w interactive_ports \<Rightarrow> execution_context \<Rightarrow> datetime \<Rightarrow> run_schedule \<Rightarrow> operation_value aggregator
    \<Rightarrow> ('w run, operation_value aggregator) meth" where
  "collect_models p ctx due sch g s =
     (if ru_tasks s = [] then (Inr g, s)
      else bindM (remaining p due) (\<lambda>_ s.
        let s' = run_steps p ctx (sc_steps sch) s;
            ranked = sort_key (\<lambda>op. sc_rank sch (op_id op)) (ru_tasks s') in
        collect_all (filter ended ranked @ filter (\<lambda>op. \<not> ended op) ranked) g s') s)"

definition model_jobs :: "interactive_request \<Rightarrow> (string \<times> operation_job) list" where
  "model_jobs r = map (\<lambda>(n, w). (model_id n w, ModelJob w)) (enumerate 0 (ir_model_work r))"

definition run_models :: "'w interactive_ports \<Rightarrow> run_schedule \<Rightarrow> interactive_request \<Rightarrow> execution_context \<Rightarrow> datetime
    \<Rightarrow> normalized_result \<Rightarrow> operation_value aggregator \<Rightarrow> ('w run, operation_value aggregator) meth" where
  "run_models p sch r ctx due source g =
     bindM (launch p due source (model_jobs r) g) (collect_models p ctx due sch)"

definition pack_jobs :: "prepared_task \<Rightarrow> (string \<times> operation_job) list" where
  "pack_jobs t = map (\<lambda>(k, w). (pack_id k, PackJob t k w)) (zip (pt_packs t) (pt_model_work t))"

definition run_task_models :: "'w interactive_ports \<Rightarrow> run_schedule \<Rightarrow> prepared_task \<Rightarrow> execution_context \<Rightarrow> datetime
    \<Rightarrow> normalized_result \<Rightarrow> operation_value aggregator \<Rightarrow> ('w run, operation_value aggregator) meth" where
  "run_task_models p sch t ctx due source g =
     bindM (launch p due source (pack_jobs t) g) (\<lambda>g.
       if length (pt_packs t) \<noteq> length (pt_model_work t)
       then raiseM (ValueError ''zip() arguments have different lengths'')
       else collect_models p ctx due sch g)"

text \<open>The aggregator of a task that was not prepared.\<close>

definition unprepared :: "interactive_request \<Rightarrow> interactive_task_work \<Rightarrow> normalized_result \<Rightarrow> task_failure option
    \<Rightarrow> ('w run, operation_value aggregator) meth" where
  "unprepared r t source failure =
     bindM (liftR (aggregator_init [query_id r, task_preparation_id t])) (\<lambda>g.
     bindM (aggregated (ag_complete (query_id r) (ReadResult source)) g) (\<lambda>g.
       aggregated (ag_omit (task_preparation_id t) TR_VALIDATION_FAILED (task_failure_details failure) OS_OMITTED) g))"

definition run_task_request :: "'w interactive_ports \<Rightarrow> run_schedule \<Rightarrow> interactive_request \<Rightarrow> interactive_task_work \<Rightarrow> execution_context
    \<Rightarrow> datetime \<Rightarrow> normalized_result \<Rightarrow> ('w run, operation_value aggregator) meth" where
  "run_task_request p sch r t ctx due source =
     (case ip_tasks p of
        None \<Rightarrow> unprepared r t source None
      | Some tp \<Rightarrow> bindM (in_world (tp_prepare tp t source ctx)) (\<lambda>prepared. case prepared of
            Inl f \<Rightarrow> unprepared r t source (Some f)
          | Inr pt \<Rightarrow>
              bindM (liftR (aggregator_init (query_id r # map pack_id (pt_packs pt)))) (\<lambda>g.
              bindM (aggregated (ag_complete (query_id r) (ReadResult source)) g) (\<lambda>g.
                run_task_models p sch pt ctx due source g))))"

text \<open>A parameter of the request as a value of the relational model; a container is an object
  of its class there.\<close>

definition parameter_value :: "pyval \<Rightarrow> db_value" where
  "parameter_value v = (case v of VNone \<Rightarrow> DB_NONE | VStr x \<Rightarrow> DB_STR x | VInt n \<Rightarrow> DB_INT n | VFloat x \<Rightarrow> DB_FLOAT x
     | VBool b \<Rightarrow> DB_BOOL b | VBytes b \<Rightarrow> DB_BYTES b | VByteArray b \<Rightarrow> DB_BYTEARRAY b | _ \<Rightarrow> DB_OBJECT (class_name v))"

text \<open>\<open>_read\<close>: the duration is recorded on both paths.\<close>

definition read_source :: "'w interactive_ports \<Rightarrow> interactive_request \<Rightarrow> execution_context \<Rightarrow> ('w run, normalized_result) meth" where
  "read_source p r ctx = bindM (monotonic p) (\<lambda>started s.
     case in_world (ip_read p \<lparr>qpr_plan_id = qw_plan_id (ir_query r), qpr_version = query_plan_version ctx\<rparr> (map (\<lambda>(k, v). (k, parameter_value v)) (qw_parameters (ir_query r))) ctx) s of
       (x, s1) \<Rightarrow> (case monotonic p s1 of
          (_, s2) \<Rightarrow> (x, s2\<lparr>ru_database_ms := ru_database_ms s2 + (projr (fst (monotonic p s1)) - started) * 1000\<rparr>)))"

definition run_read :: "'w interactive_ports \<Rightarrow> run_schedule \<Rightarrow> interactive_request \<Rightarrow> execution_context \<Rightarrow> datetime
    \<Rightarrow> operation_value aggregator \<Rightarrow> ('w run, operation_value aggregator) meth" where
  "run_read p sch r ctx due g s =
     (if \<not> sc_read_in_time sch
      then aggregated (finalize_pending TR_DEADLINE_EXCEEDED) g (s\<lparr>ru_query := True\<rparr>)
      else case read_source p r ctx s of
        (Inl e, s') \<Rightarrow>
          bindM (aggregated (ag_omit (query_id r) (error_reason (Raised e)) (error_details (Raised e)) OS_OMITTED) g) (\<lambda>g.
            aggregated (\<lambda>g. omit_each TR_DEPENDENCY_FAILED OS_OMITTED (ag_pending g) g) g) s'
      | (Inr source, s') \<Rightarrow>
          (case ir_task r of
             None \<Rightarrow> bindM (aggregated (ag_complete (query_id r) (ReadResult source)) g) (run_models p sch r ctx due source) s'
           | Some t \<Rightarrow> run_task_request p sch r t ctx due source s'))"

definition unfinished :: "'w run \<Rightarrow> bool" where
  "unfinished s \<longleftrightarrow> ru_query s \<or> list_ex (\<lambda>op. \<not> ended op) (ru_tasks s)"

text \<open>When something is pending the cancellations are requested; they take effect after the
  response.\<close>

definition cancel_pending :: "'w interactive_ports \<Rightarrow> ('w run, rat) meth" where
  "cancel_pending p s = (if unfinished s
     then bindM (monotonic p) (\<lambda>t s. (Inr t, s\<lparr>ru_terminal := True\<rparr>)) s else (Inr 0, s))"

definition cancellation_ms :: "'w interactive_ports \<Rightarrow> rat \<Rightarrow> ('w run, rat) meth" where
  "cancellation_ms p started = (if started = 0 then pureM 0 else bindM (monotonic p) (\<lambda>now. pureM ((now - started) * 1000)))"

definition measured :: "timedelta \<Rightarrow> rat \<Rightarrow> 'w run \<Rightarrow> execution_metrics" where
  "measured latency cancel s = \<lparr>xm_end_to_end_latency_ms = max (of_int latency / 1000) 0, xm_database_duration_ms = ru_database_ms s,
     xm_model_duration_ms = ru_model_ms s, xm_token_usage = ru_tokens s, xm_cost_minor_units = ru_cost s,
     xm_cancellation_duration_ms = cancel, xm_late_completion_count = ru_late_completions s\<rparr>"

definition emit_response :: "'w interactive_ports \<Rightarrow> interactive_request \<Rightarrow> execution_context \<Rightarrow> datetime \<Rightarrow> datetime
    \<Rightarrow> operation_value aggregator \<Rightarrow> ('w run, operation_value interactive_response) meth" where
  "emit_response p r ctx due started g =
     bindM (cancel_pending p) (\<lambda>cancelled.
     bindM (aggregated (finalize_pending TR_DEADLINE_EXCEEDED) g) (\<lambda>g.
     bindM (in_world (ip_now p)) (\<lambda>now.
     bindM (liftR (bindR (dt_less due now) (\<lambda>b. Inr (if b then due else now)))) (\<lambda>emitted.
     bindM (cancellation_ms p cancelled) (\<lambda>cancel.
     bindM (liftR (dt_diff emitted started)) (\<lambda>latency.
     bindM (\<lambda>s. (response_of (request_id r) due emitted (version (reference (ctx_configuration ctx))) (measured latency cancel s) g, s)) (\<lambda>response s.
       (Inr response, snd (in_world (ip_terminal p response ctx) (s\<lparr>ru_terminal := True\<rparr>))))))))))"

definition execute :: "'w interactive_ports \<Rightarrow> run_schedule \<Rightarrow> interactive_request \<Rightarrow> execution_context
    \<Rightarrow> ('w run, operation_value interactive_response) meth" where
  "execute p sch r ctx =
     (case deadline (timing ctx) of
        None \<Rightarrow> raiseM (ValueError ''interactive execution requires one absolute deadline'')
      | Some due \<Rightarrow>
          bindM (liftR (aggregator_init (initial_operation_ids r))) (\<lambda>g.
          bindM (in_world (ip_now p)) (\<lambda>started.
          bindM (remaining p due) (\<lambda>left.
          bindM (if no_time_left p left then aggregated (finalize_pending TR_DEADLINE_EXCEEDED) g else run_read p sch r ctx due g) (\<lambda>g.
            emit_response p r ctx due started g)))))"

section \<open>After the response\<close>

text \<open>A pending task is cancelled. One that was not started ends at once; one that waits for
  its invocation either obeys and settles with its estimate, or its invocation completes
  anyway and it runs to its end. \<open>_observe_late\<close> counts and reports what did not end with the
  cancellation, an exception of the settlement included.\<close>

definition observe_late :: "'w interactive_ports \<Rightarrow> execution_context \<Rightarrow> string \<Rightarrow> 'w run \<Rightarrow> 'w run" where
  "observe_late p ctx i s = (let s' = s\<lparr>ru_late_completions := ru_late_completions s + 1\<rparr> in snd (in_world (ip_late p i ctx) s'))"

definition cancel_task :: "'w interactive_ports \<Rightarrow> execution_context \<Rightarrow> nat \<Rightarrow> bool \<Rightarrow> 'w run \<Rightarrow> 'w run" where
  "cancel_task p ctx n late s =
     (if n < length (ru_tasks s) then
        (let op = ru_tasks s ! n in
         case op_status op of
           Unstarted \<Rightarrow> set_status n Cancelled s
         | Waiting plan rid started \<Rightarrow>
             (if late then (case finish_operation p ctx (op_job op) (op_source op) plan rid started s of
                (out, s') \<Rightarrow> observe_late p ctx (op_id op) (set_status n (Finished out) s'))
              else (case settle_operation p (Some plan) (Some (rid, mp_estimate plan)) started s of
                (Inl e, s') \<Rightarrow> observe_late p ctx (op_id op) (set_status n (Finished (Inl (Raised e))) s')
              | (Inr _, s') \<Rightarrow> set_status n Cancelled s'))
         | _ \<Rightarrow> s)
      else s)"

definition cancel_tasks :: "'w interactive_ports \<Rightarrow> execution_context \<Rightarrow> (nat \<times> bool) list \<Rightarrow> 'w run \<Rightarrow> 'w run" where
  "cancel_tasks p ctx events s = fold (\<lambda>(n, late). cancel_task p ctx n late) events s"

end
