(* ===== verification/Interactive_Response.thy ===== *)
theory Interactive_Response
  imports Interactive_Run
begin

text \<open>
  What the response of \<open>InteractiveCoordinator.execute\<close> says: every requested operation is
  listed exactly once, the reason is the one of highest priority, released output was accepted
  by the validator, and a response is emitted whatever the ports do.
\<close>

declare map_of_eq_Some_iff [simp del]

section \<open>Operation identifiers\<close>

lemma decimal_nat: "decimal (int n) = digits n"
  by (simp add: decimal_def)

lemma digits_inj: "digits m = digits n \<Longrightarrow> m = n"
  using digits_read by (metis of_nat_eq_iff)

lemma digits_colon:
  assumes "digits m @ CHR '':'' # s = digits n @ CHR '':'' # t"
  shows "m = n"
proof -
  have take: "takeWhile is_digit (digits k @ CHR '':'' # u) = digits k" for k u
    using digits_are [of k] by (simp add: list_all_iff is_digit_def)
  from assms have "digits m = digits n" by (metis take)
  then show ?thesis by (rule digits_inj)
qed

lemma model_id_inj: "model_id m v = model_id n w \<Longrightarrow> m = n"
  by (auto simp: model_id_def decimal_nat dest: digits_colon)

lemma id_shapes [simp]: "query_id r \<noteq> model_id n w" "query_id r \<noteq> task_preparation_id t" "query_id r \<noteq> pack_id k"
    "\<not> blank (query_id r)" "\<not> blank (model_id n w)" "\<not> blank (task_preparation_id t)" "\<not> blank (pack_id k)"
  by (simp_all add: query_id_def model_id_def task_preparation_id_def pack_id_def blank_def py_space_def)

lemma model_ids: "map fst (model_jobs r) = map (\<lambda>(n, w). model_id n w) (enumerate 0 (ir_model_work r))"
  by (simp add: model_jobs_def case_prod_beta comp_def)

lemma distinct_model_ids: "distinct (map (\<lambda>(n, w). model_id n w) (enumerate k ws))"
proof (induction ws arbitrary: k)
  case (Cons w ws)
  have "model_id k w \<notin> (\<lambda>(n, v). model_id n v) ` set (enumerate (Suc k) ws)"
    by (auto dest: model_id_inj simp: in_set_enumerate_eq)
  with Cons.IH [of "Suc k"] show ?case by simp
qed simp

lemma initial_ids_distinct: "distinct (initial_operation_ids r)"
  by (auto simp: initial_operation_ids_def distinct_model_ids split: option.splits)

lemma initial_ids_named: "list_all (\<lambda>i. \<not> blank i) (initial_operation_ids r)"
  by (auto simp: initial_operation_ids_def list_all_iff split: option.splits)

lemma initial_ids_nonempty [simp]: "initial_operation_ids r \<noteq> []"
  by (simp add: initial_operation_ids_def split: option.splits)

lemma packs_numbered:
  "check_packs d n ps ws = Inr () \<Longrightarrow> length ps = length ws \<Longrightarrow>
     map pk_pack_index ps = map (\<lambda>i. n + int i) [0..<length ps]
     \<and> (\<forall>k \<in> set ps. pk_function k = td_function d \<and> pk_definition_version k = td_version d)"
proof (induction d n ps ws rule: check_packs.induct)
  case (1 d n p ps w ws)
  from 1 have IH: "map pk_pack_index ps = map (\<lambda>i. n + 1 + int i) [0..<length ps]"
      "\<forall>k \<in> set ps. pk_function k = td_function d \<and> pk_definition_version k = td_version d"
    by (auto split: if_splits)
  have "map (\<lambda>i. n + int i) [0..<Suc (length ps)] = n # map (\<lambda>i. n + 1 + int i) [0..<length ps]"
    by (rule nth_equalityI) (auto simp: nth_Cons' simp del: upt_Suc)
  with IH 1(2,3) show ?case by (auto simp del: upt_Suc split: if_splits)
qed auto

lemma pack_ids_distinct:
  assumes "PreparedTask_post t = Inr t'"
  shows "distinct (map pack_id (pt_packs t))" and "length (pt_packs t) = length (pt_model_work t)" and "pt_packs t \<noteq> []"
proof -
  from assms have c: "length (pt_packs t) = length (pt_model_work t)" "pt_packs t \<noteq> []"
      "check_packs (pt_definition t) 0 (pt_packs t) (pt_model_work t) = Inr ()"
    by (auto simp: PreparedTask_post_def bindR_Inr split: if_splits)
  note numbered = packs_numbered [OF c(3,1), THEN conjunct1] packs_numbered [OF c(3,1), THEN conjunct2]
  let ?pre = "''task:'' @ function_value (td_function (pt_definition t)) @ '':'' @ td_version (pt_definition t) @ '':pack:''"
  have "map pack_id (pt_packs t) = map (\<lambda>i. ?pre @ decimal i) (map pk_pack_index (pt_packs t))"
    unfolding map_map using numbered(2) by (intro map_cong refl) (auto simp: pack_id_def)
  also have "\<dots> = map (\<lambda>i. ?pre @ digits i) [0..<length (pt_packs t)]"
    unfolding numbered(1) by (simp add: decimal_nat)
  also have "distinct \<dots>" by (auto simp: distinct_map inj_on_def dest: digits_inj)
  finally show "distinct (map pack_id (pt_packs t))" .
  show "length (pt_packs t) = length (pt_model_work t)" "pt_packs t \<noteq> []" using c by simp_all
qed

section \<open>The aggregator through the run\<close>

text \<open>Whatever returns has kept the invariant of the aggregator and its operations.\<close>

lemma require_pending_Inr: "require_pending i g = (Inr u, g') \<longleftrightarrow> g' = g \<and> i \<in> set (ag_pending g)"
  by (auto simp: require_pending_def pending_iff split: if_splits)

lemma ag_complete_Inr:
  "ag_complete i v g = (Inr u, g') \<Longrightarrow> aggregator_ok g \<Longrightarrow> aggregator_ok g' \<and> ag_operation_ids g' = ag_operation_ids g"
  using outcome_recorded(1) [of g i v] by (auto simp: ag_complete_def bindM_Inr require_pending_Inr)

lemma ag_omit_Inr:
  "ag_omit i reason ds st g = (Inr u, g') \<Longrightarrow> reason \<noteq> TR_COMPLETE \<Longrightarrow> aggregator_ok g
     \<Longrightarrow> aggregator_ok g' \<and> ag_operation_ids g' = ag_operation_ids g"
  using outcome_recorded(3) [of g i st reason ds]
  by (auto simp: ag_omit_def bindM_Inr require_pending_Inr OperationIncompleteness_post_def split: if_splits)

lemma omit_each_Inr:
  "omit_each reason st is g = (Inr u, g') \<Longrightarrow> reason \<noteq> TR_COMPLETE \<Longrightarrow> aggregator_ok g
     \<Longrightarrow> aggregator_ok g' \<and> ag_operation_ids g' = ag_operation_ids g"
  by (induction "is" arbitrary: g) (auto simp: bindM_Inr dest: ag_omit_Inr)

lemma error_reason_incomplete [simp]: "error_reason x \<noteq> TR_COMPLETE"
  by (auto simp: error_reason_def split: operation_error.splits exn.splits)

lemma collect_one_Inr:
  "collect_one op g = (Inr u, g') \<Longrightarrow> aggregator_ok g \<Longrightarrow> aggregator_ok g' \<and> ag_operation_ids g' = ag_operation_ids g"
proof -
  assume run: "collect_one op g = (Inr u, g')" and ok: "aggregator_ok g"
  have frame: "h = g" if "ag_complete i v g = (Inl e, h)" for i v e h
    using that by (auto simp: ag_complete_def bindM_def require_pending_def split: if_splits)
  show ?thesis
    using run ok ag_omit_Inr [of "op_id op" _ _ OS_OMITTED g u g'] ag_complete_Inr [of "op_id op" _ g _ g']
    by (auto simp: collect_one_def Let_def split: operation_status.splits sum.splits prod.splits dest: frame)
qed

abbreviation same_operations :: "'v aggregator \<Rightarrow> 'v aggregator \<Rightarrow> bool" where
  "same_operations g g' \<equiv> aggregator_ok g' \<and> ag_operation_ids g' = ag_operation_ids g"

lemma aggregated_Inr: "aggregated m g s = (Inr g', s') \<longleftrightarrow> s' = s \<and> (\<exists>u. m g = (Inr u, g'))"
  by (auto simp: aggregated_def split: prod.splits sum.splits)

lemma collect_all_Inr: "collect_all ops g s = (Inr g', s') \<Longrightarrow> aggregator_ok g \<Longrightarrow> same_operations g g'"
  by (induction ops arbitrary: g s) (auto simp: bindM_Inr aggregated_Inr dest!: collect_one_Inr)

lemma launch_Inr: "launch p due source jobs g s = (Inr g', s') \<Longrightarrow> aggregator_ok g \<Longrightarrow> same_operations g g'"
proof (induction p due source jobs g arbitrary: s rule: launch.induct)
  case (2 p due source i job rest g)
  then show ?case
    by (auto simp: bindM_Inr aggregated_Inr split: if_splits dest!: ag_omit_Inr) (metis)+
qed simp

lemma collect_models_Inr: "collect_models p ctx due sch g s = (Inr g', s') \<Longrightarrow> aggregator_ok g \<Longrightarrow> same_operations g g'"
  by (auto simp: collect_models_def bindM_Inr Let_def split: if_splits dest: collect_all_Inr)

definition task_operations :: "'w interactive_ports \<Rightarrow> interactive_request \<Rightarrow> string list \<Rightarrow> bool" where
  "task_operations p r ids \<longleftrightarrow> (\<exists>tp t source ctx w w' pt. ip_tasks p = Some tp \<and> ir_task r = Some t
     \<and> tp_prepare tp t source ctx w = (Inr (Inr pt), w') \<and> ids = query_id r # map pack_id (pt_packs pt))"

text \<open>The operations of the response: those of the request, or the packs of its task.\<close>

definition response_operations :: "'w interactive_ports \<Rightarrow> interactive_request \<Rightarrow> string list \<Rightarrow> bool" where
  "response_operations p r ids \<longleftrightarrow> ids = initial_operation_ids r \<or> task_operations p r ids"

lemma unprepared_Inr:
  "unprepared r t source failure s = (Inr g, s') \<Longrightarrow> ir_task r = Some t \<Longrightarrow> aggregator_ok g \<and> ag_operation_ids g = initial_operation_ids r"
  by (auto simp: unprepared_def bindM_Inr liftR_def aggregated_Inr initial_operation_ids_def
      dest!: ag_complete_Inr ag_omit_Inr aggregator_init_ok)

lemma run_task_request_Inr:
  assumes "run_task_request p sch r t ctx due source s = (Inr g, s')" and "ir_task r = Some t"
  shows "aggregator_ok g \<and> response_operations p r (ag_operation_ids g)"
proof (cases "ip_tasks p")
  case None
  with assms show ?thesis by (auto simp: run_task_request_def response_operations_def dest: unprepared_Inr)
next
  case (Some tp)
  with assms(1) obtain x s1 where prep: "in_world (tp_prepare tp t source ctx) s = (Inr x, s1)"
    and run: "(case x of Inl f \<Rightarrow> unprepared r t source (Some f)
          | Inr pt \<Rightarrow> bindM (liftR (aggregator_init (query_id r # map pack_id (pt_packs pt)))) (\<lambda>g.
              bindM (aggregated (ag_complete (query_id r) (ReadResult source)) g) (\<lambda>g.
                run_task_models p sch pt ctx due source g))) s1 = (Inr g, s')"
    by (auto simp: run_task_request_def bindM_Inr)
  show ?thesis
  proof (cases x)
    case (Inl f)
    with run assms(2) show ?thesis by (auto simp: response_operations_def dest: unprepared_Inr)
  next
    case (Inr pt)
    with run obtain g0 u g1 s2 where steps: "aggregator_init (query_id r # map pack_id (pt_packs pt)) = Inr g0"
        "ag_complete (query_id r) (ReadResult source) g0 = (Inr u, g1)" "run_task_models p sch pt ctx due source g1 s2 = (Inr g, s')"
      by (auto simp: bindM_Inr aggregated_Inr)
    from aggregator_init_ok [OF steps(1)] ag_complete_Inr [OF steps(2)]
    have g1: "aggregator_ok g1" "ag_operation_ids g1 = query_id r # map pack_id (pt_packs pt)" by auto
    from steps(3) g1 have "same_operations g1 g"
      by (auto simp: run_task_models_def bindM_Inr split: if_splits dest!: launch_Inr collect_models_Inr)
    moreover from prep Inr have "\<exists>w w'. tp_prepare tp t source ctx w = (Inr (Inr pt), w')"
      by (auto simp: in_world_def split: prod.splits)
    ultimately show ?thesis using Some assms(2) g1 unfolding response_operations_def task_operations_def by auto blast
  qed
qed

lemma run_read_Inr:
  assumes "run_read p sch r ctx due g s = (Inr g', s')" and "aggregator_ok g" and "ag_operation_ids g = initial_operation_ids r"
  shows "aggregator_ok g' \<and> response_operations p r (ag_operation_ids g')"
proof (cases "sc_read_in_time sch")
  case False
  with assms show ?thesis
    by (auto simp: run_read_def aggregated_Inr finalize_pending_def response_operations_def dest!: omit_each_Inr)
next
  case True
  obtain x s1 where read: "read_source p r ctx s = (x, s1)" by fastforce
  show ?thesis
  proof (cases x)
    case (Inl e)
    with True read assms show ?thesis
      by (auto simp: run_read_def bindM_Inr aggregated_Inr response_operations_def dest!: ag_omit_Inr omit_each_Inr)
  next
    case (Inr source)
    show ?thesis
    proof (cases "ir_task r")
      case None
      with True read Inr assms show ?thesis
        by (auto simp: run_read_def run_models_def bindM_Inr aggregated_Inr response_operations_def
            dest!: ag_complete_Inr launch_Inr collect_models_Inr)
    next
      case (Some t)
      with True read Inr assms(1) show ?thesis using run_task_request_Inr [OF _ Some] by (simp add: run_read_def)
    qed
  qed
qed

section \<open>What every step of a run keeps\<close>

lemma snd_aggregated [simp]: "snd (aggregated m g s) = s"
  by (simp add: aggregated_def)

lemma snd_collect_all [simp]: "snd (collect_all ops g s) = s"
  by (induction ops arbitrary: g s) (auto simp: bindM_def aggregated_def split: prod.splits sum.splits)

text \<open>A predicate kept by the ports and by the steps of the tasks is kept by the whole run,
  when it raises too.\<close>

locale run_invariant =
  fixes p :: "'w interactive_ports" and ctx :: execution_context and inv :: "'w run \<Rightarrow> bool"
    and job_ok :: "string \<Rightarrow> operation_job \<Rightarrow> bool"
  assumes now_law: "inv s \<Longrightarrow> inv (snd (in_world (ip_now p) s))"
    and monotonic_law: "inv s \<Longrightarrow> inv (snd (monotonic p s))"
    and read_law: "inv s \<Longrightarrow> inv (snd (in_world (ip_read p ref ps ctx) s))"
    and prepare_law: "ip_tasks p = Some tp \<Longrightarrow> inv s \<Longrightarrow> inv (snd (in_world (tp_prepare tp t source ctx) s))"
    and packs_law: "ip_tasks p = Some tp \<Longrightarrow> inv s \<Longrightarrow> tp_prepare tp t source ctx (ru_world s) = (Inr (Inr pt), w') \<Longrightarrow>
        (i, job) \<in> set (pack_jobs pt) \<Longrightarrow> job_ok i job"
    and terminal_law: "inv s \<Longrightarrow> inv (snd (in_world (ip_terminal p response ctx) s))"
    and note_law: "inv s \<Longrightarrow> inv (s\<lparr>ru_terminal := b\<rparr>)" "inv s \<Longrightarrow> inv (s\<lparr>ru_query := b\<rparr>)" "inv s \<Longrightarrow> inv (s\<lparr>ru_database_ms := d\<rparr>)"
    and add_law: "inv s \<Longrightarrow> job_ok i job \<Longrightarrow> inv (add_task \<lparr>op_id = i, op_job = job, op_source = source, op_status = Unstarted\<rparr> s)"
    and resume_law: "inv s \<Longrightarrow> inv (resume p ctx n s)"
begin

definition keeps :: "('w run, 'a) meth \<Rightarrow> bool" where
  "keeps m \<longleftrightarrow> (\<forall>s. inv s \<longrightarrow> inv (snd (m s)))"

lemma keeps_run: "keeps m \<Longrightarrow> inv s \<Longrightarrow> inv (snd (m s))"
  by (simp add: keeps_def)

lemma keeps_bind: "keeps m \<Longrightarrow> (\<And>x. keeps (f x)) \<Longrightarrow> keeps (bindM m f)"
  by (auto simp: keeps_def bindM_def split: prod.splits sum.splits)

lemma keeps_simps [simp]: "keeps (pureM x)" "keeps (raiseM e)" "keeps (liftR y)" "keeps (aggregated a g)"
    "keeps (collect_all ops g)" "keeps (\<lambda>s. (h s, s))"
  by (simp_all add: keeps_def)

lemma keeps_if: "(b \<Longrightarrow> keeps m) \<Longrightarrow> (\<not> b \<Longrightarrow> keeps n) \<Longrightarrow> keeps (if b then m else n)"
  by simp

lemma keeps_now [simp]: "keeps (in_world (ip_now p))"
  using now_law by (simp add: keeps_def)

lemma keeps_monotonic [simp]: "keeps (monotonic p)"
  using monotonic_law by (simp add: keeps_def)

lemma keeps_remaining [simp]: "keeps (remaining p due)"
  unfolding remaining_def by (intro keeps_bind) simp_all

lemma keeps_launch: "\<forall>(i, job) \<in> set jobs. job_ok i job \<Longrightarrow> keeps (launch p due source jobs g)"
proof (induction jobs arbitrary: g)
  case (Cons ij jobs)
  obtain i job where ij: "ij = (i, job)" by fastforce
  from Cons have added: "keeps (\<lambda>s. launch p due source jobs g
      (add_task \<lparr>op_id = i, op_job = job, op_source = source, op_status = Unstarted\<rparr> s))" for g
    using add_law [of _ i job source] ij by (simp add: keeps_def)
  have "keeps (launch p due source ((i, job) # jobs) g)"
    unfolding launch.simps by (intro keeps_bind keeps_if added) (use Cons in simp_all)
  then show ?case by (simp only: ij)
qed simp

lemma run_steps_keeps: "inv s \<Longrightarrow> inv (run_steps p ctx steps s)"
  unfolding run_steps_def by (induction steps arbitrary: s) (auto intro: resume_law)

lemma keeps_collect: "keeps (collect_models p ctx due sch g)"
proof -
  have "keeps (\<lambda>s. let s' = run_steps p ctx (sc_steps sch) s;
            ranked = sort_key (\<lambda>op. sc_rank sch (op_id op)) (ru_tasks s') in
        collect_all (filter ended ranked @ filter (\<lambda>op. \<not> ended op) ranked) g s')"
    using run_steps_keeps by (simp add: keeps_def Let_def)
  then have "keeps (bindM (remaining p due) (\<lambda>_ s. let s' = run_steps p ctx (sc_steps sch) s;
            ranked = sort_key (\<lambda>op. sc_rank sch (op_id op)) (ru_tasks s') in
        collect_all (filter ended ranked @ filter (\<lambda>op. \<not> ended op) ranked) g s'))"
    by (intro keeps_bind) simp_all
  then show ?thesis by (simp add: keeps_def collect_models_def)
qed

lemma keeps_run_models: "\<forall>(i, job) \<in> set (model_jobs r). job_ok i job \<Longrightarrow> keeps (run_models p sch r ctx due source g)"
  unfolding run_models_def by (intro keeps_bind keeps_launch keeps_collect)

lemma keeps_task_models: "\<forall>(i, job) \<in> set (pack_jobs t). job_ok i job \<Longrightarrow> keeps (run_task_models p sch t ctx due source g)"
  unfolding run_task_models_def by (intro keeps_bind keeps_launch keeps_if keeps_collect) simp_all

lemma keeps_unprepared: "keeps (unprepared r t source failure)"
  unfolding unprepared_def by (intro keeps_bind) simp_all

lemma keeps_prepared:
  assumes "\<forall>(i, job) \<in> set (pack_jobs pt). job_ok i job"
  shows "keeps (bindM (liftR (aggregator_init (query_id r # map pack_id (pt_packs pt)))) (\<lambda>g.
              bindM (aggregated (ag_complete (query_id r) (ReadResult source)) g) (\<lambda>g.
                run_task_models p sch pt ctx due source g)))"
  by (intro keeps_bind keeps_task_models assms) simp_all

lemma keeps_task_request: "keeps (run_task_request p sch r t ctx due source)"
proof (cases "ip_tasks p")
  case None
  then show ?thesis using keeps_unprepared by (simp add: run_task_request_def keeps_def)
next
  case (Some tp)
  have "inv (snd (run_task_request p sch r t ctx due source s))" if s: "inv s" for s
  proof -
    obtain x w' where run: "tp_prepare tp t source ctx (ru_world s) = (x, w')" by fastforce
    have kept: "inv (s\<lparr>ru_world := w'\<rparr>)" using prepare_law [OF Some s, of t source] by (simp add: in_world_def run)
    show ?thesis
    proof (cases x)
      case (Inl e)
      with Some run kept show ?thesis by (simp add: run_task_request_def in_world_def bindM_def)
    next
      case (Inr y)
      show ?thesis
      proof (cases y)
        case (Inl f)
        with \<open>x = Inr y\<close> Some run keeps_run [OF keeps_unprepared kept] show ?thesis
          by (simp add: run_task_request_def in_world_def bindM_run)
      next
        case pt: (Inr pt)
        then have "\<forall>(i, job) \<in> set (pack_jobs pt). job_ok i job" using packs_law [OF Some s] run Inr by blast
        from keeps_run [OF keeps_prepared [OF this] kept] pt Inr Some run show ?thesis
          by (simp add: run_task_request_def in_world_def bindM_run)
      qed
    qed
  qed
  then show ?thesis by (simp add: keeps_def)
qed

lemma keeps_read: "keeps (read_source p r ctx)"
proof -
  have "keeps (\<lambda>s. case in_world (ip_read p ref ps ctx) s of
      (x, s1) \<Rightarrow> case monotonic p s1 of
        (_, s2) \<Rightarrow> (x, s2\<lparr>ru_database_ms := ru_database_ms s2 + (projr (fst (monotonic p s1)) - t) * 1000\<rparr>))" for t ref ps
    using read_law monotonic_law note_law(3) by (simp add: keeps_def case_prod_beta)
  then show ?thesis unfolding read_source_def by (intro keeps_bind) simp_all
qed

lemma keeps_run_read:
  assumes "\<forall>(i, job) \<in> set (model_jobs r). job_ok i job"
  shows "keeps (run_read p sch r ctx due g)"
proof -
  let ?failed = "\<lambda>e. bindM (aggregated (ag_omit (query_id r) (error_reason (Raised e)) (error_details (Raised e)) OS_OMITTED) g)
      (aggregated (\<lambda>g. omit_each TR_DEPENDENCY_FAILED OS_OMITTED (ag_pending g) g))"
  let ?models = "\<lambda>source. bindM (aggregated (ag_complete (query_id r) (ReadResult source)) g) (run_models p sch r ctx due source)"
  have f: "keeps (?failed e :: 'w run \<Rightarrow> _)" for e by (intro keeps_bind) simp_all
  have m: "keeps (?models source)" for source by (intro keeps_bind keeps_run_models assms) simp_all
  have "inv (snd (run_read p sch r ctx due g s))" if s: "inv s" for s
  proof (cases "sc_read_in_time sch")
    case False
    then show ?thesis using note_law(2) [OF s] by (simp add: run_read_def)
  next
    case True
    obtain x s1 where read: "read_source p r ctx s = (x, s1)" by fastforce
    then have s1: "inv s1" using keeps_run [OF keeps_read s, of r] by simp
    show ?thesis
    proof (cases x)
      case (Inl e)
      with True read keeps_run [OF f s1, of e] show ?thesis by (simp add: run_read_def)
    next
      case (Inr source)
      with True read keeps_run [OF m s1, of source] keeps_run [OF keeps_task_request s1] show ?thesis
        by (simp add: run_read_def split: option.split)
    qed
  qed
  then show ?thesis by (simp add: keeps_def)
qed

lemma keeps_cancel: "keeps (cancel_pending p)"
proof -
  have "keeps (bindM (monotonic p) (\<lambda>t s. (Inr t, s\<lparr>ru_terminal := True\<rparr>)))"
    by (intro keeps_bind keeps_monotonic) (simp add: keeps_def note_law(1))
  then show ?thesis by (simp add: keeps_def cancel_pending_def)
qed

lemma keeps_cancellation_ms: "keeps (cancellation_ms p c)"
  unfolding cancellation_ms_def by (intro keeps_if keeps_bind) simp_all

lemma keeps_emit: "keeps (emit_response p r ctx due started g)"
proof -
  have terminal: "keeps (\<lambda>s. (Inr response, snd (in_world (ip_terminal p response ctx) (s\<lparr>ru_terminal := True\<rparr>))))" for response
    using terminal_law note_law(1) by (simp add: keeps_def)
  show ?thesis unfolding emit_response_def
    by (intro keeps_bind keeps_cancel keeps_cancellation_ms terminal) simp_all
qed

lemma execute_keeps:
  assumes "inv s" and "\<forall>(i, job) \<in> set (model_jobs r). job_ok i job"
  shows "inv (snd (execute p sch r ctx s))"
proof -
  have "keeps (execute p sch r ctx)"
  proof (cases "deadline (timing ctx)")
    case (Some due)
    have "keeps (bindM (liftR (aggregator_init (initial_operation_ids r))) (\<lambda>g.
          bindM (in_world (ip_now p)) (\<lambda>started.
          bindM (remaining p due) (\<lambda>left.
          bindM (if no_time_left p left then aggregated (finalize_pending TR_DEADLINE_EXCEEDED) g else run_read p sch r ctx due g) (\<lambda>g.
            emit_response p r ctx due started g)))))"
      by (intro keeps_bind keeps_if keeps_run_read assms(2) keeps_emit) simp_all
    with Some show ?thesis by (simp add: execute_def)
  qed (simp add: execute_def)
  with assms(1) show ?thesis by (simp add: keeps_def)
qed

end

section \<open>Late completions\<close>

text \<open>Only the observers of the cancelled tasks, which run after the response, count late
  completions.\<close>

lemma in_world_frame [simp]:
  "ru_late_completions (snd (in_world m s)) = ru_late_completions s" "ru_tasks (snd (in_world m s)) = ru_tasks s"
  "ru_world (snd (in_world m s)) = snd (m (ru_world s))" "fst (in_world m s) = fst (m (ru_world s))"
  by (simp_all add: in_world_def case_prod_beta)

lemma monotonic_frame [simp]:
  "ru_late_completions (snd (monotonic p s)) = ru_late_completions s" "ru_tasks (snd (monotonic p s)) = ru_tasks s"
  "ru_world (snd (monotonic p s)) = snd (ip_monotonic p (ru_world s))" "fst (monotonic p s) = Inr (fst (ip_monotonic p (ru_world s)))"
  by (simp_all add: monotonic_def case_prod_beta)

lemma set_status_frame [simp]:
  "ru_late_completions (set_status n st s) = ru_late_completions s" "ru_world (set_status n st s) = ru_world s"
  "ru_tasks (set_status n st s) = (ru_tasks s)[n := (ru_tasks s ! n)\<lparr>op_status := st\<rparr>]"
  by (simp_all add: set_status_def)

definition same_tasks :: "'w run \<Rightarrow> 'w run \<Rightarrow> bool" where
  "same_tasks s s' \<longleftrightarrow> ru_tasks s' = ru_tasks s \<and> ru_late_completions s' = ru_late_completions s"

lemma same_tasks_simps [simp]: "same_tasks s s" "same_tasks s (snd (in_world m s))" "same_tasks s (snd (monotonic p s))"
    "same_tasks s (s\<lparr>ru_world := w\<rparr>)" "same_tasks s (s\<lparr>ru_model_ms := x\<rparr>)"
    "same_tasks s (s\<lparr>ru_tokens := a, ru_cost := b\<rparr>)"
  by (simp_all add: same_tasks_def)

lemma same_tasks_trans: "same_tasks s s1 \<Longrightarrow> same_tasks s1 s2 \<Longrightarrow> same_tasks s s2"
  by (simp add: same_tasks_def)

lemma same_tasks_bind:
  assumes "\<And>s. same_tasks s (snd (m s))" and "\<And>x s. same_tasks s (snd (f x s))"
  shows "same_tasks s (snd (bindM m f s))"
proof (cases "m s")
  case (Pair y s1)
  with assms(1) [of s] have "same_tasks s s1" by simp
  with Pair assms(2) [of s1] show ?thesis by (cases y) (auto simp: bindM_def intro: same_tasks_trans)
qed

lemma settle_same: "same_tasks s (snd (settle_operation p plan held started s))"
  unfolding settle_operation_def
  by (intro same_tasks_bind) (auto split: option.split intro!: same_tasks_bind)

lemma settled_same: "same_tasks s (snd (finally_settled p plan held started out s))"
  using settle_same [of s p plan held started] by (auto simp: finally_settled_def split: prod.splits sum.splits)

lemma settled_frame [simp]: "ru_tasks (snd (finally_settled p plan held started out s)) = ru_tasks s"
    "ru_late_completions (snd (finally_settled p plan held started out s)) = ru_late_completions s"
  using settled_same [of s p plan held started out] by (simp_all add: same_tasks_def)

lemma start_same: "same_tasks s (snd (start_operation p ctx i job s))"
  by (simp add: start_operation_def Let_def case_prod_beta same_tasks_def split: sum.split option.split)

lemma check_same: "same_tasks s (snd (check_output p ctx job invoked s))"
  by (simp add: check_output_def judged_def case_prod_beta same_tasks_def split: operation_job.split pyval.split option.split sum.split)

lemma finish_same: "same_tasks s (snd (finish_operation p ctx job source plan rid started s))"
  using check_same [of _ p ctx job]
  by (simp add: finish_operation_def case_prod_beta same_tasks_def split: sum.split)

lemma resume_late: "ru_late_completions (resume p ctx n s) = ru_late_completions s"
  using start_same [of s p ctx "op_id (ru_tasks s ! n)" "op_job (ru_tasks s ! n)"]
    finish_same [of s p ctx "op_job (ru_tasks s ! n)" "op_source (ru_tasks s ! n)"]
  by (simp add: resume_def Let_def case_prod_beta same_tasks_def split: operation_status.split)

interpretation late: run_invariant p ctx "\<lambda>s. ru_late_completions s = k" "\<lambda>_ _. True" for p ctx k
  by unfold_locales (simp_all add: resume_late add_task_def)

section \<open>Released output\<close>

text \<open>The records of an operation were accepted by the validator of its kind.\<close>

definition validated :: "'w interactive_ports \<Rightarrow> execution_context \<Rightarrow> operation_job \<Rightarrow> frozen_mapping list \<Rightarrow> bool" where
  "validated p ctx job rs \<longleftrightarrow> (\<exists>w w' v. vo_accepted (vres_outcome v) \<and> rs = accepted_records v \<and> (case job of
     ModelJob work \<Rightarrow> \<exists>records. ip_validate p (mw_input_ids work) records ctx w = (Inr v, w')
   | PackJob t k _ \<Rightarrow> \<exists>tp output. ip_tasks p = Some tp \<and> tp_validate tp t k output ctx w = (Inr (Inr v), w')))"

definition known_job :: "'w interactive_ports \<Rightarrow> interactive_request \<Rightarrow> string \<Rightarrow> operation_job \<Rightarrow> bool" where
  "known_job p r i job \<longleftrightarrow> (i, job) \<in> set (model_jobs r)
     \<or> (\<exists>tp t source ctx w w' pt. ip_tasks p = Some tp \<and> tp_prepare tp t source ctx w = (Inr (Inr pt), w') \<and> (i, job) \<in> set (pack_jobs pt))"

definition task_validated :: "'w interactive_ports \<Rightarrow> interactive_request \<Rightarrow> execution_context \<Rightarrow> operation \<Rightarrow> bool" where
  "task_validated p r ctx op \<longleftrightarrow> known_job p r (op_id op) (op_job op)
     \<and> (\<forall>rs. op_status op = Finished (Inr rs) \<longrightarrow> validated p ctx (op_job op) rs)"

lemma in_world_Inr: "in_world m s = (x, s') \<Longrightarrow> \<exists>w w'. m w = (x, w')"
  by (auto simp: in_world_def split: prod.splits)

lemma judged_Inr: "judged u v s = (Inr rs, s') \<Longrightarrow> vo_accepted (vres_outcome v) \<and> rs = accepted_records v"
  by (auto simp: judged_def split: if_splits)

lemma check_validated: "check_output p ctx job invoked s = (Inr rs, s') \<Longrightarrow> validated p ctx job rs"
  unfolding validated_def
  by (auto simp: check_output_def split: operation_job.splits pyval.splits option.splits prod.splits sum.splits
      dest!: judged_Inr in_world_Inr)

lemma finally_Inr: "finally_settled p plan held started out s = (Inr rs, s') \<Longrightarrow> out = Inr rs"
  by (auto simp: finally_settled_def split: prod.splits sum.splits)

lemma finish_validated: "finish_operation p ctx job source plan rid started s = (Inr rs, s') \<Longrightarrow> validated p ctx job rs"
  by (auto simp: finish_operation_def split: prod.splits sum.splits dest!: finally_Inr dest: check_validated)

lemma start_not_released: "fst (start_operation p ctx i job s) \<noteq> Finished (Inr rs)"
proof -
  have e: "fst (case finally_settled p plan None started (Inl x :: operation_error + frozen_mapping list) t of
      (out, s') \<Rightarrow> (Finished out, s')) \<noteq> Finished (Inr rs)"
    for plan started and x :: operation_error and t :: "'a run"
  proof -
    obtain a b where f: "finally_settled p plan None started (Inl x :: operation_error + frozen_mapping list) t = (a, b)" by fastforce
    then have "a \<noteq> Inr rs" using finally_Inr [of p plan None started "Inl x" t rs b] by auto
    then show ?thesis by (simp add: f)
  qed
  show ?thesis unfolding start_operation_def Let_def
    by (auto simp: case_prod_beta split: sum.split option.split dest: e [simplified case_prod_beta, simplified, THEN notE])
qed

lemma resume_validated:
  assumes "list_all (task_validated p r ctx) (ru_tasks s)"
  shows "list_all (task_validated p r ctx) (ru_tasks (resume p ctx n s))"
proof (cases "n < length (ru_tasks s)")
  case True
  let ?op = "ru_tasks s ! n"
  have op: "task_validated p r ctx ?op" using assms True by (simp add: list_all_length)
  have set: "list_all (task_validated p r ctx) (ru_tasks (set_status n st s'))"
    if "ru_tasks s' = ru_tasks s" "\<And>rs. st = Finished (Inr rs) \<Longrightarrow> validated p ctx (op_job ?op) rs" for st s'
    using assms op that True by (auto simp: list_all_length nth_list_update task_validated_def)
  show ?thesis
  proof (cases "op_status ?op")
    case Unstarted
    obtain st s' where run: "start_operation p ctx (op_id ?op) (op_job ?op) s = (st, s')" by fastforce
    have "ru_tasks s' = ru_tasks s" using start_same [of s p ctx "op_id ?op" "op_job ?op"] by (simp add: run same_tasks_def)
    moreover have not_released: "st \<noteq> Finished (Inr rs)" for rs
      using start_not_released [of p ctx "op_id ?op" "op_job ?op" s rs] by (simp add: run)
    ultimately have "list_all (task_validated p r ctx) (ru_tasks (set_status n st s'))"
      by (intro set) (auto simp: not_released)
    then show ?thesis using True Unstarted run by (simp add: resume_def)
  next
    case (Waiting plan rid started)
    obtain out s' where run: "finish_operation p ctx (op_job ?op) (op_source ?op) plan rid started s = (out, s')" by fastforce
    have "ru_tasks s' = ru_tasks s"
      using finish_same [of s p ctx "op_job ?op" "op_source ?op" plan rid started] by (simp add: run same_tasks_def)
    then have "list_all (task_validated p r ctx) (ru_tasks (set_status n (Finished out) s'))"
      by (rule set) (use run in \<open>auto dest: finish_validated\<close>)
    then show ?thesis using True Waiting run by (simp add: resume_def)
  qed (use True assms in \<open>simp_all add: resume_def\<close>)
qed (use assms in \<open>simp add: resume_def\<close>)

interpretation release: run_invariant p ctx "\<lambda>s. list_all (task_validated p r ctx) (ru_tasks s)" "known_job p r" for p ctx r
proof (unfold_locales, goal_cases)
  case (5 tp s t source pt w' i job)
  then show ?case unfolding known_job_def by blast
next
  case (10 s i job source)
  then show ?case by (auto simp: add_task_def task_validated_def)
next
  case (11 s n)
  then show ?case by (rule resume_validated)
qed (simp_all add: add_task_def)

definition released :: "(string \<Rightarrow> frozen_mapping list \<Rightarrow> bool) \<Rightarrow> operation_value aggregator \<Rightarrow> bool" where
  "released R g \<longleftrightarrow> (\<forall>i rs. dget (ag_results g) i = Some (AcceptedRecords rs) \<longrightarrow> R i rs)"

definition accepted_for :: "'w interactive_ports \<Rightarrow> interactive_request \<Rightarrow> execution_context \<Rightarrow> string \<Rightarrow> frozen_mapping list \<Rightarrow> bool" where
  "accepted_for p r ctx i rs \<longleftrightarrow> (\<exists>job. known_job p r i job \<and> validated p ctx job rs)"

lemma fresh_released: "aggregator_init ids = Inr g \<Longrightarrow> released R g"
  by (auto simp: released_def aggregator_init_def split: if_splits)

lemma empty_released [simp]: "released R \<lparr>ag_operation_ids = ids, ag_results = [], ag_incomplete = []\<rparr>"
  by (simp add: released_def)

lemma omit_released: "ag_omit i reason ds st g = (x, g') \<Longrightarrow> released R g' = released R g"
  by (auto simp: ag_omit_def bindM_def released_def require_pending_def liftR_def OperationIncompleteness_post_def split: if_splits)

lemma omit_each_released: "omit_each reason st is g = (x, g') \<Longrightarrow> released R g' = released R g"
proof (induction "is" arbitrary: g)
  case (Cons i "is")
  obtain y g1 where first: "ag_omit i reason [] st g = (y, g1)" by fastforce
  with Cons show ?case using omit_released [OF first, of R] by (cases y) (auto simp: bindM_def)
qed simp

lemma complete_released:
  "ag_complete i v g = (x, g') \<Longrightarrow> released R g \<Longrightarrow> (\<And>rs. v = AcceptedRecords rs \<Longrightarrow> R i rs) \<Longrightarrow> released R g'"
  by (auto simp: ag_complete_def bindM_def released_def require_pending_def split: if_splits)

lemma collect_one_released:
  assumes "collect_one op g = (x, g')" and "released R g" and "\<And>rs. op_status op = Finished (Inr rs) \<Longrightarrow> R (op_id op) rs"
  shows "released R g'"
  using assms complete_released [of "op_id op" _ g _ _ R]
  by (auto simp: collect_one_def Let_def omit_released split: operation_status.splits sum.splits prod.splits)

lemma collect_all_released:
  "collect_all ops g s = (Inr g', s') \<Longrightarrow> released R g \<Longrightarrow> \<forall>op \<in> set ops. \<forall>rs. op_status op = Finished (Inr rs) \<longrightarrow> R (op_id op) rs
     \<Longrightarrow> released R g'"
  by (induction ops arbitrary: g s) (auto simp: bindM_Inr aggregated_Inr dest: collect_one_released)

lemma launch_released: "launch p due source jobs g s = (Inr g', s') \<Longrightarrow> released R g \<Longrightarrow> released R g'"
proof (induction p due source jobs g arbitrary: s rule: launch.induct)
  case (2 p due source i job rest g)
  then show ?case by (auto simp: bindM_Inr aggregated_Inr split: if_splits) (metis omit_released)+
qed simp

text \<open>The run starts without tasks; the tasks it adds keep the invariant of released output.\<close>

lemma collect_models_released:
  assumes "collect_models p ctx due sch g s = (Inr g', s')" and "list_all (task_validated p r ctx) (ru_tasks s)"
    and "released (accepted_for p r ctx) g"
  shows "released (accepted_for p r ctx) g'"
proof (cases "ru_tasks s = []")
  case True
  with assms show ?thesis by (simp add: collect_models_def)
next
  case False
  with assms(1) obtain left s1 where run: "remaining p due s = (Inr left, s1)"
      "collect_all (let ranked = sort_key (\<lambda>op. sc_rank sch (op_id op)) (ru_tasks (run_steps p ctx (sc_steps sch) s1)) in
        filter ended ranked @ filter (\<lambda>op. \<not> ended op) ranked) g (run_steps p ctx (sc_steps sch) s1) = (Inr g', s')"
    by (auto simp: collect_models_def bindM_Inr Let_def)
  have "list_all (task_validated p r ctx) (ru_tasks s1)"
    using release.keeps_run [OF release.keeps_remaining assms(2), of due] run(1) by simp
  from release.run_steps_keeps [OF this, of "sc_steps sch"]
  have "\<forall>op \<in> set (ru_tasks (run_steps p ctx (sc_steps sch) s1)). \<forall>rs. op_status op = Finished (Inr rs)
      \<longrightarrow> accepted_for p r ctx (op_id op) rs"
    by (auto simp: list_all_iff task_validated_def accepted_for_def)
  then show ?thesis by (intro collect_all_released [OF run(2) assms(3)]) (auto simp: Let_def)
qed

lemma unprepared_released: "unprepared r t source failure s = (Inr g, s') \<Longrightarrow> released R g"
  by (auto simp: unprepared_def bindM_Inr liftR_def aggregated_Inr omit_released elim!: complete_released intro: fresh_released)

lemma run_task_request_released:
  assumes "run_task_request p sch r t ctx due source s = (Inr g, s')" and "ru_tasks s = []"
  shows "released (accepted_for p r ctx) g"
proof (cases "ip_tasks p")
  case None
  with assms show ?thesis by (auto simp: run_task_request_def intro: unprepared_released)
next
  case (Some tp)
  with assms(1) obtain x s1 where prep: "in_world (tp_prepare tp t source ctx) s = (Inr x, s1)"
    and run: "(case x of Inl f \<Rightarrow> unprepared r t source (Some f)
          | Inr pt \<Rightarrow> bindM (liftR (aggregator_init (query_id r # map pack_id (pt_packs pt)))) (\<lambda>g.
              bindM (aggregated (ag_complete (query_id r) (ReadResult source)) g) (\<lambda>g.
                run_task_models p sch pt ctx due source g))) s1 = (Inr g, s')"
    by (auto simp: run_task_request_def bindM_Inr)
  show ?thesis
  proof (cases x)
    case (Inl f)
    with run show ?thesis by (auto intro: unprepared_released)
  next
    case (Inr pt)
    with run obtain g0 u g1 g2 s2 where steps: "aggregator_init (query_id r # map pack_id (pt_packs pt)) = Inr g0"
        "ag_complete (query_id r) (ReadResult source) g0 = (Inr u, g1)" "launch p due source (pack_jobs pt) g1 s1 = (Inr g2, s2)"
        "collect_models p ctx due sch g2 s2 = (Inr g, s')"
      by (auto simp: bindM_Inr aggregated_Inr run_task_models_def split: if_splits)
    have g2: "released (accepted_for p r ctx) g2"
      by (rule launch_released [OF steps(3)]) (auto intro: complete_released [OF steps(2)] fresh_released [OF steps(1)])
    have jobs: "\<forall>(i, job) \<in> set (pack_jobs pt). known_job p r i job"
      using prep Inr Some by (auto simp: known_job_def in_world_def split: prod.splits)
    have "ru_tasks s1 = []" using prep assms(2) in_world_frame(2) by (metis snd_conv)
    then have "list_all (task_validated p r ctx) (ru_tasks (snd (launch p due source (pack_jobs pt) g1 s1)))"
      by (intro release.keeps_run [OF release.keeps_launch [OF jobs]]) simp
    with steps(3) have "list_all (task_validated p r ctx) (ru_tasks s2)" by simp
    then show ?thesis by (rule collect_models_released [OF steps(4) _ g2])
  qed
qed

lemma run_read_released:
  assumes "run_read p sch r ctx due g s = (Inr g', s')" and "ru_tasks s = []" and "released (accepted_for p r ctx) g"
  shows "released (accepted_for p r ctx) g'"
proof (cases "sc_read_in_time sch")
  case False
  with assms show ?thesis by (auto simp: run_read_def aggregated_Inr finalize_pending_def omit_each_released)
next
  case True
  obtain x s1 where read: "read_source p r ctx s = (x, s1)" by fastforce
  have tasks: "ru_tasks s1 = []"
  proof -
    have "ru_tasks (snd (read_source p r ctx s)) = ru_tasks s"
      by (simp add: read_source_def bindM_def case_prod_beta split: sum.split)
    with read assms(2) show ?thesis by simp
  qed
  then have s1: "list_all (task_validated p r ctx) (ru_tasks s1)" by simp
  show ?thesis
  proof (cases x)
    case (Inl e)
    with True read assms(1,3) show ?thesis
      by (auto simp: run_read_def bindM_Inr aggregated_Inr omit_released omit_each_released)
  next
    case (Inr source)
    show ?thesis
    proof (cases "ir_task r")
      case None
      with True read Inr assms(1) obtain u g1 g2 s2 where steps: "ag_complete (query_id r) (ReadResult source) g = (Inr u, g1)"
          "launch p due source (model_jobs r) g1 s1 = (Inr g2, s2)" "collect_models p ctx due sch g2 s2 = (Inr g', s')"
        by (auto simp: run_read_def run_models_def bindM_Inr aggregated_Inr)
      have g2: "released (accepted_for p r ctx) g2"
        by (rule launch_released [OF steps(2)]) (auto intro: complete_released [OF steps(1) assms(3)])
      have "\<forall>(i, job) \<in> set (model_jobs r). known_job p r i job" by (auto simp: known_job_def)
      from release.keeps_run [OF release.keeps_launch [OF this] s1] steps(2)
      have "list_all (task_validated p r ctx) (ru_tasks s2)" by (metis snd_conv)
      then show ?thesis by (rule collect_models_released [OF steps(3) _ g2])
    next
      case (Some t)
      with True read Inr assms(1) show ?thesis using run_task_request_released [OF _ tasks] by (simp add: run_read_def)
    qed
  qed
qed

section \<open>The response\<close>

lemma response_of_Inr: "response_of request due emitted ver metrics g = Inr x \<Longrightarrow> \<not> blank request"
  by (auto simp: response_of_def bindR_Inr InteractiveResponse_post_def split: if_splits)

lemma post_keeps: "InteractiveResponse_post x = Inr y \<Longrightarrow> InteractiveResponse_post y = Inr y"
  by (cases "blank (rs_request_id x)"; cases "rs_complete x = (rs_incompleteness x = [])"; cases "rs_complete x = (rs_terminal_reason x = TR_COMPLETE)")
    (auto simp: InteractiveResponse_post_def split: if_splits)

lemma finished_response_Inr:
  assumes "response_of request due emitted ver metrics g = Inr resp" and "aggregator_ok g" and "ag_pending g = []"
  shows "consistent_response (ag_operation_ids g) resp \<and> rs_results resp = aggregated_results g \<and> rs_request_id resp = request
    \<and> rs_deadline resp = due \<and> rs_emitted_at resp = emitted \<and> rs_metrics resp = metrics"
  using finished_response [OF assms(2,3) response_of_Inr [OF assms(1)], of due emitted ver metrics] assms(1) by auto

lemma dt_less_self: "dt_less t t = Inr False"
  by (cases t) simp_all

lemma emit_response_Inr:
  assumes "emit_response p r ctx due started g s = (Inr resp, s')"
  shows "\<exists>g' emitted metrics. finalize_pending TR_DEADLINE_EXCEEDED g = (Inr (), g')
    \<and> response_of (request_id r) due emitted (version (reference (ctx_configuration ctx))) metrics g' = Inr resp
    \<and> dt_less due emitted = Inr False \<and> xm_late_completion_count metrics = ru_late_completions s"
proof -
  from assms obtain c s1 g' now s2 b cancel s3 latency where run: "cancel_pending p s = (Inr c, s1)"
      "finalize_pending TR_DEADLINE_EXCEEDED g = (Inr (), g')" "in_world (ip_now p) s1 = (Inr now, s2)"
      "dt_less due now = Inr b" "cancellation_ms p c s2 = (Inr cancel, s3)"
      "dt_diff (if b then due else now) started = Inr latency"
      "response_of (request_id r) due (if b then due else now) (version (reference (ctx_configuration ctx)))
         (measured latency cancel s3) g' = Inr resp"
    by (auto simp: emit_response_def bindM_Inr aggregated_Inr liftR_def bindR_Inr)
  have "ru_late_completions s1 = ru_late_completions s"
    using late.keeps_run [OF late.keeps_cancel, of s "ru_late_completions s" p] run(1) by simp
  then have "ru_late_completions s2 = ru_late_completions s" using in_world_frame(1) [of "ip_now p" s1] run(3) by simp
  then have "ru_late_completions s3 = ru_late_completions s"
    using late.keeps_run [OF late.keeps_cancellation_ms, of s2 "ru_late_completions s" p c] run(5) by simp
  moreover have "dt_less due (if b then due else now) = Inr False" using run(4) by (cases b) (simp_all add: dt_less_self)
  moreover have "xm_late_completion_count (measured latency cancel s3) = ru_late_completions s3" by (simp add: measured_def)
  ultimately show ?thesis using run(2,7) by metis
qed

lemma response_operations_named: "response_operations p r ids \<Longrightarrow> list_all (\<lambda>i. \<not> blank i) ids"
  using initial_ids_named by (auto simp: response_operations_def task_operations_def list_all_iff)

lemma execute_Inr:
  assumes "execute p sch r ctx (run_init w) = (Inr resp, s')"
  shows "\<exists>g. aggregator_ok g \<and> ag_pending g = [] \<and> response_operations p r (ag_operation_ids g) \<and> released (accepted_for p r ctx) g
    \<and> (\<exists>emitted metrics. dt_less (the (deadline (timing ctx))) emitted = Inr False \<and> xm_late_completion_count metrics = 0
       \<and> response_of (request_id r) (the (deadline (timing ctx))) emitted (version (reference (ctx_configuration ctx)))
           metrics g = Inr resp)"
proof -
  from assms obtain due where due: "deadline (timing ctx) = Some due" by (cases "deadline (timing ctx)") (auto simp: execute_def)
  with assms obtain g0 started s1 left s2 g s3 where run: "aggregator_init (initial_operation_ids r) = Inr g0"
      "in_world (ip_now p) (run_init w) = (Inr started, s1)" "remaining p due s1 = (Inr left, s2)"
      "(if no_time_left p left then aggregated (finalize_pending TR_DEADLINE_EXCEEDED) g0 else run_read p sch r ctx due g0) s2 = (Inr g, s3)"
      "emit_response p r ctx due started g s3 = (Inr resp, s')"
    by (auto simp: execute_def bindM_Inr liftR_def)
  have g0: "aggregator_ok g0" "ag_operation_ids g0 = initial_operation_ids r" using aggregator_init_ok [OF run(1)] by simp_all
  have init: "ru_tasks s2 = []" "ru_late_completions s2 = 0"
  proof -
    have r: "snd (remaining p due s1) = s2" "snd (in_world (ip_now p) (run_init w)) = s1" using run(2,3) by simp_all
    have "ru_tasks (snd (remaining p due s1)) = ru_tasks s1" "ru_late_completions (snd (remaining p due s1)) = ru_late_completions s1"
      by (simp_all add: remaining_def bindM_def case_prod_beta split: sum.split)
    with r show "ru_tasks s2 = []" "ru_late_completions s2 = 0"
      using in_world_frame(1,2) [of "ip_now p" "run_init w"] by (simp_all add: run_init_def)
  qed
  have g: "aggregator_ok g \<and> response_operations p r (ag_operation_ids g) \<and> released (accepted_for p r ctx) g"
  proof (cases "no_time_left p left")
    case True
    with run(4) obtain u where omitted: "omit_each TR_DEADLINE_EXCEEDED OS_INCOMPLETE (ag_pending g0) g0 = (Inr u, g)"
      by (auto simp: aggregated_Inr finalize_pending_def)
    from omit_each_Inr [OF omitted] omit_each_released [OF omitted] fresh_released [OF run(1), of "accepted_for p r ctx"] g0
    show ?thesis by (simp add: response_operations_def)
  next
    case False
    with run(4) have read: "run_read p sch r ctx due g0 s2 = (Inr g, s3)" by simp
    show ?thesis using run_read_Inr [OF read g0] run_read_released [OF read init(1) fresh_released [OF run(1)]] by simp
  qed
  have late: "ru_late_completions s3 = 0"
  proof -
    have "ru_late_completions (snd (run_read p sch r ctx due g0 s2)) = 0"
      by (rule late.keeps_run [OF late.keeps_run_read]) (simp_all add: init)
    with run(4) init show ?thesis by (auto simp: aggregated_Inr split: if_splits)
  qed
  from emit_response_Inr [OF run(5)] obtain g' emitted metrics where emit:
      "finalize_pending TR_DEADLINE_EXCEEDED g = (Inr (), g')" "dt_less due emitted = Inr False"
      "xm_late_completion_count metrics = ru_late_completions s3"
      "response_of (request_id r) due emitted (version (reference (ctx_configuration ctx))) metrics g' = Inr resp"
    by blast
  from finalize_pending_ok [of g TR_DEADLINE_EXCEEDED] g response_operations_named [of p r "ag_operation_ids g"] emit(1)
  have "aggregator_ok g'" "ag_operation_ids g' = ag_operation_ids g" "ag_pending g' = []" "ag_results g' = ag_results g" by auto
  with g have "aggregator_ok g' \<and> ag_pending g' = [] \<and> response_operations p r (ag_operation_ids g') \<and> released (accepted_for p r ctx) g'"
    by (simp add: released_def)
  moreover have "xm_late_completion_count metrics = 0" using emit(3) late by simp
  ultimately show ?thesis using emit(2,4) unfolding due option.sel by blast
qed

end
