(* ===== verification/Interactive_Liveness.thy ===== *)
theory Interactive_Liveness
  imports Interactive_Response
begin

text \<open>
  The coordinator of \<open>interactive/coordinator.py\<close> always answers: with a clock that works and a
  task pipeline that does not raise, \<open>execute\<close> returns a response on every schedule, whatever
  the data access, the planner, the budget, the executor, the validator and the telemetry do.
\<close>

declare map_of_eq_Some_iff [simp del]

definition clock_ok :: "'w interactive_ports \<Rightarrow> bool" where
  "clock_ok p \<longleftrightarrow> (\<forall>w. \<exists>t. fst (ip_now p w) = Inr (Aware t))"

text \<open>What the pipeline prepares has passed the check of its constructor.\<close>

definition pipeline_ok :: "'w interactive_ports \<Rightarrow> bool" where
  "pipeline_ok p \<longleftrightarrow> (\<forall>tp t source ctx w. ip_tasks p = Some tp \<longrightarrow> (case fst (tp_prepare tp t source ctx w) of
     Inl _ \<Rightarrow> False | Inr (Inl _) \<Rightarrow> True | Inr (Inr pt) \<Rightarrow> PreparedTask_post pt = Inr pt))"

lemma now_ok: "clock_ok p \<Longrightarrow> \<exists>t s'. in_world (ip_now p) s = (Inr (Aware t), s') \<and> ru_tasks s' = ru_tasks s"
  unfolding clock_ok_def in_world_def by (cases "ip_now p (ru_world s)") (auto dest: spec [of _ "ru_world s"])

lemma remaining_ok: "clock_ok p \<Longrightarrow> \<exists>left s'. remaining p (Aware d) s = (Inr left, s') \<and> ru_tasks s' = ru_tasks s"
  using now_ok [of p s] by (auto simp: remaining_def bindM_def liftR_def)

section \<open>Launching and collecting\<close>

text \<open>An aggregator of which these operations are pending, in a state from which a run of
  \<open>ag_complete\<close> and \<open>ag_omit\<close> on them cannot fail.\<close>

definition awaits :: "string list \<Rightarrow> operation_value aggregator \<Rightarrow> bool" where
  "awaits ids g \<longleftrightarrow> aggregator_ok g \<and> distinct ids \<and> set ids \<subseteq> set (ag_pending g) \<and> list_all (\<lambda>i. \<not> blank i) ids"

lemma awaits_complete:
  assumes "awaits (i # ids) g"
  shows "\<exists>g'. ag_complete i v g = (Inr (), g') \<and> awaits ids g'"
proof -
  have ok: "aggregator_ok g" and i: "i \<in> set (ag_pending g)" using assms by (simp_all add: awaits_def)
  show ?thesis unfolding ag_complete_pending [OF i] using outcome_recorded(1,2) [OF ok i] assms by (auto simp: awaits_def)
qed

lemma awaits_omit:
  assumes "awaits (i # ids) g" and "st \<noteq> OS_COMPLETED" and "reason \<noteq> TR_COMPLETE"
  shows "\<exists>g'. ag_omit i reason ds st g = (Inr (), g') \<and> awaits ids g'"
proof -
  have ok: "aggregator_ok g" and i: "i \<in> set (ag_pending g)" "\<not> blank i" using assms(1) by (simp_all add: awaits_def)
  show ?thesis unfolding ag_omit_pending [OF i assms(2)]
    using outcome_recorded(3) [OF ok i(1) assms(2,3)] outcome_recorded(4) [OF ok i(1)] assms(1) by (auto simp: awaits_def)
qed

lemma awaits_same: "awaits ids g \<Longrightarrow> set ids' = set ids \<Longrightarrow> distinct ids' \<Longrightarrow> awaits ids' g"
  by (auto simp: awaits_def list_all_iff)

lemma collect_one_ok:
  assumes "awaits (op_id op # ids) g" shows "\<exists>g'. collect_one op g = (Inr (), g') \<and> awaits ids g'"
proof -
  have omitted: "\<exists>g'. ag_omit (op_id op) reason ds OS_OMITTED g = (Inr (), g') \<and> awaits ids g'" if "reason \<noteq> TR_COMPLETE" for reason ds
    using awaits_omit [OF assms, of OS_OMITTED reason ds] that by simp
  show ?thesis
  proof (cases "\<exists>rs. op_status op = Finished (Inr rs)")
    case True
    then obtain rs g' where "op_status op = Finished (Inr rs)" "ag_complete (op_id op) (AcceptedRecords rs) g = (Inr (), g')" "awaits ids g'"
      using awaits_complete [OF assms] by blast
    then show ?thesis by (simp add: collect_one_def)
  next
    case False
    have "\<exists>reason ds. collect_one op g = ag_omit (op_id op) reason ds OS_OMITTED g \<and> reason \<noteq> TR_COMPLETE"
    proof (cases "op_status op")
      case (Finished out)
      with False obtain x where "out = Inl x" by (cases out) auto
      with Finished show ?thesis
        by (intro exI [of _ "error_reason x"] exI [of _ "error_details x"]) (simp add: collect_one_def)
    qed (auto simp: collect_one_def)
    with omitted show ?thesis by auto
  qed
qed

lemma collect_all_ok: "awaits (map op_id ops) g \<Longrightarrow> \<exists>g'. collect_all ops g s = (Inr g', s) \<and> aggregator_ok g'"
proof (induction ops arbitrary: g)
  case (Cons op ops)
  then obtain g1 where "collect_one op g = (Inr (), g1)" "awaits (map op_id ops) g1" using collect_one_ok by fastforce
  with Cons.IH show ?case by (auto simp: bindM_def aggregated_def)
qed (simp add: awaits_def)

lemma launch_ok:
  assumes "clock_ok p"
  shows "awaits (map fst jobs @ ids) g \<Longrightarrow> \<exists>g' s' added. launch p (Aware d) source jobs g s = (Inr g', s')
    \<and> ru_tasks s' = ru_tasks s @ added \<and> awaits (ids @ map op_id added) g'"
proof (induction jobs arbitrary: ids g s)
  case (Cons ij jobs)
  obtain i job where ij: "ij = (i, job)" by fastforce
  obtain left s1 where rem: "remaining p (Aware d) s = (Inr left, s1)" "ru_tasks s1 = ru_tasks s" using remaining_ok [OF assms] by blast
  show ?case
  proof (cases "no_time_left p left")
    case True
    from awaits_omit [of i "map fst jobs @ ids" g OS_OMITTED TR_DEADLINE_EXCEEDED "[]"] Cons.prems ij
    obtain g1 where g1: "ag_omit i TR_DEADLINE_EXCEEDED [] OS_OMITTED g = (Inr (), g1)" "awaits (map fst jobs @ ids) g1" by auto
    from Cons.IH [OF g1(2), of s1] show ?thesis using rem True g1(1) ij by (auto simp: bindM_def aggregated_def)
  next
    case False
    let ?s = "add_task \<lparr>op_id = i, op_job = job, op_source = source, op_status = Unstarted\<rparr> s1"
    have "awaits (map fst jobs @ (ids @ [i])) g" using Cons.prems ij by (intro awaits_same [OF Cons.prems]) (auto simp: awaits_def)
    from Cons.IH [OF this, of ?s] obtain g' s' added where run: "launch p (Aware d) source jobs g ?s = (Inr g', s')"
        "ru_tasks s' = ru_tasks ?s @ added" "awaits ((ids @ [i]) @ map op_id added) g'" by blast
    then show ?thesis using rem False ij
      by (intro exI [of _ g'] exI [of _ s'] exI [of _ "\<lparr>op_id = i, op_job = job, op_source = source, op_status = Unstarted\<rparr> # added"])
        (auto simp: bindM_def add_task_def)
  qed
qed (auto simp: pureM_def)

lemma resume_ids: "map op_id (ru_tasks (resume p ctx n s)) = map op_id (ru_tasks s)"
  using start_same [of s p ctx "op_id (ru_tasks s ! n)" "op_job (ru_tasks s ! n)"]
    finish_same [of s p ctx "op_job (ru_tasks s ! n)" "op_source (ru_tasks s ! n)"]
  by (auto simp: resume_def Let_def case_prod_beta same_tasks_def map_update split: operation_status.split
      intro!: list_update_same_conv [THEN iffD2])

lemma run_steps_ids: "map op_id (ru_tasks (run_steps p ctx steps s)) = map op_id (ru_tasks s)"
  unfolding run_steps_def by (induction steps arbitrary: s) (simp_all add: resume_ids)

lemma collect_models_ok:
  assumes "clock_ok p" and "awaits (map op_id (ru_tasks s)) g"
  shows "\<exists>g' s'. collect_models p ctx (Aware d) sch g s = (Inr g', s') \<and> aggregator_ok g'"
proof (cases "ru_tasks s = []")
  case True
  with assms(2) show ?thesis by (simp add: collect_models_def awaits_def)
next
  case False
  obtain left s1 where rem: "remaining p (Aware d) s = (Inr left, s1)" "ru_tasks s1 = ru_tasks s" using remaining_ok [OF assms(1)] by blast
  let ?s = "run_steps p ctx (sc_steps sch) s1"
  let ?ranked = "sort_key (\<lambda>op. sc_rank sch (op_id op)) (ru_tasks ?s)"
  let ?ops = "filter ended ?ranked @ filter (\<lambda>op. \<not> ended op) ?ranked"
  have "mset ?ops = mset (ru_tasks ?s)" by simp
  then have "mset (map op_id ?ops) = mset (map op_id (ru_tasks s))"
    using run_steps_ids [of p ctx "sc_steps sch" s1] rem(2) by (metis mset_map)
  then have "awaits (map op_id ?ops) g"
    by (intro awaits_same [OF assms(2)]) (metis set_mset_mset, metis assms(2) awaits_def mset_eq_imp_distinct_iff)
  from collect_all_ok [OF this, of ?s] False rem(1) show ?thesis by (auto simp: collect_models_def bindM_def Let_def)
qed

section \<open>The run\<close>

lemma aggregated_ok: "m g = (Inr u, g') \<Longrightarrow> aggregated m g s = (Inr g', s)"
  by (simp add: aggregated_def)

lemma initial_awaits:
  "ids \<noteq> [] \<Longrightarrow> distinct ids \<Longrightarrow> list_all (\<lambda>i. \<not> blank i) ids \<Longrightarrow> \<exists>g. aggregator_init ids = Inr g \<and> awaits ids g"
  by (simp add: awaits_def ag_pending_def)

lemma unprepared_ok: "\<exists>g. unprepared r t source failure s = (Inr g, s) \<and> aggregator_ok g"
proof -
  obtain g where g: "aggregator_init [query_id r, task_preparation_id t] = Inr g" "awaits [query_id r, task_preparation_id t] g"
    using initial_awaits [of "[query_id r, task_preparation_id t]"] by auto
  obtain g1 where g1: "ag_complete (query_id r) (ReadResult source) g = (Inr (), g1)" "awaits [task_preparation_id t] g1"
    using awaits_complete [OF g(2)] by blast
  obtain g2 where g2: "ag_omit (task_preparation_id t) TR_VALIDATION_FAILED (task_failure_details failure) OS_OMITTED g1 = (Inr (), g2)"
      "awaits [] g2" using awaits_omit [OF g1(2), of OS_OMITTED] by blast
  from g g1 g2 show ?thesis by (auto simp: unprepared_def bindM_def liftR_def aggregated_def awaits_def)
qed

lemma launched_ok:
  assumes "clock_ok p" and "awaits (map fst jobs) g" and "ru_tasks s = []"
  shows "\<exists>g' s'. bindM (launch p (Aware d) source jobs g) (collect_models p ctx (Aware d) sch) s = (Inr g', s') \<and> aggregator_ok g'"
proof -
  from launch_ok [OF assms(1), of jobs "[]" g d source s] assms(2,3) obtain g1 s1 where run:
      "launch p (Aware d) source jobs g s = (Inr g1, s1)" "awaits (map op_id (ru_tasks s1)) g1" by auto
  from collect_models_ok [OF assms(1) run(2), of ctx d sch] run(1) show ?thesis by (auto simp: bindM_def)
qed

lemma pack_jobs_ids: "length (pt_packs t) = length (pt_model_work t) \<Longrightarrow> map fst (pack_jobs t) = map pack_id (pt_packs t)"
  by (simp add: pack_jobs_def case_prod_beta comp_def map_fst_zip flip: map_map [of pack_id fst, unfolded comp_def])

lemma run_task_request_ok:
  assumes "clock_ok p" and "pipeline_ok p" and "ru_tasks s = []"
  shows "\<exists>g s'. run_task_request p sch r t ctx (Aware d) source s = (Inr g, s') \<and> aggregator_ok g"
proof (cases "ip_tasks p")
  case None
  then show ?thesis using unprepared_ok [of r t source None s] by (auto simp: run_task_request_def)
next
  case (Some tp)
  obtain x w' where prep: "tp_prepare tp t source ctx (ru_world s) = (x, w')" by fastforce
  let ?s = "s\<lparr>ru_world := w'\<rparr>"
  from assms(2) Some have "case fst (tp_prepare tp t source ctx (ru_world s)) of Inl _ \<Rightarrow> False | Inr (Inl _) \<Rightarrow> True
      | Inr (Inr pt) \<Rightarrow> PreparedTask_post pt = Inr pt" unfolding pipeline_ok_def by blast
  with prep consider f where "x = Inr (Inl f)" | pt where "x = Inr (Inr pt)" "PreparedTask_post pt = Inr pt"
    by (auto split: sum.splits)
  then show ?thesis
  proof cases
    case 1
    then show ?thesis using unprepared_ok [of r t source "Some f" ?s] Some prep by (auto simp: run_task_request_def in_world_def bindM_run)
  next
    case 2
    note packs = pack_ids_distinct [OF 2(2)]
    have "query_id r \<notin> pack_id ` set (pt_packs pt)" by auto
    then have "distinct (query_id r # map pack_id (pt_packs pt))" using packs(1) by simp
    then obtain g where g: "aggregator_init (query_id r # map pack_id (pt_packs pt)) = Inr g" "awaits (query_id r # map pack_id (pt_packs pt)) g"
      using initial_awaits [of "query_id r # map pack_id (pt_packs pt)"] by (auto simp: list_all_iff)
    obtain g1 where g1: "ag_complete (query_id r) (ReadResult source) g = (Inr (), g1)" "awaits (map pack_id (pt_packs pt)) g1"
      using awaits_complete [OF g(2)] by blast
    from launched_ok [OF assms(1), of "pack_jobs pt" g1 ?s d source ctx sch] g1(2) assms(3) pack_jobs_ids [OF packs(2)]
    obtain g' s' where "bindM (launch p (Aware d) source (pack_jobs pt) g1) (collect_models p ctx (Aware d) sch) ?s = (Inr g', s')"
        "aggregator_ok g'" by auto
    then show ?thesis using Some prep 2(1) g(1) g1(1) packs(2)
      by (auto simp: run_task_request_def in_world_def bindM_run run_task_models_def aggregated_def liftR_def)
  qed
qed

lemma read_source_tasks: "read_source p r ctx s = (x, s1) \<Longrightarrow> ru_tasks s1 = ru_tasks s"
proof -
  have "ru_tasks (snd (read_source p r ctx s)) = ru_tasks s" by (simp add: read_source_def bindM_def case_prod_beta split: sum.split)
  then show "read_source p r ctx s = (x, s1) \<Longrightarrow> ru_tasks s1 = ru_tasks s" by simp
qed

lemma run_read_ok:
  assumes "clock_ok p" and "pipeline_ok p" and "ru_tasks s = []" and "awaits (initial_operation_ids r) g"
    and "ag_operation_ids g = initial_operation_ids r"
  shows "\<exists>g' s'. run_read p sch r ctx (Aware d) g s = (Inr g', s') \<and> aggregator_ok g'"
proof (cases "sc_read_in_time sch")
  case False
  from finalize_pending_ok [of g TR_DEADLINE_EXCEEDED] assms(4,5) initial_ids_named [of r]
  obtain g' where "finalize_pending TR_DEADLINE_EXCEEDED g = (Inr (), g')" "aggregator_ok g'" by (auto simp: awaits_def)
  with False show ?thesis by (simp add: run_read_def aggregated_def)
next
  case True
  obtain x s1 where read: "read_source p r ctx s = (x, s1)" by fastforce
  have tasks: "ru_tasks s1 = []" using read_source_tasks [OF read] assms(3) by simp
  have "\<exists>rest. initial_operation_ids r = query_id r # rest" by (simp add: initial_operation_ids_def split: option.split)
  then obtain rest where ids: "initial_operation_ids r = query_id r # rest" by blast
  show ?thesis
  proof (cases x)
    case (Inl e)
    obtain g1 where g1: "ag_omit (query_id r) (error_reason (Raised e)) (error_details (Raised e)) OS_OMITTED g = (Inr (), g1)" "awaits rest g1"
      using awaits_omit [OF assms(4) [unfolded ids], of OS_OMITTED] by (metis error_reason_incomplete operation_state.distinct(1))
    have ids1: "ag_operation_ids g1 = initial_operation_ids r"
      using ag_omit_Inr [OF g1(1)] assms(4,5) by (simp add: awaits_def)
    from omit_each_ok [of g1 "ag_pending g1" OS_OMITTED TR_DEPENDENCY_FAILED] g1(2) initial_ids_named [of r] ids1
    obtain g2 where "omit_each TR_DEPENDENCY_FAILED OS_OMITTED (ag_pending g1) g1 = (Inr (), g2)" "aggregator_ok g2"
      by (auto simp: awaits_def aggregator_ok_def ag_pending_def list_all_iff)
    with True read Inl g1(1) show ?thesis by (simp add: run_read_def bindM_def aggregated_def)
  next
    case (Inr source)
    show ?thesis
    proof (cases "ir_task r")
      case None
      obtain g1 where g1: "ag_complete (query_id r) (ReadResult source) g = (Inr (), g1)" "awaits rest g1"
        using awaits_complete [OF assms(4) [unfolded ids]] by blast
      have "rest = map fst (model_jobs r)" using ids None by (simp add: initial_operation_ids_def model_ids)
      with launched_ok [OF assms(1) _ tasks, of "model_jobs r" g1 d source ctx sch] g1(2) obtain g' s' where
        "bindM (launch p (Aware d) source (model_jobs r) g1) (collect_models p ctx (Aware d) sch) s1 = (Inr g', s')" "aggregator_ok g'" by auto
      then show ?thesis using True read Inr None g1(1) by (simp add: run_read_def bindM_run aggregated_def run_models_def)
    next
      case (Some t)
      with True read Inr show ?thesis using run_task_request_ok [OF assms(1,2) tasks, of sch r t ctx d source] by (simp add: run_read_def)
    qed
  qed
qed

lemma cancel_pending_ok: "\<exists>c s'. cancel_pending p s = (Inr c, s')"
  by (simp add: cancel_pending_def bindM_def monotonic_def case_prod_beta)

lemma cancellation_ms_ok: "\<exists>c s'. cancellation_ms p x s = (Inr c, s')"
  by (simp add: cancellation_ms_def bindM_def monotonic_def case_prod_beta)

lemma emit_response_ok:
  assumes "clock_ok p" and "aggregator_ok g" and "list_all (\<lambda>i. \<not> blank i) (ag_operation_ids g)" and "\<not> blank (request_id r)"
  shows "\<exists>resp s'. emit_response p r ctx (Aware d) (Aware t) g s = (Inr resp, s')"
proof -
  obtain c s1 where c: "cancel_pending p s = (Inr c, s1)" using cancel_pending_ok by blast
  obtain g' where g': "finalize_pending TR_DEADLINE_EXCEEDED g = (Inr (), g')" "aggregator_ok g'" "ag_pending g' = []"
    using finalize_pending_ok [OF assms(2,3), of TR_DEADLINE_EXCEEDED] by auto
  obtain now s2 where now: "in_world (ip_now p) s1 = (Inr (Aware now), s2)" using now_ok [OF assms(1)] by blast
  obtain m s3 where m: "cancellation_ms p c s2 = (Inr m, s3)" using cancellation_ms_ok by blast
  let ?e = "if d < now then Aware d else Aware now"
  obtain l where l: "dt_diff ?e (Aware t) = Inr l" by (cases "d < now") auto
  obtain resp where "response_of (request_id r) (Aware d) ?e (version (reference (ctx_configuration ctx))) (measured l m s3) g' = Inr resp"
    using finished_response [OF g'(2,3) assms(4)] by blast
  with c g'(1) now m l show ?thesis by (simp add: emit_response_def bindM_def aggregated_def liftR_def)
qed

lemma execute_ok:
  assumes "clock_ok p" and "pipeline_ok p" and "deadline (timing ctx) = Some (Aware d)" and "\<not> blank (request_id r)"
  shows "\<exists>resp s'. execute p sch r ctx (run_init w) = (Inr resp, s')"
proof -
  obtain g0 where g0: "aggregator_init (initial_operation_ids r) = Inr g0" "awaits (initial_operation_ids r) g0"
    using initial_awaits [OF initial_ids_nonempty initial_ids_distinct initial_ids_named] by blast
  have ok0: "aggregator_ok g0" "ag_operation_ids g0 = initial_operation_ids r" using aggregator_init_ok [OF g0(1)] by simp_all
  obtain t s1 where now: "in_world (ip_now p) (run_init w) = (Inr (Aware t), s1)" "ru_tasks s1 = []"
    using now_ok [OF assms(1), of "run_init w"] by (auto simp: run_init_def)
  obtain left s2 where rem: "remaining p (Aware d) s1 = (Inr left, s2)" "ru_tasks s2 = []"
    using remaining_ok [OF assms(1), of d s1] now(2) by auto
  have "\<exists>g s3. (if no_time_left p left then aggregated (finalize_pending TR_DEADLINE_EXCEEDED) g0
      else run_read p sch r ctx (Aware d) g0) s2 = (Inr g, s3) \<and> aggregator_ok g \<and> response_operations p r (ag_operation_ids g)"
  proof (cases "no_time_left p left")
    case True
    from finalize_pending_ok [OF ok0(1), of TR_DEADLINE_EXCEEDED] ok0(2) initial_ids_named [of r]
    obtain g where "finalize_pending TR_DEADLINE_EXCEEDED g0 = (Inr (), g)" "aggregator_ok g" "ag_operation_ids g = ag_operation_ids g0" by auto
    with True ok0(2) show ?thesis by (simp add: aggregated_def response_operations_def)
  next
    case False
    from run_read_ok [OF assms(1,2) rem(2) g0(2) ok0(2), of sch ctx d] obtain g s3
      where run: "run_read p sch r ctx (Aware d) g0 s2 = (Inr g, s3)" by blast
    from run_read_Inr [OF run ok0] run False show ?thesis by simp
  qed
  then obtain g s3 where g: "(if no_time_left p left then aggregated (finalize_pending TR_DEADLINE_EXCEEDED) g0
      else run_read p sch r ctx (Aware d) g0) s2 = (Inr g, s3)" "aggregator_ok g" "response_operations p r (ag_operation_ids g)" by blast
  from emit_response_ok [OF assms(1) g(2) response_operations_named [OF g(3)] assms(4), of ctx d t s3] g0(1) now(1) rem(1) g(1)
  show ?thesis by (simp add: execute_def assms(3) bindM_def liftR_def)
qed

section \<open>Properties\<close>

text \<open>C8. The response answers for every operation exactly once. Whatever the ports do and however
  the operations interleave, an emitted response lists each operation of the request, or each
  pack of its prepared task, either in the results or with its incompleteness, in the order
  requested; it is complete exactly when all have results; its reason has the highest priority
  among those listed; it is emitted by the deadline; and its consistency check never fails.\<close>

theorem every_operation_answered:
  assumes "execute p sch r ctx (run_init w) = (Inr resp, s')"
  shows "\<exists>ids. response_operations p r ids \<and> consistent_response ids resp \<and> rs_request_id resp = request_id r
    \<and> deadline (timing ctx) = Some (rs_deadline resp) \<and> dt_less (rs_deadline resp) (rs_emitted_at resp) = Inr False
    \<and> InteractiveResponse_post resp = Inr resp"
proof -
  from execute_Inr [OF assms] obtain g emitted metrics where g: "aggregator_ok g" "ag_pending g = []" "response_operations p r (ag_operation_ids g)"
      "dt_less (the (deadline (timing ctx))) emitted = Inr False"
      "response_of (request_id r) (the (deadline (timing ctx))) emitted (version (reference (ctx_configuration ctx))) metrics g = Inr resp"
    by blast
  from finished_response_Inr [OF g(5,1,2)]
  have resp: "consistent_response (ag_operation_ids g) resp" "rs_request_id resp = request_id r"
      "rs_deadline resp = the (deadline (timing ctx))" "rs_emitted_at resp = emitted" by simp_all
  moreover have "InteractiveResponse_post resp = Inr resp"
    using g(5) by (auto simp: response_of_def bindR_Inr post_keeps)
  moreover have "deadline (timing ctx) \<noteq> None" using assms by (cases "deadline (timing ctx)") (auto simp: execute_def)
  ultimately show ?thesis using g(3,4) by (intro exI [of _ "ag_operation_ids g"]) auto
qed

text \<open>C10. Only validated output is released: records in a response were accepted by the validator
  for the model work of the request under that operation, or by the task pipeline for a pack it
  prepared.\<close>

theorem released_output_validated:
  assumes "execute p sch r ctx (run_init w) = (Inr resp, s')" and "x \<in> set (rs_results resp)" and "or_value x = AcceptedRecords rs"
  shows "\<exists>job. known_job p r (or_operation_id x) job \<and> validated p ctx job rs"
proof -
  from execute_Inr [OF assms(1)] obtain g emitted metrics where g: "aggregator_ok g" "ag_pending g = []" "released (accepted_for p r ctx) g"
      "response_of (request_id r) (the (deadline (timing ctx))) emitted (version (reference (ctx_configuration ctx))) metrics g = Inr resp"
    by blast
  from finished_response_Inr [OF g(4,1,2)] have "rs_results resp = aggregated_results g" by simp
  with assms(2) have "dget (ag_results g) (or_operation_id x) = Some (or_value x)"
    by (auto simp: aggregated_results_def split: option.splits)
  with assms(3) g(3) show ?thesis by (auto simp: released_def accepted_for_def)
qed

text \<open>The count of late completions in a response is always zero: they are counted by
  background tasks that cannot run before the metrics are taken.\<close>

lemma late_completions_unreported:
  assumes "execute p sch r ctx (run_init w) = (Inr resp, s')"
  shows "xm_late_completion_count (rs_metrics resp) = 0"
proof -
  from execute_Inr [OF assms(1)] obtain g emitted metrics where g: "aggregator_ok g" "ag_pending g = []" "xm_late_completion_count metrics = 0"
      "response_of (request_id r) (the (deadline (timing ctx))) emitted (version (reference (ctx_configuration ctx))) metrics g = Inr resp"
    by blast
  from finished_response_Inr [OF g(4,1,2)] have "rs_metrics resp = metrics" by simp
  with g(3) show ?thesis by simp
qed

text \<open>C11. The coordinator always answers: with a working clock, an absolute deadline and a pipeline
  that does not raise, execution returns a response on every schedule, also when reads,
  planning, reservations, invocations, settlements, validation or telemetry raise.\<close>

theorem execution_answers:
  assumes "clock_ok p" and "pipeline_ok p" and "deadline (timing ctx) = Some (Aware d)" and "\<not> blank (request_id r)"
  shows "\<exists>resp s'. execute p sch r ctx (run_init w) = (Inr resp, s')"
  by (rule execute_ok [OF assms])

section \<open>Witnesses\<close>

definition sample_usage_value :: usage where
  "sample_usage_value = \<lparr>cost_minor_units = 1, input_tokens = 2, output_tokens = 3\<rparr>"

definition sample_work :: model_work where
  "sample_work = \<lparr>task_type = ''extract'', payload_reference = ''inline'', mw_input_ids = [''c1''], required_capabilities = {},
     task_definition_version = None, estimated_input_tokens = None, estimated_output_tokens = None\<rparr>"

definition sample_request :: interactive_request where
  "sample_request = \<lparr>request_id = ''r1'', ir_query = \<lparr>qw_plan_id = ''q'', qw_parameters = []\<rparr>, ir_model_work = [sample_work], ir_task = None\<rparr>"

definition sample_source :: normalized_result where
  "sample_source = \<lparr>nr_columns = [], nr_rows = [], nr_affected_rows = None, nr_transaction_outcome = None, nr_adapter_version = ''1'',
     nr_protection = \<lparr>pm_policy_version = ''1'', pm_service_identity = ''s'', pm_transport_encryption = ''t'', pm_persistence_encryption = ''e''\<rparr>\<rparr>"

definition sample_plan_of :: "string \<Rightarrow> model_work \<Rightarrow> execution_context \<Rightarrow> model_plan" where
  "sample_plan_of i w ctx = \<lparr>mp_operation = \<lparr>mo_operation_id = i, mo_tenant_id = ''t'', mo_scope_id = ''s'', mo_path = INTERACTIVE, mo_work = w,
       mo_estimated_total_tokens = 0, mo_minimum_quality = 0, mo_data_classes = {}, mo_deadline = None, mo_completion_reserve_ms = 0\<rparr>,
     mp_candidate = \<lparr>mc_model_id = ''m'', mc_provider_id = ''p'', mc_capabilities = {}, mc_allowed_data_classes = {}, mc_cost_estimate = 1,
       mc_priority = 0, mc_predicted_latency_ms = 0, mc_quality_score = 1\<rparr>,
     mp_lease = \<lparr>lease_operation_id = i, lease_scopes = []\<rparr>, mp_estimate = sample_usage_value\<rparr>"

definition sample_verdict :: validation_result where
  "sample_verdict = \<lparr>vres_outcome = \<lparr>vo_accepted = True, vo_status = VS_ACCEPTED, vo_failed_rule_ids = [], vo_reason_codes = [],
     vo_input_digest = [], vo_output_digest = [], vo_rules_version = ''1''\<rparr>, accepted_records = [[(''id'', VStr ''c1'')]], metadata_recorded = True\<rparr>"

definition sample_ports :: "nat interactive_ports" where
  "sample_ports = \<lparr>ip_read = (\<lambda>_ _ _ w. (Inr sample_source, w)), ip_plan = (\<lambda>i work ctx _ w. (Inr (sample_plan_of i work ctx), w)),
     ip_complete = (\<lambda>_ w. (Inr (), w)),
     ip_reserve = (\<lambda>_ u w. (Inr \<lparr>rd_reservation = Some \<lparr>reservation_id = ''x'', br_execution_id = ''e'', br_scopes = [''s''], estimate = u,
        scope_revisions = [], br_state = ACTIVE\<rparr>, rd_exhaustion = None\<rparr>, w)),
     ip_reconcile = (\<lambda>_ _ w. (Inl (RuntimeError []), w)), ip_invoke = (\<lambda>_ _ _ w. (Inr \<lparr>mi_output = VTuple [], mi_actual_usage = sample_usage_value\<rparr>, w)),
     ip_validate = (\<lambda>_ _ _ w. (Inr sample_verdict, w)), ip_tasks = None, ip_terminal = (\<lambda>_ _ w. (Inl (RuntimeError []), w)),
     ip_late = (\<lambda>_ _ w. (Inr (), w)), ip_now = (\<lambda>w. (Inr (Aware (int w)), Suc w)), ip_monotonic = (\<lambda>w. (of_nat w, Suc w)),
     ip_response_reserve_ms = 50\<rparr>"

definition sample_schedule :: run_schedule where
  "sample_schedule = \<lparr>sc_read_in_time = True, sc_steps = [0, 0], sc_rank = (\<lambda>_. 0)\<rparr>"

definition sample_interactive_context :: execution_context where
  "sample_interactive_context = \<lparr>execution_id = ''e'', correlation_id = ''c'', ctx_path = INTERACTIVE,
     ctx_configuration = ctx_configuration sample_context, timing = \<lparr>accepted_at = Aware 0, deadline = Some (Aware 1000000)\<rparr>,
     cancellation = \<lparr>cc_token = ''x'', cc_timeout_seconds = 1\<rparr>\<rparr>"

lemma sample_clock: "clock_ok sample_ports" "pipeline_ok sample_ports"
  by (simp_all add: clock_ok_def pipeline_ok_def sample_ports_def)

lemma execution_answers_witness:
  "\<exists>resp s'. execute sample_ports sample_schedule sample_request sample_interactive_context (run_init 0) = (Inr resp, s')"
  by (rule execution_answers [OF sample_clock, where d = 1000000])
    (simp_all add: sample_interactive_context_def sample_request_def blank_def py_space_def)

lemma every_operation_answered_witness:
  "\<exists>resp ids. response_operations sample_ports sample_request ids \<and> consistent_response ids (resp :: operation_value interactive_response)"
proof -
  obtain resp s' where "execute sample_ports sample_schedule sample_request sample_interactive_context (run_init 0) = (Inr resp, s')"
    using execute_ok [OF sample_clock, of sample_interactive_context 1000000 sample_request sample_schedule 0]
    by (auto simp: sample_interactive_context_def sample_request_def blank_def py_space_def)
  from every_operation_answered [OF this] show ?thesis by blast
qed

definition settling_ports :: "nat interactive_ports" where
  "settling_ports = sample_ports\<lparr>ip_reconcile := (\<lambda>rid u w. (Inr \<lparr>rr_reservation_id = rid, rr_actual = u, rr_released = u,
     rr_scope_revisions = []\<rparr>, w))\<rparr>"

lemma released_output_validated_witness:
  "\<exists>job. known_job settling_ports sample_request ''model:0:extract'' job
     \<and> validated settling_ports sample_interactive_context job [[(''id'', VStr ''c1'')]]"
proof -
  obtain out s' where run: "execute settling_ports sample_schedule sample_request sample_interactive_context (run_init 0) = (out, s')" by fastforce
  have "case fst (execute settling_ports sample_schedule sample_request sample_interactive_context (run_init 0)) of
      Inl _ \<Rightarrow> False
    | Inr resp \<Rightarrow> list_ex (\<lambda>x. or_operation_id x = ''model:0:extract'' \<and> or_value x = AcceptedRecords [[(''id'', VStr ''c1'')]]) (rs_results resp)"
    by code_simp
  with run obtain resp x where r: "out = Inr resp" "x \<in> set (rs_results resp)" "or_operation_id x = ''model:0:extract''"
      "or_value x = AcceptedRecords [[(''id'', VStr ''c1'')]]" by (auto simp: list_ex_iff split: sum.splits)
  from released_output_validated [OF run [unfolded r(1)] r(2,4)] r(3) show ?thesis by simp
qed

end
