(* ===== verification/Interactive_Ports.thy ===== *)
theory Interactive_Ports
  imports Interactive_Run Security Budget_Accounting
begin

text \<open>
  \<open>interactive/integration.py\<close>: the adapters that put the router, the security gateway, the budget
  controller, the relational read path and the telemetry behind the ports of the interactive
  coordinator. Their common world has the ledger, the capacity and the state of everything
  that is outside the repository.
\<close>

declare map_of_eq_Some_iff [simp del]

record 'x interactive_world =
  iw_budget :: budget_controller
  iw_capacity :: capacity
  iw_rest :: 'x

definition on_budget :: "(budget_controller, 'a) meth \<Rightarrow> ('x interactive_world, 'a) meth" where
  "on_budget m w = (let (r, b) = m (iw_budget w) in (r, w\<lparr>iw_budget := b\<rparr>))"

definition on_capacity :: "(capacity, 'a) meth \<Rightarrow> ('x interactive_world, 'a) meth" where
  "on_capacity m w = (let (r, c) = m (iw_capacity w) in (r, w\<lparr>iw_capacity := c\<rparr>))"

definition outside :: "('x, 'a) meth \<Rightarrow> ('x interactive_world, 'a) meth" where
  "outside m w = (let (r, x) = m (iw_rest w) in (r, w\<lparr>iw_rest := x\<rparr>))"

section \<open>Configuration\<close>

definition interactive_configuration :: "execution_context \<Rightarrow> frozen_mapping" where
  "interactive_configuration ctx = (case fm_get (content (ctx_configuration ctx)) ''interactive'' of Some (VFrozen m) \<Rightarrow> m | _ \<Rightarrow> [])"

definition configuration_value :: "execution_context \<Rightarrow> string \<Rightarrow> pyval \<Rightarrow> pyval" where
  "configuration_value ctx key fallback = (case fm_get (interactive_configuration ctx) key of Some v \<Rightarrow> v | None \<Rightarrow> fallback)"

definition configuration_string :: "execution_context \<Rightarrow> string \<Rightarrow> string \<Rightarrow> string" where
  "configuration_string ctx key fallback = (case configuration_value ctx key (VStr fallback) of
     VStr s \<Rightarrow> if blank s then fallback else s | _ \<Rightarrow> fallback)"

definition configuration_int :: "execution_context \<Rightarrow> string \<Rightarrow> int \<Rightarrow> int" where
  "configuration_int ctx key fallback = (case configuration_value ctx key (VInt fallback) of
     VInt n \<Rightarrow> if 0 \<le> n then n else fallback | _ \<Rightarrow> fallback)"

definition configuration_sequence :: "execution_context \<Rightarrow> string \<Rightarrow> string list" where
  "configuration_sequence ctx key = (case configuration_value ctx key (VTuple []) of
     VTuple vs \<Rightarrow> map str_of (filter is_str vs) | VFrozenset vs \<Rightarrow> map str_of (filter is_str vs) | _ \<Rightarrow> [])"

text \<open>\<open>float(value)\<close>; the conversion of a text is a parameter. What is not finite fails the check
  of the quality in \<open>ModelOperation\<close>.\<close>

definition quality_value :: "(string \<Rightarrow> pyfloat option) \<Rightarrow> pyval \<Rightarrow> rat res" where
  "quality_value parse v =
     (let finite = (\<lambda>x. case x of Finite q \<Rightarrow> Inr q | _ \<Rightarrow> Inl (ValueError ''minimum_quality must be between zero and one'')) in
      case v of
        VFloat x \<Rightarrow> finite x
      | VInt n \<Rightarrow> if \<bar>n\<bar> < 2 ^ 1024 then Inr (of_int n) else Inl (ForeignError ''OverflowError'' ''int too large to convert to float'')
      | VBool b \<Rightarrow> Inr (of_bool b)
      | VStr s \<Rightarrow> (case parse s of Some x \<Rightarrow> finite x | None \<Rightarrow> Inl (ValueError ''could not convert string to float''))
      | _ \<Rightarrow> Inl (TypeError ''float() argument must be a string or a real number''))"

section \<open>The planner\<close>

text \<open>\<open>CandidateCatalog\<close> and \<open>RoutedModelPlanner\<close>; the two lookups and the clock are injected.\<close>

record 'x planner_env =
  pl_available :: "model_operation \<Rightarrow> model_candidate \<Rightarrow> bool"
  pl_utc_offset :: "int \<Rightarrow> int"
  pl_candidates :: "model_work \<Rightarrow> execution_context \<Rightarrow> model_candidate list"
  pl_policy :: "execution_context \<Rightarrow> routing_policy option"
  pl_clock :: "('x, datetime) meth"
  pl_float :: "string \<Rightarrow> pyfloat option"

fun admission_failure_value :: "admission_failure \<Rightarrow> string" where
  "admission_failure_value NO_ELIGIBLE_MODEL = ''no_eligible_model''"
| "admission_failure_value AF_DEADLINE_INELIGIBLE = ''deadline_ineligible''"
| "admission_failure_value CAPACITY_UNAVAILABLE = ''capacity_unavailable''"

definition planned_input_tokens :: "execution_context \<Rightarrow> model_work \<Rightarrow> int" where
  "planned_input_tokens ctx work = (case estimated_input_tokens work of Some n \<Rightarrow> n | None \<Rightarrow> configuration_int ctx ''estimated_model_tokens'' 0)"

definition planned_output_tokens :: "execution_context \<Rightarrow> model_work \<Rightarrow> int" where
  "planned_output_tokens ctx work = (case estimated_output_tokens work of Some n \<Rightarrow> n | None \<Rightarrow> configuration_int ctx ''estimated_output_tokens'' 0)"

definition routing_tokens :: "execution_context \<Rightarrow> model_work \<Rightarrow> int" where
  "routing_tokens ctx work = (if estimated_input_tokens work \<noteq> None \<or> estimated_output_tokens work \<noteq> None
     then planned_input_tokens ctx work + planned_output_tokens ctx work else configuration_int ctx ''estimated_model_tokens'' 0)"

definition planned_operation :: "'x planner_env \<Rightarrow> string \<Rightarrow> model_work \<Rightarrow> execution_context \<Rightarrow> int \<Rightarrow> model_operation res" where
  "planned_operation e i work ctx ms =
     bindR (quality_value (pl_float e) (configuration_value ctx ''minimum_model_quality'' (VFloat (Finite 0)))) (\<lambda>q.
       ModelOperation_post \<lparr>mo_operation_id = i, mo_tenant_id = configuration_string ctx ''tenant_id'' ''interactive'',
         mo_scope_id = execution_id ctx, mo_path = ctx_path ctx, mo_work = work, mo_estimated_total_tokens = routing_tokens ctx work,
         mo_minimum_quality = q, mo_data_classes = set (configuration_sequence ctx ''data_classes''),
         mo_deadline = deadline (timing ctx), mo_completion_reserve_ms = ms\<rparr>)"

definition plan_model :: "'x planner_env \<Rightarrow> string \<Rightarrow> model_work \<Rightarrow> execution_context \<Rightarrow> int \<Rightarrow> ('x interactive_world, model_plan) meth" where
  "plan_model e i work ctx ms =
     bindM (liftR (planned_operation e i work ctx ms)) (\<lambda>op.
     bindM (outside (pl_clock e)) (\<lambda>now.
     bindM (on_capacity (admit (pl_available e) (pl_utc_offset e) op (pl_candidates e work ctx) (pl_policy e ctx) now)) (\<lambda>a.
       if \<not> admitted a
       then raiseM (ModelPlanningError (case ma_failure a of Some f \<Rightarrow> admission_failure_value f | None \<Rightarrow> ''no_eligible_model''))
       else bindM (liftR (Usage (mc_cost_estimate (the (ma_candidate a))) (planned_input_tokens ctx work) (planned_output_tokens ctx work))) (\<lambda>u.
         pureM \<lparr>mp_operation = op, mp_candidate = the (ma_candidate a), mp_lease = the (ma_lease a), mp_estimate = u\<rparr>))))"

definition complete_plan :: "model_plan \<Rightarrow> ('x interactive_world, unit) meth" where
  "complete_plan q = on_capacity (\<lambda>c. (Inr (), snd (capacity_release (mp_lease q) c)))"

section \<open>Budget, invocation, telemetry\<close>

definition bound_reserve :: "execution_context \<Rightarrow> usage \<Rightarrow> ('x interactive_world, reservation_decision) meth" where
  "bound_reserve ctx est = on_budget (reserve (execution_id ctx) est)"

definition bound_reconcile :: "string \<Rightarrow> usage \<Rightarrow> ('x interactive_world, reconciliation_receipt) meth" where
  "bound_reconcile rid actual = on_budget (reconcile rid actual)"

text \<open>What a gateway returns: an invocation result with its usage, or a plain value.\<close>

datatype gateway_value = GatewayResult model_invocation_result | GatewayValue pyval

definition invocation_result :: "model_plan \<Rightarrow> gateway_value \<Rightarrow> model_invocation_result res" where
  "invocation_result q v = (case v of
     GatewayResult r \<Rightarrow> Inr r
   | GatewayValue x \<Rightarrow>
       if task_definition_version (mo_work (mp_operation q)) \<noteq> None then Inr \<lparr>mi_output = x, mi_actual_usage = no_usage\<rparr>
       else (case x of
           VList xs \<Rightarrow> Inr \<lparr>mi_output = VTuple xs, mi_actual_usage = no_usage\<rparr>
         | VTuple xs \<Rightarrow> Inr \<lparr>mi_output = VTuple xs, mi_actual_usage = no_usage\<rparr>
         | _ \<Rightarrow> Inl (TypeError ''model gateway output must be a sequence of records'')))"

definition gateway_invoke :: "('x, gateway_value) invoker_env \<Rightarrow> model_plan \<Rightarrow> pyval \<Rightarrow> execution_context
    \<Rightarrow> ('x, model_invocation_result) meth" where
  "gateway_invoke env q payload ctx =
     bindM (protected_invoke env (mp_operation q) (mp_candidate q) payload
       (configuration_string ctx ''model_service_identity'' ''model-service'') ctx) (\<lambda>v. liftR (invocation_result q v))"

definition executor_invoke :: "('x, gateway_value) invoker_env \<Rightarrow> (model_plan \<Rightarrow> normalized_result \<Rightarrow> pyval) \<Rightarrow> model_plan
    \<Rightarrow> normalized_result \<Rightarrow> execution_context \<Rightarrow> ('x, model_invocation_result) meth" where
  "executor_invoke env payload q source ctx = gateway_invoke env q (payload q source) ctx"

definition interactive_redaction :: "('x, 'o) invoker_env \<Rightarrow> execution_context \<Rightarrow> redaction_policy res" where
  "interactive_redaction env ctx = (case policies_resolve (security_policy_version (ctx_configuration ctx)) (iv_policies env) of
     Some p \<Rightarrow> redaction_of p | None \<Rightarrow> Inr \<lparr>rd_sensitive_fields = {}, rd_sensitive_values = {}, rd_representation = ''[REDACTED]''\<rparr>)"

definition emit_interactive :: "('x, 'o) invoker_env \<Rightarrow> execution_context \<Rightarrow> string \<Rightarrow> string \<Rightarrow> (string \<times> pyval) list \<Rightarrow> ('x, unit) meth" where
  "emit_interactive env ctx kind outcome kvs =
     bindM (iv_clock env) (\<lambda>now.
     bindM (liftR (TelemetryEvent_post \<lparr>te_correlation_id = correlation_id ctx, te_timestamp = now, te_event_type = kind,
        te_component = ''interactive'', te_outcome = outcome,
        te_configuration_version = version (reference (ctx_configuration ctx)), te_details = details kvs\<rparr>)) (\<lambda>event.
     bindM (liftR (interactive_redaction env ctx)) (\<lambda>redaction. telemetry_emit env event redaction)))"

definition terminal_telemetry :: "('x, 'o) invoker_env \<Rightarrow> 'v interactive_response \<Rightarrow> execution_context \<Rightarrow> ('x, unit) meth" where
  "terminal_telemetry env r ctx = (let m = rs_metrics r; number = (\<lambda>q. VFloat (Finite q)) in
     emit_interactive env ctx ''interactive_terminal'' (reason_value (rs_terminal_reason r))
       [(''request_id'', VStr (rs_request_id r)),
        (''end_to_end_latency_ms'', number (xm_end_to_end_latency_ms m)),
        (''deadline_outcome'', VStr (reason_value (rs_terminal_reason r))),
        (''fallback_outcome'', VBool (\<not> rs_complete r)),
        (''cancellation_duration_ms'', number (xm_cancellation_duration_ms m)),
        (''late_completion_count'', VInt (xm_late_completion_count m)),
        (''database_operation_duration_ms'', number (xm_database_duration_ms m)),
        (''model_operation_duration_ms'', number (xm_model_duration_ms m)),
        (''token_usage'', VInt (xm_token_usage m)),
        (''monetary_cost_minor_units'', VInt (xm_cost_minor_units m))])"

definition late_telemetry :: "('x, 'o) invoker_env \<Rightarrow> string \<Rightarrow> execution_context \<Rightarrow> ('x, unit) meth" where
  "late_telemetry env i ctx = emit_interactive env ctx ''late_completion'' ''suppressed'' [(''operation_id'', VStr i)]"

section \<open>The composed ports\<close>

record 'x interactive_env =
  ie_planner :: "'x planner_env"
  ie_dal :: "'x dal"
  ie_invoker :: "('x, gateway_value) invoker_env"
  ie_payload :: "model_plan \<Rightarrow> normalized_result \<Rightarrow> pyval"
  ie_validator :: "'x validator_env"
  ie_rules :: rules_registry
  ie_processor :: "('x, 'x) processor option"
  ie_now :: "('x, datetime) meth"
  ie_monotonic :: "'x \<Rightarrow> rat \<times> 'x"
  ie_reserve_ms :: int

definition routed_pipeline :: "('x, 'x) processor \<Rightarrow> 'x interactive_world task_pipeline" where
  "routed_pipeline pr = \<lparr>tp_prepare = (\<lambda>t source ctx. outside (processor_prepare pr t source ctx)),
     tp_validate = (\<lambda>t k out ctx. outside (parse_and_validate pr t k out ctx))\<rparr>"

definition routed_ports :: "'x interactive_env \<Rightarrow> 'x interactive_world interactive_ports" where
  "routed_ports e = \<lparr>ip_read = (\<lambda>ref ps ctx. outside (execute_read (ie_dal e) ref ps ctx)), ip_plan = plan_model (ie_planner e),
     ip_complete = complete_plan, ip_reserve = bound_reserve, ip_reconcile = bound_reconcile,
     ip_invoke = (\<lambda>q source ctx. outside (executor_invoke (ie_invoker e) (ie_payload e) q source ctx)),
     ip_validate = (\<lambda>ids out ctx. outside (validate (ie_validator e) (ie_rules e) ids out ctx)),
     ip_tasks = map_option routed_pipeline (ie_processor e),
     ip_terminal = (\<lambda>r ctx. outside (terminal_telemetry (ie_invoker e) r ctx)),
     ip_late = (\<lambda>i ctx. outside (late_telemetry (ie_invoker e) i ctx)), ip_now = outside (ie_now e),
     ip_monotonic = (\<lambda>w. case ie_monotonic e (iw_rest w) of (t, x) \<Rightarrow> (t, w\<lparr>iw_rest := x\<rparr>)),
     ip_response_reserve_ms = ie_reserve_ms e\<rparr>"

end
