(* ===== verification/Interactive_Settlement.thy ===== *)
theory Interactive_Settlement
  imports Interactive_Liveness Interactive_Ports Relational
begin

text \<open>
  What \<open>execute\<close> of \<open>interactive/coordinator.py\<close> takes it gives back: when the pending tasks
  have been cancelled, every budget reservation of the run is reconciled and every capacity
  lease released, on every schedule and also when the run raises. The contract of the ports
  is a locale; the adapters of \<open>interactive/integration.py\<close> are its interpretation.
\<close>

declare map_of_eq_Some_iff [simp del]

section \<open>The contract\<close>

text \<open>What the tasks hold that wait for their invocation: the plan and the reservation.\<close>

definition awaited :: "operation list \<Rightarrow> (nat \<times> model_plan \<times> string) set" where
  "awaited ts = {(n, q, rid). n < length ts \<and> (\<exists>st. op_status (ts ! n) = Waiting q rid st)}"

abbreviation awaited_reservation :: "nat \<times> model_plan \<times> string \<Rightarrow> string" where
  "awaited_reservation h \<equiv> snd (snd h)"

abbreviation awaited_lease :: "nat \<times> model_plan \<times> string \<Rightarrow> capacity_lease" where
  "awaited_lease h \<equiv> mp_lease (fst (snd h))"

fun no_wait :: "operation_status \<Rightarrow> bool" where
  "no_wait (Waiting _ _ _) \<longleftrightarrow> False"
| "no_wait _ \<longleftrightarrow> True"

lemma awaited_add: "n < length ts \<Longrightarrow> no_wait (op_status (ts ! n)) \<Longrightarrow>
    awaited (ts[n := (ts ! n)\<lparr>op_status := Waiting q rid t\<rparr>]) = insert (n, q, rid) (awaited ts)"
  by (auto simp: awaited_def nth_list_update split: if_splits)

lemma awaited_remove: "op_status (ts ! n) = Waiting q rid t \<Longrightarrow> no_wait st \<Longrightarrow>
    awaited (ts[n := (ts ! n)\<lparr>op_status := st\<rparr>]) = awaited ts - {(n, q, rid)}"
  by (cases "n < length ts") (auto simp: awaited_def nth_list_update split: if_splits)

lemma awaited_same: "no_wait (op_status (ts ! n)) \<Longrightarrow> no_wait st \<Longrightarrow> awaited (ts[n := (ts ! n)\<lparr>op_status := st\<rparr>]) = awaited ts"
  by (cases "n < length ts") (auto simp: awaited_def nth_list_update split: if_splits)

lemma awaited_empty: "awaited [] = {}"
  by (simp add: awaited_def)

lemma awaited_append: "no_wait (op_status op) \<Longrightarrow> awaited (ts @ [op]) = awaited ts"
  by (auto simp: awaited_def nth_append less_Suc_eq)

definition same_books :: "('w \<Rightarrow> bool) \<Rightarrow> ('w \<Rightarrow> string set) \<Rightarrow> ('w \<Rightarrow> capacity_lease set) \<Rightarrow> 'w \<Rightarrow> 'w \<Rightarrow> bool" where
  "same_books valid active leases w w' \<longleftrightarrow> valid w' \<and> active w' = active w \<and> leases w' = leases w"

locale settled_ports =
  fixes p :: "'w interactive_ports" and ctx :: execution_context and valid :: "'w \<Rightarrow> bool"
    and active :: "'w \<Rightarrow> string set" and leases :: "'w \<Rightarrow> capacity_lease set" and workable :: "model_work \<Rightarrow> bool"
  assumes plan_refused: "valid w \<Longrightarrow> workable work \<Longrightarrow> ip_plan p i work ctx ms w = (Inl e, w') \<Longrightarrow>
      same_books valid active leases w w'"
    and plan_taken: "valid w \<Longrightarrow> workable work \<Longrightarrow> ip_plan p i work ctx ms w = (Inr q, w') \<Longrightarrow>
      valid w' \<and> active w' = active w \<and> usage_ok (mp_estimate q) \<and> mp_lease q \<notin> leases w \<and> leases w' = insert (mp_lease q) (leases w)"
    and complete_law: "valid w \<Longrightarrow> mp_lease q \<in> leases w \<Longrightarrow> ip_complete p q w = (done1, w') \<Longrightarrow>
      done1 = Inr () \<and> valid w' \<and> active w' = active w \<and> leases w' = leases w - {mp_lease q}"
    and reserve_refused: "valid w \<Longrightarrow> usage_ok u \<Longrightarrow> ip_reserve p ctx u w = (dec, w') \<Longrightarrow> (\<forall>d. dec = Inr d \<longrightarrow> rd_reservation d = None) \<Longrightarrow>
      same_books valid active leases w w'"
    and reserve_taken: "valid w \<Longrightarrow> usage_ok u \<Longrightarrow> ip_reserve p ctx u w = (Inr d, w') \<Longrightarrow> rd_reservation d = Some r \<Longrightarrow>
      valid w' \<and> leases w' = leases w \<and> reservation_id r \<notin> active w \<and> active w' = insert (reservation_id r) (active w)"
    and reconcile_law: "valid w \<Longrightarrow> rid \<in> active w \<Longrightarrow> usage_ok u \<Longrightarrow> ip_reconcile p rid u w = (rec, w') \<Longrightarrow>
      (\<exists>receipt. rec = Inr receipt) \<and> valid w' \<and> active w' = active w - {rid} \<and> leases w' = leases w"
    and usage_law: "valid w \<Longrightarrow> ip_invoke p q source ctx w = (Inr m, w') \<Longrightarrow> usage_ok (mi_actual_usage m)"
    and invoke_quiet: "valid w \<Longrightarrow> same_books valid active leases w (snd (ip_invoke p q source ctx w))"
    and validate_quiet: "valid w \<Longrightarrow> same_books valid active leases w (snd (ip_validate p ids out ctx w))"
    and read_quiet: "valid w \<Longrightarrow> same_books valid active leases w (snd (ip_read p ref ps ctx w))"
    and terminal_quiet: "valid w \<Longrightarrow> same_books valid active leases w (snd (ip_terminal p resp ctx w))"
    and late_quiet: "valid w \<Longrightarrow> same_books valid active leases w (snd (ip_late p i ctx w))"
    and now_quiet: "valid w \<Longrightarrow> same_books valid active leases w (snd (ip_now p w))"
    and monotonic_quiet: "valid w \<Longrightarrow> same_books valid active leases w (snd (ip_monotonic p w))"
    and prepare_quiet: "ip_tasks p = Some tp \<Longrightarrow> valid w \<Longrightarrow> same_books valid active leases w (snd (tp_prepare tp t source ctx w))"
    and output_quiet: "ip_tasks p = Some tp \<Longrightarrow> valid w \<Longrightarrow> same_books valid active leases w (snd (tp_validate tp pt k v ctx w))"
    and workable_law: "ip_tasks p = Some tp \<Longrightarrow> valid w \<Longrightarrow> tp_prepare tp t source ctx w = (Inr (Inr pt), w') \<Longrightarrow>
      work \<in> set (pt_model_work pt) \<Longrightarrow> workable work"
begin

text \<open>What the world has open is what it had before (\<open>A\<close>, \<open>L\<close>) and one reservation and one lease
  of each task that waits for its invocation.\<close>

definition account :: "string set \<Rightarrow> capacity_lease set \<Rightarrow> (nat \<times> model_plan \<times> string) set \<Rightarrow> 'w \<Rightarrow> bool" where
  "account A L H w \<longleftrightarrow> valid w
     \<and> active w = A \<union> awaited_reservation ` H \<and> awaited_reservation ` H \<inter> A = {} \<and> inj_on awaited_reservation H
     \<and> leases w = L \<union> awaited_lease ` H \<and> awaited_lease ` H \<inter> L = {} \<and> inj_on awaited_lease H
     \<and> (\<forall>h \<in> H. usage_ok (mp_estimate (fst (snd h))))"

definition settled :: "string set \<Rightarrow> capacity_lease set \<Rightarrow> 'w run \<Rightarrow> bool" where
  "settled A L s \<longleftrightarrow> account A L (awaited (ru_tasks s)) (ru_world s) \<and> (\<forall>op \<in> set (ru_tasks s). workable (job_work (op_job op)))"

lemma account_valid: "account A L H w \<Longrightarrow> valid w"
  by (simp add: account_def)

lemma account_quiet: "account A L H w \<Longrightarrow> valid w' \<Longrightarrow> active w' = active w \<Longrightarrow> leases w' = leases w \<Longrightarrow> account A L H w'"
  by (simp add: account_def)

lemma settled_valid: "settled A L s \<Longrightarrow> valid (ru_world s)"
  by (simp add: settled_def account_def)

lemma account_open:
  assumes "account A L H w" and "valid w'" and "usage_ok (mp_estimate q)" and "rid \<notin> active w" and "mp_lease q \<notin> leases w"
    and "active w' = insert rid (active w)" and "leases w' = insert (mp_lease q) (leases w)"
  shows "account A L (insert (n, q, rid) H) w'"
proof -
  have "rid \<notin> awaited_reservation ` H" "mp_lease q \<notin> awaited_lease ` H" "rid \<notin> A" "mp_lease q \<notin> L"
    using assms(1,4,5) by (auto simp: account_def)
  moreover from this have "awaited_reservation ` (H - {(n, q, rid)}) = awaited_reservation ` H" "awaited_lease ` (H - {(n, q, rid)}) = awaited_lease ` H"
    by (force simp: image_iff)+
  ultimately show ?thesis using assms(1-3,6,7) unfolding account_def by (simp add: inj_on_insert)
qed

lemma account_holds:
  assumes "account A L H w" and "(n, q, rid) \<in> H"
  shows "rid \<in> active w" "mp_lease q \<in> leases w" "usage_ok (mp_estimate q)" "rid \<notin> A" "mp_lease q \<notin> L"
proof -
  have "rid \<in> awaited_reservation ` H" "mp_lease q \<in> awaited_lease ` H" using imageI [OF assms(2), of awaited_reservation] imageI [OF assms(2), of awaited_lease]
    by simp_all
  then show "rid \<in> active w" "mp_lease q \<in> leases w" "rid \<notin> A" "mp_lease q \<notin> L"
    using assms(1) unfolding account_def by blast+
  from assms show "usage_ok (mp_estimate q)" unfolding account_def by fastforce
qed

lemma account_close:
  assumes "account A L H w" and "(n, q, rid) \<in> H" and "valid w'" and "active w' = active w - {rid}" and "leases w' = leases w - {mp_lease q}"
  shows "account A L (H - {(n, q, rid)}) w'"
proof -
  have images: "awaited_reservation ` (H - {(n, q, rid)}) = awaited_reservation ` H - {rid}" "awaited_lease ` (H - {(n, q, rid)}) = awaited_lease ` H - {mp_lease q}"
    using inj_on_image_set_diff [of awaited_reservation H H "{(n, q, rid)}"] inj_on_image_set_diff [of awaited_lease H H "{(n, q, rid)}"] assms(1,2)
    by (simp_all add: account_def)
  with account_holds(4,5) [OF assms(1,2)] assms(1,3-5) show ?thesis
    unfolding account_def images by (simp add: inj_on_diff) blast
qed

text \<open>What leaves the books alone.\<close>

definition quiet :: "'w run \<Rightarrow> 'w run \<Rightarrow> bool" where
  "quiet s s' \<longleftrightarrow> valid (ru_world s') \<and> active (ru_world s') = active (ru_world s) \<and> leases (ru_world s') = leases (ru_world s)
     \<and> ru_tasks s' = ru_tasks s"

lemma quiet_refl: "valid (ru_world s) \<Longrightarrow> quiet s s"
  by (simp add: quiet_def)

lemma quiet_trans: "quiet s s1 \<Longrightarrow> quiet s1 s2 \<Longrightarrow> quiet s s2"
  by (simp add: quiet_def)

lemma quiet_account: "quiet s s' \<Longrightarrow> account A L H (ru_world s) \<Longrightarrow> account A L H (ru_world s')"
  unfolding quiet_def by (auto intro: account_quiet)

lemma quiet_settled: "quiet s s' \<Longrightarrow> settled A L s \<Longrightarrow> settled A L s'"
  using quiet_account [of s s'] by (simp add: settled_def quiet_def)

lemma quiet_port: "same_books valid active leases (ru_world s) (snd (m (ru_world s))) \<Longrightarrow> quiet s (snd (in_world m s))"
  by (simp add: quiet_def same_books_def in_world_def case_prod_beta)

lemma quiet_ports:
  assumes "valid (ru_world s)"
  shows "quiet s (snd (in_world (ip_invoke p q source ctx) s))" "quiet s (snd (in_world (ip_validate p ids out ctx) s))"
    "quiet s (snd (in_world (ip_read p ref ps ctx) s))" "quiet s (snd (in_world (ip_terminal p resp ctx) s))"
    "quiet s (snd (in_world (ip_late p i ctx) s))" "quiet s (snd (in_world (ip_now p) s))"
  by (rule quiet_port, rule invoke_quiet validate_quiet read_quiet terminal_quiet late_quiet now_quiet; use assms in assumption)+

lemma quiet_pipeline:
  assumes "ip_tasks p = Some tp" and "valid (ru_world s)"
  shows "quiet s (snd (in_world (tp_prepare tp t source ctx) s))" "quiet s (snd (in_world (tp_validate tp pt k v ctx) s))"
  using prepare_quiet [OF assms] output_quiet [OF assms] by (auto intro: quiet_port)

lemma quiet_monotonic: "valid (ru_world s) \<Longrightarrow> quiet s (snd (monotonic p s))"
  using monotonic_quiet [of "ru_world s"] by (simp add: quiet_def same_books_def monotonic_def case_prod_beta)

lemma judged_quiet: "quiet s s1 \<Longrightarrow> quiet s (snd (judged u v s1))"
  by (simp add: judged_def quiet_def)

lemma check_quiet: "valid (ru_world s) \<Longrightarrow> quiet s (snd (check_output p ctx job invoked s))"
  using quiet_ports(2) [of s] quiet_pipeline(2) [of _ s]
  by (auto simp: check_output_def quiet_refl case_prod_beta intro!: judged_quiet
      split: operation_job.split pyval.split option.split sum.split)

section \<open>The steps of a task\<close>

text \<open>The settlement gives back the reservation and the lease of the task.\<close>

lemma settle_gives_back:
  assumes "valid (ru_world s)" and "case h of None \<Rightarrow> True | Some (rid, u) \<Rightarrow> rid \<in> active (ru_world s) \<and> usage_ok u"
    and "mp_lease q \<in> leases (ru_world s)"
  shows "\<exists>s'. settle_operation p (Some q) h t s = (Inr (), s') \<and> valid (ru_world s') \<and> ru_tasks s' = ru_tasks s
    \<and> active (ru_world s') = (case h of None \<Rightarrow> active (ru_world s) | Some (rid, u) \<Rightarrow> active (ru_world s) - {rid})
    \<and> leases (ru_world s') = leases (ru_world s) - {mp_lease q}"
proof -
  have "\<exists>s1. (case h of None \<Rightarrow> pureM () | Some (rid, u) \<Rightarrow> bindM (in_world (ip_reconcile p rid u)) (\<lambda>_. pureM ())) s = (Inr (), s1)
      \<and> valid (ru_world s1) \<and> ru_tasks s1 = ru_tasks s \<and> leases (ru_world s1) = leases (ru_world s)
      \<and> active (ru_world s1) = (case h of None \<Rightarrow> active (ru_world s) | Some (rid, u) \<Rightarrow> active (ru_world s) - {rid})"
  proof (cases h)
    case (Some ru)
    obtain rid u where ru: "ru = (rid, u)" by fastforce
    obtain x w' where run: "ip_reconcile p rid u (ru_world s) = (x, w')" by fastforce
    from reconcile_law [OF assms(1) _ _ run] assms(2) show ?thesis
      by (auto simp: Some ru in_world_def bindM_def run)
  qed (simp add: assms(1))
  then obtain s1 where s1: "(case h of None \<Rightarrow> pureM () | Some (rid, u) \<Rightarrow> bindM (in_world (ip_reconcile p rid u)) (\<lambda>_. pureM ())) s = (Inr (), s1)"
      "valid (ru_world s1)" "ru_tasks s1 = ru_tasks s" "leases (ru_world s1) = leases (ru_world s)"
      "active (ru_world s1) = (case h of None \<Rightarrow> active (ru_world s) | Some (rid, u) \<Rightarrow> active (ru_world s) - {rid})" by blast
  obtain y w2 where complete: "ip_complete p q (ru_world s1) = (y, w2)" by fastforce
  have w2: "y = Inr ()" "valid w2" "active w2 = active (ru_world s1)" "leases w2 = leases (ru_world s1) - {mp_lease q}"
    using complete_law [OF s1(2) _ complete] assms(3) s1(4) by auto
  obtain now s3 where now: "monotonic p (s1\<lparr>ru_world := w2\<rparr>) = (Inr now, s3)" by (simp add: monotonic_def case_prod_beta)
  with quiet_monotonic [of "s1\<lparr>ru_world := w2\<rparr>"] w2 have "quiet (s1\<lparr>ru_world := w2\<rparr>) s3" by simp
  with s1 w2 now show ?thesis
    by (simp add: settle_operation_def bindM_run bindM_def in_world_def complete quiet_def)
qed

lemma finally_gives_back:
  assumes "valid (ru_world s)" and "case h of None \<Rightarrow> True | Some (rid, u) \<Rightarrow> rid \<in> active (ru_world s) \<and> usage_ok u"
    and "mp_lease q \<in> leases (ru_world s)"
  shows "\<exists>s'. finally_settled p (Some q) h t out s = (out, s') \<and> valid (ru_world s') \<and> ru_tasks s' = ru_tasks s
    \<and> active (ru_world s') = (case h of None \<Rightarrow> active (ru_world s) | Some (rid, u) \<Rightarrow> active (ru_world s) - {rid})
    \<and> leases (ru_world s') = leases (ru_world s) - {mp_lease q}"
  using settle_gives_back [OF assms, of t] by (auto simp: finally_settled_def)

lemma finally_without_plan:
  assumes "valid (ru_world s)"
  shows "fst (finally_settled p None None t out s) = out" "quiet s (snd (finally_settled p None None t out s))"
  using quiet_monotonic [OF assms]
  by (auto simp: finally_settled_def settle_operation_def bindM_run bindM_def quiet_def monotonic_def case_prod_beta)

lemma finish_account:
  assumes "account A L H (ru_world s)" and "(n, q, rid) \<in> H"
  shows "account A L (H - {(n, q, rid)}) (ru_world (snd (finish_operation p ctx job source q rid t s)))"
proof -
  note books = account_holds [OF assms]
  have closed: "account A L (H - {(n, q, rid)}) (ru_world (snd (finally_settled p (Some q) (Some (rid, u)) t out s1)))"
    if "quiet s s1" and "usage_ok u" for s1 u out
    using finally_gives_back [of s1 "Some (rid, u)" q t out] that books(1,2)
    by (auto simp: quiet_def intro: account_close [OF assms])
  obtain x s1 where run: "in_world (ip_invoke p q source ctx) s = (x, s1)" by fastforce
  have s1: "quiet s s1" using quiet_ports(1) [OF account_valid [OF assms(1)], of q source] by (simp add: run)
  show ?thesis
  proof (cases x)
    case (Inl e)
    with run closed [OF s1 books(3)] show ?thesis by (simp add: finish_operation_def)
  next
    case (Inr m)
    then have "usage_ok (mi_actual_usage m)"
      using run usage_law [OF account_valid [OF assms(1)], of q source m] by (auto simp: in_world_def split: prod.splits)
    moreover have "quiet s (snd (check_output p ctx job m s1))"
      using check_quiet [of s1 job m] s1 by (auto simp: quiet_def)
    ultimately show ?thesis using run Inr closed by (simp add: finish_operation_def case_prod_beta)
  qed
qed

lemma start_account:
  assumes "account A L H (ru_world s)" and "workable (job_work job)" and "start_operation p ctx i job s = (st, s')"
  shows "(\<exists>q rid t. st = Waiting q rid t \<and> account A L (insert (n, q, rid) H) (ru_world s')) \<or> no_wait st \<and> account A L H (ru_world s')"
proof -
  obtain t w0 where tick: "ip_monotonic p (ru_world s) = (t, w0)" by fastforce
  let ?s0 = "s\<lparr>ru_world := w0\<rparr>"
  have s0: "quiet s ?s0" "valid w0" using monotonic_quiet [OF account_valid [OF assms(1)]] by (simp_all add: tick quiet_def same_books_def)
  obtain x w1 where plan: "ip_plan p i (job_work job) ctx (ip_response_reserve_ms p) w0 = (x, w1)" by fastforce
  show ?thesis
  proof (cases x)
    case (Inl e)
    with plan_refused [OF s0(2) assms(2), of i "ip_response_reserve_ms p" e w1] plan s0(1)
    have s1: "quiet s (?s0\<lparr>ru_world := w1\<rparr>)" by (simp add: same_books_def quiet_def)
    then have "valid (ru_world (?s0\<lparr>ru_world := w1\<rparr>))" by (simp add: quiet_def)
    note ended = finally_without_plan [OF this, of t "Inl (Raised e) :: operation_error + frozen_mapping list"]
    from assms(3) have "no_wait st" "s' = snd (finally_settled p None None t (Inl (Raised e) :: operation_error + frozen_mapping list) (?s0\<lparr>ru_world := w1\<rparr>))"
      by (auto simp: start_operation_def Let_def tick in_world_def plan Inl case_prod_beta)
    with quiet_account [OF quiet_trans [OF s1 ended(2)] assms(1)] show ?thesis by simp
  next
    case (Inr q)
    with plan_taken [OF s0(2) assms(2), of i "ip_response_reserve_ms p" q w1] plan s0(1)
    have w1: "valid w1" "active w1 = active (ru_world s)" "usage_ok (mp_estimate q)" "mp_lease q \<notin> leases (ru_world s)"
        "leases w1 = insert (mp_lease q) (leases (ru_world s))" by (simp_all add: quiet_def)
    obtain y w2 where res: "ip_reserve p ctx (mp_estimate q) w1 = (y, w2)" by fastforce
    have refused: "account A L H (ru_world (snd (finally_settled p (Some q) None t out (?s0\<lparr>ru_world := w2\<rparr>))))"
      if "\<forall>d. y = Inr d \<longrightarrow> rd_reservation d = None" for out :: "operation_error + frozen_mapping list"
    proof -
      have w2: "valid w2" "active w2 = active (ru_world s)" "leases w2 = insert (mp_lease q) (leases (ru_world s))"
        using reserve_refused [OF w1(1,3) res that] w1 by (simp_all add: same_books_def)
      from finally_gives_back [of "?s0\<lparr>ru_world := w2\<rparr>" None q t out] w2 w1(4) show ?thesis
        by (auto intro: account_quiet [OF assms(1)])
    qed
    show ?thesis
    proof (cases y)
      case (Inl e)
      with assms(3) refused [of "Inl (Raised e)"] show ?thesis
        by (auto simp: start_operation_def Let_def tick in_world_def plan Inr res case_prod_beta)
    next
      case y: (Inr d)
      show ?thesis
      proof (cases "rd_reservation d")
        case None
        with y assms(3) refused show ?thesis
          by (auto simp: start_operation_def Let_def tick in_world_def plan Inr res case_prod_beta)
      next
        case (Some r)
        with reserve_taken [OF w1(1,3) _ Some, of w2] res y
        have "valid w2" "leases w2 = leases w1" "reservation_id r \<notin> active w1" "active w2 = insert (reservation_id r) (active w1)" by simp_all
        with w1 account_open [OF assms(1), of w2 q "reservation_id r" n] have "account A L (insert (n, q, reservation_id r) H) w2" by simp
        with assms(3) y Some show ?thesis by (auto simp: start_operation_def Let_def tick in_world_def plan Inr res)
      qed
    qed
  qed
qed

lemma status_account:
  assumes "ru_tasks s' = ru_tasks s" and "n < length (ru_tasks s)" and "\<forall>op \<in> set (ru_tasks s). workable (job_work (op_job op))"
    and "account A L (awaited ((ru_tasks s)[n := (ru_tasks s ! n)\<lparr>op_status := st\<rparr>])) (ru_world s')"
  shows "settled A L (set_status n st s')"
  using assms by (auto simp: settled_def set_status_def dest!: set_update_subset_insert [THEN subsetD])

lemma resume_settled:
  assumes "settled A L s" shows "settled A L (resume p ctx n s)"
proof (cases "n < length (ru_tasks s)")
  case n: True
  let ?op = "ru_tasks s ! n"
  have acc: "account A L (awaited (ru_tasks s)) (ru_world s)" and jobs: "\<forall>op \<in> set (ru_tasks s). workable (job_work (op_job op))"
    using assms by (simp_all add: settled_def)
  show ?thesis
  proof (cases "op_status ?op")
    case Unstarted
    obtain st s' where start: "start_operation p ctx (op_id ?op) (op_job ?op) s = (st, s')" by fastforce
    have "ru_tasks s' = ru_tasks s" using start_same [of s p ctx "op_id ?op" "op_job ?op"] by (simp add: start same_tasks_def)
    moreover have "account A L (awaited ((ru_tasks s)[n := ?op\<lparr>op_status := st\<rparr>])) (ru_world s')"
      using start_account [OF acc _ start, of n] jobs n Unstarted by (auto simp: awaited_add awaited_same)
    ultimately have "settled A L (set_status n st s')" using n jobs by (intro status_account) auto
    then show ?thesis using n Unstarted start by (simp add: resume_def)
  next
    case (Waiting q rid t)
    then have awaited: "(n, q, rid) \<in> awaited (ru_tasks s)" using n by (auto simp: awaited_def)
    obtain out s' where finish: "finish_operation p ctx (op_job ?op) (op_source ?op) q rid t s = (out, s')" by fastforce
    have "ru_tasks s' = ru_tasks s" using finish_same [of s p ctx "op_job ?op" "op_source ?op" q rid t] by (simp add: finish same_tasks_def)
    moreover have "account A L (awaited ((ru_tasks s)[n := ?op\<lparr>op_status := Finished out\<rparr>])) (ru_world s')"
      using finish_account [OF acc awaited, of "op_job ?op" "op_source ?op" t] by (simp add: finish awaited_remove [OF Waiting])
    ultimately have "settled A L (set_status n (Finished out) s')" using n jobs by (intro status_account) auto
    then show ?thesis using n Waiting finish by (simp add: resume_def)
  qed (use assms n in \<open>simp_all add: resume_def\<close>)
qed (use assms in \<open>simp add: resume_def\<close>)

text \<open>So the whole run keeps the books.\<close>

lemma run_settled: "run_invariant p ctx (settled A L) (\<lambda>_ job. workable (job_work job))"
proof
  fix s assume s: "settled A L s"
  then have valid: "valid (ru_world s)" by (rule settled_valid)
  note keep = quiet_settled [OF _ s]
  show "settled A L (snd (in_world (ip_now p) s))" "settled A L (snd (monotonic p s))"
    by (rule keep, rule quiet_ports [OF valid] quiet_monotonic [OF valid])+
  show "settled A L (snd (in_world (ip_read p ref ps ctx) s))" for ref ps by (rule keep, rule quiet_ports [OF valid])
  show "settled A L (snd (in_world (ip_terminal p response ctx) s))" for response by (rule keep, rule quiet_ports [OF valid])
  show "settled A L (snd (in_world (tp_prepare tp t source ctx) s))" if "ip_tasks p = Some tp" for tp t source
    by (rule keep, rule quiet_pipeline [OF that valid])
  show "settled A L (s\<lparr>ru_terminal := b\<rparr>)" "settled A L (s\<lparr>ru_query := b\<rparr>)" "settled A L (s\<lparr>ru_database_ms := d\<rparr>)" for b d
    using s by (simp_all add: settled_def)
  show "settled A L (add_task \<lparr>op_id = i, op_job = job, op_source = source, op_status = Unstarted\<rparr> s)" if "workable (job_work job)" for i job source
    using s that by (auto simp: settled_def add_task_def awaited_append)
  show "settled A L (resume p ctx n s)" for n using resume_settled [OF s] .
  show "workable (job_work job)" if "ip_tasks p = Some tp" "tp_prepare tp t source ctx (ru_world s) = (Inr (Inr pt), w')"
      "(i, job) \<in> set (pack_jobs pt)" for tp t source pt w' i job
    using workable_law [OF that(1) valid that(2)] that(3) by (auto simp: pack_jobs_def job_work_def dest: set_zip_rightD)
qed

text \<open>A cancelled task holds nothing any more, whether it obeys or completes anyway.\<close>

lemma cancel_settled:
  assumes "settled A L s"
  shows "settled A L (cancel_task p ctx n late s) \<and> length (ru_tasks (cancel_task p ctx n late s)) = length (ru_tasks s)
    \<and> awaited (ru_tasks (cancel_task p ctx n late s)) = {h \<in> awaited (ru_tasks s). fst h \<noteq> n}"
proof (cases "n < length (ru_tasks s)")
  case n: True
  let ?op = "ru_tasks s ! n"
  have acc: "account A L (awaited (ru_tasks s)) (ru_world s)" and jobs: "\<forall>op \<in> set (ru_tasks s). workable (job_work (op_job op))"
    using assms by (simp_all add: settled_def)
  have none: "no_wait (op_status ?op) \<Longrightarrow> {h \<in> awaited (ru_tasks s). fst h \<noteq> n} = awaited (ru_tasks s)" by (auto simp: awaited_def)
  show ?thesis
  proof (cases "op_status ?op")
    case Unstarted
    have "settled A L (set_status n Cancelled s)" using n jobs acc Unstarted by (intro status_account) (auto simp: awaited_same)
    with n Unstarted none show ?thesis by (simp add: cancel_task_def set_status_def awaited_same)
  next
    case (Waiting q rid t)
    then have awaited: "(n, q, rid) \<in> awaited (ru_tasks s)" using n by (auto simp: awaited_def)
    have only: "{h \<in> awaited (ru_tasks s). fst h \<noteq> n} = awaited (ru_tasks s) - {(n, q, rid)}" using Waiting by (auto simp: awaited_def)
    show ?thesis
    proof (cases late)
      case True
      obtain out s' where finish: "finish_operation p ctx (op_job ?op) (op_source ?op) q rid t s = (out, s')" by fastforce
      have tasks: "ru_tasks s' = ru_tasks s" using finish_same [of s p ctx "op_job ?op" "op_source ?op" q rid t] by (simp add: finish same_tasks_def)
      let ?s = "set_status n (Finished out) s'"
      have "account A L (awaited ((ru_tasks s)[n := ?op\<lparr>op_status := Finished out\<rparr>])) (ru_world s')"
        using finish_account [OF acc awaited, of "op_job ?op" "op_source ?op" t] by (simp add: finish awaited_remove [OF Waiting])
      with tasks n jobs have set: "settled A L ?s" by (intro status_account) auto
      then have one: "settled A L (?s\<lparr>ru_late_completions := c\<rparr>)" for c by (simp add: settled_def)
      have "settled A L (snd (in_world (ip_late p i ctx) (?s\<lparr>ru_late_completions := c\<rparr>)))" for i c
        by (rule quiet_settled [OF quiet_ports(5) one]) (rule settled_valid [OF one])
      then have "settled A L (observe_late p ctx (op_id ?op) ?s)" by (simp add: observe_late_def)
      moreover have "ru_tasks (observe_late p ctx (op_id ?op) ?s) = ru_tasks ?s" by (simp add: observe_late_def)
      ultimately show ?thesis using n Waiting True finish tasks only
        by (simp add: cancel_task_def) (simp add: set_status_def awaited_remove [OF Waiting])
    next
      case False
      note books = account_holds [OF acc awaited]
      from settle_gives_back [of s "Some (rid, mp_estimate q)" q t] books account_valid [OF acc]
      obtain s' where settle: "settle_operation p (Some q) (Some (rid, mp_estimate q)) t s = (Inr (), s')" "valid (ru_world s')"
          "ru_tasks s' = ru_tasks s" "active (ru_world s') = active (ru_world s) - {rid}" "leases (ru_world s') = leases (ru_world s) - {mp_lease q}"
        by auto
      have "account A L (awaited ((ru_tasks s)[n := ?op\<lparr>op_status := Cancelled\<rparr>])) (ru_world s')"
        using account_close [OF acc awaited settle(2,4,5)] by (simp add: awaited_remove [OF Waiting])
      with settle(3) n jobs have "settled A L (set_status n Cancelled s')" by (intro status_account) auto
      with n Waiting False settle(1,3) only show ?thesis
        by (simp add: cancel_task_def) (simp add: set_status_def awaited_remove [OF Waiting])
    qed
  qed (use assms n none in \<open>simp_all add: cancel_task_def\<close>)
qed (use assms in \<open>auto simp: cancel_task_def awaited_def\<close>)

lemma cancel_all_settled:
  "settled A L s \<Longrightarrow> settled A L (cancel_tasks p ctx events s)
     \<and> awaited (ru_tasks (cancel_tasks p ctx events s)) = {h \<in> awaited (ru_tasks s). fst h \<notin> fst ` set events}"
  unfolding cancel_tasks_def
proof (induction events arbitrary: s)
  case (Cons ev events)
  obtain n late where ev: "ev = (n, late)" by fastforce
  from cancel_settled [OF Cons.prems, of n late] Cons.IH [of "cancel_task p ctx n late s"] show ?case by (auto simp: ev)
qed simp

text \<open>When all tasks of a run have been cancelled, its reservations and leases are given back.\<close>

lemma run_gives_back:
  assumes "valid w" and "\<forall>work \<in> set (ir_model_work r). workable work" and "execute p sch r ctx (run_init w) = (out, s)"
    and "{..<length (ru_tasks s)} \<subseteq> fst ` set events"
  shows "same_books valid active leases w (ru_world (cancel_tasks p ctx events s))"
proof -
  have init: "settled (active w) (leases w) (run_init w)" using assms(1) by (simp add: settled_def account_def run_init_def awaited_empty)
  have jobs: "\<forall>(i, job) \<in> set (model_jobs r). workable (job_work job)"
    using assms(2) by (auto simp: model_jobs_def job_work_def in_set_enumerate_eq)
  from run_invariant.execute_keeps [OF run_settled init jobs, of sch] assms(3) have "settled (active w) (leases w) s" by simp
  from cancel_all_settled [OF this, of events] assms(4)
  have "settled (active w) (leases w) (cancel_tasks p ctx events s)" "awaited (ru_tasks (cancel_tasks p ctx events s)) = {}"
    by (auto simp: awaited_def)
  then show ?thesis by (simp add: settled_def account_def same_books_def)
qed

end

section \<open>The adapters\<close>

definition leased :: "capacity \<Rightarrow> capacity_lease set" where
  "leased c = set (dvalues (cap_leases c))"

definition open_reservations :: "budget_controller \<Rightarrow> string set" where
  "open_reservations b = {rid. case dget (reservations b) rid of Some x \<Rightarrow> rec_receipt x = None | None \<Rightarrow> False}"

definition books_ok :: "'x interactive_world \<Rightarrow> bool" where
  "books_ok w \<longleftrightarrow> (\<exists>leaks. ledger_ok leaks (iw_budget w)) \<and> lease_wf (iw_capacity w) \<and> concurrency_ok (iw_capacity w)"

text \<open>What the constructors of their classes check of the values that the injected catalogue,
  gateway and packer return.\<close>

definition planner_ok :: "'x planner_env \<Rightarrow> bool" where
  "planner_ok p \<longleftrightarrow> (\<forall>work ctx c. c \<in> set (pl_candidates p work ctx) \<longrightarrow> 0 \<le> mc_cost_estimate c)"

definition gateway_ok :: "('x, gateway_value) invoker_env \<Rightarrow> bool" where
  "gateway_ok iv \<longleftrightarrow> (\<forall>q ctx x m x'. iv_gateway iv q ctx x = (Inr (GatewayResult m), x') \<longrightarrow> usage_ok (mi_actual_usage m))"

definition environment_ok :: "'x interactive_env \<Rightarrow> bool" where
  "environment_ok e \<longleftrightarrow> planner_ok (ie_planner e) \<and> gateway_ok (ie_invoker e)
     \<and> (\<forall>pr t x pt x' work. ie_processor e = Some pr \<longrightarrow> pr_preparer pr t x = (Inr (Inr pt), x') \<longrightarrow> work \<in> set (pt_model_work pt)
          \<longrightarrow> ModelWork_post work = Inr work)"

subsection \<open>Leases\<close>

lemma leased_tried: "tried op now c c' \<Longrightarrow> leased c' = leased c"
  using tried_frame [of op now c c'] by (simp add: leased_def)

lemma acquire_leased:
  assumes "acquire_first off op cs now c = (r, c')" and "lease_wf c"
  shows "case r of Inr (Some a) \<Rightarrow> ca_lease a \<notin> leased c \<and> leased c' = insert (ca_lease a) (leased c) \<and> ca_candidate a \<in> set cs
    | _ \<Rightarrow> leased c' = leased c"
  using acquire_first_outcome(1) [OF assms(1)]
proof (cases rule: acquire_outcome.cases)
  case refused
  then show ?thesis using leased_tried by (auto split: sum.split)
next
  case (granted cand all_ks ks s1)
  let ?s1 = "prune ks (timestamp off now) s1" and ?l = "\<lparr>lease_operation_id = mo_operation_id op, lease_scopes = ks\<rparr>"
  have new: "dget (cap_leases c) (mo_operation_id op) = None" by (rule acquire_first_outcome(2) [OF assms(1) granted(1)])
  have same: "cap_leases s1 = cap_leases c" using tried_frame [OF granted(7)] by simp
  have "?l \<notin> leased c"
  proof
    assume "?l \<in> leased c"
    then obtain i where "dget (cap_leases c) i = Some ?l"
      using values_dget [of "cap_leases c" ?l] assms(2) by (auto simp: leased_def lease_wf_def)
    moreover from this have "i = mo_operation_id op" using assms(2) unfolding lease_wf_def by fastforce
    ultimately show False using new by simp
  qed
  moreover have "leased c' = insert ?l (leased c)"
    using granted new by (simp add: leased_def take_lease_effect same dset_fresh)
  ultimately show ?thesis using granted by simp
qed

lemma admit_leased:
  assumes "admit av off op cs policy now c = (x, c')" and "lease_wf c" and "concurrency_ok c"
  shows "lease_wf c' \<and> concurrency_ok c' \<and> (case x of
      Inl _ \<Rightarrow> leased c' = leased c
    | Inr d \<Rightarrow> if admitted d then \<exists>a :: capacity_admission. ma_candidate d = Some (ca_candidate a) \<and> ma_lease d = Some (ca_lease a) \<and> ca_candidate a \<in> set cs
          \<and> ca_lease a \<notin> leased c \<and> leased c' = insert (ca_lease a) (leased c)
        else leased c' = leased c)"
proof (cases x)
  case (Inl e)
  with assms(1) have "c' = c \<or> (\<exists>es. acquire_first off op (eligible_sorted es) now c = (Inl e, c'))"
    by (auto simp: admit_def bindM_def liftR_def Let_def split: sum.splits prod.splits if_splits option.splits)
  then show ?thesis using assms(2,3) acquire_leased [OF _ assms(2)] acquire_first_wf [OF _ assms(2,3)] Inl by fastforce
next
  case (Inr d)
  with assms(1) have "admit av off op cs policy now c = (Inr d, c')" by simp
  then show ?thesis
  proof (rule admit_cases, goal_cases)
    case (1 es)
    with assms(2,3) Inr show ?case by simp
  next
    case (2 es)
    with acquire_leased [OF 2(5) assms(2)] acquire_first_wf [OF 2(5) assms(2,3)] Inr show ?case by simp
  next
    case (3 es a)
    with acquire_leased [OF 3(4) assms(2)] acquire_first_wf [OF 3(4) assms(2,3)] eligible_sorted_members [OF 3(1)] Inr show ?case by auto
  qed
qed

subsection \<open>Reservations\<close>

lemma reserve_opens:
  assumes "ledger_ok leaks b" and "usage_ok u" and "reserve eid u b = (x, b')"
  shows "(\<exists>leaks'. ledger_ok leaks' b') \<and> (case (case x of Inl _ \<Rightarrow> None | Inr d \<Rightarrow> rd_reservation d) of
      None \<Rightarrow> open_reservations b' = open_reservations b
    | Some r \<Rightarrow> reservation_id r \<notin> open_reservations b \<and> open_reservations b' = insert (reservation_id r) (open_reservations b))"
proof -
  have ok: "controller_ok b" using assms(1) by (simp add: ledger_ok_def)
  show ?thesis
  proof (rule reserve_outcomes [OF ok assms(2), of eid], goal_cases)
    case (1 e)
    with assms(1,3) show ?case by auto
  next
    case (2 bb y)
    with assms(1,3) show ?case by auto
  next
    case (3 bb bs' e)
    with assms ledger_ok_reserve_raised [OF assms(1,2) 3(1)] show ?case by (auto simp: open_reservations_def)
  next
    case (4 bb bs' revs)
    with assms(3) have x: "x = Inr \<lparr>rd_reservation = Some (granted_reservation b eid bb u revs), rd_exhaustion = None\<rparr>" by simp
    have "\<exists>leaks'. ledger_ok leaks' b'" using ledger_ok_reserve [OF assms(1,2) assms(3) [unfolded x]] by blast
    with 4 assms(3) show ?case
      by (auto simp: x open_reservations_def granted_reservation_def fresh_identifier_def Let_def split: option.splits if_splits)
  qed
qed

lemma reconcile_closes:
  assumes "ledger_ok leaks b" and "usage_ok u" and "rid \<in> open_reservations b" and "reconcile rid u b = (x, b')"
  shows "(\<exists>receipt. x = Inr receipt) \<and> ledger_ok leaks b' \<and> open_reservations b' = open_reservations b - {rid}"
proof -
  have ok: "controller_ok b" "covered b" using assms(1) accounts_covered by (auto simp: ledger_ok_def)
  note kept = ledger_ok_reconcile [OF assms(1,2,4)]
  show ?thesis
    by (rule reconcile_outcomes [OF ok assms(2), of rid])
      (use assms(3,4) kept in \<open>auto simp: open_reservations_def split: option.splits if_splits\<close>)
qed

subsection \<open>The contract holds for them\<close>

lemma configuration_int_nonneg: "0 \<le> fallback \<Longrightarrow> 0 \<le> configuration_int ctx key fallback"
  by (simp add: configuration_int_def split: pyval.split)

lemma planned_tokens_nonneg:
  assumes "ModelWork_post work = Inr work"
  shows "0 \<le> planned_input_tokens ctx work" "0 \<le> planned_output_tokens ctx work"
  using assms configuration_int_nonneg [of 0]
  by (auto simp: planned_input_tokens_def planned_output_tokens_def ModelWork_post_def negative_estimate_def split: option.splits if_splits)

lemma plan_model_books:
  assumes "planner_ok p" and "books_ok w" and "ModelWork_post work = Inr work"
    and "plan_model p i work ctx ms w = (x, w')"
  shows "books_ok w' \<and> iw_budget w' = iw_budget w \<and> (case x of
      Inl _ \<Rightarrow> leased (iw_capacity w') = leased (iw_capacity w)
    | Inr q \<Rightarrow> usage_ok (mp_estimate q) \<and> mp_lease q \<notin> leased (iw_capacity w) \<and> leased (iw_capacity w') = insert (mp_lease q) (leased (iw_capacity w)))"
proof (cases "planned_operation p i work ctx ms")
  case (Inl f)
  with assms show ?thesis by (auto simp: plan_model_def bindM_def liftR_def)
next
  case op: (Inr op)
  obtain y x1 where clock: "pl_clock p (iw_rest w) = (y, x1)" by fastforce
  show ?thesis
  proof (cases y)
    case (Inl f)
    with assms op clock show ?thesis by (auto simp: plan_model_def bindM_def liftR_def outside_def books_ok_def)
  next
    case (Inr now)
    let ?admit = "admit (pl_available p) (pl_utc_offset p) op (pl_candidates p work ctx)
       (pl_policy p ctx) now"
    obtain z c where admit: "?admit (iw_capacity w) = (z, c)" by fastforce
    let ?w = "w\<lparr>iw_rest := x1, iw_capacity := c\<rparr>"
    from admit_leased [OF admit] assms(2) have c: "books_ok ?w"
      "case z of Inl _ \<Rightarrow> leased c = leased (iw_capacity w)
       | Inr d \<Rightarrow> if admitted d then \<exists>a :: capacity_admission. ma_candidate d = Some (ca_candidate a) \<and> ma_lease d = Some (ca_lease a)
           \<and> ca_candidate a \<in> set (pl_candidates p work ctx) \<and> ca_lease a \<notin> leased (iw_capacity w)
           \<and> leased c = insert (ca_lease a) (leased (iw_capacity w)) else leased c = leased (iw_capacity w)"
      by (auto simp: books_ok_def)
    note run = assms(4) [unfolded plan_model_def]
    consider f where "z = Inl f" | d where "z = Inr d" "\<not> admitted d" | d where "z = Inr d" "admitted d" by (cases z) auto
    then show ?thesis
    proof cases
      case 1
      with run op clock Inr admit c show ?thesis by (auto simp: bindM_def liftR_def outside_def on_capacity_def)
    next
      case 2
      with run op clock Inr admit c show ?thesis by (auto simp: bindM_def liftR_def outside_def on_capacity_def)
    next
      case 3
      with c(2) obtain a :: capacity_admission where a: "ma_candidate d = Some (ca_candidate a)" "ma_lease d = Some (ca_lease a)"
          "ca_candidate a \<in> set (pl_candidates p work ctx)" "ca_lease a \<notin> leased (iw_capacity w)"
          "leased c = insert (ca_lease a) (leased (iw_capacity w))" by auto
      then have "0 \<le> mc_cost_estimate (ca_candidate a)" using assms(1) unfolding planner_ok_def by blast
      with planned_tokens_nonneg [OF assms(3), of ctx]
      obtain u where u: "Usage (mc_cost_estimate (ca_candidate a)) (planned_input_tokens ctx work) (planned_output_tokens ctx work) = Inr u" "usage_ok u"
        by (auto simp: Usage_def usage_ok_def)
      with run op clock Inr admit c(1) 3 a show ?thesis by (auto simp: bindM_def liftR_def outside_def on_capacity_def)
    qed
  qed
qed

lemma outside_books: "books_ok w \<Longrightarrow> books_ok (snd (outside m w)) \<and> iw_budget (snd (outside m w)) = iw_budget w
    \<and> iw_capacity (snd (outside m w)) = iw_capacity w"
  by (simp add: outside_def case_prod_beta books_ok_def)

lemma complete_books:
  assumes "books_ok w" and "mp_lease q \<in> leased (iw_capacity w)" and "complete_plan q w = (x, w')"
  shows "x = Inr () \<and> books_ok w' \<and> iw_budget w' = iw_budget w \<and> leased (iw_capacity w') = leased (iw_capacity w) - {mp_lease q}"
proof -
  obtain b c where release: "capacity_release (mp_lease q) (iw_capacity w) = (b, c)" by fastforce
  have "lease_wf (iw_capacity w)" "concurrency_ok (iw_capacity w)" using assms(1) by (simp_all add: books_ok_def)
  with release_law [OF _ release] release_wf [OF release]
  have "lease_wf c" "concurrency_ok c" "leased c = leased (iw_capacity w) - {mp_lease q}" unfolding leased_def by blast+
  moreover have "x = Inr ()" "w' = w\<lparr>iw_capacity := c\<rparr>" using release assms(3) by (simp_all add: complete_plan_def on_capacity_def)
  ultimately show ?thesis using assms(1) by (simp add: books_ok_def)
qed

lemma gateway_usage:
  assumes "gateway_ok iv" and "gateway_invoke iv q payload ctx y = (Inr m, y')"
  shows "usage_ok (mi_actual_usage m)"
proof -
  from assms(2) obtain v y1 where run: "protected_invoke iv (mp_operation q) (mp_candidate q) payload
       (configuration_string ctx ''model_service_identity'' ''model-service'') ctx y = (Inr v, y1)" "invocation_result q v = Inr m"
    by (auto simp: gateway_invoke_def bindM_Inr)
  show ?thesis
  proof (cases v)
    case (GatewayResult r)
    from run(1) obtain request y0 where "iv_gateway iv request ctx y0 = (Inr v, y1)"
      by (auto simp: protected_invoke_def bindM_Inr split: option.splits prod.splits if_splits dest: reject_raises)
    moreover have "v = GatewayResult m" using run(2) GatewayResult by (simp add: invocation_result_def)
    ultimately show ?thesis using assms(1) unfolding gateway_ok_def by blast
  next
    case (GatewayValue x)
    with run(2) show ?thesis by (auto simp: invocation_result_def split: if_splits pyval.splits)
  qed
qed

lemma task_prepare_Inr:
  assumes "task_prepare reg preparer v ctx y = (Inr (Inr pt), y')"
  shows "\<exists>r. preparer r y = (Inr (Inr pt), y')"
proof (cases "resolve_invocation reg v ctx")
  case (Inl e)
  with assms show ?thesis by (simp add: task_prepare_def bindM_def liftR_def)
next
  case a: (Inr a)
  show ?thesis
  proof (cases a)
    case (Inl f)
    with a assms show ?thesis by (simp add: task_prepare_def bindM_def liftR_def)
  next
    case r: (Inr r)
    show ?thesis
    proof (cases "validate_task_invocation r")
      case (Inl e)
      with a r assms show ?thesis by (simp add: task_prepare_def bindM_def liftR_def)
    next
      case (Inr b)
      with a r assms show ?thesis by (cases b) (auto simp: task_prepare_def bindM_def liftR_def)
    qed
  qed
qed

lemma prepared_works:
  assumes "environment_ok e" and "ie_processor e = Some pr" and "processor_prepare pr t source ctx y = (Inr (Inr pt), y')"
    and "work \<in> set (pt_model_work pt)"
  shows "ModelWork_post work = Inr work"
proof -
  obtain f where f: "task_function_of (it_function t) = Some f"
    using assms(3) by (cases "task_function_of (it_function t)") (auto simp: processor_prepare_def)
  obtain rows where rows: "pr_rows pr source ctx = Inr (Inr rows)"
    using assms(3) by (cases "pr_rows pr source ctx") (auto simp: processor_prepare_def f bindM_Inr split: sum.splits)
  let ?post = "TaskInvocation_post \<lparr>tv_function = f, tv_parameters = it_parameters t, tv_rows = rows,
    tv_requested_version = it_requested_definition_version t\<rparr>"
  have "\<exists>v. task_prepare (pr_registry pr) (pr_preparer pr) v ctx y = (Inr (Inr pt), y')"
  proof (cases ?post)
    case (Inl err)
    with assms(3) show ?thesis by (cases err) (auto simp: processor_prepare_def f rows bindM_def liftR_def)
  next
    case (Inr v)
    with assms(3) show ?thesis by (auto simp: processor_prepare_def f rows bindM_def liftR_def)
  qed
  then obtain v where "task_prepare (pr_registry pr) (pr_preparer pr) v ctx y = (Inr (Inr pt), y')" ..
  from task_prepare_Inr [OF this] obtain r where "pr_preparer pr r y = (Inr (Inr pt), y')" ..
  with assms(1,2,4) show ?thesis unfolding environment_ok_def by blast
qed

lemma bound_reserve_books:
  assumes "books_ok w" and "usage_ok u" and "bound_reserve ctx u w = (x, w')"
  shows "books_ok w' \<and> iw_capacity w' = iw_capacity w \<and> (case (case x of Inl _ \<Rightarrow> None | Inr d \<Rightarrow> rd_reservation d) of
      None \<Rightarrow> open_reservations (iw_budget w') = open_reservations (iw_budget w)
    | Some r \<Rightarrow> reservation_id r \<notin> open_reservations (iw_budget w)
        \<and> open_reservations (iw_budget w') = insert (reservation_id r) (open_reservations (iw_budget w)))"
proof -
  obtain b where run: "reserve (execution_id ctx) u (iw_budget w) = (x, b)" and w': "w' = w\<lparr>iw_budget := b\<rparr>"
    using assms(3) by (auto simp: bound_reserve_def on_budget_def split: prod.splits)
  from assms(1) obtain leaks where "ledger_ok leaks (iw_budget w)" by (auto simp: books_ok_def)
  moreover have "iw_budget w' = b" "iw_capacity w' = iw_capacity w" using w' by simp_all
  moreover note reserve_opens [OF \<open>ledger_ok leaks (iw_budget w)\<close> assms(2) run]
  ultimately show ?thesis using assms(1) unfolding books_ok_def by presburger
qed

lemma bound_reconcile_books:
  assumes "books_ok w" and "usage_ok u" and "rid \<in> open_reservations (iw_budget w)" and "bound_reconcile rid u w = (x, w')"
  shows "(\<exists>receipt. x = Inr receipt) \<and> books_ok w' \<and> iw_capacity w' = iw_capacity w
    \<and> open_reservations (iw_budget w') = open_reservations (iw_budget w) - {rid}"
proof -
  obtain b where run: "reconcile rid u (iw_budget w) = (x, b)" and w': "w' = w\<lparr>iw_budget := b\<rparr>"
    using assms(4) by (auto simp: bound_reconcile_def on_budget_def split: prod.splits)
  from assms(1) obtain leaks where "ledger_ok leaks (iw_budget w)" by (auto simp: books_ok_def)
  from reconcile_closes [OF this assms(2,3) run] assms(1) show ?thesis by (auto simp: w' books_ok_def)
qed

interpretation routed: settled_ports "routed_ports e" ctx "\<lambda>w. environment_ok e \<and> books_ok w" "\<lambda>w. open_reservations (iw_budget w)"
    "\<lambda>w. leased (iw_capacity w)" "\<lambda>work. ModelWork_post work = Inr work" for e :: "'x interactive_env" and ctx
proof (unfold_locales, goal_cases)
  case (1 w work i ms err w')
  then show ?case using plan_model_books [of "ie_planner e" w work i ctx ms "Inl err" w'] by (simp add: routed_ports_def environment_ok_def same_books_def)
next
  case (2 w work i ms q w')
  then show ?case using plan_model_books [of "ie_planner e" w work i ctx ms "Inr q" w'] by (simp add: routed_ports_def environment_ok_def)
next
  case (3 w q x w')
  then show ?case using complete_books [of w q x w'] by (simp add: routed_ports_def)
next
  case (4 w u x w')
  then show ?case using bound_reserve_books [of w u ctx x w'] by (auto simp: routed_ports_def same_books_def split: sum.splits)
next
  case (5 w u d w' r)
  then show ?case using bound_reserve_books [of w u ctx "Inr d" w'] by (simp add: routed_ports_def)
next
  case (6 w rid u x w')
  then show ?case using bound_reconcile_books [of w u rid x w'] by (simp add: routed_ports_def)
next
  case (7 w q source m w')
  then show ?case by (auto simp: routed_ports_def outside_def executor_invoke_def environment_ok_def split: prod.splits dest: gateway_usage)
next
  case (14 w)
  then show ?case by (simp add: routed_ports_def case_prod_beta same_books_def books_ok_def)
next
  case (17 tp w t source pt w' work)
  then show ?case by (auto simp: routed_ports_def routed_pipeline_def outside_def split: prod.splits dest: prepared_works)
qed (auto simp: routed_ports_def routed_pipeline_def outside_def case_prod_beta same_books_def books_ok_def)

section \<open>Properties\<close>

text \<open>C9. What a run takes it gives back. Over the router, the budget controller and the capacity of
  the repository, once every task of a run has been cancelled or has completed, the open budget
  reservations and the capacity leases are those from before the run, on every schedule, also
  when reads, plans, invocations, checks or the run itself raise, and the ledger and the
  capacity are as well-formed as before.\<close>

theorem reservations_and_leases_settled:
  assumes "environment_ok e" and "books_ok w" and "\<forall>work \<in> set (ir_model_work r). ModelWork_post work = Inr work"
    and "execute (routed_ports e) sch r ctx (run_init w) = (out, s)" and "{..<length (ru_tasks s)} \<subseteq> fst ` set events"
    and "w' = ru_world (cancel_tasks (routed_ports e) ctx events s)"
  shows "open_reservations (iw_budget w') = open_reservations (iw_budget w)
    \<and> leased (iw_capacity w') = leased (iw_capacity w) \<and> books_ok w'"
  using routed.run_gives_back [where e = e and w = w and ctx = ctx and r = r and s = s and events = events] assms by (simp add: same_books_def)

section \<open>Witnesses\<close>

text \<open>A run over the real router, capacity and ledger in which the task is still waiting for
  its model, with a reservation and a lease, when the response is sent.\<close>

definition sample_environment :: "nat interactive_env" where
  "sample_environment = \<lparr>ie_planner = \<lparr>pl_available = (\<lambda>_ _. True), pl_utc_offset = (\<lambda>_. 0), pl_candidates = (\<lambda>_ _. [sample_candidate]),
       pl_policy = (\<lambda>_. Some sample_routing_policy), pl_clock = (\<lambda>w. (Inr (Aware 0), w)), pl_float = (\<lambda>_. None)\<rparr>,
     ie_dal = \<lparr>dl_plans = [(\<lparr>qpr_plan_id = ''q'', qpr_version = ''1''\<rparr>, sample_plan)],
       dl_contract = \<lparr>vnc_version = ''1'', vnc_capabilities = {''operation:select''}, vnc_normalized_types = {}\<rparr>,
       dl_capabilities = {''operation:select''}, dl_adapter_version = ''1'', dl_execute = (\<lambda>p ps a ctx w. (Inr sample_raw, w)),
       dl_cancel = (\<lambda>t w. (Inr (), w)), dl_authorize = (\<lambda>c p ctx w. (Inr sample_access, w)), dl_audit = (\<lambda>e w. (Inr (), w)),
       dl_clock = (\<lambda>w. (Inr (Aware 0), w)), dl_float = (\<lambda>_. [])\<rparr>,
     ie_invoker = \<lparr>iv_policies = [], iv_authenticate = (\<lambda>i _ _ s. (Inr \<lparr>au_authenticated = True, au_service_identity = i, au_reason_code = []\<rparr>, s)),
       iv_gateway = (\<lambda>r _ s. (Inr (GatewayValue VNone), s)), iv_sink = (\<lambda>_ s. (Inr (), s)), iv_clock = (\<lambda>s. (Inr (Aware 0), s)),
       iv_show = class_name, iv_iso = (\<lambda>_. [])\<rparr>,
     ie_payload = (\<lambda>_ _. VNone), ie_validator = \<lparr>ve_show = class_name, ve_sha = (\<lambda>s. s), ve_record = (\<lambda>_ s. (Inr (), s))\<rparr>,
     ie_rules = [], ie_processor = None, ie_now = (\<lambda>w. (Inr (Aware (int w)), Suc w)), ie_monotonic = (\<lambda>w. (of_nat w, Suc w)),
     ie_reserve_ms = 50\<rparr>"

definition sample_interactive_world :: "nat interactive_world" where
  "sample_interactive_world = \<lparr>iw_budget = Budget_Accounting.sample_bound, iw_capacity = capacity_init [], iw_rest = 0\<rparr>"

definition sample_caller :: execution_context where
  "sample_caller = sample_reader\<lparr>timing := \<lparr>accepted_at = Aware 0, deadline = Some (Aware 1000000)\<rparr>\<rparr>"

definition sample_interrupted :: run_schedule where
  "sample_interrupted = \<lparr>sc_read_in_time = True, sc_steps = [0], sc_rank = (\<lambda>_. 0)\<rparr>"

lemma sample_interrupted_run:
  "case execute (routed_ports sample_environment) sample_interrupted sample_request sample_caller (run_init sample_interactive_world) of (out, s) \<Rightarrow>
     (case ru_tasks s of [op] \<Rightarrow> (case op_status op of Waiting q rid t \<Rightarrow> rid = ''r1'' | _ \<Rightarrow> False) | _ \<Rightarrow> False)
     \<and> (case dget (reservations (iw_budget (ru_world s))) ''r1'' of Some x \<Rightarrow> rec_receipt x = None | None \<Rightarrow> False)"
  by code_simp

lemma reservations_and_leases_settled_witness:
  "\<exists>s. ''r1'' \<in> open_reservations (iw_budget (ru_world s))
     \<and> open_reservations (iw_budget (ru_world (cancel_tasks (routed_ports sample_environment) sample_caller [(0, False)] s))) = {}
     \<and> leased (iw_capacity (ru_world (cancel_tasks (routed_ports sample_environment) sample_caller [(0, False)] s))) = {}"
proof -
  obtain out s where run: "execute (routed_ports sample_environment) sample_interrupted sample_request sample_caller
      (run_init sample_interactive_world) = (out, s)" by fastforce
  from sample_interrupted_run run have s: "length (ru_tasks s) = 1" "''r1'' \<in> open_reservations (iw_budget (ru_world s))"
    by (auto simp: open_reservations_def split: list.splits)
  have "ledger_ok [] Budget_Accounting.sample_bound" by (rule ledger_run_ok [OF sample_bound_run])
  then have "books_ok sample_interactive_world"
    using init_wf [of "[]"] by (auto simp: books_ok_def sample_interactive_world_def limits_valid_def)
  moreover have "environment_ok sample_environment"
    by (auto simp: environment_ok_def planner_ok_def gateway_ok_def sample_environment_def sample_candidate_def)
  moreover have "\<forall>work \<in> set (ir_model_work sample_request). ModelWork_post work = Inr work" by code_simp
  ultimately have "open_reservations (iw_budget (ru_world (cancel_tasks (routed_ports sample_environment) sample_caller [(0, False)] s)))
      = open_reservations (iw_budget sample_interactive_world)
    \<and> leased (iw_capacity (ru_world (cancel_tasks (routed_ports sample_environment) sample_caller [(0, False)] s)))
      = leased (iw_capacity sample_interactive_world)"
    using reservations_and_leases_settled [OF _ _ _ run _ refl, of "[(0, False)]"] s(1) by (simp add: lessThan_Suc)
  with s(2) show ?thesis
    by (auto simp: sample_interactive_world_def leased_def capacity_init_def open_reservations_def Budget_Accounting.sample_defs)
qed

end
