(* ===== verification/Bulk_Checkpoints.thy ===== *)
theory Bulk_Checkpoints
  imports Admission Task_Output
begin

text \<open>
  What the stages of a task in the bulk pipeline of \<open>composition/prototype.py\<close> hand over through
  the object store: the invocation in the payload of a work item, the prepared task, the
  responses of the models in base64 or as JSON. Everything is read back from JSON, so a value of
  an unexpected shape meets the operations Python would apply to it. The reader, the digest
  and the texts of values are parameters.
\<close>

declare map_of_eq_Some_iff [simp del]

record stage_env =
  sv_sha :: "string \<Rightarrow> string"
  sv_float :: "rat \<Rightarrow> string"
  sv_wide :: "nat \<Rightarrow> string"
  sv_number :: "string \<Rightarrow> pyfloat"
  sv_depth :: nat
  sv_frames :: nat
  sv_lone :: "string \<Rightarrow> bool"
  sv_repr :: "pyval \<Rightarrow> string"
  sv_str :: "pyval \<Rightarrow> string"
  sv_encoded :: "string \<Rightarrow> string res"
  sv_registry :: task_registry

section \<open>Python on values that were read\<close>

definition missing_attribute :: "string \<Rightarrow> string \<Rightarrow> exn" where
  "missing_attribute cls name = ForeignError ''AttributeError''
     (CHR 0x27 # cls @ CHR 0x27 # '' object has no attribute '' @ CHR 0x27 # name @ [CHR 0x27])"

text \<open>\<open>v[k]\<close>, \<open>v.get(k, d)\<close> and iteration over \<open>v\<close>, for values of \<open>json.loads\<close>.\<close>

definition py_item :: "pyval \<Rightarrow> string \<Rightarrow> pyval res" where
  "py_item v k = (case v of
     VDict kvs \<Rightarrow> (case dget kvs (VStr k) of None \<Rightarrow> Inl (KeyError k) | Some x \<Rightarrow> Inr x)
   | VList _ \<Rightarrow> Inl (TypeError ''list indices must be integers or slices, not str'')
   | VStr _ \<Rightarrow> Inl (TypeError (''string indices must be integers, not '' @ CHR 0x27 # ''str'' @ [CHR 0x27]))
   | _ \<Rightarrow> Inl (TypeError (CHR 0x27 # class_name v @ CHR 0x27 # '' object is not subscriptable'')))"

definition py_get :: "pyval \<Rightarrow> string \<Rightarrow> pyval \<Rightarrow> pyval res" where
  "py_get v k d = (case v of
     VDict kvs \<Rightarrow> Inr (case dget kvs (VStr k) of None \<Rightarrow> d | Some x \<Rightarrow> x)
   | _ \<Rightarrow> Inl (missing_attribute (class_name v) ''get''))"

definition py_iter :: "pyval \<Rightarrow> pyval list res" where
  "py_iter v = (case v of
     VList xs \<Rightarrow> Inr xs
   | VDict kvs \<Rightarrow> Inr (map fst kvs)
   | VStr s \<Rightarrow> Inr (map (\<lambda>c. VStr [c]) s)
   | _ \<Rightarrow> Inl (TypeError (CHR 0x27 # class_name v @ CHR 0x27 # '' object is not iterable'')))"

fun hashable :: "pyval \<Rightarrow> bool" where
  "hashable (VList _) = False"
| "hashable (VDict _) = False"
| "hashable _ = True"

definition unhashable :: "pyval \<Rightarrow> exn" where
  "unhashable v = TypeError (''unhashable type: '' @ CHR 0x27 # class_name v @ [CHR 0x27])"

fun map_res :: "('a \<Rightarrow> 'b res) \<Rightarrow> 'a list \<Rightarrow> 'b list res" where
  "map_res f [] = Inr []"
| "map_res f (x # xs) = bindR (f x) (\<lambda>y. bindR (map_res f xs) (\<lambda>ys. Inr (y # ys)))"

text \<open>\<open>zip(xs, ys, strict=True)\<close>, run to its end.\<close>

fun zip_strict :: "'a list \<Rightarrow> 'b list \<Rightarrow> ('a \<times> 'b) list res" where
  "zip_strict (x # xs) (y # ys) = bindR (zip_strict xs ys) (\<lambda>ps. Inr ((x, y) # ps))"
| "zip_strict [] [] = Inr []"
| "zip_strict (x # xs) [] = Inl (ValueError ''zip() argument 2 is shorter than argument 1'')"
| "zip_strict [] (y # ys) = Inl (ValueError ''zip() argument 2 is longer than argument 1'')"

lemma frozen_case_Inr:
  "(case v of VFrozen m \<Rightarrow> f m | _ \<Rightarrow> Inl e) = Inr x \<longleftrightarrow> (\<exists>m. v = VFrozen m \<and> f m = Inr x)"
  by (cases v) auto

section \<open>JSON in the object store\<close>

definition stage_reader :: "'e stage_env_scheme \<Rightarrow> json_reader" where
  "stage_reader env = \<lparr>jr_wide = sv_wide env, jr_float = sv_number env, jr_depth = sv_depth env, jr_unique = False, jr_constants = True\<rparr>"

definition load_json :: "'e stage_env_scheme \<Rightarrow> object_reference \<Rightarrow> object_store \<Rightarrow> pyval res" where
  "load_json env ref st =
     bindR (get_object (sv_sha env) ref st) (\<lambda>b. bindR (decode_utf8 (stage_reader env) b) (loads (stage_reader env)))"

text \<open>The reference of a result may be missing: \<open>None\<close> has no attribute \<open>reference\<close>.\<close>

definition required_reference :: "object_reference option \<Rightarrow> object_reference res" where
  "required_reference ref = (case ref of None \<Rightarrow> Inl (missing_attribute ''NoneType'' ''reference'') | Some r \<Rightarrow> Inr r)"

definition load_result :: "'e stage_env_scheme \<Rightarrow> object_reference option \<Rightarrow> object_store \<Rightarrow> pyval res" where
  "load_result env ref st = bindR (required_reference ref) (\<lambda>r. load_json env r st)"

text \<open>\<open>json.loads\<close> of bytes: ASCII without zero bytes is read as it is, what \<open>json.detect_encoding\<close>
  makes of other bytes is the parameter \<open>sv_encoded\<close>.\<close>

definition plain_ascii :: "string \<Rightarrow> bool" where
  "plain_ascii b = list_all (\<lambda>c. 0 < (of_char c :: nat) \<and> (of_char c :: nat) < 128) b"

definition load_bytes :: "'e stage_env_scheme \<Rightarrow> object_reference option \<Rightarrow> object_store \<Rightarrow> pyval res" where
  "load_bytes env ref st =
     bindR (required_reference ref) (\<lambda>r. bindR (get_object (sv_sha env) r st) (\<lambda>b.
     bindR (if plain_ascii b then Inr b else sv_encoded env b) (loads (stage_reader env))))"

definition is_task :: "'e stage_env_scheme \<Rightarrow> object_reference \<Rightarrow> object_store \<Rightarrow> bool res" where
  "is_task env ref st =
     (case bindR (load_json env ref st) (\<lambda>v. py_get v ''kind'' VNone) of
        Inr k \<Rightarrow> Inr (k = VStr ''task_invocation'')
      | Inl e \<Rightarrow> if exn_name e \<in> {''UnicodeDecodeError'', ''JSONDecodeError'', ''AttributeError''} then Inr False else Inl e)"

section \<open>Failures of a task\<close>

text \<open>\<open>json.dumps(..., default=str)\<close>: what JSON does not have becomes its text.\<close>

fun default_str :: "(pyval \<Rightarrow> string) \<Rightarrow> pyval \<Rightarrow> pyval"
and default_str_list :: "(pyval \<Rightarrow> string) \<Rightarrow> pyval list \<Rightarrow> pyval list"
and default_str_entries :: "(pyval \<Rightarrow> string) \<Rightarrow> (pyval \<times> pyval) list \<Rightarrow> (pyval \<times> pyval) list" where
  "default_str st (VList xs) = VList (default_str_list st xs)"
| "default_str st (VTuple xs) = VList (default_str_list st xs)"
| "default_str st (VDict kvs) = VDict (default_str_entries st kvs)"
| "default_str st VNone = VNone"
| "default_str st (VBool b) = VBool b"
| "default_str st (VInt i) = VInt i"
| "default_str st (VFloat x) = VFloat x"
| "default_str st (VStr s) = VStr s"
| "default_str st v = VStr (st v)"
| "default_str_list st [] = []"
| "default_str_list st (x # xs) = default_str st x # default_str_list st xs"
| "default_str_entries st [] = []"
| "default_str_entries st ((k, v) # kvs) = (k, default_str st v) # default_str_entries st kvs"

definition failure_details :: "'e stage_env_scheme \<Rightarrow> task_failure \<Rightarrow> string res" where
  "failure_details env f = dumps (default_json (sv_float env)) (default_str (sv_str env) (VDict [
     (VStr ''stage'', VStr (stage_value (xf_stage f))),
     (VStr ''rules'', VTuple (map VStr (xf_rules f))),
     (VStr ''details'', VDict (map (\<lambda>p. (VStr (fst p), snd p)) (xf_details f)))]))"

definition raise_failure :: "'e stage_env_scheme \<Rightarrow> terminal_work_item_state \<Rightarrow> task_failure \<Rightarrow> 'b res" where
  "raise_failure env state f =
     bindR (failure_details env f) (\<lambda>d. Inl (BulkTaskFailure state (code_value (xf_code f)) d))"

section \<open>The invocation in a payload\<close>

definition function_named :: "'e stage_env_scheme \<Rightarrow> pyval \<Rightarrow> task_function res" where
  "function_named env v = (case (case v of VStr s \<Rightarrow> task_function_of s | _ \<Rightarrow> None) of
     Some f \<Rightarrow> Inr f
   | None \<Rightarrow> Inl (ValueError (sv_repr env v @ '' is not a valid TaskFunction'')))"

text \<open>\<open>RowInput(row["id"], freeze(row["source"]))\<close>; the check of the identifier calls \<open>strip\<close>.\<close>

definition json_row :: "pyval \<Rightarrow> row_input res" where
  "json_row v =
     bindR (py_item v ''id'') (\<lambda>i. bindR (bindR (py_item v ''source'') freeze) (\<lambda>source. case source of
       VFrozen m \<Rightarrow> (case i of VStr t \<Rightarrow> RowInput_post \<lparr>ri_identifier = t, ri_source_fields = m\<rparr>
         | _ \<Rightarrow> Inl (missing_attribute (class_name i) ''strip''))
     | _ \<Rightarrow> Inl (TypeError ''source_fields must be a FrozenMapping'')))"

definition json_rows :: "pyval \<Rightarrow> row_input list res" where
  "json_rows data = bindR (bindR (py_item data ''rows'') py_iter) (map_res json_row)"

definition new_invocation :: "task_function \<Rightarrow> frozen_mapping \<Rightarrow> row_input list \<Rightarrow> pyval \<Rightarrow> task_invocation res" where
  "new_invocation f params rows requested =
     (let v = \<lparr>tv_function = f, tv_parameters = params, tv_rows = rows, tv_requested_version = None\<rparr> in
      case requested of
        VNone \<Rightarrow> TaskInvocation_post v
      | VStr s \<Rightarrow> TaskInvocation_post (v\<lparr>tv_requested_version := Some s\<rparr>)
      | _ \<Rightarrow> bindR (TaskInvocation_post v) (\<lambda>_. Inl (missing_attribute (class_name requested) ''strip'')))"

definition invocation_of_json :: "'e stage_env_scheme \<Rightarrow> pyval \<Rightarrow> task_invocation res" where
  "invocation_of_json env data =
     bindR (bindR (py_item data ''function'') (function_named env)) (\<lambda>f.
     bindR (bindR (py_item data ''parameters'') freeze) (\<lambda>params.
     bindR (json_rows data) (\<lambda>rows. case params of
       VFrozen m \<Rightarrow> bindR (py_get data ''requested_definition_version'' VNone) (new_invocation f m rows)
     | _ \<Rightarrow> Inl (AssertionError []))))"

text \<open>\<open>except (KeyError, TypeError, ValueError)\<close>.\<close>

definition invalid_invocation :: "exn \<Rightarrow> bool" where
  "invalid_invocation e \<longleftrightarrow> type_or_value_error e \<or> exn_name e = ''KeyError''"

definition read_invocation :: "'e stage_env_scheme \<Rightarrow> pyval \<Rightarrow> task_invocation res" where
  "read_invocation env data = (case invocation_of_json env data of
     Inl e \<Rightarrow> if invalid_invocation e then Inl (BulkTaskFailure TS_VALIDATION_FAILED ''invalid_task_invocation'' (exn_name e)) else Inl e
   | Inr v \<Rightarrow> Inr v)"

section \<open>Preparing a task\<close>

text \<open>\<open>_ObjectPayloadStore\<close> and \<open>_PrototypeTokenEstimator\<close>.\<close>

definition payload_put :: "(string \<Rightarrow> string) \<Rightarrow> string \<Rightarrow> string \<Rightarrow> (object_store, string) meth" where
  "payload_put sha payload hash =
     bindM (put_payload sha payload) (\<lambda>ref.
       if content_hash ref \<noteq> hash then raiseM (ValueError ''payload store content hash mismatch'')
       else pureM (obj_reference ref))"

definition prototype_packer :: "'e stage_env_scheme \<Rightarrow> object_store packer_env" where
  "prototype_packer env = \<lparr>pe_input = (\<lambda>payload. Inr (VInt (max ((int (length payload) + 3) div 4) 1))),
     pe_output = (\<lambda>_ n. Inr (VInt (max (n * 8) 1))), pe_put = payload_put (sv_sha env),
     pe_sha = sv_sha env, pe_float = sv_float env\<rparr>"

definition prepare_task :: "'e stage_env_scheme \<Rightarrow> object_reference \<Rightarrow> execution_context \<Rightarrow> (object_store, prepared_task) meth" where
  "prepare_task env ref ctx =
     bindM (\<lambda>st. (load_json env ref st, st)) (\<lambda>data.
     bindM (liftR (read_invocation env data)) (\<lambda>v.
     bindM (task_prepare (sv_registry env) (pack_prepare (prototype_packer env)) v ctx) (\<lambda>prepared. case prepared of
       Inl f \<Rightarrow> liftR (raise_failure env (if xf_stage f = TS_RESOLUTION then TS_POLICY_REJECTED else TS_VALIDATION_FAILED) f)
     | Inr t \<Rightarrow> pureM t)))"

definition pack_entry :: "'e stage_env_scheme \<Rightarrow> packed_request \<times> model_work \<Rightarrow> pyval" where
  "pack_entry env pw = (case pw of (p, w) \<Rightarrow> VDict [
     (VStr ''pack_index'', VInt (pk_pack_index p)),
     (VStr ''input_ids'', VTuple (map VStr (pk_input_ids p))),
     (VStr ''payload_reference'', VStr (payload_reference w)),
     (VStr ''payload_hash'', VStr (sv_sha env (pk_payload p))),
     (VStr ''estimated_input_tokens'', VInt (pk_estimated_input_tokens p)),
     (VStr ''estimated_output_tokens'', VInt (pk_estimated_output_tokens p))])"

definition row_entry :: "row_input \<Rightarrow> pyval" where
  "row_entry r = VDict [(VStr ''id'', VStr (ri_identifier r)), (VStr ''source'', VFrozen (ri_source_fields r))]"

definition prepared_entry :: "'e stage_env_scheme \<Rightarrow> prepared_task \<Rightarrow> string \<Rightarrow> (packed_request \<times> model_work) list \<Rightarrow> pyval" where
  "prepared_entry env t hash pws = VDict [
     (VStr ''kind'', VStr ''prepared_task''),
     (VStr ''function'', VStr (function_value (td_function (pt_definition t)))),
     (VStr ''definition_version'', VStr (td_version (pt_definition t))),
     (VStr ''definition_hash'', VStr hash),
     (VStr ''parameters'', VFrozen (tv_parameters (pt_invocation t))),
     (VStr ''rows'', VTuple (map row_entry (tv_rows (pt_invocation t)))),
     (VStr ''requested_definition_version'', optional_text (tv_requested_version (pt_invocation t))),
     (VStr ''packs'', VTuple (map (pack_entry env) pws))]"

definition prepared_bytes :: "'e stage_env_scheme \<Rightarrow> prepared_task \<Rightarrow> string res" where
  "prepared_bytes env t =
     bindR (canonical_definition_bytes (sv_float env) (pt_definition t)) (\<lambda>b.
     bindR (zip_strict (pt_packs t) (pt_model_work t)) (\<lambda>pws.
       canonical_payload_bytes (sv_float env) (prepared_entry env t (sv_sha env b) pws)))"

section \<open>Reading a prepared task back\<close>

text \<open>\<open>registry.resolve(function, version)\<close>: no version is no definition, and a key that is no text
  has none.\<close>

definition definition_named :: "'e stage_env_scheme \<Rightarrow> task_function \<Rightarrow> pyval \<Rightarrow> task_definition option res" where
  "definition_named env f v = (case v of
     VStr s \<Rightarrow> Inr (resolve_task (sv_registry env) f s)
   | VList [] \<Rightarrow> Inr None
   | VDict [] \<Rightarrow> Inr None
   | _ \<Rightarrow> if hashable v then Inr None else Inl (unhashable v))"

definition resolved_payload :: "'e stage_env_scheme \<Rightarrow> pyval \<Rightarrow> object_store \<Rightarrow> object_reference res" where
  "resolved_payload env v st = (case v of
     VStr s \<Rightarrow> resolve_object (sv_sha env) s st
   | _ \<Rightarrow> if hashable v then Inl (KeyError (''unknown object reference: '' @ sv_str env v)) else Inl (unhashable v))"

text \<open>The checks of \<open>PackedRequest\<close> on values that were read: a number that is no integer fails like
  a negative one, and \<open>strip\<close> is called on the identifiers in turn.\<close>

fun checked_int :: "pyval \<Rightarrow> int" where
  "checked_int (VInt n) = n"
| "checked_int _ = - 1"

fun stripped_texts :: "pyval list \<Rightarrow> string list res" where
  "stripped_texts [] = Inr []"
| "stripped_texts (VStr s # vs) =
     (if blank s then Inl (ValueError ''packed request requires non-blank input identifiers'')
      else bindR (stripped_texts vs) (\<lambda>ts. Inr (s # ts)))"
| "stripped_texts (v # vs) = Inl (missing_attribute (class_name v) ''strip'')"

definition new_pack :: "task_definition \<Rightarrow> task_function \<Rightarrow> string \<Rightarrow> pyval \<Rightarrow> pyval list \<Rightarrow> pyval \<Rightarrow> pyval \<Rightarrow> packed_request res" where
  "new_pack d f payload index ids i u =
     bindR (if blank (td_version d) \<or> checked_int index < 0 then Inr [] else stripped_texts ids) (\<lambda>ts.
       PackedRequest_post \<lparr>pk_function = f, pk_definition_version = td_version d, pk_pack_index = checked_int index,
         pk_input_ids = ts, pk_payload = payload, pk_estimated_input_tokens = checked_int i,
         pk_estimated_output_tokens = checked_int u\<rparr>)"

definition pack_work :: "task_definition \<Rightarrow> task_function \<Rightarrow> string \<Rightarrow> packed_request \<Rightarrow> model_work" where
  "pack_work d f ref p = \<lparr>task_type = function_value f, payload_reference = ref, mw_input_ids = pk_input_ids p,
     required_capabilities = td_required_capabilities d, task_definition_version = Some (td_version d),
     estimated_input_tokens = Some (pk_estimated_input_tokens p), estimated_output_tokens = Some (pk_estimated_output_tokens p)\<rparr>"

definition json_pack :: "'e stage_env_scheme \<Rightarrow> object_store \<Rightarrow> task_function \<Rightarrow> task_definition \<Rightarrow> pyval
    \<Rightarrow> (packed_request \<times> model_work) res" where
  "json_pack env st f d v =
     bindR (py_item v ''payload_reference'') (\<lambda>ref.
     bindR (resolved_payload env ref st) (\<lambda>o_ref.
     bindR (get_object (sv_sha env) o_ref st) (\<lambda>payload.
     bindR (py_item v ''payload_hash'') (\<lambda>hash.
       if hash \<noteq> VStr (sv_sha env payload) then Inl (ValueError ''checkpointed task payload hash mismatch'')
       else
         bindR (py_item v ''pack_index'') (\<lambda>index.
         bindR (bindR (py_item v ''input_ids'') py_iter) (\<lambda>ids.
         bindR (py_item v ''estimated_input_tokens'') (\<lambda>i.
         bindR (py_item v ''estimated_output_tokens'') (\<lambda>u.
         bindR (new_pack d f payload index ids i u) (\<lambda>p.
         bindR (ModelWork_post (pack_work d f (obj_reference o_ref) p)) (\<lambda>w. Inr (p, w)))))))))))"

definition load_prepared :: "'e stage_env_scheme \<Rightarrow> object_reference option \<Rightarrow> object_store \<Rightarrow> prepared_task res" where
  "load_prepared env ref st =
     bindR (load_result env ref st) (\<lambda>data.
     bindR (bindR (py_item data ''function'') (function_named env)) (\<lambda>f.
     bindR (bindR (py_item data ''definition_version'') (definition_named env f)) (\<lambda>found. case found of
       None \<Rightarrow> Inl (BulkTaskFailure TS_POLICY_REJECTED ''task_definition_unavailable'' ''checkpointed definition unavailable'')
     | Some d \<Rightarrow>
       bindR (canonical_definition_bytes (sv_float env) d) (\<lambda>b.
       bindR (py_item data ''definition_hash'') (\<lambda>hash.
         if hash \<noteq> VStr (sv_sha env b)
         then Inl (BulkTaskFailure TS_POLICY_REJECTED ''task_definition_incompatible'' ''checkpointed definition mismatch'')
         else
           bindR (bindR (py_item data ''parameters'') freeze) (\<lambda>params. case params of
             VFrozen m \<Rightarrow>
               bindR (json_rows data) (\<lambda>rows.
               bindR (bindR (py_get data ''requested_definition_version'' VNone) (new_invocation f m rows)) (\<lambda>v.
               bindR (bindR (bindR (py_item data ''packs'') py_iter) (map_res (json_pack env st f d))) (\<lambda>pws.
                 PreparedTask_post \<lparr>pt_definition = d, pt_invocation = v, pt_packs = map fst pws, pt_model_work = map snd pws\<rparr>)))
           | _ \<Rightarrow> Inl (AssertionError [])))))))"

section \<open>Responses\<close>

definition base64_alphabet :: string where
  "base64_alphabet = ''ABCDEFGHIJKLMNOPQRSTUVWXYZabcdefghijklmnopqrstuvwxyz0123456789+/''"

definition sextet_char :: "nat \<Rightarrow> char" where
  "sextet_char n = base64_alphabet ! n"

fun b64encode :: "string \<Rightarrow> string" where
  "b64encode [] = []"
| "b64encode [a] = (let x = of_char a in [sextet_char (x div 4), sextet_char (x mod 4 * 16), CHR ''='', CHR ''=''])"
| "b64encode [a, b] = (let x = of_char a; y = of_char b in
     [sextet_char (x div 4), sextet_char (x mod 4 * 16 + y div 16), sextet_char (y mod 16 * 4), CHR ''=''])"
| "b64encode (a # b # c # r) = (let x = of_char a; y = of_char b; z = of_char c in
     [sextet_char (x div 4), sextet_char (x mod 4 * 16 + y div 16), sextet_char (y mod 16 * 4 + z div 64), sextet_char (z mod 64)]
     @ b64encode r)"

definition sextet :: "char \<Rightarrow> nat option" where
  "sextet c = (let n = of_char c :: nat in
     if 65 \<le> n \<and> n \<le> 90 then Some (n - 65) else if 97 \<le> n \<and> n \<le> 122 then Some (n - 71)
     else if 48 \<le> n \<and> n \<le> 57 then Some (n + 4) else if n = 43 then Some 62 else if n = 47 then Some 63 else None)"

text \<open>The strict mode of \<open>b64decode(..., validate=True)\<close>: padding only at the end, nothing outside
  the alphabet.\<close>

fun b64decode :: "string \<Rightarrow> string option" where
  "b64decode [] = Some []"
| "b64decode (a # b # c # d # r) =
     (if r = [] \<and> c = CHR ''='' \<and> d = CHR ''='' then
        (case (sextet a, sextet b) of (Some w, Some x) \<Rightarrow> Some [char_of (w * 4 + x div 16)] | _ \<Rightarrow> None)
      else if r = [] \<and> d = CHR ''='' then
        (case (sextet a, sextet b, sextet c) of
           (Some w, Some x, Some y) \<Rightarrow> Some [char_of (w * 4 + x div 16), char_of (x mod 16 * 16 + y div 4)]
         | _ \<Rightarrow> None)
      else
        (case (sextet a, sextet b, sextet c, sextet d, b64decode r) of
           (Some w, Some x, Some y, Some z, Some rest) \<Rightarrow>
             Some (char_of (w * 4 + x div 16) # char_of (x mod 16 * 16 + y div 4) # char_of (y mod 4 * 64 + z) # rest)
         | _ \<Rightarrow> None))"
| "b64decode _ = None"

definition decoded_bytes :: "pyval \<Rightarrow> pyval res" where
  "decoded_bytes v = (case v of
     VStr s \<Rightarrow>
       if list_ex (\<lambda>c. 128 \<le> (of_char c :: nat)) s
       then Inl (ValueError ''string argument should contain only ASCII characters'')
       else (case b64decode s of Some b \<Rightarrow> Inr (VBytes b) | None \<Rightarrow> Inl (ForeignError ''Error'' ''invalid base64 data''))
   | _ \<Rightarrow> Inl (TypeError (''argument should be a bytes-like object or ASCII string, not '' @ CHR 0x27 # class_name v @ [CHR 0x27])))"

text \<open>One entry of the responses of \<open>_invoke_packs\<close>.\<close>

definition response_entry :: "packed_request \<Rightarrow> pyval \<Rightarrow> pyval" where
  "response_entry p out = (case out of
     VBytes b \<Rightarrow> VDict [(VStr ''pack_index'', VInt (pk_pack_index p)), (VStr ''response_encoding'', VStr ''base64-bytes''),
       (VStr ''output'', VStr (b64encode b))]
   | _ \<Rightarrow> VDict [(VStr ''pack_index'', VInt (pk_pack_index p)), (VStr ''response_encoding'', VStr ''json''), (VStr ''output'', out)])"

text \<open>A dictionary keyed by values that were read, as the list of its assignments: the last one to
  a key that is equal to the number counts.\<close>

definition index_item :: "(pyval \<times> 'v) list \<Rightarrow> int \<Rightarrow> 'v res" where
  "index_item kvs n = (case filter (\<lambda>p. py_eq (fst p) (VInt n)) (rev kvs) of
     [] \<Rightarrow> Inl (ForeignError ''KeyError'' (decimal n)) | p # _ \<Rightarrow> Inr (snd p))"

definition keyed :: "pyval \<Rightarrow> 'v \<Rightarrow> (pyval \<times> 'v) res" where
  "keyed k v = (if hashable k then Inr (k, v) else Inl (unhashable k))"

definition decoded_response :: "pyval \<Rightarrow> (pyval \<times> pyval) res" where
  "decoded_response item =
     bindR (py_get item ''response_encoding'' (VStr ''json'')) (\<lambda>encoding.
     bindR (py_item item ''output'') (\<lambda>out.
     bindR (if encoding = VStr ''base64-bytes'' then decoded_bytes out
            else if encoding \<noteq> VStr ''json''
            then Inl (BulkTaskFailure TS_VALIDATION_FAILED ''unsupported_representation'' ''unknown checkpointed response encoding'')
            else Inr out) (\<lambda>decoded.
     bindR (py_item item ''pack_index'') (\<lambda>k. keyed k decoded))))"

definition stage_parser :: "'e stage_env_scheme \<Rightarrow> parser_env" where
  "stage_parser env = \<lparr>ps_wide = sv_wide env, ps_float = sv_number env, ps_depth = sv_depth env, ps_frames = sv_frames env,
     ps_lone = sv_lone env, ps_extract = []\<rparr>"

definition parsed_pack :: "'e stage_env_scheme \<Rightarrow> prepared_task \<Rightarrow> (pyval \<times> pyval) list \<Rightarrow> packed_request \<Rightarrow> pyval res" where
  "parsed_pack env t by_index p =
     bindR (index_item by_index (pk_pack_index p)) (\<lambda>out.
     bindR (parse_output (stage_parser env) out (pt_definition t) None) (\<lambda>parsed. case parsed of
       Inl f \<Rightarrow> raise_failure env TS_VALIDATION_FAILED f
     | Inr ms \<Rightarrow> Inr (VDict [(VStr ''pack_index'', VInt (pk_pack_index p)), (VStr ''records'', VTuple (map VFrozen ms))])))"

definition parse_responses :: "'e stage_env_scheme \<Rightarrow> prepared_task \<Rightarrow> pyval \<Rightarrow> pyval res" where
  "parse_responses env t responses =
     bindR (bindR (py_iter responses) (map_res decoded_response)) (\<lambda>by_index.
     bindR (map_res (parsed_pack env t by_index) (pt_packs t)) (\<lambda>vs. Inr (VTuple vs)))"

text \<open>The outputs that \<open>_validate_responses\<close> puts together, by the index of the pack or sliced from
  the records of all packs. The records of a pack are a list in what the stage before stored;
  what cannot be iterated is refused here.\<close>

definition indexed_outputs :: "prepared_task \<Rightarrow> pyval \<Rightarrow> (packed_request \<times> pyval list) list res" where
  "indexed_outputs t parsed =
     bindR (bindR (py_iter parsed) (map_res (\<lambda>item. bindR (py_item item ''pack_index'') (\<lambda>k. bindR (py_item item ''records'') (keyed k)))))
       (\<lambda>by_index. map_res (\<lambda>p. bindR (bindR (index_item by_index (pk_pack_index p)) py_iter) (\<lambda>rs. Inr (p, rs))) (pt_packs t))"

fun sliced_outputs :: "packed_request list \<Rightarrow> pyval list \<Rightarrow> (packed_request \<times> pyval list) list" where
  "sliced_outputs [] rs = []"
| "sliced_outputs (p # ps) rs = (p, take (length (pk_input_ids p)) rs) # sliced_outputs ps (drop (length (pk_input_ids p)) rs)"

definition stage_outputs :: "prepared_task \<Rightarrow> pyval \<Rightarrow> bool \<Rightarrow> (packed_request \<times> pyval list) list res" where
  "stage_outputs t v accepted_flat =
     (if accepted_flat then bindR (py_iter v) (\<lambda>rs. Inr (sliced_outputs (pt_packs t) rs)) else indexed_outputs t v)"

end
