(* ===== verification/Bulk_Handover.thy ===== *)
theory Bulk_Handover
  imports Bulk_Checkpoints
begin

text \<open>
  A prepared task survives its checkpoint: what \<open>_prepared_bytes\<close> writes to the object store
  after \<open>_prepare_task\<close> is read back by \<open>_load_prepared\<close> as the same task, with the packs and
  the model work it had. What JSON does not keep (floats up to their text, frozen sets) is left
  out by the predicate \<open>portable\<close>.
\<close>

declare map_of_eq_Some_iff [simp del]

section \<open>Values that JSON keeps\<close>

fun portable :: "pyval \<Rightarrow> bool" where
  "portable (VTuple xs) = (\<forall>x \<in> set xs. portable x)"
| "portable (VFrozen m) = (distinct (map fst m) \<and> sorted (map fst m) \<and> (\<forall>p \<in> set m. portable (snd p)))"
| "portable (VInt i) = (length (digits (nat \<bar>i\<bar>)) \<le> int_digits)"
| "portable v = (v = VNone \<or> (\<exists>b. v = VBool b) \<or> is_str v)"

fun plain_of :: "pyval \<Rightarrow> pyval" where
  "plain_of (VTuple xs) = VList (map plain_of xs)"
| "plain_of (VFrozen m) = VDict (map (\<lambda>p. (VStr (fst p), plain_of (snd p))) m)"
| "plain_of v = v"

lemma canonical_all: "\<forall>x \<in> set xs. canonical_plain x = Inr (g x) \<Longrightarrow> canonical_plain_list xs = Inr (map g xs)"
  by (induction xs) auto

lemma canonical_items: "\<forall>p \<in> set m. canonical_plain (snd p) = Inr (g (snd p)) \<Longrightarrow>
    canonical_plain_items m = Inr (map (\<lambda>p. (VStr (fst p), g (snd p))) m)"
  by (induction m) auto

lemma freeze_all: "\<forall>x \<in> set xs. freeze (g x) = Inr x \<Longrightarrow> freeze_list (map g xs) = Inr xs"
  by (induction xs) auto

lemma freeze_each: "\<forall>p \<in> set m. freeze (g (snd p)) = Inr (snd p) \<Longrightarrow>
    freeze_items (map (\<lambda>p. (VStr (fst p), g (snd p))) m) = Inr m"
  by (induction m) auto

lemma sort_key_fst_same: "sorted (map f xs) \<Longrightarrow> sort_key f xs = xs"
  by (rule sort_key_id_if_sorted)

lemma portable_plain:
  "portable v \<Longrightarrow> canonical_plain v = Inr (plain_of v) \<and> json_form (plain_of v) \<and> sorted_keys (plain_of v) = plain_of v
     \<and> freeze (plain_of v) = Inr v"
proof (induction v rule: portable.induct)
  case (1 xs)
  then have "canonical_plain_list xs = Inr (map plain_of xs)" "freeze_list (map plain_of xs) = Inr xs"
    by (auto intro: canonical_all freeze_all)
  with 1 show ?case by (auto intro!: map_idI)
next
  case (2 m)
  let ?m = "map (\<lambda>p. (VStr (fst p), plain_of (snd p))) m"
  have items: "canonical_plain_items m = Inr ?m" "freeze_items ?m = Inr m"
    using 2 by (auto intro: canonical_items freeze_each)
  have "sort_key (\<lambda>p. str_of (fst p)) (map (\<lambda>p. (fst p, sorted_keys (snd p))) ?m) = map (\<lambda>p. (fst p, sorted_keys (snd p))) ?m"
    using 2(2) by (intro sort_key_fst_same) (simp add: comp_def)
  also have "\<dots> = ?m" using 2 by auto
  finally have "sorted_keys (VDict ?m) = VDict ?m" by simp
  moreover have "distinct (map fst ?m)" using 2(2) by (simp add: comp_def distinct_map inj_on_def)
  moreover have "sort_key fst m = m" using 2(2) by (intro sort_key_fst_same) simp
  ultimately show ?case using 2 items by (auto simp: list_all_iff)
qed auto

text \<open>Looking up a key of an object that was read back.\<close>

lemma map_of_values: "map_of (map (\<lambda>p. (fst p, f (snd p))) kvs) k = map_option f (map_of kvs k)"
  by (induction kvs) auto

lemma sorted_entry:
  assumes "distinct (map fst kvs)"
  shows "map_of (sort_key (\<lambda>p. str_of (fst p)) (map (\<lambda>p. (fst p, sorted_keys (snd p))) kvs)) k = map_option sorted_keys (map_of kvs k)"
proof -
  let ?kvs = "map (\<lambda>p. (fst p, sorted_keys (snd p))) kvs"
  have keys: "distinct (map fst ?kvs)" using assms by (simp add: comp_def)
  have "mset (map fst (sort_key (\<lambda>p. str_of (fst p)) ?kvs)) = mset (map fst ?kvs)" by (simp only: mset_map mset_sort)
  with keys have "distinct (map fst (sort_key (\<lambda>p. str_of (fst p)) ?kvs))" by (metis mset_eq_imp_distinct_iff)
  with keys have "map_of (sort_key (\<lambda>p. str_of (fst p)) ?kvs) = map_of ?kvs"
    by (intro map_of_inject_set [THEN iffD2]) simp_all
  then show ?thesis by (simp add: map_of_values)
qed

lemma py_item_sorted: "distinct (map fst kvs) \<Longrightarrow> dget kvs (VStr k) = Some x \<Longrightarrow> py_item (sorted_keys (VDict kvs)) k = Inr (sorted_keys x)"
  by (simp add: py_item_def sorted_entry)

lemma py_get_sorted: "distinct (map fst kvs) \<Longrightarrow> dget kvs (VStr k) = Some x \<Longrightarrow> py_get (sorted_keys (VDict kvs)) k v = Inr (sorted_keys x)"
  by (simp add: py_get_def sorted_entry)

lemma map_res_each: "\<forall>x \<in> set xs. f (g x) = Inr (h x) \<Longrightarrow> map_res f (map g xs) = Inr (map h xs)"
  by (induction xs) auto

section \<open>The entries of a prepared task\<close>

abbreviation plain_frozen :: "frozen_mapping \<Rightarrow> pyval" where
  "plain_frozen m \<equiv> plain_of (VFrozen m)"

definition plain_row :: "row_input \<Rightarrow> pyval" where
  "plain_row r = VDict [(VStr ''id'', VStr (ri_identifier r)), (VStr ''source'', plain_frozen (ri_source_fields r))]"

definition plain_pack :: "'e stage_env_scheme \<Rightarrow> packed_request \<times> model_work \<Rightarrow> pyval" where
  "plain_pack env pw = VDict [
     (VStr ''pack_index'', VInt (pk_pack_index (fst pw))),
     (VStr ''input_ids'', VList (map VStr (pk_input_ids (fst pw)))),
     (VStr ''payload_reference'', VStr (payload_reference (snd pw))),
     (VStr ''payload_hash'', VStr (sv_sha env (pk_payload (fst pw)))),
     (VStr ''estimated_input_tokens'', VInt (pk_estimated_input_tokens (fst pw))),
     (VStr ''estimated_output_tokens'', VInt (pk_estimated_output_tokens (fst pw)))]"

definition plain_entry :: "'e stage_env_scheme \<Rightarrow> prepared_task \<Rightarrow> string \<Rightarrow> (packed_request \<times> model_work) list \<Rightarrow> pyval" where
  "plain_entry env t hash pws = VDict [
     (VStr ''kind'', VStr ''prepared_task''),
     (VStr ''function'', VStr (function_value (td_function (pt_definition t)))),
     (VStr ''definition_version'', VStr (td_version (pt_definition t))),
     (VStr ''definition_hash'', VStr hash),
     (VStr ''parameters'', plain_frozen (tv_parameters (pt_invocation t))),
     (VStr ''rows'', VList (map plain_row (tv_rows (pt_invocation t)))),
     (VStr ''requested_definition_version'', optional_text (tv_requested_version (pt_invocation t))),
     (VStr ''packs'', VList (map (plain_pack env) pws))]"

definition portable_row :: "row_input \<Rightarrow> bool" where
  "portable_row r \<longleftrightarrow> portable (VFrozen (ri_source_fields r))"

definition portable_pack :: "packed_request \<Rightarrow> bool" where
  "portable_pack p \<longleftrightarrow> portable (VInt (pk_pack_index p)) \<and> portable (VInt (pk_estimated_input_tokens p))
     \<and> portable (VInt (pk_estimated_output_tokens p))"

text \<open>What JSON keeps of a prepared task, and how deep it nests.\<close>

definition portable_task :: "nat \<Rightarrow> prepared_task \<Rightarrow> bool" where
  "portable_task depth t \<longleftrightarrow> portable (VFrozen (tv_parameters (pt_invocation t)))
     \<and> nesting (plain_frozen (tv_parameters (pt_invocation t))) + 1 \<le> depth
     \<and> (\<forall>r \<in> set (tv_rows (pt_invocation t)). portable_row r \<and> nesting (plain_frozen (ri_source_fields r)) + 3 \<le> depth)
     \<and> (\<forall>p \<in> set (pt_packs t). portable_pack p) \<and> 4 \<le> depth"

lemma canonical_row_entry: "portable_row r \<Longrightarrow> canonical_plain (row_entry r) = Inr (plain_row r)"
  using portable_plain [of "VFrozen (ri_source_fields r)"] by (simp add: portable_row_def row_entry_def plain_row_def del: canonical_plain.simps(1) plain_of.simps)

lemma canonical_texts: "canonical_plain_list (map VStr ts) = Inr (map VStr ts)"
  by (induction ts) auto

lemma canonical_pack: "canonical_plain (pack_entry env pw) = Inr (plain_pack env pw)"
  by (cases pw) (simp add: pack_entry_def plain_pack_def canonical_texts)

lemma canonical_each: "\<forall>x \<in> set xs. canonical_plain (f x) = Inr (g x) \<Longrightarrow> canonical_plain_list (map f xs) = Inr (map g xs)"
  by (induction xs) auto

lemma optional_text_plain [simp]: "canonical_plain (optional_text x) = Inr (optional_text x)" "json_form (optional_text x)"
    "nesting (optional_text x) = 0" "sorted_keys (optional_text x) = optional_text x"
  by (cases x; simp add: optional_text_def)+

lemma canonical_entry:
  assumes "portable_task depth t"
  shows "canonical_plain (prepared_entry env t hash pws) = Inr (plain_entry env t hash pws)"
proof -
  have "canonical_plain_list (map row_entry (tv_rows (pt_invocation t))) = Inr (map plain_row (tv_rows (pt_invocation t)))"
    using assms by (intro canonical_each) (auto simp: portable_task_def canonical_row_entry)
  moreover have "canonical_plain_list (map (pack_entry env) pws) = Inr (map (plain_pack env) pws)"
    by (intro canonical_each) (simp add: canonical_pack)
  ultimately show ?thesis
    using assms portable_plain [of "VFrozen (tv_parameters (pt_invocation t))"]
    by (simp add: portable_task_def prepared_entry_def plain_entry_def del: canonical_plain.simps(1) plain_of.simps)
qed

lemma nesting_each: "(\<And>x. x \<in> set xs \<Longrightarrow> nesting (f x) \<le> n) \<Longrightarrow> foldr max (map nesting (map f xs)) 0 \<le> n"
  by (induction xs) auto

lemma plain_row_form: "portable_row r \<Longrightarrow> json_form (plain_row r)"
    "nesting (plain_row r) = Suc (nesting (plain_frozen (ri_source_fields r)))"
  using portable_plain [of "VFrozen (ri_source_fields r)"] by (simp_all add: portable_row_def plain_row_def del: plain_of.simps)

lemma plain_pack_form: "portable_pack (fst pw) \<Longrightarrow> json_form (plain_pack env pw)" "nesting (plain_pack env pw) \<le> 2"
proof -
  have "foldr max (map nesting (map VStr ts)) 0 \<le> 0" for ts by (intro nesting_each) simp
  then show "nesting (plain_pack env pw) \<le> 2" by (simp add: plain_pack_def)
qed (auto simp: portable_pack_def plain_pack_def)

lemma entry_form:
  assumes "portable_task depth t" and "set (map fst pws) \<subseteq> set (pt_packs t)"
  shows "json_form (plain_entry env t hash pws)" and "nesting (plain_entry env t hash pws) \<le> depth"
proof -
  show "json_form (plain_entry env t hash pws)"
    using assms portable_plain [of "VFrozen (tv_parameters (pt_invocation t))"]
    by (auto simp: portable_task_def plain_entry_def plain_row_form plain_pack_form simp del: plain_of.simps)
  have "foldr max (map nesting (map plain_row (tv_rows (pt_invocation t)))) 0 \<le> depth - 2"
    using assms(1) by (intro nesting_each) (auto simp: portable_task_def plain_row_form)
  moreover have "foldr max (map nesting (map (plain_pack env) pws)) 0 \<le> 2"
    by (intro nesting_each) (rule plain_pack_form(2))
  ultimately show "nesting (plain_entry env t hash pws) \<le> depth"
    using assms(1) by (auto simp: portable_task_def plain_entry_def simp del: plain_of.simps)
qed

text \<open>What is stored is read as the sorted entry.\<close>

lemma entry_read:
  assumes "portable_task (sv_depth env) t" and "set (map fst pws) \<subseteq> set (pt_packs t)"
    and "canonical_payload_bytes (sv_float env) (prepared_entry env t hash pws) = Inr b"
  shows "bindR (decode_utf8 (stage_reader env) b) (loads (stage_reader env)) = Inr (sorted_keys (plain_entry env t hash pws))"
proof -
  from assms(3) canonical_entry [OF assms(1), of env hash pws] obtain s where s: "dumps (compact False False (sv_float env)) (plain_entry env t hash pws) = Inr s" "b = utf8 s"
    by (simp add: canonical_payload_bytes_def split: sum.splits)
  have "loads (stage_reader env) s = Inr (sorted_keys (plain_entry env t hash pws))"
    using entry_form [OF assms(1,2)] by (intro loads_dumps [OF _ _ _ _ _ s(1)]) (simp_all add: stage_reader_def compact_def)
  with s(2) show ?thesis by (simp add: decode_encode)
qed

section \<open>Reading the entries\<close>

lemma read_row:
  assumes "portable_row r" and "\<not> blank (ri_identifier r)"
  shows "json_row (sorted_keys (plain_row r)) = Inr r"
proof -
  let ?kvs = "[(VStr ''id'', VStr (ri_identifier r)), (VStr ''source'', plain_frozen (ri_source_fields r))]"
  have source: "sorted_keys (plain_frozen (ri_source_fields r)) = plain_frozen (ri_source_fields r)"
      "freeze (plain_frozen (ri_source_fields r)) = Inr (VFrozen (ri_source_fields r))"
    using assms(1) portable_plain [of "VFrozen (ri_source_fields r)"] by (simp_all add: portable_row_def del: plain_of.simps freeze.simps)
  have "py_item (sorted_keys (VDict ?kvs)) ''id'' = Inr (VStr (ri_identifier r))"
    by (subst py_item_sorted [where x = "VStr (ri_identifier r)"]) simp_all
  moreover have "py_item (sorted_keys (VDict ?kvs)) ''source'' = Inr (plain_frozen (ri_source_fields r))"
    by (subst py_item_sorted [where x = "plain_frozen (ri_source_fields r)"]) (simp_all only: source, simp_all)
  ultimately show ?thesis
    using source assms(2) unfolding plain_row_def json_row_def
    by (simp add: RowInput_post_def del: plain_of.simps sorted_keys.simps freeze.simps)
qed

lemma nonblank_texts: "\<not> list_ex blank ts \<Longrightarrow> stripped_texts (map VStr ts) = Inr ts"
  by (induction ts) auto

text \<open>A pack and its model work belong to a definition, and the payload is in the store.\<close>

definition pack_stored :: "'e stage_env_scheme \<Rightarrow> task_definition \<Rightarrow> object_store \<Rightarrow> packed_request \<Rightarrow> model_work \<Rightarrow> bool" where
  "pack_stored env d st p w \<longleftrightarrow> PackedRequest_post p = Inr p \<and> ModelWork_post w = Inr w
     \<and> pk_function p = td_function d \<and> pk_definition_version p = td_version d
     \<and> w = pack_work d (td_function d) (object_key (sv_sha env) PAYLOAD (pk_payload p)) p
     \<and> dget st (object_key (sv_sha env) PAYLOAD (pk_payload p)) = Some (pk_payload p)"

lemma resolve_stored:
  assumes "\<not> blank (sha d)" and "dget st (object_key sha kind d) = Some d"
  shows "resolve_object sha (object_key sha kind d) st = Inr (stored_reference sha kind d)"
proof -
  have "prefix memory_prefix (object_key sha kind d)" by (simp add: object_key_def)
  moreover have "\<not> blank (object_key sha kind d)" by (simp add: object_key_def memory_prefix_def)
  ultimately show ?thesis
    using assms kind_of_key [of sha kind d] by (simp add: resolve_object_def stored_reference_def ObjectReference_post_def)
qed

lemma read_pack:
  assumes "pack_stored env d st p w" and "\<not> blank (sv_sha env (pk_payload p))"
  shows "json_pack env st (td_function d) d (sorted_keys (plain_pack env (p, w))) = Inr (p, w)"
proof -
  let ?v = "sorted_keys (plain_pack env (p, w))"
  let ?ref = "object_key (sv_sha env) PAYLOAD (pk_payload p)"
  have w: "payload_reference w = ?ref" using assms(1) by (simp add: pack_stored_def pack_work_def)
  have entries: "py_item ?v ''payload_reference'' = Inr (VStr ?ref)" "py_item ?v ''payload_hash'' = Inr (VStr (sv_sha env (pk_payload p)))"
      "py_item ?v ''pack_index'' = Inr (VInt (pk_pack_index p))"
      "py_item ?v ''input_ids'' = Inr (VList (map (sorted_keys \<circ> VStr) (pk_input_ids p)))"
      "py_item ?v ''estimated_input_tokens'' = Inr (VInt (pk_estimated_input_tokens p))"
      "py_item ?v ''estimated_output_tokens'' = Inr (VInt (pk_estimated_output_tokens p))"
    unfolding plain_pack_def by (subst py_item_sorted, simp, simp, simp add: w)+
  have texts: "map (sorted_keys \<circ> VStr) (pk_input_ids p) = map VStr (pk_input_ids p)" by simp
  have valid: "\<not> blank (td_version d)" "0 \<le> pk_pack_index p" "\<not> list_ex blank (pk_input_ids p)"
    using assms(1) by (auto simp: pack_stored_def PackedRequest_post_def split: if_splits)
  have found: "get_object (sv_sha env) (stored_reference (sv_sha env) PAYLOAD (pk_payload p)) st = Inr (pk_payload p)"
      "resolved_payload env (VStr ?ref) st = Inr (stored_reference (sv_sha env) PAYLOAD (pk_payload p))"
    using assms resolve_stored [of "sv_sha env" "pk_payload p" st PAYLOAD]
    by (simp_all add: get_object_stored pack_stored_def resolved_payload_def)
  let ?p = "\<lparr>pk_function = td_function d, pk_definition_version = td_version d, pk_pack_index = pk_pack_index p,
      pk_input_ids = pk_input_ids p, pk_payload = pk_payload p, pk_estimated_input_tokens = pk_estimated_input_tokens p,
      pk_estimated_output_tokens = pk_estimated_output_tokens p\<rparr>"
  have "new_pack d (td_function d) (pk_payload p) (VInt (pk_pack_index p)) (map VStr (pk_input_ids p))
      (VInt (pk_estimated_input_tokens p)) (VInt (pk_estimated_output_tokens p)) = PackedRequest_post ?p"
    using valid by (simp add: new_pack_def nonblank_texts)
  also have "?p = p" using assms(1) by (simp add: pack_stored_def)
  also have "PackedRequest_post p = Inr p" using assms(1) by (simp add: pack_stored_def)
  finally have pack: "new_pack d (td_function d) (pk_payload p) (VInt (pk_pack_index p)) (map VStr (pk_input_ids p))
      (VInt (pk_estimated_input_tokens p)) (VInt (pk_estimated_output_tokens p)) = Inr p" .
  have work: "ModelWork_post (pack_work d (td_function d) ?ref p) = Inr w"
    using assms(1) unfolding pack_stored_def by metis
  have "obj_reference (stored_reference (sv_sha env) PAYLOAD (pk_payload p)) = ?ref" by (simp add: stored_reference_def)
  with pack work show ?thesis
    by (simp add: json_pack_def entries found py_iter_def texts del: map_map)
qed

section \<open>A prepared task and the store\<close>

definition handed_over :: "'e stage_env_scheme \<Rightarrow> prepared_task \<Rightarrow> object_store \<Rightarrow> bool" where
  "handed_over env t st \<longleftrightarrow> TaskInvocation_post (pt_invocation t) = Inr (pt_invocation t) \<and> PreparedTask_post t = Inr t
     \<and> resolve_task (sv_registry env) (td_function (pt_definition t)) (td_version (pt_definition t)) = Some (pt_definition t)
     \<and> list_all2 (pack_stored env (pt_definition t) st) (pt_packs t) (pt_model_work t)"

definition stays :: "object_store \<Rightarrow> object_store \<Rightarrow> bool" where
  "stays st st' \<longleftrightarrow> (\<forall>k x. dget st k = Some x \<longrightarrow> dget st' k = Some x)"

lemma stays_refl [simp]: "stays st st"
  by (simp add: stays_def)

lemma stays_trans: "stays st st1 \<Longrightarrow> stays st1 st2 \<Longrightarrow> stays st st2"
  by (simp add: stays_def)

lemma pack_stays: "pack_stored env d st p w \<Longrightarrow> stays st st' \<Longrightarrow> pack_stored env d st' p w"
  by (auto simp: pack_stored_def stays_def)

lemma handed_over_stays: "handed_over env t st \<Longrightarrow> stays st st' \<Longrightarrow> handed_over env t st'"
  by (auto simp: handed_over_def elim!: list_all2_mono intro: pack_stays)

text \<open>Packing stores the payloads.\<close>

lemma payload_put_Inr:
  assumes "digest_ok sha good" and "payload_put sha payload (sha payload) st = (Inr ref, st')"
  shows "ref = object_key sha PAYLOAD payload" and "put_object sha PAYLOAD payload st = (Inr (stored_reference sha PAYLOAD payload), st')"
proof -
  obtain st2 where run: "put_object sha PAYLOAD payload st = (Inr (stored_reference sha PAYLOAD payload), st2)"
    using put_object_run [OF assms(1)] by blast
  with assms(2) show "ref = object_key sha PAYLOAD payload" "put_object sha PAYLOAD payload st = (Inr (stored_reference sha PAYLOAD payload), st')"
    by (simp_all add: payload_put_def put_payload_def bindM_def pureM_def stored_reference_def)
qed

lemma persist_stored:
  assumes "digest_ok (sv_sha env) good" and "store_ok (sv_sha env) good st"
    and "persist_packs (prototype_packer env) d n cs st = (Inr pw, st')" and "\<forall>p \<in> set (fst pw). good (pk_payload p)"
  shows "list_all2 (pack_stored env d st') (fst pw) (snd pw) \<and> store_ok (sv_sha env) good st' \<and> stays st st'"
  using assms(2-)
proof (induction cs arbitrary: n st pw)
  case (Cons c cs)
  obtain ref st1 p w rest where step: "pe_put (prototype_packer env) (cp_payload c) (pe_sha (prototype_packer env) (cp_payload c)) st = (Inr ref, st1)"
      "PackedRequest_post (pack_of d n c) = Inr p" "ModelWork_post (work_of d ref c) = Inr w"
      "persist_packs (prototype_packer env) d (n + 1) cs st1 = (Inr rest, st')" "pw = (p # fst rest, w # snd rest)"
    using Cons.prems(2) by (auto simp: bindM_def liftR_def pureM_def split: sum.splits prod.splits)
  have put: "payload_put (sv_sha env) (cp_payload c) (sv_sha env (cp_payload c)) st = (Inr ref, st1)"
    using step(1) by (simp add: prototype_packer_def)
  have p: "p = pack_of d n c" and w: "w = work_of d ref c" using step(2,3) PackedRequest_post_Inr ModelWork_post_Inr by auto
  then have good: "good (cp_payload c)" using Cons.prems(3) step(5) by (simp add: pack_of_def)
  note ref = payload_put_Inr [OF assms(1) put]
  from put_object_stored [OF assms(1) Cons.prems(1) good ref(2)]
  have st1: "store_ok (sv_sha env) good st1" "dget st1 ref = Some (cp_payload c)" "stays st st1"
    by (auto simp: ref(1) stays_def)
  from Cons.IH [OF st1(1) step(4)] Cons.prems(3) step(5)
  have rest: "list_all2 (pack_stored env d st') (fst rest) (snd rest)" "store_ok (sv_sha env) good st'" "stays st1 st'"
    by simp_all
  have "pack_stored env d st1 p w"
    using step(2,3) st1(2) p w ref(1) by (simp add: pack_stored_def pack_of_def work_of_def pack_work_def)
  with rest st1(3) step(5) show ?case by (auto intro: pack_stays stays_trans)
qed (auto simp: pureM_def)

text \<open>What is prepared is handed over.\<close>

lemma constructed_invocation: "TaskInvocation_post v = Inr w \<Longrightarrow> w = v \<and> TaskInvocation_post v = Inr v"
  by (auto simp: TaskInvocation_post_def split: if_splits)

lemma new_invocation_Inr: "new_invocation f m rows requested = Inr v \<Longrightarrow> TaskInvocation_post v = Inr v"
  by (auto simp: new_invocation_def Let_def bindR_Inr split: pyval.splits dest: constructed_invocation)

lemma read_invocation_Inr:
  assumes "read_invocation env data = Inr v"
  shows "TaskInvocation_post v = Inr v"
proof -
  have "invocation_of_json env data = Inr v" using assms by (simp add: read_invocation_def split: sum.splits if_splits)
  then obtain f m rows requested where "new_invocation f m rows requested = Inr v"
    by (auto simp: invocation_of_json_def bindR_Inr frozen_case_Inr)
  then show ?thesis by (rule new_invocation_Inr)
qed

lemma same_rows_invocation:
  assumes "map ri_identifier (tv_rows w) = map ri_identifier (tv_rows v)" and "tv_requested_version w = tv_requested_version v"
    and "TaskInvocation_post v = Inr v"
  shows "TaskInvocation_post w = Inr w"
proof -
  have "length (tv_rows w) = length (tv_rows v)" using assms(1) by (rule map_eq_imp_length_eq)
  then have "tv_rows w = [] \<longleftrightarrow> tv_rows v = []" by auto
  with assms show ?thesis by (simp add: TaskInvocation_post_def split: if_splits)
qed

lemma accepts_invocation:
  assumes "accepts d v w" and "TaskInvocation_post v = Inr v"
  shows "TaskInvocation_post w = Inr w" and "tv_function w = tv_function v"
proof -
  have "\<exists>params rows. w = v\<lparr>tv_parameters := params, tv_rows := rows\<rparr> \<and> map ri_identifier rows = map ri_identifier (tv_rows v)"
  proof (cases "tv_function v")
    case AI_CLASSIFY
    from assms(1) AI_CLASSIFY obtain params where "w = v\<lparr>tv_parameters := params\<rparr>" unfolding accepts.simps by auto
    then have "w = v\<lparr>tv_parameters := params, tv_rows := tv_rows v\<rparr>" by simp
    then show ?thesis by blast
  next
    case AI_SUMMARIZE
    from assms(1) AI_SUMMARIZE obtain n where "w = v\<lparr>tv_parameters := [(''max_words'', VInt n)], tv_rows := map text_row (tv_rows v)\<rparr>"
      unfolding accepts.simps by auto
    moreover have "map ri_identifier (map text_row (tv_rows v)) = map ri_identifier (tv_rows v)" by (simp add: text_row_def comp_def)
    ultimately show ?thesis by blast
  qed
  then have "map ri_identifier (tv_rows w) = map ri_identifier (tv_rows v)" "tv_requested_version w = tv_requested_version v"
      and "tv_function w = tv_function v" by auto
  then show "TaskInvocation_post w = Inr w" "tv_function w = tv_function v"
    using assms(2) by (simp_all add: same_rows_invocation)
qed

lemma prepare_handed_over:
  assumes "digest_ok (sv_sha env) good" and "store_ok (sv_sha env) good st"
    and "prepare_task env ref ctx st = (Inr t, st')" and "\<forall>p \<in> set (pt_packs t). good (pk_payload p)"
  shows "handed_over env t st' \<and> store_ok (sv_sha env) good st' \<and> stays st st'"
proof -
  obtain v where v: "TaskInvocation_post v = Inr v"
      "task_prepare (sv_registry env) (pack_prepare (prototype_packer env)) v ctx st = (Inr (Inr t), st')"
    using assms(3) by (auto simp: prepare_task_def bindM_def liftR_def pureM_def raise_failure_def bindR_def
        split: prod.splits sum.splits dest!: read_invocation_Inr)
  obtain d w where d: "resolve_task (sv_registry env) (tv_function v) (td_version d) = Some d" "accepts d v w"
      "pack_prepare (prototype_packer env) \<lparr>rt_definition = d, rt_invocation = w\<rparr> st = (Inr (Inr t), st')"
    using only_bound_definition_prepared [OF v] by auto
  obtain cs pw where pw: "persist_packs (prototype_packer env) d 0 cs st = (Inr pw, st')"
      "PreparedTask_post \<lparr>pt_definition = d, pt_invocation = w, pt_packs = fst pw, pt_model_work = snd pw\<rparr> = Inr t"
    using d(3) by (auto simp: pack_prepare_def bindM_def liftR_def pureM_def raiseM_def split: sum.splits prod.splits option.splits)
  have t: "t = \<lparr>pt_definition = d, pt_invocation = w, pt_packs = fst pw, pt_model_work = snd pw\<rparr>"
    by (rule PreparedTask_post_Inr [OF pw(2)])
  with pw(2) have "PreparedTask_post t = Inr t" "td_function d = tv_function w"
    by (auto simp: PreparedTask_post_def split: if_splits)
  with persist_stored [OF assms(1,2) pw(1)] assms(4) t d(1) accepts_invocation [OF d(2) v(1)]
  show ?thesis by (simp add: handed_over_def)
qed

section \<open>Loading\<close>

lemma function_of_value [simp]: "task_function_of (function_value f) = Some f"
  by (cases f) (simp_all add: task_function_of_def)

lemma zip_strict_zip: "zip_strict xs ys = Inr ps \<Longrightarrow> ps = zip xs ys \<and> length xs = length ys"
  by (induction xs ys arbitrary: ps rule: zip_strict.induct) (auto simp: bindR_Inr)

lemma handed_over_rows:
  assumes "handed_over env t st" and "r \<in> set (tv_rows (pt_invocation t))"
  shows "\<not> blank (ri_identifier r)"
proof -
  have "PreparedTask_post t = Inr t" and packs: "list_all2 (pack_stored env (pt_definition t) st) (pt_packs t) (pt_model_work t)"
    using assms(1) by (simp_all add: handed_over_def)
  then have "concat (map pk_input_ids (pt_packs t)) = map ri_identifier (tv_rows (pt_invocation t))"
    by (auto simp: PreparedTask_post_def split: if_splits)
  then have "ri_identifier r \<in> set (concat (map pk_input_ids (pt_packs t)))" using assms(2) by simp
  then obtain p where p: "p \<in> set (pt_packs t)" "ri_identifier r \<in> set (pk_input_ids p)" by auto
  with packs obtain w where "pack_stored env (pt_definition t) st p w" by (metis list_all2_conv_all_nth in_set_conv_nth)
  then have "\<not> list_ex blank (pk_input_ids p)" by (auto simp: pack_stored_def PackedRequest_post_def split: if_splits)
  with p(2) show ?thesis by (auto simp: list_ex_iff)
qed

lemma prepared_read:
  assumes over: "handed_over env t st" and portable: "portable_task depth t"
    and sha: "\<forall>b. \<not> blank (sv_sha env b)"
    and hash: "canonical_definition_bytes (sv_float env) (pt_definition t) = Inr b"
    and read: "load_result env ref st = Inr (sorted_keys (plain_entry env t (sv_sha env b) (zip (pt_packs t) (pt_model_work t))))"
  shows "load_prepared env ref st = Inr t"
proof -
  let ?d = "pt_definition t" and ?v = "pt_invocation t" and ?pws = "zip (pt_packs t) (pt_model_work t)"
  let ?data = "sorted_keys (plain_entry env t (sv_sha env b) ?pws)"
  have params: "sorted_keys (plain_frozen (tv_parameters ?v)) = plain_frozen (tv_parameters ?v)"
      "freeze (plain_frozen (tv_parameters ?v)) = Inr (VFrozen (tv_parameters ?v))"
    using portable portable_plain [of "VFrozen (tv_parameters ?v)"] by (simp_all add: portable_task_def del: plain_of.simps freeze.simps)
  have entries: "py_item ?data ''function'' = Inr (VStr (function_value (td_function ?d)))"
      "py_item ?data ''definition_version'' = Inr (VStr (td_version ?d))"
      "py_item ?data ''definition_hash'' = Inr (VStr (sv_sha env b))"
      "py_item ?data ''parameters'' = Inr (plain_frozen (tv_parameters ?v))"
      "py_item ?data ''rows'' = Inr (VList (map (sorted_keys \<circ> plain_row) (tv_rows ?v)))"
      "py_item ?data ''packs'' = Inr (VList (map (sorted_keys \<circ> plain_pack env) ?pws))"
    unfolding plain_entry_def
    by (subst py_item_sorted, simp, simp del: plain_of.simps, simp add: params(1) del: plain_of.simps sorted_keys.simps(2))+
  have requested: "py_get ?data ''requested_definition_version'' VNone = Inr (optional_text (tv_requested_version ?v))"
    unfolding plain_entry_def by (subst py_get_sorted, simp, simp, simp)
  have rows: "json_rows ?data = Inr (tv_rows ?v)"
  proof -
    have "map_res json_row (map (sorted_keys \<circ> plain_row) (tv_rows ?v)) = Inr (map (\<lambda>r. r) (tv_rows ?v))"
      using portable handed_over_rows [OF over] by (intro map_res_each) (simp add: portable_task_def read_row)
    then show ?thesis by (simp add: json_rows_def entries py_iter_def)
  qed
  have lengths: "length (pt_packs t) = length (pt_model_work t)" "td_function ?d = tv_function ?v"
      and "PreparedTask_post t = Inr t"
    using over by (auto simp: handed_over_def PreparedTask_post_def split: if_splits)
  moreover have same: "\<lparr>pt_definition = ?d, pt_invocation = ?v, pt_packs = pt_packs t, pt_model_work = pt_model_work t\<rparr> = t" by simp
  ultimately have prepared: "PreparedTask_post \<lparr>pt_definition = ?d, pt_invocation = ?v, pt_packs = pt_packs t, pt_model_work = pt_model_work t\<rparr> = Inr t"
    by (simp only: same)
  have packs: "map_res (json_pack env st (td_function ?d) ?d) (map (sorted_keys \<circ> plain_pack env) ?pws) = Inr ?pws"
  proof -
    have "json_pack env st (td_function ?d) ?d ((sorted_keys \<circ> plain_pack env) pw) = Inr pw" if "pw \<in> set ?pws" for pw
    proof -
      obtain p w where pw: "pw = (p, w)" by (cases pw)
      with that over have "pack_stored env ?d st p w" by (auto simp: handed_over_def list_all2_iff)
      from read_pack [OF this] sha pw show ?thesis by simp
    qed
    then show ?thesis using map_res_each [where h = "\<lambda>x. x" and xs = ?pws and g = "sorted_keys \<circ> plain_pack env"] by simp
  qed
  have invocation: "new_invocation (td_function ?d) (tv_parameters ?v) (tv_rows ?v) (optional_text (tv_requested_version ?v)) = Inr ?v"
    using over lengths(2) by (cases "tv_requested_version ?v") (simp_all add: new_invocation_def optional_text_def handed_over_def Let_def)
  have "resolve_task (sv_registry env) (td_function ?d) (td_version ?d) = Some ?d" using over by (simp add: handed_over_def)
  with entries requested rows packs invocation prepared lengths(1) hash params(2) show ?thesis
    by (simp add: load_prepared_def read function_named_def definition_named_def py_iter_def
        del: plain_of.simps sorted_keys.simps freeze.simps map_map)
qed

lemma zip_strict_run: "length xs = length ys \<Longrightarrow> zip_strict xs ys = Inr (zip xs ys)"
  by (induction xs ys rule: zip_strict.induct) auto

text \<open>And what is handed over can be stored.\<close>

lemma prepared_bytes_exist:
  assumes "handed_over env t st" and "portable_task depth t"
    and "canonical_definition_bytes (sv_float env) (pt_definition t) = Inr h"
  shows "\<exists>b. prepared_bytes env t = Inr b"
proof -
  let ?pws = "zip (pt_packs t) (pt_model_work t)"
  have "length (pt_packs t) = length (pt_model_work t)"
    using assms(1) by (auto simp: handed_over_def dest: list_all2_lengthD)
  moreover have entry: "canonical_plain (prepared_entry env t (sv_sha env h) ?pws) = Inr (plain_entry env t (sv_sha env h) ?pws)"
    by (rule canonical_entry [OF assms(2)])
  moreover obtain s where "dumps (compact False False (sv_float env)) (plain_entry env t (sv_sha env h) ?pws) = Inr s"
    using canonical_plain_dumpable(1) [OF entry] unfolding dumpable_def by blast
  ultimately show ?thesis
    using assms(3) by (simp add: prepared_bytes_def zip_strict_run canonical_payload_bytes_def)
qed

section \<open>Read back\<close>

text \<open>A prepared task survives its checkpoint: what the first stage stores of the task it has
  prepared, definition hash, parameters, rows, packs with the references and digests of their
  payloads, is read back as the same task from every later state of the object store, with the
  packs and the model work it had; when no two objects have one digest, and the frozen values
  have a JSON form (no float, no set, integers of at most 4300 digits) within the nesting that
  the reader allows.\<close>

theorem prepared_task_read_back:
  assumes "digest_ok (sv_sha env) good" and "store_ok (sv_sha env) good st"
    and "prepare_task env ref ctx st = (Inr t, st1)" and "prepared_bytes env t = Inr b"
    and "put_result (sv_sha env) b st1 = (Inr r, st2)" and "good b" and "\<forall>p \<in> set (pt_packs t). good (pk_payload p)"
    and "portable_task (sv_depth env) t" and "\<And>k x. dget st2 k = Some x \<Longrightarrow> dget st3 k = Some x"
  shows "load_prepared env (Some r) st3 = Inr t"
proof -
  let ?pws = "zip (pt_packs t) (pt_model_work t)"
  have st1: "handed_over env t st1" "store_ok (sv_sha env) good st1"
    using prepare_handed_over [OF assms(1-3,7)] by simp_all
  from put_object_stored [OF assms(1) st1(2) assms(6) assms(5) [unfolded put_result_def]]
  have st2: "r = stored_reference (sv_sha env) RESULT b" "dget st3 (object_key (sv_sha env) RESULT b) = Some b" "stays st1 st3"
    using assms(9) by (auto simp: stays_def)
  obtain h where h: "canonical_definition_bytes (sv_float env) (pt_definition t) = Inr h"
      "canonical_payload_bytes (sv_float env) (prepared_entry env t (sv_sha env h) ?pws) = Inr b"
    using assms(4) by (auto simp: prepared_bytes_def bindR_Inr dest: zip_strict_zip)
  have "set (map fst ?pws) \<subseteq> set (pt_packs t)" by (auto dest: set_zip_leftD)
  from entry_read [OF assms(8) this h(2)]
  have "load_result env (Some r) st3 = Inr (sorted_keys (plain_entry env t (sv_sha env h) ?pws))"
    using st2(1,2) by (simp add: load_result_def required_reference_def load_json_def get_object_stored)
  moreover have "\<forall>b. \<not> blank (sv_sha env b)" using assms(1) by (simp add: digest_ok_def)
  ultimately show ?thesis
    using handed_over_stays [OF st1(1) st2(3)] h(1) assms(8) by (intro prepared_read)
qed

section \<open>Witness\<close>

text \<open>A payload with two rows to classify, one of them with structured values.\<close>

definition sample_task_value :: pyval where
  "sample_task_value = VDict [(VStr ''kind'', VStr ''task_invocation''), (VStr ''function'', VStr ''ai_classify''),
     (VStr ''parameters'', VDict [(VStr ''labels'', VList [VStr ''good'', VStr ''bad''])]),
     (VStr ''rows'', VList [
        VDict [(VStr ''id'', VStr ''a''), (VStr ''source'', VDict [(VStr ''text'', VStr ''x''), (VStr ''n'', VList [VInt (- 3), VNone])])],
        VDict [(VStr ''id'', VStr ''b''), (VStr ''source'', VDict [(VStr ''text'', VStr ''y'')])]]),
     (VStr ''requested_definition_version'', VNone)]"

definition sample_task_text :: string where
  "sample_task_text = projr (dumps (compact False False (\<lambda>_. [])) sample_task_value)"

definition sample_task_reference :: object_reference where
  "sample_task_reference = stored_reference sample_digest PAYLOAD (utf8 sample_task_text)"

definition sample_task_objects :: object_store where
  "sample_task_objects = [(object_key sample_digest PAYLOAD (utf8 sample_task_text), utf8 sample_task_text)]"

definition sample_stage :: stage_env where
  "sample_stage = \<lparr>sv_sha = sample_digest, sv_float = (\<lambda>_. []), sv_wide = (\<lambda>_. []), sv_number = (\<lambda>_. NaN), sv_depth = 10,
     sv_frames = 10, sv_lone = (\<lambda>_. False),
     sv_repr = class_name, sv_str = class_name, sv_encoded = (\<lambda>b. Inr b),
     sv_registry = \<lparr>tr_definitions = [((AI_CLASSIFY, ''1''), sample_definition)], tr_canonical = []\<rparr>\<rparr>"

lemma sample_task_read: "load_json sample_stage sample_task_reference sample_task_objects = Inr (sorted_keys sample_task_value)"
proof -
  have "dumpable (compact False False (\<lambda>_. [])) sample_task_value" by (simp add: sample_task_value_def)
  then have dumped: "dumps (compact False False (\<lambda>_. [])) sample_task_value = Inr sample_task_text"
    by (auto simp: dumpable_def sample_task_text_def)
  have form: "json_form sample_task_value" "nesting sample_task_value \<le> 10" by code_simp+
  have "loads (stage_reader sample_stage) sample_task_text = Inr (sorted_keys sample_task_value)"
    by (rule loads_dumps [OF form(1) _ _ _ _ dumped]) (use form(2) in \<open>simp_all add: stage_reader_def sample_stage_def compact_def\<close>)
  then show ?thesis
    by (simp add: load_json_def sample_task_reference_def sample_task_objects_def get_object_stored sample_stage_def decode_encode)
qed

lemma sample_task_packed:
  "case bindM (liftR (read_invocation sample_stage (sorted_keys sample_task_value)))
      (\<lambda>v. task_prepare (sv_registry sample_stage) (pack_prepare (prototype_packer sample_stage)) v sample_task_context) sample_task_objects of
     (Inr (Inr t), _) \<Rightarrow> portable_task 10 t \<and> map ri_identifier (tv_rows (pt_invocation t)) = [''a'', ''b'']
   | _ \<Rightarrow> False"
  by code_simp

lemma sample_task_prepared:
  obtains t st where "prepare_task sample_stage sample_task_reference sample_task_context sample_task_objects = (Inr t, st)"
    and "portable_task 10 t" and "map ri_identifier (tv_rows (pt_invocation t)) = [''a'', ''b'']"
  using sample_task_packed that
  by (auto simp: prepare_task_def sample_task_read bindM_def liftR_def pureM_def split: prod.splits sum.splits)

lemma prepared_task_read_back_witness:
  "\<exists>t st b r st'. prepare_task sample_stage sample_task_reference sample_task_context sample_task_objects = (Inr t, st)
     \<and> map ri_identifier (tv_rows (pt_invocation t)) = [''a'', ''b''] \<and> prepared_bytes sample_stage t = Inr b
     \<and> put_result sample_digest b st = (Inr r, st') \<and> load_prepared sample_stage (Some r) st' = Inr t"
proof -
  obtain t st where t: "prepare_task sample_stage sample_task_reference sample_task_context sample_task_objects = (Inr t, st)"
      "portable_task 10 t" "map ri_identifier (tv_rows (pt_invocation t)) = [''a'', ''b'']" by (rule sample_task_prepared)
  have digest: "digest_ok (sv_sha sample_stage) (\<lambda>_. True)" "store_ok (sv_sha sample_stage) (\<lambda>_. True) sample_task_objects"
    by (auto simp: sample_stage_def sample_digest_ok store_ok_def sample_task_objects_def split: if_splits)
  have over: "handed_over sample_stage t st" using prepare_handed_over [OF digest t(1)] by simp
  then have "pt_definition t = sample_definition"
    by (auto simp: handed_over_def resolve_task_def sample_stage_def split: if_splits)
  then obtain h where "canonical_definition_bytes (sv_float sample_stage) (pt_definition t) = Inr h"
    using seed_canonical by (metis canonical_ignores_version sample_definition_def)
  with prepared_bytes_exist [OF over t(2)] obtain b where b: "prepared_bytes sample_stage t = Inr b" by blast
  obtain r st' where r: "put_result (sv_sha sample_stage) b st = (Inr r, st')"
    using put_object_run [OF digest(1)] by (fastforce simp: put_result_def)
  have "load_prepared sample_stage (Some r) st' = Inr t"
    by (rule prepared_task_read_back [OF digest t(1) b r]) (use t(2) in \<open>simp_all add: sample_stage_def\<close>)
  with t b r show ?thesis by (auto simp: sample_stage_def)
qed

end
