(* ===== verification/Bulk_Pipeline.thy ===== *)
theory Bulk_Pipeline
  imports Bulk_Checkpoints Bulk_Execution Write_Back Interactive_Settlement
begin

text \<open>
  \<open>_BulkPipeline\<close> of \<open>composition/prototype.py\<close> and \<open>run_bulk\<close>: the stage processor that takes one
  claimed item from its payload through preparation, model invocation, parsing and validation
  to the write-back, one checkpoint per stage, and turns every failure into a terminal outcome
  of the item. It composes the work repository, the object store, the planner, the budget and
  the security gateway, the task runtime, the validator, the executor of terminal outcomes and
  the write-back executor over one world. What lies outside (the provider, the telemetry, the
  target of the effects) is a parameter.
\<close>

declare map_of_eq_Some_iff [simp del]

section \<open>The world of the application\<close>

text \<open>\<open>app.clock\<close> is read by the worker, the pipeline, the executors; the recovery coordinator counts
  its own readings. The state outside the repository, telemetry included, is \<open>iw_rest\<close>.\<close>

record ('x, 'a, 'z) pipeline_own =
  po_objects :: object_store
  po_dlq :: dead_letter_queue
  po_usage :: "(string, int \<times> int) dict"
  po_models :: "'x interactive_world"
  po_adapter :: 'a
  po_recovery_clock :: nat
  po_authority :: 'z
  po_statuses :: "(string, string) dict"

type_synonym ('x, 'a, 'z) pipeline_world = "('x, 'a, 'z) pipeline_own memory_world"

record ('x, 'a, 'z) pipeline_env = stage_env +
  pv_clock :: "nat \<Rightarrow> datetime"
  pv_started_at :: datetime
  pv_planner :: "'x planner_env"
  pv_invoker :: "('x, gateway_value) invoker_env"
  pv_validator :: "'x validator_env"
  pv_rules :: rules_registry
  pv_job_telemetry :: "bulk_state_telemetry \<Rightarrow> ('x, unit) meth"
  pv_audit :: "write_back_audit_event \<Rightarrow> ('x, unit) meth"
  pv_adapter :: "'a effect_adapter"
  pv_recovery_clock :: "nat \<Rightarrow> datetime"
  pv_resolve :: "string \<Rightarrow> string \<Rightarrow> ('z, authorization_snapshot) meth"
  pv_mutations :: "'a \<Rightarrow> int"
  pv_events :: "'x \<Rightarrow> int"

definition on_objects :: "(object_store, 'r) meth \<Rightarrow> (('x, 'a, 'z) pipeline_world, 'r) meth" where
  "on_objects m w = (case m (po_objects (wd_own w)) of (y, st) \<Rightarrow> (y, w\<lparr>wd_own := (wd_own w)\<lparr>po_objects := st\<rparr>\<rparr>))"

definition reading :: "(object_store \<Rightarrow> 'r res) \<Rightarrow> (('x, 'a, 'z) pipeline_world, 'r) meth" where
  "reading f w = (f (po_objects (wd_own w)), w)"

definition on_models :: "('x interactive_world, 'r) meth \<Rightarrow> (('x, 'a, 'z) pipeline_world, 'r) meth" where
  "on_models m w = (case m (po_models (wd_own w)) of (y, v) \<Rightarrow> (y, w\<lparr>wd_own := (wd_own w)\<lparr>po_models := v\<rparr>\<rparr>))"

definition on_work :: "(work_repository, 'r) meth \<Rightarrow> (('x, 'a, 'z) pipeline_world, 'r) meth" where
  "on_work m w = (case m (wd_repo w) of (y, r) \<Rightarrow> (y, w\<lparr>wd_repo := r\<rparr>))"

definition app_clock :: "('x, 'a, 'z) pipeline_env \<Rightarrow> (('x, 'a, 'z) pipeline_world, datetime) meth" where
  "app_clock env w = (Inr (pv_clock env (wd_clock w)), w\<lparr>wd_clock := Suc (wd_clock w)\<rparr>)"

text \<open>\<open>BulkWorkExecutor\<close> and \<open>BatchWriteBackExecutor\<close> over this world.\<close>

definition job_executor :: "('x, 'a, 'z) pipeline_env \<Rightarrow> 'x executor_env" where
  "job_executor env = \<lparr>xe_clock = pv_clock env, xe_started_at = pv_started_at env, xe_digest = sv_sha env,
     xe_emit = pv_job_telemetry env\<rparr>"

definition on_executor :: "('x executor_state, 'r) meth \<Rightarrow> (('x, 'a, 'z) pipeline_world, 'r) meth" where
  "on_executor m w = (let own = wd_own w in
     case m \<lparr>xs_repo = wd_repo w, xs_objects = po_objects own, xs_dlq = po_dlq own, xs_sink = iw_rest (po_models own),
             xs_clock = wd_clock w, xs_usage = po_usage own\<rparr> of
       (y, s) \<Rightarrow> (y, w\<lparr>wd_repo := xs_repo s, wd_clock := xs_clock s,
          wd_own := own\<lparr>po_objects := xs_objects s, po_dlq := xs_dlq s, po_usage := xs_usage s,
            po_models := (po_models own)\<lparr>iw_rest := xs_sink s\<rparr>\<rparr>\<rparr>))"

definition write_back_executor :: "('x, 'a, 'z) pipeline_env \<Rightarrow> ('a, 'z, 'x) write_back_env" where
  "write_back_executor env = \<lparr>we_adapter = pv_adapter env, we_recovery_clock = pv_recovery_clock env, we_resolve = pv_resolve env,
     we_append = pv_audit env, we_clock = pv_clock env, we_sha = sv_sha env, we_repr = sv_repr env, we_float = sv_float env\<rparr>"

definition on_write_back :: "(('a, 'z, 'x) write_back_state, 'r) meth \<Rightarrow> (('x, 'a, 'z) pipeline_world, 'r) meth" where
  "on_write_back m w = (let own = wd_own w in
     case m \<lparr>ws_effects = \<lparr>es_repo = wd_repo w, es_adapter = po_adapter own, es_clock = po_recovery_clock own\<rparr>,
             ws_objects = po_objects own, ws_authority = po_authority own, ws_audit = iw_rest (po_models own), ws_clock = wd_clock w\<rparr> of
       (y, s) \<Rightarrow> (y, w\<lparr>wd_repo := es_repo (ws_effects s), wd_clock := ws_clock s,
          wd_own := own\<lparr>po_objects := ws_objects s, po_adapter := es_adapter (ws_effects s),
            po_recovery_clock := es_clock (ws_effects s), po_authority := ws_authority s,
            po_models := (po_models own)\<lparr>iw_rest := ws_audit s\<rparr>\<rparr>\<rparr>))"

section \<open>Checkpoints and terminal outcomes\<close>

definition claimed_key :: "work_claim \<Rightarrow> work_key" where
  "claimed_key c = (wi_job_id (claim_item c), wi_idempotency_key (claim_item c))"

text \<open>\<open>repository.checkpoint\<close> with the owner of the claim; without one the lease is not owned.\<close>

definition claim_checkpoint :: "work_claim \<Rightarrow> checkpoint_stage \<Rightarrow> string \<Rightarrow> datetime \<Rightarrow> object_reference option
    \<Rightarrow> (work_repository, checkpoint_record) meth" where
  "claim_checkpoint c stage out now ref = (case wi_lease_owner (claim_item c) of
     Some owner \<Rightarrow> checkpoint (fst (claimed_key c)) (snd (claimed_key c)) owner stage out now ref
   | None \<Rightarrow> (\<lambda>r. (bindR (require_item (claimed_key c) r)
        (\<lambda>_. Inl (LeaseOwnershipError ''an unexpired lease owned by the caller is required'')), r)))"

definition checkpointed :: "checkpoint_record \<Rightarrow> bulk_stage_result" where
  "checkpointed cp = \<lparr>bsr_action = STAGE_CHECKPOINTED, bsr_checkpoint_stage = Some (completed_stage cp), bsr_terminal = None,
     bsr_outcome = cp_outcome cp\<rparr>"

definition stage_checkpoint :: "('x, 'a, 'z) pipeline_env \<Rightarrow> work_claim \<Rightarrow> checkpoint_stage \<Rightarrow> string \<Rightarrow> object_reference option
    \<Rightarrow> (('x, 'a, 'z) pipeline_world, bulk_stage_result) meth" where
  "stage_checkpoint env c stage out ref =
     bindM (app_clock env) (\<lambda>now. bindM (on_work (claim_checkpoint c stage out now ref)) (\<lambda>cp. pureM (checkpointed cp)))"

text \<open>\<open>_terminal\<close>: the executor runs a handler that returns the result.\<close>

definition run_result :: "('x, 'a, 'z) pipeline_env \<Rightarrow> work_claim \<Rightarrow> execution_result \<Rightarrow> (('x, 'a, 'z) pipeline_world, terminal_record) meth" where
  "run_result env c r =
     bindM (liftR (ExecutionResult_post r)) (\<lambda>r. on_executor (execute_claim (job_executor env) (\<lambda>_. Inr r) c))"

definition terminal_outcome :: "('x, 'a, 'z) pipeline_env \<Rightarrow> work_claim \<Rightarrow> terminal_work_item_state \<Rightarrow> string \<Rightarrow> string
    \<Rightarrow> (('x, 'a, 'z) pipeline_world, terminal_record) meth" where
  "terminal_outcome env c state code det = run_result env c
     \<lparr>er_state = state, er_failure_code = Some code, er_failure_details = Some det, er_result = None, er_token_usage = 0, er_cost = 0\<rparr>"

definition stage_ended :: "string \<Rightarrow> terminal_record \<Rightarrow> bulk_stage_result" where
  "stage_ended out t = \<lparr>bsr_action = STAGE_TERMINAL, bsr_checkpoint_stage = None, bsr_terminal = Some t, bsr_outcome = out\<rparr>"

section \<open>Invoking the models of a task\<close>

definition model_payload :: "('x, 'a, 'z) pipeline_env \<Rightarrow> model_plan \<Rightarrow> object_store \<Rightarrow> pyval res" where
  "model_payload env q st =
     (let work = mo_work (mp_operation q) in
      if task_definition_version work = None then Inl (missing_attribute ''NoneType'' ''rows'')
      else bindR (resolve_object (sv_sha env) (payload_reference work) st) (\<lambda>ref. load_json env ref st))"

definition invoke_model :: "('x, 'a, 'z) pipeline_env \<Rightarrow> model_plan \<Rightarrow> execution_context \<Rightarrow> (('x, 'a, 'z) pipeline_world, model_invocation_result) meth" where
  "invoke_model env q ctx =
     bindM (reading (model_payload env q)) (\<lambda>payload. on_models (outside (gateway_invoke (pv_invoker env) q payload ctx)))"

definition pack_operation :: "packed_request \<Rightarrow> string" where
  "pack_operation p = ''task:'' @ function_value (pk_function p) @ '':'' @ pk_definition_version p @ '':pack:'' @ decimal (pk_pack_index p)"

text \<open>The \<open>try\<close> block after the plan: what it returns or raises, the reservation it has made and the
  usage it knows of.\<close>

definition exhausted_failure :: "reservation_decision \<Rightarrow> exn" where
  "exhausted_failure d = (case rd_exhaustion d of
     Some x \<Rightarrow> BulkTaskFailure TS_BUDGET_EXHAUSTED ''budget_exhausted'' (join '','' (exhausted_scopes x))
   | None \<Rightarrow> missing_attribute ''NoneType'' ''exhausted_scopes'')"

definition reserved_invocation :: "('x, 'a, 'z) pipeline_env \<Rightarrow> packed_request \<Rightarrow> model_plan \<Rightarrow> execution_context
    \<Rightarrow> ('x, 'a, 'z) pipeline_world \<Rightarrow> (pyval res \<times> string option \<times> usage option) \<times> ('x, 'a, 'z) pipeline_world" where
  "reserved_invocation env p q ctx w =
     (case on_models (bound_reserve ctx (mp_estimate q)) w of
        (Inl e, w1) \<Rightarrow> ((Inl e, None, None), w1)
      | (Inr d, w1) \<Rightarrow> (case rd_reservation d of
          None \<Rightarrow> ((Inl (exhausted_failure d), None, None), w1)
        | Some r \<Rightarrow> (case invoke_model env q ctx w1 of
            (Inl e, w2) \<Rightarrow> ((Inl e, Some (reservation_id r), None), w2)
          | (Inr m, w2) \<Rightarrow> ((Inr (response_entry p (mi_output m)), Some (reservation_id r), Some (mi_actual_usage m)), w2))))"

text \<open>The \<open>finally\<close> block; an exception of its own replaces the outcome.\<close>

definition settle_invocation :: "model_plan \<Rightarrow> string option \<Rightarrow> usage option \<Rightarrow> (('x, 'a, 'z) pipeline_world, unit) meth" where
  "settle_invocation q rid actual =
     bindM (case rid of None \<Rightarrow> pureM ()
            | Some i \<Rightarrow> bindM (on_models (bound_reconcile i (case actual of Some u \<Rightarrow> u | None \<Rightarrow> mp_estimate q))) (\<lambda>_. pureM ())) (\<lambda>_.
       on_models (complete_plan q))"

definition invoke_pack :: "('x, 'a, 'z) pipeline_env \<Rightarrow> packed_request \<Rightarrow> model_work \<Rightarrow> execution_context \<Rightarrow> (('x, 'a, 'z) pipeline_world, pyval) meth" where
  "invoke_pack env p work ctx w =
     (case on_models (plan_model (pv_planner env) (pack_operation p) work ctx 0) w of
        (Inl e, w1) \<Rightarrow> (Inl e, w1)
      | (Inr q, w1) \<Rightarrow> (case reserved_invocation env p q ctx w1 of
          ((out, rid, actual), w2) \<Rightarrow> bindM (settle_invocation q rid actual) (\<lambda>_. liftR out) w2))"

fun invoke_packs :: "('x, 'a, 'z) pipeline_env \<Rightarrow> packed_request list \<Rightarrow> model_work list \<Rightarrow> execution_context
    \<Rightarrow> (('x, 'a, 'z) pipeline_world, pyval list) meth" where
  "invoke_packs env (p # ps) (work # works) ctx =
     bindM (invoke_pack env p work ctx) (\<lambda>v. bindM (invoke_packs env ps works ctx) (\<lambda>vs. pureM (v # vs)))"
| "invoke_packs env ps works ctx = bindM (liftR (zip_strict ps works)) (\<lambda>_. pureM [])"

section \<open>The write-back of accepted output\<close>

definition write_command :: "work_claim \<Rightarrow> validation_result \<Rightarrow> task_function option \<Rightarrow> write_back_command res" where
  "write_command c v f =
     (let field = (if f = Some AI_SUMMARIZE then ''summary'' else ''label'') in
      case accepted_records v of
        [] \<Rightarrow> Inl (ForeignError ''IndexError'' ''tuple index out of range'')
      | m # _ \<Rightarrow> bindR (fm_item m field) (\<lambda>x.
          WriteBackCommand_post \<lparr>wc_claim = c, wc_validation = v,
            wc_policy_version = (if field = ''summary'' then ''write-policy-summary'' else ''write-policy-1''),
            wc_approval_reference = (if field = ''summary'' then ''approval-summary'' else ''approval-1''),
            wc_data_scope = ''prototype'', wc_target_dataset = ''results'', wc_row_scope = ''id='' @ wi_item_id (claim_item c),
            wc_columns = {field}, wc_mutation_type = OP_UPDATE, wc_parameters = [(field, x)], wc_boundary = SHARED\<rparr>))"

definition note_status :: "work_claim \<Rightarrow> write_back_status \<Rightarrow> (('x, 'a, 'z) pipeline_world, unit) meth" where
  "note_status c st w = (Inr (), w\<lparr>wd_own := (wd_own w)\<lparr>po_statuses := dset (wi_item_id (claim_item c)) (write_back_value st) (po_statuses (wd_own w))\<rparr>\<rparr>)"

definition conclude_write_back :: "('x, 'a, 'z) pipeline_env \<Rightarrow> work_claim \<Rightarrow> write_back_result \<Rightarrow> (('x, 'a, 'z) pipeline_world, bulk_stage_result) meth" where
  "conclude_write_back env c out =
     (let status = write_back_value (wr_status out) in
      if wr_status out \<in> {WB_COMMITTED, WB_RECOVERED}
      then pureM \<lparr>bsr_action = STAGE_CHECKPOINTED, bsr_checkpoint_stage = Some CS_COMPLETED, bsr_terminal = None, bsr_outcome = status\<rparr>
      else if wr_status out = WB_PERSISTED
      then bindM (reading (\<lambda>st. bindR (required_reference (wr_output_reference out)) (\<lambda>r. get_object (sv_sha env) r st))) (\<lambda>b.
           bindM (run_result env c \<lparr>er_state = TS_SUCCEEDED, er_failure_code = None, er_failure_details = None, er_result = Some b,
                    er_token_usage = 0, er_cost = 0\<rparr>) (\<lambda>t. pureM (stage_ended status t)))
      else bindM (terminal_outcome env c TS_WRITE_BACK_FAILED status (join '','' (wr_reason_codes out))) (\<lambda>t. pureM (stage_ended status t)))"

definition write_accepted :: "('x, 'a, 'z) pipeline_env \<Rightarrow> work_claim \<Rightarrow> execution_context \<Rightarrow> validation_result \<Rightarrow> task_function option
    \<Rightarrow> (('x, 'a, 'z) pipeline_world, bulk_stage_result) meth" where
  "write_accepted env c ctx v f =
     bindM (liftR (write_command c v f)) (\<lambda>cmd.
     bindM (on_write_back (write_back (write_back_executor env) cmd ctx)) (\<lambda>out.
     bindM (note_status c (wr_status out)) (\<lambda>_. conclude_write_back env c out)))"

section \<open>The stages\<close>

definition store_result_bytes :: "('x, 'a, 'z) pipeline_env \<Rightarrow> string \<Rightarrow> (('x, 'a, 'z) pipeline_world, object_reference) meth" where
  "store_result_bytes env b = on_objects (put_result (sv_sha env) b)"

definition store_canonical :: "('x, 'a, 'z) pipeline_env \<Rightarrow> pyval \<Rightarrow> (('x, 'a, 'z) pipeline_world, object_reference) meth" where
  "store_canonical env v = bindM (liftR (canonical_payload_bytes (sv_float env) v)) (store_result_bytes env)"

text \<open>\<open>_prepared_from_accepted_checkpoint\<close>; \<open>next\<close> of an empty generator raises \<open>StopIteration\<close>.\<close>

definition accepted_checkpoint :: "work_claim \<Rightarrow> work_repository \<Rightarrow> checkpoint_record res" where
  "accepted_checkpoint c r = (case filter (\<lambda>cp. completed_stage cp = CS_ACCEPTED) (checkpoints (fst (claimed_key c)) (snd (claimed_key c)) r) of
     [] \<Rightarrow> Inl (ForeignError ''StopIteration'' []) | cp # _ \<Rightarrow> Inr cp)"

definition prepared_again :: "('x, 'a, 'z) pipeline_env \<Rightarrow> work_claim \<Rightarrow> (('x, 'a, 'z) pipeline_world, prepared_task) meth" where
  "prepared_again env c =
     bindM (on_work (\<lambda>r. (accepted_checkpoint c r, r))) (\<lambda>cp. reading (load_prepared env (cp_result_reference cp)))"

definition claimed_result :: "('x, 'a, 'z) pipeline_env \<Rightarrow> work_claim \<Rightarrow> (('x, 'a, 'z) pipeline_world, pyval) meth" where
  "claimed_result env c = reading (load_result env (wi_result_reference (claim_item c)))"

definition validate_stage :: "('x, 'a, 'z) pipeline_env \<Rightarrow> prepared_task \<Rightarrow> pyval \<Rightarrow> execution_context \<Rightarrow> bool
    \<Rightarrow> (('x, 'a, 'z) pipeline_world, validation_result) meth" where
  "validate_stage env t v ctx accepted_flat =
     bindM (liftR (stage_outputs t v accepted_flat)) (\<lambda>outputs.
       on_models (outside (validate_packs (pv_validator env) (pv_rules env) t outputs ctx)))"

definition rejected_output :: "validation_result \<Rightarrow> exn" where
  "rejected_output v = (let out = vres_outcome v in
     BulkTaskFailure TS_VALIDATION_FAILED ''validation_failed''
       (join '','' (if vo_reason_codes out = [] then vo_failed_rule_ids out else vo_reason_codes out)))"

definition accepted_entry :: "validation_result \<Rightarrow> pyval" where
  "accepted_entry v = VTuple (map (\<lambda>m. VDict (map (\<lambda>p. (VStr (fst p), snd p)) m)) (accepted_records v))"

text \<open>The stages of a task.\<close>

definition process_task :: "('x, 'a, 'z) pipeline_env \<Rightarrow> checkpoint_stage \<Rightarrow> work_claim \<Rightarrow> execution_context
    \<Rightarrow> (('x, 'a, 'z) pipeline_world, bulk_stage_result) meth" where
  "process_task env stage c ctx = (case stage of
     CS_ACCEPTED \<Rightarrow>
       bindM (on_objects (prepare_task env (wi_payload_reference (claim_item c)) ctx)) (\<lambda>t.
       bindM (bindM (liftR (prepared_bytes env t)) (store_result_bytes env)) (\<lambda>ref.
         stage_checkpoint env c stage ''task_prepared'' (Some ref)))
   | CS_MODEL_COMPLETED \<Rightarrow>
       bindM (reading (load_prepared env (wi_result_reference (claim_item c)))) (\<lambda>t.
       bindM (invoke_packs env (pt_packs t) (pt_model_work t) ctx) (\<lambda>responses.
       bindM (store_canonical env (VTuple responses)) (\<lambda>ref.
         stage_checkpoint env c stage ''model_succeeded'' (Some ref))))
   | CS_RESULT_STORED \<Rightarrow>
       bindM (prepared_again env c) (\<lambda>t.
       bindM (claimed_result env c) (\<lambda>responses.
       bindM (liftR (parse_responses env t responses)) (\<lambda>parsed.
       bindM (store_canonical env parsed) (\<lambda>ref.
         stage_checkpoint env c stage ''parsed'' (Some ref)))))
   | CS_VALIDATED \<Rightarrow>
       bindM (prepared_again env c) (\<lambda>t.
       bindM (claimed_result env c) (\<lambda>parsed.
       bindM (validate_stage env t parsed ctx False) (\<lambda>v.
         if \<not> vo_accepted (vres_outcome v) then raiseM (rejected_output v)
         else bindM (store_canonical env (accepted_entry v)) (\<lambda>ref.
           stage_checkpoint env c stage ''accepted'' (Some ref)))))
   | CS_COMPLETED \<Rightarrow>
       bindM (prepared_again env c) (\<lambda>t.
       bindM (claimed_result env c) (\<lambda>accepted.
       bindM (validate_stage env t accepted ctx True) (\<lambda>v.
         write_accepted env c ctx v (Some (tv_function (pt_invocation t)))))))"

text \<open>The stages of an item that is no task.\<close>

definition validate_item :: "('x, 'a, 'z) pipeline_env \<Rightarrow> work_claim \<Rightarrow> execution_context
    \<Rightarrow> (('x, 'a, 'z) pipeline_world, validation_result) meth" where
  "validate_item env c ctx =
     bindM (reading (load_bytes env (wi_result_reference (claim_item c)))) (\<lambda>out.
       on_models (outside (validate (pv_validator env) (pv_rules env) [wi_item_id (claim_item c)] [out] ctx)))"

definition process_legacy :: "('x, 'a, 'z) pipeline_env \<Rightarrow> checkpoint_stage \<Rightarrow> work_claim \<Rightarrow> execution_context
    \<Rightarrow> (('x, 'a, 'z) pipeline_world, bulk_stage_result) meth" where
  "process_legacy env stage c ctx = (case stage of
     CS_ACCEPTED \<Rightarrow> stage_checkpoint env c stage ''accepted'' None
   | CS_MODEL_COMPLETED \<Rightarrow> stage_checkpoint env c stage ''model_succeeded'' (Some (wi_payload_reference (claim_item c)))
   | CS_RESULT_STORED \<Rightarrow> stage_checkpoint env c stage ''result_stored'' (wi_result_reference (claim_item c))
   | CS_VALIDATED \<Rightarrow>
       bindM (validate_item env c ctx) (\<lambda>v.
         if \<not> vo_accepted (vres_outcome v)
         then bindM (terminal_outcome env c TS_VALIDATION_FAILED ''validation_failed'' ''invalid output'')
           (\<lambda>t. pureM (stage_ended ''validation_failed'' t))
         else stage_checkpoint env c stage ''accepted'' (wi_result_reference (claim_item c)))
   | CS_COMPLETED \<Rightarrow> bindM (validate_item env c ctx) (\<lambda>v. write_accepted env c ctx v None))"

definition process_stage_body :: "('x, 'a, 'z) pipeline_env \<Rightarrow> work_claim \<Rightarrow> execution_context
    \<Rightarrow> (('x, 'a, 'z) pipeline_world, bulk_stage_result) meth" where
  "process_stage_body env c ctx =
     bindM (on_work (\<lambda>r. (resume_state (fst (claimed_key c)) (snd (claimed_key c)) r, r))) (\<lambda>st.
     bindM (reading (is_task env (wi_payload_reference (claim_item c)))) (\<lambda>task.
       case rs_next_stage st of
         None \<Rightarrow> raiseM (RuntimeError ''unsupported resume stage: None'')
       | Some stage \<Rightarrow> if task then process_task env stage c ctx else process_legacy env stage c ctx))"

text \<open>How an exception is classified: the state, the code and the details of the terminal record,
  and the outcome of the stage.\<close>

definition failure_outcome :: "exn \<Rightarrow> terminal_work_item_state \<times> string \<times> string \<times> string" where
  "failure_outcome e = (case e of
     BulkTaskFailure state code det \<Rightarrow> (state, code, det, code)
   | SecurityRejection f \<Rightarrow> (TS_POLICY_REJECTED, failure_code_value (tf_code f), tf_message f, ''policy_rejected'')
   | _ \<Rightarrow> (TS_RETRY_EXHAUSTED, exn_name e, exn_text e, ''retry_exhausted''))"

definition process_stage :: "('x, 'a, 'z) pipeline_env \<Rightarrow> work_claim \<Rightarrow> execution_context
    \<Rightarrow> (('x, 'a, 'z) pipeline_world, bulk_stage_result) meth" where
  "process_stage env c ctx w =
     (case process_stage_body env c ctx w of
        (Inr r, w1) \<Rightarrow> (Inr r, w1)
      | (Inl e, w1) \<Rightarrow> (case failure_outcome e of (state, code, det, out) \<Rightarrow>
          bindM (terminal_outcome env c state code det) (\<lambda>t. pureM (stage_ended out t)) w1))"

section \<open>Running a job\<close>

text \<open>The worker has a lease of five minutes; six rounds are enough for its loop, as
  \<open>bulk_run_returns\<close> shows. \<open>None\<close> would be fuel that ran out.\<close>

definition stage_rounds :: nat where "stage_rounds = 6"

definition bulk_lease :: timedelta where "bulk_lease = 300000000"

definition pipeline_worker :: "('x, 'a, 'z) pipeline_env \<Rightarrow> ('x, 'a, 'z) pipeline_world bulk_worker" where
  "pipeline_worker env = memory_worker (pv_clock env) (process_stage env) bulk_lease"

definition run_item :: "('x, 'a, 'z) pipeline_env \<Rightarrow> bool \<Rightarrow> string \<Rightarrow> execution_context \<Rightarrow> string \<Rightarrow> ('x, 'a, 'z) pipeline_world
    \<Rightarrow> (unit res \<times> ('x, 'a, 'z) pipeline_world) option" where
  "run_item env interrupt job ctx i w =
     (let ikey = job @ '':'' @ i;
          full = (\<lambda>w. case worker_resume stage_rounds (pipeline_worker env) job ikey ''worker-resumed'' ctx None w of
            None \<Rightarrow> None | Some (Inl e, w') \<Rightarrow> Some (Inl e, w') | Some (Inr _, w') \<Rightarrow> Some (Inr (), w')) in
      if \<not> interrupt then full w
      else (case worker_resume stage_rounds (pipeline_worker env) job ikey ''worker-before-crash'' ctx (Some 1) w of
          None \<Rightarrow> None | Some (Inl e, w') \<Rightarrow> Some (Inl e, w') | Some (Inr _, w') \<Rightarrow> full w'))"

fun run_items :: "('x, 'a, 'z) pipeline_env \<Rightarrow> bool \<Rightarrow> string \<Rightarrow> execution_context \<Rightarrow> string list \<Rightarrow> ('x, 'a, 'z) pipeline_world
    \<Rightarrow> (unit res \<times> ('x, 'a, 'z) pipeline_world) option" where
  "run_items env interrupt job ctx [] w = Some (Inr (), w)"
| "run_items env interrupt job ctx (i # is) w =
     (case run_item env interrupt job ctx i w of
        None \<Rightarrow> None
      | Some (Inl e, w') \<Rightarrow> Some (Inl e, w')
      | Some (Inr _, w') \<Rightarrow> run_items env interrupt job ctx is w')"

fun classification_value :: "terminal_job_classification \<Rightarrow> string" where
  "classification_value TJ_SUCCEEDED = ''succeeded''"
| "classification_value TJ_PARTIALLY_SUCCEEDED = ''partially-succeeded''"
| "classification_value TJ_FAILED = ''failed''"
| "classification_value TJ_BUDGET_EXHAUSTED = ''budget-exhausted''"
| "classification_value TJ_CANCELLED = ''cancelled''"

fun terminal_state_value :: "terminal_work_item_state \<Rightarrow> string" where
  "terminal_state_value TS_SUCCEEDED = ''succeeded''"
| "terminal_state_value TS_VALIDATION_FAILED = ''validation-failed''"
| "terminal_state_value TS_POLICY_REJECTED = ''policy-rejected''"
| "terminal_state_value TS_BUDGET_EXHAUSTED = ''budget-exhausted''"
| "terminal_state_value TS_RETRY_EXHAUSTED = ''retry-exhausted''"
| "terminal_state_value TS_WRITE_BACK_FAILED = ''write-back-failed''"
| "terminal_state_value TS_CANCELLED = ''cancelled''"

fun work_state_value :: "work_state \<Rightarrow> string" where
  "work_state_value WS_PENDING = ''pending''"
| "work_state_value WS_IN_PROGRESS = ''in_progress''"
| "work_state_value WS_CHECKPOINTED = ''checkpointed''"
| "work_state_value WS_COMPLETED = ''completed''"

record bulk_run_result =
  br_job_id :: string
  br_classification :: string
  br_states :: "(string \<times> string) list"
  br_attempts :: "(string \<times> int) list"
  br_write_back_statuses :: "(string \<times> string) list"
  br_mutation_count :: int
  br_telemetry_count :: int

definition job_cause :: "terminal_record list \<Rightarrow> job_terminal_cause" where
  "job_cause ts = (if list_ex (\<lambda>t. tr_state t = TS_BUDGET_EXHAUSTED) ts then CAUSE_BUDGET_EXHAUSTED else CAUSE_COMPLETED)"

definition job_classification :: "('x, 'a, 'z) pipeline_env \<Rightarrow> string \<Rightarrow> string list \<Rightarrow> (('x, 'a, 'z) pipeline_world, string) meth" where
  "job_classification env job is w =
     (let ts = terminal_items job (wd_repo w) in
      if length ts = length is
      then bindM (on_executor (terminal_report (job_executor env) job (job_cause ts))) (\<lambda>rep. pureM (classification_value (tj_classification rep))) w
      else (bindR (any_res (\<lambda>i. bindR (resume_state job (job @ '':'' @ i) (wd_repo w)) (\<lambda>st. Inr (rs_next_stage st \<noteq> None))) is)
              (\<lambda>unfinished. Inr (if unfinished then ''in-progress'' else ''succeeded'')), w))"

text \<open>The default of \<open>terminal_by_id.get\<close> is evaluated for every item.\<close>

definition item_state :: "string \<Rightarrow> terminal_record list \<Rightarrow> work_repository \<Rightarrow> work_item \<Rightarrow> (string \<times> string) res" where
  "item_state job ts r i =
     bindR (resume_state job (wi_idempotency_key i) r) (\<lambda>st.
       Inr (wi_item_id i, case dget (rev (map (\<lambda>t. (tr_item_id t, terminal_state_value (tr_state t))) ts)) (wi_item_id i) of
         Some v \<Rightarrow> v
       | None \<Rightarrow> if rs_next_stage st = None then ''succeeded'' else work_state_value (wi_state i)))"

definition summarize_run :: "('x, 'a, 'z) pipeline_env \<Rightarrow> string \<Rightarrow> string list \<Rightarrow> (('x, 'a, 'z) pipeline_world, bulk_run_result) meth" where
  "summarize_run env job is w =
     (let ts = terminal_items job (wd_repo w) in
      bindM (job_classification env job is) (\<lambda>classification w.
        (bindR (map_res (item_state job ts (wd_repo w)) (job_items job (wd_repo w))) (\<lambda>states.
           Inr \<lparr>br_job_id = job, br_classification = classification, br_states = states,
             br_attempts = map (\<lambda>i. (wi_item_id i, wi_attempt_count i)) (job_items job (wd_repo w)),
             br_write_back_statuses = sort_key fst (po_statuses (wd_own w)),
             br_mutation_count = pv_mutations env (po_adapter (wd_own w)),
             br_telemetry_count = pv_events env (iw_rest (po_models (wd_own w)))\<rparr>), w)) w)"

text \<open>The outcome of an admission is that of the interactive dispatcher or a bulk dispatch result.\<close>

definition run_bulk :: "('x, 'a, 'z) pipeline_env \<Rightarrow> ('i + bulk_dispatch_result) admission_decision \<Rightarrow> bool \<Rightarrow> ('x, 'a, 'z) pipeline_world
    \<Rightarrow> (bulk_run_result res \<times> ('x, 'a, 'z) pipeline_world) option" where
  "run_bulk env d interrupt w = (case (ad_context d, ad_outcome d) of
     (Some ctx, Some (Inr out)) \<Rightarrow>
       (case run_items env interrupt (dr_job_id out) ctx (dr_submitted_item_ids out) w of
          None \<Rightarrow> None
        | Some (Inl e, w') \<Rightarrow> Some (Inl e, w')
        | Some (Inr _, w') \<Rightarrow> Some (summarize_run env (dr_job_id out) (dr_submitted_item_ids out) w'))
   | _ \<Rightarrow> Some (Inl (ValueError ''an accepted bulk admission decision is required''), w))"

end
