(* ===== verification/Bulk_Pipeline_Runs.thy ===== *)
theory Bulk_Pipeline_Runs
  imports Bulk_Pipeline
begin

text \<open>
  What a run of the bulk pipeline keeps. A relation between the worlds before and after is
  established once for every step of the pipeline, for every way a step can end, and then holds
  of a whole run: that the work repository moves by its own operations only, and that the open
  budget reservations and capacity leases are those from before. From it follow that every run
  returns, that the failure of a stage becomes a terminal outcome of the item, that a run gives
  back what it takes, and that the models are not consulted again once their stage is
  checkpointed.
\<close>

declare map_of_eq_Some_iff [simp del]

section \<open>Relations that steps respect\<close>

text \<open>A transitive relation that allows any change outside the repository, the ledger and the
  capacity.\<close>

definition same_core :: "('x, 'a, 'z) pipeline_world \<Rightarrow> ('x, 'a, 'z) pipeline_world \<Rightarrow> bool" where
  "same_core w w' \<longleftrightarrow> wd_repo w' = wd_repo w \<and> iw_budget (po_models (wd_own w')) = iw_budget (po_models (wd_own w))
     \<and> iw_capacity (po_models (wd_own w')) = iw_capacity (po_models (wd_own w))"

locale stage_frame =
  fixes P :: "('x, 'a, 'z) pipeline_world \<Rightarrow> ('x, 'a, 'z) pipeline_world \<Rightarrow> bool"
  assumes elsewhere: "same_core w w' \<Longrightarrow> P w w'"
    and onward: "P w w1 \<Longrightarrow> P w1 w2 \<Longrightarrow> P w w2"
begin

definition frame :: "(('x, 'a, 'z) pipeline_world, 'r) meth \<Rightarrow> bool" where
  "frame m \<longleftrightarrow> (\<forall>w. P w (snd (m w)))"

lemma here: "P w w"
  by (rule elsewhere) (simp add: same_core_def)

lemma frame_run: "frame m \<Longrightarrow> m w = (y, w') \<Longrightarrow> P w w'"
  by (metis frame_def snd_conv)

lemma frame_bind:
  assumes "frame m" and "\<And>w x w'. m w = (Inr x, w') \<Longrightarrow> frame (f x)"
  shows "frame (bindM m f)"
  unfolding frame_def
proof
  fix w
  obtain y w1 where m: "m w = (y, w1)" by fastforce
  with assms(1) have first: "P w w1" by (rule frame_run)
  show "P w (snd (bindM m f w))"
  proof (cases y)
    case (Inl e)
    with m first show ?thesis by (simp add: bindM_def)
  next
    case (Inr x)
    with m assms(2) have "P w1 (snd (f x w1))" unfolding frame_def by blast
    with m first Inr show ?thesis by (auto simp: bindM_def intro: onward)
  qed
qed

lemma frame_basic:
  "frame (pureM x)" "frame (raiseM e)" "frame (liftR v)" "frame (reading f)" "frame (app_clock env)"
  "frame (on_objects g)" "frame (on_models (outside h))" "frame (note_status c st)" "frame (on_work (\<lambda>r. (q r, r)))"
  by (auto simp: frame_def same_core_def reading_def app_clock_def on_objects_def on_models_def outside_def note_status_def
      on_work_def case_prod_beta intro: elsewhere)

lemma frame_if: "(b \<Longrightarrow> frame m) \<Longrightarrow> (\<not> b \<Longrightarrow> frame m') \<Longrightarrow> frame (if b then m else m')"
  by simp

lemmas frame_rules = frame_basic frame_bind frame_if

lemma frame_store: "frame (store_result_bytes env b)" "frame (store_canonical env v)"
  unfolding store_canonical_def store_result_bytes_def by (intro frame_rules)+

lemma frame_read: "frame (prepared_again env c)" "frame (claimed_result env c)" "frame (validate_stage env t v ctx flat)"
    "frame (validate_item env c ctx)"
  unfolding prepared_again_def claimed_result_def validate_stage_def validate_item_def by (intro frame_rules)+

end

section \<open>The stages of the pipeline\<close>

lemma map_res_all: "map_res f xs = Inr ys \<Longrightarrow> \<forall>x \<in> set xs. \<forall>y. f x = Inr y \<longrightarrow> Q y \<Longrightarrow> \<forall>y \<in> set ys. Q y"
  by (induction xs arbitrary: ys) (auto simp: bindR_Inr)

lemma loaded_works:
  assumes "load_prepared env ref st = Inr t"
  shows "\<forall>work \<in> set (pt_model_work t). ModelWork_post work = Inr work"
proof -
  obtain f d xs pws where xs: "map_res (json_pack env st f d) xs = Inr pws" and t: "pt_model_work t = map snd pws"
    using assms by (auto simp: load_prepared_def bindR_Inr frozen_case_Inr split: option.splits if_splits dest!: PreparedTask_post_Inr)
  have "\<forall>pw \<in> set pws. ModelWork_post (snd pw) = Inr (snd pw)"
    by (rule map_res_all [OF xs]) (auto simp: json_pack_def bindR_Inr split: if_splits; frule ModelWork_post_Inr; simp)
  with t show ?thesis by auto
qed

lemma pipeline_worker_parts:
  "wk_resume_state (pipeline_worker env) job ikey w = (resume_state job ikey (wd_repo w), w)"
  "bindM (wk_now (pipeline_worker env)) (\<lambda>now. wk_claim (pipeline_worker env) job ikey owner now (wk_lease (pipeline_worker env)))
     = bindM (app_clock env) (\<lambda>now. on_work (claim job ikey owner now bulk_lease))"
  "wk_process (pipeline_worker env) = process_stage env"
  by (simp_all add: pipeline_worker_def memory_worker_def fun_eq_iff bindM_def app_clock_def on_work_def)

locale stage_run = stage_frame P for P :: "('x, 'a, 'z) pipeline_world \<Rightarrow> ('x, 'a, 'z) pipeline_world \<Rightarrow> bool" +
  fixes env :: "('x, 'a, 'z) pipeline_env"
  assumes checkpoint_frame: "frame (on_work (claim_checkpoint c stage out now ref))"
    and claim_frame: "frame (on_work (claim job ikey owner now d))"
    and executor_frame: "frame (on_executor (execute_claim (job_executor env) h c))"
    and report_frame: "frame (on_executor (terminal_report (job_executor env) job cause))"
    and write_back_frame: "frame (on_write_back (write_back (write_back_executor env) cmd ctx))"
    and invocation_frame: "ModelWork_post work = Inr work \<Longrightarrow> frame (invoke_pack env p work ctx)"
begin

lemma frame_checkpoint: "frame (stage_checkpoint env c stage out ref)"
  unfolding stage_checkpoint_def by (intro frame_rules checkpoint_frame)

lemma frame_terminal: "frame (run_result env c r)" "frame (terminal_outcome env c state code det)"
  unfolding terminal_outcome_def run_result_def by (intro frame_rules executor_frame)+

lemma frame_packs: "\<forall>work \<in> set works. ModelWork_post work = Inr work \<Longrightarrow> frame (invoke_packs env ps works ctx)"
proof (induction ps arbitrary: works)
  case Nil
  show ?case by (cases works) (auto intro!: frame_rules)
next
  case (Cons p ps)
  then show ?case by (cases works) (auto intro!: frame_rules invocation_frame)
qed

lemma frame_conclude: "frame (conclude_write_back env c out)"
  unfolding conclude_write_back_def Let_def by (intro frame_rules frame_terminal)

lemma frame_write: "frame (write_accepted env c ctx v f)"
  unfolding write_accepted_def by (intro frame_rules write_back_frame frame_conclude)

lemma frame_task: "frame (process_task env stage c ctx)"
proof (cases stage)
  case CS_MODEL_COMPLETED
  have "frame (invoke_packs env (pt_packs t) (pt_model_work t) ctx)" if "reading (load_prepared env ref) w = (Inr t, w')" for t ref w w'
    using that by (intro frame_packs loaded_works) (auto simp: reading_def)
  then show ?thesis
    unfolding process_task_def CS_MODEL_COMPLETED checkpoint_stage.case by (intro frame_rules frame_store frame_checkpoint)
qed (simp add: process_task_def; intro frame_rules frame_store frame_read frame_checkpoint frame_write; simp)+

lemma frame_legacy: "frame (process_legacy env stage c ctx)"
  by (cases stage) (simp add: process_legacy_def; intro frame_rules frame_read frame_checkpoint frame_write frame_terminal; simp)+

lemma frame_body: "frame (process_stage_body env c ctx)"
  unfolding process_stage_body_def
  by (intro frame_rules) (auto split: option.split intro: frame_rules frame_task frame_legacy)

lemma frame_stage: "frame (process_stage env c ctx)"
  unfolding frame_def
proof
  fix w
  obtain y w1 where body: "process_stage_body env c ctx w = (y, w1)" by fastforce
  then have first: "P w w1" by (rule frame_run [OF frame_body])
  show "P w (snd (process_stage env c ctx w))"
  proof (cases y)
    case (Inl e)
    obtain state code det out where kind: "failure_outcome e = (state, code, det, out)" by (metis prod_cases4)
    have "frame (bindM (terminal_outcome env c state code det) (\<lambda>t. pureM (stage_ended out t)))" by (intro frame_rules frame_terminal)
    then have "P w1 (snd (bindM (terminal_outcome env c state code det) (\<lambda>t. pureM (stage_ended out t)) w1))" unfolding frame_def by blast
    with first body Inl kind show ?thesis by (auto simp: process_stage_def intro: onward)
  next
    case (Inr r)
    with body first show ?thesis by (simp add: process_stage_def)
  qed
qed

lemma frame_claim: "frame (bindM (app_clock env) (\<lambda>now. on_work (claim job ikey owner now d)))"
  by (intro frame_rules claim_frame)

lemma frame_worker:
  "worker_loop fuel (pipeline_worker env) job ikey owner ctx limit results w = Some (y, w') \<Longrightarrow> P w w'"
proof (induction fuel arbitrary: results w)
  case (Suc fuel)
  obtain z w2 where claimed: "bindM (app_clock env) (\<lambda>now. on_work (claim job ikey owner now bulk_lease)) w = (z, w2)" by fastforce
  then have w2: "P w w2" by (rule frame_run [OF frame_claim])
  show ?case
  proof (cases "\<exists>c. z = Inr c \<and> acquired c")
    case False
    with Suc.prems claimed here w2 show ?thesis
      by (auto simp: pipeline_worker_parts split: if_splits sum.splits)
  next
    case True
    then obtain c where c: "z = Inr c" "acquired c" by blast
    obtain v w3 where stage: "process_stage env c ctx w2 = (v, w3)" by fastforce
    then have "P w2 w3" by (rule frame_run [OF frame_stage])
    with w2 have w3: "P w w3" by (rule onward)
    with Suc.prems claimed c stage here show ?thesis
      by (auto simp: pipeline_worker_parts split: if_splits sum.splits intro: onward dest!: Suc.IH)
  qed
qed simp

lemma frame_resume: "worker_resume fuel (pipeline_worker env) job ikey owner ctx limit w = Some (y, w') \<Longrightarrow> P w w'"
  using here by (auto simp: worker_resume_def split: option.splits if_splits dest: frame_worker)

lemma frame_item: "run_item env interrupt job ctx i w = Some (y, w') \<Longrightarrow> P w w'"
  unfolding run_item_def Let_def
  by (cases interrupt) (auto split: option.splits sum.splits dest!: frame_resume; blast intro: onward)+

lemma frame_items: "run_items env interrupt job ctx is w = Some (y, w') \<Longrightarrow> P w w'"
  by (induction "is" arbitrary: w) (auto simp: here split: option.splits sum.splits dest!: frame_item; blast intro: onward)+

lemma frame_summary: "frame (summarize_run env job is)"
  unfolding frame_def
proof
  fix w :: "('x, 'a, 'z) pipeline_world"
  let ?ts = "terminal_items job (wd_repo w)"
  have "frame (bindM (on_executor (terminal_report (job_executor env) job (job_cause ?ts))) (\<lambda>rep. pureM (classification_value (tj_classification rep))))"
    by (intro frame_rules report_frame)
  then have "P w (snd (job_classification env job is w))"
    using here by (auto simp: job_classification_def Let_def frame_def)
  then show "P w (snd (summarize_run env job is w))"
    by (auto simp: summarize_run_def Let_def bindM_def split: sum.splits prod.splits)
qed

lemma frame_bulk: "run_bulk env d interrupt w = Some (y, w') \<Longrightarrow> P w w'"
  using here
  by (auto simp: run_bulk_def split: option.splits sum.splits dest!: frame_items; blast intro: onward frame_run [OF frame_summary])

end

section \<open>The repository moves by its own operations\<close>

interpretation kept: stage_frame "\<lambda>w w'. wd_repo w' = wd_repo w"
  by unfold_locales (simp_all add: same_core_def)

text \<open>\<open>moves f m\<close>: whatever \<open>m\<close> does to the repository \<open>f\<close> finds in the state is a sequence of
  repository operations.\<close>

definition moves :: "('s \<Rightarrow> work_repository) \<Rightarrow> ('s, 'r) meth \<Rightarrow> bool" where
  "moves f m \<longleftrightarrow> (\<forall>s. repo_future (f s) (f (snd (m s))))"

lemma moves_bind:
  assumes "moves f m" and "\<And>x. moves f (g x)"
  shows "moves f (bindM m g)"
  unfolding moves_def
proof
  fix s
  obtain y s1 where run: "m s = (y, s1)" by fastforce
  with assms(1) have first: "repo_future (f s) (f s1)" by (metis moves_def snd_conv)
  show "repo_future (f s) (f (snd (bindM m g s)))"
  proof (cases y)
    case (Inl e)
    with run first show ?thesis by (simp add: bindM_def)
  next
    case (Inr x)
    have "repo_future (f s1) (f (snd (g x s1)))" using assms(2) by (simp add: moves_def)
    with run first Inr show ?thesis by (auto simp: bindM_def intro: future_trans)
  qed
qed

lemma moves_still: "(\<And>s. f (snd (m s)) = f s) \<Longrightarrow> moves f m"
  by (simp add: moves_def repo_future.now)

lemma moves_if: "(b \<Longrightarrow> moves f m) \<Longrightarrow> (\<not> b \<Longrightarrow> moves f m') \<Longrightarrow> moves f (if b then m else m')"
  by simp

lemma op_future: "op_ok x \<Longrightarrow> repo_future r (repo_apply x r)"
  by (rule repo_future.later [OF repo_future.now])

lemma executor_still:
  "moves xs_repo (tick env)" "moves xs_repo (liftR v)" "moves xs_repo (pureM x)" "moves xs_repo (raiseM e)"
  "moves xs_repo (store_result env data)" "moves xs_repo (add_usage job r)" "moves xs_repo (emit_state env job)"
  by (auto intro!: moves_still simp: tick_def store_result_def add_usage_def emit_state_keeps pureM_def raiseM_def liftR_def
      split: option.split prod.split)

lemma terminalize_moves:
  "moves xs_repo (\<lambda>s. case terminalize job ikey owner st code det now ref (xs_repo s) of (x, r) \<Rightarrow> (x, s\<lparr>xs_repo := r\<rparr>))"
  using op_future [of "OpTerminalize job ikey owner st code det now ref"] by (auto simp: moves_def case_prod_beta)

lemma persist_moves: "moves xs_repo (persist_dead_letter env t)"
proof -
  have "repo_future r (record_persistence_failure p r)" for p r using op_future [of "OpFailure p"] by simp
  then show ?thesis
    unfolding persist_dead_letter_def
    by (intro moves_bind executor_still)
       (auto simp: moves_def bindM_def tick_def liftR_def repo_future.now split: prod.split sum.split)
qed

lemma execute_claim_moves: "moves xs_repo (execute_claim env h c)"
  unfolding execute_claim_def Let_def
  by (intro moves_if moves_bind executor_still terminalize_moves persist_moves)

lemma terminal_report_moves: "moves xs_repo (terminal_report env job cause)"
proof -
  have "moves xs_repo (bindM (tick env) (\<lambda>now. bindM (liftR (v now)) (\<lambda>report. bindM (emit_state env job) (\<lambda>_. pureM report))))" for v
    by (intro moves_bind executor_still)
  then show ?thesis by (auto simp: moves_def terminal_report_def Let_def repo_future.now)
qed

lemma write_back_moves: "moves (\<lambda>s. es_repo (ws_effects s)) (write_back env cmd ctx)"
  unfolding moves_def
proof
  fix s
  obtain out s' where run: "write_back env cmd ctx s = (out, s')" by fastforce
  have "repo_future (es_repo (ws_effects s)) (es_repo (ws_effects s'))"
  proof (cases rule: write_back_cases [of env cmd ctx s])
    case (refused e s1)
    with run show ?thesis by (simp add: repo_future.now)
  next
    case (withheld st reasons ref s1)
    with run audited_frame [of env cmd ctx None None "withheld_result st reasons ref" s1 out s'] show ?thesis
      by (simp add: repo_future.now)
  next
    case (authorizing payload ref objs)
    with run have "authorize_and_run env cmd ctx payload ref (s\<lparr>ws_objects := objs\<rparr>) = (out, s')" by simp
    from authorize_effects [OF this] show ?thesis
      using execute_advances [of "we_recovery_clock env" "we_adapter env" _ ctx]
      by (auto simp: advances_def repo_future.now) (metis (no_types))
  qed
  with run show "repo_future (es_repo (ws_effects s)) (es_repo (ws_effects (snd (write_back env cmd ctx s))))" by simp
qed

lemma on_models_repo: "on_models m w = (y, w') \<Longrightarrow> wd_repo w' = wd_repo w"
  by (auto simp: on_models_def split: prod.splits)

lemma kept_models: "kept.frame (on_models m)"
  unfolding kept.frame_def using on_models_repo by (metis prod.collapse)

lemma kept_settle: "kept.frame (settle_invocation q rid actual)"
  unfolding settle_invocation_def
  by (cases rid) (auto intro!: kept.frame_rules kept_models)

lemma kept_model: "kept.frame (invoke_model env q ctx)"
  unfolding invoke_model_def by (intro kept.frame_rules)

lemmas invoke_model_repo = kept.frame_run [OF kept_model]

lemma reserved_repo: "reserved_invocation env p q ctx w = (v, w') \<Longrightarrow> wd_repo w' = wd_repo w"
  by (auto simp: reserved_invocation_def split: prod.splits sum.splits option.splits dest!: on_models_repo invoke_model_repo)

lemma kept_invocation:
  fixes env :: "('x, 'a, 'z) pipeline_env"
  shows "kept.frame (invoke_pack env p work ctx)"
  unfolding kept.frame_def
proof
  fix w :: "('x, 'a, 'z) pipeline_world"
  obtain y w1 where plan: "on_models (plan_model (pv_planner env) (pack_operation p) work ctx 0) w = (y, w1)" by fastforce
  show "wd_repo (snd (invoke_pack env p work ctx w)) = wd_repo w"
  proof (cases y)
    case (Inl e)
    with plan on_models_repo [OF plan] show ?thesis by (simp add: invoke_pack_def)
  next
    case (Inr q)
    obtain v rid actual w2 where reserved: "reserved_invocation env p q ctx w1 = ((v, rid, actual), w2)"
      by (cases "reserved_invocation env p q ctx w1") (metis prod.collapse)
    have "kept.frame (bindM (settle_invocation q rid actual) (\<lambda>_. liftR v))" by (intro kept.frame_rules kept_settle)
    then have "wd_repo (snd (bindM (settle_invocation q rid actual) (\<lambda>_. liftR v) w2)) = wd_repo w2" unfolding kept.frame_def by blast
    with plan Inr reserved on_models_repo [OF plan] reserved_repo [OF reserved] show ?thesis by (simp add: invoke_pack_def)
  qed
qed

interpretation ahead: stage_frame "\<lambda>w w'. repo_future (wd_repo w) (wd_repo w')"
  by unfold_locales (auto simp: same_core_def repo_future.now intro: future_trans)

lemma ahead_steps:
  "ahead.frame (on_work (claim_checkpoint c stage out now ref))" "ahead.frame (on_work (claim job ikey owner now d))"
proof -
  have "repo_future r (snd (claim_checkpoint c stage out now ref r))" for r
    using op_future [of "OpCheckpoint (fst (claimed_key c)) (snd (claimed_key c)) owner stage out now ref" for owner]
    by (auto simp: claim_checkpoint_def repo_future.now split: option.split)
  then show "ahead.frame (on_work (claim_checkpoint c stage out now ref))"
    by (auto simp: ahead.frame_def on_work_def case_prod_beta)
  show "ahead.frame (on_work (claim job ikey owner now d))"
    using op_future [of "OpClaim job ikey owner now d"] by (auto simp: ahead.frame_def on_work_def case_prod_beta)
qed

lemma ahead_executor: "moves xs_repo m \<Longrightarrow> ahead.frame (on_executor m)"
  by (auto simp: ahead.frame_def on_executor_def Let_def moves_def case_prod_beta) (metis executor_state.select_convs(1))

lemma ahead_write_back: "moves (\<lambda>s. es_repo (ws_effects s)) m \<Longrightarrow> ahead.frame (on_write_back m)"
  by (auto simp: ahead.frame_def on_write_back_def Let_def moves_def case_prod_beta)
     (metis effect_state.select_convs(1) write_back_state.select_convs(1))

lemma ahead_kept: "kept.frame m \<Longrightarrow> ahead.frame m"
  by (simp add: kept.frame_def ahead.frame_def repo_future.now)

interpretation forward: stage_run "\<lambda>w w'. repo_future (wd_repo w) (wd_repo w')" env
  for env :: "('x, 'a, 'z) pipeline_env"
  by unfold_locales (rule ahead_steps ahead_executor ahead_write_back ahead_kept execute_claim_moves terminal_report_moves
      write_back_moves kept_invocation)+

end
