(* ===== verification/Bulk_Pipeline_Outcomes.thy ===== *)
theory Bulk_Pipeline_Outcomes
  imports Bulk_Pipeline_Runs
begin

text \<open>
  What a run of the bulk pipeline promises: it gives back the budget reservations and the
  capacity leases that it takes (the relation of locale \<open>stage_run\<close> on the ledger and the
  capacity), it returns within six rounds, and a stage that fails leaves a terminal outcome
  with the evidence.
\<close>

declare map_of_eq_Some_iff [simp del]

section \<open>Reservations and leases\<close>

abbreviation held_books :: "('x, 'a, 'z) pipeline_world \<Rightarrow> 'x interactive_world" where
  "held_books w \<equiv> po_models (wd_own w)"

definition gives_back :: "('x, 'a, 'z) pipeline_env \<Rightarrow> ('x, 'a, 'z) pipeline_world \<Rightarrow> ('x, 'a, 'z) pipeline_world \<Rightarrow> bool" where
  "gives_back env w w' \<longleftrightarrow> (planner_ok (pv_planner env) \<longrightarrow> gateway_ok (pv_invoker env) \<longrightarrow> books_ok (held_books w) \<longrightarrow>
     books_ok (held_books w') \<and> open_reservations (iw_budget (held_books w')) = open_reservations (iw_budget (held_books w))
     \<and> leased (iw_capacity (held_books w')) = leased (iw_capacity (held_books w)))"

lemma gives_back_same:
  "iw_budget (held_books w') = iw_budget (held_books w) \<Longrightarrow> iw_capacity (held_books w') = iw_capacity (held_books w) \<Longrightarrow> gives_back env w w'"
  by (simp add: gives_back_def books_ok_def)

lemma books_same: "books_ok w \<Longrightarrow> iw_budget w' = iw_budget w \<Longrightarrow> iw_capacity w' = iw_capacity w \<Longrightarrow> books_ok w'"
  by (simp add: books_ok_def)

lemma on_models_books: "on_models m w = (y, w') \<Longrightarrow> m (held_books w) = (y, held_books w')"
  by (auto simp: on_models_def split: prod.splits)

lemma invoke_model_books:
  assumes "invoke_model env q ctx w = (y, w')"
  shows "iw_budget (held_books w') = iw_budget (held_books w) \<and> iw_capacity (held_books w') = iw_capacity (held_books w)"
    and "y = Inr m \<Longrightarrow> gateway_ok (pv_invoker env) \<Longrightarrow> usage_ok (mi_actual_usage m)"
proof -
  show "iw_budget (held_books w') = iw_budget (held_books w) \<and> iw_capacity (held_books w') = iw_capacity (held_books w)"
    using assms by (auto simp: invoke_model_def bindM_def reading_def on_models_def outside_def split: prod.splits sum.splits)
  assume "y = Inr m" and ok: "gateway_ok (pv_invoker env)"
  with assms obtain payload x x' where "gateway_invoke (pv_invoker env) q payload ctx x = (Inr m, x')"
    by (auto simp: invoke_model_def bindM_def reading_def on_models_def outside_def split: prod.splits sum.splits)
  with ok show "usage_ok (mi_actual_usage m)" by (rule gateway_usage)
qed

lemma reserved_books:
  assumes run: "reserved_invocation env p q ctx w = ((v, rid, actual), w')"
    and ok: "gateway_ok (pv_invoker env)" "books_ok (held_books w)" "usage_ok (mp_estimate q)"
  shows "books_ok (held_books w') \<and> iw_capacity (held_books w') = iw_capacity (held_books w)
    \<and> usage_ok (case actual of Some u \<Rightarrow> u | None \<Rightarrow> mp_estimate q)
    \<and> (case rid of None \<Rightarrow> open_reservations (iw_budget (held_books w')) = open_reservations (iw_budget (held_books w))
       | Some i \<Rightarrow> i \<notin> open_reservations (iw_budget (held_books w))
           \<and> open_reservations (iw_budget (held_books w')) = insert i (open_reservations (iw_budget (held_books w))))"
proof -
  obtain x w1 where reserve: "on_models (bound_reserve ctx (mp_estimate q)) w = (x, w1)" by fastforce
  note law = bound_reserve_books [OF ok(2,3) on_models_books [OF reserve]]
  consider e where "x = Inl e" | d where "x = Inr d" "rd_reservation d = None"
    | d r where "x = Inr d" "rd_reservation d = Some r" by (cases x) auto
  then show ?thesis
  proof cases
    case (3 d r)
    obtain y w2 where invoke: "invoke_model env q ctx w1 = (y, w2)" by fastforce
    have "w' = w2" "rid = Some (reservation_id r)"
      and actual: "actual = (case y of Inl _ \<Rightarrow> None | Inr m \<Rightarrow> Some (mi_actual_usage m))"
      using run reserve 3 invoke by (auto simp: reserved_invocation_def split: sum.splits)
    moreover have "usage_ok (case actual of Some u \<Rightarrow> u | None \<Rightarrow> mp_estimate q)"
      using actual ok(1,3) invoke_model_books(2) [OF invoke] by (cases y) auto
    moreover have "books_ok (held_books w2)"
      using invoke_model_books(1) [OF invoke] law by (blast intro: books_same [of "held_books w1"])
    ultimately show ?thesis using law 3 invoke_model_books(1) [OF invoke] by simp
  next
    case 1
    with run reserve have "w' = w1" "rid = None" "actual = None" by (auto simp: reserved_invocation_def)
    with law 1 ok(3) show ?thesis by simp
  next
    case 2
    with run reserve have "w' = w1" "rid = None" "actual = None" by (auto simp: reserved_invocation_def)
    with law 2 ok(3) show ?thesis by simp
  qed
qed

lemma settle_books:
  assumes run: "settle_invocation q rid actual w = (y, w')"
    and ok: "books_ok (held_books w)" "usage_ok (case actual of Some u \<Rightarrow> u | None \<Rightarrow> mp_estimate q)"
    and lease: "mp_lease q \<in> leased (iw_capacity (held_books w))"
    and rid: "case rid of None \<Rightarrow> True | Some i \<Rightarrow> i \<in> open_reservations (iw_budget (held_books w))"
  shows "y = Inr () \<and> books_ok (held_books w')
    \<and> open_reservations (iw_budget (held_books w'))
        = open_reservations (iw_budget (held_books w)) - (case rid of None \<Rightarrow> {} | Some i \<Rightarrow> {i})
    \<and> leased (iw_capacity (held_books w')) = leased (iw_capacity (held_books w)) - {mp_lease q}"
proof (cases rid)
  case None
  with run have "on_models (complete_plan q) w = (y, w')" by (simp add: settle_invocation_def bindM_def pureM_def)
  from complete_books [OF ok(1) lease on_models_books [OF this]] None show ?thesis by simp
next
  case (Some i)
  obtain x w1 where reconcile: "on_models (bound_reconcile i (case actual of Some u \<Rightarrow> u | None \<Rightarrow> mp_estimate q)) w = (x, w1)" by fastforce
  from rid Some have "i \<in> open_reservations (iw_budget (held_books w))" by simp
  note law = bound_reconcile_books [OF ok this on_models_books [OF reconcile]]
  then obtain receipt where "x = Inr receipt" by blast
  then have "on_models (complete_plan q) w1 = (y, w')"
    using run Some reconcile by (simp add: settle_invocation_def bindM_def pureM_def)
  note completed = complete_books [OF _ _ on_models_books [OF this]]
  from law have w1: "books_ok (held_books w1)" "iw_capacity (held_books w1) = iw_capacity (held_books w)"
    "open_reservations (iw_budget (held_books w1)) = open_reservations (iw_budget (held_books w)) - {i}" by blast+
  with lease have "mp_lease q \<in> leased (iw_capacity (held_books w1))" by simp
  from completed [OF w1(1) this] w1 Some show ?thesis by simp
qed

lemma invocation_gives_back:
  assumes "ModelWork_post work = Inr work" and run: "invoke_pack env p work ctx w = (y, w')"
  shows "gives_back env w w'"
  unfolding gives_back_def
proof (intro impI)
  assume ok: "planner_ok (pv_planner env)" "gateway_ok (pv_invoker env)" "books_ok (held_books w)"
  let ?opened = "\<lambda>w :: ('a, 'b, 'c) pipeline_world. open_reservations (iw_budget (held_books w))"
  let ?leased = "\<lambda>w :: ('a, 'b, 'c) pipeline_world. leased (iw_capacity (held_books w))"
  obtain z w1 where plan: "on_models (plan_model (pv_planner env) (pack_operation p) work ctx 0) w = (z, w1)" by fastforce
  note law = plan_model_books [OF ok(1,3) assms(1) on_models_books [OF plan]]
  show "books_ok (held_books w') \<and> ?opened w' = ?opened w \<and> ?leased w' = ?leased w"
  proof (cases z)
    case (Inl e)
    with law plan run show ?thesis by (simp add: invoke_pack_def)
  next
    case (Inr q)
    obtain v rid actual w2 where reserved: "reserved_invocation env p q ctx w1 = ((v, rid, actual), w2)"
      by (cases "reserved_invocation env p q ctx w1") (metis prod.collapse)
    from law Inr have plan_ok: "books_ok (held_books w1)" "usage_ok (mp_estimate q)" "mp_lease q \<notin> ?leased w"
      "?leased w1 = insert (mp_lease q) (?leased w)" "?opened w1 = ?opened w" by simp_all
    note res = reserved_books [OF reserved ok(2) plan_ok(1,2)]
    obtain x w3 where settle: "settle_invocation q rid actual w2 = (x, w3)" by fastforce
    have "books_ok (held_books w2)" "usage_ok (case actual of Some u \<Rightarrow> u | None \<Rightarrow> mp_estimate q)"
      "mp_lease q \<in> ?leased w2" "case rid of None \<Rightarrow> True | Some i \<Rightarrow> i \<in> ?opened w2"
      using res plan_ok by (auto split: option.splits)
    note fin = settle_books [OF settle this]
    from run plan Inr reserved settle fin have "w' = w3" by (simp add: invoke_pack_def bindM_def liftR_def)
    moreover have "?opened w3 = ?opened w" "?leased w3 = ?leased w"
      using fin res plan_ok by (auto split: option.splits)
    ultimately show ?thesis using fin by simp
  qed
qed

interpretation balanced: stage_frame "gives_back env" for env :: "('x, 'a, 'z) pipeline_env"
proof (unfold_locales, goal_cases)
  case (1 w w')
  then show ?case by (simp add: same_core_def gives_back_same)
next
  case (2 w w1 w2)
  then show ?case by (simp add: gives_back_def)
qed

lemma balanced_steps:
  "balanced.frame env (on_work g)" "balanced.frame env (on_executor f)" "balanced.frame env (on_write_back h)"
  by (auto simp: balanced.frame_def on_work_def on_executor_def on_write_back_def Let_def case_prod_beta intro: gives_back_same)

interpretation settled: stage_run "gives_back env" env for env :: "('x, 'a, 'z) pipeline_env"
proof (unfold_locales, goal_cases)
  case (6 work p ctx)
  then show ?case unfolding balanced.frame_def by (metis invocation_gives_back prod.collapse)
qed (rule balanced_steps)+

section \<open>Progress\<close>

text \<open>\<open>goes_on k stage m\<close>: a result of \<open>m\<close> that asks the worker to continue has made the stage after
  \<open>stage\<close> the due one.\<close>

definition goes_on :: "work_key \<Rightarrow> checkpoint_stage \<Rightarrow> (('x, 'a, 'z) pipeline_world, bulk_stage_result) meth \<Rightarrow> bool" where
  "goes_on k stage m \<longleftrightarrow> (\<forall>w r w'. repo_ok (wd_repo w) \<longrightarrow> due_stage k (wd_repo w) = Some stage \<longrightarrow> m w = (Inr r, w')
     \<longrightarrow> bsr_action r = STAGE_CHECKPOINTED \<longrightarrow> due_stage k (wd_repo w') = next_stage stage)"

lemma goes_on_bind:
  fixes m :: "(('x, 'a, 'z) pipeline_world, 'r) meth"
  assumes "kept.frame m" and "\<And>x. goes_on k stage (f x)"
  shows "goes_on k stage (bindM m f)"
  unfolding goes_on_def
proof (intro allI impI)
  fix w w' :: "('x, 'a, 'z) pipeline_world" and r
  assume w: "repo_ok (wd_repo w)" "due_stage k (wd_repo w) = Some stage" and run: "bindM m f w = (Inr r, w')"
    and on: "bsr_action r = STAGE_CHECKPOINTED"
  from run obtain x w1 where m: "m w = (Inr x, w1)" "f x w1 = (Inr r, w')" by (auto simp: bindM_Inr)
  have "wd_repo w1 = wd_repo w" by (rule kept.frame_run [OF assms(1) m(1)])
  with w m(2) on show "due_stage k (wd_repo w') = next_stage stage"
    using assms(2) [of x, unfolded goes_on_def, rule_format, of w1 r w'] by simp
qed

lemma goes_on_basic: "goes_on k stage (raiseM e)" "goes_on k stage (bindM m (\<lambda>t. pureM (stage_ended out t)))"
  by (auto simp: goes_on_def raiseM_def bindM_Inr pureM_def stage_ended_def)

lemma goes_on_if: "(b \<Longrightarrow> goes_on k stage m) \<Longrightarrow> (\<not> b \<Longrightarrow> goes_on k stage m') \<Longrightarrow> goes_on k stage (if b then m else m')"
  by simp

lemma goes_on_checkpoint:
  fixes env :: "('x, 'a, 'z) pipeline_env"
  shows "goes_on (claimed_key c) stage (stage_checkpoint env c stage out ref)"
  unfolding goes_on_def
proof (intro allI impI)
  fix w w' :: "('x, 'a, 'z) pipeline_world" and r
  assume w: "repo_ok (wd_repo w)" "due_stage (claimed_key c) (wd_repo w) = Some stage"
    and run: "stage_checkpoint env c stage out ref w = (Inr r, w')"
  from run obtain cp where "claim_checkpoint c stage out (pv_clock env (wd_clock w)) ref (wd_repo w) = (Inr cp, wd_repo w')"
    by (auto simp: stage_checkpoint_def bindM_Inr app_clock_def on_work_def pureM_def split: prod.splits)
  then obtain owner where "checkpoint (fst (claimed_key c)) (snd (claimed_key c)) owner stage out (pv_clock env (wd_clock w)) ref (wd_repo w)
      = (Inr cp, wd_repo w')"
    by (auto simp: claim_checkpoint_def bindR_Inr split: option.splits)
  from checkpoint_due [OF w(1) _ this] w(2) show "due_stage (claimed_key c) (wd_repo w') = next_stage stage" by simp
qed

lemma goes_on_written:
  assumes "write_back env cmd ctx s = (Inr out, s')" and "wr_status out \<in> {WB_COMMITTED, WB_RECOVERED}"
    and "repo_ok (es_repo (ws_effects s))"
  shows "due_stage (claimed_key (wc_claim cmd)) (es_repo (ws_effects s')) = None"
proof (cases rule: write_back_cases [of env cmd ctx s])
  case (refused e s1)
  with assms(1) show ?thesis by simp
next
  case (withheld st reasons ref s1)
  with assms(1,2) audited_frame [of env cmd ctx None None "withheld_result st reasons ref" s1 "Inr out" s'] show ?thesis by auto
next
  case (authorizing payload ref objs)
  with assms(1) have "authorize_and_run env cmd ctx payload ref (s\<lparr>ws_objects := objs\<rparr>) = (Inr out, s')" by simp
  then obtain q res where q: "effect_request_of env cmd payload = Inr q"
    and run: "execute_effect (we_recovery_clock env) (we_adapter env) q ctx (ws_effects s) = (Inr res, ws_effects s')"
    and res: "recovered_status (rv_status res) = wr_status out"
    using assms(2) by (auto simp: authorize_and_run_def bindM_Inr liftR_def wb_tick_def run_effect_def
        split: if_splits prod.splits sum.splits dest!: audited_frame)
  from res assms(2) have "rv_status res \<in> {RC_COMMITTED, RC_RECOVERED}" by (cases "rv_status res") auto
  with effect_outcome_recorded [OF assms(3) run] obtain rec where "recorded q rec (es_repo (ws_effects s'))" by auto
  then have "completed_history (checkpoints_of (item_key q) (es_repo (ws_effects s')))" by (simp add: recorded_def)
  moreover from q have "rq_claim q = wc_claim cmd" by (auto simp: effect_request_of_def EffectRequest_post_def bindR_Inr split: if_splits)
  ultimately show ?thesis
    by (auto simp: claimed_key_def due_stage_def latest_Some next_stage_None completed_history_def split: option.splits)
qed

lemma kept_packs: "kept.frame (invoke_packs env ps works ctx)"
proof (induction ps arbitrary: works)
  case Nil
  show ?case by (cases works) (auto intro!: kept.frame_rules)
next
  case (Cons p ps)
  then show ?case by (cases works) (auto intro!: kept.frame_rules kept_invocation)
qed

lemma goes_on_write:
  fixes env :: "('x, 'a, 'z) pipeline_env"
  shows "goes_on (claimed_key c) CS_COMPLETED (write_accepted env c ctx v f)"
  unfolding goes_on_def
proof (intro allI impI)
  fix w w' :: "('x, 'a, 'z) pipeline_world" and r
  assume ok: "repo_ok (wd_repo w)" and run: "write_accepted env c ctx v f w = (Inr r, w')" and on: "bsr_action r = STAGE_CHECKPOINTED"
  from run obtain cmd out w1 w2 where cmd: "write_command c v f = Inr cmd"
    and written: "on_write_back (write_back (write_back_executor env) cmd ctx) w = (Inr out, w1)"
    and noted: "note_status c (wr_status out) w1 = (Inr (), w2)" and conclude: "conclude_write_back env c out w2 = (Inr r, w')"
    by (auto simp: write_accepted_def bindM_Inr liftR_def)
  from conclude on have st: "wr_status out \<in> {WB_COMMITTED, WB_RECOVERED}" and "w' = w2"
    by (auto simp: conclude_write_back_def Let_def bindM_Inr pureM_def stage_ended_def split: if_splits)
  with noted have w': "wd_repo w' = wd_repo w1" by (auto simp: note_status_def)
  from written obtain s s' where "write_back (write_back_executor env) cmd ctx s = (Inr out, s')"
      "es_repo (ws_effects s) = wd_repo w" "es_repo (ws_effects s') = wd_repo w1"
    by (auto simp: on_write_back_def Let_def split: prod.splits)
  with goes_on_written [OF this(1) st] ok w' have "due_stage (claimed_key (wc_claim cmd)) (wd_repo w') = None" by simp
  moreover from cmd have "wc_claim cmd = c"
    by (auto simp: write_command_def Let_def bindR_Inr WriteBackCommand_post_def split: list.splits if_splits)
  ultimately show "due_stage (claimed_key c) (wd_repo w') = next_stage CS_COMPLETED"
    using next_stage_None [of CS_COMPLETED] by simp
qed

lemmas goes_on_rules = goes_on_if goes_on_basic goes_on_checkpoint goes_on_write goes_on_bind
lemmas kept_rules = kept.frame_basic kept.frame_store kept.frame_read kept_packs kept.frame_bind

lemma goes_on_task: "goes_on (claimed_key c) stage (process_task env stage c ctx)"
  by (cases stage) (simp add: process_task_def; (intro goes_on_rules kept_rules)+)+

lemma goes_on_legacy: "goes_on (claimed_key c) stage (process_legacy env stage c ctx)"
  by (cases stage) (simp add: process_legacy_def; (intro goes_on_rules kept_rules)+)+

lemma resume_next: "resume_state job ikey r = Inr st \<Longrightarrow> rs_next_stage st = due_stage (job, ikey) r"
  by (auto simp: resume_state_def bindR_Inr Let_def due_stage_def split: option.splits)

lemma goes_on_body:
  fixes env :: "('x, 'a, 'z) pipeline_env"
  shows "goes_on (claimed_key c) stage (process_stage_body env c ctx)"
proof -
  let ?work = "bindM (reading (is_task env (wi_payload_reference (claim_item c))))
      (\<lambda>task. if task then process_task env stage c ctx else process_legacy env stage c ctx)"
  have work: "goes_on (claimed_key c) stage ?work"
    by (intro goes_on_bind goes_on_if goes_on_task goes_on_legacy kept.frame_basic)
  show ?thesis
    unfolding goes_on_def
  proof (intro allI impI)
    fix w w' :: "('x, 'a, 'z) pipeline_world" and r
    assume w: "repo_ok (wd_repo w)" "due_stage (claimed_key c) (wd_repo w) = Some stage"
      and run: "process_stage_body env c ctx w = (Inr r, w')" and on: "bsr_action r = STAGE_CHECKPOINTED"
    from run obtain st where st: "resume_state (fst (claimed_key c)) (snd (claimed_key c)) (wd_repo w) = Inr st"
      by (auto simp: process_stage_body_def bindM_Inr on_work_def)
    from resume_next [OF st] w(2) have "rs_next_stage st = Some stage" by simp
    with st run have "?work w = (Inr r, w')"
      by (auto simp: process_stage_body_def on_work_def bindM_def reading_def split: sum.splits if_splits)
    with work w on show "due_stage (claimed_key c) (wd_repo w') = next_stage stage" unfolding goes_on_def by blast
  qed
qed

lemma goes_on_stage:
  fixes env :: "('x, 'a, 'z) pipeline_env"
  shows "goes_on (claimed_key c) stage (process_stage env c ctx)"
  unfolding goes_on_def
proof (intro allI impI)
  fix w w' :: "('x, 'a, 'z) pipeline_world" and r
  assume w: "repo_ok (wd_repo w)" "due_stage (claimed_key c) (wd_repo w) = Some stage"
    and run: "process_stage env c ctx w = (Inr r, w')" and on: "bsr_action r = STAGE_CHECKPOINTED"
  obtain y w1 where body: "process_stage_body env c ctx w = (y, w1)" by fastforce
  show "due_stage (claimed_key c) (wd_repo w') = next_stage stage"
  proof (cases y)
    case (Inl e)
    with run body on show ?thesis
      by (auto simp: process_stage_def bindM_Inr pureM_def stage_ended_def split: prod.splits)
  next
    case (Inr x)
    with run body have "process_stage_body env c ctx w = (Inr r, w')" by (simp add: process_stage_def)
    with w on goes_on_body [of c stage env ctx] show ?thesis unfolding goes_on_def by blast
  qed
qed

section \<open>A run returns\<close>

lemma claimed_due:
  assumes ok: "repo_ok r" and run: "claim job ikey owner now d r = (Inr c, r')" and "acquired c"
  shows "repo_ok r' \<and> due_stage (job, ikey) r' = due_stage (job, ikey) r \<and> claimed_key c = (job, ikey)"
proof -
  have "repo_ok r'" using repo_ok_claim [OF ok, of job ikey owner now d] run by simp
  moreover have "dget (items_map r') (job, ikey) = Some (claim_item c) \<and> due_stage (job, ikey) r' = due_stage (job, ikey) r"
    by (rule claim_outcomes [OF ok, of job ikey owner now d])
       (use run \<open>acquired c\<close> in \<open>auto simp: acquired_def due_stage_def latest_def checkpoints_of_def\<close>)
  ultimately show ?thesis using item_of_key by (auto simp: claimed_key_def)
qed

lemma loop_returns:
  fixes w :: "('x, 'a, 'z) pipeline_world"
  assumes "repo_ok (wd_repo w)" and "remaining_stages (due_stage (job, ikey) (wd_repo w)) < fuel"
  shows "worker_loop fuel (pipeline_worker env) job ikey owner ctx limit results w \<noteq> None"
  using assms
proof (induction fuel arbitrary: results w)
  case (Suc fuel)
  obtain z w2 where claimed: "bindM (app_clock env) (\<lambda>now. on_work (claim job ikey owner now bulk_lease)) w = (z, w2)" by fastforce
  show ?case
  proof (cases "\<exists>c st. z = Inr c \<and> acquired c \<and> resume_state job ikey (wd_repo w) = Inr st \<and> rs_next_stage st \<noteq> None")
    case False
    with claimed show ?thesis by (auto simp: pipeline_worker_parts split: sum.splits)
  next
    case True
    then obtain c st stage where c: "z = Inr c" "acquired c" and st: "resume_state job ikey (wd_repo w) = Inr st"
        "rs_next_stage st = Some stage" by blast
    with resume_next have due: "due_stage (job, ikey) (wd_repo w) = Some stage" by metis
    from claimed c have "claim job ikey owner (pv_clock env (wd_clock w)) bulk_lease (wd_repo w) = (Inr c, wd_repo w2)"
      by (auto simp: bindM_Inr app_clock_def on_work_def split: prod.splits)
    from claimed_due [OF Suc.prems(1) this c(2)] due
    have w2: "repo_ok (wd_repo w2)" "due_stage (claimed_key c) (wd_repo w2) = Some stage" "claimed_key c = (job, ikey)" by simp_all
    obtain v w3 where stage: "process_stage env c ctx w2 = (v, w3)" by fastforce
    have "worker_loop fuel (pipeline_worker env) job ikey owner ctx limit (results @ [r]) w3 \<noteq> None"
      if r: "v = Inr r" "bsr_action r = STAGE_CHECKPOINTED" for r
    proof (rule Suc.IH)
      show "repo_ok (wd_repo w3)" by (rule future_ok [OF ahead.frame_run [OF forward.frame_stage stage] w2(1)])
      have "due_stage (job, ikey) (wd_repo w3) = next_stage stage"
        using goes_on_stage [of c stage env ctx, unfolded goes_on_def] w2 stage r by simp
      then show "remaining_stages (due_stage (job, ikey) (wd_repo w3)) < fuel"
        using Suc.prems(2) due remaining_next [of stage] by simp
    qed
    moreover have "bsr_action r = STAGE_TERMINAL \<or> bsr_action r = STAGE_CHECKPOINTED" for r :: bulk_stage_result
      by (cases "bsr_action r") simp_all
    ultimately show ?thesis using claimed c st stage by (auto simp: pipeline_worker_parts split: sum.splits)
  qed
qed simp

lemma resume_returns:
  assumes "repo_ok (wd_repo w)"
  shows "\<exists>y w'. worker_resume stage_rounds (pipeline_worker env) job ikey owner ctx limit w = Some (y, w') \<and> repo_ok (wd_repo w')"
proof -
  have "worker_loop stage_rounds (pipeline_worker env) job ikey owner ctx limit [] w \<noteq> None"
    by (rule loop_returns [OF assms]) (use remaining_bound [of "due_stage (job, ikey) (wd_repo w)"] in \<open>simp add: stage_rounds_def\<close>)
  then have "worker_resume stage_rounds (pipeline_worker env) job ikey owner ctx limit w \<noteq> None"
    by (cases limit) (simp_all add: worker_resume_def)
  then obtain y w' where run: "worker_resume stage_rounds (pipeline_worker env) job ikey owner ctx limit w = Some (y, w')" by auto
  with future_ok [OF forward.frame_resume [OF run] assms] show ?thesis by blast
qed

lemma item_returns:
  assumes "repo_ok (wd_repo w)"
  shows "\<exists>y w'. run_item env interrupt job ctx i w = Some (y, w') \<and> repo_ok (wd_repo w')"
proof -
  have full: "\<exists>y w'. (case worker_resume stage_rounds (pipeline_worker env) job (job @ '':'' @ i) ''worker-resumed'' ctx None w of
      None \<Rightarrow> None | Some (Inl e, w') \<Rightarrow> Some (Inl e, w') | Some (Inr _, w') \<Rightarrow> Some (Inr (), w')) = Some (y, w') \<and> repo_ok (wd_repo w')"
    if "repo_ok (wd_repo w)" for w
    using resume_returns [OF that, of env job "job @ '':'' @ i" "''worker-resumed''" ctx None] by (fastforce split: sum.splits)
  show ?thesis
  proof (cases interrupt)
    case False
    with full [OF assms] show ?thesis by (simp add: run_item_def)
  next
    case True
    obtain y w1 where first: "worker_resume stage_rounds (pipeline_worker env) job (job @ '':'' @ i) ''worker-before-crash'' ctx (Some 1) w
        = Some (y, w1)" "repo_ok (wd_repo w1)"
      using resume_returns [OF assms] by blast
    with True full [OF first(2)] show ?thesis by (cases y) (simp_all add: run_item_def)
  qed
qed

lemma items_return:
  "repo_ok (wd_repo w) \<Longrightarrow> \<exists>y w'. run_items env interrupt job ctx is w = Some (y, w') \<and> repo_ok (wd_repo w')"
proof (induction "is" arbitrary: w)
  case (Cons i "is")
  obtain y w1 where "run_item env interrupt job ctx i w = Some (y, w1)" "repo_ok (wd_repo w1)"
    using item_returns [OF Cons.prems] by blast
  with Cons.IH [of w1] show ?case by (cases y) auto
qed auto

lemma bulk_returns:
  assumes "repo_ok (wd_repo w)"
  shows "\<exists>y w'. run_bulk env d interrupt w = Some (y, w')"
proof (cases "\<exists>ctx out. ad_context d = Some ctx \<and> ad_outcome d = Some (Inr out)")
  case True
  then obtain ctx out where d: "ad_context d = Some ctx" "ad_outcome d = Some (Inr out)" by blast
  obtain y w1 where "run_items env interrupt (dr_job_id out) ctx (dr_submitted_item_ids out) w = Some (y, w1)"
    using items_return [OF assms] by blast
  with d show ?thesis by (cases y) (auto simp: run_bulk_def)
next
  case False
  then show ?thesis by (auto simp: run_bulk_def split: option.splits sum.splits)
qed

section \<open>A stage that fails\<close>

text \<open>\<open>fails_quietly m\<close>: an exception of \<open>m\<close> leaves the repository as it was.\<close>

definition fails_quietly :: "(('x, 'a, 'z) pipeline_world, 'r) meth \<Rightarrow> bool" where
  "fails_quietly m \<longleftrightarrow> (\<forall>w e w'. repo_ok (wd_repo w) \<longrightarrow> m w = (Inl e, w') \<longrightarrow> wd_repo w' = wd_repo w)"

lemma fails_quietly_bind:
  fixes m :: "(('x, 'a, 'z) pipeline_world, 'r) meth"
  assumes "kept.frame m" and "\<And>x. fails_quietly (f x)"
  shows "fails_quietly (bindM m f)"
  unfolding fails_quietly_def
proof (intro allI impI)
  fix w w' :: "('x, 'a, 'z) pipeline_world" and e
  assume ok: "repo_ok (wd_repo w)" and run: "bindM m f w = (Inl e, w')"
  obtain y w1 where m: "m w = (y, w1)" by fastforce
  have w1: "wd_repo w1 = wd_repo w" by (rule kept.frame_run [OF assms(1) m])
  show "wd_repo w' = wd_repo w"
  proof (cases y)
    case (Inl e')
    with run m w1 show ?thesis by (simp add: bindM_def)
  next
    case (Inr x)
    with run m have "f x w1 = (Inl e, w')" by (simp add: bindM_def)
    with assms(2) [of x, unfolded fails_quietly_def, rule_format, of w1 e w'] ok w1 show ?thesis by simp
  qed
qed

lemma fails_quietly_basic: "fails_quietly (raiseM e)"
  by (simp add: fails_quietly_def raiseM_def)

lemma fails_quietly_if: "(b \<Longrightarrow> fails_quietly m) \<Longrightarrow> (\<not> b \<Longrightarrow> fails_quietly m') \<Longrightarrow> fails_quietly (if b then m else m')"
  by simp

lemma checkpoint_refused: "repo_ok r \<Longrightarrow> checkpoint job ikey owner stage out now ref r = (Inl e, r') \<Longrightarrow> r' = r"
  by (rule checkpoint_outcomes [of r job ikey owner stage out now ref]) auto

lemma claim_checkpoint_refused: "repo_ok r \<Longrightarrow> claim_checkpoint c stage out now ref r = (Inl e, r') \<Longrightarrow> r' = r"
  by (auto simp: claim_checkpoint_def split: option.splits dest: checkpoint_refused)

lemma fails_quietly_checkpoint: "fails_quietly (stage_checkpoint env c stage out ref)"
  unfolding fails_quietly_def
  by (auto simp: stage_checkpoint_def bindM_def app_clock_def on_work_def pureM_def split: prod.splits sum.splits
      dest: claim_checkpoint_refused)

lemmas fails_quietly_rules = fails_quietly_if fails_quietly_basic fails_quietly_checkpoint fails_quietly_bind

lemma fails_quietly_task: "stage \<noteq> CS_COMPLETED \<Longrightarrow> fails_quietly (process_task env stage c ctx)"
  by (cases stage) (simp add: process_task_def; (intro fails_quietly_rules kept_rules)?)+

lemma task_failure_quiet:
  assumes "repo_ok (wd_repo w)" and "due_stage (claimed_key c) (wd_repo w) = Some stage" and "stage \<noteq> CS_COMPLETED"
    and "is_task env (wi_payload_reference (claim_item c)) (po_objects (wd_own w)) \<noteq> Inr False"
    and "process_stage_body env c ctx w = (Inl e, w')"
  shows "wd_repo w' = wd_repo w"
proof (cases "resume_state (fst (claimed_key c)) (snd (claimed_key c)) (wd_repo w)")
  case (Inl x)
  with assms(5) show ?thesis by (auto simp: process_stage_body_def bindM_def on_work_def)
next
  case (Inr st)
  from resume_next [OF Inr] assms(2) have "rs_next_stage st = Some stage" by simp
  with Inr assms(4,5) have "w' = w \<or> process_task env stage c ctx w = (Inl e, w')"
    by (auto simp: process_stage_body_def on_work_def bindM_def reading_def split: sum.splits if_splits)
  with fails_quietly_task [OF assms(3), of env c ctx] assms(1) show ?thesis unfolding fails_quietly_def by blast
qed

lemma terminal_outcome_closes:
  assumes ok: "repo_ok (wd_repo w)" and c: "acquired c" "dget (items_map (wd_repo w)) (claimed_key c) = Some (claim_item c)"
    and owns: "owns owner (pv_clock env (wd_clock w)) (claim_item c)"
    and code: "state \<noteq> TS_SUCCEEDED" "\<not> blank code"
    and run: "terminal_outcome env c state code det w = (y, w')"
  shows "\<exists>t. dget (terminal_map (wd_repo w')) (claimed_key c) = Some t \<and> tr_state t = state \<and> tr_failure_code t = Some code
    \<and> tr_failure_details t = Some det \<and> (\<forall>x. y = Inr x \<longrightarrow> x = t)
    \<and> (state = TS_RETRY_EXHAUSTED \<longrightarrow>
        (\<exists>l. dget (dlq_entries (po_dlq (wd_own w'))) (claimed_key c) = Some l \<and> dl_failure_code l = code)
        \<or> (\<exists>p \<in> set (failures_list (wd_repo w')). pf_job_id p = fst (claimed_key c) \<and> pf_operation p = ''dead_letter_persist''))"
proof -
  let ?own = "wd_own w"
  let ?s = "\<lparr>xs_repo = wd_repo w, xs_objects = po_objects ?own, xs_dlq = po_dlq ?own, xs_sink = iw_rest (po_models ?own),
             xs_clock = wd_clock w, xs_usage = po_usage ?own\<rparr>"
  let ?res = "\<lparr>er_state = state, er_failure_code = Some code, er_failure_details = Some det, er_result = None, er_token_usage = 0, er_cost = 0\<rparr>"
  have post: "ExecutionResult_post ?res = Inr ?res" using code by (simp add: ExecutionResult_post_def missing_text_def)
  obtain s' where exec: "execute_claim (job_executor env) (\<lambda>_. Inr ?res) c ?s = (y, s')" and w': "wd_repo w' = xs_repo s'"
      "po_dlq (wd_own w') = xs_dlq s'"
    using run post by (auto simp: terminal_outcome_def run_result_def bindM_def liftR_def on_executor_def Let_def split: prod.splits)
  have fresh: "dget (terminal_map (wd_repo w)) (claimed_key c) = None"
    using owned_open [OF cell_item [OF ok c(2)] owns] by simp
  have "\<exists>t. dget (terminal_map (xs_repo s')) (wi_job_id (claim_item c), wi_idempotency_key (claim_item c)) = Some t
    \<and> tr_state t = er_state ?res \<and> tr_failure_code t = Some code \<and> tr_failure_details t = Some det
    \<and> (er_state ?res = TS_RETRY_EXHAUSTED \<longrightarrow> evidence_kept (claim_item c) code s') \<and> (\<forall>x. y = Inr x \<longrightarrow> x = t)"
    by (rule execute_claim_closes [OF _ c(1) refl _ _ _ _ _ _ _ code(2) _ _ exec, of owner])
       (use ok c(2) owns fresh code(1) in \<open>simp_all add: claimed_key_def job_executor_def handled_def owns_def\<close>)
  with w' show ?thesis by (auto simp: claimed_key_def evidence_kept_def)
qed

section \<open>Models are consulted once\<close>

text \<open>After the stage that invokes the models, the planner and the gateway are not used again.\<close>

abbreviation other_models :: "'x planner_env \<Rightarrow> ('x, gateway_value) invoker_env \<Rightarrow> ('x, 'a, 'z) pipeline_env \<Rightarrow> ('x, 'a, 'z) pipeline_env" where
  "other_models p iv env \<equiv> env\<lparr>pv_planner := p, pv_invoker := iv\<rparr>"

lemma same_reading:
  "load_json (other_models p iv env) = load_json env" "load_result (other_models p iv env) = load_result env"
  "load_bytes (other_models p iv env) = load_bytes env" "is_task (other_models p iv env) = is_task env"
  by (simp_all add: fun_eq_iff load_json_def load_result_def load_bytes_def is_task_def stage_reader_def cong: if_cong)

lemma same_values:
  "raise_failure (other_models p iv env) = (raise_failure env :: _ \<Rightarrow> _ \<Rightarrow> 'r res)" "json_pack (other_models p iv env) = json_pack env"
  "function_named (other_models p iv env) = function_named env" "definition_named (other_models p iv env) = definition_named env"
  by (simp_all add: fun_eq_iff raise_failure_def failure_details_def json_pack_def resolved_payload_def function_named_def definition_named_def
      cong: if_cong pyval.case_cong option.case_cong)

lemma same_prepared: "load_prepared (other_models p iv env) = load_prepared env"
  by (simp add: fun_eq_iff load_prepared_def same_reading same_values cong: if_cong option.case_cong pyval.case_cong)

lemma same_parsed: "parsed_pack (other_models p iv env) = parsed_pack env"
  by (simp add: fun_eq_iff parsed_pack_def stage_parser_def same_values cong: sum.case_cong)

lemma same_parsing: "parse_responses (other_models p iv env) = parse_responses env"
  by (simp add: fun_eq_iff parse_responses_def same_parsed)

lemma same_access: "app_clock (other_models p iv env) = app_clock env" "store_result_bytes (other_models p iv env) = store_result_bytes env"
  by (simp_all add: fun_eq_iff app_clock_def store_result_bytes_def)

lemma same_steps:
  "stage_checkpoint (other_models p iv env) = stage_checkpoint env" "run_result (other_models p iv env) = run_result env"
  "prepared_again (other_models p iv env) = prepared_again env" "claimed_result (other_models p iv env) = claimed_result env"
  "validate_stage (other_models p iv env) = validate_stage env" "validate_item (other_models p iv env) = validate_item env"
  "store_canonical (other_models p iv env) = store_canonical env"
  by (simp_all add: fun_eq_iff stage_checkpoint_def same_access run_result_def job_executor_def prepared_again_def same_prepared
      claimed_result_def validate_stage_def validate_item_def same_reading store_canonical_def)

lemma same_write: "write_accepted (other_models p iv env) = write_accepted env"
  by (simp add: fun_eq_iff write_accepted_def write_back_executor_def conclude_write_back_def terminal_outcome_def same_steps Let_def
      cong: if_cong)

definition models_used :: "checkpoint_stage option \<Rightarrow> bool" where
  "models_used stage \<longleftrightarrow> stage \<notin> {Some CS_ACCEPTED, Some CS_MODEL_COMPLETED}"

lemma models_used_next: "models_used (Some stage) \<Longrightarrow> models_used (next_stage stage)"
  by (cases stage) (simp_all add: models_used_def next_stage_def checkpoint_stages_def)

lemma same_stage:
  assumes "due_stage (claimed_key c) (wd_repo w) = Some stage" and "models_used (Some stage)"
  shows "process_stage (other_models p iv env) c ctx w = process_stage env c ctx w"
proof -
  have task: "process_task (other_models p iv env) stage c ctx = process_task env stage c ctx"
    using assms(2) by (cases stage) (simp_all add: models_used_def process_task_def same_steps same_parsing same_write cong: if_cong)
  have legacy: "process_legacy (other_models p iv env) stage c ctx = process_legacy env stage c ctx"
    by (cases stage) (simp_all add: process_legacy_def same_steps same_write terminal_outcome_def cong: if_cong)
  have "process_stage_body (other_models p iv env) c ctx w = process_stage_body env c ctx w"
  proof (cases "resume_state (fst (claimed_key c)) (snd (claimed_key c)) (wd_repo w)")
    case (Inr st)
    with resume_next [OF Inr] assms(1) task legacy show ?thesis
      by (simp add: process_stage_body_def on_work_def bindM_def reading_def same_reading split: sum.split)
  qed (simp add: process_stage_body_def on_work_def bindM_def)
  then show ?thesis by (simp add: process_stage_def terminal_outcome_def same_steps split: prod.split sum.split)
qed

lemma same_loop:
  fixes w :: "('x, 'a, 'z) pipeline_world"
  assumes "repo_ok (wd_repo w)" and "models_used (due_stage (job, ikey) (wd_repo w))"
  shows "worker_loop fuel (pipeline_worker (other_models p iv env)) job ikey owner ctx limit results w
    = worker_loop fuel (pipeline_worker env) job ikey owner ctx limit results w"
  using assms
proof (induction fuel arbitrary: results w)
  case (Suc fuel)
  obtain z w2 where claimed: "bindM (app_clock env) (\<lambda>now. on_work (claim job ikey owner now bulk_lease)) w = (z, w2)" by fastforce
  show ?case
  proof (cases "\<exists>c st. z = Inr c \<and> acquired c \<and> resume_state job ikey (wd_repo w) = Inr st \<and> rs_next_stage st \<noteq> None")
    case False
    with claimed show ?thesis by (auto simp: pipeline_worker_parts same_access split: sum.splits)
  next
    case True
    then obtain c st stage where c: "z = Inr c" "acquired c" and st: "resume_state job ikey (wd_repo w) = Inr st"
        "rs_next_stage st = Some stage" by blast
    with resume_next have due: "due_stage (job, ikey) (wd_repo w) = Some stage" by metis
    from claimed c have "claim job ikey owner (pv_clock env (wd_clock w)) bulk_lease (wd_repo w) = (Inr c, wd_repo w2)"
      by (auto simp: bindM_Inr app_clock_def on_work_def split: prod.splits)
    from claimed_due [OF Suc.prems(1) this c(2)] due
    have w2: "repo_ok (wd_repo w2)" "due_stage (claimed_key c) (wd_repo w2) = Some stage" "claimed_key c = (job, ikey)" by simp_all
    have used: "models_used (Some stage)" using Suc.prems(2) due by simp
    obtain v w3 where stage: "process_stage env c ctx w2 = (v, w3)" by fastforce
    have "worker_loop fuel (pipeline_worker (other_models p iv env)) job ikey owner ctx limit (results @ [r]) w3
        = worker_loop fuel (pipeline_worker env) job ikey owner ctx limit (results @ [r]) w3"
      if r: "v = Inr r" "bsr_action r = STAGE_CHECKPOINTED" for r
    proof (rule Suc.IH)
      show "repo_ok (wd_repo w3)" by (rule future_ok [OF ahead.frame_run [OF forward.frame_stage stage] w2(1)])
      have "due_stage (job, ikey) (wd_repo w3) = next_stage stage"
        using goes_on_stage [of c stage env ctx, unfolded goes_on_def] w2 stage r by simp
      then show "models_used (due_stage (job, ikey) (wd_repo w3))" using models_used_next [OF used] by simp
    qed
    moreover have "bsr_action r = STAGE_TERMINAL \<or> bsr_action r = STAGE_CHECKPOINTED" for r :: bulk_stage_result
      by (cases "bsr_action r") simp_all
    ultimately show ?thesis
      using claimed c st stage same_stage [OF w2(2) used, where p = p and iv = iv and env = env and ctx = ctx]
      by (auto simp: pipeline_worker_parts same_access split: sum.splits)
  qed
qed simp

lemma future_reachable: "repo_future r r' \<Longrightarrow> repo_reachable r \<Longrightarrow> repo_reachable r'"
  by (induction rule: repo_future.induct) (auto intro: repo_reachable.step)

section \<open>Properties\<close>

text \<open>C15. A bulk run returns: from every reachable repository, whatever the models, the effect
  target, the clock, the telemetry and the authorization do, it ends within six rounds of
  the worker for each item and its resumption, and the repository it leaves is reachable.\<close>

theorem bulk_run_returns:
  assumes "repo_reachable (wd_repo w)"
  shows "\<exists>y w'. run_bulk env d interrupt w = Some (y, w') \<and> repo_reachable (wd_repo w')"
proof -
  obtain y w' where run: "run_bulk env d interrupt w = Some (y, w')"
    using bulk_returns [OF repo_reachable_ok [OF assms]] by blast
  from future_reachable [OF forward.frame_bulk [OF run] assms] run show ?thesis by blast
qed

text \<open>C12. A bulk run gives back what it takes: whatever becomes of its items, every budget
  reservation it has made is reconciled and every capacity lease it has acquired is released
  when it returns, and those of others are untouched; with candidates of non-negative cost and
  gateways that report non-negative usage.\<close>

theorem bulk_run_settles:
  assumes "planner_ok (pv_planner env)" and "gateway_ok (pv_invoker env)" and "books_ok (po_models (wd_own w))"
    and "run_bulk env d interrupt w = Some (y, w')"
  shows "books_ok (po_models (wd_own w'))
    \<and> open_reservations (iw_budget (po_models (wd_own w'))) = open_reservations (iw_budget (po_models (wd_own w)))
    \<and> leased (iw_capacity (po_models (wd_own w'))) = leased (iw_capacity (po_models (wd_own w)))"
  using settled.frame_bulk [OF assms(4)] assms(1-3) unfolding gives_back_def by blast

text \<open>C13. A task stage that fails closes its item: when a stage before the write-back raises, for an
  item that is claimed and still leased when the failure is recorded, the item gets the
  terminal outcome that the exception is classified as, with its code and its details, a
  retry-exhausted one is kept as a dead letter or as a recorded persistence failure, and a stage
  result carries the recorded outcome.\<close>

theorem stage_failure_terminal:
  assumes "repo_reachable (wd_repo w)" and "acquired c" and "dget (items_map (wd_repo w)) (claimed_key c) = Some (claim_item c)"
    and "due_stage (claimed_key c) (wd_repo w) = Some stage" and "stage \<noteq> CS_COMPLETED"
    and "is_task env (wi_payload_reference (claim_item c)) (po_objects (wd_own w)) \<noteq> Inr False"
    and "process_stage_body env c ctx w = (Inl e, w1)" and "owns owner (pv_clock env (wd_clock w1)) (claim_item c)"
    and "failure_outcome e = (state, code, det, out)" and "state \<noteq> TS_SUCCEEDED" and "\<not> blank code"
    and "process_stage env c ctx w = (y, w')"
  shows "\<exists>t. dget (terminal_map (wd_repo w')) (claimed_key c) = Some t \<and> tr_state t = state \<and> tr_failure_code t = Some code
    \<and> tr_failure_details t = Some det \<and> (\<forall>r. y = Inr r \<longrightarrow> r = stage_ended out t)
    \<and> (state = TS_RETRY_EXHAUSTED \<longrightarrow>
        (\<exists>l. dget (dlq_entries (po_dlq (wd_own w'))) (claimed_key c) = Some l \<and> dl_failure_code l = code)
        \<or> (\<exists>p \<in> set (failures_list (wd_repo w')). pf_job_id p = fst (claimed_key c) \<and> pf_operation p = ''dead_letter_persist''))"
proof -
  have ok: "repo_ok (wd_repo w)" by (rule repo_reachable_ok [OF assms(1)])
  have w1: "wd_repo w1 = wd_repo w" by (rule task_failure_quiet [OF ok assms(4-7)])
  obtain z w2 where run: "terminal_outcome env c state code det w1 = (z, w2)" by fastforce
  have "w2 = w'" and y: "\<And>r. y = Inr r \<Longrightarrow> \<exists>t. z = Inr t \<and> r = stage_ended out t"
    using assms(7,9,12) run by (auto simp: process_stage_def bindM_def pureM_def split: sum.splits)
  with terminal_outcome_closes [OF _ assms(2) _ assms(8,10,11) run] ok assms(3) w1 show ?thesis by auto
qed

text \<open>C14. Models are consulted once: when the stage that invokes the models is checkpointed,
  resuming the item, after a crash or not, does the same with any other planner and any other
  model gateway. What is left to do neither plans nor invokes a model.\<close>

theorem models_consulted_once:
  fixes w :: "('x, 'a, 'z) pipeline_world"
  assumes "repo_reachable (wd_repo w)" and "latest (job, ikey) (wd_repo w) = Some cp" and "CS_MODEL_COMPLETED \<le> completed_stage cp"
  shows "worker_resume fuel (pipeline_worker (env\<lparr>pv_planner := p, pv_invoker := iv\<rparr>)) job ikey owner ctx limit w
    = worker_resume fuel (pipeline_worker env) job ikey owner ctx limit w"
proof -
  have "models_used (due_stage (job, ikey) (wd_repo w))"
    using assms(2,3) by (cases "completed_stage cp")
      (simp_all add: due_stage_def models_used_def next_stage_def checkpoint_stages_def less_eq_checkpoint_stage_def)
  from same_loop [OF repo_reachable_ok [OF assms(1)] this] show ?thesis by (cases limit) (simp_all add: worker_resume_def)
qed

section \<open>Witnesses\<close>

text \<open>A pipeline whose payloads are missing from the object store, and an item that a run
  closes with that failure.\<close>

definition sample_pipeline :: "(nat, nat, authority) pipeline_env" where
  "sample_pipeline = \<lparr>sv_sha = sample_digest, sv_float = (\<lambda>_. []), sv_wide = (\<lambda>_. []), sv_number = (\<lambda>_. NaN), sv_depth = 10,
     sv_frames = 10, sv_lone = (\<lambda>_. False),
     sv_repr = class_name, sv_str = class_name, sv_encoded = (\<lambda>b. Inr b), sv_registry = empty_registry,
     pv_clock = (\<lambda>n. Aware (int n)), pv_started_at = Aware 0, pv_planner = ie_planner sample_environment,
     pv_invoker = ie_invoker sample_environment, pv_validator = ie_validator sample_environment, pv_rules = [],
     pv_job_telemetry = (\<lambda>_ s. (Inr (), s)), pv_audit = (\<lambda>_ s. (Inr (), s)), pv_adapter = sample_adapter,
     pv_recovery_clock = (\<lambda>n. Aware (int n)), pv_resolve = authority_resolve, pv_mutations = int, pv_events = int\<rparr>"

definition sample_pipeline_world :: "work_repository \<Rightarrow> (nat, nat, authority) pipeline_world" where
  "sample_pipeline_world r = \<lparr>wd_repo = r, wd_clock = 0, wd_own = \<lparr>po_objects = [], po_dlq = \<lparr>fail_item_ids = {}, dlq_entries = []\<rparr>,
     po_usage = [], po_models = sample_interactive_world, po_adapter = 0, po_recovery_clock = 0, po_authority = authority_init [] [],
     po_statuses = []\<rparr>\<rparr>"

definition sample_submitted :: work_repository where
  "sample_submitted = repo_apply (OpCreate (sample_item\<lparr>wi_idempotency_key := ''j:i''\<rparr>)
     (sample_outbox\<lparr>ob_notification := (ob_notification sample_outbox)\<lparr>wn_idempotency_key := ''j:i''\<rparr>\<rparr>)) repository_init"

definition sample_bulk_decision :: "(unit + bulk_dispatch_result) admission_decision" where
  "sample_bulk_decision = \<lparr>ad_status = ACCEPTED, ad_path = Some BULK, ad_context = Some sample_context,
     ad_outcome = Some (Inr \<lparr>dr_job_id = ''j'', dr_item_count = 1, dr_submitted_item_ids = [''i'']\<rparr>), ad_failure = None\<rparr>"

lemma sample_submitted_reachable: "repo_reachable sample_submitted"
  unfolding sample_submitted_def
  by (intro repo_reachable.intros) (simp add: sample_item_def sample_outbox_def WorkItem_post_def OutboxRecord_post_def)

lemma sample_bulk_states:
  "(case run_bulk sample_pipeline sample_bulk_decision False (sample_pipeline_world sample_submitted) of
      Some (Inr y, w') \<Rightarrow> br_states y = [(''i'', ''retry-exhausted'')] | _ \<Rightarrow> False)"
  by code_simp

lemma sample_books: "planner_ok (pv_planner sample_pipeline)" "gateway_ok (pv_invoker sample_pipeline)"
    "books_ok (po_models (wd_own (sample_pipeline_world r)))"
proof -
  show "planner_ok (pv_planner sample_pipeline)" "gateway_ok (pv_invoker sample_pipeline)"
    by (auto simp: planner_ok_def gateway_ok_def sample_pipeline_def sample_environment_def sample_candidate_def)
  have "ledger_ok [] Budget_Accounting.sample_bound" by (rule ledger_run_ok [OF sample_bound_run])
  then show "books_ok (po_models (wd_own (sample_pipeline_world r)))"
    using init_wf [of "[]"] by (auto simp: books_ok_def sample_pipeline_world_def sample_interactive_world_def limits_valid_def)
qed

lemma bulk_run_returns_witness:
  "\<exists>y w'. run_bulk sample_pipeline sample_bulk_decision False (sample_pipeline_world sample_submitted) = Some (Inr y, w')
     \<and> br_states y = [(''i'', ''retry-exhausted'')] \<and> repo_reachable (wd_repo w')"
proof -
  have "repo_reachable (wd_repo (sample_pipeline_world sample_submitted))"
    using sample_submitted_reachable by (simp add: sample_pipeline_world_def)
  from bulk_run_returns [OF this, of sample_pipeline sample_bulk_decision False] sample_bulk_states
  show ?thesis by (auto split: sum.splits)
qed

lemma bulk_run_settles_witness:
  "\<exists>y w'. run_bulk sample_pipeline sample_bulk_decision False (sample_pipeline_world sample_submitted) = Some (Inr y, w')
     \<and> leased (iw_capacity (po_models (wd_own w'))) = {}"
proof -
  obtain y w' where run: "run_bulk sample_pipeline sample_bulk_decision False (sample_pipeline_world sample_submitted) = Some (Inr y, w')"
    using sample_bulk_states by (auto split: option.splits sum.splits)
  from bulk_run_settles [OF sample_books run] run show ?thesis
    by (auto simp: sample_pipeline_world_def sample_interactive_world_def leased_def capacity_init_def)
qed

definition sample_stage_claim :: work_claim where
  "sample_stage_claim = \<lparr>claim_status = ACQUIRED, claim_item = sample_leased, claim_latest = None\<rparr>"

lemma sample_stage_key: "claimed_key sample_stage_claim = (''j'', ''k'')" "claim_item sample_stage_claim = sample_leased"
    "acquired sample_stage_claim"
  by (simp_all add: claimed_key_def sample_stage_claim_def claimed_item_def sample_item_def acquired_def)

lemma sample_stage_due: "due_stage (''j'', ''k'') sample_claimed = Some CS_ACCEPTED"
  using sample_created_latest by (simp add: due_stage_def latest_def checkpoints_of_def sample_claimed_def claim_writes)

lemma stage_failure_terminal_witness:
  "\<exists>t. dget (terminal_map (wd_repo (snd (process_stage sample_pipeline sample_stage_claim sample_context
      (sample_pipeline_world sample_claimed))))) (''j'', ''k'') = Some t \<and> tr_state t = TS_RETRY_EXHAUSTED
     \<and> tr_failure_code t = Some ''KeyError''"
proof -
  let ?w = "sample_pipeline_world sample_claimed"
  obtain e where e: "is_task sample_pipeline (wi_payload_reference sample_leased) [] = Inl e" "exn_name e = ''KeyError''"
      "failure_outcome e = (TS_RETRY_EXHAUSTED, ''KeyError'', exn_text e, ''retry_exhausted'')"
    by (simp add: is_task_def load_json_def get_object_def failure_outcome_def)
  obtain st where "resume_state ''j'' ''k'' sample_claimed = Inr st"
    using sample_claimed_item by (simp add: resume_state_def require_item_def Let_def)
  then have body: "process_stage_body sample_pipeline sample_stage_claim sample_context ?w = (Inl e, ?w)"
    using e(1) by (simp add: process_stage_body_def sample_stage_key on_work_def bindM_def reading_def sample_pipeline_world_def)
  obtain y w' where run: "process_stage sample_pipeline sample_stage_claim sample_context ?w = (y, w')" by fastforce
  have "owns ''w1'' (Aware 0) sample_leased"
    by (simp add: owns_def live_lease_def expiry_after_def claimed_item_def)
  with stage_failure_terminal [OF _ sample_stage_key(3) _ _ _ _ body _ e(3) _ _ run, of CS_ACCEPTED "''w1''"]
    sample_claimed_reachable sample_claimed_item sample_stage_due e(1) run
  show ?thesis by (auto simp: sample_stage_key sample_pipeline_world_def sample_pipeline_def)
qed

definition sample_paid :: work_repository where
  "sample_paid = repo_apply (OpCheckpoint ''j'' ''k'' ''w1'' CS_MODEL_COMPLETED ''ok'' (Aware 5) None) sample_claimed"

lemma models_consulted_once_witness:
  "worker_resume 6 (pipeline_worker (sample_pipeline\<lparr>pv_planner := (pv_planner sample_pipeline)\<lparr>pl_candidates := (\<lambda>_ _. [])\<rparr>,
      pv_invoker := pv_invoker sample_pipeline\<rparr>)) ''j'' ''k'' ''w2'' sample_context None (sample_pipeline_world sample_paid)
    = worker_resume 6 (pipeline_worker sample_pipeline) ''j'' ''k'' ''w2'' sample_context None (sample_pipeline_world sample_paid)"
proof -
  have "repo_reachable sample_paid"
    unfolding sample_paid_def by (intro repo_reachable.step sample_claimed_reachable) simp
  moreover have "case latest (''j'', ''k'') sample_paid of Some cp \<Rightarrow> completed_stage cp = CS_MODEL_COMPLETED | None \<Rightarrow> False"
    by code_simp
  then obtain cp where "latest (''j'', ''k'') sample_paid = Some cp" "completed_stage cp = CS_MODEL_COMPLETED"
    by (auto split: option.splits)
  ultimately show ?thesis
    by (intro models_consulted_once) (auto simp: sample_pipeline_world_def)
qed

end
